(* ===== verification/Prelude.thy ===== *)
theory Prelude
  imports Main "HOL-Library.Word" "HOL-Library.Monad_Syntax"
begin

text \<open>
  Shared vocabulary of the development: names for the C integer types, the fact
  collections the component theories fill, and generic lemmas on lists updated by
  index, on residues and on words.
\<close>

unbundle bit_operations_syntax

section \<open>Machine integer types\<close>

type_synonym u8 = "8 word"
type_synonym u16 = "16 word"
type_synonym u32 = "32 word"
type_synonym u64 = "64 word"

section \<open>Fact collections\<close>

named_theorems bn_len \<open>length preservation of the big-number operations\<close>
named_theorems bn_value \<open>value equations of the big-number operations\<close>
named_theorems exec \<open>symbolic execution of the monitor's handlers\<close>

section \<open>Lists updated by index\<close>

lemma take_Suc_update:
  "k < length c \<Longrightarrow> take (Suc k) (c[k := w]) = take k c @ [w]"
  by (simp add: take_Suc_conv_app_nth)

lemma length_fold_update [simp]:
  "length (fold (\<lambda>i xs. xs[f i xs := g i xs]) is xs) = length xs"
  by (induction "is" arbitrary: xs) auto

text \<open>A loop that overwrites element \<open>i\<close> for each \<open>i\<close> of a list, whatever it held.\<close>

lemma nth_fold_fill:
  "j < length xs \<Longrightarrow>
   fold (\<lambda>i xs. xs[i := h i]) is xs ! j = (if j \<in> set is then h j else xs ! j)"
  by (induction "is" arbitrary: xs) (auto simp: nth_list_update)

lemma nth_fold_overwrite:
  "j < length xs \<Longrightarrow>
   fold (\<lambda>i xs. xs[i := h i]) [0..<k] xs ! j = (if j < k then h j else xs ! j)"
  by (simp add: nth_fold_fill)

text \<open>
  An ascending in-place loop whose step at \<open>i\<close> reads elements \<open>i\<close> and \<open>i + 1\<close>: it
  never sees an element it has already written.
\<close>

lemma nth_fold_ascending:
  assumes "k < length xs" and "j < length xs"
  shows "fold (\<lambda>i xs. xs[i := g (xs ! i) (xs ! Suc i)]) [0..<k] xs ! j =
         (if j < k then g (xs ! j) (xs ! Suc j) else xs ! j)"
  using assms
proof (induction k arbitrary: j)
  case 0
  then show ?case by simp
next
  case (Suc k)
  have "fold (\<lambda>i xs. xs[i := g (xs ! i) (xs ! Suc i)]) [0..<k] xs ! k = xs ! k"
    and "fold (\<lambda>i xs. xs[i := g (xs ! i) (xs ! Suc i)]) [0..<k] xs ! Suc k = xs ! Suc k"
    using Suc by simp_all
  with Suc show ?case by (auto simp: nth_list_update less_Suc_eq)
qed

text \<open>
  A descending in-place loop over \<open>n > i \<ge> l\<close> whose step at \<open>i\<close> reads elements \<open>i\<close>
  and \<open>i - d\<close>.
\<close>

lemma nth_fold_descending:
  assumes "l \<le> n" and "n \<le> length xs" and "j < length xs"
  shows "fold (\<lambda>i xs. xs[i := g (xs ! i) (xs ! (i - d))]) (rev [l..<n]) xs ! j =
         (if l \<le> j \<and> j < n then g (xs ! j) (xs ! (j - d)) else xs ! j)"
  using assms
proof (induction "n - l" arbitrary: l j)
  case 0
  then have "rev [l..<n] = []" by simp
  with 0 show ?case by auto
next
  case (Suc m)
  then have l: "l < n" by simp
  let ?r = "fold (\<lambda>i xs. xs[i := g (xs ! i) (xs ! (i - d))]) (rev [Suc l..<n]) xs"
  have len: "length ?r = length xs" by simp
  have old: "?r ! l = xs ! l" "?r ! (l - d) = xs ! (l - d)"
    using Suc.hyps(1) [of "Suc l" l] Suc.hyps(1) [of "Suc l" "l - d"] Suc.hyps(2) Suc.prems l
    by auto
  have new: "?r ! j = (if Suc l \<le> j \<and> j < n then g (xs ! j) (xs ! (j - d)) else xs ! j)"
    using Suc.hyps(1) [of "Suc l" j] Suc.hyps(2) Suc.prems l by auto
  have "fold (\<lambda>i xs. xs[i := g (xs ! i) (xs ! (i - d))]) (rev [l..<n]) xs =
        ?r[l := g (?r ! l) (?r ! (l - d))]"
    using l by (simp add: upt_conv_Cons [of l n])
  then show ?case
    using old new len Suc.prems l by (auto simp: nth_list_update)
qed

section \<open>Residues\<close>

lemma mod_mult_cancel_coprime:
  fixes a b m r :: nat
  assumes "(a * r) mod m = (b * r) mod m" and "coprime r m"
  shows "a mod m = b mod m"
proof -
  have "int m dvd (int a - int b) * int r"
    using assms(1) by (metis int_ops(7) left_diff_distrib mod_eq_dvd_iff of_nat_mod)
  moreover have "coprime (int m) (int r)"
    using assms(2) by (simp add: coprime_commute)
  ultimately have "int m dvd int a - int b"
    by (simp add: coprime_dvd_mult_left_iff)
  then show ?thesis
    by (metis mod_eq_dvd_iff of_nat_eq_iff of_nat_mod)
qed

lemma mod_add_cancel_nat:
  fixes a b d m :: nat
  assumes "(a + d) mod m = (b + d) mod m"
  shows "a mod m = b mod m"
proof -
  have "int m dvd (int a + int d) - (int b + int d)"
    using assms by (metis mod_eq_dvd_iff of_nat_add of_nat_mod)
  then have "int m dvd int a - int b" by simp
  then show ?thesis
    by (metis mod_eq_dvd_iff of_nat_eq_iff of_nat_mod)
qed

lemma nat_sub_residue:
  fixes a b m :: nat
  shows "b \<le> a \<Longrightarrow> a < m \<Longrightarrow> (a + (m - b)) mod m = a - b"
  by (cases "b = 0") (auto simp: mod_if)

lemma mod_pow2_bit: "bit e i \<Longrightarrow> e mod 2 ^ Suc i = e mod 2 ^ i + 2 ^ i" for e i :: nat
  unfolding take_bit_eq_mod [symmetric] by (simp add: take_bit_Suc_from_most)

lemma mod_pow2_no_bit: "\<not> bit e i \<Longrightarrow> e mod 2 ^ Suc i = e mod 2 ^ i" for e i :: nat
  unfolding take_bit_eq_mod [symmetric] by (simp add: take_bit_Suc_from_most)

section \<open>Words\<close>

lemma unat_ucast_low32: "unat (ucast (x :: u64) :: u32) = unat x mod 2 ^ 32"
  by (simp add: unsigned_ucast_eq take_bit_eq_mod)

lemma unat_u32_less: "unat (x :: u32) < 4294967296"
proof -
  have "unat x < 2 ^ LENGTH(32)" by (rule unsigned_less)
  then show ?thesis by simp
qed

lemma unat_u64_less: "unat (x :: u64) < 18446744073709551616"
proof -
  have "unat x < 2 ^ LENGTH(64)" by (rule unsigned_less)
  then show ?thesis by simp
qed

lemma unat_ucast_up32 [simp]: "unat (ucast (x :: u32) :: u64) = unat x"
  using unat_u32_less [of x] by (simp add: unsigned_ucast_eq take_bit_eq_mod)

lemma unat_minus_one_u32 [simp]: "unat (- 1 :: u32) = 4294967295"
  by (simp add: unsigned_minus_1_eq_mask mask_eq_exp_minus_1)

lemma unat_drop_bit: "unat (drop_bit n (w :: 'a::len word)) = unat w div 2 ^ n"
  by (simp add: unat_drop_bit_eq flip: drop_bit_eq_div)

lemma unat_and_low32: "unat ((x :: u64) AND 0xFFFFFFFF) = unat x mod 2 ^ 32"
proof -
  have "unat (take_bit 32 x) = take_bit 32 (unat x)"
    by (simp add: unsigned_take_bit_eq)
  also have "\<dots> = unat x mod 2 ^ 32" by (rule take_bit_eq_mod)
  finally show ?thesis by (simp add: take_bit_eq_mask mask_numeral)
qed

section \<open>Monitors of a log\<close>

text \<open>A log has its newest event first; a monitor runs over it from the oldest, and \<open>None\<close> is a violation.\<close>

primrec run_monitor :: "('e \<Rightarrow> 'st \<Rightarrow> 'st option) \<Rightarrow> 'st \<Rightarrow> 'e list \<Rightarrow> 'st option" where
  "run_monitor step z [] = Some z"
| "run_monitor step z (e # s) = Option.bind (run_monitor step z s) (step e)"

lemma run_monitor_split:
  "run_monitor step z (later @ e # earlier) = Some st \<Longrightarrow> \<exists>st1. run_monitor step z earlier = Some st1 \<and> step e st1 \<noteq> None"
proof (induction later arbitrary: st)
  case Nil
  then show ?case by (cases "run_monitor step z earlier") auto
next
  case (Cons a later)
  then show ?case by (cases "run_monitor step z (later @ e # earlier)") auto
qed

lemma run_monitor_suffix:
  assumes "run_monitor f z (xs @ ys) = Some st" shows "\<exists>st'. run_monitor f z ys = Some st'"
  using assms by (induction xs arbitrary: st) (auto simp: bind_eq_Some_conv)

text \<open>
  What the users of a monitor need: a class of events that it ignores, so a log
  extended by such events is in the same monitor state.
\<close>

locale log_monitor =
  fixes step :: "'e \<Rightarrow> 'st \<Rightarrow> 'st option"
    and watched :: "'e \<Rightarrow> bool"
  assumes ignores: "\<not> watched e \<Longrightarrow> step e st = Some st"
begin

lemma run_ignored: "\<not> watched e \<Longrightarrow> run_monitor step z (e # s) = run_monitor step z s"
  by (cases "run_monitor step z s") (simp_all add: ignores)

lemma run_filter: "run_monitor step z (filter watched s) = run_monitor step z s"
  by (induction s) (simp_all add: run_ignored del: run_monitor.simps(2), simp)

lemma run_unwatched:
  assumes "filter watched s' = filter watched s"
  shows "run_monitor step z s' = run_monitor step z s"
  using run_filter [of z s'] run_filter [of z s] assms by simp

end

end
