(* ===== verification/Bignum.thy ===== *)
theory Bignum
  imports Prelude
begin

text \<open>
  The big-number library of the signing module: src/tetd_x86/s4/bignum.h and
  src/tetd_x86/s4/bignum.c. This theory holds the representation, initialisation,
  conversion, increment, addition and subtraction. \<open>struct bn\<close> has one member, an
  array of \<open>BN_ARRAY_SIZE\<close> 32-bit words, least significant first; it is the list of
  its words. A C destination argument is a parameter (its old contents) and the
  result is its new contents. The routines that the source keeps in an unoptimised
  form inside comments are modelled too, under the suffix \<open>_unopt\<close>.
\<close>

section \<open>Representation\<close>

definition WORD_SIZE :: nat where
  "WORD_SIZE = 4"

definition BN_ARRAY_SIZE :: nat where
  "BN_ARRAY_SIZE = (384 div WORD_SIZE) + 1"

definition MAX_VAL :: u64 where
  "MAX_VAL = 0xFFFFFFFF"

type_synonym bn = "u32 list"

text \<open>A well-formed \<open>struct bn\<close> has all its words; its value is read base \<open>2 ^ 32\<close>.\<close>

definition bn_wf :: "bn \<Rightarrow> bool" where
  "bn_wf a \<longleftrightarrow> length a = BN_ARRAY_SIZE"

fun bn_val :: "bn \<Rightarrow> nat" where
  "bn_val [] = 0"
| "bn_val (w # ws) = unat w + 2 ^ 32 * bn_val ws"

abbreviation bn_limit :: nat where
  "bn_limit \<equiv> 2 ^ (32 * BN_ARRAY_SIZE)"

lemma BN_ARRAY_SIZE_97: "BN_ARRAY_SIZE = 97"
  by (simp add: BN_ARRAY_SIZE_def WORD_SIZE_def)

lemma bn_val_append: "bn_val (xs @ ys) = bn_val xs + 2 ^ (32 * length xs) * bn_val ys"
  by (induction xs) (simp_all add: power_add algebra_simps)

lemma bn_val_less: "bn_val ws < 2 ^ (32 * length ws)"
proof (induction ws)
  case Nil
  then show ?case by simp
next
  case (Cons w ws)
  have "unat w + 2 ^ 32 * bn_val ws < 2 ^ 32 * (bn_val ws + 1)"
    using unat_u32_less [of w] by simp
  also have "\<dots> \<le> 2 ^ 32 * 2 ^ (32 * length ws)"
    using Cons by (intro mult_le_mono2) simp
  finally show ?case by (simp add: power_add)
qed

lemma bn_val_limit: "bn_wf a \<Longrightarrow> bn_val a < bn_limit"
  using bn_val_less [of a] by (simp add: bn_wf_def)

lemma bn_val_mod [simp]: "bn_wf a \<Longrightarrow> bn_val a mod bn_limit = bn_val a"
  using bn_val_limit by simp

lemma bn_val_replicate_0 [simp]: "bn_val (replicate n 0) = 0"
  by (induction n) simp_all

lemma bn_val_take_Suc:
  "k < length a \<Longrightarrow> bn_val (take (Suc k) a) = bn_val (take k a) + 2 ^ (32 * k) * unat (a ! k)"
  by (simp add: take_Suc_conv_app_nth bn_val_append)

lemma bn_val_inject:
  "length a = length b \<Longrightarrow> bn_val a = bn_val b \<Longrightarrow> a = b"
proof (induction a b rule: list_induct2)
  case Nil
  then show ?case by simp
next
  case (Cons x xs y ys)
  have "unat x mod 2 ^ 32 = (unat x + 2 ^ 32 * bn_val xs) mod 2 ^ 32" by simp
  also have "\<dots> = (unat y + 2 ^ 32 * bn_val ys) mod 2 ^ 32" using Cons.prems by simp
  finally have "unat x = unat y"
    using unat_u32_less [of x] unat_u32_less [of y] by simp
  with Cons show ?case by (simp add: word_unat_eq_iff)
qed

section \<open>Initialisation and copying\<close>

text \<open>
  \<open>bignum_init\<close> clears four words per iteration, from the top word down, and word 0
  first. The C variable \<open>z\<close> is \<open>z - z\<close>, which is 0.
\<close>

function bignum_init_loop :: "nat \<Rightarrow> u32 \<Rightarrow> bn \<Rightarrow> bn" where
  "bignum_init_loop i z n =
     (if i > 0 then bignum_init_loop (i - 4) z (n[i := z, i - 1 := z, i - 2 := z, i - 3 := z])
      else n)"
  by pat_completeness auto
termination
  by (relation "measure (\<lambda>(i, z, n). i)") auto

declare bignum_init_loop.simps [simp del]

definition bignum_init :: "bn \<Rightarrow> bn" where
  "bignum_init n = (let z = 0 in bignum_init_loop (BN_ARRAY_SIZE - 1) z (n[0 := z]))"

definition bignum_init_unopt :: "bn \<Rightarrow> bn" where
  "bignum_init_unopt n = fold (\<lambda>i n. n[i := 0]) [0..<BN_ARRAY_SIZE] n"

text \<open>\<open>bignum_assign\<close> copies four words per iteration.\<close>

function bignum_assign_loop :: "nat \<Rightarrow> bn \<Rightarrow> bn \<Rightarrow> bn" where
  "bignum_assign_loop i dst src =
     (if i > 0
      then bignum_assign_loop (i - 4)
             (dst[i := src ! i, i - 1 := src ! (i - 1), i - 2 := src ! (i - 2), i - 3 := src ! (i - 3)])
             src
      else dst[0 := src ! 0])"
  by pat_completeness auto
termination
  by (relation "measure (\<lambda>(i, dst, src). i)") auto

declare bignum_assign_loop.simps [simp del]

definition bignum_assign :: "bn \<Rightarrow> bn \<Rightarrow> bn" where
  "bignum_assign dst src = bignum_assign_loop (BN_ARRAY_SIZE - 1) dst src"

definition bignum_assign_unopt :: "bn \<Rightarrow> bn \<Rightarrow> bn" where
  "bignum_assign_unopt dst src = fold (\<lambda>i dst. dst[i := src ! i]) [0..<BN_ARRAY_SIZE] dst"

lemma nth_update4:
  assumes "4 \<le> i" and "i < length d" and "j < length d"
  shows "d[i := f i, i - 1 := f (i - 1), i - 2 := f (i - 2), i - 3 := f (i - 3)] ! j =
         (if i - 4 < j \<and> j \<le> i then f j else d ! j)"
proof -
  have "i - 4 < j \<and> j \<le> i \<longleftrightarrow> j = i \<or> j = i - 1 \<or> j = i - 2 \<or> j = i - 3"
    using assms(1) by linarith
  then show ?thesis
    using assms by (auto simp: nth_list_update)
qed

lemma bignum_assign_loop_nth:
  assumes "i = 4 * k" and "i < length dst"
  shows "length (bignum_assign_loop i dst src) = length dst \<and>
         (\<forall>j < length dst. bignum_assign_loop i dst src ! j = (if j \<le> i then src ! j else dst ! j))"
  using assms
proof (induction k arbitrary: i dst)
  case 0
  then show ?case by (simp add: bignum_assign_loop.simps)
next
  case (Suc k)
  let ?d = "dst[i := src ! i, i - 1 := src ! (i - 1), i - 2 := src ! (i - 2), i - 3 := src ! (i - 3)]"
  have i: "i - 4 = 4 * k" "i - 4 < length ?d" "i > 0" "4 \<le> i" using Suc.prems by auto
  have step: "bignum_assign_loop i dst src = bignum_assign_loop (i - 4) ?d src"
    using i(3) by (simp add: bignum_assign_loop.simps [of i])
  have upd: "j < length dst \<Longrightarrow> ?d ! j = (if i - 4 < j \<and> j \<le> i then src ! j else dst ! j)" for j
    using nth_update4 [OF i(4) Suc.prems(2), of j "\<lambda>i. src ! i"] by simp
  show ?case
    unfolding step using Suc.IH [OF i(1,2)] upd by auto
qed

lemma bignum_init_loop_nth:
  assumes "i = 4 * k" and "i < length n"
  shows "length (bignum_init_loop i z n) = length n \<and>
         (\<forall>j < length n. bignum_init_loop i z n ! j = (if 0 < j \<and> j \<le> i then z else n ! j))"
  using assms
proof (induction k arbitrary: i n)
  case 0
  then show ?case by (simp add: bignum_init_loop.simps)
next
  case (Suc k)
  let ?d = "n[i := z, i - 1 := z, i - 2 := z, i - 3 := z]"
  have i: "i - 4 = 4 * k" "i - 4 < length ?d" "i > 0" "4 \<le> i" using Suc.prems by auto
  have step: "bignum_init_loop i z n = bignum_init_loop (i - 4) z ?d"
    using i(3) by (simp add: bignum_init_loop.simps [of i])
  have upd: "j < length n \<Longrightarrow> ?d ! j = (if i - 4 < j \<and> j \<le> i then z else n ! j)" for j
    using nth_update4 [OF i(4) Suc.prems(2), of j "\<lambda>_. z"] by simp
  show ?case
    unfolding step using Suc.IH [OF i(1,2)] upd by auto
qed

text \<open>
  The unrolled loops touch every word exactly because \<open>BN_ARRAY_SIZE - 1\<close> is a
  multiple of four.
\<close>

lemma bignum_assign_value [simp]: "bn_wf dst \<Longrightarrow> bn_wf src \<Longrightarrow> bignum_assign dst src = src"
  using bignum_assign_loop_nth [of "BN_ARRAY_SIZE - 1" 24 dst src]
  by (auto simp: bignum_assign_def bn_wf_def BN_ARRAY_SIZE_97 intro: nth_equalityI)

lemma bignum_init_value [simp]: "bn_wf n \<Longrightarrow> bignum_init n = replicate BN_ARRAY_SIZE 0"
  using bignum_init_loop_nth [of "BN_ARRAY_SIZE - 1" 24 "n[0 := 0]" 0]
  by (auto simp: bignum_init_def bn_wf_def BN_ARRAY_SIZE_97 nth_list_update Let_def
      simp del: replicate.simps intro!: nth_equalityI)

lemma bignum_assign_unopt_eq:
  "bn_wf dst \<Longrightarrow> bn_wf src \<Longrightarrow> bignum_assign_unopt dst src = bignum_assign dst src"
  by (auto simp: bignum_assign_unopt_def bn_wf_def nth_fold_overwrite intro!: nth_equalityI)

lemma bignum_init_unopt_eq: "bn_wf n \<Longrightarrow> bignum_init_unopt n = bignum_init n"
  by (auto simp: bignum_init_unopt_def bn_wf_def nth_fold_overwrite
      simp del: replicate.simps intro!: nth_equalityI)

lemma bn_wf_replicate [simp]: "bn_wf (replicate BN_ARRAY_SIZE z)"
  by (simp add: bn_wf_def)

lemma bn_wf_update [simp]: "bn_wf (a[i := w]) = bn_wf a"
  by (simp add: bn_wf_def)

section \<open>Conversion from and to machine integers\<close>

text \<open>The \<open>WORD_SIZE == 4\<close> branches of the preprocessor conditionals.\<close>

definition bignum_from_int :: "bn \<Rightarrow> u64 \<Rightarrow> bn" where
  "bignum_from_int n i =
     (let n = bignum_init n;
          n = n[0 := ucast i];
          num_32 = 32;
          tmp = drop_bit num_32 i
      in n[1 := ucast tmp])"

definition bignum_to_int :: "bn \<Rightarrow> 32 word" where
  "bignum_to_int n = (let ret = 0 in ret + n ! 0)"

lemma bignum_from_int_wf [simp]: "bn_wf n \<Longrightarrow> bn_wf (bignum_from_int n i)"
  by (simp add: bignum_from_int_def Let_def)

lemma bignum_from_int_words:
  "bn_wf n \<Longrightarrow> bignum_from_int n i = ucast i # ucast (drop_bit 32 i) # replicate 95 0"
  by (simp add: bignum_from_int_def Let_def BN_ARRAY_SIZE_97 list_update_code numeral_eq_Suc)

lemma bignum_from_int_value [bn_value]:
  assumes "bn_wf n"
  shows "bn_val (bignum_from_int n i) = unat i"
proof -
  have "unat i div 2 ^ 32 < 2 ^ 32"
    using unat_u64_less [of i] by (intro less_mult_imp_div_less) simp
  then have "unat (ucast (drop_bit 32 i) :: u32) = unat i div 2 ^ 32"
    by (simp only: unat_ucast_low32 unat_drop_bit mod_less)
  then show ?thesis
    by (simp add: bignum_from_int_words [OF assms] unat_ucast_low32)
qed

section \<open>Increment and decrement\<close>

text \<open>
  Both loops stop at the first word that does not wrap; the fuel-free recursion is on
  the number of words left.
\<close>

function bignum_dec_loop :: "nat \<Rightarrow> bn \<Rightarrow> bn" where
  "bignum_dec_loop i n =
     (if i < BN_ARRAY_SIZE
      then let tmp = n ! i; res = tmp - 1; n = n[i := res]
           in if \<not> res > tmp then n else bignum_dec_loop (i + 1) n
      else n)"
  by pat_completeness auto
termination
  by (relation "measure (\<lambda>(i, n). BN_ARRAY_SIZE - i)") auto

declare bignum_dec_loop.simps [simp del]

definition bignum_dec :: "bn \<Rightarrow> bn" where
  "bignum_dec n = bignum_dec_loop 0 n"

function bignum_inc_loop :: "nat \<Rightarrow> bn \<Rightarrow> bn" where
  "bignum_inc_loop i n =
     (if i < BN_ARRAY_SIZE
      then let tmp = (ucast (n ! i) :: u64); res = (ucast (tmp + 1) :: u32); n = n[i := res]
           in if ucast res > tmp then n else bignum_inc_loop (i + 1) n
      else n)"
  by pat_completeness auto
termination
  by (relation "measure (\<lambda>(i, n). BN_ARRAY_SIZE - i)") auto

declare bignum_inc_loop.simps [simp del]

definition bignum_inc :: "bn \<Rightarrow> bn" where
  "bignum_inc n = bignum_inc_loop 0 n"

text \<open>
  Values: increment adds 1 modulo the width, decrement subtracts 1 modulo the width.
  The loop invariant compares the words from \<open>i\<close> on.
\<close>

lemma bn_val_update:
  assumes "i < length n"
  shows "bn_val (n[i := w]) + 2 ^ (32 * i) * unat (n ! i) = bn_val n + 2 ^ (32 * i) * unat w"
proof -
  have "bn_val n = bn_val (take i n @ n ! i # drop (Suc i) n)"
    using assms by (simp add: id_take_nth_drop [symmetric])
  then show ?thesis
    using assms by (simp add: upd_conv_take_nth_drop bn_val_append distrib_left)
qed

lemma bignum_inc_loop_spec:
  assumes "bn_wf n" and "i \<le> BN_ARRAY_SIZE"
  shows "bn_wf (bignum_inc_loop i n) \<and>
         bn_val (bignum_inc_loop i n) = (bn_val n + 2 ^ (32 * i)) mod bn_limit"
  using assms
proof (induction i n rule: bignum_inc_loop.induct)
  case (1 i n)
  let ?res = "ucast ((ucast (n ! i) :: u64) + 1) :: u32"
  let ?n = "n[i := ?res]"
  show ?case
  proof (cases "i < BN_ARRAY_SIZE")
    case False
    with 1 have "i = BN_ARRAY_SIZE" by simp
    with 1 show ?thesis by (simp add: bignum_inc_loop.simps [of BN_ARRAY_SIZE n])
  next
    case True
    have res: "unat ?res = (unat (n ! i) + 1) mod 2 ^ 32"
      using unat_u32_less [of "n ! i"] by (simp add: unat_ucast_low32 unat_word_ariths)
    have val: "bn_val ?n + 2 ^ (32 * i) * unat (n ! i) = bn_val n + 2 ^ (32 * i) * unat ?res"
      using True 1 by (intro bn_val_update) (simp add: bn_wf_def)
    show ?thesis
    proof (cases "unat (n ! i) = 2 ^ 32 - 1")
      case wrap: True
      then have r0: "unat ?res = 0" using res by simp
      then have "\<not> (ucast ?res :: u64) > ucast (n ! i)" by (simp add: word_less_nat_alt)
      then have "bignum_inc_loop i n = bignum_inc_loop (i + 1) ?n"
        using True by (simp add: bignum_inc_loop.simps [of i n] Let_def)
      moreover have "bn_val ?n + 2 ^ (32 * (i + 1)) = bn_val n + 2 ^ (32 * i)"
        using val wrap r0 by (simp add: power_add)
      ultimately show ?thesis
        using 1 True \<open>\<not> _\<close> by (simp add: Let_def)
    next
      case False
      then have r1: "unat ?res = unat (n ! i) + 1"
        using res unat_u32_less [of "n ! i"] by simp
      then have "(ucast ?res :: u64) > ucast (n ! i)" by (simp add: word_less_nat_alt)
      then have "bignum_inc_loop i n = ?n"
        using True by (simp add: bignum_inc_loop.simps [of i n] Let_def)
      moreover have "bn_val ?n = bn_val n + 2 ^ (32 * i)"
        using val r1 by (simp add: distrib_left)
      ultimately show ?thesis
        using 1 bn_val_mod [of ?n] by simp
    qed
  qed
qed

lemma bignum_dec_loop_spec:
  assumes "bn_wf n" and "i \<le> BN_ARRAY_SIZE"
  shows "bn_wf (bignum_dec_loop i n) \<and>
         (bn_val (bignum_dec_loop i n) + 2 ^ (32 * i)) mod bn_limit = bn_val n"
  using assms
proof (induction i n rule: bignum_dec_loop.induct)
  case (1 i n)
  let ?res = "n ! i - 1"
  let ?n = "n[i := ?res]"
  show ?case
  proof (cases "i < BN_ARRAY_SIZE")
    case False
    with 1 have "i = BN_ARRAY_SIZE" by simp
    with 1 show ?thesis by (simp add: bignum_dec_loop.simps [of BN_ARRAY_SIZE n])
  next
    case True
    have val: "bn_val ?n + 2 ^ (32 * i) * unat (n ! i) = bn_val n + 2 ^ (32 * i) * unat ?res"
      using True 1 by (intro bn_val_update) (simp add: bn_wf_def)
    show ?thesis
    proof (cases "n ! i = 0")
      case wrap: True
      then have r: "unat ?res = 2 ^ 32 - 1" by simp
      then have "?res > n ! i" using wrap by (simp add: word_less_nat_alt)
      then have step: "bignum_dec_loop i n = bignum_dec_loop (i + 1) ?n"
        using True by (simp add: bignum_dec_loop.simps [of i n] Let_def)
      have IH: "bn_wf (bignum_dec_loop (i + 1) ?n)"
        "(bn_val (bignum_dec_loop (i + 1) ?n) + 2 ^ (32 * (i + 1))) mod bn_limit = bn_val ?n"
        using 1 True \<open>?res > n ! i\<close> by (simp_all add: Let_def)
      let ?d = "2 ^ (32 * i) * (2 ^ 32 - 1) :: nat"
      have "bn_val ?n = bn_val n + ?d" using val wrap r by simp
      then have "(bn_val (bignum_dec_loop (i + 1) ?n) + 2 ^ (32 * i) + ?d) mod bn_limit =
                 (bn_val n + ?d) mod bn_limit"
        using IH(2) bn_val_mod [of ?n] 1 by (simp add: power_add algebra_simps)
      then have "(bn_val (bignum_dec_loop (i + 1) ?n) + 2 ^ (32 * i)) mod bn_limit = bn_val n mod bn_limit"
        by (rule mod_add_cancel_nat)
      with IH(1) step 1 show ?thesis by simp
    next
      case False
      then have r: "unat ?res + 1 = unat (n ! i)"
        using unat_gt_0 [of "n ! i"] by (simp add: unat_minus_one)
      then have "\<not> ?res > n ! i" by (simp add: word_less_nat_alt)
      then have "bignum_dec_loop i n = ?n"
        using True by (simp add: bignum_dec_loop.simps [of i n] Let_def)
      moreover have "bn_val ?n + 2 ^ (32 * i) = bn_val n"
        using val by (simp add: r [symmetric] distrib_left)
      ultimately show ?thesis using 1 by simp
    qed
  qed
qed

lemma bignum_inc_wf [simp]: "bn_wf n \<Longrightarrow> bn_wf (bignum_inc n)"
  using bignum_inc_loop_spec [of n 0] by (simp add: bignum_inc_def)

lemma bignum_inc_value [bn_value]: "bn_wf n \<Longrightarrow> bn_val (bignum_inc n) = (bn_val n + 1) mod bn_limit"
  using bignum_inc_loop_spec [of n 0] by (simp add: bignum_inc_def)

lemma bignum_dec_wf [simp]: "bn_wf n \<Longrightarrow> bn_wf (bignum_dec n)"
  using bignum_dec_loop_spec [of n 0] by (simp add: bignum_dec_def)

lemma bignum_dec_value [bn_value]:
  assumes "bn_wf n"
  shows "bn_val (bignum_dec n) = (if bn_val n = 0 then bn_limit - 1 else bn_val n - 1)"
proof -
  have *: "(bn_val (bignum_dec n) + 1) mod bn_limit = bn_val n"
    using bignum_dec_loop_spec [of n 0] assms by (simp add: bignum_dec_def)
  have lt: "bn_val (bignum_dec n) < bn_limit"
    using assms bn_val_limit by simp
  show ?thesis
  proof (cases "bn_val (bignum_dec n) + 1 = bn_limit")
    case True
    with * show ?thesis by simp
  next
    case False
    with * lt show ?thesis by simp
  qed
qed

section \<open>Addition and subtraction\<close>

text \<open>
  One word of the addition: the loop state is the destination and the carry. The
  optimised routine does word 0 first and then four words per iteration; the
  unoptimised one is a plain loop.
\<close>

definition bignum_add_word :: "bn \<Rightarrow> bn \<Rightarrow> nat \<Rightarrow> bn \<times> u64 \<Rightarrow> bn \<times> u64" where
  "bignum_add_word a b i s =
     (let (c, carry) = s;
          tmp = ucast (a ! i) + ucast (b ! i) + carry;
          carry = (if tmp > MAX_VAL then 1 else 0)
      in (c[i := ucast (tmp AND MAX_VAL)], carry))"

function bignum_add_loop :: "bn \<Rightarrow> bn \<Rightarrow> nat \<Rightarrow> bn \<times> u64 \<Rightarrow> bn \<times> u64" where
  "bignum_add_loop a b i s =
     (if i < BN_ARRAY_SIZE
      then bignum_add_loop a b (i + 4)
             (bignum_add_word a b (i + 3)
               (bignum_add_word a b (i + 2)
                 (bignum_add_word a b (i + 1) (bignum_add_word a b i s))))
      else s)"
  by pat_completeness auto
termination
  by (relation "measure (\<lambda>(a, b, i, s). BN_ARRAY_SIZE - i)") auto

declare bignum_add_loop.simps [simp del]

definition bignum_add :: "bn \<Rightarrow> bn \<Rightarrow> bn \<Rightarrow> bn" where
  "bignum_add a b c =
     (let carry = 0 in fst (bignum_add_loop a b 1 (bignum_add_word a b 0 (c, carry))))"

definition bignum_add_unopt :: "bn \<Rightarrow> bn \<Rightarrow> bn \<Rightarrow> bn" where
  "bignum_add_unopt a b c =
     (let carry = 0 in fst (fold (bignum_add_word a b) [0..<BN_ARRAY_SIZE] (c, carry)))"

definition bignum_sub_word :: "bn \<Rightarrow> bn \<Rightarrow> nat \<Rightarrow> bn \<times> u64 \<Rightarrow> bn \<times> u64" where
  "bignum_sub_word a b i s =
     (let (c, borrow) = s;
          tmp1 = ucast (a ! i) + (MAX_VAL + 1);
          tmp2 = ucast (b ! i) + borrow;
          res = tmp1 - tmp2;
          c = c[i := ucast (res AND MAX_VAL)];
          borrow = (if res \<le> MAX_VAL then 1 else 0)
      in (c, borrow))"

definition bignum_sub :: "bn \<Rightarrow> bn \<Rightarrow> bn \<Rightarrow> bn" where
  "bignum_sub a b c =
     (let borrow = 0 in fst (fold (bignum_sub_word a b) [0..<BN_ARRAY_SIZE] (c, borrow)))"

text \<open>The unrolled loop runs the words in the same order as the plain one.\<close>

lemma bignum_add_loop_fold:
  "i + 4 * k = BN_ARRAY_SIZE \<Longrightarrow>
   bignum_add_loop a b i s = fold (bignum_add_word a b) [i..<BN_ARRAY_SIZE] s"
proof (induction k arbitrary: i s)
  case 0
  then show ?case by (simp add: bignum_add_loop.simps)
next
  case (Suc k)
  then have "[i..<BN_ARRAY_SIZE] = [i, i + 1, i + 2, i + 3] @ [i + 4..<BN_ARRAY_SIZE]"
    by (simp add: upt_conv_Cons numeral_eq_Suc)
  with Suc show ?case by (simp add: bignum_add_loop.simps [of a b i])
qed

lemma bignum_add_unopt_eq: "bignum_add_unopt a b c = bignum_add a b c"
proof -
  have "[0..<BN_ARRAY_SIZE] = 0 # [1..<BN_ARRAY_SIZE]"
    by (simp add: BN_ARRAY_SIZE_97 upt_conv_Cons)
  moreover have "1 + 4 * 24 = BN_ARRAY_SIZE"
    by (simp add: BN_ARRAY_SIZE_97)
  ultimately show ?thesis
    by (simp add: bignum_add_def bignum_add_unopt_def bignum_add_loop_fold [of 1 24] del: One_nat_def)
qed

lemma unat_MAX_VAL: "unat MAX_VAL = 4294967295"
  by (simp add: MAX_VAL_def)

text \<open>One word adds exactly: no bit of the 33-bit sum is lost.\<close>

lemma bignum_add_word_sum:
  fixes x y :: u32 and carry :: u64
  assumes "unat carry \<le> 1"
  defines "tmp \<equiv> ucast x + ucast y + carry"
  shows "unat (ucast (tmp AND MAX_VAL) :: u32) + 2 ^ 32 * unat (if tmp > MAX_VAL then 1 else 0 :: u64)
         = unat x + unat y + unat carry"
proof -
  have t: "unat tmp = unat x + unat y + unat carry"
    using assms(1) unat_u32_less [of x] unat_u32_less [of y]
    by (simp add: tmp_def unat_word_ariths)
  have lt: "unat tmp < 2 * 2 ^ 32"
    using t assms(1) unat_u32_less [of x] unat_u32_less [of y] by simp
  have low: "unat (ucast (tmp AND MAX_VAL) :: u32) = unat tmp mod 2 ^ 32"
    by (simp add: unat_ucast_low32 MAX_VAL_def unat_and_low32)
  show ?thesis
  proof (cases "tmp > MAX_VAL")
    case True
    then have "2 ^ 32 \<le> unat tmp" by (simp add: word_less_nat_alt unat_MAX_VAL)
    then have "unat tmp mod 2 ^ 32 = unat tmp - 2 ^ 32"
      using lt by (simp add: le_mod_geq)
    with True low t \<open>2 ^ 32 \<le> unat tmp\<close> show ?thesis by simp
  next
    case False
    then have "unat tmp < 2 ^ 32" by (simp add: word_less_nat_alt unat_MAX_VAL)
    with False low t show ?thesis by simp
  qed
qed

lemma bignum_sub_word_diff:
  fixes x y :: u32 and borrow :: u64
  assumes "unat borrow \<le> 1"
  defines "res \<equiv> (ucast x + (MAX_VAL + 1)) - (ucast y + borrow)"
  shows "unat (ucast (res AND MAX_VAL) :: u32) + unat y + unat borrow
         = unat x + 2 ^ 32 * unat (if res \<le> MAX_VAL then 1 else 0 :: u64)"
proof -
  have "ucast y + borrow \<le> ucast x + (MAX_VAL + 1)"
    using assms(1) unat_u32_less [of x] unat_u32_less [of y]
    by (simp add: word_le_nat_alt unat_word_ariths MAX_VAL_def)
  then have r: "unat res = unat x + 2 ^ 32 - (unat y + unat borrow)"
    using assms(1) unat_u32_less [of x] unat_u32_less [of y]
    by (simp add: res_def unat_sub unat_word_ariths MAX_VAL_def)
  then have lt: "unat res < 2 * 2 ^ 32"
    using unat_u32_less [of x] by simp
  have low: "unat (ucast (res AND MAX_VAL) :: u32) = unat res mod 2 ^ 32"
    by (simp add: unat_ucast_low32 MAX_VAL_def unat_and_low32)
  show ?thesis
  proof (cases "res \<le> MAX_VAL")
    case True
    then have "unat res < 2 ^ 32" by (simp add: word_le_nat_alt unat_MAX_VAL)
    with True low r assms(1) unat_u32_less [of y] show ?thesis by simp
  next
    case False
    then have "2 ^ 32 \<le> unat res" by (simp add: word_le_nat_alt unat_MAX_VAL)
    then have "unat res mod 2 ^ 32 = unat res - 2 ^ 32"
      using lt by (simp add: le_mod_geq)
    with False low r \<open>2 ^ 32 \<le> unat res\<close> show ?thesis by simp
  qed
qed

text \<open>
  Loop invariants: after \<open>k\<close> words the destination's low words hold the partial sum
  (difference), with the carry (borrow) as the next digit.
\<close>

lemma bignum_add_fold_inv:
  assumes "bn_wf a" "bn_wf b" "bn_wf c" and "k \<le> BN_ARRAY_SIZE"
  shows "case fold (bignum_add_word a b) [0..<k] (c, 0) of (c', carry) \<Rightarrow>
           bn_wf c' \<and> unat carry \<le> 1 \<and>
           bn_val (take k c') + 2 ^ (32 * k) * unat carry = bn_val (take k a) + bn_val (take k b)"
  using assms(4)
proof (induction k)
  case 0
  then show ?case using assms by simp
next
  case (Suc k)
  obtain c' carry where f: "fold (bignum_add_word a b) [0..<k] (c, 0) = (c', carry)"
    by (cases "fold (bignum_add_word a b) [0..<k] (c, 0)")
  with Suc have inv: "bn_wf c'" "unat carry \<le> 1"
    "bn_val (take k c') + 2 ^ (32 * k) * unat carry = bn_val (take k a) + bn_val (take k b)"
    by simp_all
  have len: "k < length c'" "k < length a" "k < length b"
    using Suc.prems inv(1) assms by (simp_all add: bn_wf_def)
  define tmp where "tmp = ucast (a ! k) + ucast (b ! k) + carry"
  define w where "w = (ucast (tmp AND MAX_VAL) :: u32)"
  define cy where "cy = (if tmp > MAX_VAL then 1 else 0 :: u64)"
  have sum: "unat w + 2 ^ 32 * unat cy = unat (a ! k) + unat (b ! k) + unat carry"
    using bignum_add_word_sum [OF inv(2), of "a ! k" "b ! k"] by (simp add: tmp_def w_def cy_def)
  have step: "fold (bignum_add_word a b) [0..<Suc k] (c, 0) = (c'[k := w], cy)"
    using f by (simp add: bignum_add_word_def Let_def tmp_def w_def cy_def)
  have "bn_val (take (Suc k) (c'[k := w])) + 2 ^ (32 * Suc k) * unat cy
        = bn_val (take k c') + 2 ^ (32 * k) * (unat w + 2 ^ 32 * unat cy)"
    using len inv(1) by (simp add: take_Suc_update bn_val_append bn_wf_def power_add distrib_left)
  also have "\<dots> = bn_val (take k c') + 2 ^ (32 * k) * (unat (a ! k) + unat (b ! k) + unat carry)"
    by (simp only: sum)
  also have "\<dots> = bn_val (take (Suc k) a) + bn_val (take (Suc k) b)"
    using inv(3) len by (simp add: bn_val_take_Suc distrib_left)
  finally show ?case
    using step inv(1) by (simp add: cy_def)
qed

lemma bignum_sub_fold_inv:
  assumes "bn_wf a" "bn_wf b" "bn_wf c" and "k \<le> BN_ARRAY_SIZE"
  shows "case fold (bignum_sub_word a b) [0..<k] (c, 0) of (c', borrow) \<Rightarrow>
           bn_wf c' \<and> unat borrow \<le> 1 \<and>
           bn_val (take k c') + bn_val (take k b) = bn_val (take k a) + 2 ^ (32 * k) * unat borrow"
  using assms(4)
proof (induction k)
  case 0
  then show ?case using assms by simp
next
  case (Suc k)
  obtain c' borrow where f: "fold (bignum_sub_word a b) [0..<k] (c, 0) = (c', borrow)"
    by (cases "fold (bignum_sub_word a b) [0..<k] (c, 0)")
  with Suc have inv: "bn_wf c'" "unat borrow \<le> 1"
    "bn_val (take k c') + bn_val (take k b) = bn_val (take k a) + 2 ^ (32 * k) * unat borrow"
    by simp_all
  have len: "k < length c'" "k < length a" "k < length b"
    using Suc.prems inv(1) assms by (simp_all add: bn_wf_def)
  define res where "res = (ucast (a ! k) + (MAX_VAL + 1)) - (ucast (b ! k) + borrow)"
  define w where "w = (ucast (res AND MAX_VAL) :: u32)"
  define bw where "bw = (if res \<le> MAX_VAL then 1 else 0 :: u64)"
  have diff: "unat w + unat (b ! k) + unat borrow = unat (a ! k) + 2 ^ 32 * unat bw"
    using bignum_sub_word_diff [OF inv(2), of "a ! k" "b ! k"] by (simp add: res_def w_def bw_def)
  have step: "fold (bignum_sub_word a b) [0..<Suc k] (c, 0) = (c'[k := w], bw)"
    using f by (simp add: bignum_sub_word_def Let_def res_def w_def bw_def)
  have "bn_val (take (Suc k) (c'[k := w])) + bn_val (take (Suc k) b) + 2 ^ (32 * k) * unat borrow
        = bn_val (take k c') + bn_val (take k b) +
          2 ^ (32 * k) * (unat w + unat (b ! k) + unat borrow)"
    using len inv(1) by (simp add: take_Suc_update bn_val_append bn_val_take_Suc bn_wf_def distrib_left)
  also have "\<dots> = bn_val (take k c') + bn_val (take k b) +
          2 ^ (32 * k) * (unat (a ! k) + 2 ^ 32 * unat bw)"
    by (simp only: diff)
  also have "\<dots> = bn_val (take (Suc k) a) + 2 ^ (32 * Suc k) * unat bw + 2 ^ (32 * k) * unat borrow"
    using inv(3) len by (simp add: bn_val_take_Suc distrib_left power_add)
  finally show ?case
    using step inv(1) by (simp add: bw_def)
qed

lemma bignum_add_spec:
  assumes "bn_wf a" "bn_wf b" "bn_wf c"
  shows "bn_wf (bignum_add a b c) \<and> bn_val (bignum_add a b c) = (bn_val a + bn_val b) mod bn_limit"
proof -
  obtain c' carry where f: "fold (bignum_add_word a b) [0..<BN_ARRAY_SIZE] (c, 0) = (c', carry)"
    by (cases "fold (bignum_add_word a b) [0..<BN_ARRAY_SIZE] (c, 0)")
  have r: "bignum_add a b c = c'"
    using bignum_add_unopt_eq [of a b c] f by (simp add: bignum_add_unopt_def)
  have inv: "bn_wf c'" "bn_val c' + bn_limit * unat carry = bn_val a + bn_val b"
    using bignum_add_fold_inv [OF assms order_refl] f assms by (auto simp: bn_wf_def)
  then have "bn_val c' mod bn_limit = (bn_val a + bn_val b) mod bn_limit"
    by (metis mod_mult_self2)
  with inv(1) r show ?thesis by simp
qed

lemmas bignum_add_wf [simp] = bignum_add_spec [THEN conjunct1]
lemmas bignum_add_value [bn_value] = bignum_add_spec [THEN conjunct2]

lemma bignum_sub_spec:
  assumes "bn_wf a" "bn_wf b" "bn_wf c"
  shows "bn_wf (bignum_sub a b c) \<and>
         bn_val (bignum_sub a b c) = (bn_val a + (bn_limit - bn_val b)) mod bn_limit"
proof -
  obtain c' borrow where f: "fold (bignum_sub_word a b) [0..<BN_ARRAY_SIZE] (c, 0) = (c', borrow)"
    by (cases "fold (bignum_sub_word a b) [0..<BN_ARRAY_SIZE] (c, 0)")
  have r: "bignum_sub a b c = c'"
    using f by (simp add: bignum_sub_def)
  have inv: "bn_wf c'" "bn_val c' + bn_val b = bn_val a + bn_limit * unat borrow"
    using bignum_sub_fold_inv [OF assms order_refl] f assms by (auto simp: bn_wf_def)
  have "bn_val c' + bn_limit = bn_val a + (bn_limit - bn_val b) + bn_limit * unat borrow"
    using inv(2) bn_val_limit [OF assms(2)] by simp
  then have "bn_val c' mod bn_limit = (bn_val a + (bn_limit - bn_val b)) mod bn_limit"
    by (metis mod_add_self2 mod_mult_self2)
  with inv(1) r show ?thesis by simp
qed

lemmas bignum_sub_wf [simp] = bignum_sub_spec [THEN conjunct1]
lemmas bignum_sub_value_mod = bignum_sub_spec [THEN conjunct2]

lemma bignum_sub_value [bn_value]:
  "bn_wf a \<Longrightarrow> bn_wf b \<Longrightarrow> bn_wf c \<Longrightarrow> bn_val b \<le> bn_val a \<Longrightarrow>
   bn_val (bignum_sub a b c) = bn_val a - bn_val b"
  by (simp add: bignum_sub_value_mod nat_sub_residue bn_val_limit)

end
