(* ===== verification/Bignum_Bits.thy ===== *)
theory Bignum_Bits
  imports Bignum
begin

text \<open>
  The bit-level half of src/tetd_x86/s4/bignum.c: bitwise operations, comparison, zero
  test, shifts, single bits and the bit length. An array access the C code makes
  outside \<open>array\<close> is the value \<open>None\<close>.
\<close>

section \<open>Bits of a big number\<close>

lemma bit_bn_val:
  "bit (bn_val ws) n \<longleftrightarrow> n div 32 < length ws \<and> bit (ws ! (n div 32)) (n mod 32)"
proof (induction ws arbitrary: n)
  case Nil
  then show ?case by simp
next
  case (Cons w ws)
  have v: "bn_val (w # ws) = take_bit 32 (bn_val (w # ws)) + push_bit 32 (bn_val ws)"
    and low: "take_bit 32 (bn_val (w # ws)) = unat w"
    and high: "drop_bit 32 (bn_val (w # ws)) = bn_val ws"
    using unat_u32_less [of w] by (simp_all add: take_bit_eq_mod push_bit_eq_mult drop_bit_eq_div)
  show ?case
  proof (cases "n < 32")
    case True
    then have "bit (bn_val (w # ws)) n = bit (take_bit 32 (bn_val (w # ws))) n"
      by (simp add: bit_take_bit_iff)
    also have "\<dots> = bit w n"
      unfolding low using True by (simp add: bit_unsigned_iff)
    finally show ?thesis using True by simp
  next
    case False
    then have "bit (bn_val (w # ws)) n = bit (drop_bit 32 (bn_val (w # ws))) (n - 32)"
      by (simp add: bit_drop_bit_eq)
    also have "\<dots> = bit (bn_val ws) (n - 32)"
      unfolding high ..
    also have "\<dots> = ((n - 32) div 32 < length ws \<and> bit (ws ! ((n - 32) div 32)) ((n - 32) mod 32))"
      by (rule Cons.IH)
    also have "\<dots> = (n div 32 < length (w # ws) \<and> bit ((w # ws) ! (n div 32)) (n mod 32))"
      using False by (simp add: le_div_geq [of 32 n] le_mod_geq [of 32 n])
    finally show ?thesis .
  qed
qed

lemma bn_val_eq_bitsI:
  assumes "\<And>i k. i < length ws \<Longrightarrow> k < 32 \<Longrightarrow> bit (ws ! i) k = bit v (32 * i + k)"
    and "\<And>n. 32 * length ws \<le> n \<Longrightarrow> \<not> bit v n"
  shows "bn_val ws = v"
proof (rule bit_eqI)
  fix n
  show "bit (bn_val ws) n = bit v n"
  proof (cases "n div 32 < length ws")
    case True
    then show ?thesis using assms(1) [of "n div 32" "n mod 32"] by (simp add: bit_bn_val)
  next
    case False
    then have "32 * length ws \<le> n" by simp
    with False assms(2) show ?thesis by (simp add: bit_bn_val)
  qed
qed

lemma bit_bn_val_word: "i < length ws \<Longrightarrow> k < 32 \<Longrightarrow> bit (bn_val ws) (32 * i + k) = bit (ws ! i) k"
  by (simp add: bit_bn_val)

lemma not_bit_bn_val_ge: "32 * length ws \<le> n \<Longrightarrow> \<not> bit (bn_val ws) n"
proof -
  assume "32 * length ws \<le> n"
  then have "\<not> n div 32 < length ws" by linarith
  then show ?thesis by (simp add: bit_bn_val)
qed

section \<open>Bitwise operations\<close>

definition bignum_and :: "bn \<Rightarrow> bn \<Rightarrow> bn \<Rightarrow> bn" where
  "bignum_and a b c = fold (\<lambda>i c. c[i := a ! i AND b ! i]) [0..<BN_ARRAY_SIZE] c"

definition bignum_or :: "bn \<Rightarrow> bn \<Rightarrow> bn \<Rightarrow> bn" where
  "bignum_or a b c = fold (\<lambda>i c. c[i := a ! i OR b ! i]) [0..<BN_ARRAY_SIZE] c"

definition bignum_xor :: "bn \<Rightarrow> bn \<Rightarrow> bn \<Rightarrow> bn" where
  "bignum_xor a b c = fold (\<lambda>i c. c[i := a ! i XOR b ! i]) [0..<BN_ARRAY_SIZE] c"

lemma bignum_bitwise_wf [simp]:
  "bn_wf c \<Longrightarrow> bn_wf (bignum_and a b c)"
  "bn_wf c \<Longrightarrow> bn_wf (bignum_or a b c)"
  "bn_wf c \<Longrightarrow> bn_wf (bignum_xor a b c)"
  by (simp_all add: bn_wf_def bignum_and_def bignum_or_def bignum_xor_def)

lemma bignum_and_value [bn_value]:
  assumes "bn_wf a" "bn_wf b" "bn_wf c"
  shows "bn_val (bignum_and a b c) = bn_val a AND bn_val b"
  using assms
  by (intro bn_val_eq_bitsI)
    (simp_all add: bignum_and_def bn_wf_def nth_fold_overwrite bit_and_iff bit_bn_val_word not_bit_bn_val_ge)

lemma bignum_or_value [bn_value]:
  assumes "bn_wf a" "bn_wf b" "bn_wf c"
  shows "bn_val (bignum_or a b c) = bn_val a OR bn_val b"
  using assms
  by (intro bn_val_eq_bitsI)
    (simp_all add: bignum_or_def bn_wf_def nth_fold_overwrite bit_or_iff bit_bn_val_word not_bit_bn_val_ge)

lemma bignum_xor_value [bn_value]:
  assumes "bn_wf a" "bn_wf b" "bn_wf c"
  shows "bn_val (bignum_xor a b c) = bn_val a XOR bn_val b"
  using assms
  by (intro bn_val_eq_bitsI)
    (simp_all add: bignum_xor_def bn_wf_def nth_fold_overwrite bit_xor_iff bit_bn_val_word not_bit_bn_val_ge)

section \<open>Comparison\<close>

datatype cmp_token = SMALLER | EQUAL | LARGER

text \<open>The scan of \<open>bignum_cmp\<close> over the words below \<open>i\<close>, from the top down.\<close>

fun bignum_cmp_loop :: "bn \<Rightarrow> bn \<Rightarrow> nat \<Rightarrow> cmp_token" where
  "bignum_cmp_loop a b 0 = EQUAL"
| "bignum_cmp_loop a b (Suc i) =
     (if a ! i > b ! i then LARGER
      else if a ! i < b ! i then SMALLER
      else bignum_cmp_loop a b i)"

definition bignum_cmp :: "bn \<Rightarrow> bn \<Rightarrow> cmp_token" where
  "bignum_cmp a b = bignum_cmp_loop a b BN_ARRAY_SIZE"

fun bignum_is_zero_loop :: "bn \<Rightarrow> nat list \<Rightarrow> bool" where
  "bignum_is_zero_loop n [] = True"
| "bignum_is_zero_loop n (i # is) = (if n ! i \<noteq> 0 then False else bignum_is_zero_loop n is)"

definition bignum_is_zero :: "bn \<Rightarrow> bool" where
  "bignum_is_zero n = bignum_is_zero_loop n [0..<BN_ARRAY_SIZE]"

lemma bn_val_digit_less:
  fixes x y u v B :: nat
  assumes "u < v" and "x < B"
  shows "x + B * u < y + B * v"
proof -
  have "x + B * u < B * (u + 1)" using assms(2) by simp
  also have "\<dots> \<le> B * v" using assms(1) by (intro mult_le_mono2) simp
  finally show ?thesis by simp
qed

lemma bignum_cmp_loop_spec:
  assumes "i \<le> length a" and "i \<le> length b"
  shows "bignum_cmp_loop a b i =
         (if bn_val (take i a) > bn_val (take i b) then LARGER
          else if bn_val (take i a) < bn_val (take i b) then SMALLER else EQUAL)"
  using assms
proof (induction i)
  case 0
  then show ?case by simp
next
  case (Suc i)
  have lt: "bn_val (take i a) < 2 ^ (32 * i)" "bn_val (take i b) < 2 ^ (32 * i)"
    using bn_val_less [of "take i a"] bn_val_less [of "take i b"] Suc.prems by (simp_all add: min_def)
  have t: "bn_val (take (Suc i) a) = bn_val (take i a) + 2 ^ (32 * i) * unat (a ! i)"
    "bn_val (take (Suc i) b) = bn_val (take i b) + 2 ^ (32 * i) * unat (b ! i)"
    using Suc.prems by (simp_all add: bn_val_take_Suc)
  consider "a ! i > b ! i" | "a ! i < b ! i" | "a ! i = b ! i" by fastforce
  then show ?case
  proof cases
    case 1
    then have "bn_val (take (Suc i) b) < bn_val (take (Suc i) a)"
      unfolding t by (intro bn_val_digit_less lt) (simp add: word_less_nat_alt)
    with 1 show ?thesis by simp
  next
    case 2
    then have "bn_val (take (Suc i) a) < bn_val (take (Suc i) b)"
      unfolding t by (intro bn_val_digit_less lt) (simp add: word_less_nat_alt)
    with 2 show ?thesis by simp
  next
    case 3
    with Suc t show ?thesis by simp
  qed
qed

lemma bignum_cmp_value [bn_value]:
  "bn_wf a \<Longrightarrow> bn_wf b \<Longrightarrow>
   bignum_cmp a b = (if bn_val a > bn_val b then LARGER
                     else if bn_val a < bn_val b then SMALLER else EQUAL)"
  using bignum_cmp_loop_spec [of BN_ARRAY_SIZE a b] by (simp add: bignum_cmp_def bn_wf_def)

lemma bignum_is_zero_loop_iff: "bignum_is_zero_loop n is \<longleftrightarrow> (\<forall>i\<in>set is. n ! i = 0)"
  by (induction "is") auto

lemma bn_val_0_iff: "bn_val ws = 0 \<longleftrightarrow> (\<forall>i < length ws. ws ! i = 0)"
  by (induction ws) (auto simp: nth_Cons unat_eq_zero split: nat.splits)

lemma bignum_is_zero_value [bn_value]: "bn_wf n \<Longrightarrow> bignum_is_zero n \<longleftrightarrow> bn_val n = 0"
  by (auto simp: bignum_is_zero_def bignum_is_zero_loop_iff bn_val_0_iff bn_wf_def)

section \<open>Shifts\<close>

text \<open>
  \<open>_lshift_word\<close> moves whole words up and clears the low ones; \<open>_rshift_word\<close> is the
  source's \<open>naive method\<close>: it moves each of the lowest \<open>nwords\<close> words down by one
  place and clears all the others. Its first loop reads \<open>array[nwords]\<close>, so more
  than \<open>BN_ARRAY_SIZE - 1\<close> words is an access outside the array.
\<close>

definition lshift_word :: "bn \<Rightarrow> nat \<Rightarrow> bn" where
  "lshift_word a nwords =
     fold (\<lambda>i a. a[i := 0]) (rev [0..<min nwords BN_ARRAY_SIZE])
       (fold (\<lambda>i a. a[i := a ! (i - nwords)]) (rev [nwords..<BN_ARRAY_SIZE]) a)"

definition rshift_word :: "bn \<Rightarrow> nat \<Rightarrow> bn option" where
  "rshift_word a nwords =
     (if nwords < BN_ARRAY_SIZE
      then Some (fold (\<lambda>i a. a[i := 0]) [nwords..<BN_ARRAY_SIZE]
                  (fold (\<lambda>i a. a[i := a ! (i + 1)]) [0..<nwords] a))
      else None)"

definition lshift_one_bit :: "bn \<Rightarrow> bn" where
  "lshift_one_bit a =
     (let a = fold (\<lambda>i a. a[i := push_bit 1 (a ! i) OR drop_bit (8 * WORD_SIZE - 1) (a ! (i - 1))])
                (rev [1..<BN_ARRAY_SIZE]) a
      in a[0 := push_bit 1 (a ! 0)])"

definition rshift_one_bit :: "bn \<Rightarrow> bn" where
  "rshift_one_bit a =
     (let a = fold (\<lambda>i a. a[i := drop_bit 1 (a ! i) OR push_bit (8 * WORD_SIZE - 1) (a ! (i + 1))])
                [0..<BN_ARRAY_SIZE - 1] a
      in a[BN_ARRAY_SIZE - 1 := drop_bit 1 (a ! (BN_ARRAY_SIZE - 1))])"

definition bignum_lshift :: "bn \<Rightarrow> bn \<Rightarrow> nat \<Rightarrow> bn" where
  "bignum_lshift a b nbits =
     (let b = bignum_assign b a;
          nbits_pr_word = WORD_SIZE * 8;
          nwords = nbits div nbits_pr_word;
          (b, nbits) = (if nwords \<noteq> 0
                        then (lshift_word b nwords, nbits - nwords * nbits_pr_word)
                        else (b, nbits))
      in if nbits \<noteq> 0
         then let b = fold (\<lambda>i b. b[i := push_bit nbits (b ! i) OR
                                      drop_bit (8 * WORD_SIZE - nbits) (b ! (i - 1))])
                        (rev [1..<BN_ARRAY_SIZE]) b
              in b[0 := push_bit nbits (b ! 0)]
         else b)"

text \<open>
  \<open>bignum_rshift\<close> shifts its first argument in place and never touches the second one;
  the unoptimised routine copied the first into the second and shifted that.
\<close>

definition bignum_rshift :: "bn \<Rightarrow> bn \<Rightarrow> nat \<Rightarrow> bn option" where
  "bignum_rshift a b nbits =
     (let nwords = drop_bit 5 nbits in
      do {
        (a, nbits) \<leftarrow>
          (if nwords \<noteq> 0
           then (let z = push_bit 5 nwords in
                 do { a \<leftarrow> rshift_word a nwords; Some (a, nbits - z) })
           else Some (a, nbits));
        (if nbits \<noteq> 0
         then (let z = 32 - nbits;
                   a = fold (\<lambda>i a. a[i := drop_bit nbits (a ! i) OR push_bit z (a ! (i + 1))])
                         [0..<BN_ARRAY_SIZE - 1] a
               in Some (a[BN_ARRAY_SIZE - 1 := drop_bit nbits (a ! (BN_ARRAY_SIZE - 1))]))
         else Some a)
      })"

lemma lshift_wf [simp]: "bn_wf a \<Longrightarrow> bn_wf (lshift_word a n)" "bn_wf a \<Longrightarrow> bn_wf (lshift_one_bit a)"
  "bn_wf a \<Longrightarrow> bn_wf (rshift_one_bit a)"
  by (simp_all add: bn_wf_def lshift_word_def lshift_one_bit_def rshift_one_bit_def Let_def)

text \<open>
  The word formulas of a shift by \<open>0 < s < 32\<close> bits across word boundaries, and the
  loops that apply them to every word.
\<close>

lemma shift_up_words_value:
  assumes "0 < s" "s < 32" "length r = length a" "a \<noteq> []"
    and "\<And>i. i < length a \<Longrightarrow>
         r ! i = (if i = 0 then push_bit s (a ! 0) else push_bit s (a ! i) OR drop_bit (32 - s) (a ! (i - 1)))"
  shows "bn_val r = (bn_val a * 2 ^ s) mod 2 ^ (32 * length a)"
proof -
  have "bn_val r = take_bit (32 * length a) (push_bit s (bn_val a))"
  proof (rule bn_val_eq_bitsI)
    fix i k :: nat
    assume i: "i < length r" and k: "k < 32"
    then have i': "i < length a" using assms by simp
    then have "32 * i + k < 32 * length a" using k by linarith
    then have rhs: "bit (take_bit (32 * length a) (push_bit s (bn_val a))) (32 * i + k) =
        (s \<le> 32 * i + k \<and> bit (bn_val a) (32 * i + k - s))"
      by (simp add: bit_take_bit_iff bit_push_bit_iff)
    show "bit (r ! i) k = bit (take_bit (32 * length a) (push_bit s (bn_val a))) (32 * i + k)"
    proof (cases "s \<le> k")
      case True
      then have "32 * i + k - s = 32 * i + (k - s)" by simp
      then have "bit (bn_val a) (32 * i + k - s) = bit (a ! i) (k - s)"
        using i' k by (simp add: bit_bn_val_word)
      then show ?thesis
        unfolding rhs using assms(5) [OF i'] True k assms(2)
        by (auto simp: bit_or_iff bit_push_bit_iff bit_drop_bit_eq dest: bit_imp_le_length)
    next
      case False
      show ?thesis
      proof (cases "i = 0")
        case True
        with False k show ?thesis
          unfolding rhs using assms(5) [OF i'] by (simp add: bit_push_bit_iff)
      next
        case i0: False
        then have "32 * i + k - s = 32 * (i - 1) + (32 - s + k)"
          using False assms(2) by (cases i) auto
        then have "bit (bn_val a) (32 * i + k - s) = bit (a ! (i - 1)) (32 - s + k)"
          using i' False assms(2) bit_bn_val_word [of "i - 1" a "32 - s + k"] by (simp only:)
        then show ?thesis
          unfolding rhs using assms(5) [OF i'] False i0 k assms(2)
          by (cases i) (auto simp: bit_or_iff bit_push_bit_iff bit_drop_bit_eq)
      qed
    qed
  next
    fix n
    assume "32 * length r \<le> n"
    then show "\<not> bit (take_bit (32 * length a) (push_bit s (bn_val a))) n"
      using assms by (simp add: bit_take_bit_iff)
  qed
  then show ?thesis
    by (simp add: take_bit_eq_mod push_bit_eq_mult)
qed

lemma shift_down_words_value:
  assumes "0 < s" "s < 32" "length r = length a"
    and "\<And>i. i < length a \<Longrightarrow>
         r ! i = (if i = length a - 1 then drop_bit s (a ! i)
                  else drop_bit s (a ! i) OR push_bit (32 - s) (a ! (i + 1)))"
  shows "bn_val r = bn_val a div 2 ^ s"
proof -
  have "bn_val r = drop_bit s (bn_val a)"
  proof (rule bn_val_eq_bitsI)
    fix i k :: nat
    assume i: "i < length r" and k: "k < 32"
    then have i': "i < length a" using assms by simp
    have rhs: "bit (drop_bit s (bn_val a)) (32 * i + k) = bit (bn_val a) (32 * i + k + s)"
      by (simp add: bit_drop_bit_eq ac_simps)
    show "bit (r ! i) k = bit (drop_bit s (bn_val a)) (32 * i + k)"
    proof (cases "k + s < 32")
      case True
      then have "bit (bn_val a) (32 * i + k + s) = bit (a ! i) (k + s)"
        using bit_bn_val_word [OF i' True] by (simp add: add.assoc)
      then show ?thesis
        unfolding rhs using assms(4) [OF i'] True k assms(2)
        by (auto simp: bit_or_iff bit_push_bit_iff bit_drop_bit_eq ac_simps)
    next
      case False
      then have eq: "32 * i + k + s = 32 * (i + 1) + (k + s - 32)" by simp
      show ?thesis
      proof (cases "i = length a - 1")
        case True
        then have "\<not> bit (bn_val a) (32 * i + k + s)"
          unfolding eq using i' by (intro not_bit_bn_val_ge) simp
        then show ?thesis
          unfolding rhs using assms(4) [OF i'] True False
          by (auto simp: bit_drop_bit_eq dest: bit_imp_le_length)
      next
        case il: False
        then have "bit (bn_val a) (32 * i + k + s) = bit (a ! (i + 1)) (k + s - 32)"
          unfolding eq using i' k assms(2) by (intro bit_bn_val_word) simp_all
        then show ?thesis
          unfolding rhs using assms(4) [OF i'] False il k assms(2)
          by (auto simp: bit_or_iff bit_push_bit_iff bit_drop_bit_eq ac_simps dest: bit_imp_le_length)
      qed
    qed
  next
    fix n
    assume "32 * length r \<le> n"
    then show "\<not> bit (drop_bit s (bn_val a)) n"
      using assms by (simp add: bit_drop_bit_eq not_bit_bn_val_ge)
  qed
  then show ?thesis by (simp add: drop_bit_eq_div)
qed

definition shift_up_loop :: "nat \<Rightarrow> bn \<Rightarrow> bn" where
  "shift_up_loop s a =
     (let a = fold (\<lambda>i a. a[i := push_bit s (a ! i) OR drop_bit (32 - s) (a ! (i - 1))])
                (rev [1..<BN_ARRAY_SIZE]) a
      in a[0 := push_bit s (a ! 0)])"

definition shift_down_loop :: "nat \<Rightarrow> bn \<Rightarrow> bn" where
  "shift_down_loop s a =
     (let a = fold (\<lambda>i a. a[i := drop_bit s (a ! i) OR push_bit (32 - s) (a ! (i + 1))])
                [0..<BN_ARRAY_SIZE - 1] a
      in a[BN_ARRAY_SIZE - 1 := drop_bit s (a ! (BN_ARRAY_SIZE - 1))])"

lemma shift_up_loop_wf [simp]: "bn_wf a \<Longrightarrow> bn_wf (shift_up_loop s a)"
  by (simp add: shift_up_loop_def bn_wf_def Let_def)

lemma shift_down_loop_wf [simp]: "bn_wf a \<Longrightarrow> bn_wf (shift_down_loop s a)"
  by (simp add: shift_down_loop_def bn_wf_def Let_def)

lemma shift_up_loop_value:
  assumes "0 < s" "s < 32" "bn_wf a"
  shows "bn_val (shift_up_loop s a) = (bn_val a * 2 ^ s) mod bn_limit"
proof -
  have len: "length a = BN_ARRAY_SIZE" "0 < BN_ARRAY_SIZE" "1 \<le> BN_ARRAY_SIZE"
    using assms by (simp_all add: bn_wf_def BN_ARRAY_SIZE_97)
  have "bn_val (shift_up_loop s a) = (bn_val a * 2 ^ s) mod 2 ^ (32 * length a)"
    using len
      nth_fold_descending [of 1 BN_ARRAY_SIZE a _ "\<lambda>x y. push_bit s x OR drop_bit (32 - s) y" 1]
    by (intro shift_up_words_value assms(1,2))
      (auto simp: shift_up_loop_def Let_def nth_list_update)
  then show ?thesis by (simp add: len)
qed

lemma shift_down_loop_value:
  assumes "0 < s" "s < 32" "bn_wf a"
  shows "bn_val (shift_down_loop s a) = bn_val a div 2 ^ s"
proof -
  have len: "length a = BN_ARRAY_SIZE" "BN_ARRAY_SIZE - 1 < length a"
    using assms by (simp_all add: bn_wf_def BN_ARRAY_SIZE_97)
  then show ?thesis
    using nth_fold_ascending [of "BN_ARRAY_SIZE - 1" a _ "\<lambda>x y. drop_bit s x OR push_bit (32 - s) y"]
    by (intro shift_down_words_value assms(1,2))
      (auto simp: shift_down_loop_def Let_def nth_list_update)
qed

lemma lshift_one_bit_loop: "lshift_one_bit a = shift_up_loop 1 a"
  by (simp add: shift_up_loop_def lshift_one_bit_def WORD_SIZE_def)

lemma rshift_one_bit_loop: "rshift_one_bit a = shift_down_loop 1 a"
  by (simp add: shift_down_loop_def rshift_one_bit_def WORD_SIZE_def)

lemma lshift_one_bit_value [bn_value]:
  assumes "bn_wf a"
  shows "bn_val (lshift_one_bit a) = (2 * bn_val a) mod bn_limit"
  unfolding lshift_one_bit_loop by (subst shift_up_loop_value) (simp_all add: assms mult.commute)

lemma rshift_one_bit_value [bn_value]:
  assumes "bn_wf a"
  shows "bn_val (rshift_one_bit a) = bn_val a div 2"
  unfolding rshift_one_bit_loop by (subst shift_down_loop_value) (simp_all add: assms)

lemma bn_val_take: "bn_val (take k ws) = bn_val ws mod 2 ^ (32 * k)"
proof (cases "k \<le> length ws")
  case True
  then have "bn_val ws = bn_val (take k ws) + 2 ^ (32 * k) * bn_val (drop k ws)"
    using bn_val_append [of "take k ws" "drop k ws"] by simp
  moreover have "bn_val (take k ws) < 2 ^ (32 * k)"
    using bn_val_less [of "take k ws"] True by (simp add: min_absorb2)
  ultimately show ?thesis by simp
next
  case False
  then have "bn_val ws < 2 ^ (32 * k)"
    using bn_val_less [of ws] by (simp add: order_less_le_trans)
  with False show ?thesis by simp
qed

lemma bn_val_drop: "bn_val (drop k ws) = bn_val ws div 2 ^ (32 * k)"
proof (cases "k \<le> length ws")
  case True
  then have "bn_val ws = bn_val (take k ws) + 2 ^ (32 * k) * bn_val (drop k ws)"
    using bn_val_append [of "take k ws" "drop k ws"] by simp
  moreover have "bn_val (take k ws) < 2 ^ (32 * k)"
    using bn_val_less [of "take k ws"] True by (simp add: min_absorb2)
  ultimately show ?thesis by simp
next
  case False
  then have "bn_val ws < 2 ^ (32 * k)"
    using bn_val_less [of ws] by (simp add: order_less_le_trans)
  with False show ?thesis by simp
qed

lemma lshift_word_words:
  assumes "bn_wf a"
  shows "lshift_word a n = take BN_ARRAY_SIZE (replicate n 0 @ a)"
proof (rule nth_equalityI)
  show "length (lshift_word a n) = length (take BN_ARRAY_SIZE (replicate n 0 @ a))"
    using lshift_wf(1) [OF assms] assms by (simp add: bn_wf_def)
next
  fix j
  assume "j < length (lshift_word a n)"
  then have j: "j < BN_ARRAY_SIZE" and len: "length a = BN_ARRAY_SIZE"
    using lshift_wf(1) [OF assms] assms by (simp_all add: bn_wf_def)
  let ?a = "fold (\<lambda>i a. a[i := a ! (i - n)]) (rev [n..<BN_ARRAY_SIZE]) a"
  have up: "n \<le> BN_ARRAY_SIZE \<Longrightarrow> ?a ! j = (if n \<le> j then a ! (j - n) else a ! j)"
    using nth_fold_descending [of n BN_ARRAY_SIZE a j "\<lambda>_ y. y" n] j len by simp
  have zero: "lshift_word a n ! j = (if j < min n BN_ARRAY_SIZE then 0 else ?a ! j)"
    using nth_fold_descending [of 0 "min n BN_ARRAY_SIZE" ?a j "\<lambda>_ _. 0" 0] j len
    by (simp add: lshift_word_def)
  show "lshift_word a n ! j = take BN_ARRAY_SIZE (replicate n 0 @ a) ! j"
    using zero up j by (cases "n \<le> BN_ARRAY_SIZE") (auto simp: nth_append)
qed

lemma lshift_word_value [bn_value]:
  "bn_wf a \<Longrightarrow> bn_val (lshift_word a n) = (bn_val a * 2 ^ (32 * n)) mod bn_limit"
  by (simp only: lshift_word_words bn_val_take bn_val_append bn_val_replicate_0 length_replicate
      add_0 mult.commute)

lemma bignum_lshift_loop:
  assumes "bn_wf a" "bn_wf b"
  shows "bignum_lshift a b nbits =
         (let a = (if nbits div 32 \<noteq> 0 then lshift_word a (nbits div 32) else a)
          in if nbits mod 32 \<noteq> 0 then shift_up_loop (nbits mod 32) a else a)"
proof -
  have "nbits - nbits div 32 * 32 = nbits mod 32"
    by (metis minus_div_mult_eq_mod)
  then show ?thesis
    using assms by (auto simp: bignum_lshift_def shift_up_loop_def WORD_SIZE_def Let_def)
qed

lemma bignum_lshift_wf [simp]: "bn_wf a \<Longrightarrow> bn_wf b \<Longrightarrow> bn_wf (bignum_lshift a b nbits)"
  by (simp add: bignum_lshift_loop Let_def)

lemma bignum_lshift_value [bn_value]:
  assumes "bn_wf a" "bn_wf b"
  shows "bn_val (bignum_lshift a b nbits) = (bn_val a * 2 ^ nbits) mod bn_limit"
proof -
  define n where "n = nbits div 32"
  define s where "s = nbits mod 32"
  have split: "2 ^ nbits = (2 ^ (32 * n) * 2 ^ s :: nat)"
    unfolding power_add [symmetric] n_def s_def by simp
  let ?a = "if n \<noteq> 0 then lshift_word a n else a"
  have a: "bn_wf ?a" "bn_val ?a = (bn_val a * 2 ^ (32 * n)) mod bn_limit"
    using assms by (simp_all add: lshift_word_value)
  have "bn_val (bignum_lshift a b nbits) = (bn_val ?a * 2 ^ s) mod bn_limit"
    using a(1) shift_up_loop_value [of s ?a]
    unfolding bignum_lshift_loop [OF assms] n_def [symmetric] s_def [symmetric] Let_def
    by (cases "s = 0") (simp_all add: s_def)
  also have "\<dots> = (bn_val a * 2 ^ (32 * n) * 2 ^ s) mod bn_limit"
    unfolding a(2) by (rule mod_mult_left_eq)
  finally show ?thesis by (simp only: split mult.assoc)
qed

text \<open>
  \<open>_rshift_word\<close> keeps only \<open>nwords\<close> words, whatever the number is, and moves them
  by one place: it is a right shift by \<open>nwords\<close> words only for \<open>nwords = 0\<close>, or when
  the number is short.
\<close>

lemma rshift_word_words:
  assumes "bn_wf a" "n < BN_ARRAY_SIZE"
  shows "rshift_word a n = Some (take n (drop 1 a) @ replicate (BN_ARRAY_SIZE - n) 0)"
proof -
  have len: "length a = BN_ARRAY_SIZE" using assms by (simp add: bn_wf_def)
  let ?a = "fold (\<lambda>i a. a[i := a ! (i + 1)]) [0..<n] a"
  have down: "j < BN_ARRAY_SIZE \<Longrightarrow> ?a ! j = (if j < n then a ! Suc j else a ! j)" for j
    using nth_fold_ascending [of n a j "\<lambda>_ y. y"] assms(2) len by simp
  have "fold (\<lambda>i a. a[i := 0]) [n..<BN_ARRAY_SIZE] ?a =
        take n (drop 1 a) @ replicate (BN_ARRAY_SIZE - n) 0"
    using assms(2) len down
    by (intro nth_equalityI) (auto simp: nth_fold_fill nth_append)
  then show ?thesis using assms(2) by (simp add: rshift_word_def)
qed

lemma rshift_word_value:
  assumes "bn_wf a" "n < BN_ARRAY_SIZE"
  shows "\<exists>r. rshift_word a n = Some r \<and> bn_wf r \<and>
             bn_val r = (bn_val a div 2 ^ 32) mod 2 ^ (32 * n)"
  using assms bn_val_drop [of 1 a]
  by (simp add: rshift_word_words bn_val_append bn_val_take bn_wf_def)

lemma bignum_rshift_loop:
  "bignum_rshift a b nbits =
   (if nbits div 32 \<noteq> 0
    then map_option (\<lambda>a. if nbits mod 32 \<noteq> 0 then shift_down_loop (nbits mod 32) a else a)
           (rshift_word a (nbits div 32))
    else Some (if nbits mod 32 \<noteq> 0 then shift_down_loop (nbits mod 32) a else a))"
proof -
  have "nbits - nbits div 32 * 32 = nbits mod 32"
    by (metis minus_div_mult_eq_mod)
  then show ?thesis
    by (cases "rshift_word a (nbits div 32)")
      (simp_all add: bignum_rshift_def shift_down_loop_def Let_def drop_bit_eq_div push_bit_eq_mult)
qed

lemma bignum_rshift_value:
  assumes "bn_wf a" "nbits < 32"
  shows "\<exists>r. bignum_rshift a b nbits = Some r \<and> bn_wf r \<and> bn_val r = bn_val a div 2 ^ nbits"
  using assms shift_down_loop_value [of nbits a] by (simp add: bignum_rshift_loop)

lemma bignum_rshift_words_value:
  assumes "bn_wf a" "32 \<le> nbits" "nbits < 32 * BN_ARRAY_SIZE"
  shows "\<exists>r. bignum_rshift a b nbits = Some r \<and> bn_wf r \<and>
             bn_val r = (bn_val a div 2 ^ 32) mod 2 ^ (32 * (nbits div 32)) div 2 ^ (nbits mod 32)"
proof -
  have "nbits div 32 < BN_ARRAY_SIZE" "nbits div 32 \<noteq> 0" using assms(2,3) by auto
  then obtain r where "rshift_word a (nbits div 32) = Some r" "bn_wf r"
      "bn_val r = (bn_val a div 2 ^ 32) mod 2 ^ (32 * (nbits div 32))"
    using rshift_word_value [OF assms(1)] by blast
  then show ?thesis
    using shift_down_loop_value [of "nbits mod 32" r] \<open>nbits div 32 \<noteq> 0\<close>
    by (simp add: bignum_rshift_loop)
qed

section \<open>Single bits and the bit length\<close>

definition bignum_getbit :: "bn \<Rightarrow> nat \<Rightarrow> u32 option" where
  "bignum_getbit a n =
     (let arrayInd = drop_bit 5 n;
          shift = n - push_bit 5 arrayInd
      in if arrayInd < length a then Some (drop_bit shift (a ! arrayInd) AND 1) else None)"

definition bignum_getbit_unopt :: "bn \<Rightarrow> nat \<Rightarrow> u32 option" where
  "bignum_getbit_unopt a n =
     (let arrayInd = n div 32;
          numShift = n mod 32
      in if arrayInd < length a
         then let num = a ! arrayInd; numChanged = drop_bit numShift num in Some (numChanged mod 2)
         else None)"

text \<open>
  The optimised bit length never looks at bit 0 (the loop ends at \<open>f = 0\<close>); the
  unoptimised one does.
\<close>

fun bignum_numbits_loop :: "bn \<Rightarrow> nat \<Rightarrow> nat option" where
  "bignum_numbits_loop bn 0 = Some 0"
| "bignum_numbits_loop bn (Suc f) =
     do {
       b \<leftarrow> bignum_getbit bn (Suc f);
       (if b = 1 then Some (Suc f + 1) else bignum_numbits_loop bn f)
     }"

definition bignum_numbits :: "bn \<Rightarrow> nat option" where
  "bignum_numbits bn = bignum_numbits_loop bn (push_bit 5 BN_ARRAY_SIZE - 1)"

fun bignum_numbits_unopt_loop :: "bn \<Rightarrow> nat \<Rightarrow> nat option" where
  "bignum_numbits_unopt_loop bn 0 = Some 0"
| "bignum_numbits_unopt_loop bn (Suc f) =
     do {
       b \<leftarrow> bignum_getbit_unopt bn f;
       (if b = 1 then Some (Suc f) else bignum_numbits_unopt_loop bn f)
     }"

definition bignum_numbits_unopt :: "bn \<Rightarrow> nat option" where
  "bignum_numbits_unopt bn = bignum_numbits_unopt_loop bn (BN_ARRAY_SIZE * 32)"

lemma bignum_getbit_value [bn_value]:
  assumes "bn_wf a" "n < 32 * BN_ARRAY_SIZE"
  shows "bignum_getbit a n = Some (of_bool (bit (bn_val a) n))"
proof -
  have "n div 32 < length a" using assms by (simp add: bn_wf_def less_mult_imp_div_less mult.commute)
  moreover have "n - n div 32 * 32 = n mod 32" by (metis minus_div_mult_eq_mod)
  moreover have "drop_bit (n mod 32) (a ! (n div 32)) AND 1 = of_bool (bit (a ! (n div 32)) (n mod 32))"
    by (simp add: and_one_eq bit_iff_odd_drop_bit mod_2_eq_odd)
  ultimately show ?thesis
    by (simp add: bignum_getbit_def Let_def drop_bit_eq_div push_bit_eq_mult bit_bn_val)
qed

lemma bignum_getbit_unopt_eq: "bignum_getbit_unopt a n = bignum_getbit a n"
proof -
  have "n - n div 32 * 32 = n mod 32" by (metis minus_div_mult_eq_mod)
  then show ?thesis
    by (simp add: bignum_getbit_def bignum_getbit_unopt_def Let_def drop_bit_eq_div
        push_bit_eq_mult and_one_eq)
qed

lemma bignum_getbit_out_of_range:
  assumes "bn_wf a" "32 * BN_ARRAY_SIZE \<le> n"
  shows "bignum_getbit a n = None"
proof -
  have "\<not> n div 32 < BN_ARRAY_SIZE" using assms(2) by linarith
  with assms(1) show ?thesis
    by (simp add: bignum_getbit_def Let_def drop_bit_eq_div bn_wf_def)
qed

lemma bit_nat_bounds:
  fixes v :: nat
  assumes "bit v f" and "v < 2 ^ Suc f"
  shows "2 ^ f \<le> v"
proof (rule ccontr)
  assume "\<not> 2 ^ f \<le> v"
  then have "v div 2 ^ f = 0" by simp
  with assms(1) show False by (simp add: bit_iff_odd)
qed

lemma not_bit_nat_less:
  fixes v :: nat
  assumes "\<not> bit v f" and "v < 2 ^ Suc f"
  shows "v < 2 ^ f"
proof -
  have "v div 2 ^ f < 2" using assms(2) by (simp add: less_mult_imp_div_less mult.commute)
  moreover have "even (v div 2 ^ f)" using assms(1) by (simp add: bit_iff_odd)
  ultimately have "v div 2 ^ f = 0" by (cases "v div 2 ^ f") auto
  then show ?thesis by (simp add: div_eq_0_iff)
qed

lemma bignum_numbits_loop_spec:
  assumes "bn_wf a" "f < 32 * BN_ARRAY_SIZE" "bn_val a < 2 ^ Suc f"
  shows "\<exists>k. bignum_numbits_loop a f = Some k \<and>
             (if bn_val a < 2 then k = 0 else 0 < k \<and> 2 ^ (k - 1) \<le> bn_val a \<and> bn_val a < 2 ^ k)"
  using assms
proof (induction f)
  case 0
  then show ?case by simp
next
  case (Suc f)
  have gb: "bignum_getbit a (Suc f) = Some (of_bool (bit (bn_val a) (Suc f)))"
    using Suc.prems by (intro bignum_getbit_value)
  show ?case
  proof (cases "bit (bn_val a) (Suc f)")
    case True
    then have "2 ^ Suc f \<le> bn_val a" using Suc.prems(3) by (rule bit_nat_bounds)
    moreover have "(2 :: nat) \<le> 2 ^ Suc f" by simp
    ultimately have "\<not> bn_val a < 2" by linarith
    with \<open>2 ^ Suc f \<le> bn_val a\<close> show ?thesis using True gb Suc.prems(3) by simp
  next
    case False
    then have "bn_val a < 2 ^ Suc f" using Suc.prems(3) by (rule not_bit_nat_less)
    with Suc False gb show ?thesis by simp
  qed
qed

lemma bignum_numbits_value:
  assumes "bn_wf a"
  shows "\<exists>k. bignum_numbits a = Some k \<and>
             (if bn_val a < 2 then k = 0 else 0 < k \<and> 2 ^ (k - 1) \<le> bn_val a \<and> bn_val a < 2 ^ k)"
proof -
  have s: "Suc (push_bit 5 BN_ARRAY_SIZE - 1) = 32 * BN_ARRAY_SIZE"
    by (simp add: BN_ARRAY_SIZE_97 push_bit_eq_mult)
  then have "bn_val a < 2 ^ Suc (push_bit 5 BN_ARRAY_SIZE - 1)"
    using bn_val_limit [OF assms] by simp
  then show ?thesis
    unfolding bignum_numbits_def
    by (intro bignum_numbits_loop_spec [OF assms]) (simp_all only: s [symmetric] lessI)
qed

lemma bignum_numbits_unopt_loop_spec:
  assumes "bn_wf a" "f \<le> 32 * BN_ARRAY_SIZE" "bn_val a < 2 ^ f"
  shows "\<exists>k. bignum_numbits_unopt_loop a f = Some k \<and>
             (if bn_val a = 0 then k = 0 else 0 < k \<and> 2 ^ (k - 1) \<le> bn_val a \<and> bn_val a < 2 ^ k)"
  using assms
proof (induction f)
  case 0
  then show ?case by simp
next
  case (Suc f)
  have gb: "bignum_getbit_unopt a f = Some (of_bool (bit (bn_val a) f))"
    unfolding bignum_getbit_unopt_eq using Suc.prems by (intro bignum_getbit_value) simp_all
  show ?case
  proof (cases "bit (bn_val a) f")
    case True
    then have "2 ^ f \<le> bn_val a" using Suc.prems(3) by (rule bit_nat_bounds)
    moreover have "(0 :: nat) < 2 ^ f" by simp
    ultimately show ?thesis using True gb Suc.prems(3) by (simp del: zero_less_power)
  next
    case False
    then have "bn_val a < 2 ^ f" using Suc.prems(3) by (rule not_bit_nat_less)
    with Suc False gb show ?thesis by simp
  qed
qed

text \<open>The two bit lengths agree except on the number 1.\<close>

lemma power_bracket_unique:
  fixes v :: nat
  assumes "0 < j" "2 ^ (j - 1) \<le> v" "v < 2 ^ j" "0 < k" "2 ^ (k - 1) \<le> v" "v < 2 ^ k"
  shows "j = k"
proof -
  have "(2 :: nat) ^ (j - 1) < 2 ^ k" "(2 :: nat) ^ (k - 1) < 2 ^ j"
    using assms(2,3,5,6) by (blast intro: order_le_less_trans)+
  then have "j - 1 < k" "k - 1 < j" by simp_all
  then show ?thesis using assms(1,4) by linarith
qed

lemma bignum_numbits_unopt_eq:
  assumes "bn_wf a"
  shows "bignum_numbits_unopt a = (if bn_val a = 1 then Some 1 else bignum_numbits a)"
proof -
  obtain j where j: "bignum_numbits_unopt a = Some j"
    "if bn_val a = 0 then j = 0 else 0 < j \<and> 2 ^ (j - 1) \<le> bn_val a \<and> bn_val a < 2 ^ j"
    using bignum_numbits_unopt_loop_spec [OF assms, of "BN_ARRAY_SIZE * 32"] bn_val_limit [OF assms]
    by (auto simp: bignum_numbits_unopt_def mult.commute)
  obtain k where k: "bignum_numbits a = Some k"
    "if bn_val a < 2 then k = 0 else 0 < k \<and> 2 ^ (k - 1) \<le> bn_val a \<and> bn_val a < 2 ^ k"
    using bignum_numbits_value [OF assms] by blast
  consider "bn_val a = 0" | "bn_val a = 1" | "2 \<le> bn_val a" by linarith
  then show ?thesis
  proof cases
    case 1
    with j k show ?thesis by simp
  next
    case 2
    with j have "(2 :: nat) ^ (j - 1) \<le> 1" "0 < j" by simp_all
    then have "j - 1 = 0" using less_exp [of "j - 1"] by linarith
    with \<open>0 < j\<close> have "j = 1" by simp
    with 2 j show ?thesis by simp
  next
    case 3
    with j k show ?thesis using power_bracket_unique [of j "bn_val a" k] by simp
  qed
qed

end
