(* ===== verification/Bignum_Arith.thy ===== *)
theory Bignum_Arith
  imports Bignum_Bits
begin

text \<open>
  Multiplication, division, remainder, power and integer square root of
  src/tetd_x86/s4/bignum.c. A local \<open>struct bn\<close> that the code initialises before its
  first use starts as \<open>bn_local\<close>; the one that is used uninitialised (\<open>mid\<close> of
  \<open>bignum_isqrt\<close>) is an argument of the model. A loop that may not end is a
  \<open>partial_function\<close> whose value is \<open>None\<close> where the code does not return.
\<close>

definition bn_local :: bn where
  "bn_local = replicate BN_ARRAY_SIZE 0"

lemma bn_local_wf [simp]: "bn_wf bn_local"
  by (simp add: bn_local_def)

section \<open>Multiplication\<close>

definition bignum_mul_inner :: "bn \<Rightarrow> bn \<Rightarrow> nat \<Rightarrow> nat \<Rightarrow> bn \<Rightarrow> bn" where
  "bignum_mul_inner a b i j row =
     (if i + j < BN_ARRAY_SIZE
      then let tmp = bignum_init bn_local;
               intermediate = (ucast (a ! i) * ucast (b ! j) :: u64);
               tmp = bignum_from_int tmp intermediate;
               tmp = lshift_word tmp (i + j)
           in bignum_add tmp row row
      else row)"

definition bignum_mul_row :: "bn \<Rightarrow> bn \<Rightarrow> nat \<Rightarrow> bn \<Rightarrow> bn" where
  "bignum_mul_row a b i c =
     (let row = bignum_init bn_local;
          row = fold (bignum_mul_inner a b i) [0..<BN_ARRAY_SIZE] row
      in bignum_add c row c)"

definition bignum_mul :: "bn \<Rightarrow> bn \<Rightarrow> bn \<Rightarrow> bn" where
  "bignum_mul a b c = fold (bignum_mul_row a b) [0..<BN_ARRAY_SIZE] (bignum_init c)"

lemma unat_mult_words: "unat (ucast (x :: u32) * ucast (y :: u32) :: u64) = unat x * unat y"
proof -
  have "unat x * unat y \<le> 4294967295 * 4294967295"
    using unat_u32_less [of x] unat_u32_less [of y] by (intro mult_le_mono) simp_all
  then show ?thesis by (simp add: unat_word_ariths)
qed

lemma mod_add_mult_term:
  fixes x y z L :: nat
  shows "r = x mod L \<Longrightarrow> t = y mod L \<Longrightarrow> (t + r) mod L = (x + y) mod L"
  by (simp add: mod_simps add.commute)

lemma mod_drop_multiple:
  fixes x y L :: nat
  shows "y mod L = 0 \<Longrightarrow> (x + y) mod L = x mod L"
  by (simp add: mod_add_eq [symmetric])

lemma bignum_mul_inner_inv:
  assumes "bn_wf a" "bn_wf b" "i < BN_ARRAY_SIZE" "k \<le> BN_ARRAY_SIZE"
  shows "bn_wf (fold (bignum_mul_inner a b i) [0..<k] (replicate BN_ARRAY_SIZE 0)) \<and>
         bn_val (fold (bignum_mul_inner a b i) [0..<k] (replicate BN_ARRAY_SIZE 0)) =
         (2 ^ (32 * i) * unat (a ! i) * bn_val (take k b)) mod bn_limit"
  using assms(4)
proof (induction k)
  case 0
  then show ?case by simp
next
  case (Suc k)
  let ?row = "fold (bignum_mul_inner a b i) [0..<k] (replicate BN_ARRAY_SIZE 0)"
  let ?t = "2 ^ (32 * (i + k)) * (unat (a ! i) * unat (b ! k))"
  have row: "bn_wf ?row" "bn_val ?row = (2 ^ (32 * i) * unat (a ! i) * bn_val (take k b)) mod bn_limit"
    using Suc by simp_all
  have k: "k < length b" using Suc.prems assms(2) by (simp add: bn_wf_def)
  have total: "2 ^ (32 * i) * unat (a ! i) * bn_val (take (Suc k) b) =
      2 ^ (32 * i) * unat (a ! i) * bn_val (take k b) + ?t"
    using k by (simp add: bn_val_take_Suc power_add algebra_simps)
  show ?case
  proof (cases "i + k < BN_ARRAY_SIZE")
    case True
    let ?tmp = "lshift_word (bignum_from_int (replicate BN_ARRAY_SIZE 0) (ucast (a ! i) * ucast (b ! k))) (i + k)"
    have tmp: "bn_wf ?tmp" "bn_val ?tmp = ?t mod bn_limit"
      by (simp_all add: lshift_word_value bignum_from_int_value unat_mult_words mult.commute)
    have "bignum_mul_inner a b i k ?row = bignum_add ?tmp ?row ?row"
      using True by (simp add: bignum_mul_inner_def Let_def)
    moreover have "bn_val (bignum_add ?tmp ?row ?row) =
        (2 ^ (32 * i) * unat (a ! i) * bn_val (take (Suc k) b)) mod bn_limit"
      unfolding bignum_add_value [OF tmp(1) row(1) row(1)] total
      by (rule mod_add_mult_term [OF row(2) tmp(2)])
    ultimately show ?thesis using tmp(1) row(1) by simp
  next
    case False
    then have "bn_limit dvd (2 :: nat) ^ (32 * (i + k))" by (intro le_imp_power_dvd) simp
    then have "?t mod bn_limit = 0" by (simp only: dvd_mult2 mod_eq_0_iff_dvd)
    then have "bn_val ?row = (2 ^ (32 * i) * unat (a ! i) * bn_val (take (Suc k) b)) mod bn_limit"
      unfolding row(2) total by (simp only: mod_drop_multiple)
    moreover have "bignum_mul_inner a b i k ?row = ?row"
      using False by (simp add: bignum_mul_inner_def)
    ultimately show ?thesis using row(1) by simp
  qed
qed

lemma bignum_mul_inv:
  assumes "bn_wf a" "bn_wf b" "k \<le> BN_ARRAY_SIZE"
  shows "bn_wf (fold (bignum_mul_row a b) [0..<k] (replicate BN_ARRAY_SIZE 0)) \<and>
         bn_val (fold (bignum_mul_row a b) [0..<k] (replicate BN_ARRAY_SIZE 0)) =
         (bn_val (take k a) * bn_val b) mod bn_limit"
  using assms(3)
proof (induction k)
  case 0
  then show ?case by simp
next
  case (Suc k)
  let ?c = "fold (bignum_mul_row a b) [0..<k] (replicate BN_ARRAY_SIZE 0)"
  let ?row = "fold (bignum_mul_inner a b k) [0..<BN_ARRAY_SIZE] (replicate BN_ARRAY_SIZE 0)"
  have c: "bn_wf ?c" "bn_val ?c = (bn_val (take k a) * bn_val b) mod bn_limit"
    using Suc by simp_all
  have row: "bn_wf ?row" "bn_val ?row = (2 ^ (32 * k) * unat (a ! k) * bn_val b) mod bn_limit"
    using bignum_mul_inner_inv [OF assms(1,2), of k BN_ARRAY_SIZE] Suc.prems assms(2)
    by (simp_all add: bn_wf_def)
  have "bn_val (bignum_add ?c ?row ?c) =
      (bn_val (take k a) * bn_val b + 2 ^ (32 * k) * unat (a ! k) * bn_val b) mod bn_limit"
    unfolding bignum_add_value [OF c(1) row(1) c(1)] c(2) row(2) by (simp only: mod_add_eq)
  moreover have "bn_val (take k a) * bn_val b + 2 ^ (32 * k) * unat (a ! k) * bn_val b =
      bn_val (take (Suc k) a) * bn_val b"
    using Suc.prems assms(1) by (simp add: bn_val_take_Suc bn_wf_def algebra_simps)
  moreover have "bignum_mul_row a b k ?c = bignum_add ?c ?row ?c"
    by (simp add: bignum_mul_row_def Let_def)
  ultimately show ?case
    using c(1) row(1) by simp
qed

lemma bignum_mul_wf [simp]: "bn_wf a \<Longrightarrow> bn_wf b \<Longrightarrow> bn_wf c \<Longrightarrow> bn_wf (bignum_mul a b c)"
  using bignum_mul_inv [of a b BN_ARRAY_SIZE] by (simp add: bignum_mul_def)

lemma bignum_mul_value [bn_value]:
  "bn_wf a \<Longrightarrow> bn_wf b \<Longrightarrow> bn_wf c \<Longrightarrow>
   bn_val (bignum_mul a b c) = (bn_val a * bn_val b) mod bn_limit"
  using bignum_mul_inv [of a b BN_ARRAY_SIZE] by (simp add: bignum_mul_def bn_wf_def)

section \<open>Division\<close>

text \<open>
  \<open>bignum_div\<close> doubles the divisor until it exceeds the dividend (or its top bit is set),
  then subtracts it back down. The state of the first loop is \<open>current\<close> and \<open>denom\<close>;
  that of the second is \<open>tmp\<close>, \<open>denom\<close>, \<open>current\<close> and the answer.
\<close>

definition half_max :: u64 where
  "half_max = 1 + MAX_VAL div 2"

partial_function (option) bignum_div_scale :: "bn \<Rightarrow> bn \<Rightarrow> bn \<Rightarrow> (bn \<times> bn \<times> bool) option" where
  "bignum_div_scale a current denom =
     (if bignum_cmp denom a \<noteq> LARGER
      then if ucast (denom ! (BN_ARRAY_SIZE - 1)) \<ge> half_max then Some (current, denom, True)
           else bignum_div_scale a (lshift_one_bit current) (lshift_one_bit denom)
      else Some (current, denom, False))"

partial_function (option) bignum_div_reduce :: "bn \<Rightarrow> bn \<Rightarrow> bn \<Rightarrow> bn \<Rightarrow> bn option" where
  "bignum_div_reduce tmp denom current c =
     (if \<not> bignum_is_zero current
      then let (tmp, c) = (if bignum_cmp tmp denom \<noteq> SMALLER
                           then (bignum_sub tmp denom tmp, bignum_or c current c)
                           else (tmp, c))
           in bignum_div_reduce tmp (rshift_one_bit denom) (rshift_one_bit current) c
      else Some c)"

definition bignum_div :: "bn \<Rightarrow> bn \<Rightarrow> bn \<Rightarrow> bn option" where
  "bignum_div a b c =
     (let current = bignum_from_int bn_local 1;
          denom = bignum_assign bn_local b;
          tmp = bignum_assign bn_local a
      in do {
        (current, denom, overflow) \<leftarrow> bignum_div_scale a current denom;
        let (denom, current) = (if \<not> overflow then (rshift_one_bit denom, rshift_one_bit current)
                                else (denom, current));
        let c = bignum_init c;
        bignum_div_reduce tmp denom current c
      })"

definition bignum_divmod :: "bn \<Rightarrow> bn \<Rightarrow> bn \<Rightarrow> bn \<Rightarrow> (bn \<times> bn) option" where
  "bignum_divmod a b c d =
     do {
       c \<leftarrow> bignum_div a b c;
       let tmp = bignum_mul c b bn_local;
       let d = bignum_sub a tmp d;
       Some (c, d)
     }"

definition bignum_mod :: "bn \<Rightarrow> bn \<Rightarrow> bn \<Rightarrow> bn option" where
  "bignum_mod a b c = map_option snd (bignum_divmod a b bn_local c)"

text \<open>The test of the top word is a test of the value's top bit.\<close>

lemma top_word_half_max:
  assumes "bn_wf d"
  shows "ucast (d ! (BN_ARRAY_SIZE - 1)) \<ge> half_max \<longleftrightarrow> bn_val d \<ge> 2 ^ (32 * BN_ARRAY_SIZE - 1)"
proof -
  let ?N = BN_ARRAY_SIZE
  let ?w = "d ! (?N - 1)"
  have len: "length d = Suc (?N - 1)" using assms by (simp add: bn_wf_def BN_ARRAY_SIZE_97)
  then have v: "bn_val d = bn_val (take (?N - 1) d) + 2 ^ (32 * (?N - 1)) * unat ?w"
    using bn_val_take_Suc [of "?N - 1" d] by simp
  have lo: "bn_val (take (?N - 1) d) < 2 ^ (32 * (?N - 1))"
    using bn_val_less [of "take (?N - 1) d"] len by simp
  have "32 * ?N - 1 = 32 * (?N - 1) + 31" by (simp add: BN_ARRAY_SIZE_97)
  then have p: "(2 :: nat) ^ (32 * ?N - 1) = 2 ^ (32 * (?N - 1)) * 2 ^ 31" by (simp only: power_add)
  have w: "ucast ?w \<ge> half_max \<longleftrightarrow> 2 ^ 31 \<le> unat ?w"
    by (simp add: half_max_def word_le_nat_alt MAX_VAL_def)
  have "2 ^ 31 \<le> unat ?w \<longleftrightarrow> 2 ^ (32 * (?N - 1)) * 2 ^ 31 \<le> bn_val d"
  proof
    assume "2 ^ 31 \<le> unat ?w"
    then have "2 ^ (32 * (?N - 1)) * 2 ^ 31 \<le> 2 ^ (32 * (?N - 1)) * unat ?w" by (rule mult_le_mono2)
    with v show "2 ^ (32 * (?N - 1)) * 2 ^ 31 \<le> bn_val d" by linarith
  next
    assume "2 ^ (32 * (?N - 1)) * 2 ^ 31 \<le> bn_val d"
    show "2 ^ 31 \<le> unat ?w"
    proof (rule ccontr)
      assume "\<not> 2 ^ 31 \<le> unat ?w"
      then have "unat ?w < 2 ^ 31" by linarith
      from bn_val_digit_less [OF this lo, of 0] v \<open>_ \<le> bn_val d\<close> show False by linarith
    qed
  qed
  then show ?thesis unfolding w p .
qed

text \<open>
  The first loop: \<open>current = 2 ^ k\<close>, \<open>denom = b * 2 ^ k\<close>; it stops with \<open>denom > a\<close>, or
  with \<open>denom \<le> a\<close> and a dividend that is below twice \<open>denom\<close>.
\<close>

lemma bignum_div_scale_spec:
  assumes "bn_wf a" "bn_wf current" "bn_wf denom"
    and "bn_val current = 2 ^ k" "bn_val denom = b * 2 ^ k" "0 < b"
    and "bn_val a < bn_limit"
    and "k = 0 \<or> b * 2 ^ (k - 1) \<le> bn_val a"
  shows "\<exists>cur den ov n. bignum_div_scale a current denom = Some (cur, den, ov) \<and>
           bn_wf cur \<and> bn_wf den \<and> bn_val cur = 2 ^ n \<and> bn_val den = b * 2 ^ n \<and>
           bn_val a < (if ov then 2 else 1) * (b * 2 ^ n) \<and>
           (ov \<longrightarrow> b * 2 ^ n \<le> bn_val a) \<and>
           (\<not> ov \<longrightarrow> n = 0 \<or> b * 2 ^ (n - 1) \<le> bn_val a)"
  using assms
proof (induction "32 * BN_ARRAY_SIZE - k" arbitrary: k current denom rule: less_induct)
  case less
  show ?case
  proof (cases "bn_val denom \<le> bn_val a")
    case False
    then have "bignum_div_scale a current denom = Some (current, denom, False)"
      using less.prems by (subst bignum_div_scale.simps) (simp add: bn_value)
    with False less.prems show ?thesis by auto
  next
    case le: True
    show ?thesis
    proof (cases "bn_val denom \<ge> 2 ^ (32 * BN_ARRAY_SIZE - 1)")
      case True
      then have "bignum_div_scale a current denom = Some (current, denom, True)"
        using less.prems le top_word_half_max [of denom]
        by (subst bignum_div_scale.simps) (simp add: bn_value)
      moreover have "bn_limit = 2 * (2 :: nat) ^ (32 * BN_ARRAY_SIZE - 1)"
        by (simp add: BN_ARRAY_SIZE_97 flip: power_Suc)
      then have "bn_val a < 2 * bn_val denom" using True less.prems(7) by linarith
      ultimately show ?thesis using le less.prems by auto
    next
      case small: False
      have L: "bn_limit = 2 * (2 :: nat) ^ (32 * BN_ARRAY_SIZE - 1)"
        by (simp add: BN_ARRAY_SIZE_97 flip: power_Suc)
      have step: "bignum_div_scale a current denom =
          bignum_div_scale a (lshift_one_bit current) (lshift_one_bit denom)"
        using less.prems le small top_word_half_max [of denom]
        by (subst bignum_div_scale.simps) (simp add: bn_value)
      have den: "bn_val denom * 2 < bn_limit" using small L by linarith
      have "(2 :: nat) ^ k \<le> b * 2 ^ k" using less.prems(6) by simp
      then have "(2 :: nat) ^ k < 2 ^ (32 * BN_ARRAY_SIZE - 1)" using small less.prems(5) by linarith
      then have k: "k < 32 * BN_ARRAY_SIZE - 1" by (simp only: power_strict_increasing_iff)
      have cur: "bn_val current * 2 < bn_limit" 
        using \<open>2 ^ k < _\<close> L less.prems(4) by linarith
      have "32 * BN_ARRAY_SIZE - Suc k < 32 * BN_ARRAY_SIZE - k" using k by linarith
      moreover have "bn_val (lshift_one_bit current) = 2 ^ Suc k"
        using cur less.prems(2,4) by (simp add: lshift_one_bit_value)
      moreover have "bn_val (lshift_one_bit denom) = b * 2 ^ Suc k"
        using den less.prems(3,5) by (simp add: lshift_one_bit_value)
      moreover have "b * 2 ^ (Suc k - 1) \<le> bn_val a" using le less.prems(5) by simp
      ultimately show ?thesis
        unfolding step using less.prems by (intro less.hyps [of "Suc k"]) simp_all
    qed
  qed
qed

lemma or_disjoint_power:
  fixes c n :: nat
  assumes "2 ^ Suc n dvd c"
  shows "c OR 2 ^ n = c + 2 ^ n" and "2 ^ n dvd c + 2 ^ n"
proof -
  have "\<not> bit c n"
    using assms by (auto simp: bit_iff_odd elim!: dvdE)
  then have "c AND 2 ^ n = 0"
    by (intro bit_eqI) (auto simp: bit_simps)
  then show "c OR 2 ^ n = c + 2 ^ n" by (simp add: disjunctive_add_eq_or)
  have "2 ^ n dvd c" using assms by (meson dvd_trans le_imp_power_dvd le_SucI order_refl)
  then show "2 ^ n dvd c + 2 ^ n" by simp
qed

text \<open>The second loop, whose iterations are counted by the exponent \<open>n\<close> of \<open>current\<close>.\<close>

lemma bignum_div_reduce_done:
  assumes "bn_wf current" "bn_val current = 0"
  shows "bignum_div_reduce tmp denom current c = Some c"
  using assms by (subst bignum_div_reduce.simps) (simp add: bn_value)

lemma bignum_div_reduce_spec:
  assumes "bn_wf tmp" "bn_wf denom" "bn_wf current" "bn_wf c"
    and "bn_val current = 2 ^ n" "bn_val denom = b * 2 ^ n" "bn_val tmp < 2 * (b * 2 ^ n)"
    and "2 ^ Suc n dvd bn_val c"
  shows "\<exists>c'. bignum_div_reduce tmp denom current c = Some c' \<and> bn_wf c' \<and>
           bn_val c' = bn_val c + bn_val tmp div b"
  using assms
proof (induction n arbitrary: tmp denom current c)
  case 0
  let ?s = "if bn_val denom \<le> bn_val tmp then (bignum_sub tmp denom tmp, bignum_or c current c) else (tmp, c)"
  have step: "bignum_div_reduce tmp denom current c =
      bignum_div_reduce (fst ?s) (rshift_one_bit denom) (rshift_one_bit current) (snd ?s)"
    using 0 by (subst bignum_div_reduce.simps) (simp add: bn_value)
  have done_: "bignum_div_reduce tmp denom current c = Some (snd ?s)"
    unfolding step using 0 by (intro bignum_div_reduce_done) (simp_all add: bn_value)
  have "bn_val (bignum_or c current c) = bn_val c + 1"
    using 0 or_disjoint_power [of 0 "bn_val c"] by (simp add: bn_value)
  moreover have "bn_val denom \<le> bn_val tmp \<Longrightarrow> bn_val tmp div b = 1"
    using 0 by (intro div_nat_eqI) simp_all
  ultimately show ?case using done_ 0 by auto
next
  case (Suc n)
  let ?s = "if bn_val denom \<le> bn_val tmp then (bignum_sub tmp denom tmp, bignum_or c current c) else (tmp, c)"
  have step: "bignum_div_reduce tmp denom current c =
      bignum_div_reduce (fst ?s) (rshift_one_bit denom) (rshift_one_bit current) (snd ?s)"
    using Suc.prems by (subst bignum_div_reduce.simps) (simp add: bn_value)
  have down: "2 ^ Suc n dvd bn_val c" using Suc.prems(8) by (meson dvd_trans le_imp_power_dvd le_SucI order_refl)
  have wf: "bn_wf (fst ?s)" "bn_wf (snd ?s)" using Suc.prems by simp_all
  have val: "bn_val (fst ?s) < 2 * (b * 2 ^ n) \<and> 2 ^ Suc n dvd bn_val (snd ?s) \<and>
      bn_val (snd ?s) + bn_val (fst ?s) div b = bn_val c + bn_val tmp div b"
  proof (cases "bn_val denom \<le> bn_val tmp")
    case True
    have b: "0 < b" using Suc.prems(7) by (cases b) simp_all
    have "bn_val (fst ?s) = bn_val tmp - b * 2 ^ Suc n"
      using True Suc.prems by (simp add: bn_value)
    moreover have "bn_val (snd ?s) = bn_val c + 2 ^ Suc n"
      using True Suc.prems or_disjoint_power [of "Suc n" "bn_val c"] by (simp add: bn_value)
    moreover have "bn_val tmp div b = (bn_val tmp - b * 2 ^ Suc n) div b + 2 ^ Suc n"
    proof -
      have "bn_val tmp = (bn_val tmp - b * 2 ^ Suc n) + b * 2 ^ Suc n" using True Suc.prems(6) by simp
      then have "bn_val tmp div b = ((bn_val tmp - b * 2 ^ Suc n) + b * 2 ^ Suc n) div b" by (rule arg_cong)
      also have "\<dots> = (bn_val tmp - b * 2 ^ Suc n) div b + 2 ^ Suc n"
        using b by (subst div_mult_self2) (simp_all del: power_Suc)
      finally show ?thesis .
    qed
    ultimately show ?thesis
      using Suc.prems(7) or_disjoint_power(2) [OF Suc.prems(8)] by (simp add: mult.left_commute)
  next
    case False
    then show ?thesis using Suc.prems down by simp
  qed
  have "\<exists>c'. bignum_div_reduce (fst ?s) (rshift_one_bit denom) (rshift_one_bit current) (snd ?s) = Some c' \<and>
      bn_wf c' \<and> bn_val c' = bn_val (snd ?s) + bn_val (fst ?s) div b"
    using wf val Suc.prems by (intro Suc.IH) (simp_all add: bn_value)
  with val show ?case unfolding step by simp
qed

lemma bignum_div_spec:
  assumes "bn_wf a" "bn_wf b" "bn_wf c" "0 < bn_val b"
  shows "\<exists>r. bignum_div a b c = Some r \<and> bn_wf r \<and> bn_val r = bn_val a div bn_val b"
proof -
  let ?b = "bn_val b"
  have init: "bn_val (bignum_from_int bn_local 1) = 1" "bn_wf (bignum_from_int bn_local 1)"
    by (simp_all add: bignum_from_int_value)
  obtain cur den ov n where sc:
    "bignum_div_scale a (bignum_from_int bn_local 1) b = Some (cur, den, ov)"
    "bn_wf cur" "bn_wf den" "bn_val cur = 2 ^ n" "bn_val den = ?b * 2 ^ n"
    "bn_val a < (if ov then 2 else 1) * (?b * 2 ^ n)"
    using bignum_div_scale_spec [of a "bignum_from_int bn_local 1" b 0 ?b] init assms bn_val_limit
    by auto
  have start: "bignum_div a b c =
      (if ov then bignum_div_reduce a den cur (replicate BN_ARRAY_SIZE 0)
       else bignum_div_reduce a (rshift_one_bit den) (rshift_one_bit cur) (replicate BN_ARRAY_SIZE 0))"
    using sc(1) assms by (simp add: bignum_div_def Let_def)
  consider "ov" | "\<not> ov" "n = 0" | m where "\<not> ov" "n = Suc m" by (cases n) auto
  then show ?thesis
  proof cases
    case 1
    then show ?thesis
      unfolding start using bignum_div_reduce_spec [of a den cur "replicate BN_ARRAY_SIZE 0" n ?b] sc assms
      by simp
  next
    case 2
    have "bignum_div a b c = Some (replicate BN_ARRAY_SIZE 0)"
      unfolding start using 2 sc by (simp add: bignum_div_reduce_done bn_value)
    moreover have "bn_val a div ?b = 0" using 2 sc(6) by simp
    ultimately show ?thesis by simp
  next
    case 3
    have "bn_val (rshift_one_bit den) = ?b * 2 ^ m" "bn_val (rshift_one_bit cur) = 2 ^ m"
      using 3 sc by (simp_all add: bn_value)
    moreover have "bn_val a < 2 * (?b * 2 ^ m)" using 3 sc(6) by simp
    ultimately show ?thesis
      unfolding start
      using 3 sc assms
        bignum_div_reduce_spec [of a "rshift_one_bit den" "rshift_one_bit cur" "replicate BN_ARRAY_SIZE 0" m ?b]
      by simp
  qed
qed

text \<open>With divisor zero the first loop never ends: \<open>denom\<close> stays 0 and never exceeds \<open>a\<close>.\<close>

lemma bignum_div_scale_zero:
  "bignum_div_scale a current denom = Some r \<Longrightarrow> bn_wf a \<Longrightarrow> bn_wf denom \<Longrightarrow> bn_val denom = 0 \<Longrightarrow> False"
proof (induction a current denom r rule: bignum_div_scale.raw_induct [rotated 1, consumes 1])
  case (1 div_scale a current denom r)
  have "\<not> ucast (denom ! (BN_ARRAY_SIZE - 1)) \<ge> half_max"
    using 1 top_word_half_max [of denom] by simp
  moreover have "bignum_cmp denom a \<noteq> LARGER" using 1 by (simp add: bn_value)
  ultimately have "div_scale a (lshift_one_bit current) (lshift_one_bit denom) = Some r"
    using 1(2) by simp
  then show False by (rule 1(1)) (use 1 in \<open>simp_all add: bn_value\<close>)
qed

lemma bignum_div_by_zero:
  assumes "bn_wf a" "bn_wf b" "bn_val b = 0"
  shows "bignum_div a b c = None"
proof (cases "bignum_div_scale a (bignum_from_int bn_local 1) b")
  case None
  then show ?thesis using assms by (simp add: bignum_div_def)
next
  case (Some r)
  then show ?thesis using bignum_div_scale_zero assms by blast
qed

lemma bignum_divmod_spec:
  assumes "bn_wf a" "bn_wf b" "bn_wf c" "bn_wf d" "0 < bn_val b"
  shows "\<exists>q r. bignum_divmod a b c d = Some (q, r) \<and> bn_wf q \<and> bn_wf r \<and>
           bn_val q = bn_val a div bn_val b \<and> bn_val r = bn_val a mod bn_val b"
proof -
  obtain q where q: "bignum_div a b c = Some q" "bn_wf q" "bn_val q = bn_val a div bn_val b"
    using bignum_div_spec assms by blast
  have le: "bn_val q * bn_val b \<le> bn_val a" unfolding q(3) by (simp add: div_times_less_eq_dividend)
  then have "bn_val (bignum_mul q b bn_local) = bn_val q * bn_val b"
    using q(2) assms bn_val_limit [of a] by (simp add: bignum_mul_value)
  then have "bn_val (bignum_sub a (bignum_mul q b bn_local) d) = bn_val a - bn_val q * bn_val b"
    using q(2) assms le by (simp add: bignum_sub_value)
  also have "\<dots> = bn_val a mod bn_val b" unfolding q(3) by (rule minus_div_mult_eq_mod)
  finally show ?thesis using q assms by (simp add: bignum_divmod_def Let_def)
qed

lemma bignum_mod_spec:
  assumes "bn_wf a" "bn_wf b" "bn_wf c" "0 < bn_val b"
  shows "\<exists>r. bignum_mod a b c = Some r \<and> bn_wf r \<and> bn_val r = bn_val a mod bn_val b"
  using bignum_divmod_spec [of a b bn_local c] assms by (auto simp: bignum_mod_def)

section \<open>Power\<close>

text \<open>\<open>bignum_pow\<close> counts its exponent argument down in place, so it returns it as well.\<close>

partial_function (option) bignum_pow_loop :: "bn \<Rightarrow> bn \<Rightarrow> bn \<Rightarrow> bn \<Rightarrow> (bn \<times> bn \<times> bn) option" where
  "bignum_pow_loop a b tmp c =
     (if \<not> bignum_is_zero b
      then let c = bignum_mul tmp a c;
               b = bignum_dec b;
               tmp = bignum_assign tmp c
           in bignum_pow_loop a b tmp c
      else Some (b, tmp, c))"

definition bignum_pow :: "bn \<Rightarrow> bn \<Rightarrow> bn \<Rightarrow> (bn \<times> bn) option" where
  "bignum_pow a b c =
     (let c = bignum_init c
      in if bignum_cmp b c = EQUAL then Some (b, bignum_inc c)
         else do {
           let tmp = bignum_assign bn_local a;
           let b = bignum_dec b;
           (b, tmp, c) \<leftarrow> bignum_pow_loop a b tmp c;
           Some (b, bignum_assign c tmp)
         })"

lemma bignum_pow_loop_spec:
  assumes "bn_wf a" "bn_wf b" "bn_wf tmp" "bn_wf c" "bn_val b = n"
  shows "\<exists>b' t c'. bignum_pow_loop a b tmp c = Some (b', t, c') \<and> bn_wf b' \<and> bn_wf t \<and> bn_wf c' \<and>
           bn_val b' = 0 \<and> bn_val t = (bn_val tmp * bn_val a ^ n) mod bn_limit"
  using assms
proof (induction n arbitrary: b tmp c)
  case 0
  then show ?case by (subst bignum_pow_loop.simps) (simp add: bn_value)
next
  case (Suc n)
  have step: "bignum_pow_loop a b tmp c =
      bignum_pow_loop a (bignum_dec b) (bignum_mul tmp a c) (bignum_mul tmp a c)"
    using Suc.prems by (subst bignum_pow_loop.simps) (simp add: bn_value Let_def)
  have "bn_val (bignum_dec b) = n" using Suc.prems by (simp add: bn_value)
  then obtain b' t c' where r:
    "bignum_pow_loop a (bignum_dec b) (bignum_mul tmp a c) (bignum_mul tmp a c) = Some (b', t, c')"
    "bn_wf b'" "bn_wf t" "bn_wf c'" "bn_val b' = 0"
    "bn_val t = (bn_val (bignum_mul tmp a c) * bn_val a ^ n) mod bn_limit"
    using Suc.IH [of "bignum_dec b" "bignum_mul tmp a c" "bignum_mul tmp a c"] Suc.prems by auto
  have "bn_val t = (bn_val tmp * bn_val a ^ Suc n) mod bn_limit"
    unfolding r(6) using Suc.prems
    by (simp add: bignum_mul_value mod_mult_left_eq mult.assoc)
  with r show ?case unfolding step by auto
qed

lemma bignum_pow_spec:
  assumes "bn_wf a" "bn_wf b" "bn_wf c"
  shows "\<exists>b' r. bignum_pow a b c = Some (b', r) \<and> bn_wf b' \<and> bn_wf r \<and> bn_val b' = 0 \<and>
           bn_val r = bn_val a ^ bn_val b mod bn_limit"
proof (cases "bn_val b")
  case 0
  have "1 mod bn_limit = (1 :: nat)" by (simp add: BN_ARRAY_SIZE_97)
  with 0 assms show ?thesis by (simp add: bignum_pow_def bn_value)
next
  case (Suc n)
  then have "bn_val (bignum_dec b) = n" using assms by (simp add: bn_value)
  then show ?thesis
    using bignum_pow_loop_spec [of a "bignum_dec b" a "bignum_init c" n] assms Suc
    by (auto simp: bignum_pow_def bn_value Let_def)
qed

section \<open>Integer square root\<close>

text \<open>
  \<open>bignum_isqrt\<close> halves \<open>high\<close> in place with \<open>bignum_rshift\<close>, and \<open>mid\<close>, which that call was
  to fill, keeps whatever it held: \<open>mid0\<close> is the content of the uninitialised local.
\<close>

partial_function (option) bignum_isqrt_loop :: "bn \<Rightarrow> bn \<Rightarrow> bn \<Rightarrow> bn \<Rightarrow> bn \<Rightarrow> bn option" where
  "bignum_isqrt_loop a low high mid tmp =
     (if bignum_cmp high low = LARGER
      then let tmp = bignum_mul mid mid tmp;
               (low, high) = (if bignum_cmp tmp a = LARGER
                              then (low, bignum_dec (bignum_assign high mid))
                              else (bignum_assign low mid, high));
               mid = bignum_sub high low mid;
               mid = rshift_one_bit mid;
               mid = bignum_add low mid mid;
               mid = bignum_inc mid
           in bignum_isqrt_loop a low high mid tmp
      else Some low)"

definition bignum_isqrt :: "bn \<Rightarrow> bn \<Rightarrow> bn \<Rightarrow> bn option" where
  "bignum_isqrt mid0 a b =
     do {
       let low = bignum_init bn_local;
       let high = bignum_assign bn_local a;
       high \<leftarrow> bignum_rshift high mid0 1;
       let mid = bignum_inc mid0;
       low \<leftarrow> bignum_isqrt_loop a low high mid bn_local;
       Some (bignum_assign b low)
     }"

abbreviation bn_half_limit :: nat where
  "bn_half_limit \<equiv> 2 ^ (16 * BN_ARRAY_SIZE)"

lemma bn_half_limit_square: "bn_half_limit * bn_half_limit = (bn_limit :: nat)"
  by (simp flip: power_add)

lemma square_less_limit: "x < bn_half_limit \<Longrightarrow> x * x < (bn_limit :: nat)"
  by (metis bn_half_limit_square mult_strict_mono' zero_le)

lemma isqrt_step:
  assumes wf: "bn_wf a" "bn_wf low" "bn_wf high" "bn_wf mid" "bn_wf tmp"
    and lt: "bn_val low < bn_val high" and mid: "0 < bn_val mid" "bn_val mid < bn_half_limit"
    and hi: "bn_val high < bn_half_limit"
    and inv: "bn_val low * bn_val low \<le> bn_val a" "bn_val a < (bn_val high + 1) * (bn_val high + 1)"
    and lo: "bn_val low < bn_val mid"
  obtains low' high' mid' tmp' where
    "bignum_isqrt_loop a low high mid tmp = bignum_isqrt_loop a low' high' mid' tmp'"
    "bn_wf low'" "bn_wf high'" "bn_wf mid'" "bn_wf tmp'"
    "bn_val low' \<le> bn_val high'"
    "bn_val high' < bn_half_limit"
    "bn_val mid' = bn_val low' + (bn_val high' - bn_val low') div 2 + 1"
    "bn_val low' * bn_val low' \<le> bn_val a" "bn_val a < (bn_val high' + 1) * (bn_val high' + 1)"
    "bn_val mid \<le> bn_val high \<longrightarrow> bn_val high' - bn_val low' < bn_val high - bn_val low"
proof -
  define tmp' where "tmp' = bignum_mul mid mid tmp"
  define low' where "low' = (if bn_val a < bn_val tmp' then low else mid)"
  define high' where "high' = (if bn_val a < bn_val tmp' then bignum_dec mid else high)"
  define mid' where "mid' = bignum_inc (bignum_add low' (rshift_one_bit (bignum_sub high' low' mid)) (rshift_one_bit (bignum_sub high' low' mid)))"
  have wf': "bn_wf tmp'" "bn_wf low'" "bn_wf high'" "bn_wf mid'"
    using wf by (simp_all add: tmp'_def low'_def high'_def mid'_def)
  have sq: "bn_val tmp' = bn_val mid * bn_val mid"
    using wf square_less_limit [OF mid(2)] by (simp add: tmp'_def bignum_mul_value)
  have larger: "bignum_cmp tmp' a = LARGER \<longleftrightarrow> bn_val a < bn_val tmp'" "bignum_cmp high low = LARGER"
    using wf wf' lt by (simp_all add: bignum_cmp_value)
  have eq: "bignum_isqrt_loop a low high mid tmp = bignum_isqrt_loop a low' high' mid' tmp'"
    using wf by (subst bignum_isqrt_loop.simps)
      (simp add: larger Let_def low'_def high'_def mid'_def flip: tmp'_def)
  have inv': "bn_val low' \<le> bn_val high' \<and> bn_val high' < bn_half_limit \<and>
      bn_val low' * bn_val low' \<le> bn_val a \<and> bn_val a < (bn_val high' + 1) * (bn_val high' + 1) \<and>
      (bn_val mid \<le> bn_val high \<longrightarrow> bn_val high' - bn_val low' < bn_val high - bn_val low)"
  proof (cases "bn_val a < bn_val tmp'")
    case True
    then have "bn_val high' = bn_val mid - 1" "low' = low"
      using wf mid(1) by (simp_all add: high'_def low'_def bn_value)
    then show ?thesis using True sq inv mid lo lt by auto
  next
    case False
    then have m: "high' = high" "low' = mid" by (simp_all add: high'_def low'_def)
    have "bn_val mid * bn_val mid < (bn_val high + 1) * (bn_val high + 1)"
      using False sq inv(2) by linarith
    then have "bn_val mid \<le> bn_val high"
      by (metis Suc_eq_plus1 less_Suc_eq_le linorder_not_less mult_le_mono)
    then show ?thesis using m False sq inv hi lo lt by auto
  qed
  have le: "bn_half_limit + 1 \<le> (bn_limit :: nat)"
    by (simp add: BN_ARRAY_SIZE_97)
  have "bn_val (rshift_one_bit (bignum_sub high' low' mid)) = (bn_val high' - bn_val low') div 2"
    using wf wf' inv' by (simp add: bn_value)
  then have "bn_val mid' = ((bn_val low' + (bn_val high' - bn_val low') div 2) mod bn_limit + 1) mod bn_limit"
    using wf wf' by (simp add: mid'_def bignum_inc_value bignum_add_value)
  moreover have "bn_val low' + (bn_val high' - bn_val low') div 2 + 1 < bn_limit"
    using inv' le by linarith
  ultimately have "bn_val mid' = bn_val low' + (bn_val high' - bn_val low') div 2 + 1"
    by simp
  with that eq wf' inv' show thesis by blast
qed

lemma bignum_isqrt_loop_spec:
  assumes "bn_wf a" "bn_wf low" "bn_wf high" "bn_wf mid" "bn_wf tmp"
    and "bn_val low \<le> bn_val high" "bn_val high < bn_half_limit"
    and "bn_val mid = bn_val low + (bn_val high - bn_val low) div 2 + 1"
    and "bn_val low * bn_val low \<le> bn_val a" "bn_val a < (bn_val high + 1) * (bn_val high + 1)"
  shows "\<exists>r. bignum_isqrt_loop a low high mid tmp = Some r \<and> bn_wf r \<and>
           bn_val r * bn_val r \<le> bn_val a \<and> bn_val a < (bn_val r + 1) * (bn_val r + 1)"
  using assms
proof (induction "bn_val high - bn_val low" arbitrary: low high mid tmp rule: less_induct)
  case less
  show ?case
  proof (cases "bn_val low < bn_val high")
    case True
    then have m: "bn_val low < bn_val mid" "bn_val mid \<le> bn_val high" using less.prems(8) by linarith+
    obtain low' high' mid' tmp' where s:
      "bignum_isqrt_loop a low high mid tmp = bignum_isqrt_loop a low' high' mid' tmp'"
      "bn_wf low'" "bn_wf high'" "bn_wf mid'" "bn_wf tmp'"
      "bn_val low' \<le> bn_val high'" "bn_val high' < bn_half_limit"
      "bn_val mid' = bn_val low' + (bn_val high' - bn_val low') div 2 + 1"
      "bn_val low' * bn_val low' \<le> bn_val a" "bn_val a < (bn_val high' + 1) * (bn_val high' + 1)"
      "bn_val mid \<le> bn_val high \<longrightarrow> bn_val high' - bn_val low' < bn_val high - bn_val low"
      by (rule isqrt_step [of a low high mid tmp]) (use less.prems True m in simp_all)
    show ?thesis
      unfolding s(1) using s m(2) less.prems(1) by (intro less.hyps) simp_all
  next
    case False
    then have "bignum_isqrt_loop a low high mid tmp = Some low"
      using less.prems by (subst bignum_isqrt_loop.simps) (simp add: bn_value)
    moreover have "bn_val high = bn_val low" using False less.prems(6) by simp
    ultimately show ?thesis using less.prems by simp
  qed
qed

text \<open>
  With a dividend and a garbage \<open>mid0\<close> below half the range the loop ends in the floor of
  the square root, except for 1, where \<open>high\<close> starts at 0 and the loop is never entered.
\<close>

lemma half_square_bound: "a \<noteq> 1 \<Longrightarrow> a < (a div 2 + 1) * (a div 2 + (1 :: nat))"
proof -
  assume "a \<noteq> 1"
  show ?thesis
  proof (cases "a < 4")
    case True
    with \<open>a \<noteq> 1\<close> have "a = 0 \<or> a = 2 \<or> a = 3" by linarith
    then show ?thesis by auto
  next
    case False
    have "a < 2 * (a div 2 + 1)" by presburger
    moreover have "2 \<le> a div 2 + 1" using False by simp
    ultimately show ?thesis by (meson less_le_trans mult_le_mono1)
  qed
qed

lemma bignum_isqrt_spec:
  assumes "bn_wf mid0" "bn_wf a" "bn_wf b" "bn_val a < bn_half_limit" "bn_val mid0 + 1 < bn_half_limit"
    and "bn_val a \<noteq> 1"
  shows "\<exists>r. bignum_isqrt mid0 a b = Some r \<and> bn_wf r \<and>
           bn_val r * bn_val r \<le> bn_val a \<and> bn_val a < (bn_val r + 1) * (bn_val r + 1)"
proof -
  obtain high where high: "bignum_rshift a mid0 1 = Some high" "bn_wf high" "bn_val high = bn_val a div 2"
    using bignum_rshift_value [of a 1 mid0] assms(2) by auto
  have hi: "bn_val high < bn_half_limit" "bn_val a < (bn_val high + 1) * (bn_val high + 1)"
    using assms(4) half_square_bound [OF assms(6)] by (simp_all add: high(3))
  have mid: "bn_val (bignum_inc mid0) = bn_val mid0 + 1"
    using assms(1,5) square_less_limit [OF assms(5)] by (simp add: bignum_inc_value)
  have "\<exists>r. bignum_isqrt_loop a (replicate BN_ARRAY_SIZE 0) high (bignum_inc mid0) bn_local = Some r \<and>
      bn_wf r \<and> bn_val r * bn_val r \<le> bn_val a \<and> bn_val a < (bn_val r + 1) * (bn_val r + 1)"
  proof (cases "bn_val high = 0")
    case True
    then have "bignum_isqrt_loop a (replicate BN_ARRAY_SIZE 0) high (bignum_inc mid0) bn_local =
        Some (replicate BN_ARRAY_SIZE 0)"
      using high by (subst bignum_isqrt_loop.simps) (simp add: bn_value)
    then show ?thesis using hi True by simp
  next
    case False
    obtain low' high' mid' tmp' where s:
      "bignum_isqrt_loop a (replicate BN_ARRAY_SIZE 0) high (bignum_inc mid0) bn_local =
        bignum_isqrt_loop a low' high' mid' tmp'"
      "bn_wf low'" "bn_wf high'" "bn_wf mid'" "bn_wf tmp'"
      "bn_val low' \<le> bn_val high'" "bn_val high' < bn_half_limit"
      "bn_val mid' = bn_val low' + (bn_val high' - bn_val low') div 2 + 1"
      "bn_val low' * bn_val low' \<le> bn_val a" "bn_val a < (bn_val high' + 1) * (bn_val high' + 1)"
      by (rule isqrt_step [of a "replicate BN_ARRAY_SIZE 0" high "bignum_inc mid0" bn_local])
        (use False assms high hi mid in simp_all)
    show ?thesis
      unfolding s(1) using bignum_isqrt_loop_spec [OF assms(2) s(2-10)] .
  qed
  then obtain r where "bignum_isqrt_loop a (replicate BN_ARRAY_SIZE 0) high (bignum_inc mid0) bn_local = Some r"
    "bn_wf r" "bn_val r * bn_val r \<le> bn_val a" "bn_val a < (bn_val r + 1) * (bn_val r + 1)"
    by blast
  then show ?thesis
    using assms high by (auto simp: bignum_isqrt_def Let_def)
qed

lemma bignum_isqrt_one:
  assumes "bn_wf mid0" "bn_wf a" "bn_wf b" "bn_val a = 1"
  shows "\<exists>r. bignum_isqrt mid0 a b = Some r \<and> bn_val r = 0"
proof -
  obtain high where high: "bignum_rshift a mid0 1 = Some high" "bn_wf high" "bn_val high = 0"
    using bignum_rshift_value [of a 1 mid0] assms by auto
  then have "bignum_isqrt_loop a (replicate BN_ARRAY_SIZE 0) high (bignum_inc mid0) bn_local =
      Some (replicate BN_ARRAY_SIZE 0)"
    by (subst bignum_isqrt_loop.simps) (simp add: bn_value)
  then show ?thesis using assms high by (simp add: bignum_isqrt_def Let_def)
qed

end
