(* ===== verification/Montgomery.thy ===== *)
theory Montgomery
  imports Bignum_Arith
begin

text \<open>
  Montgomery multiplication and modular exponentiation of src/tetd_x86/s4/sign_main.c:
  \<open>montMult\<close>, \<open>modExp\<close>, \<open>init_lut\<close> and \<open>modExpLUT\<close>. The static table \<open>lut\<close> is the list of
  its entries, passed to and returned by the functions that use it. The locale
  \<open>montgomery\<close> states what the exponentiation loops need of a multiplication.
\<close>

section \<open>The functions\<close>

definition montMult_step :: "bn \<Rightarrow> bn \<Rightarrow> bn \<Rightarrow> nat \<Rightarrow> bn \<Rightarrow> bn option" where
  "montMult_step x y m k t =
     do {
       t0 \<leftarrow> bignum_getbit t 0;
       xi \<leftarrow> bignum_getbit x k;
       y0 \<leftarrow> bignum_getbit y 0;
       let t = (if xi \<noteq> 0 then bignum_add t y t else t);
       let t = (if t0 XOR (xi AND y0) \<noteq> 0 then bignum_add t m t else t);
       bignum_rshift t t 1
     }"

fun montMult_loop :: "bn \<Rightarrow> bn \<Rightarrow> bn \<Rightarrow> nat \<Rightarrow> nat \<Rightarrow> bn \<Rightarrow> bn option" where
  "montMult_loop x y m mBits 0 t = Some t"
| "montMult_loop x y m mBits (Suc i) t =
     do { t \<leftarrow> montMult_step x y m (mBits - Suc i) t; montMult_loop x y m mBits i t }"

definition montMult :: "bn \<Rightarrow> bn \<Rightarrow> bn \<Rightarrow> nat \<Rightarrow> bn \<Rightarrow> bn option" where
  "montMult x y m mBits out =
     do {
       let t = bignum_init bn_local;
       t \<leftarrow> montMult_loop x y m mBits mBits t;
       let t = (if bignum_cmp t m \<noteq> SMALLER then bignum_sub t m t else t);
       Some (bignum_assign out t)
     }"

fun modExp_loop :: "bn \<Rightarrow> bn \<Rightarrow> nat \<Rightarrow> nat list \<Rightarrow> bn \<Rightarrow> bn \<Rightarrow> bn \<Rightarrow> bn \<Rightarrow> bn option" where
  "modExp_loop e m mBits [] p1 z1 p2 z2 = Some z1"
| "modExp_loop e m mBits (i # is) p1 z1 p2 z2 =
     do {
       p2 \<leftarrow> montMult p1 p1 m mBits p2;
       b \<leftarrow> bignum_getbit e i;
       z2 \<leftarrow> (if b \<noteq> 0 then montMult z1 p1 m mBits z2 else Some (bignum_assign z2 z1));
       let p1 = bignum_assign p1 p2;
       let z1 = bignum_assign z1 z2;
       modExp_loop e m mBits is p1 z1 p2 z2
     }"

definition modExp :: "bn \<Rightarrow> bn \<Rightarrow> nat \<Rightarrow> bn \<Rightarrow> nat \<Rightarrow> bn \<Rightarrow> bn \<Rightarrow> bn option" where
  "modExp x e eBits m mBits r2m out =
     do {
       let z = bignum_from_int bn_local 1;
       z1 \<leftarrow> montMult z r2m m mBits bn_local;
       p1 \<leftarrow> montMult x r2m m mBits bn_local;
       z1 \<leftarrow> modExp_loop e m mBits [0..<eBits] p1 z1 bn_local bn_local;
       let tmp = bignum_from_int bn_local 1;
       montMult z1 tmp m mBits out
     }"

definition LUT_SIZE :: nat where
  "LUT_SIZE = 1537"

definition lut_get :: "bn list \<Rightarrow> nat \<Rightarrow> bn option" where
  "lut_get lut i = (if i < length lut then Some (lut ! i) else None)"

definition lut_set :: "bn list \<Rightarrow> nat \<Rightarrow> bn \<Rightarrow> bn list option" where
  "lut_set lut i v = (if i < length lut then Some (lut[i := v]) else None)"

fun init_lut_loop :: "bn \<Rightarrow> nat \<Rightarrow> nat list \<Rightarrow> bn list \<Rightarrow> bn list option" where
  "init_lut_loop m mBits [] lut = Some lut"
| "init_lut_loop m mBits (i # is) lut =
     do {
       prev \<leftarrow> lut_get lut (i - 1);
       out \<leftarrow> lut_get lut i;
       out \<leftarrow> montMult prev prev m mBits out;
       lut \<leftarrow> lut_set lut i out;
       init_lut_loop m mBits is lut
     }"

definition init_lut :: "bn list \<Rightarrow> bn \<Rightarrow> bn \<Rightarrow> nat \<Rightarrow> bn \<Rightarrow> bn list option" where
  "init_lut lut x m mBits r2m =
     do {
       out \<leftarrow> lut_get lut 0;
       out \<leftarrow> montMult x r2m m mBits out;
       lut \<leftarrow> lut_set lut 0 out;
       init_lut_loop m mBits [1..<mBits + 1] lut
     }"

text \<open>
  The arrays \<open>parr\<close> and \<open>zarr\<close> have three elements, of which elements 1 and 2 are used:
  \<open>p1\<close>, \<open>p2\<close>, \<open>z1\<close>, \<open>z2\<close>.
\<close>

fun modExpLUT_loop :: "bn list \<Rightarrow> bn \<Rightarrow> bn \<Rightarrow> nat \<Rightarrow> nat list \<Rightarrow> bn \<Rightarrow> bn \<Rightarrow> bn \<Rightarrow> bn \<Rightarrow> bn option" where
  "modExpLUT_loop lut e m mBits [] p1 p2 z1 z2 = Some z1"
| "modExpLUT_loop lut e m mBits (i # is) p1 p2 z1 z2 =
     do {
       next_p \<leftarrow> lut_get lut (i + 1);
       let p2 = bignum_assign p2 next_p;
       b \<leftarrow> bignum_getbit e i;
       z2 \<leftarrow> (if b = 1 then do { pw \<leftarrow> lut_get lut i; montMult z1 pw m mBits z2 }
              else Some (bignum_assign z2 z1));
       let p1 = bignum_assign p1 p2;
       let z1 = bignum_assign z1 z2;
       modExpLUT_loop lut e m mBits is p1 p2 z1 z2
     }"

definition modExpLUT :: "bn list \<Rightarrow> bn \<Rightarrow> bn \<Rightarrow> nat \<Rightarrow> bn \<Rightarrow> nat \<Rightarrow> bn \<Rightarrow> bn \<Rightarrow> bn option" where
  "modExpLUT lut x e eBits m mBits r2m out =
     do {
       let z = bignum_from_int bn_local 1;
       z1 \<leftarrow> montMult z r2m m mBits bn_local;
       l0 \<leftarrow> lut_get lut 0;
       let p1 = bignum_assign bn_local l0;
       z1 \<leftarrow> modExpLUT_loop lut e m mBits [0..<eBits] p1 bn_local z1 bn_local;
       let one = bignum_from_int bn_local 1;
       montMult z1 one m mBits out
     }"

section \<open>One multiplication\<close>

text \<open>A usable modulus: odd, and small enough that no partial sum leaves the array.\<close>

definition mont_modulus :: "bn \<Rightarrow> nat \<Rightarrow> bool" where
  "mont_modulus m mBits \<longleftrightarrow> bn_wf m \<and> odd (bn_val m) \<and> 1 < bn_val m \<and> 4 * bn_val m < bn_limit \<and>
     mBits \<le> 32 * BN_ARRAY_SIZE"

lemma odd_sum_parity:
  fixes t x y :: nat
  shows "odd (t + of_bool b * y) \<longleftrightarrow> (of_bool (odd t) XOR (of_bool b AND of_bool (odd y)) \<noteq> (0 :: u32))"
  by (cases b; cases "odd t"; cases "odd y") simp_all

lemma montMult_step_spec:
  assumes "mont_modulus m mBits" "bn_wf x" "bn_wf y" "bn_wf t" "k < mBits"
    and "bn_val y < bn_val m" "bn_val t < bn_val m + bn_val y"
    and "(2 ^ k * bn_val t) mod bn_val m = (bn_val x mod 2 ^ k * bn_val y) mod bn_val m"
  shows "\<exists>t'. montMult_step x y m k t = Some t' \<and> bn_wf t' \<and> bn_val t' < bn_val m + bn_val y \<and>
           (2 ^ Suc k * bn_val t') mod bn_val m = (bn_val x mod 2 ^ Suc k * bn_val y) mod bn_val m"
proof -
  let ?N = BN_ARRAY_SIZE
  have m: "bn_wf m" "odd (bn_val m)" "4 * bn_val m < bn_limit" "k < 32 * ?N" "0 < 32 * ?N"
    using assms(1,5) by (simp_all add: mont_modulus_def BN_ARRAY_SIZE_97)
  define xi where "xi = bit (bn_val x) k"
  define s where "s = bn_val t + of_bool xi * bn_val y"
  define c where "c = odd s"
  define t1 where "t1 = (if xi then bignum_add t y t else t)"
  define t2 where "t2 = (if c then bignum_add t1 m t1 else t1)"
  have s_le: "s + bn_val m < 4 * bn_val m" using assms(6,7) by (simp add: s_def)
  have t1: "bn_wf t1" "bn_val t1 = s"
    using assms(3,4) s_le m(3) by (cases xi; simp add: t1_def s_def bignum_add_value)+
  have t2: "bn_wf t2" "bn_val t2 = s + of_bool c * bn_val m"
    using t1 m s_le by (simp_all add: t2_def bignum_add_value)
  obtain t' where t': "bignum_rshift t2 t2 1 = Some t'" "bn_wf t'" "bn_val t' = bn_val t2 div 2"
    using bignum_rshift_value [OF t2(1), of 1 t2] by auto
  have "montMult_step x y m k t = bignum_rshift t2 t2 1"
    using assms(2,3,4) m(4,5) odd_sum_parity [of "bn_val t" xi "bn_val y"]
    by (simp add: montMult_step_def bignum_getbit_value bit_0 Let_def t2_def t1_def c_def s_def flip: xi_def)
  then have step: "montMult_step x y m k t = Some t'" using t'(1) by simp
  have even: "even (bn_val t2)" using m(2) by (cases c) (simp_all add: t2(2) c_def)
  have bound: "bn_val t' < bn_val m + bn_val y"
    using assms(6,7) by (cases xi; cases c) (simp_all add: t'(3) t2(2) s_def)
  have xk: "bn_val x mod 2 ^ Suc k = bn_val x mod 2 ^ k + of_bool xi * 2 ^ k"
    unfolding xi_def using mod_pow2_bit [of "bn_val x" k] mod_pow2_no_bit [of "bn_val x" k]
    by (cases "bit (bn_val x) k") simp_all
  have "2 ^ Suc k * bn_val t' = 2 ^ k * bn_val t2"
    using even by (simp add: t'(3))
  also have "\<dots> = (2 ^ k * bn_val t + of_bool xi * 2 ^ k * bn_val y) + (2 ^ k * of_bool c) * bn_val m"
    unfolding t2(2) s_def by (simp only: distrib_left ac_simps)
  finally have "(2 ^ Suc k * bn_val t') mod bn_val m =
      (2 ^ k * bn_val t + of_bool xi * 2 ^ k * bn_val y) mod bn_val m"
    by (simp only: mod_mult_self1)
  also have "\<dots> = (bn_val x mod 2 ^ k * bn_val y + of_bool xi * 2 ^ k * bn_val y) mod bn_val m"
    using assms(8) by (rule mod_add_cong) (rule refl)
  also have "\<dots> = (bn_val x mod 2 ^ Suc k * bn_val y) mod bn_val m"
    unfolding xk by (simp only: distrib_right)
  finally show ?thesis using step t'(2) bound by blast
qed

lemma montMult_loop_spec:
  assumes "mont_modulus m mBits" "bn_wf x" "bn_wf y" "bn_wf t" "i \<le> mBits"
    and "bn_val y < bn_val m" "bn_val t < bn_val m + bn_val y"
    and "(2 ^ (mBits - i) * bn_val t) mod bn_val m = (bn_val x mod 2 ^ (mBits - i) * bn_val y) mod bn_val m"
  shows "\<exists>t'. montMult_loop x y m mBits i t = Some t' \<and> bn_wf t' \<and> bn_val t' < bn_val m + bn_val y \<and>
           (2 ^ mBits * bn_val t') mod bn_val m = (bn_val x mod 2 ^ mBits * bn_val y) mod bn_val m"
  using assms
proof (induction i arbitrary: t)
  case 0
  then show ?case by simp
next
  case (Suc i)
  have k: "Suc (mBits - Suc i) = mBits - i" "mBits - Suc i < mBits" using Suc.prems by simp_all
  obtain t' where t': "montMult_step x y m (mBits - Suc i) t = Some t'" "bn_wf t'"
    "bn_val t' < bn_val m + bn_val y"
    "(2 ^ (mBits - i) * bn_val t') mod bn_val m = (bn_val x mod 2 ^ (mBits - i) * bn_val y) mod bn_val m"
    using montMult_step_spec [OF Suc.prems(1-4) k(2) Suc.prems(6-8)] unfolding k(1) by blast
  with Suc show ?case by simp
qed

lemma montMult_spec:
  assumes "mont_modulus m mBits" "bn_wf x" "bn_wf y" "bn_wf out" "bn_val y < bn_val m"
  shows "\<exists>r. montMult x y m mBits out = Some r \<and> bn_wf r \<and> bn_val r < bn_val m \<and>
           (2 ^ mBits * bn_val r) mod bn_val m = (bn_val x mod 2 ^ mBits * bn_val y) mod bn_val m"
proof -
  have m: "bn_wf m" "0 < bn_val m" using assms(1) by (simp_all add: mont_modulus_def)
  obtain t where t: "montMult_loop x y m mBits mBits (replicate BN_ARRAY_SIZE 0) = Some t" "bn_wf t"
    "bn_val t < bn_val m + bn_val y"
    "(2 ^ mBits * bn_val t) mod bn_val m = (bn_val x mod 2 ^ mBits * bn_val y) mod bn_val m"
    using montMult_loop_spec [OF assms(1-3), of "replicate BN_ARRAY_SIZE 0" mBits] assms(5) m by auto
  define r where "r = (if bn_val t < bn_val m then t else bignum_sub t m t)"
  have r: "bn_wf r" "bn_val r = (if bn_val t < bn_val m then bn_val t else bn_val t - bn_val m)"
    using t(2) m(1) by (simp_all add: r_def bignum_sub_value)
  have run: "montMult x y m mBits out = Some r"
    using t(1,2) m(1) assms(4) by (simp add: montMult_def Let_def bignum_cmp_value r_def)
  have lt: "bn_val r < bn_val m" using r(2) t(3) assms(5) by auto
  have "(2 ^ mBits * bn_val r) mod bn_val m = (2 ^ mBits * bn_val t) mod bn_val m"
  proof (cases "bn_val t < bn_val m")
    case True
    then show ?thesis by (simp add: r(2))
  next
    case False
    then have "2 ^ mBits * bn_val t = 2 ^ mBits * bn_val r + 2 ^ mBits * bn_val m"
      by (simp add: r(2) flip: distrib_left)
    then show ?thesis by simp
  qed
  then show ?thesis using run r(1) lt t(4) by simp
qed

section \<open>The contract of a Montgomery multiplication\<close>

text \<open>\<open>a\<close> is the Montgomery form of the residue of \<open>v\<close>.\<close>

definition mont_form :: "('a \<Rightarrow> bool) \<Rightarrow> ('a \<Rightarrow> nat) \<Rightarrow> nat \<Rightarrow> nat \<Rightarrow> 'a \<Rightarrow> nat \<Rightarrow> bool" where
  "mont_form ok val m R a v \<longleftrightarrow> ok a \<and> val a = (v * R) mod m"

locale montgomery =
  fixes mul :: "'a \<Rightarrow> 'a \<Rightarrow> 'a \<Rightarrow> 'a option"
    and ok :: "'a \<Rightarrow> bool"
    and val :: "'a \<Rightarrow> nat"
    and m :: nat
    and R :: nat
  assumes modulus: "1 < m" "m \<le> R" "coprime R m"
    and mul_spec: "ok x \<Longrightarrow> ok y \<Longrightarrow> ok out \<Longrightarrow> val x < R \<Longrightarrow> val y < m \<Longrightarrow>
      \<exists>r. mul x y out = Some r \<and> ok r \<and> val r < m \<and> (R * val r) mod m = (val x * val y) mod m"
begin

lemma form_less: "mont_form ok val m R a v \<Longrightarrow> ok a \<and> val a < m \<and> val a < R"
  using modulus by (simp add: mont_form_def less_le_trans [OF mod_less_divisor])

lemma mul_residue:
  assumes "ok x" "ok y" "ok out" "val x < R" "val y < m"
    and "(val x * val y) mod m = (u * R) mod m"
  shows "\<exists>r. mul x y out = Some r \<and> ok r \<and> val r = u mod m"
proof -
  obtain r where r: "mul x y out = Some r" "ok r" "val r < m" "(R * val r) mod m = (val x * val y) mod m"
    using mul_spec [OF assms(1-5)] by blast
  have "(val r * R) mod m = (u * R) mod m"
    using r(4) assms(6) by (simp only: mult.commute [of R])
  then have "val r mod m = u mod m"
    using modulus(3) by (rule mod_mult_cancel_coprime)
  with r show ?thesis by simp
qed

lemma form_mul:
  assumes "mont_form ok val m R a v" "mont_form ok val m R b w" "ok out"
  shows "\<exists>r. mul a b out = Some r \<and> mont_form ok val m R r (v * w)"
proof -
  have "(val a * val b) mod m = ((v * R) * (w * R)) mod m"
    using assms by (simp add: mont_form_def mod_mult_eq)
  also have "\<dots> = (v * w * R * R) mod m" by (simp only: ac_simps)
  finally show ?thesis
    using mul_residue [of a b out "v * w * R"] assms form_less [OF assms(1)] form_less [OF assms(2)]
    by (auto simp: mont_form_def)
qed

lemma form_enter:
  assumes "ok x" "val x < R" "ok r2" "val r2 = (R * R) mod m" "ok out"
  shows "\<exists>r. mul x r2 out = Some r \<and> mont_form ok val m R r (val x)"
proof -
  have "(val x * val r2) mod m = (val x * R * R) mod m"
    unfolding assms(4) by (simp add: mod_mult_right_eq mult.assoc)
  then show ?thesis
    using mul_residue [of x r2 out "val x * R"] assms modulus by (auto simp: mont_form_def)
qed

lemma form_leave:
  assumes "mont_form ok val m R a v" "ok one" "val one = 1" "ok out"
  shows "\<exists>r. mul a one out = Some r \<and> ok r \<and> val r = v mod m"
  using mul_residue [of a one out v] assms form_less [OF assms(1)] modulus
  by (auto simp: mont_form_def)

lemma form_one:
  assumes "ok x" "val x = 1" "ok r2" "val r2 = (R * R) mod m" "ok out"
  shows "\<exists>r. mul x r2 out = Some r \<and> mont_form ok val m R r 1"
  using form_enter [of x r2 out] assms modulus by auto

text \<open>One step of right-to-left exponentiation, at bit \<open>i\<close> of the exponent \<open>e\<close>.\<close>

lemma form_multiply_bit:
  assumes "mont_form ok val m R z (v ^ (e mod 2 ^ i))" "mont_form ok val m R pw (v ^ (2 ^ i))"
    and "bit e i" "ok out"
  shows "\<exists>r. mul z pw out = Some r \<and> mont_form ok val m R r (v ^ (e mod 2 ^ Suc i))"
proof -
  have "e mod 2 ^ Suc i = e mod 2 ^ i + 2 ^ i"
    by (rule mod_pow2_bit [OF assms(3)])
  then show ?thesis using form_mul [OF assms(1,2,4)] by (simp add: power_add)
qed

lemma form_square:
  assumes "mont_form ok val m R pw (v ^ (2 ^ i))" "ok out"
  shows "\<exists>r. mul pw pw out = Some r \<and> mont_form ok val m R r (v ^ (2 ^ Suc i))"
  using form_mul [OF assms(1,1,2)] by (simp add: mult_2 flip: power_add)

end

section \<open>The code's multiplication meets it\<close>

locale mont_bn =
  fixes m :: bn and mBits :: nat
  assumes mod_ok: "mont_modulus m mBits" "bn_val m < 2 ^ mBits"

sublocale mont_bn \<subseteq> montgomery "\<lambda>x y out. montMult x y m mBits out" bn_wf bn_val "bn_val m" "2 ^ mBits"
proof
  show "1 < bn_val m" "bn_val m \<le> 2 ^ mBits"
    using mod_ok by (simp_all add: mont_modulus_def)
  show "coprime (2 ^ mBits) (bn_val m)"
    using mod_ok(1) by (simp add: mont_modulus_def)
next
  fix x y out :: bn
  assume "bn_wf x" "bn_wf y" "bn_wf out" "bn_val x < 2 ^ mBits" "bn_val y < bn_val m"
  then show "\<exists>r. montMult x y m mBits out = Some r \<and> bn_wf r \<and> bn_val r < bn_val m \<and>
      (2 ^ mBits * bn_val r) mod bn_val m = (bn_val x * bn_val y) mod bn_val m"
    using montMult_spec [OF mod_ok(1), of x y out] by simp
qed

abbreviation bn_form :: "bn \<Rightarrow> nat \<Rightarrow> bn \<Rightarrow> nat \<Rightarrow> bool" where
  "bn_form m mBits \<equiv> mont_form bn_wf bn_val (bn_val m) (2 ^ mBits)"

lemma bn_form_wf: "bn_form m mBits a v \<Longrightarrow> bn_wf a"
  by (simp add: mont_form_def)

text \<open>A filled table: entry \<open>i\<close> is the Montgomery form of the \<open>2 ^ i\<close>-th power.\<close>

definition lut_powers :: "bn \<Rightarrow> nat \<Rightarrow> nat \<Rightarrow> nat \<Rightarrow> bn list \<Rightarrow> bool" where
  "lut_powers m mBits v k lut \<longleftrightarrow>
     k \<le> length lut \<and> list_all bn_wf lut \<and> (\<forall>i<k. bn_form m mBits (lut ! i) (v ^ (2 ^ i)))"

context mont_bn begin

lemma one_wf: "bn_wf (bignum_from_int bn_local 1) \<and> bn_val (bignum_from_int bn_local 1) = 1"
  by (simp add: bignum_from_int_value)

lemma modExp_loop_spec:
  assumes "bn_wf e" "k \<le> 32 * BN_ARRAY_SIZE" "i \<le> k"
    and "bn_form m mBits p1 (v ^ (2 ^ i))" "bn_form m mBits z1 (v ^ (bn_val e mod 2 ^ i))"
    and "bn_wf p2" "bn_wf z2"
  shows "\<exists>z. modExp_loop e m mBits [i..<k] p1 z1 p2 z2 = Some z \<and>
           bn_form m mBits z (v ^ (bn_val e mod 2 ^ k))"
  using assms
proof (induction "k - i" arbitrary: i p1 z1 p2 z2)
  case 0
  then show ?case by simp
next
  case (Suc n)
  then have i: "i < k" "[i..<k] = i # [Suc i..<k]" by (simp_all add: upt_conv_Cons)
  obtain q where q: "montMult p1 p1 m mBits p2 = Some q" "bn_form m mBits q (v ^ (2 ^ Suc i))"
    using form_square [of p1 v i p2] Suc.prems by blast
  have b: "bignum_getbit e i = Some (of_bool (bit (bn_val e) i))"
    using Suc.prems i by (simp add: bignum_getbit_value)
  obtain w where w: "(if bit (bn_val e) i then montMult z1 p1 m mBits z2 else Some z1) = Some w"
    "bn_form m mBits w (v ^ (bn_val e mod 2 ^ Suc i))"
    using form_multiply_bit [of z1 v "bn_val e" i p1 z2] mod_pow2_no_bit [of "bn_val e" i] Suc.prems
    by (cases "bit (bn_val e) i") auto
  have wf: "bn_wf p1" "bn_wf z1" "bn_wf q" "bn_wf w"
    using Suc.prems q w by (auto dest: bn_form_wf)
  have "modExp_loop e m mBits [i..<k] p1 z1 p2 z2 = modExp_loop e m mBits [Suc i..<k] q w q w"
    using q(1) b w(1) wf Suc.prems unfolding i(2) by (simp split: if_splits)
  then show ?case
    using Suc.hyps(1) [of "Suc i" q w q w] Suc.hyps(2) Suc.prems q(2) w(2) wf i by simp
qed

lemma modExp_spec:
  assumes "bn_wf x" "bn_wf e" "bn_wf r2m" "bn_wf out" "bn_val x < 2 ^ mBits"
    and "eBits \<le> 32 * BN_ARRAY_SIZE" "bn_val r2m = (2 ^ mBits * 2 ^ mBits) mod bn_val m"
  shows "\<exists>r. modExp x e eBits m mBits r2m out = Some r \<and> bn_wf r \<and>
           bn_val r = bn_val x ^ (bn_val e mod 2 ^ eBits) mod bn_val m"
proof -
  obtain z1 where z1: "montMult (bignum_from_int bn_local 1) r2m m mBits bn_local = Some z1"
    "bn_form m mBits z1 1"
    using form_one [of "bignum_from_int bn_local 1" r2m bn_local] one_wf assms by auto
  obtain p1 where p1: "montMult x r2m m mBits bn_local = Some p1" "bn_form m mBits p1 (bn_val x)"
    using form_enter [of x r2m bn_local] assms by auto
  obtain z where z: "modExp_loop e m mBits [0..<eBits] p1 z1 bn_local bn_local = Some z"
    "bn_form m mBits z (bn_val x ^ (bn_val e mod 2 ^ eBits))"
    using modExp_loop_spec [of e eBits 0 p1 "bn_val x" z1 bn_local bn_local] p1 z1 assms by auto
  show ?thesis
    using form_leave [OF z(2), of "bignum_from_int bn_local 1" out] one_wf assms z1 p1 z
    by (auto simp: modExp_def)
qed

lemma init_lut_loop_spec:
  assumes "1 \<le> i" "i \<le> k" "k \<le> length lut" "lut_powers m mBits v i lut"
  shows "\<exists>lut'. init_lut_loop m mBits [i..<k] lut = Some lut' \<and> length lut' = length lut \<and>
           lut_powers m mBits v k lut'"
  using assms
proof (induction "k - i" arbitrary: i lut)
  case 0
  then show ?case by simp
next
  case (Suc n)
  then have i: "i < k" "[i..<k] = i # [Suc i..<k]" "i < length lut" by (simp_all add: upt_conv_Cons)
  have prev: "bn_form m mBits (lut ! (i - 1)) (v ^ (2 ^ (i - 1)))" and out: "bn_wf (lut ! i)"
    using Suc.prems i by (simp_all add: lut_powers_def list_all_length)
  obtain r where r: "montMult (lut ! (i - 1)) (lut ! (i - 1)) m mBits (lut ! i) = Some r"
    "bn_form m mBits r (v ^ (2 ^ i))"
    using form_square [OF prev out] Suc.prems(1) by auto
  have "lut_powers m mBits v (Suc i) (lut[i := r])"
    using Suc.prems(4) i r(2) bn_form_wf [OF r(2)]
    by (auto simp: lut_powers_def list_all_length nth_list_update less_Suc_eq)
  moreover have "init_lut_loop m mBits [i..<k] lut = init_lut_loop m mBits [Suc i..<k] (lut[i := r])"
    using i Suc.prems(1) r(1) unfolding i(2) by (simp add: lut_get_def lut_set_def)
  ultimately show ?case
    using Suc.hyps(1) [of "Suc i" "lut[i := r]"] Suc.hyps(2) Suc.prems i by simp
qed

lemma init_lut_spec:
  assumes "list_all bn_wf lut" "mBits < length lut" "bn_wf x" "bn_val x < 2 ^ mBits" "bn_wf r2m"
    and "bn_val r2m = (2 ^ mBits * 2 ^ mBits) mod bn_val m"
  shows "\<exists>lut'. init_lut lut x m mBits r2m = Some lut' \<and> length lut' = length lut \<and>
           lut_powers m mBits (bn_val x) (mBits + 1) lut'"
proof -
  have out: "0 < length lut" using assms(2) by linarith
  then have out: "bn_wf (lut ! 0)" "0 < length lut" using assms(1) by (simp_all add: list_all_length)
  obtain r where r: "montMult x r2m m mBits (lut ! 0) = Some r" "bn_form m mBits r (bn_val x)"
    using form_enter [of x r2m "lut ! 0"] assms out by auto
  have "lut_powers m mBits (bn_val x) 1 (lut[0 := r])"
    using assms(1) out r(2) bn_form_wf [OF r(2)]
    by (auto simp: lut_powers_def list_all_length nth_list_update Suc_le_eq)
  then show ?thesis
    using init_lut_loop_spec [of 1 "mBits + 1" "lut[0 := r]" "bn_val x"] assms(2) out r(1)
    by (auto simp: init_lut_def lut_get_def lut_set_def)
qed

lemma modExpLUT_loop_spec:
  assumes "bn_wf e" "k \<le> 32 * BN_ARRAY_SIZE" "i \<le> k" "lut_powers m mBits v (k + 1) lut"
    and "bn_wf p1" "bn_wf p2" "bn_form m mBits z1 (v ^ (bn_val e mod 2 ^ i))" "bn_wf z2"
  shows "\<exists>z. modExpLUT_loop lut e m mBits [i..<k] p1 p2 z1 z2 = Some z \<and>
           bn_form m mBits z (v ^ (bn_val e mod 2 ^ k))"
  using assms
proof (induction "k - i" arbitrary: i p1 p2 z1 z2)
  case 0
  then show ?case by simp
next
  case (Suc n)
  then have i: "i < k" "[i..<k] = i # [Suc i..<k]" by (simp_all add: upt_conv_Cons)
  have lut: "i + 1 < length lut" "bn_wf (lut ! (i + 1))" "bn_form m mBits (lut ! i) (v ^ (2 ^ i))"
    using Suc.prems(4) i by (auto simp: lut_powers_def list_all_length)
  have b: "bignum_getbit e i = Some (of_bool (bit (bn_val e) i))"
    using Suc.prems i by (simp add: bignum_getbit_value)
  obtain w where w: "(if bit (bn_val e) i then montMult z1 (lut ! i) m mBits z2 else Some z1) = Some w"
    "bn_form m mBits w (v ^ (bn_val e mod 2 ^ Suc i))"
    using form_multiply_bit [OF Suc.prems(7) lut(3) _ Suc.prems(8)] mod_pow2_no_bit [of "bn_val e" i] Suc.prems(7)
    by (cases "bit (bn_val e) i") auto
  have wf: "bn_wf z1" "bn_wf w" using Suc.prems(7) w(2) by (auto dest: bn_form_wf)
  have "modExpLUT_loop lut e m mBits [i..<k] p1 p2 z1 z2 =
      modExpLUT_loop lut e m mBits [Suc i..<k] (lut ! (i + 1)) (lut ! (i + 1)) w w"
    using b w(1) wf lut Suc.prems unfolding i(2) by (simp add: lut_get_def Let_def split: if_splits)
  then show ?case
    using Suc.hyps(1) [of "Suc i" "lut ! (i + 1)" "lut ! (i + 1)" w w] Suc.hyps(2) Suc.prems w(2) wf lut i
    by simp
qed

lemma modExpLUT_spec:
  assumes "bn_wf e" "bn_wf r2m" "bn_wf out" "eBits \<le> 32 * BN_ARRAY_SIZE"
    and "lut_powers m mBits v (eBits + 1) lut" "bn_val r2m = (2 ^ mBits * 2 ^ mBits) mod bn_val m"
  shows "\<exists>r. modExpLUT lut x e eBits m mBits r2m out = Some r \<and> bn_wf r \<and>
           bn_val r = v ^ (bn_val e mod 2 ^ eBits) mod bn_val m"
proof -
  have l0: "0 < length lut" using assms(5) unfolding lut_powers_def by linarith
  then have l0: "0 < length lut" "bn_wf (lut ! 0)"
    using assms(5) by (simp_all add: lut_powers_def list_all_length)
  obtain z1 where z1: "montMult (bignum_from_int bn_local 1) r2m m mBits bn_local = Some z1"
    "bn_form m mBits z1 1"
    using form_one [of "bignum_from_int bn_local 1" r2m bn_local] one_wf assms by auto
  obtain z where z: "modExpLUT_loop lut e m mBits [0..<eBits] (lut ! 0) bn_local z1 bn_local = Some z"
    "bn_form m mBits z (v ^ (bn_val e mod 2 ^ eBits))"
    using modExpLUT_loop_spec [of e eBits 0 v lut "lut ! 0" bn_local z1 bn_local] z1 assms l0 by auto
  show ?thesis
    using form_leave [OF z(2), of "bignum_from_int bn_local 1" out] one_wf assms z1 z l0
    by (auto simp: modExpLUT_def lut_get_def)
qed

end

end
