(* ===== verification/Bignum_Str.thy ===== *)
theory Bignum_Str
  imports Bignum_Bits
begin

text \<open>
  Hexadecimal input and output of src/tetd_x86/s4/bignum.c: \<open>bignum_from_string\<close>,
  \<open>bignum_to_string\<close> and \<open>bignum_print\<close>, with the conversions \<open>%8x\<close> of \<open>sscanf\<close> and
  \<open>%.08x\<close> of \<open>sprintf\<close> that they use. A C string argument is the list of its characters
  before the terminating zero byte; an output buffer is the list of all its bytes. A
  failed assertion and an access outside an array are \<open>None\<close>.
\<close>

section \<open>Characters\<close>

definition is_space :: "char \<Rightarrow> bool" where
  "is_space c \<longleftrightarrow> c = CHR '' '' \<or> c = CHR 0x09 \<or> c = CHR 0x0A \<or> c = CHR 0x0B \<or> c = CHR 0x0C \<or> c = CHR 0x0D"

definition hex_digit :: "char \<Rightarrow> u32 option" where
  "hex_digit c =
     (let v = of_char c in
      if 48 \<le> v \<and> v \<le> 57 then Some (v - 48)
      else if 97 \<le> v \<and> v \<le> 102 then Some (v - 87)
      else if 65 \<le> v \<and> v \<le> 70 then Some (v - 55)
      else None)"

definition hex_char :: "u32 \<Rightarrow> char" where
  "hex_char d = ''0123456789abcdef'' ! unat d"

section \<open>The conversions of the standard library\<close>

text \<open>At most \<open>w\<close> hexadecimal digits from the front of a string.\<close>

fun scan_digits :: "nat \<Rightarrow> u32 \<Rightarrow> string \<Rightarrow> u32" where
  "scan_digits 0 acc s = acc"
| "scan_digits (Suc w) acc [] = acc"
| "scan_digits (Suc w) acc (c # s) =
     (case hex_digit c of None \<Rightarrow> acc | Some d \<Rightarrow> scan_digits w (acc * 16 + d) s)"

definition scan_number :: "nat \<Rightarrow> string \<Rightarrow> u32 option" where
  "scan_number w s =
     (if w > 0 \<and> s \<noteq> [] \<and> hex_digit (hd s) \<noteq> None then Some (scan_digits w 0 s) else None)"

definition scan_prefixed :: "nat \<Rightarrow> string \<Rightarrow> u32 option" where
  "scan_prefixed w s =
     (if w \<ge> 2 \<and> (take 2 s = ''0x'' \<or> take 2 s = ''0X'') then scan_number (w - 2) (drop 2 s)
      else scan_number w s)"

text \<open>\<open>sscanf (s, ''%8x'', &tmp)\<close>: \<open>None\<close> leaves \<open>tmp\<close> as it was.\<close>

definition sscanf_8x :: "string \<Rightarrow> u32 option" where
  "sscanf_8x s =
     (let s = dropWhile is_space s in
      if s \<noteq> [] \<and> hd s = CHR ''-'' then map_option uminus (scan_prefixed 7 (tl s))
      else if s \<noteq> [] \<and> hd s = CHR ''+'' then scan_prefixed 7 (tl s)
      else scan_prefixed 8 s)"

definition hex8 :: "u32 \<Rightarrow> string" where
  "hex8 w = map (\<lambda>k. hex_char (drop_bit (4 * k) w AND 15)) [7, 6, 5, 4, 3, 2, 1, 0]"

text \<open>\<open>sprintf (&str[i], ''%.08x'', w)\<close> writes eight digits and the terminating zero.\<close>

definition sprintf_08x :: "string \<Rightarrow> nat \<Rightarrow> u32 \<Rightarrow> string option" where
  "sprintf_08x str i w =
     (if i + 9 \<le> length str then Some (take i str @ hex8 w @ [CHR 0x00] @ drop (i + 9) str) else None)"

section \<open>Parsing\<close>

function bignum_from_string_loop :: "string \<Rightarrow> int \<Rightarrow> nat \<Rightarrow> bn \<Rightarrow> bn option" where
  "bignum_from_string_loop str i j n =
     (if i \<ge> 0
      then if nat i \<le> length str \<and> j < BN_ARRAY_SIZE
           then let tmp = 0;
                    tmp = (case sscanf_8x (drop (nat i) str) of None \<Rightarrow> tmp | Some v \<Rightarrow> v)
                in bignum_from_string_loop str (i - 2 * int WORD_SIZE) (j + 1) (n[j := tmp])
           else None
      else Some n)"
  by pat_completeness auto
termination
  by (relation "measure (\<lambda>(str, i, j, n). nat (i + 8))") (auto simp: WORD_SIZE_def)

declare bignum_from_string_loop.simps [simp del]

definition bignum_from_string :: "bn \<Rightarrow> string \<Rightarrow> int \<Rightarrow> bn option" where
  "bignum_from_string n str nbytes =
     (if nbytes > 0 \<and> nbytes AND 1 = 0
      then let n = bignum_init n;
               i = nbytes - 2 * int WORD_SIZE
           in bignum_from_string_loop str i 0 n
      else None)"

section \<open>Printing\<close>

text \<open>The print loop over the words \<open>js\<close>, the fill loop's index \<open>i\<close> moving eight at a time.\<close>

fun bignum_print_words :: "bn \<Rightarrow> nat \<Rightarrow> nat list \<Rightarrow> nat \<Rightarrow> string \<Rightarrow> string option" where
  "bignum_print_words n nbytes [] i str = Some str"
| "bignum_print_words n nbytes (j # js) i str =
     (if nbytes > i + 1
      then do { str \<leftarrow> sprintf_08x str i (n ! j);
                bignum_print_words n nbytes js (i + 2 * WORD_SIZE) str }
      else Some str)"

fun count_leading_zeros :: "string \<Rightarrow> nat option" where
  "count_leading_zeros [] = None"
| "count_leading_zeros (c # str) =
     (if c = CHR ''0'' then map_option Suc (count_leading_zeros str) else Some 0)"

definition bignum_to_string :: "bn \<Rightarrow> string \<Rightarrow> nat \<Rightarrow> string option" where
  "bignum_to_string n str nbytes =
     (if nbytes > 0 \<and> nbytes AND 1 = 0
      then do {
        str \<leftarrow> bignum_print_words n nbytes (rev [0..<BN_ARRAY_SIZE]) 0 str;
        j \<leftarrow> count_leading_zeros str;
        (if nbytes \<le> length str
         then let str = fold (\<lambda>i str. str[i := str ! (i + j)]) [0..<nbytes - j] str;
                  i = nbytes - j
              in if i < length str then Some (str[i := CHR 0x00]) else None
         else None)
      }
      else None)"

text \<open>\<open>bignum_print\<close> formats into a local buffer, whose content \<open>buf\<close> is uninitialised.\<close>

definition c_string :: "string \<Rightarrow> string" where
  "c_string str = takeWhile (\<lambda>c. c \<noteq> CHR 0x00) str"

definition bignum_print :: "bn \<Rightarrow> string \<Rightarrow> string option" where
  "bignum_print num buf =
     (let size = 8192 in
      do { str \<leftarrow> bignum_to_string num (take size buf) size;
           Some ('' '' @ c_string str @ [CHR 0x0A]) })"

section \<open>Values of digit strings\<close>

fun hex_val :: "string \<Rightarrow> nat" where
  "hex_val [] = 0"
| "hex_val (c # s) = 16 ^ length s * unat (the (hex_digit c)) + hex_val s"

definition hex_string :: "string \<Rightarrow> bool" where
  "hex_string s \<longleftrightarrow> list_all (\<lambda>c. hex_digit c \<noteq> None) s"

lemma hex_string_simps [simp]:
  "hex_string []" "hex_string (c # s) \<longleftrightarrow> hex_digit c \<noteq> None \<and> hex_string s"
  "hex_string (s @ t) \<longleftrightarrow> hex_string s \<and> hex_string t"
  by (simp_all add: hex_string_def)

lemma hex_string_take_drop: "hex_string s \<Longrightarrow> hex_string (take k s) \<and> hex_string (drop k s)"
  by (metis append_take_drop_id hex_string_simps(3))

lemma hex_digit_less: "hex_digit c = Some d \<Longrightarrow> unat d < 16"
proof -
  assume d: "hex_digit c = Some d"
  have range: "l \<le> v \<Longrightarrow> v \<le> l + k \<Longrightarrow> unat l + unat k < 2 ^ 32 \<Longrightarrow> unat (v - (l - m)) \<le> unat k + unat m"
    if "m \<le> l" for l k m v :: u32
  proof -
    assume "l \<le> v" "v \<le> l + k" "unat l + unat k < 2 ^ 32"
    moreover from this(3) have "unat (l + k) = unat l + unat k" by (simp add: unat_word_ariths)
    moreover have "l - m \<le> l" using that by (simp add: word_le_nat_alt unat_sub)
    ultimately show ?thesis using that by (simp add: word_le_nat_alt unat_sub)
  qed
  define v where "v = (of_char c :: u32)"
  consider "48 \<le> v \<and> v \<le> 57 \<and> d = v - 48" | "97 \<le> v \<and> v \<le> 102 \<and> d = v - 87"
    | "65 \<le> v \<and> v \<le> 70 \<and> d = v - 55"
    using d by (auto simp: hex_digit_def v_def [symmetric] Let_def split: if_splits)
  then show ?thesis
    using range [of 0 48 v 9] range [of 10 97 v 5] range [of 10 65 v 5] by cases simp_all
qed

lemma hex_val_append: "hex_val (s @ t) = 16 ^ length t * hex_val s + hex_val t"
  by (induction s) (simp_all add: power_add distrib_left)

lemma digit_step:
  fixes P d h :: nat
  assumes "d < 16"
  shows "P * d + P \<le> 16 * P"
proof -
  have "P * (d + 1) \<le> P * 16" using assms by (intro mult_le_mono2) simp
  then show ?thesis by (simp add: mult.commute)
qed

lemma hex_val_less: "hex_string s \<Longrightarrow> hex_val s < 16 ^ length s"
proof (induction s)
  case Nil
  then show ?case by simp
next
  case (Cons c s)
  then have "unat (the (hex_digit c)) < 16" by (auto dest: hex_digit_less)
  note digit_step [OF this, of "16 ^ length s"]
  moreover have "hex_val s < 16 ^ length s" using Cons by simp
  ultimately show ?case unfolding hex_val.simps length_Cons power_Suc by linarith
qed

lemma hex_not_space: "hex_digit c \<noteq> None \<Longrightarrow> \<not> is_space c \<and> c \<noteq> CHR ''-'' \<and> c \<noteq> CHR ''+'' \<and> c \<noteq> CHR ''x'' \<and> c \<noteq> CHR ''X''"
  unfolding is_space_def by (auto simp: hex_digit_def)

lemma scan_digits_val:
  "hex_string s \<Longrightarrow> length s = k \<Longrightarrow> unat acc * 16 ^ k + 16 ^ k \<le> 2 ^ 32 \<Longrightarrow>
   unat (scan_digits k acc (s @ t)) = unat acc * 16 ^ k + hex_val s"
proof (induction s arbitrary: acc k)
  case Nil
  then show ?case by simp
next
  case (Cons c s)
  then obtain d k' where d: "hex_digit c = Some d" and k: "k = Suc k'" by auto
  have "unat acc * 16 + 16 \<le> 2 ^ 32"
  proof -
    have "(unat acc * 16 + 16) * 1 \<le> (unat acc * 16 + 16) * 16 ^ k'" by (intro mult_le_mono2) simp
    also have "\<dots> \<le> 2 ^ 32" using Cons.prems(3) by (simp add: k algebra_simps)
    finally show ?thesis by simp
  qed
  then have acc: "unat (acc * 16 + d) = unat acc * 16 + unat d"
    using hex_digit_less [OF d] by (simp add: unat_word_ariths)
  have "16 ^ k' * unat d + 16 ^ k' \<le> 16 * 16 ^ k'" by (rule digit_step [OF hex_digit_less [OF d]])
  moreover have "unat acc * (16 * 16 ^ k') + 16 * 16 ^ k' \<le> 2 ^ 32"
    using Cons.prems(3) by (simp add: k)
  moreover have e: "unat (acc * 16 + d) * 16 ^ k' = unat acc * (16 * 16 ^ k') + 16 ^ k' * unat d"
    unfolding acc by (simp only: distrib_left distrib_right ac_simps)
  ultimately have "unat (acc * 16 + d) * 16 ^ k' + 16 ^ k' \<le> 2 ^ 32"
    by linarith
  then have "unat (scan_digits k' (acc * 16 + d) (s @ t)) = unat (acc * 16 + d) * 16 ^ k' + hex_val s"
    using Cons by (simp add: k)
  then show ?case
    using Cons.prems(2) by (simp add: k d e)
qed

lemma sscanf_8x_val:
  assumes "hex_string s" "length s = 8"
  shows "\<exists>v. sscanf_8x (s @ t) = Some v \<and> unat v = hex_val s"
proof -
  obtain c c' s' where s: "s = c # c' # s'" using assms(2) by (auto simp: length_Suc_conv numeral_eq_Suc)
  then have c: "hex_digit c \<noteq> None" "hex_digit c' \<noteq> None" using assms(1) by auto
  have "sscanf_8x (s @ t) = scan_prefixed 8 (s @ t)"
    using hex_not_space [OF c(1)] by (simp add: sscanf_8x_def s Let_def)
  also have "\<dots> = scan_number 8 (s @ t)"
    using hex_not_space [OF c(2)] by (simp add: scan_prefixed_def s)
  also have "\<dots> = Some (scan_digits 8 0 (s @ t))"
    using c by (simp add: scan_number_def s)
  finally show ?thesis
    using scan_digits_val [of s 8 0 t] assms by simp
qed

section \<open>What parsing computes\<close>

lemma bignum_from_string_loop_inv:
  assumes "hex_string str" "length n = BN_ARRAY_SIZE" "length str = r + 8 * l" "r < 8"
    and "l \<le> BN_ARRAY_SIZE" "j + k = l"
  shows "\<exists>n'. bignum_from_string_loop str (int r + 8 * int k - 8) j n = Some n' \<and> bn_wf n' \<and>
           take l n' = take j n @ take k (drop j n') \<and>
           (\<forall>i. l \<le> i \<longrightarrow> n' ! i = n ! i) \<and>
           bn_val (take k (drop j n')) = hex_val (take (8 * k) (drop r str))"
  using assms
proof (induction k arbitrary: j n)
  case 0
  then have "\<not> 0 \<le> int r - 8" by simp
  with 0 show ?case by (simp add: bignum_from_string_loop.simps bn_wf_def)
next
  case (Suc k)
  let ?i = "int r + 8 * int (Suc k) - 8"
  have i: "?i \<ge> 0" "nat ?i = r + 8 * k" "nat ?i \<le> length str" "j < BN_ARRAY_SIZE"
    using Suc.prems by simp_all
  define s where "s = take 8 (drop (8 * k) (drop r str))"
  have s: "hex_string s" "length s = 8" "drop (nat ?i) str = s @ drop 8 (drop (nat ?i) str)"
    using Suc.prems hex_string_take_drop append_take_drop_id [of 8 "drop (r + 8 * k) str"]
    unfolding i(2) s_def by (simp_all add: hex_string_take_drop add.commute del: append_take_drop_id)
  obtain v where v: "sscanf_8x (drop (nat ?i) str) = Some v" "unat v = hex_val s"
    using sscanf_8x_val [OF s(1,2)] s(3) by metis
  have step: "bignum_from_string_loop str ?i j n =
      bignum_from_string_loop str (int r + 8 * int k - 8) (j + 1) (n[j := v])"
    using i v(1) by (subst bignum_from_string_loop.simps) (simp add: WORD_SIZE_def)
  obtain n' where n': "bignum_from_string_loop str (int r + 8 * int k - 8) (j + 1) (n[j := v]) = Some n'"
    "bn_wf n'" "take l n' = take (j + 1) (n[j := v]) @ take k (drop (j + 1) n')"
    "\<forall>i. l \<le> i \<longrightarrow> n' ! i = n[j := v] ! i"
    "bn_val (take k (drop (j + 1) n')) = hex_val (take (8 * k) (drop r str))"
    using Suc.IH [of "n[j := v]" "j + 1"] Suc.prems by auto
  have jl: "j < l" using Suc.prems by simp
  have "take l n' ! j = v" unfolding n'(3) using i(4) Suc.prems(2) by (simp add: nth_append)
  then have nj: "n' ! j = v" using jl by simp
  have dj: "take (Suc k) (drop j n') = v # take k (drop (j + 1) n')"
    using n'(2) i(4) nj by (simp add: bn_wf_def Cons_nth_drop_Suc [symmetric])
  have "take (8 * Suc k) (drop r str) = take (8 * k) (drop r str) @ s"
    unfolding s_def using take_add [of "8 * k" 8 "drop r str"] by (simp add: add.commute)
  then have "bn_val (take (Suc k) (drop j n')) = hex_val (take (8 * Suc k) (drop r str))"
    unfolding dj using n'(5) by (simp add: hex_val_append v(2) s(2))
  moreover have "take l n' = take j n @ take (Suc k) (drop j n')"
    unfolding n'(3) dj using i(4) Suc.prems(2) by (simp add: take_Suc_update)
  ultimately show ?case
    unfolding step using n' jl by (auto simp: nth_list_update)
qed

text \<open>
  The characters are consumed in groups of eight from the right end; a group that is not
  complete at the left end is dropped.
\<close>

lemma bignum_from_string_spec:
  assumes "bn_wf n" "hex_string str" "str \<noteq> []" "even (length str)" "length str div 8 \<le> BN_ARRAY_SIZE"
  shows "\<exists>n'. bignum_from_string n str (int (length str)) = Some n' \<and> bn_wf n' \<and>
           bn_val n' = hex_val (drop (length str mod 8) str)"
proof -
  let ?l = "length str div 8" and ?r = "length str mod 8"
  let ?n = "replicate BN_ARRAY_SIZE (0 :: u32)"
  have guard: "int (length str) > 0 \<and> int (length str) AND 1 = 0"
    using assms(3,4) by (simp add: and_one_eq)
  have "int (length str) = int ?r + 8 * int ?l"
    using mod_mult_div_eq [of "length str" 8] by linarith
  then have start: "bignum_from_string n str (int (length str)) =
      bignum_from_string_loop str (int ?r + 8 * int ?l - 8) 0 ?n"
    using guard assms(1) by (simp add: bignum_from_string_def WORD_SIZE_def)
  obtain n' where n': "bignum_from_string_loop str (int ?r + 8 * int ?l - 8) 0 ?n = Some n'" "bn_wf n'"
    "\<forall>i. ?l \<le> i \<longrightarrow> n' ! i = ?n ! i" "bn_val (take ?l n') = hex_val (take (8 * ?l) (drop ?r str))"
    using bignum_from_string_loop_inv [of str ?n ?r ?l 0 ?l] assms by auto
  have "bn_val (drop ?l n') = 0"
    unfolding bn_val_0_iff using n'(2,3) by (simp add: bn_wf_def)
  then have "bn_val n' = bn_val (take ?l n')"
    using bn_val_append [of "take ?l n'" "drop ?l n'"] by simp
  moreover have "length (drop ?r str) = 8 * ?l" by (simp add: minus_mod_eq_mult_div)
  ultimately show ?thesis using start n' by simp
qed

section \<open>What printing computes\<close>

definition hex_digits :: "bn \<Rightarrow> string" where
  "hex_digits n = concat (map hex8 (rev n))"

lemma length_hex8 [simp]: "length (hex8 w) = 8"
  by (simp add: hex8_def)

lemma length_concat_hex8: "length (concat (map hex8 ws)) = 8 * length ws"
  by (induction ws) simp_all

lemma hex_char_digit: "d < 16 \<Longrightarrow> hex_digit (hex_char d) = Some d"
proof -
  assume "d < 16"
  then obtain k where k: "d = of_nat k" "k < 16"
    by (intro that [of "unat d"]) (simp_all add: word_less_nat_alt)
  then have "k \<in> set [0..<16]" by simp
  then show ?thesis
    unfolding k(1) by (auto simp: upt_conv_Cons hex_char_def hex_digit_def)
qed

lemma unat_nibble: "unat (drop_bit n (w :: u32) AND 15) = unat w div 2 ^ n mod 16"
proof -
  have "unat (take_bit 4 (drop_bit n w)) = take_bit 4 (unat (drop_bit n w))"
    by (simp add: unsigned_take_bit_eq)
  also have "\<dots> = unat w div 2 ^ n mod 16" by (simp add: take_bit_eq_mod unat_drop_bit)
  finally show ?thesis by (simp add: take_bit_eq_mask mask_numeral)
qed

lemma nibble_less: "drop_bit n (w :: u32) AND 15 < 16"
  by (simp add: word_less_nat_alt unat_nibble)

lemma hex_string_hex8 [simp]: "hex_string (hex8 w)"
  using nibble_less [of 0 w] by (simp add: hex8_def hex_char_digit nibble_less)

lemma eight_nibbles:
  fixes x :: nat
  assumes "x < 2 ^ 32"
  shows "16 ^ 7 * (x div 2 ^ 28 mod 16) + (16 ^ 6 * (x div 2 ^ 24 mod 16) + (16 ^ 5 * (x div 2 ^ 20 mod 16) +
    (16 ^ 4 * (x div 2 ^ 16 mod 16) + (16 ^ 3 * (x div 2 ^ 12 mod 16) + (16 ^ 2 * (x div 2 ^ 8 mod 16) +
    (16 * (x div 2 ^ 4 mod 16) + x mod 16)))))) = x"
proof -
  define y where "y n = x div 2 ^ n" for n
  define r where "r n = x div 2 ^ n mod 16" for n
  have step: "m = n + 4 \<Longrightarrow> y n = 16 * y m + r n" for m n
    by (simp add: power_add div_mult2_eq y_def r_def)
  have x: "y 0 = x" "r 0 = x mod 16" "y 32 = 0" using assms by (simp_all add: y_def r_def)
  have "y 0 = 16 * y 4 + r 0" "y 4 = 16 * y 8 + r 4" "y 8 = 16 * y 12 + r 8" "y 12 = 16 * y 16 + r 12"
    "y 16 = 16 * y 20 + r 16" "y 20 = 16 * y 24 + r 20" "y 24 = 16 * y 28 + r 24" "y 28 = 16 * y 32 + r 28"
    by (rule step, simp)+
  then have "16 ^ 7 * r 28 + (16 ^ 6 * r 24 + (16 ^ 5 * r 20 + (16 ^ 4 * r 16 + (16 ^ 3 * r 12 +
      (16 ^ 2 * r 8 + (16 * r 4 + r 0)))))) = y 0"
    unfolding x(3) by simp
  then show ?thesis unfolding x(1,2) unfolding r_def .
qed

lemma hex_val_hex8 [simp]: "hex_val (hex8 w) = unat w"
proof -
  have "hex_val (hex8 w) = 16 ^ 7 * (unat w div 2 ^ 28 mod 16) + (16 ^ 6 * (unat w div 2 ^ 24 mod 16) +
    (16 ^ 5 * (unat w div 2 ^ 20 mod 16) + (16 ^ 4 * (unat w div 2 ^ 16 mod 16) +
    (16 ^ 3 * (unat w div 2 ^ 12 mod 16) + (16 ^ 2 * (unat w div 2 ^ 8 mod 16) +
    (16 * (unat w div 2 ^ 4 mod 16) + unat w mod 16))))))"
    using unat_nibble [of 0 w] nibble_less [of 0 w] by (simp add: hex8_def hex_char_digit nibble_less unat_nibble)
  also have "\<dots> = unat w" by (rule eight_nibbles) (simp add: unat_u32_less)
  finally show ?thesis .
qed

lemma hex_digits_value: "hex_string (hex_digits n) \<and> hex_val (hex_digits n) = bn_val n"
  by (induction n) (simp_all add: hex_digits_def hex_val_append)

lemma hex_val_drop_zeros: "hex_val (dropWhile (\<lambda>c. c = CHR ''0'') s) = hex_val s"
  by (induction s) (simp_all add: hex_digit_def)

lemma sprintf_08x_spec:
  "i + 9 \<le> length str \<Longrightarrow> sprintf_08x str i w = Some r \<Longrightarrow>
   length r = length str \<and> take (i + 8) r = take i str @ hex8 w \<and> r ! (i + 8) = CHR 0x00"
  by (auto simp: sprintf_08x_def nth_append)

lemma bignum_print_words_spec:
  assumes "i + 8 * length js + 1 \<le> length str" "length str = nbytes" "js \<noteq> []"
  shows "\<exists>r. bignum_print_words n nbytes js i str = Some r \<and> length r = length str \<and>
           take (i + 8 * length js) r = take i str @ concat (map (\<lambda>j. hex8 (n ! j)) js) \<and>
           r ! (i + 8 * length js) = CHR 0x00"
  using assms
proof (induction js arbitrary: i str)
  case Nil
  then show ?case by simp
next
  case (Cons j js)
  obtain s where s: "sprintf_08x str i (n ! j) = Some s"
    using Cons.prems by (simp add: sprintf_08x_def)
  have sp: "length s = length str" "take (i + 8) s = take i str @ hex8 (n ! j)" "s ! (i + 8) = CHR 0x00"
    using sprintf_08x_spec [OF _ s] Cons.prems by simp_all
  have step: "bignum_print_words n nbytes (j # js) i str = bignum_print_words n nbytes js (i + 8) s"
    using Cons.prems s by (simp add: WORD_SIZE_def)
  show ?case
  proof (cases "js = []")
    case True
    then show ?thesis unfolding step using sp by simp
  next
    case False
    then obtain r where "bignum_print_words n nbytes js (i + 8) s = Some r" "length r = length s"
      "take (i + 8 + 8 * length js) r = take (i + 8) s @ concat (map (\<lambda>j. hex8 (n ! j)) js)"
      "r ! (i + 8 + 8 * length js) = CHR 0x00"
      using Cons.IH [of "i + 8" s] Cons.prems sp(1) by auto
    then show ?thesis unfolding step using sp by (simp add: add.assoc)
  qed
qed

lemma count_leading_zeros_append:
  "count_leading_zeros (s @ CHR 0x00 # t) = Some (length (takeWhile (\<lambda>c. c = CHR ''0'') s))"
  by (induction s) simp_all

lemma nth_fold_move_down:
  assumes "0 < j" "k + j \<le> length xs"
  shows "fold (\<lambda>i xs. xs[i := xs ! (i + j)]) [0..<k] xs = map ((!) xs) [j..<k + j] @ drop k xs"
  using assms
proof (induction k)
  case 0
  then show ?case by simp
next
  case (Suc k)
  let ?f = "map ((!) xs) [j..<k + j] @ drop k xs"
  have "drop k xs ! j = xs ! (k + j)" using Suc.prems by simp
  then have "?f ! (k + j) = xs ! (k + j)" by (simp add: nth_append)
  moreover have "drop k xs = xs ! k # drop (Suc k) xs"
    using Suc.prems by (simp add: Cons_nth_drop_Suc)
  ultimately have "?f[k := ?f ! (k + j)] = map ((!) xs) [j..<Suc k + j] @ drop (Suc k) xs"
    by (simp add: list_update_append)
  with Suc show ?case by simp
qed

lemma map_nth_upt: "j + k \<le> length xs \<Longrightarrow> map ((!) xs) [j..<k + j] = take k (drop j xs)"
  by (rule nth_equalityI) (auto simp: add.commute)

lemma hex8_no_nul: "c \<in> set (hex8 w) \<Longrightarrow> c \<noteq> CHR 0x00"
  using hex_string_hex8 [of w] by (auto simp: hex_string_def list_all_iff hex_digit_def)

lemma takeWhile_no_nul: "CHR 0x00 \<notin> set s \<Longrightarrow> c_string (s @ CHR 0x00 # t) = s"
  unfolding c_string_def by (subst takeWhile_append2) auto

lemma update_beyond: "length xs < i \<Longrightarrow> \<exists>t. (xs @ c # ys)[i := v] = xs @ c # t"
  by (cases "i - length xs") (auto simp: list_update_append)

text \<open>
  With a buffer of at least 777 bytes the string is the digits without leading zeros;
  when there is no leading zero to remove the final store is outside the buffer.
\<close>

lemma bignum_to_string_spec:
  assumes "bn_wf n" "even (length buf)" "8 * BN_ARRAY_SIZE < length buf"
  shows "bignum_to_string n buf (length buf) = None \<longleftrightarrow> hd (hex_digits n) \<noteq> CHR ''0''"
    and "bignum_to_string n buf (length buf) = Some r \<Longrightarrow>
         length r = length buf \<and> c_string r = dropWhile (\<lambda>c. c = CHR ''0'') (hex_digits n)"
proof -
  let ?N = BN_ARRAY_SIZE and ?D = "hex_digits n"
  have N0: "?N > 0" by (simp add: BN_ARRAY_SIZE_97)
  have words: "map (\<lambda>j. n ! j) (rev [0..<?N]) = rev n"
    using assms(1) map_nth [of n] by (simp add: bn_wf_def rev_map [symmetric])
  then have D: "concat (map (\<lambda>j. hex8 (n ! j)) (rev [0..<?N])) = ?D"
    unfolding hex_digits_def words [symmetric] by (simp add: comp_def)
  have lenD: "length ?D = 8 * ?N"
    using assms(1) by (simp add: hex_digits_def length_concat_hex8 bn_wf_def)
  have nonul: "CHR 0x00 \<notin> set ?D" by (auto simp: hex_digits_def dest: hex8_no_nul)
  obtain s where s: "bignum_print_words n (length buf) (rev [0..<?N]) 0 buf = Some s" "length s = length buf"
    "take (8 * ?N) s = ?D" "s ! (8 * ?N) = CHR 0x00"
    using bignum_print_words_spec [of 0 "rev [0..<?N]" buf "length buf" n] assms(3) N0 by (auto simp: D)
  define t where "t = drop (Suc (8 * ?N)) s"
  have "s = take (8 * ?N) s @ drop (8 * ?N) s" by simp
  also have "\<dots> = ?D @ CHR 0x00 # t"
    using s assms(3) by (simp add: t_def Cons_nth_drop_Suc [symmetric])
  finally have split: "s = ?D @ CHR 0x00 # t" .
  define j where "j = length (takeWhile (\<lambda>c. c = CHR ''0'') ?D)"
  have j: "count_leading_zeros s = Some j" unfolding split j_def by (rule count_leading_zeros_append)
  have jle: "j \<le> 8 * ?N" using length_takeWhile_le [of "\<lambda>c. c = CHR ''0''" ?D] lenD by (simp add: j_def)
  have Dne: "?D \<noteq> []" using lenD N0 by auto
  then have j0: "j = 0 \<longleftrightarrow> hd ?D \<noteq> CHR ''0''" by (cases ?D) (auto simp: j_def)
  have guard: "length buf > 0 \<and> length buf AND 1 = 0" using assms(2,3) by (auto simp: and_one_eq)
  define u where "u = fold (\<lambda>i str. str[i := str ! (i + j)]) [0..<length buf - j] s"
  have run: "bignum_to_string n buf (length buf) =
      (if length buf - j < length buf then Some (u[length buf - j := CHR 0x00]) else None)"
    using guard s j by (simp add: bignum_to_string_def Let_def u_def)
  show "bignum_to_string n buf (length buf) = None \<longleftrightarrow> hd ?D \<noteq> CHR ''0''"
    unfolding run j0 [symmetric] using assms(3) by auto
  assume r: "bignum_to_string n buf (length buf) = Some r"
  then have jpos: "0 < j" and r': "r = u[length buf - j := CHR 0x00]"
    unfolding run by (simp_all split: if_splits)
  have le: "length buf - j + j \<le> length s" using jle assms(3) s(2) by simp
  have "u = map ((!) s) [j..<length buf - j + j] @ drop (length buf - j) s"
    unfolding u_def by (rule nth_fold_move_down [OF jpos le])
  also have "map ((!) s) [j..<length buf - j + j] = drop j s"
    using le s(2) by (subst map_nth_upt) simp_all
  finally have "u = drop j s @ drop (length buf - j) s" .
  then have u: "u = drop j ?D @ CHR 0x00 # t @ drop (length buf - j) s"
    using jle lenD by (simp add: split)
  have "length (drop j ?D) < length buf - j" using jle lenD assms(3) by simp
  then obtain t' where "r = drop j ?D @ CHR 0x00 # t'"
    unfolding r' u by (elim exE [OF update_beyond])
  moreover have "drop j ?D = dropWhile (\<lambda>c. c = CHR ''0'') ?D" by (simp add: j_def dropWhile_eq_drop)
  moreover have "CHR 0x00 \<notin> set (drop j ?D)" using nonul by (meson in_set_dropD)
  ultimately have "c_string r = dropWhile (\<lambda>c. c = CHR ''0'') ?D"
    using takeWhile_no_nul by simp
  moreover have "length r = length buf" by (simp add: r' u_def s(2))
  ultimately show "length r = length buf \<and> c_string r = dropWhile (\<lambda>c. c = CHR ''0'') ?D" by simp
qed

end
