(* ===== verification/Rsa_Key.thy ===== *)
theory Rsa_Key
  imports Bignum_Str
begin

text \<open>
  The RSA-3072 key embedded in src/tetd_x86/s4/sign_main.c as hexadecimal strings, and
  the arithmetic relations between its members, checked on lists of 32-bit limbs.
\<close>

section \<open>Key material\<close>

definition RSA_KEY_BITS :: nat where
  "RSA_KEY_BITS = 3072"

definition RSA_KEY_BYTES :: nat where
  "RSA_KEY_BYTES = RSA_KEY_BITS div 8"

definition hex_n :: string where
  "hex_n =
     ''be18818a7e95c519e0be692f0ca7f4a6da1522e2d40f0a256ee5d073d9230215'' @
     ''b4566c6951a70b3b667ab7f893f6bbff3ac88173694d6c31cee8c2f263772720'' @
     ''080b44656c690ef50fd579da476e2dc76fd4be713b68854b645828130aae5e57'' @
     ''da604c45811fff3f368405d8ef8fbaf3904e934d55a273cf607b3f7b48dcc9ea'' @
     ''6886f62091da7a68368d98685152dfe30927c18df8ab072ef2d81d8d44e92e8e'' @
     ''f5a385ee45bdab8cd0b6588b53b5e6644eae3dc175ee58081a8099b66f1d0437'' @
     ''61e3cdb49e4a9402890830395264dcb65127630a53550bb0a3e942c6644267b7'' @
     ''5cd33bf1cb8d8fbcfb1b88ced120747e3ad90881cc7b2d2c8f0c1e5423321482'' @
     ''79d09649c03270bcb9632c4d51fd1a7a168208eb1d6d04f94da86db850396281'' @
     ''f31813510f333b68c4f3c1fdf9090291ac9f80d4bd440fae5c1e47220ddd2a68'' @
     ''47158670a476ec0be66150316a847240fa4bbeb9a894d7f90fa18275dbc7f0e9'' @
     ''e8dbb031456ab60f0495cb3db4c80d6cb73671ba617f812479c50212ccca9e67''"

definition hex_e :: string where
  "hex_e =
     ''010001''"

definition hex_d :: string where
  "hex_d =
     ''0e84373ae8ee6da8cb92d43175994b2e300536841fdc2e282c4f271b51aa420f'' @
     ''2a40574860fb37f90745b9257b1722701bd5bd479f9e51497f1acdeda34edc11'' @
     ''597692cddea37f32e8f74d0b85879268b7cf8538dc67df95f6f461cb0d2117af'' @
     ''44768a1c875476dcd040460f5f9698438a9cead4185aaed6ad457c298bfce051'' @
     ''22e8fb84028a03eda5622c10a5f5303259914c4f427d67afb177c8cf459890fc'' @
     ''f5cbd0ff20704583715a1b6a385af1b1c34311bae3a899d709e9bc2899aa4642'' @
     ''055a05f565326f04508c4be52c49496c291f542e81b175bcb0e03bf274a5a265'' @
     ''af1923350f419b00bce8389bc67f30a732dc90d09be7c89436a5df7301b668cb'' @
     ''f1090a89c7c48cbc3a433a326916f842d7dcbefb834b8d74775909ed7d0a8a9e'' @
     ''b1a2636a6d134220695a9ca6e03a363317b6d2df11c08c9ff9326dd47df90efa'' @
     ''df8be58e05b0ae1e95c32238871239259e240fb8a6ffd83b49b0a5bf75d15413'' @
     ''cfd8ea2166638580ccf32c5740a4b5f23e1b213d3775d919967198222475e2a1''"

definition hex_p :: string where
  "hex_p =
     ''ea5640bbc5535566424d91d3f7421b09fb05702a43e4efa31e6cd1947edb20b3'' @
     ''3b564182ce682a42336dc4ec11bd3adcb355f372e436df97d888888c242360eb'' @
     ''fdd75cc3edd9c3bf51d215c0aabc821f984305783c5677cf2f1ab6ae06907544'' @
     ''8ed55cbea218ee6378253e80ea3f4af62e4eaeb48ab33f19f7e199d51cc05f92'' @
     ''71037972edfeb2922439718a42cc4187c88b7c31d44608a5f641473ea3bbbaea'' @
     ''3338d43059f3de1612cd19058d85b470b3c95824cf659eb897f93b110f1bd3d9''"

definition hex_q :: string where
  "hex_q =
     ''cfab4117838cdefc5410c543c1b942e97c9753de4b1e05b567e8292bdd257133'' @
     ''51aa6b8109f7e4491944ca9a99b968b48c78040cb8d87bc1271422ea9e3d309e'' @
     ''bed4965f8b4bcb32b8ed3daeb0639dd1bd63986410a3a8c06e8c034c5c6a06da'' @
     ''e4bbdb307ee2c198b69afc67901d0a19b51f00ae0723ce9befe56d476d6f794d'' @
     ''55c67e61f9c8bf76c3774b02c1005f3efa1465359b9b10e97da33c44703da11f'' @
     ''1ef0455c74acf7dffe3b7be8711ffa2ae678d48b8b0e4b9e8bccbc9e8b1bdc3f''"

definition hex_dp :: string where
  "hex_dp =
     ''80f75f40f7e45907a24dd687f578683121f968359a901062918809ffd3a0fd6a'' @
     ''26a9ddfc0364c87d0e98c6dbb51793a18b012eae7872cab362f421521f416941'' @
     ''f7bde2cbe1c70b37ebebd714e5e2412aea3d587147a3bee443644c4d92474682'' @
     ''a8a93c159e58623a54110b491fa21dbb46d8fec555e038462e69f6a396e338b5'' @
     ''fb8491fe7284cdfa27fd85433667fb58a34240e39b93bf86b6f44e25672f163b'' @
     ''765d3c4a2ff74aae93425516fd402c822a30115690ddb87097130f32e041cc61''"

definition hex_dq :: string where
  "hex_dq =
     ''39d37d0f9820fce294620b1bfff09f7236b048b9487f76a579e68ab85d1f14f3'' @
     ''6e551f14527b458519552f79773ecaaa23c733917b5344ba9730233ce38d3461'' @
     ''afcfb083b05d0d9af525929c771f760db647ea624ac3d7b4a5d3b503696458be'' @
     ''511d023ef1c620946e9c9f9612ea132aef654fa225f8d18a5875b1454772d7fb'' @
     ''31dc50cae56c01ec87274baadba547e058709f721aff45e94e83cabf5fe5b95c'' @
     ''da179ba8d0106e0160609df32eb4f1cb4a5bf10b5e503fbc493f5c726557ffaf''"

definition hex_qinv :: string where
  "hex_qinv =
     ''ae172813b4ef72775c2798b194348355cb7e7f74947d364b83f6e296e9e00559'' @
     ''efb482990ad4fb335b9cb6ed7c68d5a19d244bade44292d94f33010f3815a991'' @
     ''c0211990a002ef686c35ecd3e0602129bb1e35bf9cd5663b52ce9c97154fcfca'' @
     ''8d5403e6c59de8e785ee64b3ab6b7593f0c899ea9f823f22b5cbeb766b8fbe8b'' @
     ''232143dd9a28c0f0550b87fedb19cdf52e02009773b9cdc722cace719b3665d9'' @
     ''3bf21dadac7d5669bbfb14000ef48f66c174bbc24739987c3a6b20eb9da62152''"

section \<open>Limb arithmetic\<close>

text \<open>
  Products of 1536-bit numbers are computed on lists of 32-bit limbs, least significant
  first; \<open>limbs\<close> reads them from a hexadecimal string.
\<close>

definition nibble :: "char \<Rightarrow> int" where
  "nibble c = (let v = of_char c in if v \<le> 57 then v - 48 else v - 87)"

fun limbs :: "int list \<Rightarrow> string \<Rightarrow> int list" where
  "limbs acc (a # b # c # d # e # f # g # h # s) =
     limbs ((((((((nibble a * 16 + nibble b) * 16 + nibble c) * 16 + nibble d) * 16 + nibble e) * 16 +
       nibble f) * 16 + nibble g) * 16 + nibble h) # acc) s"
| "limbs acc _ = acc"

fun limb_val :: "int list \<Rightarrow> int" where
  "limb_val [] = 0"
| "limb_val (x # xs) = x + 4294967296 * limb_val xs"

fun limb_add :: "int list \<Rightarrow> int list \<Rightarrow> int list" where
  "limb_add [] ys = ys"
| "limb_add xs [] = xs"
| "limb_add (x # xs) (y # ys) = (x + y) # limb_add xs ys"

fun limb_mul :: "int list \<Rightarrow> int list \<Rightarrow> int list" where
  "limb_mul [] ys = []"
| "limb_mul (x # xs) ys = limb_add (map (\<lambda>y. x * y) ys) (0 # limb_mul xs ys)"

fun limb_norm :: "int \<Rightarrow> int list \<Rightarrow> int list" where
  "limb_norm c [] = [c]"
| "limb_norm c (x # xs) = (x + c) mod 4294967296 # limb_norm ((x + c) div 4294967296) xs"

lemma limb_add_val: "limb_val (limb_add xs ys) = limb_val xs + limb_val ys"
  by (induction xs ys rule: limb_add.induct) simp_all

lemma limb_mul_val: "limb_val (limb_mul xs ys) = limb_val xs * limb_val ys"
proof (induction xs)
  case Nil
  then show ?case by simp
next
  case (Cons x xs)
  have "limb_val (map (\<lambda>y. x * y) ys) = x * limb_val ys"
    by (induction ys) (simp_all add: distrib_left)
  with Cons show ?case by (simp add: limb_add_val distrib_right)
qed

lemma limb_norm_val: "limb_val (limb_norm c xs) = limb_val xs + c"
  by (induction xs arbitrary: c) simp_all

lemma limb_normI: "limb_norm 0 xs = limb_norm 0 ys \<Longrightarrow> limb_val xs = limb_val ys"
  by (metis limb_norm_val add.right_neutral)

definition lower_digit :: "char \<Rightarrow> bool" where
  "lower_digit c \<longleftrightarrow> c \<in> set ''0123456789abcdef''"

definition lower_hex :: "string \<Rightarrow> bool" where
  "lower_hex s \<longleftrightarrow> list_all lower_digit s"

lemma lower_hex_digit: "lower_digit c \<Longrightarrow> hex_digit c \<noteq> None \<and> int (unat (the (hex_digit c))) = nibble c"
  unfolding lower_digit_def by (auto simp: hex_digit_def nibble_def)

lemma lower_hex_string: "lower_hex s \<Longrightarrow> hex_string s"
  using lower_hex_digit by (auto simp: lower_hex_def hex_string_def list_all_iff)

lemma limbs_val:
  assumes "lower_hex s" "8 dvd length s"
  shows "limb_val (limbs acc s) = int (hex_val s) + 4294967296 ^ (length s div 8) * limb_val acc"
  using assms
proof (induction acc s rule: limbs.induct)
  case (1 acc a b c d e f g h s)
  have "8 dvd length s" using 1(3) unfolding list.size by presburger
  then have s: "lower_hex s" "8 dvd length s" using 1(2) by (simp_all add: lower_hex_def)
  define x where "x = ((((((nibble a * 16 + nibble b) * 16 + nibble c) * 16 + nibble d) * 16 + nibble e) * 16 +
    nibble f) * 16 + nibble g) * 16 + nibble h"
  have x: "int (hex_val [a, b, c, d, e, f, g, h]) = x"
    using 1(2) lower_hex_digit by (simp add: lower_hex_def x_def)
  have val: "hex_val (a # b # c # d # e # f # g # h # s) = 16 ^ length s * hex_val [a, b, c, d, e, f, g, h] + hex_val s"
    using hex_val_append [of "[a, b, c, d, e, f, g, h]" s] by simp
  have B: "(16 :: int) ^ length s = 4294967296 ^ (length s div 8)"
    using s(2) by (auto simp: power_mult elim!: dvdE)
  have "int (hex_val (a # b # c # d # e # f # g # h # s)) = 4294967296 ^ (length s div 8) * x + int (hex_val s)"
    unfolding val by (simp only: of_nat_add of_nat_mult of_nat_power of_nat_numeral x B)
  moreover have "limb_val (limbs (x # acc) s) = int (hex_val s) + 4294967296 ^ (length s div 8) * (x + 4294967296 * limb_val acc)"
    using 1(1) [OF s] unfolding x_def [symmetric] limb_val.simps .
  moreover have "length (a # b # c # d # e # f # g # h # s) div 8 = Suc (length s div 8)" by simp
  ultimately show ?case
    unfolding limbs.simps x_def [symmetric] by (simp only: power_Suc distrib_left distrib_right ac_simps)
qed (auto dest: dvd_imp_le)

lemma limbs_val_nat:
  assumes "lower_hex s" "8 dvd length s"
  shows "limb_val (limbs [] s) = int (hex_val s)"
  using limbs_val [OF assms, of "[]"] by simp

text \<open>The quotient of \<open>q * qinv\<close> by \<open>p\<close>, which the checks below multiply back.\<close>

definition hex_qinv_quotient :: string where
  "hex_qinv_quotient =
     ''9a4755831f6e493aacb174d3f7b7d2bf0d273c14a7255bef5c8916a1def89cce'' @
     ''954b2a5d534a370462b0dcdaeda2df0b5e4f406ab5cfdb34610753be48763df9'' @
     ''e1f7848027f2fe50037edc4ae23c077faa9ed0c4491740b62d7ff9978e64965c'' @
     ''d8b1293b84d11399e40d279cf248daee1287a30ba8724ff4a694319ce3318e86'' @
     ''64455013bb04cb19e5d98f11fb342160092b6bb1a41ba051c90b1cfe89fb55ee'' @
     ''ec5dd4cc7be5b037ee6648cdc5d3b594bde5c73571494b3da8b088a5cb370175''"

lemmas key_hex_defs = hex_n_def hex_d_def hex_p_def hex_q_def hex_dp_def hex_dq_def hex_qinv_def
  hex_qinv_quotient_def

lemma key_strings:
  "lower_hex hex_n \<and> length hex_n = 768"
  "lower_hex hex_p \<and> length hex_p = 384"
  "lower_hex hex_q \<and> length hex_q = 384"
  "lower_hex hex_dp \<and> length hex_dp = 384"
  "lower_hex hex_dq \<and> length hex_dq = 384"
  "lower_hex hex_qinv \<and> length hex_qinv = 384"
  "lower_hex hex_qinv_quotient \<and> length hex_qinv_quotient = 384"
  unfolding key_hex_defs lower_hex_def lower_digit_def by simp_all

lemma key_limbs_qinv:
  "limb_norm 0 (limb_mul (limbs [] hex_q) (limbs [] hex_qinv)) =
   limb_norm 0 (limb_add [1] (limb_mul (limbs [] hex_qinv_quotient) (limbs [] hex_p)))"
  by code_simp

lemma key_limbs_n:
  "limb_norm 0 (limb_add (replicate 96 0) (limb_mul (limbs [] hex_p) (limbs [] hex_q))) =
   limb_norm 0 (limbs [] hex_n)"
  by code_simp

lemma key_limbs_dp:
  "limb_norm 0 (limb_add [36068] (limb_mul [65537] (limbs [] hex_dp))) =
   limb_norm 0 (limb_add [1] (limb_mul [36068] (limbs [] hex_p)))"
  by code_simp

lemma key_limbs_dq:
  "limb_norm 0 (limb_add [18249] (limb_mul [65537] (limbs [] hex_dq))) =
   limb_norm 0 (limb_add [1] (limb_mul [18249] (limbs [] hex_q)))"
  by code_simp

section \<open>Relations between the members of the key\<close>

lemma key_limbs:
  "limb_val (limbs [] hex_n) = int (hex_val hex_n)"
  "limb_val (limbs [] hex_p) = int (hex_val hex_p)"
  "limb_val (limbs [] hex_q) = int (hex_val hex_q)"
  "limb_val (limbs [] hex_dp) = int (hex_val hex_dp)"
  "limb_val (limbs [] hex_dq) = int (hex_val hex_dq)"
  "limb_val (limbs [] hex_qinv) = int (hex_val hex_qinv)"
  "limb_val (limbs [] hex_qinv_quotient) = int (hex_val hex_qinv_quotient)"
  using key_strings by (simp_all add: limbs_val_nat)

lemma key_modulus: "hex_val hex_p * hex_val hex_q = hex_val hex_n"
proof -
  have z: "limb_val (replicate k 0) = 0" for k by (induction k) simp_all
  show ?thesis
    using limb_normI [OF key_limbs_n]
    by (simp only: limb_add_val limb_mul_val z key_limbs add_0 of_nat_mult [symmetric] of_nat_eq_iff)
qed

lemma key_qinv: "hex_val hex_q * hex_val hex_qinv = hex_val hex_qinv_quotient * hex_val hex_p + 1"
proof -
  have "int (hex_val hex_q * hex_val hex_qinv) = int (1 + hex_val hex_qinv_quotient * hex_val hex_p)"
    using limb_normI [OF key_limbs_qinv]
    by (simp only: limb_add_val limb_mul_val key_limbs limb_val.simps mult_zero_right add_0_right
        of_nat_mult of_nat_add of_nat_1)
  then show ?thesis by (simp only: of_nat_eq_iff add.commute)
qed

lemma hex_val_bounds:
  assumes "hex_string (c # s)"
  shows "unat (the (hex_digit c)) * 16 ^ length s \<le> hex_val (c # s)"
    and "hex_val (c # s) < (unat (the (hex_digit c)) + 1) * 16 ^ length s"
proof -
  have "hex_val s < 16 ^ length s" using assms by (intro hex_val_less) simp
  then show "unat (the (hex_digit c)) * 16 ^ length s \<le> hex_val (c # s)"
    "hex_val (c # s) < (unat (the (hex_digit c)) + 1) * 16 ^ length s"
    by (simp_all add: distrib_right mult.commute)
qed

lemma hex_val_parity: "odd (hex_val (s @ [c])) \<longleftrightarrow> odd (unat (the (hex_digit c)))"
  by (simp add: hex_val_append)

lemma key_p_bounds: "14 * 16 ^ 383 \<le> hex_val hex_p" "hex_val hex_p < 15 * 16 ^ 383"
proof -
  have "hd hex_p = CHR ''e''" by (simp add: hex_p_def)
  moreover have "hex_p \<noteq> []" using key_strings(2) by auto
  then have "hd hex_p # tl hex_p = hex_p" "length (tl hex_p) = 383"
    using key_strings(2) by simp_all
  moreover have "hex_string hex_p" using key_strings(2) lower_hex_string by blast
  moreover have "unat (the (hex_digit CHR ''e'')) = 14" by (simp add: hex_digit_def)
  ultimately show "14 * 16 ^ 383 \<le> hex_val hex_p" "hex_val hex_p < 15 * 16 ^ 383"
    using hex_val_bounds [of "hd hex_p" "tl hex_p"] by simp_all
qed

lemma key_q_bounds: "12 * 16 ^ 383 \<le> hex_val hex_q" "hex_val hex_q < 13 * 16 ^ 383"
proof -
  have "hd hex_q = CHR ''c''" by (simp add: hex_q_def)
  moreover have "hex_q \<noteq> []" using key_strings(3) by auto
  then have "hd hex_q # tl hex_q = hex_q" "length (tl hex_q) = 383"
    using key_strings(3) by simp_all
  moreover have "hex_string hex_q" using key_strings(3) lower_hex_string by blast
  moreover have "unat (the (hex_digit CHR ''c'')) = 12" by (simp add: hex_digit_def)
  ultimately show "12 * 16 ^ 383 \<le> hex_val hex_q" "hex_val hex_q < 13 * 16 ^ 383"
    using hex_val_bounds [of "hd hex_q" "tl hex_q"] by simp_all
qed

lemma key_odd: "odd (hex_val hex_p)" "odd (hex_val hex_q)"
proof -
  have "hex_p = butlast hex_p @ [CHR ''9'']" "hex_q = butlast hex_q @ [CHR ''f'']"
    by (simp_all add: hex_p_def hex_q_def)
  moreover have "odd (unat (the (hex_digit CHR ''9'')))" "odd (unat (the (hex_digit CHR ''f'')))"
    by (simp_all add: hex_digit_def)
  ultimately show "odd (hex_val hex_p)" "odd (hex_val hex_q)"
    using hex_val_parity by metis+
qed

lemma hex_384_less: "lower_hex s \<and> length s = 384 \<Longrightarrow> hex_val s < 2 ^ 1536"
proof -
  assume s: "lower_hex s \<and> length s = 384"
  then have "hex_val s < 16 ^ 384" using hex_val_less [OF lower_hex_string] by metis
  also have "(16 :: nat) ^ 384 = 2 ^ 1536" by (simp flip: power_mult [of 2 4 384, simplified])
  finally show ?thesis .
qed

lemma key_less:
  "hex_val hex_p < 2 ^ 1536" "hex_val hex_q < 2 ^ 1536" "hex_val hex_dp < 2 ^ 1536"
  "hex_val hex_dq < 2 ^ 1536" "hex_val hex_qinv < 2 ^ 1536"
  using hex_384_less key_strings by blast+

lemma key_order: "hex_val hex_q < hex_val hex_p"
  using key_p_bounds(1) key_q_bounds(2) by linarith

text \<open>Each private exponent inverts \<open>65537\<close> modulo its prime minus one.\<close>

lemma mod_one_plus: "1 < m \<Longrightarrow> (1 + k * m) mod m = (1 :: nat)"
  by (simp only: mod_mult_self1 mod_less)

lemma key_dp: "(65537 * hex_val hex_dp) mod (hex_val hex_p - 1) = 1"
proof -
  have "int (65537 * hex_val hex_dp + 36068) = int (1 + 36068 * hex_val hex_p)"
    using limb_normI [OF key_limbs_dp]
    by (simp only: limb_add_val limb_mul_val key_limbs limb_val.simps mult_zero_right add_0_right
        of_nat_mult of_nat_add of_nat_1 of_nat_numeral add_0 add.commute)
  then have eq: "65537 * hex_val hex_dp + 36068 = 1 + 36068 * hex_val hex_p"
    by (simp only: of_nat_eq_iff)
  have p: "2 < hex_val hex_p" using key_p_bounds(1) by (rule less_le_trans [rotated]) simp
  then have "65537 * hex_val hex_dp = 1 + 36068 * (hex_val hex_p - 1)"
    using eq by (simp add: diff_mult_distrib2)
  moreover have "1 < hex_val hex_p - 1" using p by linarith
  ultimately show ?thesis using mod_one_plus by metis
qed

lemma key_dq: "(65537 * hex_val hex_dq) mod (hex_val hex_q - 1) = 1"
proof -
  have "int (65537 * hex_val hex_dq + 18249) = int (1 + 18249 * hex_val hex_q)"
    using limb_normI [OF key_limbs_dq]
    by (simp only: limb_add_val limb_mul_val key_limbs limb_val.simps mult_zero_right add_0_right
        of_nat_mult of_nat_add of_nat_1 of_nat_numeral add_0 add.commute)
  then have eq: "65537 * hex_val hex_dq + 18249 = 1 + 18249 * hex_val hex_q"
    by (simp only: of_nat_eq_iff)
  have q: "2 < hex_val hex_q" using key_q_bounds(1) by (rule less_le_trans [rotated]) simp
  then have "65537 * hex_val hex_dq = 1 + 18249 * (hex_val hex_q - 1)"
    using eq by (simp add: diff_mult_distrib2)
  moreover have "1 < hex_val hex_q - 1" using q by linarith
  ultimately show ?thesis using mod_one_plus by metis
qed

end
