(* ===== verification/Rsa_Sign.thy ===== *)
theory Rsa_Sign
  imports Montgomery Rsa_Key
begin

text \<open>
  The RSA-3072 signing routine of src/tetd_x86/s4/sign_main.c: the
  conversions between big numbers, hexadecimal strings and big-endian bytes, and
  \<open>rsa_sign\<close>. The digest routine \<open>sha256_ni_transform\<close> is assembly and a parameter of the
  model: a function of the old content of the hash buffer, the input and the number of
  64-byte blocks. Console output is not modelled.
\<close>

section \<open>Conversions\<close>

definition hex_to_bn :: "bn \<Rightarrow> string \<Rightarrow> bn option" where
  "hex_to_bn n hex = bignum_from_string n hex (int (length hex))"

fun bytes_to_bn_loop :: "u8 list \<Rightarrow> nat \<Rightarrow> nat list \<Rightarrow> bn \<Rightarrow> bn option" where
  "bytes_to_bn_loop inp in_len [] n = Some n"
| "bytes_to_bn_loop inp in_len (i # is) n =
     (let b = inp ! (in_len - 1 - i);
          w = i div WORD_SIZE;
          off = i mod WORD_SIZE
      in if in_len - 1 - i < length inp \<and> w < BN_ARRAY_SIZE
         then bytes_to_bn_loop inp in_len is (n[w := n ! w OR push_bit (8 * off) (ucast b)])
         else None)"

definition bytes_to_bn :: "bn \<Rightarrow> u8 list \<Rightarrow> nat \<Rightarrow> bn option" where
  "bytes_to_bn n inp in_len =
     (let n = bignum_init n in bytes_to_bn_loop inp in_len [0..<in_len] n)"

fun bn_to_bytes_loop :: "bn \<Rightarrow> nat \<Rightarrow> nat list \<Rightarrow> u8 list \<Rightarrow> u8 list option" where
  "bn_to_bytes_loop n in_len [] out = Some out"
| "bn_to_bytes_loop n in_len (i # is) out =
     (let w = i div WORD_SIZE;
          off = i mod WORD_SIZE
      in if w < BN_ARRAY_SIZE \<and> in_len - 1 - i < length out
         then bn_to_bytes_loop n in_len is
                (out[in_len - 1 - i := ucast (drop_bit (8 * off) (n ! w) AND 0xFF)])
         else None)"

definition bn_to_bytes :: "bn \<Rightarrow> u8 list \<Rightarrow> nat \<Rightarrow> u8 list option" where
  "bn_to_bytes n out in_len = bn_to_bytes_loop n in_len [0..<in_len] out"

section \<open>Signing\<close>

definition rsa_R2 :: "bn \<Rightarrow> nat \<Rightarrow> bn option" where
  "rsa_R2 m mBits =
     (let R = bignum_from_int bn_local 1;
          R = bignum_lshift R R mBits;
          R2 = bignum_mul R R bn_local
      in bignum_mod R2 m bn_local)"

definition rsa_combine :: "bn \<Rightarrow> bn \<Rightarrow> bn \<Rightarrow> bn \<Rightarrow> bn \<Rightarrow> bn option" where
  "rsa_combine p q qinv m1 m2 =
     do {
       let h = (if bignum_cmp m1 m2 = SMALLER
                then bignum_sub (bignum_add m1 p bn_local) m2 bn_local
                else bignum_sub m1 m2 bn_local);
       let tmp = bignum_mul h qinv bn_local;
       h \<leftarrow> bignum_mod tmp p h;
       let tmp = bignum_mul h q tmp;
       Some (bignum_add m2 tmp tmp)
     }"

definition rsa_sign ::
  "(u8 list \<Rightarrow> u8 list \<Rightarrow> nat \<Rightarrow> u8 list) \<Rightarrow> u8 list \<Rightarrow> bn list \<Rightarrow> u8 list \<Rightarrow> u8 list \<Rightarrow> nat \<Rightarrow>
   (bn list \<times> u8 list) option" where
  "rsa_sign sha256_ni_transform hash lut inp output input_len =
     do {
       let hash = sha256_ni_transform hash inp (input_len div 64);
       n \<leftarrow> hex_to_bn bn_local hex_n;
       p \<leftarrow> hex_to_bn bn_local hex_p;
       q \<leftarrow> hex_to_bn bn_local hex_q;
       dp \<leftarrow> hex_to_bn bn_local hex_dp;
       dq \<leftarrow> hex_to_bn bn_local hex_dq;
       qinv \<leftarrow> hex_to_bn bn_local hex_qinv;
       pBits \<leftarrow> bignum_numbits p;
       qBits \<leftarrow> bignum_numbits q;
       r2p \<leftarrow> rsa_R2 p pBits;
       r2q \<leftarrow> rsa_R2 q qBits;
       m \<leftarrow> bytes_to_bn bn_local hash 32;
       lut \<leftarrow> init_lut lut m p pBits r2p;
       m1 \<leftarrow> modExpLUT lut m dp pBits p pBits r2p bn_local;
       lut \<leftarrow> init_lut lut m q qBits r2q;
       m2 \<leftarrow> modExpLUT lut m dq qBits q qBits r2q bn_local;
       tmp \<leftarrow> rsa_combine p q qinv m1 m2;
       output \<leftarrow> bn_to_bytes tmp output RSA_KEY_BYTES;
       Some (lut, output)
     }"

section \<open>Bytes\<close>

fun le_val :: "u8 list \<Rightarrow> nat" where
  "le_val [] = 0"
| "le_val (b # bs) = unat b + 256 * le_val bs"

definition be_val :: "u8 list \<Rightarrow> nat" where
  "be_val bs = le_val (rev bs)"

lemma unat_u8_less: "unat (b :: u8) < 256"
proof -
  have "unat b < 2 ^ LENGTH(8)" by (rule unsigned_less)
  then show ?thesis by simp
qed

lemma le_val_append: "le_val (xs @ ys) = le_val xs + 256 ^ length xs * le_val ys"
  by (induction xs) (simp_all add: distrib_left)

lemma le_val_less: "le_val bs < 2 ^ (8 * length bs)"
proof (induction bs)
  case Nil
  then show ?case by simp
next
  case (Cons b bs)
  have "unat b + 256 * le_val bs < 256 * (le_val bs + 1)"
    using unat_u8_less [of b] by simp
  also have "\<dots> \<le> 256 * 2 ^ (8 * length bs)"
    using Cons by (intro mult_le_mono2) simp
  finally show ?case by (simp add: power_add)
qed

lemma be_val_less: "be_val bs < 2 ^ (8 * length bs)"
  using le_val_less [of "rev bs"] by (simp add: be_val_def)

lemma le_val_inject: "length xs = length ys \<Longrightarrow> le_val xs = le_val ys \<Longrightarrow> xs = ys"
proof (induction xs ys rule: list_induct2)
  case Nil
  then show ?case by simp
next
  case (Cons x xs y ys)
  have "unat x = (unat x + 256 * le_val xs) mod 256" using unat_u8_less [of x] by simp
  also have "\<dots> = (unat y + 256 * le_val ys) mod 256" using Cons.prems by simp
  also have "\<dots> = unat y" using unat_u8_less [of y] by simp
  finally have "x = y" by (simp add: word_unat_eq_iff)
  with Cons show ?case by simp
qed

text \<open>Setting bits of one word sets them in the value.\<close>

lemma bn_val_or_word:
  "w < length n \<Longrightarrow> bn_val (n[w := n ! w OR v]) = bn_val n OR push_bit (32 * w) (unat v)"
proof (rule bit_eqI)
  fix j
  assume w: "w < length n"
  have "bit (push_bit (32 * w) (unat v)) j \<longleftrightarrow> j div 32 = w \<and> bit v (j mod 32)"
  proof (cases "j div 32 = w")
    case True
    then have "j - 32 * w = j mod 32" "32 * w \<le> j" by (auto simp: minus_mult_div_eq_mod)
    with True show ?thesis by (simp add: bit_push_bit_iff bit_unsigned_iff)
  next
    case False
    have "\<not> (32 * w \<le> j \<and> bit v (j - 32 * w))"
      using False by (auto dest!: bit_imp_le_length)
    with False show ?thesis by (simp add: bit_push_bit_iff bit_unsigned_iff)
  qed
  then show "bit (bn_val (n[w := n ! w OR v])) j = bit (bn_val n OR push_bit (32 * w) (unat v)) j"
    using w by (auto simp: bit_bn_val bit_or_iff nth_list_update)
qed

lemma unat_shift_byte:
  assumes "s < 4"
  shows "unat (push_bit (8 * s) (ucast (b :: u8)) :: u32) = push_bit (8 * s) (unat b)"
proof -
  have "unat (ucast b :: u32) = unat b"
    using unat_u8_less [of b] by (simp add: unsigned_ucast_eq take_bit_eq_mod)
  moreover have "push_bit (8 * s) (unat b) < 2 ^ 32"
  proof -
    have "unat b * 2 ^ (8 * s) < 2 ^ 8 * 2 ^ (8 * s)" using unat_u8_less [of b] by simp
    also have "\<dots> = (2 :: nat) ^ (8 + 8 * s)" by (simp only: power_add)
    also have "\<dots> \<le> 2 ^ 32" using assms by (intro power_increasing) simp_all
    finally show ?thesis by (simp add: push_bit_eq_mult)
  qed
  ultimately show ?thesis
    by (simp add: unsigned_push_bit_eq take_bit_eq_mod)
qed

lemma or_high_part:
  fixes a b :: nat
  assumes "a < 2 ^ k"
  shows "a OR push_bit k b = a + 2 ^ k * b"
proof -
  have "a AND push_bit k b = 0"
  proof (rule bit_eqI)
    fix i
    have "take_bit k a = a" using assms by (simp add: take_bit_eq_mod)
    then have "bit a i \<Longrightarrow> i < k" by (metis bit_take_bit_iff)
    then show "bit (a AND push_bit k b) i = bit 0 i" by (auto simp: bit_and_iff bit_push_bit_iff)
  qed
  then show ?thesis by (simp add: push_bit_eq_mult mult.commute flip: disjunctive_add_eq_or)
qed

lemma bytes_to_bn_loop_spec:
  assumes "length inp = len" "len \<le> 4 * BN_ARRAY_SIZE" "bn_wf n" "k \<le> len"
    and "bn_val n = le_val (take k (rev inp))"
  shows "\<exists>r. bytes_to_bn_loop inp len [k..<len] n = Some r \<and> bn_wf r \<and> bn_val r = be_val inp"
  using assms
proof (induction "len - k" arbitrary: k n)
  case 0
  then show ?case by (simp add: be_val_def)
next
  case (Suc d)
  then have k: "k < len" "[k..<len] = k # [Suc k..<len]" by (simp_all add: upt_conv_Cons)
  let ?b = "inp ! (len - 1 - k)" and ?w = "k div 4" and ?s = "k mod 4"
  let ?n = "n[?w := n ! ?w OR push_bit (8 * ?s) (ucast ?b)]"
  have w: "?w < BN_ARRAY_SIZE" using k(1) assms(2) by (simp add: less_mult_imp_div_less)
  have step: "bytes_to_bn_loop inp len [k..<len] n = bytes_to_bn_loop inp len [Suc k..<len] ?n"
    using k(1) w assms(1) unfolding k(2) by (simp add: WORD_SIZE_def Let_def)
  have "32 * ?w + 8 * ?s = 8 * k" by presburger
  then have "bn_val ?n = bn_val n OR push_bit (8 * k) (unat ?b)"
    using w Suc.prems(3) by (simp add: bn_val_or_word bn_wf_def unat_shift_byte push_bit_push_bit)
  also have "\<dots> = le_val (take k (rev inp)) + 2 ^ (8 * k) * unat ?b"
    using le_val_less [of "take k (rev inp)"] k(1) assms(1) Suc.prems(5)
    by (subst or_high_part) (simp_all add: min_def)
  also have "\<dots> = le_val (take (Suc k) (rev inp))"
    using k(1) assms(1)
    by (simp add: take_Suc_conv_app_nth le_val_append rev_nth power_mult)
  finally show ?case
    unfolding step using Suc.hyps(1) [of "Suc k" ?n] Suc.hyps(2) Suc.prems k(1) by simp
qed

lemma bytes_to_bn_spec:
  assumes "bn_wf n" "length inp \<le> 4 * BN_ARRAY_SIZE"
  shows "\<exists>r. bytes_to_bn n inp (length inp) = Some r \<and> bn_wf r \<and> bn_val r = be_val inp"
  using bytes_to_bn_loop_spec [of inp "length inp" "replicate BN_ARRAY_SIZE 0" 0] assms
  by (simp add: bytes_to_bn_def)

lemma div_mod_32: "b < 32 \<Longrightarrow> (32 * a + b) div 32 = a \<and> (32 * a + b) mod 32 = b" for a b :: nat
  by simp

lemma word_byte:
  assumes "i < 4 * BN_ARRAY_SIZE" "bn_wf n"
  shows "unat (ucast (drop_bit (8 * (i mod 4)) (n ! (i div 4)) AND 0xFF) :: u8) = bn_val n div 256 ^ i mod 256"
proof -
  let ?w = "n ! (i div 4)"
  have "unat (ucast (drop_bit (8 * (i mod 4)) ?w AND 0xFF) :: u8) = take_bit 8 (unat (drop_bit (8 * (i mod 4)) ?w))"
    by (simp add: unsigned_ucast_eq unsigned_and_eq take_bit_eq_mask mask_numeral flip: take_bit_and and.assoc)
  also have "\<dots> = take_bit 8 (drop_bit (8 * i) (bn_val n))"
  proof (rule bit_eqI)
    fix j
    show "bit (take_bit 8 (unat (drop_bit (8 * (i mod 4)) ?w))) j = bit (take_bit 8 (drop_bit (8 * i) (bn_val n))) j"
    proof (cases "j < 8")
      case True
      then have j: "8 * (i mod 4) + j < 32" by presburger
      have "8 * i + j = 32 * (i div 4) + (8 * (i mod 4) + j)" by presburger
      note div_mod_32 [OF j, of "i div 4", folded this]
      then have "(8 * i + j) div 32 = i div 4" "(8 * i + j) mod 32 = 8 * (i mod 4) + j"
        by blast+
      moreover have "i div 4 < length n" using assms by (simp add: bn_wf_def less_mult_imp_div_less)
      ultimately show ?thesis
        using True j by (simp add: bit_take_bit_iff bit_drop_bit_eq bit_bn_val bit_unsigned_iff unat_drop_bit_eq)
    next
      case False
      then show ?thesis by (simp add: bit_take_bit_iff)
    qed
  qed
  also have "\<dots> = bn_val n div 256 ^ i mod 256"
    by (simp add: take_bit_eq_mod drop_bit_eq_div power_mult)
  finally show ?thesis .
qed

lemma bn_to_bytes_loop_spec:
  assumes "len \<le> 4 * BN_ARRAY_SIZE" "length out = len" "set is \<subseteq> {0..<len}"
  shows "\<exists>r. bn_to_bytes_loop n len is out = Some r \<and> length r = len \<and>
           (\<forall>j<len. r ! (len - 1 - j) =
              (if j \<in> set is then ucast (drop_bit (8 * (j mod 4)) (n ! (j div 4)) AND 0xFF)
               else out ! (len - 1 - j)))"
  using assms
proof (induction "is" arbitrary: out)
  case Nil
  then show ?case by simp
next
  case (Cons i "is")
  let ?o = "out[len - 1 - i := ucast (drop_bit (8 * (i mod 4)) (n ! (i div 4)) AND 0xFF)]"
  have i: "i < len" "i div 4 < BN_ARRAY_SIZE"
    using Cons.prems by (auto simp: less_mult_imp_div_less)
  have step: "bn_to_bytes_loop n len (i # is) out = bn_to_bytes_loop n len is ?o"
    using i Cons.prems(2) by (simp add: WORD_SIZE_def)
  have "\<forall>j<len. ?o ! (len - 1 - j) =
      (if j = i then ucast (drop_bit (8 * (i mod 4)) (n ! (i div 4)) AND 0xFF) else out ! (len - 1 - j))"
    using i(1) Cons.prems(2) by (auto simp: nth_list_update)
  then show ?case
    unfolding step using Cons.IH [of ?o] Cons.prems by auto
qed

lemma le_val_digits:
  assumes "length bs = len" "\<And>j. j < len \<Longrightarrow> unat (bs ! j) = v div 256 ^ j mod 256"
  shows "le_val bs = v mod 256 ^ len"
  using assms
proof (induction len arbitrary: bs)
  case 0
  then show ?case by simp
next
  case (Suc len)
  have "le_val (take len bs) = v mod 256 ^ len"
    using Suc.IH [of "take len bs"] Suc.prems by simp
  moreover have "bs = take len bs @ [bs ! len]"
    using Suc.prems(1) by (metis lessI order_refl take_Suc_conv_app_nth take_all)
  ultimately have "le_val bs = v mod 256 ^ len + 256 ^ len * (v div 256 ^ len mod 256)"
    using le_val_append [of "take len bs" "[bs ! len]"] Suc.prems by simp
  moreover have "v mod (256 ^ len * 256) = 256 ^ len * (v div 256 ^ len mod 256) + v mod 256 ^ len"
    by (rule mod_mult2_eq)
  ultimately show ?case by (simp add: mult.commute)
qed

lemma bn_to_bytes_spec:
  assumes "bn_wf n" "length out \<le> 4 * BN_ARRAY_SIZE"
  shows "\<exists>r. bn_to_bytes n out (length out) = Some r \<and> length r = length out \<and>
           be_val r = bn_val n mod 256 ^ length out"
proof -
  obtain r where r: "bn_to_bytes_loop n (length out) [0..<length out] out = Some r" "length r = length out"
    "\<forall>j<length out. r ! (length out - 1 - j) = ucast (drop_bit (8 * (j mod 4)) (n ! (j div 4)) AND 0xFF)"
    using bn_to_bytes_loop_spec [of "length out" out "[0..<length out]" n] assms(2) by auto
  have "le_val (rev r) = bn_val n mod 256 ^ length out"
  proof (rule le_val_digits)
    fix j assume "j < length out"
    then show "unat (rev r ! j) = bn_val n div 256 ^ j mod 256"
      using r(2,3) word_byte [of j n] assms by (simp add: rev_nth)
  qed (simp add: r(2))
  then show ?thesis using r by (simp add: bn_to_bytes_def be_val_def)
qed

section \<open>The signature\<close>

lemma hex_to_bn_key:
  assumes "lower_hex s \<and> length s = 8 * k" "0 < k" "k \<le> BN_ARRAY_SIZE"
  shows "\<exists>r. hex_to_bn bn_local s = Some r \<and> bn_wf r \<and> bn_val r = hex_val s"
proof -
  have "s \<noteq> []" using assms(1,2) by auto
  then show ?thesis
    using bignum_from_string_spec [of bn_local s] assms lower_hex_string [of s]
    by (auto simp: hex_to_bn_def)
qed

lemma hex_to_bn_384:
  "lower_hex s \<and> length s = 384 \<Longrightarrow> \<exists>r. hex_to_bn bn_local s = Some r \<and> bn_wf r \<and> bn_val r = hex_val s"
  using hex_to_bn_key [of s 48] by (simp add: BN_ARRAY_SIZE_97)

lemma hex_to_bn_768:
  "lower_hex s \<and> length s = 768 \<Longrightarrow> \<exists>r. hex_to_bn bn_local s = Some r \<and> bn_wf r \<and> bn_val r = hex_val s"
  using hex_to_bn_key [of s 96] by (simp add: BN_ARRAY_SIZE_97)

lemma pow2_1535: "(2 :: nat) ^ 1535 = 8 * 16 ^ 383"
proof -
  have "(2 :: nat) ^ (3 + 4 * 383) = 2 ^ 3 * (2 ^ 4) ^ 383" by (simp only: power_add power_mult)
  then show ?thesis by simp
qed

lemma bignum_numbits_1536:
  assumes "bn_wf m" "2 ^ 1535 \<le> bn_val m" "bn_val m < 2 ^ 1536"
  shows "bignum_numbits m = Some 1536"
proof -
  have "2 \<le> (2 :: nat) ^ 1535" by (rule order_trans [of _ "2 ^ 1"]) (simp, rule power_increasing, simp_all)
  then obtain k where k: "bignum_numbits m = Some k" "0 < k" "2 ^ (k - 1) \<le> bn_val m" "bn_val m < 2 ^ k"
    using bignum_numbits_value [OF assms(1)] assms(2) by auto
  have "(2 :: nat) ^ (k - 1) < 2 ^ 1536" "(2 :: nat) ^ 1535 < 2 ^ k" using k assms by linarith+
  then have "k - 1 < 1536" "1535 < k" by (simp_all only: power_strict_increasing_iff)
  with k show ?thesis by (simp add: le_antisym)
qed

lemma rsa_R2_spec:
  assumes "bn_wf m" "0 < bn_val m"
  shows "\<exists>r. rsa_R2 m 1536 = Some r \<and> bn_wf r \<and> bn_val r = (2 ^ 1536 * 2 ^ 1536) mod bn_val m"
proof -
  define R where "R = bignum_lshift (bignum_from_int bn_local 1) (bignum_from_int bn_local 1) 1536"
  have small: "(2 :: nat) ^ 1536 < bn_limit" "(2 :: nat) ^ (1536 + 1536) < bn_limit"
    by (simp_all add: BN_ARRAY_SIZE_97)
  have R: "bn_wf R" "bn_val R = 2 ^ 1536"
    using small(1) by (simp_all add: R_def bignum_lshift_value bignum_lshift_wf bignum_from_int_value)
  have "bn_val (bignum_mul R R bn_local) = 2 ^ 1536 * 2 ^ 1536"
    using R small(2) by (simp add: bignum_mul_value flip: power_add)
  then show ?thesis
    using bignum_mod_spec [of "bignum_mul R R bn_local" m bn_local] R(1) assms
    by (auto simp: rsa_R2_def Let_def R_def)
qed

text \<open>Garner's recombination, on values.\<close>

lemma crt_combine:
  fixes P Q I m1 m2 h s :: nat
  assumes "m1 < P" "m2 < Q" "Q < P" "(Q * I) mod P = 1"
    and "h = ((if m1 < m2 then m1 + P - m2 else m1 - m2) * I) mod P"
    and "s = m2 + h * Q"
  shows "s mod P = m1" "s mod Q = m2" "s < P * Q"
proof -
  let ?d = "if m1 < m2 then m1 + P - m2 else m1 - m2"
  have "(h * Q) mod P = (?d * I * Q) mod P" unfolding assms(5) by (rule mod_mult_left_eq)
  also have "\<dots> = (?d * (Q * I)) mod P" by (simp only: ac_simps)
  also have "\<dots> = (?d * ((Q * I) mod P)) mod P" by (simp only: mod_mult_right_eq)
  also have "\<dots> = ?d mod P" unfolding assms(4) by simp
  finally have hq: "(h * Q) mod P = ?d mod P" .
  have "s mod P = (m2 + (h * Q) mod P) mod P" unfolding assms(6) by (rule mod_add_right_eq [symmetric])
  also have "\<dots> = (m2 + ?d) mod P" unfolding hq by (rule mod_add_right_eq)
  also have "\<dots> = m1" using assms(1-3) by auto
  finally show "s mod P = m1" .
  show "s mod Q = m2" using assms(2,6) by simp
  have "0 < P" using assms(1) by simp
  then have "h < P" unfolding assms(5) by (rule mod_less_divisor)
  then have "h + 1 \<le> P" by simp
  then have "(h + 1) * Q \<le> P * Q" by (rule mult_le_mono1)
  then show "s < P * Q" using assms(2,6) by simp
qed

lemma rsa_combine_spec:
  assumes wf: "bn_wf p" "bn_wf q" "bn_wf qinv" "bn_wf m1" "bn_wf m2"
    and lt: "bn_val m1 < bn_val p" "bn_val m2 < bn_val q" "bn_val q < bn_val p"
    and size: "bn_val p < 2 ^ 1536" "bn_val qinv < 2 ^ 1536"
    and inv: "(bn_val q * bn_val qinv) mod bn_val p = 1"
  shows "\<exists>s. rsa_combine p q qinv m1 m2 = Some s \<and> bn_wf s \<and> bn_val s < bn_val p * bn_val q \<and>
           bn_val s mod bn_val p = bn_val m1 \<and> bn_val s mod bn_val q = bn_val m2"
proof -
  have L: "(2 :: nat) ^ 1536 + 2 ^ 1536 < bn_limit" "(2 :: nat) ^ 1536 * 2 ^ 1536 < bn_limit"
    unfolding mult_2 [symmetric] power_Suc [symmetric] power_add [symmetric]
    by (simp_all add: BN_ARRAY_SIZE_97)
  let ?d = "if bn_val m1 < bn_val m2 then bn_val m1 + bn_val p - bn_val m2 else bn_val m1 - bn_val m2"
  define h0 where "h0 = (if bignum_cmp m1 m2 = SMALLER
      then bignum_sub (bignum_add m1 p bn_local) m2 bn_local else bignum_sub m1 m2 bn_local)"
  have cmp: "bignum_cmp m1 m2 = SMALLER \<longleftrightarrow> bn_val m1 < bn_val m2"
    using wf by (simp add: bignum_cmp_value)
  have add: "bn_val (bignum_add m1 p bn_local) = bn_val m1 + bn_val p"
    using wf lt size L(1) by (simp add: bignum_add_value)
  have h0: "bn_wf h0" "bn_val h0 = ?d"
    using wf lt add by (simp_all add: h0_def cmp bignum_sub_value)
  have d: "?d < 2 ^ 1536" using lt size by (auto split: if_splits)
  define t1 where "t1 = bignum_mul h0 qinv bn_local"
  have "?d * bn_val qinv < 2 ^ 1536 * 2 ^ 1536" using d size(2) by (intro mult_strict_mono) simp_all
  then have t1: "bn_wf t1" "bn_val t1 = ?d * bn_val qinv"
    using h0 wf L(2) by (simp_all add: t1_def bignum_mul_value)
  obtain h where h: "bignum_mod t1 p h0 = Some h" "bn_wf h" "bn_val h = bn_val t1 mod bn_val p"
    using bignum_mod_spec [of t1 p h0] t1(1) wf h0(1) lt by auto
  define t2 where "t2 = bignum_mul h q t1"
  have hp: "bn_val h < bn_val p" unfolding h(3) using lt by simp
  note crt = crt_combine [OF lt inv h(3) [unfolded t1(2)], of "bn_val m2 + bn_val h * bn_val q", OF refl]
  have "bn_val p * bn_val q < 2 ^ 1536 * 2 ^ 1536" using lt size by (intro mult_strict_mono) simp_all
  then have sL: "bn_val m2 + bn_val h * bn_val q < bn_limit" using crt(3) L(2) by linarith
  then have t2: "bn_wf t2" "bn_val t2 = bn_val h * bn_val q"
    using h t1 wf by (simp_all add: t2_def bignum_mul_value)
  have s: "bn_wf (bignum_add m2 t2 t2)" "bn_val (bignum_add m2 t2 t2) = bn_val m2 + bn_val h * bn_val q"
    using t2 wf sL by (simp_all add: bignum_add_value)
  have "rsa_combine p q qinv m1 m2 = Some (bignum_add m2 t2 t2)"
    using h(1) by (simp add: rsa_combine_def Let_def t2_def t1_def h0_def)
  with s crt show ?thesis by simp
qed

definition key_bn :: "string \<Rightarrow> bn" where
  "key_bn s = the (hex_to_bn bn_local s)"

lemma key_bn_384:
  "lower_hex s \<and> length s = 384 \<Longrightarrow>
   hex_to_bn bn_local s = Some (key_bn s) \<and> bn_wf (key_bn s) \<and> bn_val (key_bn s) = hex_val s"
  using hex_to_bn_384 [of s] by (auto simp: key_bn_def)

lemmas key_bn_p = key_bn_384 [OF key_strings(2)]
lemmas key_bn_q = key_bn_384 [OF key_strings(3)]
lemmas key_bn_dp = key_bn_384 [OF key_strings(4)]
lemmas key_bn_dq = key_bn_384 [OF key_strings(5)]
lemmas key_bn_qinv = key_bn_384 [OF key_strings(6)]

lemma prime_modulus:
  assumes "bn_wf m" "odd (bn_val m)" "2 ^ 1535 \<le> bn_val m" "bn_val m < 2 ^ 1536"
  shows "mont_modulus m 1536" and "bignum_numbits m = Some 1536"
proof -
  have "4 * (2 :: nat) ^ 1536 = 2 ^ 1538" by (simp flip: power_Suc)
  also have "(2 :: nat) ^ 1538 < bn_limit" by (simp add: BN_ARRAY_SIZE_97)
  finally have "4 * bn_val m < bn_limit" using assms(4) by linarith
  moreover have "1 < bn_val m"
    using assms(3) by (rule less_le_trans [rotated]) simp
  ultimately show "mont_modulus m 1536"
    using assms by (simp add: mont_modulus_def BN_ARRAY_SIZE_97)
  show "bignum_numbits m = Some 1536" using assms by (simp add: bignum_numbits_1536)
qed

lemma key_p_top: "2 ^ 1535 \<le> hex_val hex_p"
  unfolding pow2_1535 using key_p_bounds(1) by (rule order_trans [rotated]) simp

lemma key_q_top: "2 ^ 1535 \<le> hex_val hex_q"
  unfolding pow2_1535 using key_q_bounds(1) by (rule order_trans [rotated]) simp

lemma key_p_modulus: "mont_modulus (key_bn hex_p) 1536" "bignum_numbits (key_bn hex_p) = Some 1536"
  using prime_modulus [of "key_bn hex_p"] key_bn_p key_odd(1) key_p_top key_less(1) by auto

lemma key_q_modulus: "mont_modulus (key_bn hex_q) 1536" "bignum_numbits (key_bn hex_q) = Some 1536"
  using prime_modulus [of "key_bn hex_q"] key_bn_q key_odd(2) key_q_top key_less(2) by auto

text \<open>The two moduli of the key meet the contract of the exponentiation.\<close>

interpretation mont_p: mont_bn "key_bn hex_p" 1536
  by unfold_locales (use key_p_modulus key_bn_p key_less in auto)

interpretation mont_q: mont_bn "key_bn hex_q" 1536
  by unfold_locales (use key_q_modulus key_bn_q key_less in auto)

definition lut_ok :: "bn list \<Rightarrow> bool" where
  "lut_ok lut \<longleftrightarrow> length lut = LUT_SIZE \<and> list_all bn_wf lut"

lemma hash_less_prime: "length hash = 32 \<Longrightarrow> be_val hash < 2 ^ 1536"
  using be_val_less [of hash] by (rule less_le_trans) (simp add: power_increasing)

lemma rsa_exp_p:
  assumes "lut_ok lut" "bn_wf m" "bn_val m < 2 ^ 1536" "bn_wf r2p"
    and "bn_val r2p = (2 ^ 1536 * 2 ^ 1536) mod hex_val hex_p"
  shows "\<exists>lut' m1. init_lut lut m (key_bn hex_p) 1536 r2p = Some lut' \<and> lut_ok lut' \<and>
           modExpLUT lut' m (key_bn hex_dp) 1536 (key_bn hex_p) 1536 r2p bn_local = Some m1 \<and>
           bn_wf m1 \<and> bn_val m1 = bn_val m ^ hex_val hex_dp mod hex_val hex_p"
proof -
  obtain lut' where lut': "init_lut lut m (key_bn hex_p) 1536 r2p = Some lut'" "length lut' = length lut"
    "lut_powers (key_bn hex_p) 1536 (bn_val m) (1536 + 1) lut'"
    using mont_p.init_lut_spec [of lut m r2p] assms key_bn_p by (auto simp: lut_ok_def LUT_SIZE_def)
  have "hex_val hex_dp mod 2 ^ 1536 = hex_val hex_dp" using key_less(3) by simp
  then obtain m1 where "modExpLUT lut' m (key_bn hex_dp) 1536 (key_bn hex_p) 1536 r2p bn_local = Some m1"
    "bn_wf m1" "bn_val m1 = bn_val m ^ hex_val hex_dp mod hex_val hex_p"
    using mont_p.modExpLUT_spec [of "key_bn hex_dp" r2p bn_local 1536 "bn_val m" lut' m]
      lut'(3) assms key_bn_p key_bn_dp by (auto simp: BN_ARRAY_SIZE_97)
  with lut' assms(1) show ?thesis by (auto simp: lut_ok_def lut_powers_def)
qed

lemma rsa_exp_q:
  assumes "lut_ok lut" "bn_wf m" "bn_val m < 2 ^ 1536" "bn_wf r2q"
    and "bn_val r2q = (2 ^ 1536 * 2 ^ 1536) mod hex_val hex_q"
  shows "\<exists>lut' m2. init_lut lut m (key_bn hex_q) 1536 r2q = Some lut' \<and> lut_ok lut' \<and>
           modExpLUT lut' m (key_bn hex_dq) 1536 (key_bn hex_q) 1536 r2q bn_local = Some m2 \<and>
           bn_wf m2 \<and> bn_val m2 = bn_val m ^ hex_val hex_dq mod hex_val hex_q"
proof -
  obtain lut' where lut': "init_lut lut m (key_bn hex_q) 1536 r2q = Some lut'" "length lut' = length lut"
    "lut_powers (key_bn hex_q) 1536 (bn_val m) (1536 + 1) lut'"
    using mont_q.init_lut_spec [of lut m r2q] assms key_bn_q by (auto simp: lut_ok_def LUT_SIZE_def)
  have "hex_val hex_dq mod 2 ^ 1536 = hex_val hex_dq" using key_less(4) by simp
  then obtain m2 where "modExpLUT lut' m (key_bn hex_dq) 1536 (key_bn hex_q) 1536 r2q bn_local = Some m2"
    "bn_wf m2" "bn_val m2 = bn_val m ^ hex_val hex_dq mod hex_val hex_q"
    using mont_q.modExpLUT_spec [of "key_bn hex_dq" r2q bn_local 1536 "bn_val m" lut' m]
      lut'(3) assms key_bn_q key_bn_dq by (auto simp: BN_ARRAY_SIZE_97)
  with lut' assms(1) show ?thesis by (auto simp: lut_ok_def lut_powers_def)
qed

lemma rsa_sign_spec:
  assumes "length (sha hash inp (input_len div 64)) = 32" "lut_ok lut" "length output = RSA_KEY_BYTES"
  shows "\<exists>lut' sig. rsa_sign sha hash lut inp output input_len = Some (lut', sig) \<and> lut_ok lut' \<and>
           length sig = RSA_KEY_BYTES \<and> be_val sig < hex_val hex_n \<and>
           be_val sig mod hex_val hex_p =
             be_val (sha hash inp (input_len div 64)) ^ hex_val hex_dp mod hex_val hex_p \<and>
           be_val sig mod hex_val hex_q =
             be_val (sha hash inp (input_len div 64)) ^ hex_val hex_dq mod hex_val hex_q"
proof -
  let ?h = "sha hash inp (input_len div 64)"
  have pos: "0 < hex_val hex_p" "0 < hex_val hex_q" using key_odd by (auto intro!: Nat.gr0I)
  obtain r2p where r2p: "rsa_R2 (key_bn hex_p) 1536 = Some r2p" "bn_wf r2p"
    "bn_val r2p = (2 ^ 1536 * 2 ^ 1536) mod hex_val hex_p"
    using rsa_R2_spec [of "key_bn hex_p"] key_bn_p pos by auto
  obtain r2q where r2q: "rsa_R2 (key_bn hex_q) 1536 = Some r2q" "bn_wf r2q"
    "bn_val r2q = (2 ^ 1536 * 2 ^ 1536) mod hex_val hex_q"
    using rsa_R2_spec [of "key_bn hex_q"] key_bn_q pos by auto
  obtain m where m: "bytes_to_bn bn_local ?h 32 = Some m" "bn_wf m" "bn_val m = be_val ?h"
    using bytes_to_bn_spec [of bn_local ?h] assms(1) by (auto simp: BN_ARRAY_SIZE_97)
  have mless: "bn_val m < 2 ^ 1536" using hash_less_prime [OF assms(1)] by (simp add: m(3))
  obtain l1 m1 where p: "init_lut lut m (key_bn hex_p) 1536 r2p = Some l1" "lut_ok l1"
    "modExpLUT l1 m (key_bn hex_dp) 1536 (key_bn hex_p) 1536 r2p bn_local = Some m1"
    "bn_wf m1" "bn_val m1 = bn_val m ^ hex_val hex_dp mod hex_val hex_p"
    using rsa_exp_p [OF assms(2) m(2) mless r2p(2,3)] by blast
  obtain l2 m2 where q: "init_lut l1 m (key_bn hex_q) 1536 r2q = Some l2" "lut_ok l2"
    "modExpLUT l2 m (key_bn hex_dq) 1536 (key_bn hex_q) 1536 r2q bn_local = Some m2"
    "bn_wf m2" "bn_val m2 = bn_val m ^ hex_val hex_dq mod hex_val hex_q"
    using rsa_exp_q [OF p(2) m(2) mless r2q(2,3)] by blast
  have "(hex_val hex_q * hex_val hex_qinv) mod hex_val hex_p = 1 mod hex_val hex_p"
    unfolding key_qinv by (simp only: mod_mult_self3)
  then have inv: "(hex_val hex_q * hex_val hex_qinv) mod hex_val hex_p = 1"
    using key_p_modulus(1) key_bn_p by (simp add: mont_modulus_def)
  obtain s where s: "rsa_combine (key_bn hex_p) (key_bn hex_q) (key_bn hex_qinv) m1 m2 = Some s" "bn_wf s"
    "bn_val s < hex_val hex_p * hex_val hex_q"
    "bn_val s mod hex_val hex_p = bn_val m1" "bn_val s mod hex_val hex_q = bn_val m2"
    using rsa_combine_spec [of "key_bn hex_p" "key_bn hex_q" "key_bn hex_qinv" m1 m2]
      key_bn_p key_bn_q key_bn_qinv key_less key_order inv p(4,5) q(4,5) pos by auto
  have "hex_val hex_p * hex_val hex_q < 2 ^ 1536 * 2 ^ 1536"
    using key_less(1,2) by (intro mult_strict_mono) simp_all
  moreover have "(2 :: nat) ^ 1536 * 2 ^ 1536 = 256 ^ 384"
    using power_add [of "2 :: nat" 1536 1536] power_mult [of "2 :: nat" 8 384] by simp
  ultimately have slt: "bn_val s < 256 ^ 384" using s(3) by linarith
  obtain sig where sig: "bn_to_bytes s output RSA_KEY_BYTES = Some sig" "length sig = RSA_KEY_BYTES"
    "be_val sig = bn_val s mod 256 ^ RSA_KEY_BYTES"
    using bn_to_bytes_spec [of s "output"] s(2) assms(3)
    by (auto simp: RSA_KEY_BYTES_def RSA_KEY_BITS_def BN_ARRAY_SIZE_97)
  obtain n where n: "hex_to_bn bn_local hex_n = Some n" using hex_to_bn_768 key_strings(1) by blast
  have "rsa_sign sha hash lut inp output input_len = Some (l2, sig)"
    unfolding rsa_sign_def Let_def
    by (simp add: n key_bn_p key_bn_q key_bn_dp key_bn_dq key_bn_qinv key_p_modulus(2) key_q_modulus(2)
        r2p(1) r2q(1) m(1) p(1,3) q(1,3) s(1) sig(1))
  moreover have "be_val sig = bn_val s"
    using slt by (simp add: sig(3) RSA_KEY_BYTES_def RSA_KEY_BITS_def)
  ultimately show ?thesis
    using q(2) sig(2) s(3-5) p(5) q(5) m(3) key_modulus by auto
qed

end
