(* ===== verification/Rsa_Correctness.thy ===== *)
theory Rsa_Correctness
  imports Rsa_Sign
begin

text \<open>
  The properties of the signer under src/tetd_x86/s4, over the specifications proved in the
  component theories. A witness applies a property to small big numbers, made by
  \<open>bignum_from_int\<close>.
\<close>

section \<open>Concrete big numbers\<close>

abbreviation bn_of :: "u64 \<Rightarrow> bn" where
  "bn_of k \<equiv> bignum_from_int bn_local k"

lemma bn_of_value [simp]: "bn_val (bn_of k) = unat k"
  by (simp add: bignum_from_int_value)

lemma less_bn_limit: "x < 2 ^ 64 \<Longrightarrow> x < (bn_limit :: nat)"
proof -
  have "(2 :: nat) ^ 64 \<le> bn_limit" unfolding BN_ARRAY_SIZE_97 by (rule power_increasing) simp_all
  then show "x < 2 ^ 64 \<Longrightarrow> x < bn_limit" by linarith
qed

lemma less_bn_half_limit: "x < 2 ^ 64 \<Longrightarrow> x < (bn_half_limit :: nat)"
proof -
  have "(2 :: nat) ^ 64 \<le> bn_half_limit" unfolding BN_ARRAY_SIZE_97 by (rule power_increasing) simp_all
  then show "x < 2 ^ 64 \<Longrightarrow> x < bn_half_limit" by linarith
qed

lemma bn_wf_eqI: "bn_wf r \<Longrightarrow> bn_wf s \<Longrightarrow> bn_val r = bn_val s \<Longrightarrow> r = s"
  by (rule bn_val_inject) (simp_all add: bn_wf_def)

section \<open>The signature\<close>

text \<open>
  C1: For every message whose compression yields a 32-byte hash, \<open>rsa_sign\<close> returns, no access
  leaves its arrays, and the 384 bytes it writes are the big-endian number below the modulus that is
  \<open>h ^ dp\<close> modulo \<open>p\<close> and \<open>h ^ dq\<close> modulo \<open>q\<close> for the hash
  \<open>h\<close>: the CRT form of \<open>h ^ d mod n\<close>.
\<close>

theorem rsa_sign_correct:
  assumes "length (sha hash inp (input_len div 64)) = 32" "lut_ok lut" "length output = RSA_KEY_BYTES"
  shows "\<exists>lut' sig. rsa_sign sha hash lut inp output input_len = Some (lut', sig) \<and> lut_ok lut' \<and>
           length sig = RSA_KEY_BYTES \<and> be_val sig < hex_val hex_n \<and>
           be_val sig mod hex_val hex_p =
             be_val (sha hash inp (input_len div 64)) ^ hex_val hex_dp mod hex_val hex_p \<and>
           be_val sig mod hex_val hex_q =
             be_val (sha hash inp (input_len div 64)) ^ hex_val hex_dq mod hex_val hex_q"
  using rsa_sign_spec [of sha hash inp input_len lut "output"] assms by blast

theorem rsa_sign_correct_witness:
  "\<exists>lut' sig. rsa_sign (\<lambda>_ _ _. replicate 32 7) (replicate 32 0) (replicate LUT_SIZE bn_local)
       (replicate 64 1) (replicate RSA_KEY_BYTES 0) 64 = Some (lut', sig) \<and> length sig = RSA_KEY_BYTES"
  using rsa_sign_correct [of "\<lambda>_ _ _. replicate 32 7" "replicate 32 0" "replicate 64 1" 64
      "replicate LUT_SIZE bn_local" "replicate RSA_KEY_BYTES 0"]
  by (auto simp: lut_ok_def list_all_iff)

text \<open>
  The key constants of sign_main.c belong together: \<open>p q = n\<close>, \<open>qinv\<close> inverts
  \<open>q\<close> modulo \<open>p\<close>, and \<open>dp\<close>, \<open>dq\<close> invert the exponent 65537 modulo \<open>p - 1\<close> and
  \<open>q - 1\<close>; both primes are odd numbers of 1536 bits with \<open>q < p\<close>.
\<close>

theorem rsa_key_consistent:
  "hex_val hex_p * hex_val hex_q = hex_val hex_n \<and>
   (hex_val hex_q * hex_val hex_qinv) mod hex_val hex_p = 1 \<and>
   (65537 * hex_val hex_dp) mod (hex_val hex_p - 1) = 1 \<and>
   (65537 * hex_val hex_dq) mod (hex_val hex_q - 1) = 1 \<and>
   odd (hex_val hex_p) \<and> odd (hex_val hex_q) \<and> hex_val hex_q < hex_val hex_p \<and>
   hex_val hex_p < 2 ^ 1536 \<and> 2 ^ 1535 \<le> hex_val hex_q"
proof -
  have "1 < hex_val hex_p" using key_p_top by (rule less_le_trans [rotated]) simp
  then have "(hex_val hex_q * hex_val hex_qinv) mod hex_val hex_p = 1"
    unfolding key_qinv using mod_one_plus [of "hex_val hex_p" "hex_val hex_qinv_quotient"] by (simp only: add.commute)
  then show ?thesis using key_modulus key_dp key_dq key_odd key_order key_less key_q_top by simp
qed

section \<open>Montgomery arithmetic\<close>

text \<open>
  C33: \<open>montMult\<close> returns a reduced number that is \<open>x y / 2 ^ mBits\<close> modulo an odd
  modulus, for a reduced \<open>y\<close>; the top bits of \<open>x\<close> beyond \<open>mBits\<close> are ignored.
\<close>

theorem montMult_correct:
  assumes "mont_modulus m mBits" "bn_wf x" "bn_wf y" "bn_wf out" "bn_val y < bn_val m"
  shows "\<exists>r. montMult x y m mBits out = Some r \<and> bn_wf r \<and> bn_val r < bn_val m \<and>
           (2 ^ mBits * bn_val r) mod bn_val m = (bn_val x mod 2 ^ mBits * bn_val y) mod bn_val m"
  by (rule montMult_spec [OF assms])

lemma mont_modulus_small:
  assumes "odd (unat k)" "1 < unat k" "unat k < 2 ^ 62" "mBits \<le> 64"
  shows "mont_modulus (bn_of k) mBits"
  using assms less_bn_limit [of "4 * unat k"] by (simp add: mont_modulus_def BN_ARRAY_SIZE_97)

theorem montMult_correct_witness:
  "\<exists>r. montMult (bn_of 5) (bn_of 6) (bn_of 7) 3 bn_local = Some r \<and> (8 * bn_val r) mod 7 = 2"
  using montMult_correct [OF mont_modulus_small [of 7 3], of "bn_of 5" "bn_of 6" bn_local] by auto

text \<open>
  C34: The table-driven exponentiation equals the plain one: after \<open>init_lut\<close> has stored the
  repeated squares of \<open>x\<close>, \<open>modExpLUT\<close> and \<open>modExp\<close> return the same number, which is
  \<open>x\<close> to the exponent's low \<open>eBits\<close> bits modulo \<open>m\<close>.
\<close>

theorem modExpLUT_modExp:
  assumes m: "mont_modulus m mBits" "bn_val m < 2 ^ mBits"
    and x: "bn_wf x" "bn_val x < 2 ^ mBits" and e: "bn_wf e" "eBits \<le> mBits"
    and r2: "bn_wf r2m" "bn_val r2m = (2 ^ mBits * 2 ^ mBits) mod bn_val m"
    and lut: "list_all bn_wf lut" "mBits < length lut" and out: "bn_wf out"
  shows "\<exists>lut' r. init_lut lut x m mBits r2m = Some lut' \<and>
           modExpLUT lut' x e eBits m mBits r2m out = Some r \<and>
           modExp x e eBits m mBits r2m out = Some r \<and>
           bn_val r = bn_val x ^ (bn_val e mod 2 ^ eBits) mod bn_val m"
proof -
  have M: "mont_bn m mBits" using m by (simp add: mont_bn_def)
  have k: "eBits \<le> 32 * BN_ARRAY_SIZE" using e m by (simp add: mont_modulus_def)
  obtain lut' where l: "init_lut lut x m mBits r2m = Some lut'" "lut_powers m mBits (bn_val x) (mBits + 1) lut'"
    using mont_bn.init_lut_spec [OF M lut x r2] by blast
  then have "lut_powers m mBits (bn_val x) (eBits + 1) lut'" using e by (simp add: lut_powers_def)
  then obtain r1 where r1: "modExpLUT lut' x e eBits m mBits r2m out = Some r1" "bn_wf r1"
      "bn_val r1 = bn_val x ^ (bn_val e mod 2 ^ eBits) mod bn_val m"
    using mont_bn.modExpLUT_spec [OF M e(1) r2(1) out k _ r2(2)] by blast
  obtain r2 where r2: "modExp x e eBits m mBits r2m out = Some r2" "bn_wf r2"
      "bn_val r2 = bn_val x ^ (bn_val e mod 2 ^ eBits) mod bn_val m"
    using mont_bn.modExp_spec [OF M x(1) e(1) r2(1) out x(2) k r2(2)] by blast
  have "r2 = r1" using r1(2,3) r2(2,3) by (simp add: bn_wf_eqI)
  with l r1 r2 show ?thesis by blast
qed

theorem modExpLUT_modExp_witness:
  "\<exists>r. modExp (bn_of 3) (bn_of 5) 3 (bn_of 7) 3 (bn_of 1) bn_local = Some r \<and> bn_val r = 5"
  using modExpLUT_modExp [OF mont_modulus_small [of 7 3], of "bn_of 3" "bn_of 5" 3 "bn_of 1"
      "replicate 4 bn_local" bn_local]
  by (auto simp: list_all_iff)

section \<open>Bytes and strings\<close>

text \<open>
  Writing a number that fits to big-endian bytes and reading them back gives the number.
\<close>

theorem bn_bytes_roundtrip:
  assumes "bn_wf n" "bn_wf c" "length out \<le> 4 * BN_ARRAY_SIZE" "bn_val n < 256 ^ length out"
  shows "\<exists>bs. bn_to_bytes n out (length out) = Some bs \<and> bytes_to_bn c bs (length bs) = Some n"
proof -
  obtain bs where b: "bn_to_bytes n out (length out) = Some bs" "length bs = length out" "be_val bs = bn_val n"
    using bn_to_bytes_spec [OF assms(1,3)] assms(4) by auto
  then show ?thesis using bytes_to_bn_spec [of c bs] assms by (metis bn_wf_eqI)
qed

theorem bn_bytes_roundtrip_witness:
  "\<exists>bs. bn_to_bytes (bn_of 258) (replicate 3 0) 3 = Some bs \<and> bytes_to_bn bn_local bs (length bs) = Some (bn_of 258)"
  using bn_bytes_roundtrip [of "bn_of 258" bn_local "replicate 3 0"] by (simp add: BN_ARRAY_SIZE_97)

text \<open>
  Parsing a hexadecimal string yields the value of the string without its first
  \<open>length mod 8\<close> digits, which the loop in steps of eight never reaches.
\<close>

theorem bignum_from_string_value:
  assumes "bn_wf n" "hex_string str" "str \<noteq> []" "even (length str)" "length str div 8 \<le> BN_ARRAY_SIZE"
  shows "\<exists>n'. bignum_from_string n str (int (length str)) = Some n' \<and> bn_wf n' \<and>
           bn_val n' = hex_val (drop (length str mod 8) str)"
  by (rule bignum_from_string_spec [OF assms])

theorem bignum_from_string_value_witness:
  "\<exists>n'. bignum_from_string bn_local hex_e (int (length hex_e)) = Some n' \<and> bn_val n' = 0"
  using bignum_from_string_value [of bn_local hex_e]
  by (auto simp: hex_e_def hex_digit_def Let_def)

text \<open>
  Printing fails exactly when the top digit is not zero, where the move of the string would
  write one byte past the buffer; otherwise it leaves the digits without leading zeros.
\<close>

theorem bignum_to_string_digits:
  assumes "bn_wf n" "even (length buf)" "8 * BN_ARRAY_SIZE < length buf"
  shows "if hd (hex_digits n) = CHR ''0''
         then \<exists>r. bignum_to_string n buf (length buf) = Some r \<and> length r = length buf \<and>
                c_string r = dropWhile (\<lambda>c. c = CHR ''0'') (hex_digits n)
         else bignum_to_string n buf (length buf) = None"
  using bignum_to_string_spec [OF assms] by (auto split: if_splits)

theorem bignum_to_string_digits_witness:
  "\<exists>r. bignum_to_string (bn_of 26) (replicate 800 CHR ''?'') 800 = Some r \<and> c_string r = ''1a''"
proof -
  have "length (replicate 800 CHR ''?'') = 800" by (rule length_replicate)
  moreover have "hd (hex_digits (bn_of 26)) = CHR ''0''" 
    "dropWhile (\<lambda>c. c = CHR ''0'') (hex_digits (bn_of 26)) = ''1a''"
    by code_simp+
  ultimately show ?thesis
    using bignum_to_string_digits [of "bn_of 26" "replicate 800 CHR ''?''"]
    by (simp add: BN_ARRAY_SIZE_97) blast
qed

text \<open>
  Parsing the full-width digits of a number gives the number back.
\<close>

theorem bn_string_roundtrip:
  assumes "bn_wf n" "bn_wf c"
  shows "bignum_from_string c (hex_digits n) (int (length (hex_digits n))) = Some n"
proof -
  have len: "length (hex_digits n) = 8 * BN_ARRAY_SIZE"
    using assms(1) by (simp add: hex_digits_def length_concat_hex8 bn_wf_def)
  then have ne: "hex_digits n \<noteq> []" by (auto simp: BN_ARRAY_SIZE_97)
  have "\<exists>n'. bignum_from_string c (hex_digits n) (int (length (hex_digits n))) = Some n' \<and> bn_wf n' \<and>
      bn_val n' = bn_val n"
    using bignum_from_string_spec [OF assms(2) _ ne] hex_digits_value [of n] len by simp
  then show ?thesis using assms(1) bn_wf_eqI by metis
qed

theorem bn_string_roundtrip_witness:
  "bignum_from_string bn_local (hex_digits (bn_of 26)) (int (length (hex_digits (bn_of 26)))) = Some (bn_of 26)"
  by (rule bn_string_roundtrip) simp_all

section \<open>Arithmetic\<close>

text \<open>
  Addition and multiplication are exact modulo the width of 3104 bits, and subtracting an operand
  from the sum gives the other operand back, also when the sum has wrapped.
\<close>

theorem bignum_add_sub_mul:
  assumes "bn_wf a" "bn_wf b" "bn_wf c" "bn_wf d"
  shows "bn_val (bignum_add a b c) = (bn_val a + bn_val b) mod bn_limit \<and>
         bn_wf (bignum_mul a b c) \<and> bn_val (bignum_mul a b c) = (bn_val a * bn_val b) mod bn_limit \<and>
         bignum_sub (bignum_add a b c) b d = a"
proof -
  let ?L = "bn_limit"
  have lt: "bn_val a < ?L" "bn_val b < ?L" using assms bn_val_limit by auto
  have "bn_val (bignum_sub (bignum_add a b c) b d) = ((bn_val a + bn_val b) mod ?L + (?L - bn_val b)) mod ?L"
    using assms by (simp only: bignum_sub_value_mod bignum_add_wf bignum_add_value)
  also have "\<dots> = (bn_val a + bn_val b + (?L - bn_val b)) mod ?L" by (simp only: mod_add_left_eq)
  also have "bn_val a + bn_val b + (?L - bn_val b) = bn_val a + ?L" using lt by linarith
  also have "(bn_val a + ?L) mod ?L = bn_val a" using lt by (simp only: mod_add_self2 mod_less)
  finally have "bignum_sub (bignum_add a b c) b d = a" using assms by (simp add: bn_wf_eqI)
  then show ?thesis using assms by (simp add: bignum_add_value bignum_mul_value)
qed

theorem bignum_add_sub_mul_witness:
  "bn_val (bignum_add (bn_of 7) (bn_of 5) bn_local) = 12 mod bn_limit \<and>
   bn_val (bignum_mul (bn_of 7) (bn_of 5) bn_local) = 35 mod bn_limit \<and>
   bignum_sub (bignum_add (bn_of 7) (bn_of 5) bn_local) (bn_of 5) bn_local = bn_of 7"
  using bignum_add_sub_mul [of "bn_of 7" "bn_of 5" bn_local bn_local] by simp

text \<open>
  C40: Division with remainder returns for every divisor but zero, with the Euclidean
  quotient and remainder; for zero the division never returns, since the loop that scales the divisor up has no other exit.
\<close>

theorem bignum_divmod_correct:
  assumes "bn_wf a" "bn_wf b" "bn_wf c" "bn_wf d"
  shows "if bn_val b = 0 then bignum_div a b c = None
         else \<exists>q r. bignum_divmod a b c d = Some (q, r) \<and> bn_wf q \<and> bn_wf r \<and>
           bn_val a = bn_val q * bn_val b + bn_val r \<and> bn_val r < bn_val b"
proof (cases "bn_val b = 0")
  case True
  then show ?thesis using bignum_div_by_zero [OF assms(1,2)] by simp
next
  case False
  then show ?thesis using bignum_divmod_spec [OF assms] by simp (metis div_mult_mod_eq mod_less_divisor)
qed

theorem bignum_divmod_correct_witness:
  "(\<exists>q r. bignum_divmod (bn_of 17) (bn_of 5) bn_local bn_local = Some (q, r) \<and> 17 = bn_val q * 5 + bn_val r \<and> bn_val r < 5) \<and>
   bignum_div (bn_of 17) (bn_of 0) bn_local = None"
  using bignum_divmod_correct [of "bn_of 17" "bn_of 5" bn_local bn_local]
    bignum_divmod_correct [of "bn_of 17" "bn_of 0" bn_local bn_local] by auto

text \<open>
  Exponentiation returns for every exponent, destroys it, and is exact modulo the width.
\<close>

theorem bignum_pow_correct:
  assumes "bn_wf a" "bn_wf b" "bn_wf c"
  shows "\<exists>b' r. bignum_pow a b c = Some (b', r) \<and> bn_wf r \<and> bn_val b' = 0 \<and>
           bn_val r = bn_val a ^ bn_val b mod bn_limit"
  using bignum_pow_spec [OF assms] by blast

theorem bignum_pow_correct_witness:
  "\<exists>b' r. bignum_pow (bn_of 2) (bn_of 10) bn_local = Some (b', r) \<and> bn_val r = 1024 mod bn_limit"
  using bignum_pow_correct [of "bn_of 2" "bn_of 10" bn_local] by auto

text \<open>
  The integer square root returns the floor of the root for every number below half the
  width, whatever the uninitialised \<open>mid\<close> holds, as long as its square fits, with one exception: for 1 it returns 0.
\<close>

theorem bignum_isqrt_floor:
  assumes "bn_wf mid0" "bn_wf a" "bn_wf b" "bn_val a < bn_half_limit" "bn_val mid0 + 1 < bn_half_limit"
  shows "\<exists>r. bignum_isqrt mid0 a b = Some r \<and>
           (if bn_val a = 1 then bn_val r = 0
            else bn_wf r \<and> bn_val r * bn_val r \<le> bn_val a \<and> bn_val a < (bn_val r + 1) * (bn_val r + 1))"
  using bignum_isqrt_spec [OF assms] bignum_isqrt_one [OF assms(1-3)] by (cases "bn_val a = 1") auto

theorem bignum_isqrt_floor_witness:
  "(\<exists>r. bignum_isqrt (bn_of 99) (bn_of 17) bn_local = Some r \<and> bn_val r * bn_val r \<le> 17 \<and>
     17 < (bn_val r + 1) * (bn_val r + 1)) \<and>
   (\<exists>r. bignum_isqrt (bn_of 99) (bn_of 1) bn_local = Some r \<and> bn_val r = 0)"
  using bignum_isqrt_floor [of "bn_of 99" "bn_of 17" bn_local] bignum_isqrt_floor [of "bn_of 99" "bn_of 1" bn_local]
    less_bn_half_limit [of 17] less_bn_half_limit [of 100] less_bn_half_limit [of 1]
  by auto

section \<open>Order, bits and shifts\<close>

text \<open>
  The comparison is the order of the values.
\<close>

theorem bignum_cmp_order:
  assumes "bn_wf a" "bn_wf b"
  shows "(bignum_cmp a b = LARGER \<longleftrightarrow> bn_val b < bn_val a) \<and>
         (bignum_cmp a b = SMALLER \<longleftrightarrow> bn_val a < bn_val b) \<and> (bignum_cmp a b = EQUAL \<longleftrightarrow> a = b)"
  using assms bn_wf_eqI by (auto simp: bignum_cmp_value)

theorem bignum_cmp_order_witness: "bignum_cmp (bn_of 5) (bn_of 7) = SMALLER"
  using bignum_cmp_order [of "bn_of 5" "bn_of 7"] by simp

text \<open>
  The optimised routines compute what the plain ones kept beside them in comments do: the
  unrolled \<open>bignum_init\<close>, \<open>bignum_assign\<close> and \<open>bignum_add\<close>, and the shifting
  \<open>bignum_getbit\<close>.
\<close>

theorem bignum_unrolled_equal:
  assumes "bn_wf n" "bn_wf src"
  shows "bignum_init_unopt n = bignum_init n \<and> bignum_assign_unopt n src = bignum_assign n src \<and>
         bignum_add_unopt a b c = bignum_add a b c \<and> bignum_getbit_unopt x k = bignum_getbit x k"
  using assms by (simp add: bignum_init_unopt_eq bignum_assign_unopt_eq bignum_add_unopt_eq bignum_getbit_unopt_eq
      del: bignum_init_value bignum_assign_value)

theorem bignum_unrolled_equal_witness: "bignum_assign_unopt bn_local (bn_of 5) = bignum_assign bn_local (bn_of 5)"
  using bignum_unrolled_equal [of bn_local "bn_of 5"] by simp

text \<open>
  The bit count is that of the plain routine for every number but 1, of which
  the optimised one says 0 bits; it is the position of the top bit.
\<close>

theorem bignum_numbits_correct:
  assumes "bn_wf a"
  shows "\<exists>k. bignum_numbits a = Some k \<and>
           bignum_numbits_unopt a = Some (if bn_val a = 1 then 1 else k) \<and>
           (if bn_val a < 2 then k = 0 else 0 < k \<and> 2 ^ (k - 1) \<le> bn_val a \<and> bn_val a < 2 ^ k)"
  using bignum_numbits_value [OF assms] bignum_numbits_unopt_eq [OF assms] by fastforce

theorem bignum_numbits_correct_witness:
  "bignum_numbits (bn_of 1) = Some 0 \<and> bignum_numbits_unopt (bn_of 1) = Some 1"
  using bignum_numbits_correct [of "bn_of 1"] by auto

text \<open>
  A shift to the left is exact modulo the width for every count. A shift to the right divides by the power of two
  for counts below 32; for larger counts it shifts by one word only and keeps as many words as it should have dropped.
\<close>

theorem bignum_shifts:
  assumes "bn_wf a" "bn_wf b"
  shows "bn_wf (bignum_lshift a b nbits) \<and> bn_val (bignum_lshift a b nbits) = (bn_val a * 2 ^ nbits) mod bn_limit \<and>
    (nbits < 32 * BN_ARRAY_SIZE \<longrightarrow>
       (\<exists>r. bignum_rshift a b nbits = Some r \<and> bn_wf r \<and>
           bn_val r = (if nbits < 32 then bn_val a div 2 ^ nbits
                       else (bn_val a div 2 ^ 32) mod 2 ^ (32 * (nbits div 32)) div 2 ^ (nbits mod 32))))"
proof (intro conjI impI)
  show "bn_wf (bignum_lshift a b nbits)" "bn_val (bignum_lshift a b nbits) = (bn_val a * 2 ^ nbits) mod bn_limit"
    using assms by (simp_all add: bignum_lshift_value)
  assume "nbits < 32 * BN_ARRAY_SIZE"
  then show "\<exists>r. bignum_rshift a b nbits = Some r \<and> bn_wf r \<and>
      bn_val r = (if nbits < 32 then bn_val a div 2 ^ nbits
                  else (bn_val a div 2 ^ 32) mod 2 ^ (32 * (nbits div 32)) div 2 ^ (nbits mod 32))"
    using bignum_rshift_value [of a nbits b] bignum_rshift_words_value [of a nbits b] assms
    by (cases "nbits < 32") auto
qed

theorem bignum_shifts_witness:
  "bn_val (bignum_lshift (bn_of 3) bn_local 40) = (3 * 2 ^ 40) mod bn_limit \<and>
   (\<exists>r. bignum_rshift (bn_of 0x500000000) bn_local 64 = Some r \<and> bn_val r = 5)"
  using bignum_shifts [of "bn_of 3" bn_local 40] bignum_shifts [of "bn_of 0x500000000" bn_local 64]
  by (auto simp: BN_ARRAY_SIZE_97)

end
