(* ===== verification/Rmm_Env.thy ===== *)
theory Rmm_Env
  imports Prelude "HOL-Library.Multiset"
begin

text \<open>
  The environment of the realm management monitor under src/tetd_cca/rmm: the granule,
  buffer, realm and translation-table services that its handlers call and whose code is
  not in the repository. A service that changes the machine adds an \<open>event\<close> to a log, the
  newest first; the answers of all services are the fields of a record that the
  definitions take as an argument, each a function of the log so far where the answer
  can depend on earlier calls. A handler maps a log to its result and the longer log, or to
  \<open>None\<close> where an assertion fails.
\<close>

section \<open>Data\<close>

text \<open>A \<open>struct granule *\<close> is an address; the null pointer is \<open>None\<close> of an option.\<close>

type_synonym gptr = u64

datatype granule_state =
    GRANULE_STATE_NS
  | GRANULE_STATE_DELEGATED
  | GRANULE_STATE_RD
  | GRANULE_STATE_REC
  | GRANULE_STATE_RTT
  | GRANULE_STATE_DATA
  | GRANULE_STATE_other nat

datatype buffer_slot = SLOT_RD | SLOT_REC | SLOT_RTT | SLOT_RTT2 | SLOT_DELEGATED | SLOT_NS

text \<open>The pointer that \<open>granule_map\<close> returns is known by the granule and the slot.\<close>

datatype buffer = Buffer gptr buffer_slot

record realm_s2_context =
  g_rtt :: gptr
  s2_config :: u64

record rd =
  rd_s2_ctx :: realm_s2_context
  rd_algorithm :: u64
  rd_config :: u64

datatype ripas = RIPAS_EMPTY | RIPAS_RAM | RIPAS_DESTROYED

datatype ripas_change_destroyed = NO_CHANGE_DESTROYED | CHANGE_DESTROYED

text \<open>The members of a REC that the RTT commands read: its realm and the pending RIPAS request.\<close>

record rec_ripas =
  rec_g_rd :: gptr
  set_ripas_addr :: u64
  set_ripas_top :: u64
  set_ripas_val :: ripas
  set_ripas_change :: ripas_change_destroyed

record rtt_walk =
  g_llt :: gptr
  wi_index :: nat
  last_level :: int

datatype table_fill =
    Fill_unassigned_empty
  | Fill_unassigned_ram
  | Fill_unassigned_ns
  | Fill_unassigned_destroyed
  | Fill_assigned_empty u64 int
  | Fill_assigned_ram u64 int
  | Fill_assigned_destroyed u64 int
  | Fill_assigned_ns u64 u64 int

datatype event =
    Lock gptr granule_state
  | Unlock gptr
  | Unlock_transition gptr granule_state
  | Set_state gptr granule_state
  | Map gptr buffer_slot
  | Unmap gptr buffer_slot
  | Granule_get gptr
  | Granule_put gptr
  | Refcount_inc gptr u64
  | Refcount_dec gptr u64
  | Walk gptr gptr
  | S2tte_write buffer nat u64
  | Table_fill buffer table_fill
  | Invalidate_page realm_s2_context u64
  | Invalidate_block realm_s2_context u64
  | Invalidate_pages_in_block realm_s2_context u64
  | Memzero_mapped buffer
  | Memzero gptr buffer_slot
  | Memset_zero buffer
  | Ns_read gptr buffer
  | Measure_data rd buffer u64 u64
  | Measure_ripas rd u64 u64
  | Set_ripas_addr gptr u64

type_synonym log = "event list"

section \<open>Answers of the services\<close>

record granule_env =
  answer_find_granule :: "log \<Rightarrow> u64 \<Rightarrow> gptr option"
  answer_find_lock_granule :: "log \<Rightarrow> u64 \<Rightarrow> granule_state \<Rightarrow> gptr option"
  answer_find_lock_two :: "log \<Rightarrow> u64 \<Rightarrow> granule_state \<Rightarrow> u64 \<Rightarrow> granule_state \<Rightarrow> (gptr \<times> gptr) option"
  answer_granule_map :: "log \<Rightarrow> gptr \<Rightarrow> buffer_slot \<Rightarrow> bool"
  answer_refcount :: "log \<Rightarrow> gptr \<Rightarrow> u64"
  answer_state :: "log \<Rightarrow> gptr \<Rightarrow> granule_state"
  answer_ns_buffer_read :: "log \<Rightarrow> gptr \<Rightarrow> bool"
  GRANULE_SIZE :: u64

record realm_env = granule_env +
  rd_at :: "log \<Rightarrow> gptr \<Rightarrow> rd"
  rec_at :: "log \<Rightarrow> gptr \<Rightarrow> rec_ripas"
  realm_ipa_size :: "rd \<Rightarrow> u64"
  realm_ipa_bits :: "rd \<Rightarrow> u64"
  realm_rtt_starting_level :: "rd \<Rightarrow> int"
  realm_is_new :: "rd \<Rightarrow> bool"
  addr_in_par :: "rd \<Rightarrow> u64 \<Rightarrow> bool"
  addr_is_level_aligned :: "u64 \<Rightarrow> int \<Rightarrow> bool"

record s2tte_env = realm_env +
  s2tte_is_unassigned :: "u64 \<Rightarrow> bool"
  s2tte_is_unassigned_empty :: "u64 \<Rightarrow> bool"
  s2tte_is_unassigned_ram :: "u64 \<Rightarrow> bool"
  s2tte_is_unassigned_ns :: "u64 \<Rightarrow> bool"
  s2tte_is_unassigned_destroyed :: "u64 \<Rightarrow> bool"
  s2tte_is_assigned_empty :: "u64 \<Rightarrow> int \<Rightarrow> bool"
  s2tte_is_assigned_ram :: "u64 \<Rightarrow> int \<Rightarrow> bool"
  s2tte_is_assigned_ns :: "u64 \<Rightarrow> int \<Rightarrow> bool"
  s2tte_is_assigned_destroyed :: "u64 \<Rightarrow> int \<Rightarrow> bool"
  s2tte_is_table :: "u64 \<Rightarrow> int \<Rightarrow> bool"
  s2tte_has_ripas :: "u64 \<Rightarrow> int \<Rightarrow> bool"
  s2tte_pa :: "u64 \<Rightarrow> int \<Rightarrow> u64"
  s2tte_pa_table :: "u64 \<Rightarrow> int \<Rightarrow> u64"
  s2tte_create_unassigned_empty :: u64
  s2tte_create_unassigned_ram :: u64
  s2tte_create_unassigned_ns :: u64
  s2tte_create_unassigned_destroyed :: u64
  s2tte_create_assigned_empty :: "u64 \<Rightarrow> int \<Rightarrow> u64"
  s2tte_create_assigned_ram :: "u64 \<Rightarrow> int \<Rightarrow> u64"
  s2tte_create_assigned_destroyed :: "u64 \<Rightarrow> int \<Rightarrow> u64"
  s2tte_create_assigned_ns :: "u64 \<Rightarrow> int \<Rightarrow> u64"
  s2tte_create_assigned_unchanged :: "u64 \<Rightarrow> u64 \<Rightarrow> int \<Rightarrow> u64"
  s2tte_create_table :: "u64 \<Rightarrow> int \<Rightarrow> u64"
  s2tte_map_size :: "int \<Rightarrow> u64"
  host_ns_s2tte :: "u64 \<Rightarrow> int \<Rightarrow> u64"
  host_ns_s2tte_is_valid :: "u64 \<Rightarrow> int \<Rightarrow> bool"

record rmm_env = s2tte_env +
  RTT_PAGE_LEVEL :: int
  RTT_MIN_BLOCK_LEVEL :: int
  S2TTES_PER_S2TT :: nat
  pack_return_code :: "u64 \<Rightarrow> int \<Rightarrow> u64"
  ripas_code :: "ripas \<Rightarrow> u64"
  answer_rtt_walk :: "log \<Rightarrow> gptr \<Rightarrow> int \<Rightarrow> u64 \<Rightarrow> u64 \<Rightarrow> int \<Rightarrow> rtt_walk"
  answer_s2tte_read :: "log \<Rightarrow> buffer \<Rightarrow> nat \<Rightarrow> u64"
  answer_skip_non_live :: "log \<Rightarrow> u64 \<Rightarrow> buffer \<Rightarrow> rtt_walk \<Rightarrow> u64"
  table_is_unassigned_empty_block :: "log \<Rightarrow> buffer \<Rightarrow> bool"
  table_is_unassigned_ram_block :: "log \<Rightarrow> buffer \<Rightarrow> bool"
  table_is_unassigned_ns_block :: "log \<Rightarrow> buffer \<Rightarrow> bool"
  table_is_unassigned_destroyed_block :: "log \<Rightarrow> buffer \<Rightarrow> bool"
  table_maps_assigned_empty_block :: "log \<Rightarrow> buffer \<Rightarrow> int \<Rightarrow> bool"
  table_maps_assigned_ram_block :: "log \<Rightarrow> buffer \<Rightarrow> int \<Rightarrow> bool"
  table_maps_assigned_ns_block :: "log \<Rightarrow> buffer \<Rightarrow> int \<Rightarrow> bool"
  table_maps_assigned_destroyed_block :: "log \<Rightarrow> buffer \<Rightarrow> int \<Rightarrow> bool"

section \<open>Service calls\<close>

definition find_lock_granule :: "rmm_env \<Rightarrow> u64 \<Rightarrow> granule_state \<Rightarrow> log \<Rightarrow> gptr option \<times> log" where
  "find_lock_granule E addr st s =
     (case answer_find_lock_granule E s addr st of
        None \<Rightarrow> (None, s)
      | Some g \<Rightarrow> (Some g, Lock g st # s))"

definition find_lock_two_granules ::
  "rmm_env \<Rightarrow> u64 \<Rightarrow> granule_state \<Rightarrow> u64 \<Rightarrow> granule_state \<Rightarrow> log \<Rightarrow> (gptr \<times> gptr) option \<times> log" where
  "find_lock_two_granules E addr1 st1 addr2 st2 s =
     (case answer_find_lock_two E s addr1 st1 addr2 st2 of
        None \<Rightarrow> (None, s)
      | Some (g1, g2) \<Rightarrow> (Some (g1, g2), Lock g2 st2 # Lock g1 st1 # s))"

definition granule_lock :: "gptr \<Rightarrow> granule_state \<Rightarrow> log \<Rightarrow> log" where
  "granule_lock g st s = Lock g st # s"

definition granule_unlock :: "gptr \<Rightarrow> log \<Rightarrow> log" where
  "granule_unlock g s = Unlock g # s"

definition granule_unlock_transition :: "gptr \<Rightarrow> granule_state \<Rightarrow> log \<Rightarrow> log" where
  "granule_unlock_transition g st s = Unlock_transition g st # s"

text \<open>\<open>granule_map\<close> and the assertion that its result is not null, which follows every call.\<close>

definition granule_map :: "rmm_env \<Rightarrow> gptr \<Rightarrow> buffer_slot \<Rightarrow> log \<Rightarrow> (buffer \<times> log) option" where
  "granule_map E g slot s =
     (if answer_granule_map E s g slot then Some (Buffer g slot, Map g slot # s) else None)"

fun buffer_unmap :: "buffer \<Rightarrow> log \<Rightarrow> log" where
  "buffer_unmap (Buffer g slot) s = Unmap g slot # s"

definition rtt_walk_lock_unlock ::
  "rmm_env \<Rightarrow> gptr \<Rightarrow> int \<Rightarrow> u64 \<Rightarrow> u64 \<Rightarrow> int \<Rightarrow> log \<Rightarrow> rtt_walk \<times> log" where
  "rtt_walk_lock_unlock E g_root sl ipa_bits map_addr level s =
     (let wi = answer_rtt_walk E s g_root sl ipa_bits map_addr level
      in (wi, Walk g_root (g_llt wi) # s))"

definition s2tte_read :: "rmm_env \<Rightarrow> buffer \<Rightarrow> nat \<Rightarrow> log \<Rightarrow> u64" where
  "s2tte_read E b i s = answer_s2tte_read E s b i"

definition s2tte_write :: "buffer \<Rightarrow> nat \<Rightarrow> u64 \<Rightarrow> log \<Rightarrow> log" where
  "s2tte_write b i v s = S2tte_write b i v # s"

definition skip_non_live_entries :: "rmm_env \<Rightarrow> u64 \<Rightarrow> buffer \<Rightarrow> rtt_walk \<Rightarrow> log \<Rightarrow> u64" where
  "skip_non_live_entries E addr b wi s = answer_skip_non_live E s addr b wi"

lemmas service_defs [exec] = find_lock_granule_def find_lock_two_granules_def granule_lock_def
  granule_unlock_def granule_unlock_transition_def granule_map_def rtt_walk_lock_unlock_def
  s2tte_read_def s2tte_write_def skip_non_live_entries_def

section \<open>Monitors of a log\<close>

text \<open>
  Monitors as in Prelude. The lock monitor keeps the multiset of locked granules; unlocking a granule that is not
  locked is a violation. A table walk hands the lock of the root over to the last table.
\<close>

definition unlock_step :: "gptr \<Rightarrow> gptr multiset \<Rightarrow> gptr multiset option" where
  "unlock_step g H = (if g \<in># H then Some (H - {#g#}) else None)"

fun lock_step :: "event \<Rightarrow> gptr multiset \<Rightarrow> gptr multiset option" where
  "lock_step (Lock g st) H = Some (add_mset g H)"
| "lock_step (Unlock g) H = unlock_step g H"
| "lock_step (Unlock_transition g st) H = unlock_step g H"
| "lock_step (Walk g g') H = map_option (add_mset g') (unlock_step g H)"
| "lock_step _ H = Some H"

text \<open>
  The slot monitor keeps the multiset of mapped (granule, slot) pairs; a slot holds one mapping,
  and only a mapped buffer can be unmapped.
\<close>

fun slot_step :: "event \<Rightarrow> (gptr \<times> buffer_slot) multiset \<Rightarrow> (gptr \<times> buffer_slot) multiset option" where
  "slot_step (Map g sl) M = (if sl \<in># image_mset snd M then None else Some (add_mset (g, sl) M))"
| "slot_step (Unmap g sl) M = (if (g, sl) \<in># M then Some (M - {#(g, sl)#}) else None)"
| "slot_step (Memzero g sl) M = (if sl \<in># image_mset snd M then None else Some M)"
| "slot_step (Ns_read g b) M = (if SLOT_NS \<in># image_mset snd M then None else Some M)"
| "slot_step _ M = Some M"

definition locks :: "log \<Rightarrow> gptr multiset option" where
  "locks = run_monitor lock_step {#}"

definition slots :: "log \<Rightarrow> (gptr \<times> buffer_slot) multiset option" where
  "slots = run_monitor slot_step {#}"

fun lock_event :: "event \<Rightarrow> bool" where
  "lock_event (Lock g st) = True"
| "lock_event (Unlock g) = True"
| "lock_event (Unlock_transition g st) = True"
| "lock_event (Walk g g') = True"
| "lock_event _ = False"

fun slot_event :: "event \<Rightarrow> bool" where
  "slot_event (Map g sl) = True"
| "slot_event (Unmap g sl) = True"
| "slot_event (Memzero g sl) = True"
| "slot_event (Ns_read g b) = True"
| "slot_event _ = False"

lemma lock_step_ignores: "\<not> lock_event e \<Longrightarrow> lock_step e H = Some H"
  by (cases e) simp_all

lemma slot_step_ignores: "\<not> slot_event e \<Longrightarrow> slot_step e M = Some M"
  by (cases e) simp_all

interpretation lock_mon: log_monitor lock_step lock_event
  by unfold_locales (rule lock_step_ignores)

interpretation slot_mon: log_monitor slot_step slot_event
  by unfold_locales (rule slot_step_ignores)

lemma locks_simps [simp]:
  "locks [] = Some {#}"
  "locks (e # s) = Option.bind (locks s) (lock_step e)"
  by (simp_all add: locks_def)

lemma slots_simps [simp]:
  "slots [] = Some {#}"
  "slots (e # s) = Option.bind (slots s) (slot_step e)"
  by (simp_all add: slots_def)

lemma locks_unwatched: "filter lock_event s' = filter lock_event s \<Longrightarrow> locks s' = locks s"
  unfolding locks_def by (rule lock_mon.run_unwatched)

lemma slots_unwatched: "filter slot_event s' = filter slot_event s \<Longrightarrow> slots s' = slots s"
  unfolding slots_def by (rule slot_mon.run_unwatched)

lemma unlock_step_simps [simp]:
  "g \<in># H \<Longrightarrow> unlock_step g H = Some (H - {#g#})"
  "g \<notin># H \<Longrightarrow> unlock_step g H = None"
  by (simp_all add: unlock_step_def)

end
