(* ===== verification/Rmm_Smc.thy ===== *)
theory Rmm_Smc
  imports Prelude
begin

text \<open>
  Function identifiers, return codes and the result registers of the realm management
  interface: src/tetd_cca/rmm/lib/smc/include/smc.h and smc-rmi.h. Field macros with a
  pasted name take the field's mask and shift as arguments.
\<close>

section \<open>Fields of a function identifier (smc.h)\<close>

definition SMC_TYPE_SHIFT :: nat where "SMC_TYPE_SHIFT = 31"
definition SMC_TYPE_MASK :: u32 where "SMC_TYPE_MASK = 1"
definition SMC_TYPE_FAST :: u32 where "SMC_TYPE_FAST = 1"
definition SMC_CC_SHIFT :: nat where "SMC_CC_SHIFT = 30"
definition SMC_CC_MASK :: u32 where "SMC_CC_MASK = 1"
definition SMC_CC_SMC32 :: u32 where "SMC_CC_SMC32 = 0"
definition SMC_CC_SMC64 :: u32 where "SMC_CC_SMC64 = 1"
definition SMC_OEN_SHIFT :: nat where "SMC_OEN_SHIFT = 24"
definition SMC_OEN_MASK :: u32 where "SMC_OEN_MASK = 0x3F"
definition SMC_OEN_STD :: u32 where "SMC_OEN_STD = 0x4"
definition SMC_OEN_ARCH :: u32 where "SMC_OEN_ARCH = 0x0"
definition SMC_SVE_HINT :: u32 where "SMC_SVE_HINT = push_bit 16 1"
definition SMC_FNUM_SHIFT :: nat where "SMC_FNUM_SHIFT = 0"
definition SMC_FNUM_MASK :: u32 where "SMC_FNUM_MASK = 0xFFFF"

definition SMC_FIELD_VAL :: "u32 \<Rightarrow> nat \<Rightarrow> u32 \<Rightarrow> u32" where
  "SMC_FIELD_VAL fmask fshift v = push_bit fshift (v AND fmask)"

definition SMC_SET_FIELD :: "u32 \<Rightarrow> u32 \<Rightarrow> nat \<Rightarrow> u32 \<Rightarrow> u32" where
  "SMC_SET_FIELD init_val fmask fshift v =
     (init_val AND NOT (SMC_FIELD_VAL fmask fshift fmask)) OR SMC_FIELD_VAL fmask fshift v"

definition SMC_GET_FIELD :: "u32 \<Rightarrow> u32 \<Rightarrow> nat \<Rightarrow> u32" where
  "SMC_GET_FIELD fid fmask fshift = drop_bit fshift fid AND fmask"

definition SMC_ARCH_CALL_BASE :: u32 where
  "SMC_ARCH_CALL_BASE =
     SMC_SET_FIELD 0 SMC_TYPE_MASK SMC_TYPE_SHIFT SMC_TYPE_FAST OR
     SMC_SET_FIELD 0 SMC_OEN_MASK SMC_OEN_SHIFT SMC_OEN_ARCH"

definition SMC_STD_CALL_BASE :: u32 where
  "SMC_STD_CALL_BASE =
     SMC_SET_FIELD 0 SMC_TYPE_MASK SMC_TYPE_SHIFT SMC_TYPE_FAST OR
     SMC_SET_FIELD 0 SMC_OEN_MASK SMC_OEN_SHIFT SMC_OEN_STD"

definition SMC32_PSCI_FNUM_MIN :: u32 where "SMC32_PSCI_FNUM_MIN = 0x0"
definition SMC32_PSCI_FNUM_MAX :: u32 where "SMC32_PSCI_FNUM_MAX = 0x14"
definition SMC64_PSCI_FNUM_MIN :: u32 where "SMC64_PSCI_FNUM_MIN = 0x0"
definition SMC64_PSCI_FNUM_MAX :: u32 where "SMC64_PSCI_FNUM_MAX = 0x14"
definition SMC64_RMI_FNUM_MIN :: u32 where "SMC64_RMI_FNUM_MIN = 0x150"
definition SMC64_RMI_FNUM_MAX :: u32 where "SMC64_RMI_FNUM_MAX = 0x16B"
definition SMC64_RSI_FNUM_MIN :: u32 where "SMC64_RSI_FNUM_MIN = 0x190"
definition SMC64_RSI_FNUM_MAX :: u32 where "SMC64_RSI_FNUM_MAX = 0x1AF"

section \<open>Ranges of function identifiers\<close>

text \<open>The range macros take the lower (and upper) function number of the range.\<close>

definition SMC32_ARCH_FID :: "u32 \<Rightarrow> u32" where
  "SMC32_ARCH_FID offset =
     SMC_SET_FIELD SMC_ARCH_CALL_BASE SMC_CC_MASK SMC_CC_SHIFT SMC_CC_SMC32 OR
     SMC_SET_FIELD SMC_ARCH_CALL_BASE SMC_FNUM_MASK SMC_FNUM_SHIFT offset"

definition SMC32_STD_FID :: "u32 \<Rightarrow> u32 \<Rightarrow> u32" where
  "SMC32_STD_FID fnum_min offset =
     SMC_SET_FIELD SMC_STD_CALL_BASE SMC_CC_MASK SMC_CC_SHIFT SMC_CC_SMC32 OR
     SMC_SET_FIELD SMC_STD_CALL_BASE SMC_FNUM_MASK SMC_FNUM_SHIFT (fnum_min + offset)"

definition SMC64_STD_FID :: "u32 \<Rightarrow> u32 \<Rightarrow> u32" where
  "SMC64_STD_FID fnum_min offset =
     SMC_SET_FIELD SMC_STD_CALL_BASE SMC_CC_MASK SMC_CC_SHIFT SMC_CC_SMC64 OR
     SMC_SET_FIELD SMC_STD_CALL_BASE SMC_FNUM_MASK SMC_FNUM_SHIFT (fnum_min + offset)"

definition IS_SMC64_FID_IN_RANGE :: "u32 \<Rightarrow> u32 \<Rightarrow> u32 \<Rightarrow> bool" where
  "IS_SMC64_FID_IN_RANGE fnum_min fnum_max fid \<longleftrightarrow>
     SMC_GET_FIELD fid SMC_FNUM_MASK SMC_FNUM_SHIFT \<ge> fnum_min \<and>
     SMC_GET_FIELD fid SMC_FNUM_MASK SMC_FNUM_SHIFT \<le> fnum_max"

definition IS_SMC64_FID_STD_FAST :: "u32 \<Rightarrow> bool" where
  "IS_SMC64_FID_STD_FAST fid \<longleftrightarrow>
     fid AND NOT (SMC_FIELD_VAL SMC_FNUM_MASK SMC_FNUM_SHIFT SMC_FNUM_MASK) =
     (SMC_FIELD_VAL SMC_CC_MASK SMC_CC_SHIFT SMC_CC_SMC64 OR
      SMC_FIELD_VAL SMC_TYPE_MASK SMC_TYPE_SHIFT SMC_TYPE_FAST OR
      SMC_FIELD_VAL SMC_OEN_MASK SMC_OEN_SHIFT SMC_OEN_STD)"

definition IS_SMC64_STD_FAST_IN_RANGE :: "u32 \<Rightarrow> u32 \<Rightarrow> u32 \<Rightarrow> bool" where
  "IS_SMC64_STD_FAST_IN_RANGE fnum_min fnum_max fid \<longleftrightarrow>
     IS_SMC64_FID_STD_FAST fid \<and> IS_SMC64_FID_IN_RANGE fnum_min fnum_max fid"

definition SMC64_NUM_FIDS_IN_RANGE :: "u32 \<Rightarrow> u32 \<Rightarrow> u32" where
  "SMC64_NUM_FIDS_IN_RANGE fnum_min fnum_max = fnum_max - fnum_min + 1"

definition SMC64_FID_OFFSET_FROM_RANGE_MIN :: "u32 \<Rightarrow> u32 \<Rightarrow> u32" where
  "SMC64_FID_OFFSET_FROM_RANGE_MIN fnum_min fid =
     SMC_GET_FIELD fid SMC_FNUM_MASK SMC_FNUM_SHIFT - fnum_min"

definition SMCCC_VERSION :: u32 where
  "SMCCC_VERSION = SMC32_ARCH_FID 0"

definition SMCCC_VERSION_NUMBER :: u64 where
  "SMCCC_VERSION_NUMBER = push_bit 16 1 OR 2"

definition SMC_UNKNOWN :: u64 where
  "SMC_UNKNOWN = - 1"

definition SMC_RESULT_REGS :: nat where
  "SMC_RESULT_REGS = 5"

text \<open>\<open>struct smc_result\<close>: the registers X0 to X4.\<close>

type_synonym smc_result = "u64 list"

section \<open>The realm management interface (smc-rmi.h)\<close>

definition SMC64_RMI_FID :: "u32 \<Rightarrow> u32" where
  "SMC64_RMI_FID offset = SMC64_STD_FID SMC64_RMI_FNUM_MIN offset"

definition IS_SMC64_RMI_FID :: "u32 \<Rightarrow> bool" where
  "IS_SMC64_RMI_FID fid = IS_SMC64_STD_FAST_IN_RANGE SMC64_RMI_FNUM_MIN SMC64_RMI_FNUM_MAX fid"

definition RMI_SUCCESS :: u64 where "RMI_SUCCESS = 0"
definition RMI_ERROR_INPUT :: u64 where "RMI_ERROR_INPUT = 1"
definition RMI_ERROR_REALM :: u64 where "RMI_ERROR_REALM = 2"
definition RMI_ERROR_REC :: u64 where "RMI_ERROR_REC = 3"
definition RMI_ERROR_RTT :: u64 where "RMI_ERROR_RTT = 4"
definition RMI_ERROR_COUNT :: u64 where "RMI_ERROR_COUNT = 5"

definition RMI_EXIT_SYNC :: u64 where "RMI_EXIT_SYNC = 0"
definition RMI_EXIT_IRQ :: u64 where "RMI_EXIT_IRQ = 1"
definition RMI_EXIT_FIQ :: u64 where "RMI_EXIT_FIQ = 2"
definition RMI_EXIT_SERROR :: u64 where "RMI_EXIT_SERROR = 6"

definition RMI_UNASSIGNED :: u64 where "RMI_UNASSIGNED = 0"
definition RMI_ASSIGNED :: u64 where "RMI_ASSIGNED = 1"
definition RMI_TABLE :: u64 where "RMI_TABLE = 2"

definition RMI_NO_MEASURE_CONTENT :: u64 where "RMI_NO_MEASURE_CONTENT = 0"
definition RMI_MEASURE_CONTENT :: u64 where "RMI_MEASURE_CONTENT = 1"

definition SMC_RMM_VERSION :: u32 where "SMC_RMM_VERSION = SMC64_RMI_FID 0x0"
definition SMC_RMM_GRANULE_DELEGATE :: u32 where "SMC_RMM_GRANULE_DELEGATE = SMC64_RMI_FID 0x1"
definition SMC_RMM_GRANULE_UNDELEGATE :: u32 where "SMC_RMM_GRANULE_UNDELEGATE = SMC64_RMI_FID 0x2"
definition SMC_RMM_DATA_CREATE :: u32 where "SMC_RMM_DATA_CREATE = SMC64_RMI_FID 0x3"
definition SMC_RMM_DATA_CREATE_UNKNOWN :: u32 where "SMC_RMM_DATA_CREATE_UNKNOWN = SMC64_RMI_FID 0x4"
definition SMC_RMM_DATA_DESTROY :: u32 where "SMC_RMM_DATA_DESTROY = SMC64_RMI_FID 0x5"
definition SMC_RMM_REALM_ACTIVATE :: u32 where "SMC_RMM_REALM_ACTIVATE = SMC64_RMI_FID 0x7"
definition SMC_RMM_REALM_CREATE :: u32 where "SMC_RMM_REALM_CREATE = SMC64_RMI_FID 0x8"
definition SMC_RMM_REALM_DESTROY :: u32 where "SMC_RMM_REALM_DESTROY = SMC64_RMI_FID 0x9"
definition SMC_RMM_REC_CREATE :: u32 where "SMC_RMM_REC_CREATE = SMC64_RMI_FID 0xA"
definition SMC_RMM_REC_DESTROY :: u32 where "SMC_RMM_REC_DESTROY = SMC64_RMI_FID 0xB"
definition SMC_RMM_REC_ENTER :: u32 where "SMC_RMM_REC_ENTER = SMC64_RMI_FID 0xC"
definition SMC_RMM_RTT_CREATE :: u32 where "SMC_RMM_RTT_CREATE = SMC64_RMI_FID 0xD"
definition SMC_RMM_RTT_DESTROY :: u32 where "SMC_RMM_RTT_DESTROY = SMC64_RMI_FID 0xE"
definition SMC_RMM_RTT_MAP_UNPROTECTED :: u32 where "SMC_RMM_RTT_MAP_UNPROTECTED = SMC64_RMI_FID 0xF"
definition SMC_RMM_RTT_READ_ENTRY :: u32 where "SMC_RMM_RTT_READ_ENTRY = SMC64_RMI_FID 0x11"
definition SMC_RMM_RTT_UNMAP_UNPROTECTED :: u32 where "SMC_RMM_RTT_UNMAP_UNPROTECTED = SMC64_RMI_FID 0x12"
definition SMC_RMM_PSCI_COMPLETE :: u32 where "SMC_RMM_PSCI_COMPLETE = SMC64_RMI_FID 0x14"
definition SMC_RMM_FEATURES :: u32 where "SMC_RMM_FEATURES = SMC64_RMI_FID 0x15"
definition SMC_RMM_RTT_FOLD :: u32 where "SMC_RMM_RTT_FOLD = SMC64_RMI_FID 0x16"
definition SMC_RMM_REC_AUX_COUNT :: u32 where "SMC_RMM_REC_AUX_COUNT = SMC64_RMI_FID 0x17"
definition SMC_RMM_RTT_INIT_RIPAS :: u32 where "SMC_RMM_RTT_INIT_RIPAS = SMC64_RMI_FID 0x18"
definition SMC_RMM_RTT_SET_RIPAS :: u32 where "SMC_RMM_RTT_SET_RIPAS = SMC64_RMI_FID 0x19"
definition SMC_RMM_IPA_BLOCK :: u32 where "SMC_RMM_IPA_BLOCK = SMC64_RMI_FID 0x1A"
definition SMC_RMM_IPA_UNBLOCK :: u32 where "SMC_RMM_IPA_UNBLOCK = SMC64_RMI_FID 0x1B"

lemmas rmi_status_defs = RMI_SUCCESS_def RMI_ERROR_INPUT_def RMI_ERROR_REALM_def RMI_ERROR_REC_def
  RMI_ERROR_RTT_def

lemma rmi_errors_not_success [simp]:
  "RMI_ERROR_INPUT \<noteq> RMI_SUCCESS" "RMI_ERROR_REALM \<noteq> RMI_SUCCESS"
  "RMI_ERROR_REC \<noteq> RMI_SUCCESS" "RMI_ERROR_RTT \<noteq> RMI_SUCCESS"
  by (simp_all add: rmi_status_defs)

lemmas smc_field_defs = SMC_TYPE_SHIFT_def SMC_TYPE_MASK_def SMC_TYPE_FAST_def SMC_CC_SHIFT_def
  SMC_CC_MASK_def SMC_CC_SMC32_def SMC_CC_SMC64_def SMC_OEN_SHIFT_def SMC_OEN_MASK_def SMC_OEN_STD_def
  SMC_OEN_ARCH_def SMC_FNUM_SHIFT_def SMC_FNUM_MASK_def SMC_FIELD_VAL_def SMC_SET_FIELD_def
  SMC_GET_FIELD_def SMC_ARCH_CALL_BASE_def SMC_STD_CALL_BASE_def

lemma SMC64_RMI_FID_0: "SMC64_RMI_FID 0 = 0xC4000150"
  by (simp add: SMC64_RMI_FID_def SMC64_STD_FID_def SMC64_RMI_FNUM_MIN_def smc_field_defs)

lemma SMC64_RMI_FID_value: "SMC64_RMI_FID k = 0xC4000000 OR ((0x150 + k) AND 0xFFFF)"
proof -
  have "(0xC4000000 :: u32) OR (0x84000000 OR x) = 0xC4000000 OR x" for x
    by (simp add: or.assoc [symmetric])
  then show ?thesis
    by (simp add: SMC64_RMI_FID_def SMC64_STD_FID_def SMC64_RMI_FNUM_MIN_def smc_field_defs)
qed

lemma and_16_small: "(f :: u32) \<le> 0xFFFF \<Longrightarrow> f AND 0xFFFF = f"
proof -
  assume "f \<le> 0xFFFF"
  then have "unat f < 65536" by (simp add: word_le_nat_alt)
  then have "take_bit 16 (unat f) = unat f" by (simp add: take_bit_eq_mod)
  then have "unat (take_bit 16 f) = unat f" by (simp only: unsigned_take_bit_eq)
  then have "take_bit 16 f = f" by (simp add: word_unat_eq_iff)
  then show ?thesis by (simp add: take_bit_eq_mask mask_numeral)
qed

lemma split_fid: "(fid :: u32) = (fid AND NOT 0xFFFF) OR (fid AND 0xFFFF)"
  by (simp add: bit.conj_disj_distrib [symmetric] flip: bit.conj_disj_distrib)

text \<open>An identifier is an RMI call exactly when it is one of the 28 of the range.\<close>

lemma IS_SMC64_RMI_FID_iff: "IS_SMC64_RMI_FID fid \<longleftrightarrow> (\<exists>k<28. fid = SMC64_RMI_FID k)"
proof
  assume "IS_SMC64_RMI_FID fid"
  then have f: "fid AND NOT 0xFFFF = 0xC4000000" "0x150 \<le> fid AND 0xFFFF" "fid AND 0xFFFF \<le> 0x16B"
    by (simp_all add: IS_SMC64_RMI_FID_def IS_SMC64_STD_FAST_IN_RANGE_def IS_SMC64_FID_STD_FAST_def
        IS_SMC64_FID_IN_RANGE_def SMC64_RMI_FNUM_MIN_def SMC64_RMI_FNUM_MAX_def smc_field_defs)
  define k where "k = (fid AND 0xFFFF) - 0x150"
  have "k < 28" using f(2,3) by (simp add: k_def word_le_nat_alt word_less_nat_alt unat_sub)
  moreover have "fid = SMC64_RMI_FID k"
    using split_fid [of fid] f(1) by (simp add: SMC64_RMI_FID_value k_def)
  ultimately show "\<exists>k<28. fid = SMC64_RMI_FID k" by blast
next
  assume "\<exists>k<28. fid = SMC64_RMI_FID k"
  then obtain k where k: "k < 28" "fid = SMC64_RMI_FID k" by blast
  have f: "0x150 + k \<le> 0x16B" "0x150 \<le> 0x150 + k"
    using k(1) by (simp_all add: word_le_nat_alt word_less_nat_alt unat_word_ariths)
  then have "(0x150 + k) AND 0xFFFF = 0x150 + k" by (intro and_16_small) (simp add: word_le_nat_alt)
  then have fid: "fid = 0xC4000000 OR (0x150 + k)" "(0x150 + k) AND 0xFFFF = 0x150 + k"
    by (simp_all add: k(2) SMC64_RMI_FID_value)
  have "fid AND 0xFFFF = 0x150 + k"
    unfolding fid(1) by (simp add: bit.conj_disj_distrib2 fid(2))
  moreover have "(0x150 + k) AND NOT 0xFFFF = ((0x150 + k) AND 0xFFFF) AND NOT 0xFFFF" by (simp only: fid(2))
  then have "(0x150 + k) AND NOT 0xFFFF = 0" by (simp add: and.assoc)
  then have "fid AND NOT 0xFFFF = 0xC4000000"
    unfolding fid(1) by (simp add: bit.conj_disj_distrib2)
  ultimately show "IS_SMC64_RMI_FID fid"
    using f by (simp add: IS_SMC64_RMI_FID_def IS_SMC64_STD_FAST_IN_RANGE_def IS_SMC64_FID_STD_FAST_def
        IS_SMC64_FID_IN_RANGE_def SMC64_RMI_FNUM_MIN_def SMC64_RMI_FNUM_MAX_def smc_field_defs)
qed

lemma SMC64_RMI_FID_offset:
  assumes "k < 28"
  shows "SMC64_FID_OFFSET_FROM_RANGE_MIN SMC64_RMI_FNUM_MIN (SMC64_RMI_FID k) = k"
proof -
  have "0x150 + k \<le> 0x16B" using assms by (simp add: word_le_nat_alt word_less_nat_alt unat_word_ariths)
  then have "(0x150 + k) AND 0xFFFF = 0x150 + k" by (intro and_16_small) (simp add: word_le_nat_alt)
  then show ?thesis
    by (simp add: SMC64_FID_OFFSET_FROM_RANGE_MIN_def SMC64_RMI_FID_value SMC64_RMI_FNUM_MIN_def
        SMC_GET_FIELD_def SMC_FNUM_MASK_def SMC_FNUM_SHIFT_def bit.conj_disj_distrib2)
qed

end
