(* ===== verification/Rmm_Rtt.thy ===== *)
theory Rmm_Rtt
  imports Rmm_Env Rmm_Smc
begin

text \<open>
  The commands of src/tetd_cca/rmm/runtime/rmi/rtt.c that change the structure of a realm's
  translation tables: the validation functions, \<open>smc_rtt_create\<close>, \<open>smc_rtt_fold\<close> and
  \<open>smc_rtt_destroy\<close>. A command with labels is split where control joins again; each
  part ends with the code from its label on.
\<close>

section \<open>Validation of addresses and levels\<close>

definition validate_map_addr :: "rmm_env \<Rightarrow> u64 \<Rightarrow> int \<Rightarrow> rd \<Rightarrow> bool" where
  "validate_map_addr E map_addr level rd \<longleftrightarrow>
     map_addr < realm_ipa_size E rd \<and> addr_is_level_aligned E map_addr level"

definition validate_rtt_structure_cmds :: "rmm_env \<Rightarrow> u64 \<Rightarrow> int \<Rightarrow> rd \<Rightarrow> bool" where
  "validate_rtt_structure_cmds E map_addr level rd =
     (let min_level = realm_rtt_starting_level E rd + 1
      in if level < min_level \<or> level > RTT_PAGE_LEVEL E then False
         else validate_map_addr E map_addr (level - 1) rd)"

definition validate_rtt_map_cmds :: "rmm_env \<Rightarrow> u64 \<Rightarrow> int \<Rightarrow> rd \<Rightarrow> bool" where
  "validate_rtt_map_cmds E map_addr level rd =
     (if level < RTT_MIN_BLOCK_LEVEL E \<or> level > RTT_PAGE_LEVEL E then False
      else validate_map_addr E map_addr level rd)"

definition validate_rtt_entry_cmds :: "rmm_env \<Rightarrow> u64 \<Rightarrow> int \<Rightarrow> rd \<Rightarrow> bool" where
  "validate_rtt_entry_cmds E map_addr level rd =
     (if level < realm_rtt_starting_level E rd \<or> level > RTT_PAGE_LEVEL E then False
      else validate_map_addr E map_addr level rd)"

section \<open>RTT create\<close>

text \<open>
  Filling the new table from the parent entry. The first component is the error with which
  the code jumps to \<open>out_unmap_table\<close>, if it does.
\<close>

definition rtt_create_fill ::
  "rmm_env \<Rightarrow> realm_s2_context \<Rightarrow> u64 \<Rightarrow> int \<Rightarrow> rtt_walk \<Rightarrow> gptr \<Rightarrow> buffer \<Rightarrow> buffer \<Rightarrow> u64 \<Rightarrow> log \<Rightarrow>
   (u64 option \<times> log) option" where
  "rtt_create_fill E s2_ctx map_addr level wi g_tbl parent_s2tt s2tt parent_s2tte s =
     (if s2tte_is_unassigned_empty E parent_s2tte then
        Some (None, Granule_get (g_llt wi) # Table_fill s2tt Fill_unassigned_empty # s)
      else if s2tte_is_unassigned_ram E parent_s2tte then
        Some (None, Granule_get (g_llt wi) # Table_fill s2tt Fill_unassigned_ram # s)
      else if s2tte_is_unassigned_ns E parent_s2tte then
        Some (None, Granule_get (g_llt wi) # Table_fill s2tt Fill_unassigned_ns # s)
      else if s2tte_is_unassigned_destroyed E parent_s2tte then
        Some (None, Granule_get (g_llt wi) # Table_fill s2tt Fill_unassigned_destroyed # s)
      else if s2tte_is_assigned_destroyed E parent_s2tte (level - 1) then
        if level > RTT_MIN_BLOCK_LEVEL E then
          let block_pa = s2tte_pa E parent_s2tte (level - 1)
          in Some (None, Refcount_inc g_tbl (of_nat (S2TTES_PER_S2TT E)) #
                         Table_fill s2tt (Fill_assigned_destroyed block_pa level) # s)
        else None
      else if s2tte_is_assigned_empty E parent_s2tte (level - 1) then
        if level > RTT_MIN_BLOCK_LEVEL E then
          let block_pa = s2tte_pa E parent_s2tte (level - 1)
          in Some (None, Refcount_inc g_tbl (of_nat (S2TTES_PER_S2TT E)) #
                         Table_fill s2tt (Fill_assigned_empty block_pa level) # s)
        else None
      else if s2tte_is_assigned_ram E parent_s2tte (level - 1) then
        if level > RTT_MIN_BLOCK_LEVEL E then
          let s = s2tte_write parent_s2tt (wi_index wi) 0 s;
              s = Invalidate_block s2_ctx map_addr # s;
              block_pa = s2tte_pa E parent_s2tte (level - 1)
          in Some (None, Refcount_inc g_tbl (of_nat (S2TTES_PER_S2TT E)) #
                         Table_fill s2tt (Fill_assigned_ram block_pa level) # s)
        else None
      else if s2tte_is_assigned_ns E parent_s2tte (level - 1) then
        if level > RTT_MIN_BLOCK_LEVEL E then
          let s = s2tte_write parent_s2tt (wi_index wi) 0 s;
              s = Invalidate_block s2_ctx map_addr # s;
              block_pa = s2tte_pa E parent_s2tte (level - 1)
          in Some (None, Granule_get (g_llt wi) #
                         Table_fill s2tt (Fill_assigned_ns parent_s2tte block_pa level) # s)
        else None
      else if s2tte_is_table E parent_s2tte (level - 1) then
        Some (Some (pack_return_code E RMI_ERROR_RTT (level - 1)), s)
      else None)"

text \<open>From the mapping of the parent table to the return (the walk reached the parent level).\<close>

definition rtt_create_entry ::
  "rmm_env \<Rightarrow> realm_s2_context \<Rightarrow> u64 \<Rightarrow> u64 \<Rightarrow> int \<Rightarrow> rtt_walk \<Rightarrow> gptr \<Rightarrow> log \<Rightarrow> (u64 \<times> log) option" where
  "rtt_create_entry E s2_ctx rtt_addr map_addr level wi g_tbl s =
     do {
       (parent_s2tt, s) \<leftarrow> granule_map E (g_llt wi) SLOT_RTT s;
       let parent_s2tte = s2tte_read E parent_s2tt (wi_index wi) s;
       (s2tt, s) \<leftarrow> granule_map E g_tbl SLOT_DELEGATED s;
       (err, s) \<leftarrow> rtt_create_fill E s2_ctx map_addr level wi g_tbl parent_s2tt s2tt parent_s2tte s;
       let (ret, s) =
         (case err of
            Some ret \<Rightarrow> (ret, s)
          | None \<Rightarrow>
              let s = Set_state g_tbl GRANULE_STATE_RTT # s;
                  parent_s2tte = s2tte_create_table E rtt_addr (level - 1);
                  s = s2tte_write parent_s2tt (wi_index wi) parent_s2tte s
              in (RMI_SUCCESS, s));
       let s = buffer_unmap s2tt s;
       let s = buffer_unmap parent_s2tt s;
       let s = granule_unlock (g_llt wi) s;
       let s = granule_unlock g_tbl s;
       Some (ret, s)
     }"

definition smc_rtt_create :: "rmm_env \<Rightarrow> u64 \<Rightarrow> u64 \<Rightarrow> u64 \<Rightarrow> u64 \<Rightarrow> log \<Rightarrow> (u64 \<times> log) option" where
  "smc_rtt_create E rd_addr rtt_addr map_addr ulevel s =
     (let level = sint ulevel;
          (found, s) = find_lock_two_granules E rtt_addr GRANULE_STATE_DELEGATED rd_addr GRANULE_STATE_RD s
      in case found of
        None \<Rightarrow> Some (RMI_ERROR_INPUT, s)
      | Some (g_tbl, g_rd) \<Rightarrow> do {
          (rd_buf, s) \<leftarrow> granule_map E g_rd SLOT_RD s;
          let rd = rd_at E s g_rd;
          (if \<not> validate_rtt_structure_cmds E map_addr level rd then
             let s = buffer_unmap rd_buf s;
                 s = granule_unlock g_rd s;
                 s = granule_unlock g_tbl s
             in Some (RMI_ERROR_INPUT, s)
           else
             let g_table_root = g_rtt (rd_s2_ctx rd);
                 sl = realm_rtt_starting_level E rd;
                 ipa_bits = realm_ipa_bits E rd;
                 s = buffer_unmap rd_buf s;
                 s = granule_lock g_table_root GRANULE_STATE_RTT s;
                 s = granule_unlock g_rd s;
                 (wi, s) = rtt_walk_lock_unlock E g_table_root sl ipa_bits map_addr (level - 1) s
             in if last_level wi \<noteq> level - 1 then
                  let ret = pack_return_code E RMI_ERROR_RTT (last_level wi);
                      s = granule_unlock (g_llt wi) s;
                      s = granule_unlock g_tbl s
                  in Some (ret, s)
                else rtt_create_entry E (rd_s2_ctx rd) rtt_addr map_addr level wi g_tbl s)
        })"

section \<open>RTT fold\<close>

text \<open>The new parent entry and the counter updates, or the error of a table that cannot be folded.\<close>

definition rtt_fold_entry ::
  "rmm_env \<Rightarrow> int \<Rightarrow> rtt_walk \<Rightarrow> gptr \<Rightarrow> buffer \<Rightarrow> log \<Rightarrow> u64 + (u64 \<times> log)" where
  "rtt_fold_entry E level wi g_tbl table s =
     (let refcount = answer_refcount E s g_tbl in
      if refcount = 0 then
        let mixed = Inl (pack_return_code E RMI_ERROR_RTT level);
            put = (\<lambda>parent_s2tte. Inr (parent_s2tte, Granule_put (g_llt wi) # s))
        in if table_is_unassigned_destroyed_block E s table then put (s2tte_create_unassigned_destroyed E)
           else if table_is_unassigned_empty_block E s table then put (s2tte_create_unassigned_empty E)
           else if table_is_unassigned_ram_block E s table then put (s2tte_create_unassigned_ram E)
           else if table_is_unassigned_ns_block E s table then put (s2tte_create_unassigned_ns E)
           else if table_maps_assigned_ns_block E s table level then
             let s2tte = s2tte_read E table 0 s in put (s2tte_create_assigned_ns E s2tte (level - 1))
           else mixed
      else if refcount = of_nat (S2TTES_PER_S2TT E) then
        if level \<le> RTT_MIN_BLOCK_LEVEL E then Inl (pack_return_code E RMI_ERROR_RTT (last_level wi))
        else
          let s2tte = s2tte_read E table 0 s;
              block_pa = s2tte_pa E s2tte level;
              dec = (\<lambda>parent_s2tte. Inr (parent_s2tte, Refcount_dec g_tbl (of_nat (S2TTES_PER_S2TT E)) # s))
          in if table_maps_assigned_empty_block E s table level
             then dec (s2tte_create_assigned_empty E block_pa (level - 1))
             else if table_maps_assigned_ram_block E s table level
             then dec (s2tte_create_assigned_ram E block_pa (level - 1))
             else if table_maps_assigned_destroyed_block E s table level
             then dec (s2tte_create_assigned_destroyed E block_pa (level - 1))
             else Inl (pack_return_code E RMI_ERROR_RTT level)
      else Inl (pack_return_code E RMI_ERROR_RTT level))"

text \<open>From the locked and mapped table to \<open>out_unmap_table\<close>: break before make, then free the table.\<close>

definition rtt_fold_table ::
  "rmm_env \<Rightarrow> realm_s2_context \<Rightarrow> u64 \<Rightarrow> int \<Rightarrow> rtt_walk \<Rightarrow> u64 \<Rightarrow> gptr \<Rightarrow> buffer \<Rightarrow> buffer \<Rightarrow> smc_result \<Rightarrow> log \<Rightarrow>
   u64 \<times> smc_result \<times> log" where
  "rtt_fold_table E ctx map_addr level wi rtt_addr g_tbl table parent_s2tt res s =
     (case rtt_fold_entry E level wi g_tbl table s of
        Inl ret \<Rightarrow> (ret, res, s)
      | Inr (parent_s2tte, s) \<Rightarrow>
          let res = res[1 := rtt_addr];
              s = s2tte_write parent_s2tt (wi_index wi) 0 s;
              s = (if s2tte_is_assigned_ram E parent_s2tte (level - 1) \<or>
                      s2tte_is_assigned_ns E parent_s2tte (level - 1)
                   then Invalidate_pages_in_block ctx map_addr # s
                   else Invalidate_block ctx map_addr # s);
              s = s2tte_write parent_s2tt (wi_index wi) parent_s2tte s;
              s = Memzero_mapped table # s;
              s = Set_state g_tbl GRANULE_STATE_DELEGATED # s
          in (RMI_SUCCESS, res, s))"

text \<open>From the mapping of the parent table to \<open>out_unmap_parent_table\<close>.\<close>

definition rtt_fold_parent ::
  "rmm_env \<Rightarrow> realm_s2_context \<Rightarrow> u64 \<Rightarrow> int \<Rightarrow> rtt_walk \<Rightarrow> smc_result \<Rightarrow> log \<Rightarrow>
   (u64 \<times> smc_result \<times> log) option" where
  "rtt_fold_parent E ctx map_addr level wi res s =
     do {
       (parent_s2tt, s) \<leftarrow> granule_map E (g_llt wi) SLOT_RTT s;
       let parent_s2tte = s2tte_read E parent_s2tt (wi_index wi) s;
       (if \<not> s2tte_is_table E parent_s2tte (level - 1) then
          Some (pack_return_code E RMI_ERROR_RTT (level - 1), res, buffer_unmap parent_s2tt s)
        else
          let rtt_addr = s2tte_pa_table E parent_s2tte (level - 1);
              (found, s) = find_lock_granule E rtt_addr GRANULE_STATE_RTT s
          in do {
            g_tbl \<leftarrow> found;
            (table, s) \<leftarrow> granule_map E g_tbl SLOT_RTT2 s;
            let (ret, res, s) = rtt_fold_table E ctx map_addr level wi rtt_addr g_tbl table parent_s2tt res s;
            let s = buffer_unmap table s;
            let s = granule_unlock g_tbl s;
            Some (ret, res, buffer_unmap parent_s2tt s)
          })
     }"

definition smc_rtt_fold ::
  "rmm_env \<Rightarrow> u64 \<Rightarrow> u64 \<Rightarrow> u64 \<Rightarrow> smc_result \<Rightarrow> log \<Rightarrow> (smc_result \<times> log) option" where
  "smc_rtt_fold E rd_addr map_addr ulevel res s =
     (let level = sint ulevel;
          (found, s) = find_lock_granule E rd_addr GRANULE_STATE_RD s
      in case found of
        None \<Rightarrow> Some (res[0 := RMI_ERROR_INPUT], s)
      | Some g_rd \<Rightarrow> do {
          (rd_buf, s) \<leftarrow> granule_map E g_rd SLOT_RD s;
          let rd = rd_at E s g_rd;
          (if \<not> validate_rtt_structure_cmds E map_addr level rd then
             let s = buffer_unmap rd_buf s;
                 s = granule_unlock g_rd s
             in Some (res[0 := RMI_ERROR_INPUT], s)
           else
             let g_table_root = g_rtt (rd_s2_ctx rd);
                 sl = realm_rtt_starting_level E rd;
                 ipa_bits = realm_ipa_bits E rd;
                 s = buffer_unmap rd_buf s;
                 s = granule_lock g_table_root GRANULE_STATE_RTT s;
                 s = granule_unlock g_rd s;
                 (wi, s) = rtt_walk_lock_unlock E g_table_root sl ipa_bits map_addr (level - 1) s
             in do {
               (ret, res, s) \<leftarrow>
                 (if last_level wi \<noteq> level - 1
                  then Some (pack_return_code E RMI_ERROR_RTT (last_level wi), res, s)
                  else rtt_fold_parent E (rd_s2_ctx rd) map_addr level wi res s);
               let s = granule_unlock (g_llt wi) s;
               Some (res[0 := ret], s)
             })
        })"

section \<open>RTT destroy\<close>

text \<open>From the lock on the table to \<open>out_unlock_table\<close>; the flag is \<open>skip_non_live\<close>.\<close>

definition rtt_destroy_table ::
  "rmm_env \<Rightarrow> realm_s2_context \<Rightarrow> bool \<Rightarrow> u64 \<Rightarrow> int \<Rightarrow> rtt_walk \<Rightarrow> u64 \<Rightarrow> gptr \<Rightarrow> buffer \<Rightarrow> smc_result \<Rightarrow> log \<Rightarrow>
   (u64 \<times> bool \<times> smc_result \<times> log) option" where
  "rtt_destroy_table E ctx in_par map_addr level wi rtt_addr g_tbl parent_s2tt res s =
     (if answer_refcount E s g_tbl \<noteq> 0
      then Some (pack_return_code E RMI_ERROR_RTT level, False, res, s)
      else do {
        let res = res[1 := rtt_addr];
        (table, s) \<leftarrow> granule_map E g_tbl SLOT_RTT2 s;
        let parent_s2tte = (if in_par then s2tte_create_unassigned_destroyed E
                            else s2tte_create_unassigned_ns E);
        let s = Granule_put (g_llt wi) # s;
        let s = s2tte_write parent_s2tt (wi_index wi) 0 s;
        let s = (if in_par then Invalidate_block ctx map_addr # s
                 else Invalidate_pages_in_block ctx map_addr # s);
        let s = s2tte_write parent_s2tt (wi_index wi) parent_s2tte s;
        let s = Memzero_mapped table # s;
        let s = Set_state g_tbl GRANULE_STATE_DELEGATED # s;
        let s = buffer_unmap table s;
        Some (RMI_SUCCESS, True, res, s)
      })"

definition smc_rtt_destroy ::
  "rmm_env \<Rightarrow> u64 \<Rightarrow> u64 \<Rightarrow> u64 \<Rightarrow> smc_result \<Rightarrow> log \<Rightarrow> (smc_result \<times> log) option" where
  "smc_rtt_destroy E rd_addr map_addr ulevel res s =
     (let level = sint ulevel;
          (found, s) = find_lock_granule E rd_addr GRANULE_STATE_RD s
      in case found of
        None \<Rightarrow> Some (res[0 := RMI_ERROR_INPUT, 2 := 0], s)
      | Some g_rd \<Rightarrow> do {
          (rd_buf, s) \<leftarrow> granule_map E g_rd SLOT_RD s;
          let rd = rd_at E s g_rd;
          (if \<not> validate_rtt_structure_cmds E map_addr level rd then
             let s = buffer_unmap rd_buf s;
                 s = granule_unlock g_rd s
             in Some (res[0 := RMI_ERROR_INPUT, 2 := 0], s)
           else
             let g_table_root = g_rtt (rd_s2_ctx rd);
                 sl = realm_rtt_starting_level E rd;
                 ipa_bits = realm_ipa_bits E rd;
                 in_par = addr_in_par E rd map_addr;
                 s = buffer_unmap rd_buf s;
                 s = granule_lock g_table_root GRANULE_STATE_RTT s;
                 s = granule_unlock g_rd s;
                 (wi, s) = rtt_walk_lock_unlock E g_table_root sl ipa_bits map_addr (level - 1) s
             in do {
               (parent_s2tt, s) \<leftarrow> granule_map E (g_llt wi) SLOT_RTT s;
               let parent_s2tte = s2tte_read E parent_s2tt (wi_index wi) s;
               (ret, skip_non_live, res, s) \<leftarrow>
                 (if last_level wi \<noteq> level - 1 \<or> \<not> s2tte_is_table E parent_s2tte (level - 1)
                  then Some (pack_return_code E RMI_ERROR_RTT (last_level wi), True, res, s)
                  else
                    let rtt_addr = s2tte_pa_table E parent_s2tte (level - 1);
                        (found, s) = find_lock_granule E rtt_addr GRANULE_STATE_RTT s
                    in do {
                      g_tbl \<leftarrow> found;
                      (ret, skip_non_live, res, s) \<leftarrow>
                        rtt_destroy_table E (rd_s2_ctx rd) in_par map_addr level wi rtt_addr g_tbl parent_s2tt res s;
                      Some (ret, skip_non_live, res, granule_unlock g_tbl s)
                    });
               let res = (if skip_non_live then res[2 := skip_non_live_entries E map_addr parent_s2tt wi s]
                          else res[2 := map_addr]);
               let s = buffer_unmap parent_s2tt s;
               let s = granule_unlock (g_llt wi) s;
               Some (res[0 := ret], s)
             })
        })"

section \<open>Locks, buffers and failures\<close>

text \<open>
  What every command promises about the monitors: locks and buffer slots are as before,
  and a command that reports an error has left the realm as it was.
\<close>

fun realm_event :: "event \<Rightarrow> bool" where
  "realm_event (Set_state g st) = True"
| "realm_event (Unlock_transition g st) = (st \<noteq> GRANULE_STATE_DELEGATED)"
| "realm_event (Granule_get g) = True"
| "realm_event (Granule_put g) = True"
| "realm_event (Refcount_inc g n) = True"
| "realm_event (Refcount_dec g n) = True"
| "realm_event (S2tte_write b i v) = True"
| "realm_event (Table_fill b f) = True"
| "realm_event (Invalidate_page c a) = True"
| "realm_event (Invalidate_block c a) = True"
| "realm_event (Invalidate_pages_in_block c a) = True"
| "realm_event (Memzero_mapped b) = True"
| "realm_event (Memzero g sl) = True"
| "realm_event (Measure_data r b a f) = True"
| "realm_event (Measure_ripas r a n) = True"
| "realm_event (Set_ripas_addr g a) = True"
| "realm_event _ = False"

definition balanced :: "log \<Rightarrow> log \<Rightarrow> bool" where
  "balanced s s' \<longleftrightarrow> (\<forall>H. locks s = Some H \<longrightarrow> locks s' = Some H)"

definition slots_balanced :: "log \<Rightarrow> log \<Rightarrow> bool" where
  "slots_balanced s s' \<longleftrightarrow> (slots s = Some {#} \<longrightarrow> slots s' = Some {#})"

definition realm_unchanged :: "log \<Rightarrow> log \<Rightarrow> bool" where
  "realm_unchanged s s' \<longleftrightarrow> filter realm_event s' = filter realm_event s"

text \<open>The contract of a command that returns the status \<open>ret\<close>.\<close>

definition command_ok :: "log \<Rightarrow> u64 \<Rightarrow> log \<Rightarrow> bool" where
  "command_ok s ret s' \<longleftrightarrow>
     balanced s s' \<and> slots_balanced s s' \<and> (ret \<noteq> RMI_SUCCESS \<longrightarrow> realm_unchanged s s')"

lemmas contract_defs = command_ok_def balanced_def slots_balanced_def realm_unchanged_def

lemma rtt_create_ok:
  assumes "smc_rtt_create E rd_addr rtt_addr map_addr ulevel s = Some (ret, s')"
  shows "command_ok s ret s'"
  using assms
  by (auto simp: smc_rtt_create_def rtt_create_entry_def rtt_create_fill_def exec contract_defs Let_def
      split: option.splits if_splits prod.splits)

lemma rtt_fold_ok:
  assumes "smc_rtt_fold E rd_addr map_addr ulevel res s = Some (res', s')" "0 < length res"
  shows "command_ok s (res' ! 0) s'"
  using assms
  by (auto simp: smc_rtt_fold_def rtt_fold_parent_def rtt_fold_table_def rtt_fold_entry_def exec contract_defs Let_def
      split: option.splits if_splits prod.splits sum.splits)

lemma rtt_destroy_ok:
  assumes "smc_rtt_destroy E rd_addr map_addr ulevel res s = Some (res', s')" "0 < length res"
  shows "command_ok s (res' ! 0) s'"
  using assms
  by (auto simp: smc_rtt_destroy_def rtt_destroy_table_def exec contract_defs Let_def
      split: option.splits if_splits prod.splits)

section \<open>The interface of a command\<close>

text \<open>
  What the dispatcher and the host rely on: a command with result registers keeps the contract,
  where \<open>valid\<close> is what the command needs of its environment. A command that returns a status
  gives one that writes the status to \<open>x[0]\<close>.
\<close>

definition store_status :: "(log \<Rightarrow> (u64 \<times> log) option) \<Rightarrow> smc_result \<Rightarrow> log \<Rightarrow> (smc_result \<times> log) option" where
  "store_status run res s = map_option (\<lambda>(x, s). (res[0 := x], s)) (run s)"

locale result_command =
  fixes valid :: bool
    and run :: "smc_result \<Rightarrow> log \<Rightarrow> (smc_result \<times> log) option"
  assumes contract: "valid \<Longrightarrow> length res = SMC_RESULT_REGS \<Longrightarrow> run res s = Some (res', s') \<Longrightarrow> command_ok s (res' ! 0) s'"
begin

lemma keeps_locks:
  assumes "valid" "length res = SMC_RESULT_REGS" "run res s = Some (res', s')" "locks s = Some H"
  shows "locks s' = Some H"
  using contract [OF assms(1-3)] assms(4) by (simp add: contract_defs)

lemma keeps_slots:
  assumes "valid" "length res = SMC_RESULT_REGS" "run res s = Some (res', s')" "slots s = Some {#}"
  shows "slots s' = Some {#}"
  using contract [OF assms(1-3)] assms(4) by (simp add: contract_defs)

lemma error_keeps_realm:
  assumes "valid" "length res = SMC_RESULT_REGS" "run res s = Some (res', s')" "res' ! 0 \<noteq> RMI_SUCCESS"
  shows "filter realm_event s' = filter realm_event s"
  using contract [OF assms(1-3)] assms(4) by (simp add: contract_defs)

end

locale value_command =
  fixes run_value :: "log \<Rightarrow> (u64 \<times> log) option"
  assumes value_contract: "run_value s = Some (ret, s') \<Longrightarrow> command_ok s ret s'"
begin

lemma stored_contract:
  "length res = SMC_RESULT_REGS \<Longrightarrow> store_status run_value res s = Some (res', s') \<Longrightarrow> command_ok s (res' ! 0) s'"
  using value_contract by (cases res) (auto simp: store_status_def SMC_RESULT_REGS_def)

end

sublocale value_command \<subseteq> result_command True "store_status run_value"
  by unfold_locales (rule stored_contract)

interpretation rtt_create: value_command "smc_rtt_create E a b c d" for E a b c d
  by unfold_locales (rule rtt_create_ok)

interpretation rtt_fold: result_command True "smc_rtt_fold E a b c" for E a b c
  by unfold_locales (rule rtt_fold_ok, auto simp: SMC_RESULT_REGS_def)

interpretation rtt_destroy: result_command True "smc_rtt_destroy E a b c" for E a b c
  by unfold_locales (rule rtt_destroy_ok, auto simp: SMC_RESULT_REGS_def)

end
