(* ===== verification/Rmm_Map.thy ===== *)
theory Rmm_Map
  imports Rmm_Rtt
begin

text \<open>
  The commands of src/tetd_cca/rmm/runtime/rmi/rtt.c that map memory of the non-secure host,
  read an entry, and block or unblock a page: \<open>smc_rtt_map_unprotected\<close>,
  \<open>smc_rtt_unmap_unprotected\<close>, \<open>smc_rtt_read_entry\<close>, \<open>smc_ipa_block\<close> and
  \<open>smc_ipa_unblock\<close>.
\<close>

section \<open>Unprotected memory\<close>

datatype map_unmap_ns_op = MAP_NS | UNMAP_NS

text \<open>The body between the mapped table and \<open>out_unmap_table\<close>.\<close>

definition map_unmap_ns_entry ::
  "rmm_env \<Rightarrow> realm_s2_context \<Rightarrow> u64 \<Rightarrow> int \<Rightarrow> u64 \<Rightarrow> map_unmap_ns_op \<Rightarrow> rtt_walk \<Rightarrow> buffer \<Rightarrow>
   smc_result \<Rightarrow> log \<Rightarrow> smc_result \<times> log" where
  "map_unmap_ns_entry E ctx map_addr level host_s2tte op wi s2tt res s =
     (let s2tte = s2tte_read E s2tt (wi_index wi) s in
      case op of
        MAP_NS \<Rightarrow>
          if \<not> s2tte_is_unassigned_ns E s2tte then (res[0 := pack_return_code E RMI_ERROR_RTT level], s)
          else
            let s2tte = s2tte_create_assigned_ns E host_s2tte level;
                s = s2tte_write s2tt (wi_index wi) s2tte s
            in (res[0 := RMI_SUCCESS], s)
      | UNMAP_NS \<Rightarrow>
          let assigned_ns = s2tte_is_assigned_ns E s2tte (last_level wi) in
          if last_level wi \<noteq> level \<or> \<not> assigned_ns
          then (res[0 := pack_return_code E RMI_ERROR_RTT (last_level wi)], s)
          else
            let s2tte = s2tte_create_unassigned_ns E;
                s = s2tte_write s2tt (wi_index wi) s2tte s;
                s = (if level = RTT_PAGE_LEVEL E then Invalidate_page ctx map_addr # s
                     else Invalidate_block ctx map_addr # s)
            in (res[0 := RMI_SUCCESS], s))"

definition map_unmap_ns ::
  "rmm_env \<Rightarrow> u64 \<Rightarrow> u64 \<Rightarrow> int \<Rightarrow> u64 \<Rightarrow> map_unmap_ns_op \<Rightarrow> smc_result \<Rightarrow> log \<Rightarrow> (smc_result \<times> log) option" where
  "map_unmap_ns E rd_addr map_addr level host_s2tte op res s =
     (let (found, s) = find_lock_granule E rd_addr GRANULE_STATE_RD s
      in case found of
        None \<Rightarrow> Some (res[0 := RMI_ERROR_INPUT], s)
      | Some g_rd \<Rightarrow> do {
          (rd_buf, s) \<leftarrow> granule_map E g_rd SLOT_RD s;
          let rd = rd_at E s g_rd;
          (if \<not> validate_rtt_map_cmds E map_addr level rd then
             let s = buffer_unmap rd_buf s;
                 s = granule_unlock g_rd s
             in Some (res[0 := RMI_ERROR_INPUT], s)
           else
             let g_table_root = g_rtt (rd_s2_ctx rd);
                 sl = realm_rtt_starting_level E rd;
                 ipa_bits = realm_ipa_bits E rd
             in if addr_in_par E rd map_addr then
                  let s = buffer_unmap rd_buf s;
                      s = granule_unlock g_rd s
                  in Some (res[0 := RMI_ERROR_INPUT], s)
                else
                  let s = buffer_unmap rd_buf s;
                      s = granule_lock g_table_root GRANULE_STATE_RTT s;
                      s = granule_unlock g_rd s;
                      (wi, s) = rtt_walk_lock_unlock E g_table_root sl ipa_bits map_addr level s
                  in if op = MAP_NS \<and> last_level wi \<noteq> level then
                       Some (res[0 := pack_return_code E RMI_ERROR_RTT (last_level wi)],
                             granule_unlock (g_llt wi) s)
                     else do {
                       (s2tt, s) \<leftarrow> granule_map E (g_llt wi) SLOT_RTT s;
                       let (res, s) = map_unmap_ns_entry E (rd_s2_ctx rd) map_addr level host_s2tte op wi s2tt res s;
                       let res = (if op = UNMAP_NS then res[1 := skip_non_live_entries E map_addr s2tt wi s]
                                  else res);
                       let s = buffer_unmap s2tt s;
                       Some (res, granule_unlock (g_llt wi) s)
                     })
        })"

text \<open>The local \<open>res\<close> is uninitialised in the code; only \<open>x[0]\<close> is read, after it is set.\<close>

definition smc_rtt_map_unprotected ::
  "rmm_env \<Rightarrow> u64 \<Rightarrow> u64 \<Rightarrow> u64 \<Rightarrow> u64 \<Rightarrow> log \<Rightarrow> (u64 \<times> log) option" where
  "smc_rtt_map_unprotected E rd_addr map_addr ulevel s2tte s =
     (let level = sint ulevel;
          res = replicate SMC_RESULT_REGS 0
      in if level < RTT_MIN_BLOCK_LEVEL E \<or> level > RTT_PAGE_LEVEL E then Some (RMI_ERROR_INPUT, s)
         else if \<not> host_ns_s2tte_is_valid E s2tte level then Some (RMI_ERROR_INPUT, s)
         else do {
           (res, s) \<leftarrow> map_unmap_ns E rd_addr map_addr level s2tte MAP_NS res s;
           Some (res ! 0, s)
         })"

definition smc_rtt_unmap_unprotected ::
  "rmm_env \<Rightarrow> u64 \<Rightarrow> u64 \<Rightarrow> u64 \<Rightarrow> smc_result \<Rightarrow> log \<Rightarrow> (smc_result \<times> log) option" where
  "smc_rtt_unmap_unprotected E rd_addr map_addr ulevel res s =
     (let level = sint ulevel
      in if level < RTT_MIN_BLOCK_LEVEL E \<or> level > RTT_PAGE_LEVEL E
         then Some (res[0 := RMI_ERROR_INPUT], s)
         else map_unmap_ns E rd_addr map_addr level 0 UNMAP_NS res s)"

section \<open>Reading an entry\<close>

text \<open>The state, address and RIPAS reported for an entry; \<open>None\<close> is the final \<open>assert(false)\<close>.\<close>

definition rtt_entry_report :: "rmm_env \<Rightarrow> u64 \<Rightarrow> int \<Rightarrow> (u64 \<times> u64 \<times> u64) option" where
  "rtt_entry_report E s2tte level =
     (if s2tte_is_unassigned_empty E s2tte then Some (RMI_UNASSIGNED, 0, ripas_code E RIPAS_EMPTY)
      else if s2tte_is_unassigned_ram E s2tte then Some (RMI_UNASSIGNED, 0, ripas_code E RIPAS_RAM)
      else if s2tte_is_unassigned_destroyed E s2tte then Some (RMI_UNASSIGNED, 0, ripas_code E RIPAS_DESTROYED)
      else if s2tte_is_assigned_empty E s2tte level then
        Some (RMI_ASSIGNED, s2tte_pa E s2tte level, ripas_code E RIPAS_EMPTY)
      else if s2tte_is_assigned_ram E s2tte level then
        Some (RMI_ASSIGNED, s2tte_pa E s2tte level, ripas_code E RIPAS_RAM)
      else if s2tte_is_assigned_destroyed E s2tte level then
        Some (RMI_ASSIGNED, 0, ripas_code E RIPAS_DESTROYED)
      else if s2tte_is_unassigned_ns E s2tte then Some (RMI_UNASSIGNED, 0, ripas_code E RIPAS_EMPTY)
      else if s2tte_is_assigned_ns E s2tte level then
        Some (RMI_ASSIGNED, host_ns_s2tte E s2tte level, ripas_code E RIPAS_EMPTY)
      else if s2tte_is_table E s2tte level then
        Some (RMI_TABLE, s2tte_pa_table E s2tte level, ripas_code E RIPAS_EMPTY)
      else None)"

definition smc_rtt_read_entry ::
  "rmm_env \<Rightarrow> u64 \<Rightarrow> u64 \<Rightarrow> u64 \<Rightarrow> smc_result \<Rightarrow> log \<Rightarrow> (smc_result \<times> log) option" where
  "smc_rtt_read_entry E rd_addr map_addr ulevel res s =
     (let level = sint ulevel;
          (found, s) = find_lock_granule E rd_addr GRANULE_STATE_RD s
      in case found of
        None \<Rightarrow> Some (res[0 := RMI_ERROR_INPUT], s)
      | Some g_rd \<Rightarrow> do {
          (rd_buf, s) \<leftarrow> granule_map E g_rd SLOT_RD s;
          let rd = rd_at E s g_rd;
          (if \<not> validate_rtt_entry_cmds E map_addr level rd then
             let s = buffer_unmap rd_buf s;
                 s = granule_unlock g_rd s
             in Some (res[0 := RMI_ERROR_INPUT], s)
           else
             let g_rtt_root = g_rtt (rd_s2_ctx rd);
                 sl = realm_rtt_starting_level E rd;
                 ipa_bits = realm_ipa_bits E rd;
                 s = buffer_unmap rd_buf s;
                 s = granule_lock g_rtt_root GRANULE_STATE_RTT s;
                 s = granule_unlock g_rd s;
                 (wi, s) = rtt_walk_lock_unlock E g_rtt_root sl ipa_bits map_addr level s
             in do {
               (s2tt, s) \<leftarrow> granule_map E (g_llt wi) SLOT_RTT s;
               let s2tte = s2tte_read E s2tt (wi_index wi) s;
               let res = res[1 := of_int (last_level wi)];
               (state, pa, rp) \<leftarrow> rtt_entry_report E s2tte (last_level wi);
               let res = res[2 := state, 3 := pa, 4 := rp];
               let s = buffer_unmap s2tt s;
               let s = granule_unlock (g_llt wi) s;
               Some (res[0 := RMI_SUCCESS], s)
             })
        })"

section \<open>Blocking a page\<close>

definition S2TTE_AP_SHIFT :: nat where "S2TTE_AP_SHIFT = 6"
definition S2TTE_AP_MASK :: u64 where "S2TTE_AP_MASK = push_bit S2TTE_AP_SHIFT 3"
definition S2TTE_XN :: u64 where "S2TTE_XN = push_bit 53 2"

definition block_s2tte :: "u64 \<Rightarrow> u64" where
  "block_s2tte s2tte =
     (let s2tte = s2tte AND NOT S2TTE_AP_MASK;
          s2tte = s2tte OR S2TTE_XN
      in s2tte)"

definition unblock_s2tte :: "u64 \<Rightarrow> u64" where
  "unblock_s2tte s2tte =
     (let s2tte = s2tte OR S2TTE_AP_MASK;
          s2tte = s2tte AND NOT S2TTE_XN
      in s2tte)"

text \<open>
  Both commands unlock \<open>g_rd\<close> after taking the lock of the root table and again on every
  path that follows; they share everything but the new entry.
\<close>

definition smc_ipa_block :: "rmm_env \<Rightarrow> u64 \<Rightarrow> u64 \<Rightarrow> log \<Rightarrow> (u64 \<times> log) option" where
  "smc_ipa_block E rd_addr map_addr s =
     (let (found, s) = find_lock_granule E rd_addr GRANULE_STATE_RD s
      in case found of
        None \<Rightarrow> Some (RMI_ERROR_INPUT, s)
      | Some g_rd \<Rightarrow> do {
          (rd_buf, s) \<leftarrow> granule_map E g_rd SLOT_RD s;
          let rd = rd_at E s g_rd;
          (if \<not> validate_map_addr E map_addr (RTT_PAGE_LEVEL E) rd then
             let s = buffer_unmap rd_buf s;
                 s = granule_unlock g_rd s
             in Some (RMI_ERROR_INPUT, s)
           else
             let g_table_root = g_rtt (rd_s2_ctx rd);
                 sl = realm_rtt_starting_level E rd;
                 ipa_bits = realm_ipa_bits E rd;
                 ctx = rd_s2_ctx rd;
                 s = granule_lock g_table_root GRANULE_STATE_RTT s;
                 s = granule_unlock g_rd s;
                 (wi, s) = rtt_walk_lock_unlock E g_table_root sl ipa_bits map_addr (RTT_PAGE_LEVEL E) s
             in do {
               (s2tt, s) \<leftarrow> granule_map E (g_llt wi) SLOT_RTT s;
               let s2tte = s2tte_read E s2tt (wi_index wi) s;
               (if s2tte_is_assigned_ram E s2tte (RTT_PAGE_LEVEL E) then
                  let s = s2tte_write s2tt (wi_index wi) (block_s2tte s2tte) s;
                      s = Invalidate_page ctx map_addr # s;
                      s = buffer_unmap s2tt s;
                      s = granule_unlock (g_llt wi) s;
                      s = buffer_unmap rd_buf s;
                      s = granule_unlock g_rd s
                  in Some (RMI_SUCCESS, s)
                else
                  let s = buffer_unmap s2tt s;
                      s = granule_unlock (g_llt wi) s;
                      s = buffer_unmap rd_buf s;
                      s = granule_unlock g_rd s
                  in Some (RMI_ERROR_RTT, s))
             })
        })"

definition smc_ipa_unblock :: "rmm_env \<Rightarrow> u64 \<Rightarrow> u64 \<Rightarrow> log \<Rightarrow> (u64 \<times> log) option" where
  "smc_ipa_unblock E rd_addr map_addr s =
     (let (found, s) = find_lock_granule E rd_addr GRANULE_STATE_RD s
      in case found of
        None \<Rightarrow> Some (RMI_ERROR_INPUT, s)
      | Some g_rd \<Rightarrow> do {
          (rd_buf, s) \<leftarrow> granule_map E g_rd SLOT_RD s;
          let rd = rd_at E s g_rd;
          (if \<not> validate_map_addr E map_addr (RTT_PAGE_LEVEL E) rd then
             let s = buffer_unmap rd_buf s;
                 s = granule_unlock g_rd s
             in Some (RMI_ERROR_INPUT, s)
           else
             let g_table_root = g_rtt (rd_s2_ctx rd);
                 sl = realm_rtt_starting_level E rd;
                 ipa_bits = realm_ipa_bits E rd;
                 ctx = rd_s2_ctx rd;
                 s = granule_lock g_table_root GRANULE_STATE_RTT s;
                 s = granule_unlock g_rd s;
                 (wi, s) = rtt_walk_lock_unlock E g_table_root sl ipa_bits map_addr (RTT_PAGE_LEVEL E) s
             in do {
               (s2tt, s) \<leftarrow> granule_map E (g_llt wi) SLOT_RTT s;
               let s2tte = s2tte_read E s2tt (wi_index wi) s;
               (if s2tte_is_assigned_ram E s2tte (RTT_PAGE_LEVEL E) then
                  let s = s2tte_write s2tt (wi_index wi) (unblock_s2tte s2tte) s;
                      s = Invalidate_page ctx map_addr # s;
                      s = buffer_unmap s2tt s;
                      s = granule_unlock (g_llt wi) s;
                      s = buffer_unmap rd_buf s;
                      s = granule_unlock g_rd s
                  in Some (RMI_SUCCESS, s)
                else
                  let s = buffer_unmap s2tt s;
                      s = granule_unlock (g_llt wi) s;
                      s = buffer_unmap rd_buf s;
                      s = granule_unlock g_rd s
                  in Some (RMI_ERROR_RTT, s))
             })
        })"

section \<open>Contracts\<close>

lemma map_unmap_ns_entry_ok:
  assumes "map_unmap_ns_entry E ctx map_addr level host_s2tte op wi s2tt res s = (res', s')" "0 < length res"
  shows "locks s' = locks s \<and> slots s' = slots s \<and> length res' = length res \<and>
    (res' ! 0 \<noteq> RMI_SUCCESS \<longrightarrow> filter realm_event s' = filter realm_event s)"
proof -
  have f: "filter lock_event s' = filter lock_event s" "filter slot_event s' = filter slot_event s"
    using assms by (auto simp: map_unmap_ns_entry_def exec Let_def split: map_unmap_ns_op.splits if_splits)
  have "length res' = length res \<and>
      (res' ! 0 \<noteq> RMI_SUCCESS \<longrightarrow> filter realm_event s' = filter realm_event s)"
    using assms by (auto simp: map_unmap_ns_entry_def exec Let_def split: map_unmap_ns_op.splits if_splits)
  with locks_unwatched [OF f(1)] slots_unwatched [OF f(2)] show ?thesis by blast
qed

lemma map_unmap_ns_ok:
  assumes "map_unmap_ns E rd_addr map_addr level host_s2tte op res s = Some (res', s')" "1 < length res"
  shows "command_ok s (res' ! 0) s'"
  using assms
  by (auto simp: map_unmap_ns_def exec contract_defs Let_def
      split: option.splits if_splits prod.splits dest!: map_unmap_ns_entry_ok)

lemma rtt_map_unprotected_ok:
  assumes "smc_rtt_map_unprotected E rd_addr map_addr ulevel s2tte s = Some (ret, s')"
  shows "command_ok s ret s'"
proof -
  have "command_ok s st s" for st by (simp add: contract_defs)
  then show ?thesis
    using assms map_unmap_ns_ok [of E rd_addr map_addr "sint ulevel" s2tte MAP_NS "replicate SMC_RESULT_REGS 0" s]
    by (auto simp: smc_rtt_map_unprotected_def SMC_RESULT_REGS_def Let_def
        split: if_splits Option.bind_splits)
qed

lemma rtt_unmap_unprotected_ok:
  assumes "smc_rtt_unmap_unprotected E rd_addr map_addr ulevel res s = Some (res', s')" "1 < length res"
  shows "command_ok s (res' ! 0) s'"
proof -
  have "command_ok s st s" for st by (simp add: contract_defs)
  then show ?thesis
    using assms map_unmap_ns_ok [of E rd_addr map_addr "sint ulevel" 0 UNMAP_NS res s]
    by (auto simp: smc_rtt_unmap_unprotected_def Let_def split: if_splits)
qed

lemma rtt_read_entry_ok:
  assumes "smc_rtt_read_entry E rd_addr map_addr ulevel res s = Some (res', s')" "0 < length res"
  shows "command_ok s (res' ! 0) s' \<and> realm_unchanged s s'"
  using assms
  by (auto simp: smc_rtt_read_entry_def exec contract_defs Let_def
      split: option.splits if_splits prod.splits Option.bind_splits)

text \<open>Blocking a page unlocks the realm descriptor a second time unless the walk never starts.\<close>

lemma ipa_block_locks:
  assumes "smc_ipa_block E rd_addr map_addr s = Some (ret, s')" "locks s = Some {#}"
  shows "locks s' = (if ret = RMI_ERROR_INPUT then Some {#} else None)"
  using assms
  by (auto simp: smc_ipa_block_def exec Let_def rmi_status_defs split: option.splits if_splits prod.splits)

lemma ipa_unblock_locks:
  assumes "smc_ipa_unblock E rd_addr map_addr s = Some (ret, s')" "locks s = Some {#}"
  shows "locks s' = (if ret = RMI_ERROR_INPUT then Some {#} else None)"
  using assms
  by (auto simp: smc_ipa_unblock_def exec Let_def rmi_status_defs split: option.splits if_splits prod.splits)

interpretation rtt_map_unprotected: value_command "smc_rtt_map_unprotected E a b c d" for E a b c d
  by unfold_locales (rule rtt_map_unprotected_ok)

interpretation rtt_unmap_unprotected: result_command "True" "smc_rtt_unmap_unprotected E a b c" for E a b c
  by unfold_locales (rule rtt_unmap_unprotected_ok, auto simp: SMC_RESULT_REGS_def)

interpretation rtt_read_entry: result_command "True" "smc_rtt_read_entry E a b c" for E a b c
  by unfold_locales (rule rtt_read_entry_ok [THEN conjunct1], auto simp: SMC_RESULT_REGS_def)

end
