(* ===== verification/Rmm_Data.thy ===== *)
theory Rmm_Data
  imports Rmm_Rtt
begin

text \<open>
  The data commands of src/tetd_cca/rmm/runtime/rmi/rtt.c: \<open>smc_data_create\<close>,
  \<open>smc_data_create_unknown\<close> and \<open>smc_data_destroy\<close>. The data granule of \<open>data_create\<close>
  is released with a transition to the state that the local \<open>new_data_state\<close> holds.
\<close>

section \<open>Creating data\<close>

definition validate_data_create_unknown :: "rmm_env \<Rightarrow> u64 \<Rightarrow> rd \<Rightarrow> u64" where
  "validate_data_create_unknown E map_addr rd =
     (if \<not> addr_in_par E rd map_addr then RMI_ERROR_INPUT
      else if \<not> validate_map_addr E map_addr (RTT_PAGE_LEVEL E) rd then RMI_ERROR_INPUT
      else RMI_SUCCESS)"

definition validate_data_create :: "rmm_env \<Rightarrow> u64 \<Rightarrow> rd \<Rightarrow> u64" where
  "validate_data_create E map_addr rd =
     (if \<not> realm_is_new E rd then RMI_ERROR_REALM else validate_data_create_unknown E map_addr rd)"

text \<open>
  Filling the granule and choosing the entry: an error (\<open>Inl\<close>) of the copy from the host, or the
  new entry.
\<close>

definition data_create_content ::
  "rmm_env \<Rightarrow> rd \<Rightarrow> gptr \<Rightarrow> u64 \<Rightarrow> u64 \<Rightarrow> gptr option \<Rightarrow> u64 \<Rightarrow> u64 \<Rightarrow> log \<Rightarrow>
   ((u64 + u64) \<times> log) option" where
  "data_create_content E rd g_data data_addr map_addr g_src flags s2tte s =
     (case g_src of
        Some g_src \<Rightarrow> do {
          (data, s) \<leftarrow> granule_map E g_data SLOT_DELEGATED s;
          let ns_access_ok = answer_ns_buffer_read E s g_src;
          let s = Ns_read g_src data # s;
          (if \<not> ns_access_ok then
             let s = Memset_zero data # s;
                 s = buffer_unmap data s
             in Some (Inl RMI_ERROR_INPUT, s)
           else
             let s = Measure_data rd data map_addr flags # s;
                 s = buffer_unmap data s
             in Some (Inr (s2tte_create_assigned_ram E data_addr (RTT_PAGE_LEVEL E)), s))
        }
      | None \<Rightarrow> Some (Inr (s2tte_create_assigned_unchanged E s2tte data_addr (RTT_PAGE_LEVEL E)), s))"

text \<open>From the mapping of the last table to \<open>out_unmap_ll_table\<close>.\<close>

definition data_create_entry ::
  "rmm_env \<Rightarrow> rd \<Rightarrow> gptr \<Rightarrow> u64 \<Rightarrow> u64 \<Rightarrow> gptr option \<Rightarrow> u64 \<Rightarrow> rtt_walk \<Rightarrow> log \<Rightarrow>
   (u64 \<times> granule_state \<times> log) option" where
  "data_create_entry E rd g_data data_addr map_addr g_src flags wi s =
     do {
       (s2tt, s) \<leftarrow> granule_map E (g_llt wi) SLOT_RTT s;
       let s2tte = s2tte_read E s2tt (wi_index wi) s;
       (if \<not> s2tte_is_unassigned E s2tte then
          Some (pack_return_code E RMI_ERROR_RTT (RTT_PAGE_LEVEL E), GRANULE_STATE_DELEGATED, buffer_unmap s2tt s)
        else do {
          (content, s) \<leftarrow> data_create_content E rd g_data data_addr map_addr g_src flags s2tte s;
          (case content of
             Inl ret \<Rightarrow> Some (ret, GRANULE_STATE_DELEGATED, buffer_unmap s2tt s)
           | Inr s2tte \<Rightarrow>
               let s = s2tte_write s2tt (wi_index wi) s2tte s;
                   s = Granule_get (g_llt wi) # s
               in Some (RMI_SUCCESS, GRANULE_STATE_DATA, buffer_unmap s2tt s))
        })
     }"

definition data_create ::
  "rmm_env \<Rightarrow> u64 \<Rightarrow> u64 \<Rightarrow> u64 \<Rightarrow> gptr option \<Rightarrow> u64 \<Rightarrow> log \<Rightarrow> (u64 \<times> log) option" where
  "data_create E rd_addr data_addr map_addr g_src flags s =
     (let (found, s) = find_lock_two_granules E data_addr GRANULE_STATE_DELEGATED rd_addr GRANULE_STATE_RD s
      in case found of
        None \<Rightarrow> Some (RMI_ERROR_INPUT, s)
      | Some (g_data, g_rd) \<Rightarrow> do {
          (rd_buf, s) \<leftarrow> granule_map E g_rd SLOT_RD s;
          let rd = rd_at E s g_rd;
          let ret = (if g_src \<noteq> None then validate_data_create E map_addr rd
                     else validate_data_create_unknown E map_addr rd);
          (ret, new_data_state, s) \<leftarrow>
            (if ret \<noteq> RMI_SUCCESS then Some (ret, GRANULE_STATE_DELEGATED, s)
             else
               let g_table_root = g_rtt (rd_s2_ctx rd);
                   sl = realm_rtt_starting_level E rd;
                   ipa_bits = realm_ipa_bits E rd;
                   s = granule_lock g_table_root GRANULE_STATE_RTT s;
                   (wi, s) = rtt_walk_lock_unlock E g_table_root sl ipa_bits map_addr (RTT_PAGE_LEVEL E) s
               in if last_level wi \<noteq> RTT_PAGE_LEVEL E then
                    Some (pack_return_code E RMI_ERROR_RTT (last_level wi), GRANULE_STATE_DELEGATED,
                          granule_unlock (g_llt wi) s)
                  else do {
                    (ret, new_data_state, s) \<leftarrow>
                      data_create_entry E rd g_data data_addr map_addr g_src flags wi s;
                    Some (ret, new_data_state, granule_unlock (g_llt wi) s)
                  });
          let s = buffer_unmap rd_buf s;
          let s = granule_unlock g_rd s;
          let s = granule_unlock_transition g_data new_data_state s;
          Some (ret, s)
        })"

definition smc_data_create ::
  "rmm_env \<Rightarrow> u64 \<Rightarrow> u64 \<Rightarrow> u64 \<Rightarrow> u64 \<Rightarrow> u64 \<Rightarrow> log \<Rightarrow> (u64 \<times> log) option" where
  "smc_data_create E rd_addr data_addr map_addr src_addr flags s =
     (if flags \<noteq> RMI_NO_MEASURE_CONTENT \<and> flags \<noteq> RMI_MEASURE_CONTENT then Some (RMI_ERROR_INPUT, s)
      else
        (case answer_find_granule E s src_addr of
           None \<Rightarrow> Some (RMI_ERROR_INPUT, s)
         | Some g_src \<Rightarrow>
             if answer_state E s g_src \<noteq> GRANULE_STATE_NS then Some (RMI_ERROR_INPUT, s)
             else data_create E rd_addr data_addr map_addr (Some g_src) flags s))"

definition smc_data_create_unknown ::
  "rmm_env \<Rightarrow> u64 \<Rightarrow> u64 \<Rightarrow> u64 \<Rightarrow> log \<Rightarrow> (u64 \<times> log) option" where
  "smc_data_create_unknown E rd_addr data_addr map_addr s =
     data_create E rd_addr data_addr map_addr None 0 s"

section \<open>Destroying data\<close>

text \<open>The new entry by the kind of the old one, or \<open>None\<close> where no data is assigned.\<close>

definition data_destroy_entry ::
  "rmm_env \<Rightarrow> realm_s2_context \<Rightarrow> u64 \<Rightarrow> rtt_walk \<Rightarrow> buffer \<Rightarrow> log \<Rightarrow> (u64 \<times> log) option" where
  "data_destroy_entry E ctx map_addr wi s2tt s =
     (let s2tte = s2tte_read E s2tt (wi_index wi) s;
          data_addr = s2tte_pa E s2tte (RTT_PAGE_LEVEL E)
      in if s2tte_is_assigned_ram E s2tte (RTT_PAGE_LEVEL E) then
           Some (data_addr, Invalidate_page ctx map_addr #
                            s2tte_write s2tt (wi_index wi) (s2tte_create_unassigned_destroyed E) s)
         else if s2tte_is_assigned_empty E s2tte (RTT_PAGE_LEVEL E) then
           Some (data_addr, s2tte_write s2tt (wi_index wi) (s2tte_create_unassigned_empty E) s)
         else if s2tte_is_assigned_destroyed E s2tte (RTT_PAGE_LEVEL E) then
           Some (data_addr, s2tte_write s2tt (wi_index wi) (s2tte_create_unassigned_destroyed E) s)
         else None)"

text \<open>From the mapped table to \<open>out_unmap_ll_table\<close>: the granule is zeroed before it is released.\<close>

definition data_destroy_table ::
  "rmm_env \<Rightarrow> realm_s2_context \<Rightarrow> u64 \<Rightarrow> rtt_walk \<Rightarrow> buffer \<Rightarrow> smc_result \<Rightarrow> log \<Rightarrow> (smc_result \<times> log) option" where
  "data_destroy_table E ctx map_addr wi s2tt res s =
     (if last_level wi \<noteq> RTT_PAGE_LEVEL E
      then Some (res[0 := pack_return_code E RMI_ERROR_RTT (last_level wi)], s)
      else
        (case data_destroy_entry E ctx map_addr wi s2tt s of
           None \<Rightarrow> Some (res[0 := pack_return_code E RMI_ERROR_RTT (RTT_PAGE_LEVEL E)], s)
         | Some (data_addr, s) \<Rightarrow>
             let s = Granule_put (g_llt wi) # s;
                 (found, s) = find_lock_granule E data_addr GRANULE_STATE_DATA s
             in do {
               g_data \<leftarrow> found;
               let s = Memzero g_data SLOT_DELEGATED # s;
               let s = granule_unlock_transition g_data GRANULE_STATE_DELEGATED s;
               Some (res[0 := RMI_SUCCESS, 1 := data_addr], s)
             }))"

definition smc_data_destroy ::
  "rmm_env \<Rightarrow> u64 \<Rightarrow> u64 \<Rightarrow> smc_result \<Rightarrow> log \<Rightarrow> (smc_result \<times> log) option" where
  "smc_data_destroy E rd_addr map_addr res s =
     (let (found, s) = find_lock_granule E rd_addr GRANULE_STATE_RD s
      in case found of
        None \<Rightarrow> Some (res[0 := RMI_ERROR_INPUT, 2 := 0], s)
      | Some g_rd \<Rightarrow> do {
          (rd_buf, s) \<leftarrow> granule_map E g_rd SLOT_RD s;
          let rd = rd_at E s g_rd;
          (if \<not> addr_in_par E rd map_addr \<or> \<not> validate_map_addr E map_addr (RTT_PAGE_LEVEL E) rd then
             let s = buffer_unmap rd_buf s;
                 s = granule_unlock g_rd s
             in Some (res[0 := RMI_ERROR_INPUT, 2 := 0], s)
           else
             let g_table_root = g_rtt (rd_s2_ctx rd);
                 sl = realm_rtt_starting_level E rd;
                 ipa_bits = realm_ipa_bits E rd;
                 s = buffer_unmap rd_buf s;
                 s = granule_lock g_table_root GRANULE_STATE_RTT s;
                 s = granule_unlock g_rd s;
                 (wi, s) = rtt_walk_lock_unlock E g_table_root sl ipa_bits map_addr (RTT_PAGE_LEVEL E) s
             in do {
               (s2tt, s) \<leftarrow> granule_map E (g_llt wi) SLOT_RTT s;
               (res, s) \<leftarrow> data_destroy_table E (rd_s2_ctx rd) map_addr wi s2tt res s;
               let res = res[2 := skip_non_live_entries E map_addr s2tt wi s];
               let s = buffer_unmap s2tt s;
               let s = granule_unlock (g_llt wi) s;
               Some (res, s)
             })
        })"

section \<open>Contracts\<close>

lemma data_create_ok:
  assumes "data_create E rd_addr data_addr map_addr g_src flags s = Some (ret, s')"
  shows "command_ok s ret s'"
  using assms
  by (auto simp: data_create_def data_create_entry_def data_create_content_def exec contract_defs Let_def
      split: option.splits if_splits prod.splits sum.splits)

lemma smc_data_create_ok:
  assumes "smc_data_create E rd_addr data_addr map_addr src_addr flags s = Some (ret, s')"
  shows "command_ok s ret s'"
proof -
  have "command_ok s st s" for st by (simp add: contract_defs)
  then show ?thesis
    using assms data_create_ok
    by (auto simp: smc_data_create_def split: option.splits if_splits)
qed

lemma smc_data_create_unknown_ok:
  assumes "smc_data_create_unknown E rd_addr data_addr map_addr s = Some (ret, s')"
  shows "command_ok s ret s'"
  using assms data_create_ok by (auto simp: smc_data_create_unknown_def)

lemma data_destroy_table_ok:
  assumes "data_destroy_table E ctx map_addr wi s2tt res s = Some (res', s')" "2 < length res"
  shows "length res' = length res \<and> (\<forall>H. locks s = Some H \<longrightarrow> locks s' = Some H) \<and>
    (\<forall>M. slots s = Some M \<and> SLOT_DELEGATED \<notin># image_mset snd M \<longrightarrow> slots s' = Some M) \<and>
    (res' ! 0 \<noteq> RMI_SUCCESS \<longrightarrow> filter realm_event s' = filter realm_event s)"
  using assms
  by (cases res) (auto simp: data_destroy_table_def data_destroy_entry_def exec Let_def
      split: option.splits if_splits prod.splits)

lemma data_destroy_ok:
  assumes "smc_data_destroy E rd_addr map_addr res s = Some (res', s')" "2 < length res"
  shows "command_ok s (res' ! 0) s'"
  using assms
  by (auto simp: smc_data_destroy_def exec contract_defs Let_def
      split: option.splits if_splits prod.splits Option.bind_splits dest!: data_destroy_table_ok)

text \<open>The data granule becomes a data granule of the realm exactly when the command succeeds.\<close>

lemma data_create_transition:
  assumes "data_create E rd_addr data_addr map_addr g_src flags s = Some (ret, s')"
    and "\<And>l. pack_return_code E RMI_ERROR_RTT l \<noteq> RMI_SUCCESS"
  shows "(\<exists>g g_rd. answer_find_lock_two E s data_addr GRANULE_STATE_DELEGATED rd_addr GRANULE_STATE_RD = Some (g, g_rd) \<and>
            hd s' = Unlock_transition g (if ret = RMI_SUCCESS then GRANULE_STATE_DATA else GRANULE_STATE_DELEGATED)) \<or>
         (ret = RMI_ERROR_INPUT \<and> s' = s)"
  using assms
  by (auto simp: data_create_def data_create_entry_def data_create_content_def exec Let_def
      split: option.splits if_splits prod.splits sum.splits)

interpretation data_create_known: value_command "smc_data_create E a b c d e" for E a b c d e
  by unfold_locales (rule smc_data_create_ok)

interpretation data_create_unknown: value_command "smc_data_create_unknown E a b c" for E a b c
  by unfold_locales (rule smc_data_create_unknown_ok)

interpretation data_destroy: result_command "True" "smc_data_destroy E a b" for E a b
  by unfold_locales (rule data_destroy_ok, auto simp: SMC_RESULT_REGS_def)

end
