(* ===== verification/Rmm_Ripas.thy ===== *)
theory Rmm_Ripas
  imports Rmm_Rtt
begin

text \<open>
  The RIPAS commands of src/tetd_cca/rmm/runtime/rmi/rtt.c: \<open>update_ripas\<close> on one entry,
  \<open>rtt_set_ripas_range\<close> on the entries of one table, \<open>smc_rtt_init_ripas\<close> and
  \<open>smc_rtt_set_ripas\<close>. A loop over the entries of a table is a recursion on the list of the
  indices that are left.
\<close>

section \<open>One entry\<close>

text \<open>The new entry with the value of \<open>ret\<close>; \<open>Inl\<close> is a return before the write.\<close>

definition update_ripas_entry ::
  "rmm_env \<Rightarrow> u64 \<Rightarrow> int \<Rightarrow> ripas \<Rightarrow> ripas_change_destroyed \<Rightarrow> int + (u64 \<times> int)" where
  "update_ripas_entry E s2tte level ripas_val change_destroyed =
     (if \<not> s2tte_has_ripas E s2tte level then Inl (- 1)
      else if ripas_val = RIPAS_RAM then
        if s2tte_is_unassigned_empty E s2tte then Inr (s2tte_create_unassigned_ram E, 0)
        else if s2tte_is_unassigned_destroyed E s2tte then
          if change_destroyed = CHANGE_DESTROYED then Inr (s2tte_create_unassigned_ram E, 0) else Inl (- 1)
        else if s2tte_is_assigned_empty E s2tte level then
          let pa = s2tte_pa E s2tte level in Inr (s2tte_create_assigned_ram E pa level, 0)
        else if s2tte_is_assigned_destroyed E s2tte level then
          if change_destroyed = CHANGE_DESTROYED then
            let pa = s2tte_pa E s2tte level in Inr (s2tte_create_assigned_ram E pa level, 0)
          else Inl (- 1)
        else Inl 0
      else if ripas_val = RIPAS_EMPTY then
        if s2tte_is_unassigned_ram E s2tte then Inr (s2tte_create_unassigned_empty E, 0)
        else if s2tte_is_unassigned_destroyed E s2tte then
          if change_destroyed = CHANGE_DESTROYED then Inr (s2tte_create_unassigned_empty E, 0) else Inl (- 1)
        else if s2tte_is_assigned_ram E s2tte level then
          let pa = s2tte_pa E s2tte level in Inr (s2tte_create_assigned_empty E pa level, 1)
        else if s2tte_is_assigned_destroyed E s2tte level then
          if change_destroyed = CHANGE_DESTROYED then
            let pa = s2tte_pa E s2tte level in Inr (s2tte_create_assigned_empty E pa level, 1)
          else Inl (- 1)
        else Inl 0
      else Inr (s2tte, 0))"

definition update_ripas ::
  "rmm_env \<Rightarrow> buffer \<Rightarrow> nat \<Rightarrow> int \<Rightarrow> ripas \<Rightarrow> ripas_change_destroyed \<Rightarrow> log \<Rightarrow> int \<times> log" where
  "update_ripas E s2tt idx level ripas_val change_destroyed s =
     (let s2tte = s2tte_read E s2tt idx s
      in case update_ripas_entry E s2tte level ripas_val change_destroyed of
           Inl ret \<Rightarrow> (ret, s)
         | Inr (s2tte, ret) \<Rightarrow> (ret, s2tte_write s2tt idx s2tte s))"

section \<open>The entries of one table\<close>

fun set_ripas_loop ::
  "rmm_env \<Rightarrow> realm_s2_context \<Rightarrow> buffer \<Rightarrow> int \<Rightarrow> u64 \<Rightarrow> u64 \<Rightarrow> ripas \<Rightarrow> ripas_change_destroyed \<Rightarrow>
   nat list \<Rightarrow> u64 \<Rightarrow> log \<Rightarrow> u64 \<times> log" where
  "set_ripas_loop E ctx s2tt level map_size top_addr rv cd [] addr s = (addr, s)"
| "set_ripas_loop E ctx s2tt level map_size top_addr rv cd (idx # is) addr s =
     (if addr + map_size > top_addr then (addr, s)
      else
        let (ret, s) = update_ripas E s2tt idx level rv cd s
        in if ret < 0 then (addr, s)
           else
             let s = (if ret \<noteq> 0 then
                        if level = RTT_PAGE_LEVEL E then Invalidate_page ctx addr # s
                        else Invalidate_block ctx addr # s
                      else s)
             in set_ripas_loop E ctx s2tt level map_size top_addr rv cd is (addr + map_size) s)"

definition rtt_set_ripas_range ::
  "rmm_env \<Rightarrow> realm_s2_context \<Rightarrow> buffer \<Rightarrow> u64 \<Rightarrow> u64 \<Rightarrow> rtt_walk \<Rightarrow> ripas \<Rightarrow> ripas_change_destroyed \<Rightarrow>
   smc_result \<Rightarrow> log \<Rightarrow> smc_result \<times> log" where
  "rtt_set_ripas_range E ctx s2tt base top_addr wi ripas_val change_destroyed res s =
     (let level = last_level wi;
          map_size = s2tte_map_size E level;
          addr = base AND NOT (map_size - 1)
      in if addr \<noteq> base then (res[0 := pack_return_code E RMI_ERROR_RTT level], s)
         else
           let (addr, s) = set_ripas_loop E ctx s2tt level map_size top_addr ripas_val change_destroyed
                             [wi_index wi..<S2TTES_PER_S2TT E] addr s
           in if addr > base then (res[0 := RMI_SUCCESS, 1 := addr], s)
              else (res[0 := pack_return_code E RMI_ERROR_RTT level], s))"

fun init_ripas_loop ::
  "rmm_env \<Rightarrow> rd \<Rightarrow> buffer \<Rightarrow> u64 \<Rightarrow> u64 \<Rightarrow> nat list \<Rightarrow> u64 \<Rightarrow> log \<Rightarrow> u64 \<times> log" where
  "init_ripas_loop E rd s2tt map_size top_addr [] addr s = (addr, s)"
| "init_ripas_loop E rd s2tt map_size top_addr (idx # is) addr s =
     (let nxt = addr + map_size in
      if nxt > top_addr then (addr, s)
      else
        let s2tte = s2tte_read E s2tt idx s
        in if s2tte_is_unassigned_empty E s2tte then
             let s = s2tte_write s2tt idx (s2tte_create_unassigned_ram E) s;
                 s = Measure_ripas rd addr nxt # s
             in init_ripas_loop E rd s2tt map_size top_addr is nxt s
           else if \<not> s2tte_is_unassigned_ram E s2tte then (addr, s)
           else
             let s = Measure_ripas rd addr nxt # s
             in init_ripas_loop E rd s2tt map_size top_addr is nxt s)"

section \<open>The commands\<close>

text \<open>From the mapped table to \<open>out_unmap_llt\<close>.\<close>

definition init_ripas_table ::
  "rmm_env \<Rightarrow> rd \<Rightarrow> u64 \<Rightarrow> u64 \<Rightarrow> rtt_walk \<Rightarrow> buffer \<Rightarrow> smc_result \<Rightarrow> log \<Rightarrow> smc_result \<times> log" where
  "init_ripas_table E rd base top_addr wi s2tt res s =
     (let level = last_level wi;
          map_size = s2tte_map_size E level;
          addr = base AND NOT (map_size - 1)
      in if addr \<noteq> base then (res[0 := pack_return_code E RMI_ERROR_RTT level], s)
         else
           let (addr, s) = init_ripas_loop E rd s2tt map_size top_addr [wi_index wi..<S2TTES_PER_S2TT E] addr s
           in if addr > base then (res[0 := RMI_SUCCESS, 1 := addr], s)
              else (res[0 := pack_return_code E RMI_ERROR_RTT level], s))"

definition smc_rtt_init_ripas ::
  "rmm_env \<Rightarrow> u64 \<Rightarrow> u64 \<Rightarrow> u64 \<Rightarrow> smc_result \<Rightarrow> log \<Rightarrow> (smc_result \<times> log) option" where
  "smc_rtt_init_ripas E rd_addr base top_addr res s =
     (if top_addr \<le> base then Some (res[0 := RMI_ERROR_INPUT], s)
      else
        let (found, s) = find_lock_granule E rd_addr GRANULE_STATE_RD s
        in case found of
          None \<Rightarrow> Some (res[0 := RMI_ERROR_INPUT], s)
        | Some g_rd \<Rightarrow> do {
            (rd_buf, s) \<leftarrow> granule_map E g_rd SLOT_RD s;
            let rd = rd_at E s g_rd;
            (if \<not> validate_map_addr E base (RTT_PAGE_LEVEL E) rd \<or>
                \<not> validate_map_addr E top_addr (RTT_PAGE_LEVEL E) rd \<or>
                \<not> addr_in_par E rd base \<or> \<not> addr_in_par E rd (top_addr - GRANULE_SIZE E) then
               let s = buffer_unmap rd_buf s;
                   s = granule_unlock g_rd s
               in Some (res[0 := RMI_ERROR_INPUT], s)
             else if \<not> realm_is_new E rd then
               let s = buffer_unmap rd_buf s;
                   s = granule_unlock g_rd s
               in Some (res[0 := RMI_ERROR_REALM], s)
             else
               let g_rtt_root = g_rtt (rd_s2_ctx rd);
                   sl = realm_rtt_starting_level E rd;
                   ipa_bits = realm_ipa_bits E rd;
                   s = granule_lock g_rtt_root GRANULE_STATE_RTT s;
                   (wi, s) = rtt_walk_lock_unlock E g_rtt_root sl ipa_bits base (RTT_PAGE_LEVEL E) s
               in do {
                 (s2tt, s) \<leftarrow> granule_map E (g_llt wi) SLOT_RTT s;
                 let (res, s) = init_ripas_table E rd base top_addr wi s2tt res s;
                 let s = buffer_unmap s2tt s;
                 let s = buffer_unmap rd_buf s;
                 let s = granule_unlock (g_llt wi) s;
                 let s = granule_unlock g_rd s;
                 Some (res, s)
               })
          })"

text \<open>From the mapped REC to \<open>out_unmap_rec\<close>.\<close>

definition set_ripas_rec ::
  "rmm_env \<Rightarrow> gptr \<Rightarrow> gptr \<Rightarrow> rec_ripas \<Rightarrow> u64 \<Rightarrow> u64 \<Rightarrow> smc_result \<Rightarrow> log \<Rightarrow> (smc_result \<times> log) option" where
  "set_ripas_rec E g_rd g_rec rec base top_addr res s =
     (if g_rd \<noteq> rec_g_rd rec then Some (res[0 := RMI_ERROR_REC], s)
      else if base \<noteq> set_ripas_addr rec \<or> top_addr > set_ripas_top rec then Some (res[0 := RMI_ERROR_INPUT], s)
      else do {
        (rd_buf, s) \<leftarrow> granule_map E g_rd SLOT_RD s;
        let rd = rd_at E s g_rd;
        (if \<not> validate_map_addr E base (RTT_PAGE_LEVEL E) rd then None
         else
           let g_rtt_root = g_rtt (rd_s2_ctx rd);
               sl = realm_rtt_starting_level E rd;
               ipa_bits = realm_ipa_bits E rd;
               s = granule_lock g_rtt_root GRANULE_STATE_RTT s;
               (wi, s) = rtt_walk_lock_unlock E g_rtt_root sl ipa_bits base (RTT_PAGE_LEVEL E) s
           in do {
             (res, s) \<leftarrow>
               (if \<not> validate_map_addr E base (last_level wi) rd
                then Some (res[0 := pack_return_code E RMI_ERROR_RTT (last_level wi)], s)
                else do {
                  (s2tt, s) \<leftarrow> granule_map E (g_llt wi) SLOT_RTT s;
                  let (res, s) = rtt_set_ripas_range E (rd_s2_ctx rd) s2tt base top_addr wi
                                   (set_ripas_val rec) (set_ripas_change rec) res s;
                  let s = (if res ! 0 = RMI_SUCCESS then Set_ripas_addr g_rec (res ! 1) # s else s);
                  Some (res, buffer_unmap s2tt s)
                });
             let s = granule_unlock (g_llt wi) s;
             Some (res, buffer_unmap rd_buf s)
           })
      })"

definition smc_rtt_set_ripas ::
  "rmm_env \<Rightarrow> u64 \<Rightarrow> u64 \<Rightarrow> u64 \<Rightarrow> u64 \<Rightarrow> smc_result \<Rightarrow> log \<Rightarrow> (smc_result \<times> log) option" where
  "smc_rtt_set_ripas E rd_addr rec_addr base top_addr res s =
     (if top_addr \<le> base then Some (res[0 := RMI_ERROR_INPUT], s)
      else
        let (found, s) = find_lock_two_granules E rd_addr GRANULE_STATE_RD rec_addr GRANULE_STATE_REC s
        in case found of
          None \<Rightarrow> Some (res[0 := RMI_ERROR_INPUT], s)
        | Some (g_rd, g_rec) \<Rightarrow> do {
            (res, s) \<leftarrow>
              (if answer_refcount E s g_rec \<noteq> 0 then Some (res[0 := RMI_ERROR_REC], s)
               else do {
                 (rec_buf, s) \<leftarrow> granule_map E g_rec SLOT_REC s;
                 let rec = rec_at E s g_rec;
                 (res, s) \<leftarrow> set_ripas_rec E g_rd g_rec rec base top_addr res s;
                 Some (res, buffer_unmap rec_buf s)
               });
            let s = granule_unlock g_rec s;
            let s = granule_unlock g_rd s;
            Some (res, s)
          })"

section \<open>Bounds and progress\<close>

text \<open>
  What the loops rely on: entries map a positive, bounded size, a table has at most 512 of them and
  an IPA has at most 52 bits, so that no address computed in a table wraps.
\<close>

definition sizes_ok :: "rmm_env \<Rightarrow> bool" where
  "sizes_ok E \<longleftrightarrow> S2TTES_PER_S2TT E \<le> 512 \<and>
     (\<forall>l. 0 < s2tte_map_size E l \<and> s2tte_map_size E l \<le> 2 ^ 48) \<and> (\<forall>rd. realm_ipa_size E rd \<le> 2 ^ 52)"

text \<open>A loop that has advanced by \<open>k\<close> of at most \<open>n\<close> entries below \<open>top\<close>.\<close>

definition advanced :: "nat \<Rightarrow> u64 \<Rightarrow> u64 \<Rightarrow> u64 \<Rightarrow> u64 \<Rightarrow> nat \<Rightarrow> bool" where
  "advanced n map_size top_addr addr addr' k \<longleftrightarrow>
     k \<le> n \<and> unat addr' = unat addr + k * unat map_size \<and> (0 < k \<longrightarrow> addr' \<le> top_addr)"

lemma advanced_0 [simp]: "advanced n map_size top_addr addr addr 0"
  by (simp add: advanced_def)

lemma advanced_step:
  assumes "advanced n map_size top_addr (addr + map_size) addr' k" "addr + map_size \<le> top_addr"
    and "unat addr + unat map_size < 2 ^ 64"
  shows "advanced (Suc n) map_size top_addr addr addr' (Suc k)"
proof -
  have "unat (addr + map_size) = unat addr + unat map_size"
    using assms(3) by (simp add: unat_word_ariths)
  moreover have "addr' \<le> top_addr"
  proof (cases "k = 0")
    case True
    with assms(1) have "unat addr' = unat (addr + map_size)" by (simp add: advanced_def)
    with assms(2) show ?thesis by (simp add: word_le_nat_alt)
  next
    case False
    with assms(1) show ?thesis by (simp add: advanced_def)
  qed
  ultimately show ?thesis using assms(1) by (simp add: advanced_def)
qed

lemma no_wrap_step:
  assumes "unat addr + Suc n * unat map_size < 2 ^ 64"
  shows "unat addr + unat map_size < 2 ^ 64"
    and "unat (addr + map_size :: u64) + n * unat map_size < 2 ^ 64"
proof -
  have "unat map_size \<le> Suc n * unat map_size" by simp
  then show a: "unat addr + unat map_size < 2 ^ 64" using assms by linarith
  then have "unat (addr + map_size) = unat addr + unat map_size" by (simp add: unat_word_ariths)
  then show "unat (addr + map_size) + n * unat map_size < 2 ^ 64" using assms by simp
qed

lemma update_ripas_frame:
  assumes "update_ripas E s2tt idx level rv cd s = (ret, s')"
  shows "filter lock_event s' = filter lock_event s \<and> filter slot_event s' = filter slot_event s \<and>
    (ret < 0 \<longrightarrow> s' = s)"
  using assms
  by (auto simp: update_ripas_def update_ripas_entry_def exec Let_def split: if_splits)

lemma set_ripas_loop_frame:
  "set_ripas_loop E ctx s2tt level map_size top_addr rv cd is addr s = (addr', s') \<Longrightarrow>
   filter lock_event s' = filter lock_event s \<and> filter slot_event s' = filter slot_event s"
proof (induction "is" arbitrary: addr s)
  case Nil
  then show ?case by simp
next
  case (Cons idx "is")
  obtain ret s1 where u: "update_ripas E s2tt idx level rv cd s = (ret, s1)" by (cases "update_ripas E s2tt idx level rv cd s")
  show ?case using Cons update_ripas_frame [OF u] by (auto simp: u Let_def split: if_splits dest!: Cons.IH)
qed

lemma set_ripas_loop_advanced:
  "set_ripas_loop E ctx s2tt level map_size top_addr rv cd is addr s = (addr', s') \<Longrightarrow>
   unat addr + length is * unat map_size < 2 ^ 64 \<Longrightarrow>
   \<exists>k. advanced (length is) map_size top_addr addr addr' k \<and> (k = 0 \<longrightarrow> s' = s)"
proof (induction "is" arbitrary: addr s)
  case Nil
  then show ?case by (auto intro: exI [of _ 0])
next
  case (Cons idx "is")
  obtain ret s1 where u: "update_ripas E s2tt idx level rv cd s = (ret, s1)" by (cases "update_ripas E s2tt idx level rv cd s")
  show ?case
  proof (cases "addr + map_size > top_addr \<or> ret < 0")
    case True
    then have "addr' = addr" "s' = s"
      using Cons.prems(1) update_ripas_frame [OF u] by (auto simp: u split: if_splits)
    then show ?thesis by (auto intro: exI [of _ 0])
  next
    case False
    then obtain s2 where "set_ripas_loop E ctx s2tt level map_size top_addr rv cd is (addr + map_size) s2 = (addr', s')"
      using Cons.prems(1) by (auto simp: u Let_def split: if_splits)
    then obtain k where "advanced (length is) map_size top_addr (addr + map_size) addr' k"
      using Cons.IH no_wrap_step [of addr "length is" map_size] Cons.prems(2) by (metis length_Cons)
    then have "advanced (Suc (length is)) map_size top_addr addr addr' (Suc k)"
      using False no_wrap_step [of addr "length is" map_size] Cons.prems(2)
      by (intro advanced_step) (simp_all add: not_less)
    then show ?thesis by (metis length_Cons nat.distinct(1))
  qed
qed

lemma init_ripas_loop_frame:
  "init_ripas_loop E rd s2tt map_size top_addr is addr s = (addr', s') \<Longrightarrow>
   filter lock_event s' = filter lock_event s \<and> filter slot_event s' = filter slot_event s"
  by (induction "is" arbitrary: addr s) (auto simp: Let_def exec split: if_splits)

lemma init_ripas_loop_advanced:
  "init_ripas_loop E rd s2tt map_size top_addr is addr s = (addr', s') \<Longrightarrow>
   unat addr + length is * unat map_size < 2 ^ 64 \<Longrightarrow>
   \<exists>k. advanced (length is) map_size top_addr addr addr' k \<and> (k = 0 \<longrightarrow> s' = s)"
proof (induction "is" arbitrary: addr s)
  case Nil
  then show ?case by (auto intro: exI [of _ 0])
next
  case (Cons idx "is")
  show ?case
  proof (cases "addr + map_size > top_addr \<or>
      \<not> (s2tte_is_unassigned_empty E (answer_s2tte_read E s s2tt idx) \<or>
         s2tte_is_unassigned_ram E (answer_s2tte_read E s s2tt idx))")
    case True
    then have "addr' = addr" "s' = s"
      using Cons.prems(1) by (auto simp: Let_def exec split: if_splits)
    then show ?thesis by (auto intro: exI [of _ 0])
  next
    case False
    then obtain s2 where "init_ripas_loop E rd s2tt map_size top_addr is (addr + map_size) s2 = (addr', s')"
      using Cons.prems(1) by (auto simp: Let_def exec split: if_splits)
    then obtain k where "advanced (length is) map_size top_addr (addr + map_size) addr' k"
      using Cons.IH no_wrap_step [of addr "length is" map_size] Cons.prems(2) by (metis length_Cons)
    then have "advanced (Suc (length is)) map_size top_addr addr addr' (Suc k)"
      using False no_wrap_step [of addr "length is" map_size] Cons.prems(2)
      by (intro advanced_step) (simp_all add: not_less)
    then show ?thesis by (metis length_Cons nat.distinct(1))
  qed
qed

section \<open>Contracts\<close>

text \<open>A walk through at most 512 entries from an address below the IPA limit does not wrap.\<close>

lemma sizes_ok_no_wrap:
  assumes "sizes_ok E" "unat base < 2 ^ 52"
  shows "unat base + length [i..<S2TTES_PER_S2TT E] * unat (s2tte_map_size E l) < 2 ^ 64"
proof -
  have "S2TTES_PER_S2TT E \<le> 512" using assms(1) by (simp add: sizes_ok_def)
  then have "length [i..<S2TTES_PER_S2TT E] \<le> 512" by simp
  moreover have "s2tte_map_size E l \<le> 2 ^ 48" using assms(1) by (simp add: sizes_ok_def)
  then have "unat (s2tte_map_size E l) \<le> 2 ^ 48" by (simp add: word_le_nat_alt)
  ultimately have "length [i..<S2TTES_PER_S2TT E] * unat (s2tte_map_size E l) \<le> 512 * 2 ^ 48"
    by (rule mult_le_mono)
  with assms(2) show ?thesis by simp
qed

lemma validate_map_addr_bound:
  assumes "validate_map_addr E base l rd" "sizes_ok E"
  shows "unat base < 2 ^ 52"
proof -
  have "base < realm_ipa_size E rd" "realm_ipa_size E rd \<le> 2 ^ 52"
    using assms by (simp_all add: validate_map_addr_def sizes_ok_def)
  then show ?thesis by (simp add: word_le_nat_alt word_less_nat_alt)
qed

lemma advanced_progress:
  assumes "advanced n map_size top_addr base addr k" "0 < map_size"
  shows "addr > base \<longleftrightarrow> 0 < k" and "0 < k \<Longrightarrow> addr = base + of_nat k * map_size"
proof -
  have a: "unat addr = unat base + k * unat map_size" using assms(1) by (simp add: advanced_def)
  have "0 < unat map_size" using assms(2) by (simp add: word_less_nat_alt)
  then show "addr > base \<longleftrightarrow> 0 < k" using a by (simp add: word_less_nat_alt)
  have "addr = of_nat (unat base + k * unat map_size)" by (simp flip: a)
  then show "addr = base + of_nat k * map_size" by simp
qed

text \<open>
  The contract of a walk over one table: monitors unchanged, nothing written on an error, and on
  success the address in \<open>x[1]\<close> is a positive number of entries above \<open>base\<close> and within \<open>top\<close>.
\<close>

definition range_ok :: "rmm_env \<Rightarrow> rtt_walk \<Rightarrow> u64 \<Rightarrow> u64 \<Rightarrow> smc_result \<Rightarrow> log \<Rightarrow> smc_result \<Rightarrow> log \<Rightarrow> bool" where
  "range_ok E wi base top_addr res s res' s' \<longleftrightarrow>
     locks s' = locks s \<and> slots s' = slots s \<and> length res' = length res \<and>
     (res' ! 0 = RMI_SUCCESS \<and>
        (\<exists>k>0. k \<le> S2TTES_PER_S2TT E - wi_index wi \<and>
           res' ! 1 = base + of_nat k * s2tte_map_size E (last_level wi) \<and> base < res' ! 1 \<and> res' ! 1 \<le> top_addr) \<or>
      res' = res[0 := pack_return_code E RMI_ERROR_RTT (last_level wi)] \<and> s' = s)"

lemma range_okI:
  assumes "advanced (length [wi_index wi..<S2TTES_PER_S2TT E]) (s2tte_map_size E (last_level wi)) top_addr base addr k"
    and "k = 0 \<Longrightarrow> s' = s" "0 < s2tte_map_size E (last_level wi)" "1 < length res"
    and "filter lock_event s' = filter lock_event s" "filter slot_event s' = filter slot_event s"
  shows "range_ok E wi base top_addr res s
    (if addr > base then res[0 := RMI_SUCCESS, 1 := addr]
     else res[0 := pack_return_code E RMI_ERROR_RTT (last_level wi)]) s'"
proof (cases "k = 0")
  case True
  with assms advanced_progress [OF assms(1,3)] show ?thesis by (simp add: range_ok_def)
next
  case False
  with advanced_progress [OF assms(1,3)] have a: "addr > base" "addr = base + of_nat k * s2tte_map_size E (last_level wi)"
    by simp_all
  have "k \<le> S2TTES_PER_S2TT E - wi_index wi" "addr \<le> top_addr"
    using False assms(1) by (simp_all add: advanced_def)
  moreover have "res[0 := RMI_SUCCESS, 1 := addr] ! 0 = RMI_SUCCESS" "res[0 := RMI_SUCCESS, 1 := addr] ! 1 = addr"
    using assms(4) by (cases res; simp)+
  ultimately show ?thesis
    using a False locks_unwatched [OF assms(5)] slots_unwatched [OF assms(6)]
    unfolding range_ok_def by (simp only: if_True length_list_update) blast
qed

lemma range_ok_misaligned:
  "range_ok E wi base top_addr res s (res[0 := pack_return_code E RMI_ERROR_RTT (last_level wi)]) s"
  by (simp add: range_ok_def)

lemma set_ripas_range_ok:
  assumes "rtt_set_ripas_range E ctx s2tt base top_addr wi rv cd res s = (res', s')"
    and "sizes_ok E" "unat base < 2 ^ 52" "1 < length res"
  shows "range_ok E wi base top_addr res s res' s'"
proof (cases "base AND NOT (s2tte_map_size E (last_level wi) - 1) = base")
  case True
  let ?l = "last_level wi"
  obtain addr s1 where l: "set_ripas_loop E ctx s2tt ?l (s2tte_map_size E ?l) top_addr rv cd
      [wi_index wi..<S2TTES_PER_S2TT E] base s = (addr, s1)"
    by fastforce
  obtain k where "advanced (length [wi_index wi..<S2TTES_PER_S2TT E]) (s2tte_map_size E ?l) top_addr base addr k"
      "k = 0 \<longrightarrow> s1 = s"
    using set_ripas_loop_advanced [OF l sizes_ok_no_wrap [OF assms(2,3)]] by blast
  moreover have "0 < s2tte_map_size E ?l" using assms(2) by (simp add: sizes_ok_def)
  ultimately have "range_ok E wi base top_addr res s
      (if addr > base then res[0 := RMI_SUCCESS, 1 := addr] else res[0 := pack_return_code E RMI_ERROR_RTT ?l]) s1"
    using range_okI set_ripas_loop_frame [OF l] assms(4) by blast
  then show ?thesis using assms(1) True l by (simp add: rtt_set_ripas_range_def Let_def split: if_splits)
next
  case False
  then show ?thesis using assms(1) range_ok_misaligned by (auto simp: rtt_set_ripas_range_def Let_def)
qed

lemma init_ripas_table_ok:
  assumes "init_ripas_table E rd base top_addr wi s2tt res s = (res', s')"
    and "sizes_ok E" "unat base < 2 ^ 52" "1 < length res"
  shows "range_ok E wi base top_addr res s res' s'"
proof (cases "base AND NOT (s2tte_map_size E (last_level wi) - 1) = base")
  case True
  let ?l = "last_level wi"
  obtain addr s1 where l: "init_ripas_loop E rd s2tt (s2tte_map_size E ?l) top_addr
      [wi_index wi..<S2TTES_PER_S2TT E] base s = (addr, s1)"
    by fastforce
  obtain k where "advanced (length [wi_index wi..<S2TTES_PER_S2TT E]) (s2tte_map_size E ?l) top_addr base addr k"
      "k = 0 \<longrightarrow> s1 = s"
    using init_ripas_loop_advanced [OF l sizes_ok_no_wrap [OF assms(2,3)]] by blast
  moreover have "0 < s2tte_map_size E ?l" using assms(2) by (simp add: sizes_ok_def)
  ultimately have "range_ok E wi base top_addr res s
      (if addr > base then res[0 := RMI_SUCCESS, 1 := addr] else res[0 := pack_return_code E RMI_ERROR_RTT ?l]) s1"
    using range_okI init_ripas_loop_frame [OF l] assms(4) by blast
  then show ?thesis using assms(1) True l by (simp add: init_ripas_table_def Let_def split: if_splits)
next
  case False
  then show ?thesis using assms(1) range_ok_misaligned by (auto simp: init_ripas_table_def Let_def)
qed

lemma init_ripas_table_quiet:
  assumes "init_ripas_table E rd base top_addr wi s2tt res s = (res', s')"
    and "validate_map_addr E base l rd'" "sizes_ok E" "1 < length res"
  shows "locks s' = locks s \<and> slots s' = slots s \<and> length res' = length res \<and> (res' ! 0 = RMI_SUCCESS \<or> s' = s)"
  using init_ripas_table_ok [OF assms(1,3) validate_map_addr_bound [OF assms(2,3)] assms(4)]
  unfolding range_ok_def by blast

lemma set_ripas_range_quiet:
  assumes "rtt_set_ripas_range E ctx s2tt base top_addr wi rv cd res s = (res', s')"
    and "validate_map_addr E base l rd'" "sizes_ok E" "1 < length res"
  shows "locks s' = locks s \<and> slots s' = slots s \<and> length res' = length res \<and> (res' ! 0 = RMI_SUCCESS \<or> s' = s)"
  using set_ripas_range_ok [OF assms(1,3) validate_map_addr_bound [OF assms(2,3)] assms(4)]
  unfolding range_ok_def by blast

lemma rtt_init_ripas_ok:
  assumes "smc_rtt_init_ripas E rd_addr base top_addr res s = Some (res', s')"
    and "sizes_ok E" "1 < length res"
  shows "command_ok s (res' ! 0) s'"
  using assms
  by (auto simp: smc_rtt_init_ripas_def exec contract_defs Let_def
      split: option.splits if_splits prod.splits Option.bind_splits dest: init_ripas_table_quiet)

lemma set_ripas_rec_ok:
  assumes "set_ripas_rec E g_rd g_rec rec base top_addr res s = Some (res', s')"
    and "sizes_ok E" "1 < length res"
  shows "length res' = length res \<and> (\<forall>H. locks s = Some H \<longrightarrow> locks s' = Some H) \<and>
    (\<forall>M. slots s = Some M \<and> SLOT_RD \<notin># image_mset snd M \<and> SLOT_RTT \<notin># image_mset snd M \<longrightarrow> slots s' = Some M) \<and>
    (res' ! 0 \<noteq> RMI_SUCCESS \<longrightarrow> filter realm_event s' = filter realm_event s)"
  using assms
  by (cases res) (auto simp: set_ripas_rec_def exec Let_def
      split: option.splits if_splits prod.splits Option.bind_splits dest: set_ripas_range_quiet)

lemma rtt_set_ripas_ok:
  assumes "smc_rtt_set_ripas E rd_addr rec_addr base top_addr res s = Some (res', s')"
    and "sizes_ok E" "1 < length res"
  shows "command_ok s (res' ! 0) s'"
  using assms
  by (auto simp: smc_rtt_set_ripas_def exec contract_defs Let_def
      split: option.splits if_splits prod.splits Option.bind_splits dest!: set_ripas_rec_ok)

section \<open>Success\<close>

definition pack_ok :: "rmm_env \<Rightarrow> bool" where
  "pack_ok E \<longleftrightarrow> (\<forall>l. pack_return_code E RMI_ERROR_RTT l \<noteq> RMI_SUCCESS)"

definition progress :: "rmm_env \<Rightarrow> u64 \<Rightarrow> u64 \<Rightarrow> u64 \<Rightarrow> bool" where
  "progress E base top_addr addr \<longleftrightarrow> base < addr \<and> addr \<le> top_addr \<and>
     (\<exists>k l. 0 < k \<and> k \<le> S2TTES_PER_S2TT E \<and> addr = base + of_nat k * s2tte_map_size E l)"

lemma range_ok_progress:
  assumes "range_ok E wi base top_addr res s res' s'" "res' ! 0 = RMI_SUCCESS" "pack_ok E" "1 < length res"
  shows "progress E base top_addr (res' ! 1)"
proof -
  have "res' \<noteq> res[0 := pack_return_code E RMI_ERROR_RTT (last_level wi)]"
    using assms(2-4) by (cases res) (auto simp: pack_ok_def)
  with assms(1) show ?thesis
    unfolding range_ok_def progress_def by (meson diff_le_self order_trans)
qed

lemma init_ripas_table_progress:
  assumes "init_ripas_table E rd base top_addr wi s2tt res s = (res', s')"
    and "validate_map_addr E base l rd'" "sizes_ok E" "1 < length res" "pack_ok E" "res' ! 0 = RMI_SUCCESS"
  shows "progress E base top_addr (res' ! 1)"
  using range_ok_progress [OF init_ripas_table_ok [OF assms(1,3) validate_map_addr_bound [OF assms(2,3)] assms(4)]]
    assms by blast

lemma set_ripas_range_progress:
  assumes "rtt_set_ripas_range E ctx s2tt base top_addr wi rv cd res s = (res', s')"
    and "validate_map_addr E base l rd'" "sizes_ok E" "1 < length res" "pack_ok E" "res' ! 0 = RMI_SUCCESS"
  shows "progress E base top_addr (res' ! 1)"
  using range_ok_progress [OF set_ripas_range_ok [OF assms(1,3) validate_map_addr_bound [OF assms(2,3)] assms(4)]]
    assms by blast

lemma rtt_init_ripas_success:
  assumes "smc_rtt_init_ripas E rd_addr base top_addr res s = Some (res', s')"
    and "sizes_ok E" "1 < length res" "pack_ok E" "res' ! 0 = RMI_SUCCESS"
  shows "progress E base top_addr (res' ! 1)"
  using assms
  by (cases res) (auto simp: smc_rtt_init_ripas_def exec Let_def
      split: option.splits if_splits prod.splits Option.bind_splits dest: init_ripas_table_progress)

lemma set_ripas_rec_success:
  assumes "set_ripas_rec E g_rd g_rec rec base top_addr res s = Some (res', s')"
    and "sizes_ok E" "1 < length res" "pack_ok E" "res' ! 0 = RMI_SUCCESS"
  shows "progress E base top_addr (res' ! 1) \<and> Set_ripas_addr g_rec (res' ! 1) \<in> set s' \<and>
    g_rd = rec_g_rd rec \<and> base = set_ripas_addr rec \<and> top_addr \<le> set_ripas_top rec"
proof -
  have p: "pack_return_code E RMI_ERROR_RTT l \<noteq> RMI_SUCCESS" for l using assms(4) by (simp add: pack_ok_def)
  show ?thesis
    using assms p
    by (cases res) (auto simp: set_ripas_rec_def exec Let_def
        split: option.splits if_splits prod.splits Option.bind_splits dest: set_ripas_range_progress)
qed

lemma rtt_set_ripas_success:
  assumes "smc_rtt_set_ripas E rd_addr rec_addr base top_addr res s = Some (res', s')"
    and "sizes_ok E" "1 < length res" "pack_ok E" "res' ! 0 = RMI_SUCCESS"
  shows "\<exists>g_rd g_rec rec. answer_find_lock_two E s rd_addr GRANULE_STATE_RD rec_addr GRANULE_STATE_REC = Some (g_rd, g_rec) \<and>
    rec = rec_at E (Map g_rec SLOT_REC # Lock g_rec GRANULE_STATE_REC # Lock g_rd GRANULE_STATE_RD # s) g_rec \<and>
    rec_g_rd rec = g_rd \<and> base = set_ripas_addr rec \<and> top_addr \<le> set_ripas_top rec \<and>
    progress E base top_addr (res' ! 1) \<and> Set_ripas_addr g_rec (res' ! 1) \<in> set s'"
  using assms
  by (cases res) (auto simp: smc_rtt_set_ripas_def exec Let_def
      split: option.splits if_splits prod.splits Option.bind_splits dest!: set_ripas_rec_success)

section \<open>The abstract RIPAS of an entry\<close>

text \<open>The output address, if one is assigned, and the RIPAS of an entry of a protected IPA.\<close>

definition ripas_view :: "rmm_env \<Rightarrow> u64 \<Rightarrow> int \<Rightarrow> (u64 option \<times> ripas) option" where
  "ripas_view E e l =
     (if s2tte_is_unassigned_empty E e then Some (None, RIPAS_EMPTY)
      else if s2tte_is_unassigned_ram E e then Some (None, RIPAS_RAM)
      else if s2tte_is_unassigned_destroyed E e then Some (None, RIPAS_DESTROYED)
      else if s2tte_is_assigned_empty E e l then Some (Some (s2tte_pa E e l), RIPAS_EMPTY)
      else if s2tte_is_assigned_ram E e l then Some (Some (s2tte_pa E e l), RIPAS_RAM)
      else if s2tte_is_assigned_destroyed E e l then Some (Some (s2tte_pa E e l), RIPAS_DESTROYED)
      else None)"

text \<open>
  The documented laws of the entry functions: an entry is of one kind only, the entries with a RIPAS
  are those six kinds, and a created entry is of the kind it was created as, at its address.
\<close>

definition s2tte_laws :: "rmm_env \<Rightarrow> bool" where
  "s2tte_laws E \<longleftrightarrow>
     (\<forall>e l. (s2tte_has_ripas E e l \<longleftrightarrow> ripas_view E e l \<noteq> None) \<and>
       (s2tte_is_unassigned_empty E e \<longleftrightarrow> ripas_view E e l = Some (None, RIPAS_EMPTY)) \<and>
       (s2tte_is_unassigned_ram E e \<longleftrightarrow> ripas_view E e l = Some (None, RIPAS_RAM)) \<and>
       (s2tte_is_unassigned_destroyed E e \<longleftrightarrow> ripas_view E e l = Some (None, RIPAS_DESTROYED)) \<and>
       (s2tte_is_assigned_empty E e l \<longleftrightarrow> ripas_view E e l = Some (Some (s2tte_pa E e l), RIPAS_EMPTY)) \<and>
       (s2tte_is_assigned_ram E e l \<longleftrightarrow> ripas_view E e l = Some (Some (s2tte_pa E e l), RIPAS_RAM)) \<and>
       (s2tte_is_assigned_destroyed E e l \<longleftrightarrow> ripas_view E e l = Some (Some (s2tte_pa E e l), RIPAS_DESTROYED)) \<and>
       ripas_view E (s2tte_create_unassigned_empty E) l = Some (None, RIPAS_EMPTY) \<and>
       ripas_view E (s2tte_create_unassigned_ram E) l = Some (None, RIPAS_RAM) \<and>
       ripas_view E (s2tte_create_unassigned_destroyed E) l = Some (None, RIPAS_DESTROYED) \<and>
       (let pa = s2tte_pa E e l in
        ripas_view E (s2tte_create_assigned_empty E pa l) l = Some (Some pa, RIPAS_EMPTY) \<and>
        ripas_view E (s2tte_create_assigned_ram E pa l) l = Some (Some pa, RIPAS_RAM)))"

lemma ripas_view_pa: "ripas_view E e l = Some (Some pa, r) \<Longrightarrow> pa = s2tte_pa E e l"
  by (auto simp: ripas_view_def split: if_splits)

lemma update_ripas_entry_view:
  assumes "s2tte_laws E" "rv \<noteq> RIPAS_DESTROYED"
  shows "case ripas_view E e l of
      None \<Rightarrow> update_ripas_entry E e l rv cd = Inl (- 1)
    | Some (pa, r) \<Rightarrow>
        if r = RIPAS_DESTROYED \<and> cd \<noteq> CHANGE_DESTROYED then update_ripas_entry E e l rv cd = Inl (- 1)
        else if r = rv then update_ripas_entry E e l rv cd = Inl 0
        else \<exists>e'. update_ripas_entry E e l rv cd = Inr (e', if rv = RIPAS_EMPTY \<and> pa \<noteq> None then 1 else 0) \<and>
               ripas_view E e' l = Some (pa, rv)"
proof (cases "ripas_view E e l")
  case None
  then show ?thesis using assms by (simp add: s2tte_laws_def update_ripas_entry_def)
next
  case (Some v)
  obtain pa r where v: "v = (pa, r)" by fastforce
  have k: "s2tte_has_ripas E e l" 
    "s2tte_is_unassigned_empty E e = (v = (None, RIPAS_EMPTY))"
    "s2tte_is_unassigned_ram E e = (v = (None, RIPAS_RAM))"
    "s2tte_is_unassigned_destroyed E e = (v = (None, RIPAS_DESTROYED))"
    "s2tte_is_assigned_empty E e l = (v = (Some (s2tte_pa E e l), RIPAS_EMPTY))"
    "s2tte_is_assigned_ram E e l = (v = (Some (s2tte_pa E e l), RIPAS_RAM))"
    "s2tte_is_assigned_destroyed E e l = (v = (Some (s2tte_pa E e l), RIPAS_DESTROYED))"
    "ripas_view E (s2tte_create_unassigned_empty E) l = Some (None, RIPAS_EMPTY)"
    "ripas_view E (s2tte_create_unassigned_ram E) l = Some (None, RIPAS_RAM)"
    "ripas_view E (s2tte_create_assigned_empty E (s2tte_pa E e l) l) l = Some (Some (s2tte_pa E e l), RIPAS_EMPTY)"
    "ripas_view E (s2tte_create_assigned_ram E (s2tte_pa E e l) l) l = Some (Some (s2tte_pa E e l), RIPAS_RAM)"
    using assms(1) Some unfolding s2tte_laws_def Let_def by (metis option.inject option.distinct(1))+
  show ?thesis
    using assms(2) Some v ripas_view_pa [of E e l]
    by (cases rv; cases r; cases pa) (auto simp: k update_ripas_entry_def)
qed

interpretation rtt_init_ripas: result_command "sizes_ok E" "smc_rtt_init_ripas E a b c" for E a b c
  by unfold_locales (rule rtt_init_ripas_ok, auto simp: SMC_RESULT_REGS_def)

interpretation rtt_set_ripas: result_command "sizes_ok E" "smc_rtt_set_ripas E a b c d" for E a b c d
  by unfold_locales (rule rtt_set_ripas_ok, auto simp: SMC_RESULT_REGS_def)

end
