(* ===== verification/Rmm_Handler.thy ===== *)
theory Rmm_Handler
  imports Rmm_Map Rmm_Data Rmm_Ripas
begin

text \<open>
  The entry of the monitor from the non-secure host: src/tetd_cca/rmm/runtime/core/handler.c.
  The table of handlers with \<open>handle_ns_smc\<close>, which looks up and calls one, the log that
  \<open>rmi_log_on_exit\<close> prints, and \<open>handle_rmm_trap\<close>. The handlers whose code is in the
  repository are the commands of the RTT theories; the others are fields of the environment.
\<close>

section \<open>State and environment\<close>

datatype simd_event = Sve_hint bool | Simd_save | Simd_restore

text \<open>What \<open>INFO\<close> prints: one constructor per format string.\<close>

datatype info =
    Info_name string
  | Info_arg u64
  | Info_raw_status u64
  | Info_status string
  | Info_index u32
  | Info_newline

record mstate =
  cmds :: log
  simd :: "simd_event list"
  console :: "info list"

record return_code_t =
  status :: u32
  index :: u32

text \<open>The function pointer types of the handlers, a \<open>struct smc_result *\<close> being passed and returned.\<close>

type_synonym handler_1 = "u64 \<Rightarrow> mstate \<Rightarrow> (u64 \<times> mstate) option"
type_synonym handler_2 = "u64 \<Rightarrow> handler_1"
type_synonym handler_3 = "u64 \<Rightarrow> handler_2"
type_synonym handler_4 = "u64 \<Rightarrow> handler_3"
type_synonym handler_5 = "u64 \<Rightarrow> handler_4"
type_synonym handler_1_o = "u64 \<Rightarrow> smc_result \<Rightarrow> mstate \<Rightarrow> (smc_result \<times> mstate) option"
type_synonym handler_2_o = "u64 \<Rightarrow> handler_1_o"
type_synonym handler_3_o = "u64 \<Rightarrow> handler_2_o"
type_synonym handler_4_o = "u64 \<Rightarrow> handler_3_o"

text \<open>The union of \<open>struct smc_handler\<close>; members of one type are one constructor.\<close>

datatype smc_fn =
    f_00 "mstate \<Rightarrow> (u64 \<times> mstate) option"
  | f_10 handler_1
  | f_20 handler_2
  | f_30 handler_3
  | f_40 handler_4
  | f_50 handler_5
  | f_1o handler_1_o
  | f_2o handler_2_o
  | f_3o handler_3_o
  | f_4o handler_4_o

definition RMI_TYPE :: "u32 \<Rightarrow> u32 \<Rightarrow> u32" where
  "RMI_TYPE n_in n_out = n_in OR push_bit 8 n_out"

record smc_handler =
  fn_name :: string
  fn :: "smc_fn option"
  rmi_type :: u32
  log_exec :: bool
  log_error :: bool

record handler_env =
  rmm :: rmm_env
  RMM_FPU_USE_AT_REL2 :: bool
  check_cpu_slots_empty :: "mstate \<Rightarrow> bool"
  simd_is_state_saved :: "mstate \<Rightarrow> bool"
  unpack_return_code :: "u64 \<Rightarrow> return_code_t"
  smc_version :: handler_1_o
  smc_read_feature_register :: handler_1_o
  smc_granule_delegate :: handler_1
  smc_granule_undelegate :: handler_1
  smc_realm_create :: handler_2
  smc_realm_destroy :: handler_1
  smc_realm_activate :: handler_1
  smc_rec_create :: handler_3
  smc_rec_destroy :: handler_1
  smc_rec_enter :: handler_2
  smc_psci_complete :: handler_3
  smc_rec_aux_count :: handler_1_o

text \<open>A command of the RTT theories runs on the log of the monitor state.\<close>

definition on_log :: "(log \<Rightarrow> ('a \<times> log) option) \<Rightarrow> mstate \<Rightarrow> ('a \<times> mstate) option" where
  "on_log f st = map_option (\<lambda>(x, s). (x, st\<lparr>cmds := s\<rparr>)) (f (cmds st))"

section \<open>The table of handlers\<close>

definition MAX_NUM_ARGS :: u32 where "MAX_NUM_ARGS = 5"
definition MAX_NUM_OUTPUT_VALS :: u32 where "MAX_NUM_OUTPUT_VALS = 4"

definition rmi_status_string :: "string list" where
  "rmi_status_string = [''SUCCESS'', ''ERROR_INPUT'', ''ERROR_REALM'', ''ERROR_REC'', ''ERROR_RTT'']"

definition RMI_HANDLER_ID :: "u32 \<Rightarrow> u32" where
  "RMI_HANDLER_ID fid = SMC64_FID_OFFSET_FROM_RANGE_MIN SMC64_RMI_FNUM_MIN fid"

text \<open>A designated initialiser \<open>[index] = {...}\<close>; the elements not named are zero.\<close>

definition HANDLER :: "u32 \<Rightarrow> string \<Rightarrow> u32 \<Rightarrow> u32 \<Rightarrow> smc_fn \<Rightarrow> bool \<Rightarrow> bool \<Rightarrow> nat \<times> smc_handler" where
  "HANDLER fid name n_in n_out f exec error =
     (unat (RMI_HANDLER_ID fid),
      \<lparr>fn_name = name, fn = Some f, rmi_type = RMI_TYPE n_in n_out, log_exec = exec, log_error = error\<rparr>)"

definition zero_handler :: smc_handler where
  "zero_handler = \<lparr>fn_name = [], fn = None, rmi_type = 0, log_exec = False, log_error = False\<rparr>"

definition smc_handler_list :: "handler_env \<Rightarrow> (nat \<times> smc_handler) list" where
  "smc_handler_list H =
     [HANDLER SMC_RMM_VERSION ''VERSION'' 1 2 (f_1o (smc_version H)) True True,
      HANDLER SMC_RMM_FEATURES ''FEATURES'' 1 1 (f_1o (smc_read_feature_register H)) True True,
      HANDLER SMC_RMM_GRANULE_DELEGATE ''GRANULE_DELEGATE'' 1 0 (f_10 (smc_granule_delegate H)) False True,
      HANDLER SMC_RMM_GRANULE_UNDELEGATE ''GRANULE_UNDELEGATE'' 1 0 (f_10 (smc_granule_undelegate H)) False True,
      HANDLER SMC_RMM_REALM_CREATE ''REALM_CREATE'' 2 0 (f_20 (smc_realm_create H)) True True,
      HANDLER SMC_RMM_REALM_DESTROY ''REALM_DESTROY'' 1 0 (f_10 (smc_realm_destroy H)) True True,
      HANDLER SMC_RMM_REALM_ACTIVATE ''REALM_ACTIVATE'' 1 0 (f_10 (smc_realm_activate H)) True True,
      HANDLER SMC_RMM_REC_CREATE ''REC_CREATE'' 3 0 (f_30 (smc_rec_create H)) True True,
      HANDLER SMC_RMM_REC_DESTROY ''REC_DESTROY'' 1 0 (f_10 (smc_rec_destroy H)) True True,
      HANDLER SMC_RMM_REC_ENTER ''REC_ENTER'' 2 0 (f_20 (smc_rec_enter H)) False True,
      HANDLER SMC_RMM_DATA_CREATE ''DATA_CREATE'' 5 0
        (f_50 (\<lambda>a b c d e. on_log (smc_data_create (rmm H) a b c d e))) False False,
      HANDLER SMC_RMM_DATA_CREATE_UNKNOWN ''DATA_CREATE_UNKNOWN'' 3 0
        (f_30 (\<lambda>a b c. on_log (smc_data_create_unknown (rmm H) a b c))) False False,
      HANDLER SMC_RMM_DATA_DESTROY ''DATA_DESTROY'' 2 2
        (f_2o (\<lambda>a b res. on_log (smc_data_destroy (rmm H) a b res))) False True,
      HANDLER SMC_RMM_RTT_CREATE ''RTT_CREATE'' 4 0
        (f_40 (\<lambda>a b c d. on_log (smc_rtt_create (rmm H) a b c d))) True True,
      HANDLER SMC_RMM_RTT_DESTROY ''RTT_DESTROY'' 3 2
        (f_3o (\<lambda>a b c res. on_log (smc_rtt_destroy (rmm H) a b c res))) True True,
      HANDLER SMC_RMM_RTT_FOLD ''RTT_FOLD'' 3 1
        (f_3o (\<lambda>a b c res. on_log (smc_rtt_fold (rmm H) a b c res))) False False,
      HANDLER SMC_RMM_RTT_MAP_UNPROTECTED ''RTT_MAP_UNPROTECTED'' 4 0
        (f_40 (\<lambda>a b c d. on_log (smc_rtt_map_unprotected (rmm H) a b c d))) False False,
      HANDLER SMC_RMM_RTT_UNMAP_UNPROTECTED ''RTT_UNMAP_UNPROTECTED'' 3 1
        (f_3o (\<lambda>a b c res. on_log (smc_rtt_unmap_unprotected (rmm H) a b c res))) False False,
      HANDLER SMC_RMM_RTT_READ_ENTRY ''RTT_READ_ENTRY'' 3 4
        (f_3o (\<lambda>a b c res. on_log (smc_rtt_read_entry (rmm H) a b c res))) False True,
      HANDLER SMC_RMM_PSCI_COMPLETE ''PSCI_COMPLETE'' 3 0 (f_30 (smc_psci_complete H)) True True,
      HANDLER SMC_RMM_REC_AUX_COUNT ''REC_AUX_COUNT'' 1 1 (f_1o (smc_rec_aux_count H)) True True,
      HANDLER SMC_RMM_RTT_INIT_RIPAS ''RTT_INIT_RIPAS'' 3 1
        (f_3o (\<lambda>a b c res. on_log (smc_rtt_init_ripas (rmm H) a b c res))) False True,
      HANDLER SMC_RMM_RTT_SET_RIPAS ''RTT_SET_RIPAS'' 4 1
        (f_4o (\<lambda>a b c d res. on_log (smc_rtt_set_ripas (rmm H) a b c d res))) False True,
      HANDLER SMC_RMM_IPA_BLOCK ''IPA_BLOCK'' 2 0 (f_20 (\<lambda>a b. on_log (smc_ipa_block (rmm H) a b))) True True,
      HANDLER SMC_RMM_IPA_UNBLOCK ''IPA_UNBLOCK'' 2 0 (f_20 (\<lambda>a b. on_log (smc_ipa_unblock (rmm H) a b))) True True]"

definition smc_handlers :: "handler_env \<Rightarrow> smc_handler list" where
  "smc_handlers H = fold (\<lambda>(i, h) hs. hs[i := h]) (smc_handler_list H) (replicate 28 zero_handler)"

definition rmi_handler_needs_fpu :: "handler_env \<Rightarrow> u32 \<Rightarrow> bool" where
  "rmi_handler_needs_fpu H fid \<longleftrightarrow>
     RMM_FPU_USE_AT_REL2 H \<and>
     (fid = SMC_RMM_REALM_CREATE \<or> fid = SMC_RMM_DATA_CREATE \<or> fid = SMC_RMM_REC_CREATE \<or>
      fid = SMC_RMM_RTT_INIT_RIPAS)"

section \<open>Logging and dispatch\<close>

text \<open>\<open>None\<close> is a failing assertion.\<close>

definition rmi_log_on_exit ::
  "handler_env \<Rightarrow> u32 \<Rightarrow> u64 list \<Rightarrow> smc_result \<Rightarrow> mstate \<Rightarrow> mstate option" where
  "rmi_log_on_exit H handler_id args res st =
     (let handler = smc_handlers H ! unat handler_id;
          function_id = SMC64_RMI_FID handler_id
      in if \<not> log_exec handler \<and> \<not> log_error handler then Some st
         else
           let rc = unpack_return_code H (res ! 0) in
           if log_exec handler \<or> log_error handler \<and> ucast (status rc) \<noteq> RMI_SUCCESS then
             let n_in = rmi_type handler AND 0xFF;
                 n_out = drop_bit 8 (rmi_type handler) AND 0xFF;
                 show_out = (ucast (status rc) = RMI_SUCCESS \<or>
                             ucast (status rc) = RMI_ERROR_RTT \<and>
                             (function_id = SMC_RMM_RTT_DESTROY \<or> function_id = SMC_RMM_DATA_DESTROY))
             in if n_in > MAX_NUM_ARGS \<or> show_out \<and> n_out > MAX_NUM_OUTPUT_VALS then None
                else Some (st\<lparr>console := console st @
                  [Info_name (fn_name handler)] @
                  map (\<lambda>i. Info_arg (args ! i)) [0..<unat n_in] @
                  [if ucast (status rc) \<ge> RMI_ERROR_COUNT then Info_raw_status (res ! 0)
                   else Info_status (rmi_status_string ! unat (status rc))] @
                  (if function_id = SMC_RMM_REC_ENTER \<and> ucast (status rc) = RMI_ERROR_REALM \<or>
                      ucast (status rc) = RMI_ERROR_RTT
                   then [Info_index (index rc)] else []) @
                  (if show_out then map (\<lambda>i. Info_arg (res ! i)) [1..<unat n_out + 1] else []) @
                  [Info_newline]\<rparr>)
           else Some st)"

text \<open>
  The \<open>switch\<close> on the handler's type; \<open>None\<close> is its \<open>assert(false)\<close> or a failure of
  the handler.
\<close>

definition call_value :: "(u64 \<times> mstate) option \<Rightarrow> smc_result \<Rightarrow> (smc_result \<times> mstate) option" where
  "call_value r res = map_option (\<lambda>(x, st). (res[0 := x], st)) r"

fun call_handler ::
  "u32 \<Rightarrow> smc_fn \<Rightarrow> u64 \<Rightarrow> u64 \<Rightarrow> u64 \<Rightarrow> u64 \<Rightarrow> u64 \<Rightarrow> smc_result \<Rightarrow> mstate \<Rightarrow> (smc_result \<times> mstate) option" where
  "call_handler ty (f_00 f) arg0 arg1 arg2 arg3 arg4 res st =
     (if ty = RMI_TYPE 0 0 then call_value (f st) res else None)"
| "call_handler ty (f_10 f) arg0 arg1 arg2 arg3 arg4 res st =
     (if ty = RMI_TYPE 1 0 then call_value (f arg0 st) res else None)"
| "call_handler ty (f_20 f) arg0 arg1 arg2 arg3 arg4 res st =
     (if ty = RMI_TYPE 2 0 then call_value (f arg0 arg1 st) res else None)"
| "call_handler ty (f_30 f) arg0 arg1 arg2 arg3 arg4 res st =
     (if ty = RMI_TYPE 3 0 then call_value (f arg0 arg1 arg2 st) res else None)"
| "call_handler ty (f_40 f) arg0 arg1 arg2 arg3 arg4 res st =
     (if ty = RMI_TYPE 4 0 then call_value (f arg0 arg1 arg2 arg3 st) res else None)"
| "call_handler ty (f_50 f) arg0 arg1 arg2 arg3 arg4 res st =
     (if ty = RMI_TYPE 5 0 then call_value (f arg0 arg1 arg2 arg3 arg4 st) res else None)"
| "call_handler ty (f_1o f) arg0 arg1 arg2 arg3 arg4 res st =
     (if ty = RMI_TYPE 1 1 \<or> ty = RMI_TYPE 1 2 then f arg0 res st else None)"
| "call_handler ty (f_2o f) arg0 arg1 arg2 arg3 arg4 res st =
     (if ty = RMI_TYPE 2 2 then f arg0 arg1 res st else None)"
| "call_handler ty (f_3o f) arg0 arg1 arg2 arg3 arg4 res st =
     (if ty = RMI_TYPE 3 1 \<or> ty = RMI_TYPE 3 2 \<or> ty = RMI_TYPE 3 4 then f arg0 arg1 arg2 res st else None)"
| "call_handler ty (f_4o f) arg0 arg1 arg2 arg3 arg4 res st =
     (if ty = RMI_TYPE 4 1 then f arg0 arg1 arg2 arg3 res st else None)"

definition handle_ns_smc ::
  "handler_env \<Rightarrow> u32 \<Rightarrow> u64 \<Rightarrow> u64 \<Rightarrow> u64 \<Rightarrow> u64 \<Rightarrow> u64 \<Rightarrow> u64 \<Rightarrow> smc_result \<Rightarrow> mstate \<Rightarrow>
   (smc_result \<times> mstate) option" where
  "handle_ns_smc H function_id arg0 arg1 arg2 arg3 arg4 arg5 res st =
     (let args = [arg0, arg1, arg2, arg3, arg4];
          sve_hint = (function_id AND SMC_SVE_HINT \<noteq> 0);
          function_id = (if sve_hint then function_id AND NOT SMC_SVE_HINT else function_id);
          handler_id = RMI_HANDLER_ID function_id;
          handler = (if IS_SMC64_RMI_FID function_id \<and> unat handler_id < length (smc_handlers H)
                     then Some (smc_handlers H ! unat handler_id) else None)
      in case Option.bind handler fn of
        None \<Rightarrow> Some (res[0 := SMC_UNKNOWN], st)
      | Some f \<Rightarrow>
          if \<not> check_cpu_slots_empty H st \<or> simd_is_state_saved H st then None
          else
            let st = st\<lparr>simd := Sve_hint sve_hint # simd st\<rparr>;
                restore_ns_simd_state = rmi_handler_needs_fpu H function_id;
                st = (if restore_ns_simd_state then st\<lparr>simd := Simd_save # simd st\<rparr> else st)
            in do {
              (res, st) \<leftarrow> call_handler (rmi_type (the handler)) f arg0 arg1 arg2 arg3 arg4 res st;
              st \<leftarrow> rmi_log_on_exit H handler_id args res st;
              let st = (if restore_ns_simd_state then st\<lparr>simd := Simd_restore # simd st\<rparr> else st);
              (if simd_is_state_saved H st \<or> \<not> check_cpu_slots_empty H st then None else Some (res, st))
            })"

section \<open>Aborts of the monitor\<close>

text \<open>The registers and the constants of arch.h that the trap handler reads.\<close>

record trap_env =
  esr_el2 :: u64
  elr_el2 :: u64
  MASK_ESR_EL2_EC :: u64
  MASK_ESR_EL2_ABORT_FSC :: u64
  ESR_EL2_EC_DATA_ABORT_SEL :: u64
  ESR_EL2_ABORT_FSC_GPF :: u64
  addr_ns_read :: u64
  addr_ns_write :: u64
  addr_ns_access_ret_0 :: u64

record rmm_trap_element =
  aborted_pc :: u64
  new_pc :: u64

definition rmm_trap_list :: "trap_env \<Rightarrow> rmm_trap_element list" where
  "rmm_trap_list T =
     [\<lparr>aborted_pc = addr_ns_read T, new_pc = addr_ns_access_ret_0 T\<rparr>,
      \<lparr>aborted_pc = addr_ns_write T, new_pc = addr_ns_access_ret_0 T\<rparr>]"

definition is_el2_data_abort_gpf :: "trap_env \<Rightarrow> u64 \<Rightarrow> bool" where
  "is_el2_data_abort_gpf T esr \<longleftrightarrow>
     esr AND MASK_ESR_EL2_EC T = ESR_EL2_EC_DATA_ABORT_SEL T \<and>
     esr AND MASK_ESR_EL2_ABORT_FSC T = ESR_EL2_ABORT_FSC_GPF T"

text \<open>\<open>fatal_abort\<close> waits for ever: no value is returned.\<close>

definition fatal_abort :: "u64 option" where
  "fatal_abort = None"

text \<open>The loop over the list, with the abort that follows it.\<close>

fun find_trap :: "rmm_trap_element list \<Rightarrow> u64 \<Rightarrow> u64 option" where
  "find_trap [] elr = fatal_abort"
| "find_trap (t # ts) elr = (if aborted_pc t = elr then Some (new_pc t) else find_trap ts elr)"

definition handle_rmm_trap :: "trap_env \<Rightarrow> u64 option" where
  "handle_rmm_trap T =
     (let esr = esr_el2 T; elr = elr_el2 T in
      if \<not> is_el2_data_abort_gpf T esr then fatal_abort else find_trap (rmm_trap_list T) elr)"

section \<open>The table by identifier\<close>

lemmas rmi_fid_defs = SMC_RMM_VERSION_def SMC_RMM_GRANULE_DELEGATE_def SMC_RMM_GRANULE_UNDELEGATE_def
  SMC_RMM_DATA_CREATE_def SMC_RMM_DATA_CREATE_UNKNOWN_def SMC_RMM_DATA_DESTROY_def
  SMC_RMM_REALM_ACTIVATE_def SMC_RMM_REALM_CREATE_def SMC_RMM_REALM_DESTROY_def SMC_RMM_REC_CREATE_def
  SMC_RMM_REC_DESTROY_def SMC_RMM_REC_ENTER_def SMC_RMM_RTT_CREATE_def SMC_RMM_RTT_DESTROY_def
  SMC_RMM_RTT_MAP_UNPROTECTED_def SMC_RMM_RTT_READ_ENTRY_def SMC_RMM_RTT_UNMAP_UNPROTECTED_def
  SMC_RMM_PSCI_COMPLETE_def SMC_RMM_FEATURES_def SMC_RMM_RTT_FOLD_def SMC_RMM_REC_AUX_COUNT_def
  SMC_RMM_RTT_INIT_RIPAS_def SMC_RMM_RTT_SET_RIPAS_def SMC_RMM_IPA_BLOCK_def SMC_RMM_IPA_UNBLOCK_def

lemma RMI_HANDLER_ID_FID: "k < 28 \<Longrightarrow> RMI_HANDLER_ID (SMC64_RMI_FID k) = k"
  by (simp add: RMI_HANDLER_ID_def SMC64_RMI_FID_offset)

lemma HANDLER_FID [simp]:
  "k < 28 \<Longrightarrow> HANDLER (SMC64_RMI_FID k) name n_in n_out f exec error =
     (unat k, \<lparr>fn_name = name, fn = Some f, rmi_type = RMI_TYPE n_in n_out, log_exec = exec, log_error = error\<rparr>)"
  by (simp add: HANDLER_def RMI_HANDLER_ID_FID)

lemma smc_handler_ids:
  "map fst (smc_handler_list H) =
   [0, 0x15, 1, 2, 8, 9, 7, 0xA, 0xB, 0xC, 3, 4, 5, 0xD, 0xE, 0x16, 0xF, 0x12, 0x11, 0x14, 0x17, 0x18, 0x19, 0x1A, 0x1B]"
  by (simp add: smc_handler_list_def rmi_fid_defs)

lemma fold_assign_nth:
  assumes "distinct (map fst ps)" "\<And>p. p \<in> set ps \<Longrightarrow> fst p < length hs" "i < length hs"
  shows "fold (\<lambda>(i, h) hs. hs[i := h]) ps hs ! i = (case map_of ps i of None \<Rightarrow> hs ! i | Some h \<Rightarrow> h)"
  using assms
proof (induction ps arbitrary: hs)
  case Nil
  then show ?case by simp
next
  case (Cons p ps)
  obtain j h where p: "p = (j, h)" by fastforce
  have "fold (\<lambda>(i, h) hs. hs[i := h]) ps (hs[j := h]) ! i = (case map_of ps i of None \<Rightarrow> hs[j := h] ! i | Some h \<Rightarrow> h)"
    using Cons.prems by (intro Cons.IH) auto
  then show ?case using Cons.prems p by (auto split: option.splits dest: map_of_SomeD simp: image_iff)
qed

lemma fold_assign_length [simp]: "length (fold (\<lambda>(i, h) hs. hs[i := h]) ps hs) = length hs"
  by (induction ps arbitrary: hs) auto

lemma smc_handlers_length [simp]: "length (smc_handlers H) = 28"
  by (simp add: smc_handlers_def)

lemma smc_handlers_nth:
  assumes "i < 28"
  shows "smc_handlers H ! i = (case map_of (smc_handler_list H) i of None \<Rightarrow> zero_handler | Some h \<Rightarrow> h)"
proof -
  have "set (map fst (smc_handler_list H)) \<subseteq> {0..<28}" unfolding smc_handler_ids by simp
  then have "\<And>p. p \<in> set (smc_handler_list H) \<Longrightarrow> fst p < length (replicate 28 zero_handler)" by auto
  moreover have "distinct (map fst (smc_handler_list H))" unfolding smc_handler_ids by simp
  ultimately show ?thesis using assms by (simp add: smc_handlers_def fold_assign_nth split: option.splits)
qed

text \<open>The identifier without the SVE hint.\<close>

definition strip_hint :: "u32 \<Rightarrow> u32" where
  "strip_hint fid = (if fid AND SMC_SVE_HINT \<noteq> 0 then fid AND NOT SMC_SVE_HINT else fid)"

lemma rmi_log_on_exit_cmds:
  "rmi_log_on_exit H i args res st = Some st' \<Longrightarrow> cmds st' = cmds st \<and> simd st' = simd st"
  by (auto simp: rmi_log_on_exit_def Let_def split: if_splits)

text \<open>A call either finds no handler, or runs one on the log it was given.\<close>

lemma handle_ns_smc_cases:
  assumes "handle_ns_smc H fid a0 a1 a2 a3 a4 a5 res st = Some (res', st')"
  obtains (unknown) "res' = res[0 := SMC_UNKNOWN]" "st' = st"
    | (call) k h f st1 st2 where "k < 28" "strip_hint fid = SMC64_RMI_FID k"
        "map_of (smc_handler_list H) (unat k) = Some h" "fn h = Some f"
        "call_handler (rmi_type h) f a0 a1 a2 a3 a4 res st1 = Some (res', st2)"
        "cmds st1 = cmds st" "cmds st' = cmds st2"
proof (cases "IS_SMC64_RMI_FID (strip_hint fid)")
  case False
  then have "res' = res[0 := SMC_UNKNOWN] \<and> st' = st"
    using assms by (simp add: handle_ns_smc_def Let_def strip_hint_def split: if_splits)
  then show ?thesis using unknown by blast
next
  case True
  then obtain k where k: "k < 28" "strip_hint fid = SMC64_RMI_FID k" using IS_SMC64_RMI_FID_iff by blast
  then have lt: "unat k < 28" by (simp add: word_less_nat_alt)
  have i: "RMI_HANDLER_ID (strip_hint fid) = k" using k RMI_HANDLER_ID_FID by simp
  show ?thesis
  proof (cases "map_of (smc_handler_list H) (unat k)")
    case None
    then have "fn (smc_handlers H ! unat k) = None" using lt by (simp add: smc_handlers_nth zero_handler_def)
    then have "res' = res[0 := SMC_UNKNOWN] \<and> st' = st"
      using assms True i lt unfolding handle_ns_smc_def Let_def strip_hint_def [symmetric] by simp
    then show ?thesis using unknown by blast
  next
    case (Some h)
    then have h: "smc_handlers H ! unat k = h" using lt by (simp add: smc_handlers_nth)
    have "\<exists>f. fn h = Some f" using map_of_SomeD [OF Some] by (auto simp: smc_handler_list_def HANDLER_def)
    then obtain f where f: "fn h = Some f" by blast
    from assms True i lt h f show ?thesis
      unfolding handle_ns_smc_def Let_def strip_hint_def [symmetric]
      by (auto split: if_splits Option.bind_splits dest!: rmi_log_on_exit_cmds
          intro!: call [OF k Some f])
  qed
qed

text \<open>A call of an implemented identifier, as the code after the lookup runs it.\<close>

lemma handle_ns_smc_known:
  assumes "k < 28" "strip_hint fid = SMC64_RMI_FID k" "map_of (smc_handler_list H) (unat k) = Some h" "fn h = Some f"
    and "check_cpu_slots_empty H st" "\<not> simd_is_state_saved H st" "\<not> rmi_handler_needs_fpu H (SMC64_RMI_FID k)"
  shows "handle_ns_smc H fid a0 a1 a2 a3 a4 a5 res st =
    do {
      (res, st) \<leftarrow> call_handler (rmi_type h) f a0 a1 a2 a3 a4 res
                    (st\<lparr>simd := Sve_hint (fid AND SMC_SVE_HINT \<noteq> 0) # simd st\<rparr>);
      st \<leftarrow> rmi_log_on_exit H k [a0, a1, a2, a3, a4] res st;
      (if simd_is_state_saved H st \<or> \<not> check_cpu_slots_empty H st then None else Some (res, st))
    }"
proof -
  have i: "RMI_HANDLER_ID (strip_hint fid) = k" using assms(1,2) RMI_HANDLER_ID_FID by simp
  have t: "IS_SMC64_RMI_FID (strip_hint fid)" using assms(1,2) IS_SMC64_RMI_FID_iff by blast
  have "unat k < 28" using assms(1) by (simp add: word_less_nat_alt)
  then have "smc_handlers H ! unat k = h" using assms(3) by (simp add: smc_handlers_nth)
  moreover have n: "rmi_handler_needs_fpu H (strip_hint fid) = False" using assms(2,7) by simp
  ultimately show ?thesis
    using i t assms(2-6) \<open>unat k < 28\<close>
    unfolding handle_ns_smc_def Let_def strip_hint_def [symmetric] n if_False by simp
qed

lemma strip_hint_FID [simp]:
  assumes "k < 28"
  shows "strip_hint (SMC64_RMI_FID k) = SMC64_RMI_FID k"
proof -
  have "SMC64_RMI_FID k AND 0x10000 = 0"
    by (simp add: SMC64_RMI_FID_value bit.conj_disj_distrib2 and.assoc)
  then have "SMC64_RMI_FID k AND SMC_SVE_HINT = 0" by (simp add: SMC_SVE_HINT_def)
  then show ?thesis by (simp add: strip_hint_def)
qed

text \<open>The types of the table fit the limits that the log asserts.\<close>

lemma smc_handler_types:
  assumes "(handler_id :: u32) < 28"
  shows "rmi_type (smc_handlers H ! unat handler_id) AND 0xFF \<le> MAX_NUM_ARGS"
    and "drop_bit 8 (rmi_type (smc_handlers H ! unat handler_id)) AND 0xFF \<le> MAX_NUM_OUTPUT_VALS"
proof -
  let ?ok = "\<lambda>h. rmi_type h AND 0xFF \<le> MAX_NUM_ARGS \<and> drop_bit 8 (rmi_type h) AND 0xFF \<le> MAX_NUM_OUTPUT_VALS"
  have "list_all (\<lambda>(i, h). ?ok h) (smc_handler_list H)"
    by (simp add: smc_handler_list_def rmi_fid_defs RMI_TYPE_def MAX_NUM_ARGS_def MAX_NUM_OUTPUT_VALS_def)
  moreover have "?ok zero_handler" by (simp add: zero_handler_def MAX_NUM_ARGS_def MAX_NUM_OUTPUT_VALS_def)
  moreover have "smc_handlers H ! unat handler_id = zero_handler \<or>
      (unat handler_id, smc_handlers H ! unat handler_id) \<in> set (smc_handler_list H)"
    using assms by (auto simp: smc_handlers_nth word_less_nat_alt split: option.splits dest: map_of_SomeD)
  ultimately have "?ok (smc_handlers H ! unat handler_id)" by (auto simp: list_all_iff)
  then show "rmi_type (smc_handlers H ! unat handler_id) AND 0xFF \<le> MAX_NUM_ARGS"
    and "drop_bit 8 (rmi_type (smc_handlers H ! unat handler_id)) AND 0xFF \<le> MAX_NUM_OUTPUT_VALS"
    by blast+
qed

lemma rmi_log_on_exit_total:
  assumes "handler_id < 28"
  shows "\<exists>out. rmi_log_on_exit H handler_id args res st = Some (st\<lparr>console := console st @ out\<rparr>) \<and>
    (\<not> log_exec (smc_handlers H ! unat handler_id) \<and> \<not> log_error (smc_handlers H ! unat handler_id) \<longrightarrow> out = [])"
proof -
  have n: "(rmi_type (smc_handlers H ! unat handler_id) AND 0xFF > MAX_NUM_ARGS) = False"
    "(drop_bit 8 (rmi_type (smc_handlers H ! unat handler_id)) AND 0xFF > MAX_NUM_OUTPUT_VALS) = False"
    using smc_handler_types [OF assms, of H] by (simp_all only: not_less not_False_eq_True simp_thms)
  have st: "Some st = Some (st\<lparr>console := console st @ []\<rparr>)" by simp
  show ?thesis
  proof (cases "\<not> log_exec (smc_handlers H ! unat handler_id) \<and> \<not> log_error (smc_handlers H ! unat handler_id)")
    case True
    then show ?thesis using st unfolding rmi_log_on_exit_def Let_def by auto
  next
    case False
    then show ?thesis
      using st unfolding rmi_log_on_exit_def Let_def n append.assoc
      by (simp only: if_False simp_thms append.assoc if_distrib [of "\<lambda>x. \<exists>out. x = _ out"] split: if_split) blast
  qed
qed

text \<open>A call whose handler returns, on a processor whose checks pass, returns.\<close>

lemma handle_ns_smc_returns:
  assumes "k < 28" "strip_hint fid = SMC64_RMI_FID k" "map_of (smc_handler_list H) (unat k) = Some h" "fn h = Some f"
    and "\<And>st. check_cpu_slots_empty H st" "\<And>st. \<not> simd_is_state_saved H st"
    and "\<not> rmi_handler_needs_fpu H (SMC64_RMI_FID k)"
    and "call_handler (rmi_type h) f a0 a1 a2 a3 a4 res
           (st\<lparr>simd := Sve_hint (fid AND SMC_SVE_HINT \<noteq> 0) # simd st\<rparr>) = Some (res', st')"
  shows "\<exists>out. handle_ns_smc H fid a0 a1 a2 a3 a4 a5 res st = Some (res', st'\<lparr>console := console st' @ out\<rparr>)"
proof -
  obtain out where "rmi_log_on_exit H k [a0, a1, a2, a3, a4] res' st' = Some (st'\<lparr>console := console st' @ out\<rparr>)"
    using rmi_log_on_exit_total [OF assms(1)] by blast
  then show ?thesis
    using handle_ns_smc_known [OF assms(1-4) assms(5) assms(6,7)] assms(5,6,8) by simp blast
qed

end
