(* ===== verification/Rmm_Calls.thy ===== *)
theory Rmm_Calls
  imports Rmm_Handler
begin

text \<open>
  Sequences of calls from the non-secure host: the step relation of
  \<open>handle_ns_smc\<close>, its reachable states, and the invariant that no granule stays locked and no
  buffer stays mapped between two calls.
\<close>

section \<open>The contract of the handlers\<close>

text \<open>What a handler outside the repository is asked to keep: it releases what it takes.\<close>

definition releases :: "mstate \<Rightarrow> mstate \<Rightarrow> bool" where
  "releases st st' \<longleftrightarrow> balanced (cmds st) (cmds st') \<and> slots_balanced (cmds st) (cmds st')"

definition value_handler_ok :: "(mstate \<Rightarrow> (u64 \<times> mstate) option) \<Rightarrow> bool" where
  "value_handler_ok f \<longleftrightarrow> (\<forall>st x st'. f st = Some (x, st') \<longrightarrow> releases st st')"

definition result_handler_ok :: "(smc_result \<Rightarrow> mstate \<Rightarrow> (smc_result \<times> mstate) option) \<Rightarrow> bool" where
  "result_handler_ok f \<longleftrightarrow> (\<forall>res st res' st'. length res = SMC_RESULT_REGS \<longrightarrow> f res st = Some (res', st') \<longrightarrow> releases st st')"

definition externals_ok :: "handler_env \<Rightarrow> bool" where
  "externals_ok H \<longleftrightarrow>
     (\<forall>a. result_handler_ok (smc_version H a)) \<and>
     (\<forall>a. result_handler_ok (smc_read_feature_register H a)) \<and>
     (\<forall>a. value_handler_ok (smc_granule_delegate H a)) \<and>
     (\<forall>a. value_handler_ok (smc_granule_undelegate H a)) \<and>
     (\<forall>a b. value_handler_ok (smc_realm_create H a b)) \<and>
     (\<forall>a. value_handler_ok (smc_realm_destroy H a)) \<and>
     (\<forall>a. value_handler_ok (smc_realm_activate H a)) \<and>
     (\<forall>a b c. value_handler_ok (smc_rec_create H a b c)) \<and>
     (\<forall>a. value_handler_ok (smc_rec_destroy H a)) \<and>
     (\<forall>a b. value_handler_ok (smc_rec_enter H a b)) \<and>
     (\<forall>a b c. value_handler_ok (smc_psci_complete H a b c)) \<and>
     (\<forall>a. result_handler_ok (smc_rec_aux_count H a))"

text \<open>A command of the RTT theories keeps it, by the interpretations of the command locales.\<close>

lemma on_log_Some:
  "on_log f st = Some (x, st') \<longleftrightarrow> (\<exists>s'. f (cmds st) = Some (x, s') \<and> st' = st\<lparr>cmds := s'\<rparr>)"
  by (auto simp: on_log_def)

lemma command_releases: "command_ok (cmds st) ret s' \<Longrightarrow> releases st (st\<lparr>cmds := s'\<rparr>)"
  by (simp add: command_ok_def releases_def)

lemma value_on_log_ok: "value_command run \<Longrightarrow> value_handler_ok (on_log run)"
  by (auto simp: value_handler_ok_def on_log_Some intro!: command_releases dest: value_command.value_contract)

lemma result_on_log_ok: "result_command valid run \<Longrightarrow> valid \<Longrightarrow> result_handler_ok (\<lambda>res. on_log (run res))"
  by (auto simp: result_handler_ok_def on_log_Some intro!: command_releases dest: result_command.contract)

lemmas rtt_handlers_ok = value_on_log_ok [OF rtt_create.value_command_axioms]
  value_on_log_ok [OF rtt_map_unprotected.value_command_axioms]
  value_on_log_ok [OF data_create_known.value_command_axioms]
  value_on_log_ok [OF data_create_unknown.value_command_axioms]
  result_on_log_ok [OF rtt_fold.result_command_axioms TrueI]
  result_on_log_ok [OF rtt_destroy.result_command_axioms TrueI]
  result_on_log_ok [OF rtt_unmap_unprotected.result_command_axioms TrueI]
  result_on_log_ok [OF rtt_read_entry.result_command_axioms TrueI]
  result_on_log_ok [OF data_destroy.result_command_axioms TrueI]
  result_on_log_ok [OF rtt_init_ripas.result_command_axioms]
  result_on_log_ok [OF rtt_set_ripas.result_command_axioms]

text \<open>The same for a member of the union of handlers.\<close>

fun fn_ok :: "smc_fn \<Rightarrow> bool" where
  "fn_ok (f_00 f) = value_handler_ok f"
| "fn_ok (f_10 f) = (\<forall>a. value_handler_ok (f a))"
| "fn_ok (f_20 f) = (\<forall>a b. value_handler_ok (f a b))"
| "fn_ok (f_30 f) = (\<forall>a b c. value_handler_ok (f a b c))"
| "fn_ok (f_40 f) = (\<forall>a b c d. value_handler_ok (f a b c d))"
| "fn_ok (f_50 f) = (\<forall>a b c d e. value_handler_ok (f a b c d e))"
| "fn_ok (f_1o f) = (\<forall>a. result_handler_ok (f a))"
| "fn_ok (f_2o f) = (\<forall>a b. result_handler_ok (f a b))"
| "fn_ok (f_3o f) = (\<forall>a b c. result_handler_ok (f a b c))"
| "fn_ok (f_4o f) = (\<forall>a b c d. result_handler_ok (f a b c d))"

lemma call_value_releases: "value_handler_ok f \<Longrightarrow> call_value (f st) res = Some (res', st') \<Longrightarrow> releases st st'"
  by (auto simp: value_handler_ok_def call_value_def)

lemma result_handler_releases:
  "result_handler_ok f \<Longrightarrow> length res = SMC_RESULT_REGS \<Longrightarrow> f res st = Some (res', st') \<Longrightarrow> releases st st'"
  by (auto simp: result_handler_ok_def)

lemma call_handler_releases:
  assumes "fn_ok f" "length res = SMC_RESULT_REGS" "call_handler ty f a0 a1 a2 a3 a4 res st = Some (res', st')"
  shows "releases st st'"
  using assms
  by (cases f) (auto split: if_splits elim!: call_value_releases [rotated] result_handler_releases [rotated 2])

lemma smc_handlers_ok:
  assumes "externals_ok H" "sizes_ok (rmm H)" "(i, h) \<in> set (smc_handler_list H)" "i \<notin> {0x1A, 0x1B}" "fn h = Some f"
  shows "fn_ok f"
proof -
  have "list_all (\<lambda>(i, h). i \<in> {0x1A, 0x1B} \<or> fn_ok (the (fn h))) (smc_handler_list H)"
    using assms(1,2) by (simp add: smc_handler_list_def rmi_fid_defs externals_ok_def rtt_handlers_ok)
  with assms(3-5) show ?thesis by (auto simp: list_all_iff)
qed

definition block_call :: "u32 \<Rightarrow> bool" where
  "block_call fid \<longleftrightarrow> strip_hint fid = SMC_RMM_IPA_BLOCK \<or> strip_hint fid = SMC_RMM_IPA_UNBLOCK"

lemma handle_ns_smc_releases:
  assumes "handle_ns_smc H fid a0 a1 a2 a3 a4 a5 res st = Some (res', st')" "\<not> block_call fid"
    and "externals_ok H" "sizes_ok (rmm H)" "length res = SMC_RESULT_REGS"
  shows "releases st st'"
  using assms(1)
proof (cases rule: handle_ns_smc_cases)
  case unknown
  then show ?thesis by (simp add: releases_def balanced_def slots_balanced_def)
next
  case (call k h f st1 st2)
  have "unat k \<notin> {0x1A, 0x1B}"
  proof
    assume "unat k \<in> {0x1A, 0x1B}"
    then have "k = 0x1A \<or> k = 0x1B" by (auto simp: word_unat_eq_iff)
    then show False using assms(2) call(2) by (auto simp: block_call_def rmi_fid_defs)
  qed
  then have "releases st1 st2" using smc_handlers_ok [OF assms(3,4) map_of_SomeD [OF call(3)] _ call(4)] call_handler_releases [OF _ assms(5) call(5)] by blast
  then show ?thesis using call(6,7) by (simp add: releases_def)
qed

section \<open>Reachable states\<close>

text \<open>The host's calls one after the other; each returns, with the state the next one finds.\<close>

inductive ns_calls :: "handler_env \<Rightarrow> u32 list \<Rightarrow> mstate \<Rightarrow> mstate \<Rightarrow> bool" for H where
  ns_none: "ns_calls H [] st st"
| ns_call: "ns_calls H fids st st1 \<Longrightarrow> length res = SMC_RESULT_REGS \<Longrightarrow>
    handle_ns_smc H fid a0 a1 a2 a3 a4 a5 res st1 = Some (res', st2) \<Longrightarrow> ns_calls H (fid # fids) st st2"

inductive_cases ns_callsE: "ns_calls H (fid # fids) st st'"

inductive_simps ns_calls_Nil [simp]: "ns_calls H [] st st'"

definition quiescent :: "mstate \<Rightarrow> bool" where
  "quiescent st \<longleftrightarrow> locks (cmds st) = Some {#} \<and> slots (cmds st) = Some {#}"

lemma releases_quiescent: "releases st st' \<Longrightarrow> quiescent st \<Longrightarrow> quiescent st'"
  by (simp add: releases_def quiescent_def balanced_def slots_balanced_def)

lemma ns_calls_invariant:
  assumes "ns_calls H fids st st'" "quiescent st" "externals_ok H" "sizes_ok (rmm H)"
    and "\<forall>fid\<in>set fids. \<not> block_call fid"
  shows "quiescent st'"
  using assms
proof (induction rule: ns_calls.induct)
  case (ns_none st)
  then show ?case by simp
next
  case (ns_call fids st st1 res fid a0 a1 a2 a3 a4 a5 res' st2)
  then have "quiescent st1" by simp
  moreover have "releases st1 st2" using handle_ns_smc_releases ns_call by (metis list.set_intros(1))
  ultimately show ?case by (rule releases_quiescent [rotated])
qed

text \<open>The call that blocks a page ends with a double unlock unless it rejects its arguments.\<close>

lemma block_call_locks:
  assumes "handle_ns_smc H fid a0 a1 a2 a3 a4 a5 res st = Some (res', st')" "strip_hint fid = SMC_RMM_IPA_BLOCK"
    and "quiescent st" "length res = SMC_RESULT_REGS" "res' ! 0 \<noteq> RMI_ERROR_INPUT" "res' ! 0 \<noteq> SMC_UNKNOWN"
  shows "locks (cmds st') = None"
  using assms(1)
proof (cases rule: handle_ns_smc_cases)
  case unknown
  then show ?thesis using assms(4,6) by (simp add: SMC_RESULT_REGS_def)
next
  case (call k h f st1 st2)
  have "k = 0x1A"
    using call(1,2) assms(2) RMI_HANDLER_ID_FID [of k] RMI_HANDLER_ID_FID [of "0x1A"] by (simp add: rmi_fid_defs)
  then have "f = f_20 (\<lambda>a b. on_log (smc_ipa_block (rmm H) a b))"
    using map_of_SomeD [OF call(3)] call(4) by (auto simp: smc_handler_list_def rmi_fid_defs)
  then obtain ret s' where b: "smc_ipa_block (rmm H) a0 a1 (cmds st) = Some (ret, s')" "cmds st' = s'" "res' ! 0 = ret"
    using call(5-7) assms(4) by (auto simp: call_value_def on_log_def SMC_RESULT_REGS_def split: if_splits)
  then show ?thesis using ipa_block_locks [OF b(1)] assms(3,5) by (simp add: quiescent_def)
qed

end
