(* ===== verification/Rmm_Exit.thy ===== *)
theory Rmm_Exit
  imports Rmm_Rtt
begin

text \<open>
  Exits of a realm to the monitor: src/tetd_cca/rmm/runtime/core/exit.c with the records of
  smc-rmi.h that it fills for the host. The system registers, the REC and the exit record are
  one state; what exit.c calls in other files (abort injection, SIMD contexts, the handlers of
  realm service calls) and the constants of arch.h, esr.h, smc-rsi.h and rsi-handler.h are
  fields of an environment. \<open>None\<close> is a failing assertion, also that of \<open>system_abort\<close>.
\<close>

section \<open>Data shared with the host (smc-rmi.h)\<close>

definition REC_EXIT_NR_GPRS :: nat where "REC_EXIT_NR_GPRS = 31"
definition REC_GIC_NUM_LRS :: nat where "REC_GIC_NUM_LRS = 16"

record struct_rmi_rec_enter =
  enter_flags :: u64
  enter_gprs :: "u64 list"
  enter_gicv3_hcr :: u64
  enter_gicv3_lrs :: "u64 list"

record rmi_rec_exit =
  exit_reason :: u64
  exit_esr :: u64
  exit_far :: u64
  exit_hpfar :: u64
  exit_gprs :: "u64 list"
  exit_gicv3_hcr :: u64
  exit_gicv3_lrs :: "u64 list"
  exit_gicv3_misr :: u64
  exit_gicv3_vmcr :: u64
  exit_cntp_ctl :: u64
  exit_cntp_cval :: u64
  exit_cntv_ctl :: u64
  exit_cntv_cval :: u64
  exit_ripas_base :: u64
  exit_ripas_top :: u64
  exit_ripas_value :: u8
  exit_imm :: u32
  exit_pmu_ovf_status :: u64

record rmi_rec_run =
  run_enter :: struct_rmi_rec_enter
  run_exit :: rmi_rec_exit

section \<open>State and environment\<close>

type_synonym simd_context = u64

record run_info =
  run_esr :: u64
  run_far :: u64
  run_hpfar :: u64

text \<open>The members of \<open>struct rec\<close> that exit.c reads or writes.\<close>

record realm_ec =
  regs :: "u64 list"
  sve_en :: bool
  active_simd_ctx :: simd_context
  simd_ctx :: simd_context
  cptr_el2 :: u64
  last_run_info :: run_info

record sysregs =
  ESR_EL2 :: u64
  FAR_EL2 :: u64
  HPFAR_EL2 :: u64
  ELR_EL2 :: u64
  SPSR_EL2 :: u64

record xstate =
  the_rec :: realm_ec
  rec_exit :: rmi_rec_exit
  cpu :: sysregs

record rsi_result =
  action :: u32
  rtt_level :: u64
  smc_res :: smc_result

datatype s2_walk_status = WALK_SUCCESS | WALK_INVALID_PARAMS | WALK_FAIL

text \<open>Constants of the headers arch.h and esr.h; a mask \<open>MASK(x)\<close> is a field of its own.\<close>

record esr_env =
  SPSR_EL2_nRW_AARCH32 :: u64
  ESR_EL2_ABORT_ISV_BIT :: u64
  MASK_EC :: u64
  MASK_ABORT_FSC :: u64
  MASK_ABORT_FSC_LEVEL :: u64
  MASK_ABORT_SET :: u64
  MASK_SERROR_DFSC :: u64
  MASK_SERROR_AET :: u64
  MASK_HPFAR_FIPA :: u64
  HPFAR_EL2_FIPA_OFFSET :: nat
  ESR_EL2_ABORT_FSC_SEA :: u64
  ESR_EL2_ABORT_FSC_SEA_TTW_START :: u64
  ESR_EL2_ABORT_FSC_SEA_TTW_END :: u64
  ESR_EL2_ABORT_FSC_TRANSLATION_FAULT :: u64
  ESR_EL2_ABORT_FSC_TRANSLATION_FAULT_L0 :: u64
  ESR_EL2_ABORT_SET_UER :: u64
  ESR_EL2_ABORT_SET_UEO :: u64
  ESR_EL2_ABORT_SET_UC :: u64
  ESR_NONEMULATED_ABORT_MASK :: u64
  ESR_EMULATED_ABORT_MASK :: u64
  ESR_SERROR_MASK :: u64
  ESR_EL2_SERROR_IDS_BIT :: u64
  ESR_EL2_SERROR_DFSC_ASYNC :: u64
  ESR_EL2_SERROR_AET_UEU :: u64
  ESR_EL2_SERROR_AET_UER :: u64
  ESR_EL2_SERROR_AET_CE :: u64
  ESR_EL2_SERROR_AET_UEO :: u64
  ESR_EL2_SERROR_AET_UC :: u64
  ESR_EL2_WFx_TI_BIT :: u64
  ESR_EL2_EC_WFX :: u64
  ESR_EL2_EC_HVC :: u64
  ESR_EL2_EC_SMC :: u64
  ESR_EL2_EC_SYSREG :: u64
  ESR_EL2_EC_INST_ABORT :: u64
  ESR_EL2_EC_DATA_ABORT :: u64
  ESR_EL2_EC_FPU :: u64
  ESR_EL2_EC_SVE :: u64
  ESR_EL2_EC_SME :: u64
  ARM_EXCEPTION_SYNC_LEL :: int
  ARM_EXCEPTION_IRQ_LEL :: int
  ARM_EXCEPTION_FIQ_LEL :: int
  ARM_EXCEPTION_SERROR_LEL :: int
  esr_srt :: "u64 \<Rightarrow> u32"
  access_mask :: "u64 \<Rightarrow> u64"
  esr_is_write :: "u64 \<Rightarrow> bool"

type_synonym rsi_handler = "xstate \<Rightarrow> rsi_result \<Rightarrow> xstate \<times> rsi_result"

record exit_env = esr_env +
  x_RTT_PAGE_LEVEL :: u64
  x_GRANULE_MASK :: u64
  GRANULE_ALIGNED :: "u64 \<Rightarrow> bool"
  addr_in_rec_par :: "realm_ec \<Rightarrow> u64 \<Rightarrow> bool"
  realm_ipa_to_pa :: "realm_ec \<Rightarrow> u64 \<Rightarrow> s2_walk_status \<times> ripas"
  inject_sync_idabort :: "u64 \<Rightarrow> xstate \<Rightarrow> xstate"
  realm_inject_undef_abort :: "xstate \<Rightarrow> xstate"
  inject_serror :: "u64 \<Rightarrow> xstate \<Rightarrow> xstate"
  handle_sysreg_access_trap :: "u64 \<Rightarrow> xstate \<Rightarrow> bool \<times> xstate"
  simd_context_switch :: "simd_context \<Rightarrow> simd_context \<Rightarrow> simd_context"
  simd_context_save :: "simd_context \<Rightarrow> xstate \<Rightarrow> xstate"
  simd_context_restore :: "simd_context \<Rightarrow> xstate \<Rightarrow> xstate"
  SIMD_ENABLE_CPTR_FLAGS :: "realm_ec \<Rightarrow> u64 \<Rightarrow> u64"
  x_RMM_FPU_USE_AT_REL2 :: bool
  FLAG_UPDATE_REC :: u32
  FLAG_STAGE_2_ABORT :: u32
  FLAG_EXIT_TO_HOST :: u32
  UPDATE_REC_RETURN_TO_REALM :: u32
  SMC32_PSCI_FID_MIN :: u32
  SMC32_PSCI_FID_MAX :: u32
  SMC64_PSCI_FID_MIN :: u32
  SMC64_PSCI_FID_MAX :: u32
  SMC_RSI_VERSION :: u32
  SMC_RSI_FEATURES :: u32
  SMC_RSI_ATTEST_TOKEN_INIT :: u32
  SMC_RSI_ATTEST_TOKEN_CONTINUE :: u32
  SMC_RSI_MEASUREMENT_READ :: u32
  SMC_RSI_MEASUREMENT_EXTEND :: u32
  SMC_RSI_REALM_CONFIG :: u32
  SMC_RSI_IPA_STATE_SET :: u32
  SMC_RSI_IPA_STATE_GET :: u32
  SMC_RSI_HOST_CALL :: u32
  handle_psci :: rsi_handler
  handle_rsi_version :: rsi_handler
  handle_rsi_features :: rsi_handler
  handle_rsi_attest_token_init :: rsi_handler
  handle_rsi_attest_token_continue :: rsi_handler
  handle_rsi_measurement_read :: rsi_handler
  handle_rsi_measurement_extend :: rsi_handler
  handle_rsi_realm_config :: rsi_handler
  handle_rsi_ipa_state_set :: rsi_handler
  handle_rsi_ipa_state_get :: rsi_handler
  handle_rsi_host_call :: rsi_handler

section \<open>Aborts\<close>

definition system_abort :: "(bool \<times> xstate) option" where
  "system_abort = None"

text \<open>\<open>fixup_aarch32_data_abort\<close> returns its result and the syndrome it may have changed.\<close>

definition fixup_aarch32_data_abort :: "exit_env \<Rightarrow> u64 \<Rightarrow> xstate \<Rightarrow> bool \<times> u64" where
  "fixup_aarch32_data_abort X esr st =
     (let spsr = SPSR_EL2 (cpu st) in
      if spsr AND SPSR_EL2_nRW_AARCH32 X \<noteq> 0 then (True, esr AND NOT (ESR_EL2_ABORT_ISV_BIT X))
      else (False, esr))"

definition get_dabt_write_value :: "exit_env \<Rightarrow> realm_ec \<Rightarrow> u64 \<Rightarrow> u64" where
  "get_dabt_write_value X rec esr =
     (let rt = esr_srt X esr in
      if rt = 31 then 0 else regs rec ! unat rt AND access_mask X esr)"

definition access_in_rec_par :: "exit_env \<Rightarrow> realm_ec \<Rightarrow> u64 \<Rightarrow> bool" where
  "access_in_rec_par X rec addr = addr_in_rec_par X rec addr"

definition ipa_is_empty :: "exit_env \<Rightarrow> u64 \<Rightarrow> realm_ec \<Rightarrow> bool option" where
  "ipa_is_empty X ipa rec =
     (if \<not> GRANULE_ALIGNED X ipa then None
      else
        let (walk_status, ripas_val) = realm_ipa_to_pa X rec ipa
        in Some (walk_status \<noteq> WALK_INVALID_PARAMS \<and> ripas_val = RIPAS_EMPTY))"

definition fsc_is_external_abort :: "exit_env \<Rightarrow> u64 \<Rightarrow> bool" where
  "fsc_is_external_abort X fsc =
     (if fsc = ESR_EL2_ABORT_FSC_SEA X then True
      else if fsc \<ge> ESR_EL2_ABORT_FSC_SEA_TTW_START X \<and> fsc \<le> ESR_EL2_ABORT_FSC_SEA_TTW_END X then True
      else False)"

definition set_exit :: "(rmi_rec_exit \<Rightarrow> rmi_rec_exit) \<Rightarrow> xstate \<Rightarrow> xstate" where
  "set_exit f st = st\<lparr>rec_exit := f (rec_exit st)\<rparr>"

definition handle_sync_external_abort :: "exit_env \<Rightarrow> u64 \<Rightarrow> xstate \<Rightarrow> (bool \<times> xstate) option" where
  "handle_sync_external_abort X esr st =
     (let fsc = esr AND MASK_ABORT_FSC X;
          aet = esr AND MASK_ABORT_SET X;
          report = set_exit (\<lambda>e. e\<lparr>exit_esr := esr AND ESR_NONEMULATED_ABORT_MASK X\<rparr>)
      in if \<not> fsc_is_external_abort X fsc then Some (False, st)
         else if aet = ESR_EL2_ABORT_SET_UER X
         then Some (True, report (inject_sync_idabort X (ESR_EL2_ABORT_FSC_SEA X) st))
         else if aet = ESR_EL2_ABORT_SET_UEO X then Some (True, report st)
         else if aet = ESR_EL2_ABORT_SET_UC X then system_abort
         else None)"

definition emulate_stage2_data_abort :: "exit_env \<Rightarrow> u64 \<Rightarrow> xstate \<Rightarrow> xstate option" where
  "emulate_stage2_data_abort X level st =
     (let fipa = regs (the_rec st) ! 1 in
      if level \<le> x_RTT_PAGE_LEVEL X
      then Some (set_exit (\<lambda>e. e\<lparr>
             exit_esr := ESR_EL2_EC_DATA_ABORT X OR (ESR_EL2_ABORT_FSC_TRANSLATION_FAULT_L0 X + level),
             exit_far := 0,
             exit_hpfar := drop_bit (HPFAR_EL2_FIPA_OFFSET X) fipa,
             exit_reason := RMI_EXIT_SYNC\<rparr>) st)
      else None)"

definition handle_data_abort :: "exit_env \<Rightarrow> u64 \<Rightarrow> xstate \<Rightarrow> (bool \<times> xstate) option" where
  "handle_data_abort X esr st =
     (let hpfar = HPFAR_EL2 (cpu st);
          fipa = push_bit (HPFAR_EL2_FIPA_OFFSET X) (hpfar AND MASK_HPFAR_FIPA X)
      in do {
        (external, st) \<leftarrow> handle_sync_external_abort X esr st;
        (if external then Some (False, st)
         else do {
           empty \<leftarrow> ipa_is_empty X fipa (the_rec st);
           (if empty then Some (True, inject_sync_idabort X (ESR_EL2_ABORT_FSC_SEA X) st)
            else
              let (fixed, esr) = fixup_aarch32_data_abort X esr st;
                  (esr, far, write_val) =
                    (if fixed \<or> access_in_rec_par X (the_rec st) fipa
                     then (esr AND ESR_NONEMULATED_ABORT_MASK X, 0, 0)
                     else (esr AND ESR_EMULATED_ABORT_MASK X,
                           FAR_EL2 (cpu st) AND NOT (x_GRANULE_MASK X),
                           if esr_is_write X esr then get_dabt_write_value X (the_rec st) esr else 0))
              in Some (False, set_exit (\<lambda>e. e\<lparr>exit_esr := esr, exit_far := far, exit_hpfar := hpfar,
                                              exit_gprs := (exit_gprs e)[0 := write_val]\<rparr>) st))
         })
      })"

definition handle_instruction_abort :: "exit_env \<Rightarrow> u64 \<Rightarrow> xstate \<Rightarrow> (bool \<times> xstate) option" where
  "handle_instruction_abort X esr st =
     (let fsc = esr AND MASK_ABORT_FSC X;
          fsc_type = fsc AND NOT (MASK_ABORT_FSC_LEVEL X);
          hpfar = HPFAR_EL2 (cpu st);
          fipa = push_bit (HPFAR_EL2_FIPA_OFFSET X) (hpfar AND MASK_HPFAR_FIPA X)
      in do {
        (external, st) \<leftarrow> handle_sync_external_abort X esr st;
        (if external then Some (False, st)
         else do {
           to_realm \<leftarrow> (if \<not> access_in_rec_par X (the_rec st) fipa then Some True
                        else ipa_is_empty X fipa (the_rec st));
           (if to_realm then Some (True, inject_sync_idabort X (ESR_EL2_ABORT_FSC_SEA X) st)
            else if fsc_type \<noteq> ESR_EL2_ABORT_FSC_TRANSLATION_FAULT X then Some (False, st)
            else Some (False, set_exit (\<lambda>e. e\<lparr>exit_hpfar := hpfar,
                                              exit_esr := esr AND ESR_NONEMULATED_ABORT_MASK X\<rparr>) st))
         })
      })"

section \<open>SIMD and realm service calls\<close>

definition handle_simd_exception :: "exit_env \<Rightarrow> u64 \<Rightarrow> xstate \<Rightarrow> (bool \<times> xstate) option" where
  "handle_simd_exception X esr st =
     (let esr_el2_ec = esr AND MASK_EC X;
          rec = the_rec st
      in if esr_el2_ec = ESR_EL2_EC_SVE X \<and> \<not> sve_en rec then Some (True, realm_inject_undef_abort X st)
         else if esr_el2_ec = ESR_EL2_EC_SME X \<and> (\<not> sve_en rec \<or> active_simd_ctx rec = simd_ctx rec)
         then Some (True, realm_inject_undef_abort X st)
         else if active_simd_ctx rec = simd_ctx rec then None
         else
           let rec = rec\<lparr>active_simd_ctx := simd_context_switch X (active_simd_ctx rec) (simd_ctx rec)\<rparr>;
               rec = rec\<lparr>cptr_el2 := SIMD_ENABLE_CPTR_FLAGS X rec (cptr_el2 rec)\<rparr>
           in Some (True, st\<lparr>the_rec := rec\<rparr>))"

definition advance_pc :: "xstate \<Rightarrow> xstate" where
  "advance_pc st =
     (let pc = ELR_EL2 (cpu st) in st\<lparr>cpu := (cpu st)\<lparr>ELR_EL2 := pc + 4\<rparr>\<rparr>)"

definition rsi_handler_needs_fpu :: "exit_env \<Rightarrow> u32 \<Rightarrow> bool" where
  "rsi_handler_needs_fpu X fid \<longleftrightarrow>
     x_RMM_FPU_USE_AT_REL2 X \<and> (fid = SMC_RSI_ATTEST_TOKEN_CONTINUE X \<or> fid = SMC_RSI_MEASUREMENT_EXTEND X)"

text \<open>The \<open>switch\<close> on the function identifier.\<close>

definition rsi_dispatch :: "exit_env \<Rightarrow> u32 \<Rightarrow> xstate \<Rightarrow> rsi_result \<Rightarrow> xstate \<times> rsi_result" where
  "rsi_dispatch X fid st res =
     (let answer = (\<lambda>x. res\<lparr>action := UPDATE_REC_RETURN_TO_REALM X, smc_res := (smc_res res)[0 := x]\<rparr>)
      in if fid = SMCCC_VERSION then (st, answer SMCCC_VERSION_NUMBER)
         else if SMC32_PSCI_FID_MIN X \<le> fid \<and> fid \<le> SMC32_PSCI_FID_MAX X \<or>
                 SMC64_PSCI_FID_MIN X \<le> fid \<and> fid \<le> SMC64_PSCI_FID_MAX X then handle_psci X st res
         else if fid = SMC_RSI_VERSION X then handle_rsi_version X st res
         else if fid = SMC_RSI_FEATURES X then handle_rsi_features X st res
         else if fid = SMC_RSI_ATTEST_TOKEN_INIT X then handle_rsi_attest_token_init X st res
         else if fid = SMC_RSI_ATTEST_TOKEN_CONTINUE X then handle_rsi_attest_token_continue X st res
         else if fid = SMC_RSI_MEASUREMENT_READ X then handle_rsi_measurement_read X st res
         else if fid = SMC_RSI_MEASUREMENT_EXTEND X then handle_rsi_measurement_extend X st res
         else if fid = SMC_RSI_REALM_CONFIG X then handle_rsi_realm_config X st res
         else if fid = SMC_RSI_IPA_STATE_SET X then handle_rsi_ipa_state_set X st res
         else if fid = SMC_RSI_IPA_STATE_GET X then handle_rsi_ipa_state_get X st res
         else if fid = SMC_RSI_HOST_CALL X then handle_rsi_host_call X st res
         else (st, answer SMC_UNKNOWN))"

definition handle_realm_rsi :: "exit_env \<Rightarrow> xstate \<Rightarrow> (bool \<times> xstate) option" where
  "handle_realm_rsi X st =
     (let res = \<lparr>action = 0, rtt_level = 0, smc_res = replicate SMC_RESULT_REGS 0\<rparr>;
          function_id = (ucast (regs (the_rec st) ! 0) :: u32);
          res = res\<lparr>smc_res := fold (\<lambda>i x. x[i := regs (the_rec st) ! i]) [4..<SMC_RESULT_REGS] (smc_res res)\<rparr>;
          function_id = function_id AND NOT SMC_SVE_HINT;
          restore_simd_ctx = rsi_handler_needs_fpu X function_id;
          st = (if restore_simd_ctx then simd_context_save X (active_simd_ctx (the_rec st)) st else st);
          (st, res) = rsi_dispatch X function_id st res;
          st = (if restore_simd_ctx then simd_context_restore X (active_simd_ctx (the_rec st)) st else st);
          st = (if action res AND FLAG_UPDATE_REC X \<noteq> 0
                then st\<lparr>the_rec := (the_rec st)\<lparr>regs :=
                       fold (\<lambda>i r. r[i := smc_res res ! i]) [0..<SMC_RESULT_REGS] (regs (the_rec st))\<rparr>\<rparr>
                else st)
      in do {
        st \<leftarrow> (if action res AND FLAG_STAGE_2_ABORT X \<noteq> 0
               then emulate_stage2_data_abort X (rtt_level res) st
               else Some (advance_pc st));
        Some (action res AND FLAG_EXIT_TO_HOST X = 0, st)
      })"

section \<open>Exceptions\<close>

definition handle_exception_sync :: "exit_env \<Rightarrow> xstate \<Rightarrow> (bool \<times> xstate) option" where
  "handle_exception_sync X st =
     (let esr = ESR_EL2 (cpu st);
          ec = esr AND MASK_EC X
      in if ec = ESR_EL2_EC_WFX X then
           let st = set_exit (\<lambda>e. e\<lparr>exit_esr := esr AND (MASK_EC X OR ESR_EL2_WFx_TI_BIT X)\<rparr>) st
           in Some (False, advance_pc st)
         else if ec = ESR_EL2_EC_HVC X then Some (True, realm_inject_undef_abort X st)
         else if ec = ESR_EL2_EC_SMC X then handle_realm_rsi X st
         else if ec = ESR_EL2_EC_SYSREG X then
           let (ret, st) = handle_sysreg_access_trap X esr st in Some (ret, advance_pc st)
         else if ec = ESR_EL2_EC_INST_ABORT X then handle_instruction_abort X esr st
         else if ec = ESR_EL2_EC_DATA_ABORT X then handle_data_abort X esr st
         else if ec = ESR_EL2_EC_FPU X \<or> ec = ESR_EL2_EC_SVE X \<or> ec = ESR_EL2_EC_SME X
         then handle_simd_exception X esr st
         else Some (False, st))"

definition handle_exception_serror_lel :: "exit_env \<Rightarrow> xstate \<Rightarrow> (bool \<times> xstate) option" where
  "handle_exception_serror_lel X st =
     (let esr = ESR_EL2 (cpu st);
          aet = esr AND MASK_SERROR_AET X;
          report = set_exit (\<lambda>e. e\<lparr>exit_esr := esr AND ESR_SERROR_MASK X\<rparr>)
      in if esr AND ESR_EL2_SERROR_IDS_BIT X \<noteq> 0 then system_abort
         else if esr AND MASK_SERROR_DFSC X \<noteq> ESR_EL2_SERROR_DFSC_ASYNC X then system_abort
         else if aet = ESR_EL2_SERROR_AET_UEU X \<or> aet = ESR_EL2_SERROR_AET_UER X
         then Some (False, report (inject_serror X esr st))
         else if aet = ESR_EL2_SERROR_AET_CE X \<or> aet = ESR_EL2_SERROR_AET_UEO X then Some (False, report st)
         else if aet = ESR_EL2_SERROR_AET_UC X then system_abort
         else None)"

definition handle_exception_irq_lel :: "xstate \<Rightarrow> bool \<times> xstate" where
  "handle_exception_irq_lel st = (False, set_exit (\<lambda>e. e\<lparr>exit_reason := RMI_EXIT_IRQ\<rparr>) st)"

definition save_run_info :: "u64 \<Rightarrow> xstate \<Rightarrow> xstate" where
  "save_run_info esr st =
     st\<lparr>the_rec := (the_rec st)\<lparr>last_run_info :=
       \<lparr>run_esr = esr, run_far = FAR_EL2 (cpu st), run_hpfar = HPFAR_EL2 (cpu st)\<rparr>\<rparr>\<rparr>"

definition handle_realm_exit :: "exit_env \<Rightarrow> int \<Rightarrow> xstate \<Rightarrow> (bool \<times> xstate) option" where
  "handle_realm_exit X exception st =
     (if exception = ARM_EXCEPTION_SYNC_LEL X then
        let st = set_exit (\<lambda>e. e\<lparr>exit_reason := RMI_EXIT_SYNC\<rparr>) st
        in do {
          (ret, st) \<leftarrow> handle_exception_sync X st;
          Some (ret, if \<not> ret then save_run_info (ESR_EL2 (cpu st)) st else st)
        }
      else if exception = ARM_EXCEPTION_IRQ_LEL X then Some (handle_exception_irq_lel st)
      else if exception = ARM_EXCEPTION_FIQ_LEL X then
        Some (False, set_exit (\<lambda>e. e\<lparr>exit_reason := RMI_EXIT_FIQ\<rparr>) st)
      else if exception = ARM_EXCEPTION_SERROR_LEL X then
        let esr = ESR_EL2 (cpu st);
            st = set_exit (\<lambda>e. e\<lparr>exit_reason := RMI_EXIT_SERROR\<rparr>) st
        in do {
          (ret, st) \<leftarrow> handle_exception_serror_lel X st;
          Some (ret, if \<not> ret then save_run_info esr st else st)
        }
      else Some (False, st))"

end
