(* ===== verification/Rmm_Example.thy ===== *)
theory Rmm_Example
  imports Rmm_Calls Rmm_Exit
begin

text \<open>
  Concrete environments on which the properties of the monitor are applied: a realm with
  one table whose entries all have the value \<open>e\<close>, an encoding of entries by a kind in the
  low four bits, and the constants of the Arm architecture for exits.
\<close>

section \<open>A realm with one table\<close>

definition demo_rd :: rd where
  "demo_rd = \<lparr>rd_s2_ctx = \<lparr>g_rtt = 0x3000, s2_config = 0\<rparr>, rd_algorithm = 0, rd_config = 0\<rparr>"

definition demo_rec :: rec_ripas where
  "demo_rec = \<lparr>rec_g_rd = 0x1000, set_ripas_addr = 0, set_ripas_top = 0x4000, set_ripas_val = RIPAS_RAM,
     set_ripas_change = CHANGE_DESTROYED\<rparr>"

definition kind :: "u64 \<Rightarrow> u64" where
  "kind e = e AND 15"

definition demo_env :: "u64 \<Rightarrow> rmm_env" where
  "demo_env e =
     \<lparr>answer_find_granule = (\<lambda>s a. Some a),
      answer_find_lock_granule = (\<lambda>s a st. Some a),
      answer_find_lock_two = (\<lambda>s a st b st'. Some (a, b)),
      answer_granule_map = (\<lambda>s g slot. True),
      answer_refcount = (\<lambda>s g. 0),
      answer_state = (\<lambda>s g. GRANULE_STATE_NS),
      answer_ns_buffer_read = (\<lambda>s g. True),
      GRANULE_SIZE = 4096,
      rd_at = (\<lambda>s g. demo_rd),
      rec_at = (\<lambda>s g. demo_rec),
      realm_ipa_size = (\<lambda>rd. 2 ^ 40),
      realm_ipa_bits = (\<lambda>rd. 40),
      realm_rtt_starting_level = (\<lambda>rd. 0),
      realm_is_new = (\<lambda>rd. True),
      addr_in_par = (\<lambda>rd a. a < 2 ^ 39),
      addr_is_level_aligned = (\<lambda>a l. True),
      s2tte_is_unassigned = (\<lambda>e. kind e \<in> {0, 1, 2, 3}),
      s2tte_is_unassigned_empty = (\<lambda>e. kind e = 0),
      s2tte_is_unassigned_ram = (\<lambda>e. kind e = 1),
      s2tte_is_unassigned_ns = (\<lambda>e. kind e = 3),
      s2tte_is_unassigned_destroyed = (\<lambda>e. kind e = 2),
      s2tte_is_assigned_empty = (\<lambda>e l. kind e = 4),
      s2tte_is_assigned_ram = (\<lambda>e l. kind e = 5),
      s2tte_is_assigned_ns = (\<lambda>e l. kind e = 7),
      s2tte_is_assigned_destroyed = (\<lambda>e l. kind e = 6),
      s2tte_is_table = (\<lambda>e l. kind e = 8),
      s2tte_has_ripas = (\<lambda>e l. kind e \<in> {0, 1, 2, 4, 5, 6}),
      s2tte_pa = (\<lambda>e l. e AND NOT 15),
      s2tte_pa_table = (\<lambda>e l. e AND NOT 15),
      s2tte_create_unassigned_empty = 0,
      s2tte_create_unassigned_ram = 1,
      s2tte_create_unassigned_ns = 3,
      s2tte_create_unassigned_destroyed = 2,
      s2tte_create_assigned_empty = (\<lambda>pa l. pa OR 4),
      s2tte_create_assigned_ram = (\<lambda>pa l. pa OR 5),
      s2tte_create_assigned_destroyed = (\<lambda>pa l. pa OR 6),
      s2tte_create_assigned_ns = (\<lambda>pa l. pa OR 7),
      s2tte_create_assigned_unchanged = (\<lambda>e pa l. pa OR 4 OR (e AND 3)),
      s2tte_create_table = (\<lambda>pa l. pa OR 8),
      s2tte_map_size = (\<lambda>l. 4096),
      host_ns_s2tte = (\<lambda>e l. e AND NOT 15),
      host_ns_s2tte_is_valid = (\<lambda>e l. True),
      RTT_PAGE_LEVEL = 3,
      RTT_MIN_BLOCK_LEVEL = 2,
      S2TTES_PER_S2TT = 4,
      pack_return_code = (\<lambda>st l. st OR push_bit 8 (word_of_int l AND 15)),
      ripas_code = (\<lambda>r. case r of RIPAS_EMPTY \<Rightarrow> 0 | RIPAS_RAM \<Rightarrow> 1 | RIPAS_DESTROYED \<Rightarrow> 2),
      answer_rtt_walk = (\<lambda>s g sl bits a l. \<lparr>g_llt = g, wi_index = 1, last_level = l\<rparr>),
      answer_s2tte_read = (\<lambda>s b i. e),
      answer_skip_non_live = (\<lambda>s a b wi. a + 4096),
      table_is_unassigned_empty_block = (\<lambda>s b. True),
      table_is_unassigned_ram_block = (\<lambda>s b. False),
      table_is_unassigned_ns_block = (\<lambda>s b. False),
      table_is_unassigned_destroyed_block = (\<lambda>s b. False),
      table_maps_assigned_empty_block = (\<lambda>s b l. False),
      table_maps_assigned_ram_block = (\<lambda>s b l. False),
      table_maps_assigned_ns_block = (\<lambda>s b l. False),
      table_maps_assigned_destroyed_block = (\<lambda>s b l. False)\<rparr>"

lemmas demo_defs = demo_env_def demo_rd_def demo_rec_def kind_def

text \<open>The environment has what the properties ask of one.\<close>

lemma demo_sizes_ok: "sizes_ok (demo_env e)"
  by (simp add: sizes_ok_def demo_env_def)

lemma or_4_nonzero: "(4 :: u64) OR x \<noteq> 0"
proof
  assume "4 OR x = 0"
  then have "(4 OR x) AND 4 = 0" by simp
  then show False by (simp add: bit.conj_disj_distrib2 and.commute [of x])
qed

lemma demo_pack_ok: "pack_ok (demo_env e)"
  by (simp add: pack_ok_def demo_env_def RMI_ERROR_RTT_def RMI_SUCCESS_def or_4_nonzero)

lemma kind_parts: "((x AND - 16) OR k) AND 15 = k AND (15 :: u64)"
  "((x AND - 16) OR k) AND - 16 = (x AND - 16) OR (k AND (- 16 :: u64))"
  by (simp_all add: bit.conj_disj_distrib2 and.assoc)

lemma demo_laws: "s2tte_laws (demo_env e)"
  by (simp add: s2tte_laws_def ripas_view_def demo_env_def kind_def kind_parts Let_def)

section \<open>A monitor around it\<close>

definition demo_status :: "u64 \<Rightarrow> return_code_t" where
  "demo_status x = \<lparr>status = ucast (x AND 255), index = ucast (drop_bit 8 x)\<rparr>"

definition demo_handlers :: "u64 \<Rightarrow> handler_env" where
  "demo_handlers e =
     \<lparr>rmm = demo_env e, RMM_FPU_USE_AT_REL2 = True, check_cpu_slots_empty = (\<lambda>st. True),
      simd_is_state_saved = (\<lambda>st. False), unpack_return_code = demo_status,
      smc_version = (\<lambda>a res st. Some (res, st)), smc_read_feature_register = (\<lambda>a res st. Some (res, st)),
      smc_granule_delegate = (\<lambda>a st. Some (0, st)), smc_granule_undelegate = (\<lambda>a st. Some (0, st)),
      smc_realm_create = (\<lambda>a b st. Some (0, st)), smc_realm_destroy = (\<lambda>a st. Some (0, st)),
      smc_realm_activate = (\<lambda>a st. Some (0, st)), smc_rec_create = (\<lambda>a b c st. Some (0, st)),
      smc_rec_destroy = (\<lambda>a st. Some (0, st)), smc_rec_enter = (\<lambda>a b st. Some (0, st)),
      smc_psci_complete = (\<lambda>a b c st. Some (0, st)), smc_rec_aux_count = (\<lambda>a res st. Some (res, st))\<rparr>"

definition demo_mstate :: mstate where
  "demo_mstate = \<lparr>cmds = [], simd = [], console = []\<rparr>"

lemma demo_externals_ok: "externals_ok (demo_handlers e)"
  by (simp add: externals_ok_def demo_handlers_def result_handler_ok_def value_handler_ok_def releases_def
      balanced_def slots_balanced_def)

lemma demo_quiescent: "quiescent demo_mstate"
  by (simp add: quiescent_def demo_mstate_def)

lemma demo_handlers_rmm [simp]: "rmm (demo_handlers e) = demo_env e"
  by (simp add: demo_handlers_def)

section \<open>Exits of a realm\<close>

definition demo_exit_env :: exit_env where
  "demo_exit_env =
     \<lparr>SPSR_EL2_nRW_AARCH32 = 0x10,
      ESR_EL2_ABORT_ISV_BIT = 0x1000000,
      MASK_EC = 0xFC000000,
      MASK_ABORT_FSC = 0x3F,
      MASK_ABORT_FSC_LEVEL = 3,
      MASK_ABORT_SET = 0x1800,
      MASK_SERROR_DFSC = 0x3F,
      MASK_SERROR_AET = 0x1C00,
      MASK_HPFAR_FIPA = 0xFFFFFFFFFF0,
      HPFAR_EL2_FIPA_OFFSET = 8,
      ESR_EL2_ABORT_FSC_SEA = 0x10,
      ESR_EL2_ABORT_FSC_SEA_TTW_START = 0x13,
      ESR_EL2_ABORT_FSC_SEA_TTW_END = 0x17,
      ESR_EL2_ABORT_FSC_TRANSLATION_FAULT = 4,
      ESR_EL2_ABORT_FSC_TRANSLATION_FAULT_L0 = 4,
      ESR_EL2_ABORT_SET_UER = 0,
      ESR_EL2_ABORT_SET_UEO = 0x1800,
      ESR_EL2_ABORT_SET_UC = 0x1000,
      ESR_NONEMULATED_ABORT_MASK = 0xFC00183F,
      ESR_EMULATED_ABORT_MASK = 0xFDE0807F,
      ESR_SERROR_MASK = 0xFD001E3F,
      ESR_EL2_SERROR_IDS_BIT = 0x1000000,
      ESR_EL2_SERROR_DFSC_ASYNC = 0x11,
      ESR_EL2_SERROR_AET_UEU = 0x400,
      ESR_EL2_SERROR_AET_UER = 0xC00,
      ESR_EL2_SERROR_AET_CE = 0x1800,
      ESR_EL2_SERROR_AET_UEO = 0x800,
      ESR_EL2_SERROR_AET_UC = 0,
      ESR_EL2_WFx_TI_BIT = 1,
      ESR_EL2_EC_WFX = 0x04000000,
      ESR_EL2_EC_HVC = 0x58000000,
      ESR_EL2_EC_SMC = 0x5C000000,
      ESR_EL2_EC_SYSREG = 0x60000000,
      ESR_EL2_EC_INST_ABORT = 0x80000000,
      ESR_EL2_EC_DATA_ABORT = 0x90000000,
      ESR_EL2_EC_FPU = 0x1C000000,
      ESR_EL2_EC_SVE = 0x64000000,
      ESR_EL2_EC_SME = 0x74000000,
      ARM_EXCEPTION_SYNC_LEL = 0,
      ARM_EXCEPTION_IRQ_LEL = 1,
      ARM_EXCEPTION_FIQ_LEL = 2,
      ARM_EXCEPTION_SERROR_LEL = 3,
      esr_srt = (\<lambda>esr. ucast (drop_bit 16 esr AND 31)),
      access_mask = (\<lambda>esr. 0xFFFFFFFF),
      esr_is_write = (\<lambda>esr. bit esr 6),
      x_RTT_PAGE_LEVEL = 3,
      x_GRANULE_MASK = NOT 0xFFF,
      GRANULE_ALIGNED = (\<lambda>a. a AND 0xFFF = 0),
      addr_in_rec_par = (\<lambda>rec a. a < 2 ^ 39),
      realm_ipa_to_pa = (\<lambda>rec a. (WALK_SUCCESS, RIPAS_RAM)),
      inject_sync_idabort = (\<lambda>fsc st. st),
      realm_inject_undef_abort = (\<lambda>st. st),
      inject_serror = (\<lambda>esr st. st),
      handle_sysreg_access_trap = (\<lambda>esr st. (True, st)),
      simd_context_switch = (\<lambda>a b. b),
      simd_context_save = (\<lambda>c st. st),
      simd_context_restore = (\<lambda>c st. st),
      SIMD_ENABLE_CPTR_FLAGS = (\<lambda>rec c. c),
      x_RMM_FPU_USE_AT_REL2 = False,
      FLAG_UPDATE_REC = 1,
      FLAG_STAGE_2_ABORT = 2,
      FLAG_EXIT_TO_HOST = 4,
      UPDATE_REC_RETURN_TO_REALM = 1,
      SMC32_PSCI_FID_MIN = 0x84000000,
      SMC32_PSCI_FID_MAX = 0x84000014,
      SMC64_PSCI_FID_MIN = 0xC4000000,
      SMC64_PSCI_FID_MAX = 0xC4000014,
      SMC_RSI_VERSION = 0xC4000190,
      SMC_RSI_FEATURES = 0xC4000191,
      SMC_RSI_ATTEST_TOKEN_INIT = 0xC4000194,
      SMC_RSI_ATTEST_TOKEN_CONTINUE = 0xC4000195,
      SMC_RSI_MEASUREMENT_READ = 0xC4000192,
      SMC_RSI_MEASUREMENT_EXTEND = 0xC4000193,
      SMC_RSI_REALM_CONFIG = 0xC4000196,
      SMC_RSI_IPA_STATE_SET = 0xC4000197,
      SMC_RSI_IPA_STATE_GET = 0xC4000198,
      SMC_RSI_HOST_CALL = 0xC4000199,
      handle_psci = Pair,
      handle_rsi_version = Pair,
      handle_rsi_features = Pair,
      handle_rsi_attest_token_init = Pair,
      handle_rsi_attest_token_continue = Pair,
      handle_rsi_measurement_read = Pair,
      handle_rsi_measurement_extend = Pair,
      handle_rsi_realm_config = Pair,
      handle_rsi_ipa_state_set = Pair,
      handle_rsi_ipa_state_get = Pair,
      handle_rsi_host_call = Pair\<rparr>"

definition demo_rec_exit :: rmi_rec_exit where
  "demo_rec_exit =
     \<lparr>exit_reason = 0, exit_esr = 0, exit_far = 0, exit_hpfar = 0, exit_gprs = replicate REC_EXIT_NR_GPRS 0,
      exit_gicv3_hcr = 0, exit_gicv3_lrs = replicate REC_GIC_NUM_LRS 0, exit_gicv3_misr = 0, exit_gicv3_vmcr = 0,
      exit_cntp_ctl = 0, exit_cntp_cval = 0, exit_cntv_ctl = 0, exit_cntv_cval = 0, exit_ripas_base = 0,
      exit_ripas_top = 0, exit_ripas_value = 0, exit_imm = 0, exit_pmu_ovf_status = 0\<rparr>"

text \<open>A realm whose register X0 holds \<open>x0\<close>, at an exception with the given syndrome and fault address.\<close>

definition demo_xstate :: "u64 \<Rightarrow> u64 \<Rightarrow> u64 \<Rightarrow> xstate" where
  "demo_xstate x0 esr hpfar =
     \<lparr>the_rec = \<lparr>regs = x0 # replicate 30 7, sve_en = False, active_simd_ctx = 1, simd_ctx = 2, cptr_el2 = 0,
        last_run_info = \<lparr>run_esr = 0, run_far = 0, run_hpfar = 0\<rparr>\<rparr>,
      rec_exit = demo_rec_exit,
      cpu = \<lparr>ESR_EL2 = esr, FAR_EL2 = 0x12345678, HPFAR_EL2 = hpfar, ELR_EL2 = 0x8000, SPSR_EL2 = 0\<rparr>\<rparr>"

lemmas demo_exit_defs = demo_exit_env_def demo_rec_exit_def demo_xstate_def REC_EXIT_NR_GPRS_def REC_GIC_NUM_LRS_def

end
