(* ===== verification/Rmm_Order.thy ===== *)
theory Rmm_Order
  imports Rmm_Ripas Rmm_Data Rmm_Map
begin

text \<open>
  The order in which the commands write table entries and invalidate translations: the
  events of a log that matter for it, and what creating, folding and destroying a table add to
  them. A freed table or data granule is zeroed first.
\<close>

section \<open>Writes and invalidations\<close>

fun table_event :: "event \<Rightarrow> bool" where
  "table_event (S2tte_write b i v) = True"
| "table_event (Invalidate_page c a) = True"
| "table_event (Invalidate_block c a) = True"
| "table_event (Invalidate_pages_in_block c a) = True"
| "table_event _ = False"

abbreviation table_events :: "log \<Rightarrow> log" where
  "table_events s \<equiv> filter table_event s"

text \<open>The two events that take an entry away before another is written, the newest first.\<close>

definition broken :: "buffer \<Rightarrow> nat \<Rightarrow> event \<Rightarrow> log" where
  "broken p i invalidation = [invalidation, S2tte_write p i 0]"

section \<open>Creating a table\<close>

text \<open>A parent entry that maps memory, in the order in which the code tests the kinds.\<close>

definition live_block :: "rmm_env \<Rightarrow> u64 \<Rightarrow> int \<Rightarrow> bool" where
  "live_block E e l \<longleftrightarrow>
     \<not> (s2tte_is_unassigned_empty E e \<or> s2tte_is_unassigned_ram E e \<or> s2tte_is_unassigned_ns E e \<or>
        s2tte_is_unassigned_destroyed E e \<or> s2tte_is_assigned_destroyed E e l \<or> s2tte_is_assigned_empty E e l) \<and>
     (s2tte_is_assigned_ram E e l \<or> s2tte_is_assigned_ns E e l)"

lemma rtt_create_fill_events:
  assumes "rtt_create_fill E ctx map_addr level wi g_tbl p s2tt old s = Some (None, s')"
  shows "table_events s' =
    (if live_block E old (level - 1) then broken p (wi_index wi) (Invalidate_block ctx map_addr) else []) @ table_events s"
  using assms
  by (auto simp: rtt_create_fill_def live_block_def broken_def s2tte_write_def Let_def split: if_splits)

text \<open>The entry read from a parent table just mapped.\<close>

definition mapped_entry :: "rmm_env \<Rightarrow> rtt_walk \<Rightarrow> log \<Rightarrow> u64" where
  "mapped_entry E wi s = s2tte_read E (Buffer (g_llt wi) SLOT_RTT) (wi_index wi) (Map (g_llt wi) SLOT_RTT # s)"

lemma rtt_create_fill_keeps: "rtt_create_fill E ctx map_addr level wi g_tbl p s2tt old s = Some (r, s') \<Longrightarrow>
    r = None \<or> r = Some (pack_return_code E RMI_ERROR_RTT (level - 1))"
  by (auto simp: rtt_create_fill_def Let_def split: if_splits)

lemma rtt_create_entry_events:
  assumes "rtt_create_entry E ctx rtt_addr map_addr level wi g_tbl s = Some (RMI_SUCCESS, s')" "pack_ok E"
  shows "table_events s' =
      S2tte_write (Buffer (g_llt wi) SLOT_RTT) (wi_index wi) (s2tte_create_table E rtt_addr (level - 1)) #
      (if live_block E (mapped_entry E wi s) (level - 1)
       then broken (Buffer (g_llt wi) SLOT_RTT) (wi_index wi) (Invalidate_block ctx map_addr) else []) @ table_events s \<and>
    Set_state g_tbl GRANULE_STATE_RTT \<in> set s'"
proof -
  let ?p = "Buffer (g_llt wi) SLOT_RTT" and ?s = "Map (g_llt wi) SLOT_RTT # s"
  let ?s2 = "Map g_tbl SLOT_DELEGATED # ?s"
  obtain err s3 where f: "rtt_create_fill E ctx map_addr level wi g_tbl ?p (Buffer g_tbl SLOT_DELEGATED)
        (mapped_entry E wi s) ?s2 = Some (err, s3)"
    and s': "s' = (case err of None \<Rightarrow> Unlock g_tbl # Unlock (g_llt wi) # Unmap (g_llt wi) SLOT_RTT # Unmap g_tbl SLOT_DELEGATED #
        S2tte_write ?p (wi_index wi) (s2tte_create_table E rtt_addr (level - 1)) # Set_state g_tbl GRANULE_STATE_RTT # s3
      | Some r \<Rightarrow> s') \<and> (\<forall>r. err = Some r \<longrightarrow> r = RMI_SUCCESS)"
    using assms(1)
    by (auto simp: rtt_create_entry_def mapped_entry_def granule_map_def granule_unlock_def s2tte_write_def Let_def
        split: if_splits option.splits Option.bind_splits)
  have "err = None" using rtt_create_fill_keeps [OF f] s' assms(2) by (auto simp: pack_ok_def)
  then show ?thesis using s' f rtt_create_fill_events [of E ctx map_addr level wi g_tbl ?p] by auto
qed

lemma rtt_create_events:
  assumes "smc_rtt_create E rd_addr rtt_addr map_addr ulevel s = Some (RMI_SUCCESS, s')" "pack_ok E"
  shows "\<exists>g_tbl g_rd wi s1 ctx.
    answer_find_lock_two E s rtt_addr GRANULE_STATE_DELEGATED rd_addr GRANULE_STATE_RD = Some (g_tbl, g_rd) \<and>
    table_events s' =
      S2tte_write (Buffer (g_llt wi) SLOT_RTT) (wi_index wi) (s2tte_create_table E rtt_addr (sint ulevel - 1)) #
      (if live_block E (mapped_entry E wi s1) (sint ulevel - 1)
       then broken (Buffer (g_llt wi) SLOT_RTT) (wi_index wi) (Invalidate_block ctx map_addr) else []) @ table_events s \<and>
    Set_state g_tbl GRANULE_STATE_RTT \<in> set s'"
proof -
  have pk: "pack_return_code E RMI_ERROR_RTT l \<noteq> RMI_SUCCESS" for l using assms(2) by (simp add: pack_ok_def)
  obtain g_tbl g_rd ctx wi s1 where
    "answer_find_lock_two E s rtt_addr GRANULE_STATE_DELEGATED rd_addr GRANULE_STATE_RD = Some (g_tbl, g_rd)"
    "rtt_create_entry E ctx rtt_addr map_addr (sint ulevel) wi g_tbl s1 = Some (RMI_SUCCESS, s')"
    "table_events s1 = table_events s"
    using assms(1) pk
    by (auto simp: smc_rtt_create_def exec Let_def split: option.splits if_splits prod.splits)
  with rtt_create_entry_events [OF this(2) assms(2)] show ?thesis by (metis (no_types))
qed

section \<open>Folding and destroying a table\<close>

text \<open>The table granule was zeroed just before it was given back.\<close>

fun freed_zeroed :: "gptr \<Rightarrow> buffer \<Rightarrow> log \<Rightarrow> bool" where
  "freed_zeroed g b (e # e' # s) \<longleftrightarrow>
     e = Set_state g GRANULE_STATE_DELEGATED \<and> e' = Memzero_mapped b \<or> freed_zeroed g b (e' # s)"
| "freed_zeroed g b s \<longleftrightarrow> False"

lemma freed_zeroed_Cons: "freed_zeroed g b s \<Longrightarrow> freed_zeroed g b (e # s)"
  by (cases s) simp_all

lemma rtt_fold_entry_events:
  assumes "rtt_fold_entry E level wi g_tbl table s = Inr (v, s')"
  shows "table_events s' = table_events s"
  using assms by (auto simp: rtt_fold_entry_def s2tte_read_def Let_def split: if_splits)

lemma rtt_fold_entry_error:
  "rtt_fold_entry E level wi g_tbl table s = Inl ret \<Longrightarrow> \<exists>l. ret = pack_return_code E RMI_ERROR_RTT l"
  by (auto simp: rtt_fold_entry_def s2tte_read_def Let_def split: if_splits)

definition fold_invalidation :: "rmm_env \<Rightarrow> realm_s2_context \<Rightarrow> u64 \<Rightarrow> u64 \<Rightarrow> int \<Rightarrow> event" where
  "fold_invalidation E ctx map_addr v l =
     (if s2tte_is_assigned_ram E v l \<or> s2tte_is_assigned_ns E v l then Invalidate_pages_in_block ctx map_addr
      else Invalidate_block ctx map_addr)"

lemma rtt_fold_table_events:
  assumes "rtt_fold_table E ctx map_addr level wi rtt_addr g_tbl table p res s = (RMI_SUCCESS, res', s')" "pack_ok E"
  shows "\<exists>v. res' = res[1 := rtt_addr] \<and> freed_zeroed g_tbl table s' \<and>
    table_events s' = S2tte_write p (wi_index wi) v #
      broken p (wi_index wi) (fold_invalidation E ctx map_addr v (level - 1)) @ table_events s"
proof (cases "rtt_fold_entry E level wi g_tbl table s")
  case (Inl ret)
  then have "ret = RMI_SUCCESS" using assms(1) by (simp add: rtt_fold_table_def)
  with rtt_fold_entry_error [OF Inl] assms(2) show ?thesis by (metis pack_ok_def)
next
  case (Inr r)
  obtain v s2 where r: "r = (v, s2)" by fastforce
  then show ?thesis using assms Inr rtt_fold_entry_events [of E level wi g_tbl table s v s2]
    by (auto simp: rtt_fold_table_def s2tte_write_def broken_def fold_invalidation_def Let_def)
qed

lemma rtt_fold_parent_events:
  assumes "rtt_fold_parent E ctx map_addr level wi res s = Some (RMI_SUCCESS, res', s')" "pack_ok E"
  shows "\<exists>g_tbl v. answer_find_lock_granule E (Map (g_llt wi) SLOT_RTT # s)
        (s2tte_pa_table E (mapped_entry E wi s) (level - 1)) GRANULE_STATE_RTT = Some g_tbl \<and>
    res' = res[1 := s2tte_pa_table E (mapped_entry E wi s) (level - 1)] \<and>
    freed_zeroed g_tbl (Buffer g_tbl SLOT_RTT2) s' \<and>
    table_events s' = S2tte_write (Buffer (g_llt wi) SLOT_RTT) (wi_index wi) v #
      broken (Buffer (g_llt wi) SLOT_RTT) (wi_index wi) (fold_invalidation E ctx map_addr v (level - 1)) @ table_events s"
proof -
  let ?p = "Buffer (g_llt wi) SLOT_RTT" and ?s = "Map (g_llt wi) SLOT_RTT # s"
  let ?a = "s2tte_pa_table E (mapped_entry E wi s) (level - 1)"
  have pk: "pack_return_code E RMI_ERROR_RTT l \<noteq> RMI_SUCCESS" for l using assms(2) by (simp add: pack_ok_def)
  obtain g_tbl s2 where g: "answer_find_lock_granule E ?s ?a GRANULE_STATE_RTT = Some g_tbl"
    and t: "rtt_fold_table E ctx map_addr level wi ?a g_tbl (Buffer g_tbl SLOT_RTT2) ?p res
              (Map g_tbl SLOT_RTT2 # Lock g_tbl GRANULE_STATE_RTT # ?s) = (RMI_SUCCESS, res', s2)"
    and s': "s' = Unmap (g_llt wi) SLOT_RTT # Unlock g_tbl # Unmap g_tbl SLOT_RTT2 # s2"
    using assms(1) pk
    by (auto simp: rtt_fold_parent_def mapped_entry_def granule_map_def find_lock_granule_def granule_unlock_def
        s2tte_read_def Let_def split: if_splits option.splits prod.splits)
  with rtt_fold_table_events [OF t assms(2)] show ?thesis by (auto simp: freed_zeroed_Cons)
qed

lemma rtt_fold_parent_length:
  "rtt_fold_parent E ctx map_addr level wi res s = Some (ret, res', s') \<Longrightarrow> length res' = length res"
  by (auto simp: rtt_fold_parent_def rtt_fold_table_def granule_map_def find_lock_granule_def Let_def
      split: if_splits option.splits prod.splits sum.splits)

lemma rtt_fold_events:
  assumes "smc_rtt_fold E rd_addr map_addr ulevel res s = Some (res', s')" "res' ! 0 = RMI_SUCCESS"
    and "pack_ok E" "length res = SMC_RESULT_REGS"
  shows "\<exists>g_tbl wi ctx v s1 s2. answer_find_lock_granule E s2 (res' ! 1) GRANULE_STATE_RTT = Some g_tbl \<and>
    res' ! 1 = s2tte_pa_table E (mapped_entry E wi s1) (sint ulevel - 1) \<and>
    freed_zeroed g_tbl (Buffer g_tbl SLOT_RTT2) s' \<and>
    table_events s' = S2tte_write (Buffer (g_llt wi) SLOT_RTT) (wi_index wi) v #
      broken (Buffer (g_llt wi) SLOT_RTT) (wi_index wi) (fold_invalidation E ctx map_addr v (sint ulevel - 1)) @ table_events s"
proof -
  have pk: "pack_return_code E RMI_ERROR_RTT l \<noteq> RMI_SUCCESS" for l using assms(3) by (simp add: pack_ok_def)
  have r: "length r = length res \<Longrightarrow> r[0 := x] ! 0 = x" for r x
    using assms(4) by (cases r) (simp_all add: SMC_RESULT_REGS_def)
  obtain ctx wi s1 res1 s2 where p: "rtt_fold_parent E ctx map_addr (sint ulevel) wi res s1 = Some (RMI_SUCCESS, res1, s2)"
    and s: "table_events s1 = table_events s" "res' = res1[0 := RMI_SUCCESS]" "s' = Unlock (g_llt wi) # s2"
    using assms(1,2) pk r
    by (auto simp: smc_rtt_fold_def find_lock_granule_def granule_map_def granule_lock_def granule_unlock_def
        rtt_walk_lock_unlock_def Let_def r rtt_fold_parent_length
        split: option.splits if_splits prod.splits Option.bind_splits)
  obtain g_tbl v where "answer_find_lock_granule E (Map (g_llt wi) SLOT_RTT # s1)
        (s2tte_pa_table E (mapped_entry E wi s1) (sint ulevel - 1)) GRANULE_STATE_RTT = Some g_tbl"
      "res1 = res[1 := s2tte_pa_table E (mapped_entry E wi s1) (sint ulevel - 1)]"
      "freed_zeroed g_tbl (Buffer g_tbl SLOT_RTT2) s2"
      "table_events s2 = S2tte_write (Buffer (g_llt wi) SLOT_RTT) (wi_index wi) v #
      broken (Buffer (g_llt wi) SLOT_RTT) (wi_index wi) (fold_invalidation E ctx map_addr v (sint ulevel - 1)) @ table_events s1"
    using rtt_fold_parent_events [OF p assms(3)] by blast
  with s show ?thesis using assms(4)
    by (intro exI [of _ g_tbl] exI [of _ wi] exI [of _ ctx] exI [of _ v] exI [of _ s1]
        exI [of _ "Map (g_llt wi) SLOT_RTT # s1"]) (simp add: freed_zeroed_Cons SMC_RESULT_REGS_def)
qed

text \<open>Destroying leaves an entry without a table; unprotected memory needs every page invalidated.\<close>

definition destroyed_entry :: "rmm_env \<Rightarrow> bool \<Rightarrow> u64" where
  "destroyed_entry E in_par = (if in_par then s2tte_create_unassigned_destroyed E else s2tte_create_unassigned_ns E)"

definition destroy_invalidation :: "realm_s2_context \<Rightarrow> u64 \<Rightarrow> bool \<Rightarrow> event" where
  "destroy_invalidation ctx map_addr in_par =
     (if in_par then Invalidate_block ctx map_addr else Invalidate_pages_in_block ctx map_addr)"

lemma rtt_destroy_table_events:
  assumes "rtt_destroy_table E ctx in_par map_addr level wi rtt_addr g_tbl p res s = Some (RMI_SUCCESS, sk, res', s')" "pack_ok E"
  shows "res' = res[1 := rtt_addr] \<and> answer_refcount E s g_tbl = 0 \<and> freed_zeroed g_tbl (Buffer g_tbl SLOT_RTT2) s' \<and>
    table_events s' = S2tte_write p (wi_index wi) (destroyed_entry E in_par) #
      broken p (wi_index wi) (destroy_invalidation ctx map_addr in_par) @ table_events s"
proof -
  have "answer_refcount E s g_tbl = 0"
  proof (rule ccontr)
    assume "answer_refcount E s g_tbl \<noteq> 0"
    then have "pack_return_code E RMI_ERROR_RTT level = RMI_SUCCESS" using assms(1) by (simp add: rtt_destroy_table_def)
    then show False using assms(2) by (simp add: pack_ok_def)
  qed
  then show ?thesis using assms(1)
    by (auto simp: rtt_destroy_table_def granule_map_def s2tte_write_def destroyed_entry_def destroy_invalidation_def
        broken_def freed_zeroed_Cons Let_def split: if_splits)
qed

lemma rtt_destroy_events:
  assumes "smc_rtt_destroy E rd_addr map_addr ulevel res s = Some (res', s')" "res' ! 0 = RMI_SUCCESS"
    and "pack_ok E" "length res = SMC_RESULT_REGS"
  shows "\<exists>g_tbl wi ctx in_par s1 s2. answer_find_lock_granule E s2 (res' ! 1) GRANULE_STATE_RTT = Some g_tbl \<and>
    res' ! 1 = s2tte_pa_table E (mapped_entry E wi s1) (sint ulevel - 1) \<and>
    answer_refcount E (Lock g_tbl GRANULE_STATE_RTT # s2) g_tbl = 0 \<and>
    freed_zeroed g_tbl (Buffer g_tbl SLOT_RTT2) s' \<and>
    table_events s' = S2tte_write (Buffer (g_llt wi) SLOT_RTT) (wi_index wi) (destroyed_entry E in_par) #
      broken (Buffer (g_llt wi) SLOT_RTT) (wi_index wi) (destroy_invalidation ctx map_addr in_par) @ table_events s"
proof -
  have pk: "pack_return_code E RMI_ERROR_RTT l \<noteq> RMI_SUCCESS" for l using assms(3) by (simp add: pack_ok_def)
  have r: "rtt_destroy_table E ctx in_par a l wi b g p res s = Some (ret, sk, r, s') \<Longrightarrow> length r = length res"
    for ctx in_par a l wi b g p s ret sk r s'
    by (auto simp: rtt_destroy_table_def Let_def granule_map_def split: if_splits)
  have z: "length r = length res \<Longrightarrow> r[2 := y, 0 := x] ! 0 = x" "length r = length res \<Longrightarrow> r[0 := x] ! 0 = x" for r x y
    using assms(4) by (cases r; simp add: SMC_RESULT_REGS_def)+
  obtain ctx in_par wi s1 g_tbl sk res1 s2 y where
      g: "answer_find_lock_granule E (Map (g_llt wi) SLOT_RTT # s1)
        (s2tte_pa_table E (mapped_entry E wi s1) (sint ulevel - 1)) GRANULE_STATE_RTT = Some g_tbl"
    and t: "rtt_destroy_table E ctx in_par map_addr (sint ulevel) wi (s2tte_pa_table E (mapped_entry E wi s1) (sint ulevel - 1))
        g_tbl (Buffer (g_llt wi) SLOT_RTT) res (Lock g_tbl GRANULE_STATE_RTT # Map (g_llt wi) SLOT_RTT # s1)
        = Some (RMI_SUCCESS, sk, res1, s2)"
    and s: "table_events s1 = table_events s" "res' = res1[2 := y, 0 := RMI_SUCCESS]"
      "s' = Unlock (g_llt wi) # Unmap (g_llt wi) SLOT_RTT # Unlock g_tbl # s2"
    using assms(1,2) pk
    by (auto simp: smc_rtt_destroy_def find_lock_granule_def granule_map_def granule_lock_def granule_unlock_def
        rtt_walk_lock_unlock_def s2tte_read_def mapped_entry_def Let_def r z
        split: option.splits if_splits prod.splits Option.bind_splits)
  from g s rtt_destroy_table_events [OF t assms(3)] show ?thesis using assms(4)
    by (intro exI [of _ g_tbl] exI [of _ wi] exI [of _ ctx] exI [of _ in_par] exI [of _ s1]
        exI [of _ "Map (g_llt wi) SLOT_RTT # s1"]) (simp add: freed_zeroed_Cons SMC_RESULT_REGS_def)
qed

section \<open>Destroying data\<close>

text \<open>The data granule is zeroed under its lock, immediately before the lock and the granule are given back.\<close>

fun released_zeroed :: "gptr \<Rightarrow> log \<Rightarrow> bool" where
  "released_zeroed g (e # e' # s) \<longleftrightarrow>
     e = Unlock_transition g GRANULE_STATE_DELEGATED \<and> e' = Memzero g SLOT_DELEGATED \<or> released_zeroed g (e' # s)"
| "released_zeroed g s \<longleftrightarrow> False"

lemma released_zeroed_Cons: "released_zeroed g s \<Longrightarrow> released_zeroed g (e # s)"
  by (cases s) simp_all

definition data_destroyed_entry :: "rmm_env \<Rightarrow> u64 \<Rightarrow> u64" where
  "data_destroyed_entry E e =
     (if s2tte_is_assigned_ram E e (RTT_PAGE_LEVEL E) then s2tte_create_unassigned_destroyed E
      else if s2tte_is_assigned_empty E e (RTT_PAGE_LEVEL E) then s2tte_create_unassigned_empty E
      else s2tte_create_unassigned_destroyed E)"

lemma data_destroy_table_events:
  assumes "data_destroy_table E ctx map_addr wi s2tt res s = Some (res', s')" "res' ! 0 = RMI_SUCCESS"
    and "pack_ok E" "length res = SMC_RESULT_REGS"
  defines "e \<equiv> s2tte_read E s2tt (wi_index wi) s"
  shows "\<exists>g s1. answer_find_lock_granule E s1 (res' ! 1) GRANULE_STATE_DATA = Some g \<and>
    length res' = length res \<and> res' ! 1 = s2tte_pa E e (RTT_PAGE_LEVEL E) \<and> released_zeroed g s' \<and>
    table_events s' = (if s2tte_is_assigned_ram E e (RTT_PAGE_LEVEL E) then [Invalidate_page ctx map_addr] else []) @
      S2tte_write s2tt (wi_index wi) (data_destroyed_entry E e) # table_events s"
proof -
  have pk: "pack_return_code E RMI_ERROR_RTT l \<noteq> RMI_SUCCESS" for l using assms(3) by (simp add: pack_ok_def)
  have z: "res[0 := x] ! 0 = x" "res[0 := x, Suc 0 := y] ! Suc 0 = y" for x y
    using assms(4) by (cases res; simp add: SMC_RESULT_REGS_def)+
  show ?thesis
    using assms(1,2) pk unfolding e_def
    by (auto simp: data_destroy_table_def data_destroy_entry_def data_destroyed_entry_def find_lock_granule_def
        granule_unlock_transition_def s2tte_write_def s2tte_read_def Let_def z
        split: option.splits if_splits prod.splits) blast+
qed

lemma data_destroy_events:
  assumes "smc_data_destroy E rd_addr map_addr res s = Some (res', s')" "res' ! 0 = RMI_SUCCESS"
    and "pack_ok E" "length res = SMC_RESULT_REGS"
  shows "\<exists>g wi ctx s1 s2. answer_find_lock_granule E s1 (res' ! 1) GRANULE_STATE_DATA = Some g \<and>
    res' ! 1 = s2tte_pa E (mapped_entry E wi s2) (RTT_PAGE_LEVEL E) \<and> released_zeroed g s' \<and>
    table_events s' =
      (if s2tte_is_assigned_ram E (mapped_entry E wi s2) (RTT_PAGE_LEVEL E) then [Invalidate_page ctx map_addr] else []) @
      S2tte_write (Buffer (g_llt wi) SLOT_RTT) (wi_index wi) (data_destroyed_entry E (mapped_entry E wi s2)) # table_events s"
proof -
  have z: "length r = length res \<Longrightarrow> r[2 := y] ! 0 = r ! 0" for r y
    using assms(4) by (cases r) (simp_all add: SMC_RESULT_REGS_def)
  have z0: "length r = length res \<Longrightarrow> r[0 := x] ! 0 = x" for r x
    using assms(4) by (cases r) (simp_all add: SMC_RESULT_REGS_def)
  have l: "data_destroy_table E ctx map_addr wi s2tt res s = Some (r, s') \<Longrightarrow> length r = length res" for ctx wi s2tt s r s'
    by (auto simp: data_destroy_table_def Let_def split: if_splits option.splits prod.splits Option.bind_splits)
  obtain ctx wi s2 res1 s3 y where
      t: "data_destroy_table E ctx map_addr wi (Buffer (g_llt wi) SLOT_RTT) res (Map (g_llt wi) SLOT_RTT # s2) = Some (res1, s3)"
    and s: "table_events s2 = table_events s" "res' = res1[2 := y]" "s' = Unlock (g_llt wi) # Unmap (g_llt wi) SLOT_RTT # s3"
    using assms(1,2)
    by (auto simp: smc_data_destroy_def find_lock_granule_def granule_map_def granule_lock_def granule_unlock_def
        rtt_walk_lock_unlock_def Let_def z z0 split: option.splits if_splits prod.splits Option.bind_splits)
  have "res1 ! 0 = RMI_SUCCESS" using assms(2) s(2) z [OF l [OF t]] by simp
  from data_destroy_table_events [OF t this assms(3,4), folded mapped_entry_def] obtain g s1 where
      "answer_find_lock_granule E s1 (res1 ! 1) GRANULE_STATE_DATA = Some g"
      "res1 ! 1 = s2tte_pa E (mapped_entry E wi s2) (RTT_PAGE_LEVEL E)" "released_zeroed g s3"
      "table_events s3 =
        (if s2tte_is_assigned_ram E (mapped_entry E wi s2) (RTT_PAGE_LEVEL E) then [Invalidate_page ctx map_addr] else []) @
        S2tte_write (Buffer (g_llt wi) SLOT_RTT) (wi_index wi) (data_destroyed_entry E (mapped_entry E wi s2)) #
        table_events (Map (g_llt wi) SLOT_RTT # s2)"
    by blast
  with s show ?thesis
    by (intro exI [of _ g] exI [of _ wi] exI [of _ ctx] exI [of _ s1] exI [of _ s2]) (simp add: released_zeroed_Cons)
qed

section \<open>Blocking a page\<close>

text \<open>Both commands write one entry and invalidate the page after it.\<close>

lemma ipa_block_events:
  assumes "smc_ipa_block E rd_addr map_addr s = Some (RMI_SUCCESS, s')"
  shows "\<exists>wi ctx s1. s2tte_is_assigned_ram E (mapped_entry E wi s1) (RTT_PAGE_LEVEL E) \<and>
    table_events s' = [Invalidate_page ctx map_addr,
      S2tte_write (Buffer (g_llt wi) SLOT_RTT) (wi_index wi) (block_s2tte (mapped_entry E wi s1))] @ table_events s"
  using assms unfolding smc_ipa_block_def mapped_entry_def
  by (fastforce simp: find_lock_granule_def granule_map_def granule_lock_def granule_unlock_def s2tte_write_def
      rtt_walk_lock_unlock_def Let_def RMI_SUCCESS_def RMI_ERROR_INPUT_def RMI_ERROR_RTT_def
      split: option.splits if_splits prod.splits Option.bind_splits)

lemma ipa_unblock_events:
  assumes "smc_ipa_unblock E rd_addr map_addr s = Some (RMI_SUCCESS, s')"
  shows "\<exists>wi ctx s1. s2tte_is_assigned_ram E (mapped_entry E wi s1) (RTT_PAGE_LEVEL E) \<and>
    table_events s' = [Invalidate_page ctx map_addr,
      S2tte_write (Buffer (g_llt wi) SLOT_RTT) (wi_index wi) (unblock_s2tte (mapped_entry E wi s1))] @ table_events s"
  using assms unfolding smc_ipa_unblock_def mapped_entry_def
  by (fastforce simp: find_lock_granule_def granule_map_def granule_lock_def granule_unlock_def s2tte_write_def
      rtt_walk_lock_unlock_def Let_def RMI_SUCCESS_def RMI_ERROR_INPUT_def RMI_ERROR_RTT_def
      split: option.splits if_splits prod.splits Option.bind_splits)

text \<open>The permission bits of a blocked entry; all others, the address among them, are kept.\<close>

lemma block_s2tte_bits:
  "block_s2tte e AND S2TTE_AP_MASK = 0" "block_s2tte e AND S2TTE_XN = S2TTE_XN"
  "block_s2tte e AND NOT (S2TTE_AP_MASK OR S2TTE_XN) = e AND NOT (S2TTE_AP_MASK OR S2TTE_XN)"
proof -
  have [simp]: "bit S2TTE_AP_MASK n \<Longrightarrow> \<not> bit S2TTE_XN n" for n
  proof -
    have "S2TTE_AP_MASK AND S2TTE_XN = 0" by (simp add: S2TTE_AP_MASK_def S2TTE_AP_SHIFT_def S2TTE_XN_def)
    then have "\<not> bit (S2TTE_AP_MASK AND S2TTE_XN) n" by simp
    then show "bit S2TTE_AP_MASK n \<Longrightarrow> \<not> bit S2TTE_XN n" by (simp add: bit_simps)
  qed
  show "block_s2tte e AND S2TTE_AP_MASK = 0" "block_s2tte e AND S2TTE_XN = S2TTE_XN"
    "block_s2tte e AND NOT (S2TTE_AP_MASK OR S2TTE_XN) = e AND NOT (S2TTE_AP_MASK OR S2TTE_XN)"
    by (intro bit_word_eqI; auto simp: block_s2tte_def bit_simps)+
qed

lemma unblock_block: "unblock_s2tte (block_s2tte e) = unblock_s2tte e"
  by (intro bit_word_eqI) (auto simp: block_s2tte_def unblock_s2tte_def bit_simps)

section \<open>Reading an entry\<close>

text \<open>The report of an entry with a RIPAS in terms of its abstract view.\<close>

definition view_report :: "rmm_env \<Rightarrow> u64 option \<times> ripas \<Rightarrow> u64 \<times> u64 \<times> u64" where
  "view_report E v =
     (case v of (pa, r) \<Rightarrow>
        (if pa = None then RMI_UNASSIGNED else RMI_ASSIGNED,
         if pa = None \<or> r = RIPAS_DESTROYED then 0 else the pa, ripas_code E r))"

lemma rtt_entry_report_view:
  "ripas_view E e l = Some v \<Longrightarrow> rtt_entry_report E e l = Some (view_report E v)"
  by (auto simp: ripas_view_def rtt_entry_report_def view_report_def split: if_splits)

lemma read_entry_events:
  assumes "smc_rtt_read_entry E rd_addr map_addr ulevel res s = Some (res', s')" "res' ! 0 = RMI_SUCCESS"
    and "length res = SMC_RESULT_REGS"
  shows "\<exists>wi s1 state pa rp. rtt_entry_report E (mapped_entry E wi s1) (last_level wi) = Some (state, pa, rp) \<and>
    res' = [RMI_SUCCESS, of_int (last_level wi), state, pa, rp] \<and> realm_unchanged s s'"
proof -
  have res: "res[Suc 0 := a, 2 := b, 3 := c, 4 := d, 0 := e] = [e, a, b, c, d]" for a b c d e
    using assms(3) by (auto simp: SMC_RESULT_REGS_def length_Suc_conv eval_nat_numeral)
  have ne: "res[0 := RMI_ERROR_INPUT] ! 0 \<noteq> RMI_SUCCESS"
    using assms(3) by (simp add: SMC_RESULT_REGS_def RMI_ERROR_INPUT_def RMI_SUCCESS_def)
  show ?thesis
    using assms(1,2) ne unfolding smc_rtt_read_entry_def mapped_entry_def
    by (fastforce simp: find_lock_granule_def granule_map_def granule_lock_def granule_unlock_def res realm_unchanged_def
        rtt_walk_lock_unlock_def Let_def split: option.splits if_splits prod.splits Option.bind_splits)
qed

end
