(* ===== verification/Rmm_Correctness.thy ===== *)
theory Rmm_Correctness
  imports Rmm_Example Rmm_Order
begin

text \<open>
  The properties of the realm management monitor under src/tetd_cca/rmm: the contract of the
  commands and its consequence for sequences of calls, the order of the writes to a translation table
  and of its invalidations, the life of a data granule, RIPAS changes, the dispatcher and the exits
  of a realm. The witnesses use the environments of Rmm_Example.
\<close>

lemma result_of:
  assumes "map_option fst c = Some r"
  obtains s' where "c = Some (r, s')"
  using assms by auto

section \<open>Calls from the host\<close>

text \<open>
  C8: After any sequence of calls from the host other than the two that block and unblock a page,
  every granule lock has been released exactly as often as it was taken and every buffer slot is
  unmapped, provided the handlers outside the repository do the same.
\<close>

theorem host_calls_quiescent:
  assumes "ns_calls H fids st st'" "quiescent st" "externals_ok H" "sizes_ok (rmm H)"
    and "\<forall>fid\<in>set fids. \<not> block_call fid"
  shows "quiescent st'"
  by (rule ns_calls_invariant [OF assms])

lemma demo_lookup:
  "map_of (smc_handler_list H) (unat (0x11 :: u32)) = Some \<lparr>fn_name = ''RTT_READ_ENTRY'',
     fn = Some (f_3o (\<lambda>a b c res. on_log (smc_rtt_read_entry (rmm H) a b c res))), rmi_type = RMI_TYPE 3 4,
     log_exec = False, log_error = True\<rparr>"
  "map_of (smc_handler_list H) (unat (0x1A :: u32)) = Some \<lparr>fn_name = ''IPA_BLOCK'',
     fn = Some (f_20 (\<lambda>a b. on_log (smc_ipa_block (rmm H) a b))), rmi_type = RMI_TYPE 2 0,
     log_exec = True, log_error = True\<rparr>"
  by (simp_all add: smc_handler_list_def rmi_fid_defs)

lemma fn_of_handler:
  "fn \<lparr>fn_name = name, fn = f, rmi_type = ty, log_exec = exec, log_error = error\<rparr> = f"
  by simp

lemma demo_read_entry:
  "smc_rtt_read_entry (demo_env 5) 0x1000 0x2000 3 [0, 0, 0, 0, 0] [] =
   Some ([0, 3, 1, 0, 1], [Unlock 0x3000, Unmap 0x3000 SLOT_RTT, Map 0x3000 SLOT_RTT, Walk 0x3000 0x3000,
         Unlock 0x1000, Lock 0x3000 GRANULE_STATE_RTT, Unmap 0x1000 SLOT_RD, Map 0x1000 SLOT_RD,
         Lock 0x1000 GRANULE_STATE_RD])"
  by code_simp

lemma demo_block:
  "\<exists>s'. smc_ipa_block (demo_env 5) 0x1000 0x2000 [] = Some (RMI_SUCCESS, s')"
proof -
  have "map_option fst (smc_ipa_block (demo_env 5) 0x1000 0x2000 []) = Some RMI_SUCCESS" by code_simp
  then show ?thesis by auto
qed

lemma demo_flags [simp]:
  "check_cpu_slots_empty (demo_handlers e) st" "\<not> simd_is_state_saved (demo_handlers e) st"
  by (simp_all add: demo_handlers_def)

lemma needs_no_fpu: "\<not> rmi_handler_needs_fpu H (SMC64_RMI_FID 0x11)" "\<not> rmi_handler_needs_fpu H (SMC64_RMI_FID 0x1A)"
  by (simp_all add: rmi_handler_needs_fpu_def rmi_fid_defs SMC64_RMI_FID_value)

theorem host_calls_quiescent_witness:
  "\<exists>st'. ns_calls (demo_handlers 5) [SMC64_RMI_FID 0x11] demo_mstate st' \<and> quiescent st'"
proof -
  obtain st' where c: "handle_ns_smc (demo_handlers 5) (SMC64_RMI_FID 0x11) 0x1000 0x2000 3 0 0 0 [0, 0, 0, 0, 0] demo_mstate =
      Some ([0, 3, 1, 0, 1], st')"
    using handle_ns_smc_returns [where k = "0x11" and fid = "SMC64_RMI_FID 0x11" and H = "demo_handlers 5" and ?a0.0 = "0x1000" and
        ?a1.0 = "0x2000" and ?a2.0 = 3 and ?a3.0 = 0 and ?a4.0 = 0 and st = demo_mstate and res = "[0, 0, 0, 0, 0]" and
        res' = "[0, 3, 1, 0, 1]", OF _ _ demo_lookup(1) fn_of_handler demo_flags needs_no_fpu(1)]
    by (auto simp: on_log_def demo_read_entry demo_mstate_def)
  then have n: "ns_calls (demo_handlers 5) [SMC64_RMI_FID 0x11] demo_mstate st'"
    by (intro ns_call [OF ns_none _ c]) (simp add: SMC_RESULT_REGS_def)
  have "\<not> block_call (SMC64_RMI_FID 0x11)" 
    by (simp add: block_call_def rmi_fid_defs SMC64_RMI_FID_value strip_hint_def SMC_SVE_HINT_def)
  then show ?thesis
    using host_calls_quiescent [OF n] n c demo_quiescent demo_externals_ok demo_sizes_ok by auto
qed

text \<open>
  C39: A call that blocks a page unlocks the realm descriptor twice: from a state without locks it
  ends in a state that no correct use of locks reaches, unless it rejects its arguments.
\<close>

theorem ipa_block_double_unlock:
  assumes "handle_ns_smc H fid a0 a1 a2 a3 a4 a5 res st = Some (res', st')" "strip_hint fid = SMC_RMM_IPA_BLOCK"
    and "quiescent st" "length res = SMC_RESULT_REGS" "res' ! 0 \<noteq> RMI_ERROR_INPUT" "res' ! 0 \<noteq> SMC_UNKNOWN"
  shows "locks (cmds st') = None"
  by (rule block_call_locks [OF assms])

theorem ipa_block_double_unlock_witness:
  "\<exists>res' st'. handle_ns_smc (demo_handlers 5) (SMC64_RMI_FID 0x1A) 0x1000 0x2000 0 0 0 0 [0, 0, 0, 0, 0] demo_mstate =
     Some (res', st') \<and> res' ! 0 = RMI_SUCCESS \<and> locks (cmds st') = None"
proof -
  obtain s' where "smc_ipa_block (demo_env 5) 0x1000 0x2000 [] = Some (RMI_SUCCESS, s')" using demo_block by blast
  then obtain st' where c: "handle_ns_smc (demo_handlers 5) (SMC64_RMI_FID 0x1A) 0x1000 0x2000 0 0 0 0 [0, 0, 0, 0, 0] demo_mstate =
      Some ([RMI_SUCCESS, 0, 0, 0, 0], st')"
    using handle_ns_smc_returns [where k = "0x1A" and fid = "SMC64_RMI_FID 0x1A" and H = "demo_handlers 5" and ?a0.0 = "0x1000" and
        ?a1.0 = "0x2000" and ?a2.0 = 0 and ?a3.0 = 0 and ?a4.0 = 0 and st = demo_mstate and res = "[0, 0, 0, 0, 0]" and
        res' = "[RMI_SUCCESS, 0, 0, 0, 0]", OF _ _ demo_lookup(2) fn_of_handler demo_flags needs_no_fpu(2)]
    by (auto simp: on_log_def demo_mstate_def call_value_def)
  then show ?thesis
    using ipa_block_double_unlock [OF c] demo_quiescent
    by (simp add: SMC_RESULT_REGS_def RMI_SUCCESS_def RMI_ERROR_INPUT_def SMC_UNKNOWN_def SMC_RMM_IPA_BLOCK_def)
qed

text \<open>
  A function identifier is dispatched exactly when it is one of the 25 implemented identifiers,
  with or without the SVE hint; any other returns \<open>SMC_UNKNOWN\<close> in X0 and changes nothing.
\<close>

theorem unknown_calls_rejected:
  assumes "strip_hint fid \<notin> SMC64_RMI_FID ` {k. k < 28 \<and> k \<notin> {6, 0x10, 0x13}}"
  shows "handle_ns_smc H fid a0 a1 a2 a3 a4 a5 res st = Some (res[0 := SMC_UNKNOWN], st)"
proof (cases "IS_SMC64_RMI_FID (strip_hint fid)")
  case False
  then show ?thesis unfolding handle_ns_smc_def Let_def strip_hint_def [symmetric] by simp
next
  case True
  then obtain k where k: "k < 28" "strip_hint fid = SMC64_RMI_FID k" using IS_SMC64_RMI_FID_iff by blast
  with assms have "k = 6 \<or> k = 0x10 \<or> k = 0x13" by auto
  then have "unat k \<notin> set (map fst (smc_handler_list H))" unfolding smc_handler_ids by auto
  then have "map_of (smc_handler_list H) (unat k) = None" by (simp add: map_of_eq_None_iff)
  then have "fn (smc_handlers H ! unat k) = None"
    using k(1) by (simp add: smc_handlers_nth zero_handler_def word_less_nat_alt)
  then show ?thesis
    using k RMI_HANDLER_ID_FID [OF k(1)] unfolding handle_ns_smc_def Let_def strip_hint_def [symmetric] by simp
qed

theorem unknown_calls_rejected_witness:
  "handle_ns_smc (demo_handlers 5) 0x84000000 1 2 3 4 5 6 [0, 0, 0, 0, 0] demo_mstate =
     Some ([SMC_UNKNOWN, 0, 0, 0, 0], demo_mstate)"
proof -
  have "\<not> IS_SMC64_RMI_FID (strip_hint 0x84000000)" by code_simp
  then have "strip_hint 0x84000000 \<notin> SMC64_RMI_FID ` {k. k < 28 \<and> k \<notin> {6, 0x10, 0x13}}"
    using IS_SMC64_RMI_FID_iff by auto
  from unknown_calls_rejected [OF this, of "demo_handlers 5" 1 2 3 4 5 6 "[0, 0, 0, 0, 0]"] show ?thesis by simp
qed

text \<open>
  The identifiers of the interface are the 28 of its range, each found at its offset in the
  table of handlers.
\<close>

theorem rmi_identifiers:
  "IS_SMC64_RMI_FID fid = (\<exists>k. k < 28 \<and> fid = SMC64_RMI_FID k \<and> RMI_HANDLER_ID fid = k)"
  using IS_SMC64_RMI_FID_iff RMI_HANDLER_ID_FID by auto

text \<open>
  Logging a call never fails its assertions on the number of arguments and results, and prints
  nothing for the commands whose handler asks for no log.
\<close>

theorem rmi_log_total:
  assumes "handler_id < 28"
  shows "\<exists>out. rmi_log_on_exit H handler_id args res st = Some (st\<lparr>console := console st @ out\<rparr>) \<and>
    (\<not> log_exec (smc_handlers H ! unat handler_id) \<and> \<not> log_error (smc_handlers H ! unat handler_id) \<longrightarrow> out = [])"
  by (rule rmi_log_on_exit_total [OF assms])

theorem rmi_log_total_witness:
  "\<exists>out. rmi_log_on_exit (demo_handlers 5) 3 [1, 2, 3, 4, 5] [0, 0, 0, 0, 0] demo_mstate =
     Some (demo_mstate\<lparr>console := console demo_mstate @ out\<rparr>)"
  using rmi_log_total [of 3 "demo_handlers 5" "[1, 2, 3, 4, 5]" "[0, 0, 0, 0, 0]" demo_mstate] by auto

section \<open>Translation tables\<close>

text \<open>
  C4: A command on the tables or data of a realm that reports an error has changed nothing of
  the realm: no entry, no granule state, no reference count, no measurement.
\<close>

theorem failed_commands_keep_realm:
  assumes "ret \<noteq> RMI_SUCCESS"
  shows "(smc_rtt_create E rd_addr rtt_addr map_addr ulevel s = Some (ret, s') \<longrightarrow> realm_unchanged s s') \<and>
    (smc_rtt_fold E rd_addr map_addr ulevel [x0, x1, x2, x3, x4] s = Some (ret # xs, s') \<longrightarrow> realm_unchanged s s') \<and>
    (smc_rtt_destroy E rd_addr map_addr ulevel [x0, x1, x2, x3, x4] s = Some (ret # xs, s') \<longrightarrow> realm_unchanged s s') \<and>
    (smc_data_create E rd_addr data_addr map_addr src_addr flags s = Some (ret, s') \<longrightarrow> realm_unchanged s s') \<and>
    (smc_data_destroy E rd_addr map_addr [x0, x1, x2, x3, x4] s = Some (ret # xs, s') \<longrightarrow> realm_unchanged s s')"
  using assms rtt_create_ok [of E rd_addr rtt_addr map_addr ulevel s ret s']
    rtt_fold_ok [of E rd_addr map_addr ulevel "[x0, x1, x2, x3, x4]" s "ret # xs" s']
    rtt_destroy_ok [of E rd_addr map_addr ulevel "[x0, x1, x2, x3, x4]" s "ret # xs" s']
    smc_data_create_ok [of E rd_addr data_addr map_addr src_addr flags s ret s']
    data_destroy_ok [of E rd_addr map_addr "[x0, x1, x2, x3, x4]" s "ret # xs" s']
  by (simp add: command_ok_def)

theorem failed_commands_keep_realm_witness:
  "\<exists>s'. smc_rtt_create (demo_env 8) 0x1000 0x5000 0x2000 3 [] = Some (0x204, s') \<and> realm_unchanged [] s'"
proof -
  have "map_option fst (smc_rtt_create (demo_env 8) 0x1000 0x5000 0x2000 3 []) = Some 0x204" by code_simp
  then obtain s' where "smc_rtt_create (demo_env 8) 0x1000 0x5000 0x2000 3 [] = Some (0x204, s')" by auto
  then show ?thesis using failed_commands_keep_realm [where ret = "0x204"] by (auto simp: RMI_SUCCESS_def)
qed

text \<open>
  C24: Creating a table replaces a live block entry by break before make: the entry is cleared and
  the block invalidated before the table entry is written. Any other parent entry is overwritten by
  one write. The new table granule is put in the state RTT.
\<close>

theorem rtt_create_break_before_make:
  assumes "smc_rtt_create E rd_addr rtt_addr map_addr ulevel s = Some (RMI_SUCCESS, s')" "pack_ok E"
  shows "\<exists>g_tbl g_rd wi s1 ctx.
    answer_find_lock_two E s rtt_addr GRANULE_STATE_DELEGATED rd_addr GRANULE_STATE_RD = Some (g_tbl, g_rd) \<and>
    table_events s' =
      S2tte_write (Buffer (g_llt wi) SLOT_RTT) (wi_index wi) (s2tte_create_table E rtt_addr (sint ulevel - 1)) #
      (if live_block E (mapped_entry E wi s1) (sint ulevel - 1)
       then broken (Buffer (g_llt wi) SLOT_RTT) (wi_index wi) (Invalidate_block ctx map_addr) else []) @ table_events s \<and>
    Set_state g_tbl GRANULE_STATE_RTT \<in> set s'"
  by (rule rtt_create_events [OF assms])

theorem rtt_create_break_before_make_witness:
  "\<exists>s' p i v ctx. smc_rtt_create (demo_env 7) 0x1000 0x5000 0x2000 3 [] = Some (RMI_SUCCESS, s') \<and>
     table_events s' = [S2tte_write p i v, Invalidate_block ctx 0x2000, S2tte_write p i 0]"
proof -
  have "map_option fst (smc_rtt_create (demo_env 7) 0x1000 0x5000 0x2000 3 []) = Some RMI_SUCCESS" by code_simp
  then obtain s' where c: "smc_rtt_create (demo_env 7) 0x1000 0x5000 0x2000 3 [] = Some (RMI_SUCCESS, s')" by (rule result_of)
  have l: "live_block (demo_env 7) (mapped_entry (demo_env 7) wi s1) l" for wi s1 l
    by (simp add: live_block_def mapped_entry_def demo_defs s2tte_read_def)
  have n: "table_events [] = []" by simp
  obtain wi :: rtt_walk and ctx where "table_events s' = S2tte_write (Buffer (g_llt wi) SLOT_RTT) (wi_index wi)
      (s2tte_create_table (demo_env 7) 0x5000 (sint (3 :: u64) - 1)) #
      broken (Buffer (g_llt wi) SLOT_RTT) (wi_index wi) (Invalidate_block ctx 0x2000)"
    using rtt_create_break_before_make [OF c demo_pack_ok] unfolding if_P [OF l] n append_Nil2 by blast
  with c show ?thesis unfolding broken_def by blast
qed

text \<open>
  C18: Folding a table clears the parent entry, invalidates, and only then writes the folded entry;
  the table granule, at the address returned in \<open>x[1]\<close>, is zeroed before it goes back to the host.
\<close>

theorem rtt_fold_break_before_make:
  assumes "smc_rtt_fold E rd_addr map_addr ulevel res s = Some (res', s')" "res' ! 0 = RMI_SUCCESS"
    and "pack_ok E" "length res = SMC_RESULT_REGS"
  shows "\<exists>g_tbl wi ctx v s1 s2. answer_find_lock_granule E s2 (res' ! 1) GRANULE_STATE_RTT = Some g_tbl \<and>
    res' ! 1 = s2tte_pa_table E (mapped_entry E wi s1) (sint ulevel - 1) \<and>
    freed_zeroed g_tbl (Buffer g_tbl SLOT_RTT2) s' \<and>
    table_events s' = S2tte_write (Buffer (g_llt wi) SLOT_RTT) (wi_index wi) v #
      broken (Buffer (g_llt wi) SLOT_RTT) (wi_index wi) (fold_invalidation E ctx map_addr v (sint ulevel - 1)) @ table_events s"
  by (rule rtt_fold_events [OF assms])

theorem rtt_fold_break_before_make_witness:
  "\<exists>x xs s' g. smc_rtt_fold (demo_env 0x6008) 0x1000 0x2000 3 [0, 0, 0, 0, 0] [] = Some (RMI_SUCCESS # x # xs, s') \<and>
     freed_zeroed g (Buffer g SLOT_RTT2) s'"
proof -
  have "map_option fst (smc_rtt_fold (demo_env 0x6008) 0x1000 0x2000 3 [0, 0, 0, 0, 0] []) = Some [0, 0x6000, 0, 0, 0]"
    by code_simp
  then obtain s' where c: "smc_rtt_fold (demo_env 0x6008) 0x1000 0x2000 3 [0, 0, 0, 0, 0] [] = Some ([0, 0x6000, 0, 0, 0], s')"
    by (rule result_of)
  show ?thesis using rtt_fold_break_before_make [OF c _ demo_pack_ok] c by (auto simp: SMC_RESULT_REGS_def RMI_SUCCESS_def)
qed

text \<open>
  C20: Destroying a table needs a table without live entries, clears the parent entry and invalidates
  before it writes the entry that remains, and zeroes the table granule before freeing it.
\<close>

theorem rtt_destroy_break_before_make:
  assumes "smc_rtt_destroy E rd_addr map_addr ulevel res s = Some (res', s')" "res' ! 0 = RMI_SUCCESS"
    and "pack_ok E" "length res = SMC_RESULT_REGS"
  shows "\<exists>g_tbl wi ctx in_par s1 s2. answer_find_lock_granule E s2 (res' ! 1) GRANULE_STATE_RTT = Some g_tbl \<and>
    res' ! 1 = s2tte_pa_table E (mapped_entry E wi s1) (sint ulevel - 1) \<and>
    answer_refcount E (Lock g_tbl GRANULE_STATE_RTT # s2) g_tbl = 0 \<and>
    freed_zeroed g_tbl (Buffer g_tbl SLOT_RTT2) s' \<and>
    table_events s' = S2tte_write (Buffer (g_llt wi) SLOT_RTT) (wi_index wi) (destroyed_entry E in_par) #
      broken (Buffer (g_llt wi) SLOT_RTT) (wi_index wi) (destroy_invalidation ctx map_addr in_par) @ table_events s"
  by (rule rtt_destroy_events [OF assms])

theorem rtt_destroy_break_before_make_witness:
  "\<exists>x xs s' g. smc_rtt_destroy (demo_env 0x6008) 0x1000 0x2000 3 [0, 0, 0, 0, 0] [] = Some (RMI_SUCCESS # x # xs, s') \<and>
     freed_zeroed g (Buffer g SLOT_RTT2) s'"
proof -
  have "map_option fst (smc_rtt_destroy (demo_env 0x6008) 0x1000 0x2000 3 [0, 0, 0, 0, 0] []) = Some [0, 0x6000, 0x3000, 0, 0]"
    by code_simp
  then obtain s' where c: "smc_rtt_destroy (demo_env 0x6008) 0x1000 0x2000 3 [0, 0, 0, 0, 0] [] = Some ([0, 0x6000, 0x3000, 0, 0], s')"
    by (rule result_of)
  show ?thesis using rtt_destroy_break_before_make [OF c _ demo_pack_ok] c by (auto simp: SMC_RESULT_REGS_def RMI_SUCCESS_def)
qed

text \<open>
  C12: Destroying data zeroes the data granule, at the address of the entry and of \<open>x[1]\<close>, before
  it is given back; the entry is replaced, and a mapped page is invalidated after that.
\<close>

theorem data_destroy_zeroes:
  assumes "smc_data_destroy E rd_addr map_addr res s = Some (res', s')" "res' ! 0 = RMI_SUCCESS"
    and "pack_ok E" "length res = SMC_RESULT_REGS"
  shows "\<exists>g wi ctx s1 s2. answer_find_lock_granule E s1 (res' ! 1) GRANULE_STATE_DATA = Some g \<and>
    res' ! 1 = s2tte_pa E (mapped_entry E wi s2) (RTT_PAGE_LEVEL E) \<and> released_zeroed g s' \<and>
    table_events s' =
      (if s2tte_is_assigned_ram E (mapped_entry E wi s2) (RTT_PAGE_LEVEL E) then [Invalidate_page ctx map_addr] else []) @
      S2tte_write (Buffer (g_llt wi) SLOT_RTT) (wi_index wi) (data_destroyed_entry E (mapped_entry E wi s2)) # table_events s"
  by (rule data_destroy_events [OF assms])

theorem data_destroy_zeroes_witness:
  "\<exists>xs s' g. smc_data_destroy (demo_env 0x6005) 0x1000 0x2000 [0, 0, 0, 0, 0] [] = Some (RMI_SUCCESS # xs, s') \<and>
     released_zeroed g s'"
proof -
  have "map_option fst (smc_data_destroy (demo_env 0x6005) 0x1000 0x2000 [0, 0, 0, 0, 0] []) = Some [0, 0x6000, 0x3000, 0, 0]"
    by code_simp
  then obtain s' where c: "smc_data_destroy (demo_env 0x6005) 0x1000 0x2000 [0, 0, 0, 0, 0] [] = Some ([0, 0x6000, 0x3000, 0, 0], s')"
    by (rule result_of)
  show ?thesis using data_destroy_zeroes [OF c _ demo_pack_ok] c by (auto simp: SMC_RESULT_REGS_def RMI_SUCCESS_def)
qed

text \<open>
  Creating data hands the granule over exactly when it succeeds: the last event of the command
  releases the granule in the state DATA on success and in the state DELEGATED otherwise.
\<close>

theorem data_create_hand_over:
  assumes "data_create E rd_addr data_addr map_addr g_src flags s = Some (ret, s')" "pack_ok E"
  shows "(\<exists>g g_rd. answer_find_lock_two E s data_addr GRANULE_STATE_DELEGATED rd_addr GRANULE_STATE_RD = Some (g, g_rd) \<and>
            hd s' = Unlock_transition g (if ret = RMI_SUCCESS then GRANULE_STATE_DATA else GRANULE_STATE_DELEGATED)) \<or>
         (ret = RMI_ERROR_INPUT \<and> s' = s)"
  by (rule data_create_transition [OF assms(1)]) (use assms(2) in \<open>simp add: pack_ok_def\<close>)

theorem data_create_hand_over_witness:
  "\<exists>s'. data_create (demo_env 0) 0x1000 0x5000 0x2000 (Some 0x9000) 1 [] = Some (RMI_SUCCESS, s') \<and>
     hd s' = Unlock_transition 0x5000 GRANULE_STATE_DATA"
proof -
  have "map_option fst (data_create (demo_env 0) 0x1000 0x5000 0x2000 (Some 0x9000) 1 []) = Some RMI_SUCCESS" by code_simp
  then obtain s' where c: "data_create (demo_env 0) 0x1000 0x5000 0x2000 (Some 0x9000) 1 [] = Some (RMI_SUCCESS, s')" by auto
  show ?thesis using data_create_hand_over [OF c demo_pack_ok] c by (auto simp: demo_env_def RMI_SUCCESS_def RMI_ERROR_INPUT_def)
qed

text \<open>
  Reading an entry changes nothing of the realm and reports the level that the walk
  reached; an entry with a RIPAS is reported by its abstract view, its address unless it is
  destroyed, and any other entry with the RIPAS empty.
\<close>

theorem read_entry_reports:
  assumes "smc_rtt_read_entry E rd_addr map_addr ulevel res s = Some (res', s')" "res' ! 0 = RMI_SUCCESS"
    and "length res = SMC_RESULT_REGS"
  shows "realm_unchanged s s' \<and>
    (\<exists>wi s1 state pa rp. res' = [RMI_SUCCESS, of_int (last_level wi), state, pa, rp] \<and>
       (case ripas_view E (mapped_entry E wi s1) (last_level wi) of
          Some v \<Rightarrow> (state, pa, rp) = view_report E v
        | None \<Rightarrow> rp = ripas_code E RIPAS_EMPTY \<and> state \<in> {RMI_UNASSIGNED, RMI_ASSIGNED, RMI_TABLE}))"
proof -
  obtain wi s1 state pa rp where r: "rtt_entry_report E (mapped_entry E wi s1) (last_level wi) = Some (state, pa, rp)"
      "res' = [RMI_SUCCESS, of_int (last_level wi), state, pa, rp]" "realm_unchanged s s'"
    using read_entry_events [OF assms] by blast
  have "rp = ripas_code E RIPAS_EMPTY \<and> state \<in> {RMI_UNASSIGNED, RMI_ASSIGNED, RMI_TABLE}"
    if "ripas_view E (mapped_entry E wi s1) (last_level wi) = None"
    using r(1) that by (auto simp: rtt_entry_report_def ripas_view_def split: if_splits)
  then show ?thesis using r rtt_entry_report_view [of E "mapped_entry E wi s1"]
    by (intro conjI exI [of _ wi] exI [of _ s1] exI [of _ state] exI [of _ pa] exI [of _ rp]) (auto split: option.split)
qed

theorem read_entry_reports_witness:
  "\<exists>s'. smc_rtt_read_entry (demo_env 5) 0x1000 0x2000 3 [0, 0, 0, 0, 0] [] = Some ([0, 3, 1, 0, 1], s') \<and> realm_unchanged [] s'"
  using read_entry_reports [OF demo_read_entry] demo_read_entry by (auto simp: RMI_SUCCESS_def SMC_RESULT_REGS_def)

text \<open>
  Blocking a page is a change of the permission bits of its assigned entry alone, which is
  invalidated afterwards: the entry loses all access, becomes execute-never, and keeps its address and
  attributes; unblocking it gives the entry that unblocking the old one gives.
\<close>

theorem ipa_block_permissions:
  assumes "smc_ipa_block E rd_addr map_addr s = Some (RMI_SUCCESS, s')"
  shows "\<exists>p i ctx e e'. s2tte_is_assigned_ram E e (RTT_PAGE_LEVEL E) \<and>
    table_events s' = [Invalidate_page ctx map_addr, S2tte_write p i e'] @ table_events s \<and>
    e' AND S2TTE_AP_MASK = 0 \<and> e' AND S2TTE_XN = S2TTE_XN \<and>
    e' AND NOT (S2TTE_AP_MASK OR S2TTE_XN) = e AND NOT (S2TTE_AP_MASK OR S2TTE_XN) \<and>
    unblock_s2tte e' = unblock_s2tte e"
proof -
  obtain wi ctx s1 where "s2tte_is_assigned_ram E (mapped_entry E wi s1) (RTT_PAGE_LEVEL E)"
      "table_events s' = [Invalidate_page ctx map_addr,
        S2tte_write (Buffer (g_llt wi) SLOT_RTT) (wi_index wi) (block_s2tte (mapped_entry E wi s1))] @ table_events s"
    using ipa_block_events [OF assms] by blast
  then show ?thesis using block_s2tte_bits unblock_block by blast
qed

theorem ipa_block_permissions_witness:
  "\<exists>p i ctx e' s'. smc_ipa_block (demo_env 5) 0x1000 0x2000 [] = Some (RMI_SUCCESS, s') \<and>
     table_events s' = [Invalidate_page ctx 0x2000, S2tte_write p i e'] \<and> e' AND S2TTE_AP_MASK = 0"
proof -
  obtain s' where c: "smc_ipa_block (demo_env 5) 0x1000 0x2000 [] = Some (RMI_SUCCESS, s')" using demo_block by blast
  obtain p i ctx e' where "table_events s' = [Invalidate_page ctx 0x2000, S2tte_write p i e']" "e' AND S2TTE_AP_MASK = 0"
    using ipa_block_permissions [OF c] by auto
  with c show ?thesis by blast
qed

section \<open>RIPAS\<close>

text \<open>
  C28: Updating the RIPAS of an entry implements the abstract change on its output address and RIPAS:
  an entry without a RIPAS, or a destroyed one the realm may not change, is refused; a change
  keeps the output address; the caller is told to invalidate exactly when an assigned page becomes empty.
\<close>

theorem update_ripas_refines:
  assumes "s2tte_laws E" "rv \<noteq> RIPAS_DESTROYED"
  shows "case ripas_view E e l of
      None \<Rightarrow> update_ripas_entry E e l rv cd = Inl (- 1)
    | Some (pa, r) \<Rightarrow>
        if r = RIPAS_DESTROYED \<and> cd \<noteq> CHANGE_DESTROYED then update_ripas_entry E e l rv cd = Inl (- 1)
        else if r = rv then update_ripas_entry E e l rv cd = Inl 0
        else \<exists>e'. update_ripas_entry E e l rv cd = Inr (e', if rv = RIPAS_EMPTY \<and> pa \<noteq> None then 1 else 0) \<and>
               ripas_view E e' l = Some (pa, rv)"
  by (rule update_ripas_entry_view [OF assms])

theorem update_ripas_refines_witness:
  "\<exists>e'. update_ripas_entry (demo_env 0) 0x6005 3 RIPAS_EMPTY NO_CHANGE_DESTROYED = Inr (e', 1) \<and>
     ripas_view (demo_env 0) e' 3 = Some (Some 0x6000, RIPAS_EMPTY)"
proof -
  have "ripas_view (demo_env 0) 0x6005 3 = Some (Some 0x6000, RIPAS_RAM)" by code_simp
  then show ?thesis
    using update_ripas_refines [OF demo_laws, of RIPAS_EMPTY 0 "0x6005" 3 NO_CHANGE_DESTROYED] by simp
qed

text \<open>
  C35: A successful RIPAS change by the host serves the pending request of the REC: it starts at the
  address that the REC waits for, makes progress by whole entries, stays within the requested range
  and within \<open>top\<close>, and stores the address it has reached in the REC.
\<close>

theorem set_ripas_progress:
  assumes "smc_rtt_set_ripas E rd_addr rec_addr base top_addr res s = Some (res', s')"
    and "sizes_ok E" "1 < length res" "pack_ok E" "res' ! 0 = RMI_SUCCESS"
  shows "\<exists>g_rd g_rec rec. answer_find_lock_two E s rd_addr GRANULE_STATE_RD rec_addr GRANULE_STATE_REC = Some (g_rd, g_rec) \<and>
    rec = rec_at E (Map g_rec SLOT_REC # Lock g_rec GRANULE_STATE_REC # Lock g_rd GRANULE_STATE_RD # s) g_rec \<and>
    rec_g_rd rec = g_rd \<and> base = set_ripas_addr rec \<and> top_addr \<le> set_ripas_top rec \<and>
    progress E base top_addr (res' ! 1) \<and> Set_ripas_addr g_rec (res' ! 1) \<in> set s'"
  by (rule rtt_set_ripas_success [OF assms])

theorem set_ripas_progress_witness:
  "\<exists>xs s'. smc_rtt_set_ripas (demo_env 0) 0x1000 0x7000 0 0x2000 [0, 0, 0, 0, 0] [] = Some (RMI_SUCCESS # xs, s') \<and>
     progress (demo_env 0) 0 0x2000 (xs ! 0)"
proof -
  have "map_option fst (smc_rtt_set_ripas (demo_env 0) 0x1000 0x7000 0 0x2000 [0, 0, 0, 0, 0] []) = Some [0, 0x2000, 0, 0, 0]"
    by code_simp
  then obtain s' where c: "smc_rtt_set_ripas (demo_env 0) 0x1000 0x7000 0 0x2000 [0, 0, 0, 0, 0] [] = Some ([0, 0x2000, 0, 0, 0], s')"
    by (rule result_of)
  show ?thesis using set_ripas_progress [OF c demo_sizes_ok _ demo_pack_ok] c by (auto simp: RMI_SUCCESS_def)
qed

text \<open>
  Initialising RIPAS makes progress by whole entries and stays within \<open>top\<close>.
\<close>

theorem init_ripas_progress:
  assumes "smc_rtt_init_ripas E rd_addr base top_addr res s = Some (res', s')"
    and "sizes_ok E" "1 < length res" "pack_ok E" "res' ! 0 = RMI_SUCCESS"
  shows "progress E base top_addr (res' ! 1)"
  by (rule rtt_init_ripas_success [OF assms])

theorem init_ripas_progress_witness:
  "\<exists>xs s'. smc_rtt_init_ripas (demo_env 0) 0x1000 0x1000 0x3000 [0, 0, 0, 0, 0] [] = Some (RMI_SUCCESS # xs, s') \<and>
     progress (demo_env 0) 0x1000 0x3000 (xs ! 0)"
proof -
  have "map_option fst (smc_rtt_init_ripas (demo_env 0) 0x1000 0x1000 0x3000 [0, 0, 0, 0, 0] []) = Some [0, 0x3000, 0, 0, 0]"
    by code_simp
  then obtain s' where c: "smc_rtt_init_ripas (demo_env 0) 0x1000 0x1000 0x3000 [0, 0, 0, 0, 0] [] = Some ([0, 0x3000, 0, 0, 0], s')"
    by (rule result_of)
  show ?thesis using init_ripas_progress [OF c demo_sizes_ok _ demo_pack_ok] c by (auto simp: RMI_SUCCESS_def)
qed

end
