(* ===== verification/Rmm_Exit_Correctness.thy ===== *)
theory Rmm_Exit_Correctness
  imports Rmm_Example
begin

text \<open>
  The properties of the exits of a realm and of the monitor's own aborts: what an exit reports
  to the host, where it continues, and what of the realm it keeps. The witnesses use the
  constants of the Arm architecture in \<open>demo_exit_env\<close>.
\<close>

section \<open>What a data abort reports\<close>










section \<open>Asynchronous exits\<close>

text \<open>
  An asynchronous exit never returns to the realm. Of the exit record it changes the reason
  and, for an SError, the masked syndrome; an SError that the monitor cannot contain stops it.
\<close>

theorem async_exit_report:
  assumes "exception \<noteq> ARM_EXCEPTION_SYNC_LEL X"
    and "\<And>esr s. rec_exit (inject_serror X esr s) = rec_exit s"
  shows "case handle_realm_exit X exception st of
      None \<Rightarrow> exception = ARM_EXCEPTION_SERROR_LEL X \<and>
        (ESR_EL2 (cpu st) AND ESR_EL2_SERROR_IDS_BIT X \<noteq> 0 \<or>
         ESR_EL2 (cpu st) AND MASK_SERROR_DFSC X \<noteq> ESR_EL2_SERROR_DFSC_ASYNC X \<or>
         ESR_EL2 (cpu st) AND MASK_SERROR_AET X \<notin> {ESR_EL2_SERROR_AET_UEU X, ESR_EL2_SERROR_AET_UER X,
           ESR_EL2_SERROR_AET_CE X, ESR_EL2_SERROR_AET_UEO X})
    | Some (to_realm, st') \<Rightarrow> \<not> to_realm \<and>
        (if exception = ARM_EXCEPTION_IRQ_LEL X then st' = set_exit (\<lambda>e. e\<lparr>exit_reason := RMI_EXIT_IRQ\<rparr>) st
         else if exception = ARM_EXCEPTION_FIQ_LEL X then st' = set_exit (\<lambda>e. e\<lparr>exit_reason := RMI_EXIT_FIQ\<rparr>) st
         else if exception = ARM_EXCEPTION_SERROR_LEL X then
           rec_exit st' = (rec_exit st)\<lparr>exit_reason := RMI_EXIT_SERROR, exit_esr := ESR_EL2 (cpu st) AND ESR_SERROR_MASK X\<rparr>
         else st' = st)"
proof -
  have inj: "rec_exit (inject_serror X e (set_exit f s)) = f (rec_exit s)" for e f s
    using assms(2) by (simp add: set_exit_def)
  show ?thesis
    using assms(1) inj
    by (auto simp: handle_realm_exit_def handle_exception_irq_lel_def handle_exception_serror_lel_def Let_def
        save_run_info_def system_abort_def set_exit_def split: option.splits if_splits)
qed

theorem async_exit_report_witness:
  "\<exists>st'. handle_realm_exit demo_exit_env 3 (demo_xstate 0 0xBE000411 0x10) = Some (False, st') \<and>
     exit_reason (rec_exit st') = RMI_EXIT_SERROR \<and> exit_esr (rec_exit st') = 0xBC000411"
proof -
  let ?st = "demo_xstate 0 0xBE000411 0x10"
  have c: "ARM_EXCEPTION_SYNC_LEL demo_exit_env = 0" "ARM_EXCEPTION_IRQ_LEL demo_exit_env = 1"
    "ARM_EXCEPTION_FIQ_LEL demo_exit_env = 2" "ARM_EXCEPTION_SERROR_LEL demo_exit_env = 3"
    "ESR_EL2 (cpu ?st) AND ESR_SERROR_MASK demo_exit_env = 0xBC000411"
    by code_simp+
  have "map_option fst (handle_realm_exit demo_exit_env 3 ?st) = Some False" by code_simp
  then obtain st' where "handle_realm_exit demo_exit_env 3 ?st = Some (False, st')" by auto
  moreover have "rec_exit (inject_serror demo_exit_env esr s) = rec_exit s" for esr s
    by (simp add: demo_exit_env_def)
  ultimately show ?thesis using async_exit_report [of 3 demo_exit_env ?st] c by simp
qed

section \<open>Service calls of a realm\<close>

text \<open>The identifiers that exit.c dispatches, after the SVE hint is cleared.\<close>

definition rsi_known :: "exit_env \<Rightarrow> u32 \<Rightarrow> bool" where
  "rsi_known X fid \<longleftrightarrow> fid = SMCCC_VERSION \<or>
     SMC32_PSCI_FID_MIN X \<le> fid \<and> fid \<le> SMC32_PSCI_FID_MAX X \<or>
     SMC64_PSCI_FID_MIN X \<le> fid \<and> fid \<le> SMC64_PSCI_FID_MAX X \<or>
     fid \<in> {SMC_RSI_VERSION X, SMC_RSI_FEATURES X, SMC_RSI_ATTEST_TOKEN_INIT X, SMC_RSI_ATTEST_TOKEN_CONTINUE X,
       SMC_RSI_MEASUREMENT_READ X, SMC_RSI_MEASUREMENT_EXTEND X, SMC_RSI_REALM_CONFIG X, SMC_RSI_IPA_STATE_SET X,
       SMC_RSI_IPA_STATE_GET X, SMC_RSI_HOST_CALL X}"

lemma rsi_dispatch_unknown:
  assumes "\<not> rsi_known X fid"
  shows "rsi_dispatch X fid st res =
    (st, res\<lparr>action := UPDATE_REC_RETURN_TO_REALM X, smc_res := (smc_res res)[0 := SMC_UNKNOWN]\<rparr>)"
  using assms by (auto simp: rsi_dispatch_def rsi_known_def Let_def)

lemma rsi_unknown_no_fpu: "\<not> rsi_known X fid \<Longrightarrow> \<not> rsi_handler_needs_fpu X fid"
  by (auto simp: rsi_handler_needs_fpu_def rsi_known_def)

text \<open>
  A service call with an unknown identifier returns to the realm after the SMC instruction with
  \<open>SMC_UNKNOWN\<close> in X0 and zero in X1 to X3; X4 and all the other registers keep their values,
  and nothing is reported to the host.
\<close>

theorem rsi_unknown_returns:
  assumes "\<not> rsi_known X (ucast (regs (the_rec st) ! 0) AND NOT SMC_SVE_HINT)"
    and "UPDATE_REC_RETURN_TO_REALM X AND FLAG_UPDATE_REC X \<noteq> 0"
    and "UPDATE_REC_RETURN_TO_REALM X AND (FLAG_STAGE_2_ABORT X OR FLAG_EXIT_TO_HOST X) = 0"
    and "length (regs (the_rec st)) = REC_EXIT_NR_GPRS"
  shows "handle_realm_rsi X st =
    Some (True, st\<lparr>the_rec := (the_rec st)\<lparr>regs := (regs (the_rec st))[0 := SMC_UNKNOWN, 1 := 0, 2 := 0, 3 := 0]\<rparr>,
                   cpu := (cpu st)\<lparr>ELR_EL2 := ELR_EL2 (cpu st) + 4\<rparr>\<rparr>)"
proof -
  let ?a = "UPDATE_REC_RETURN_TO_REALM X"
  have flags: "?a AND FLAG_STAGE_2_ABORT X = 0" "?a AND FLAG_EXIT_TO_HOST X = 0"
    using assms(3) by (simp_all add: bit.conj_disj_distrib or_eq_0_iff)
  have four: "fold f [4..<SMC_RESULT_REGS] r = f 4 r"
    "fold g [0..<SMC_RESULT_REGS] r = g 4 (g 3 (g 2 (g 1 (g 0 r))))" for f g :: "nat \<Rightarrow> u64 list \<Rightarrow> u64 list" and r
    by (simp_all add: SMC_RESULT_REGS_def upt_rec eval_nat_numeral)
  have five: "replicate SMC_RESULT_REGS (0 :: u64) = [0, 0, 0, 0, 0]" by (simp add: SMC_RESULT_REGS_def eval_nat_numeral)
  have keep: "(regs (the_rec st))[0 := a, Suc 0 := b, 2 := c, 3 := d, 4 := regs (the_rec st) ! 4] =
      (regs (the_rec st))[0 := a, Suc 0 := b, 2 := c, 3 := d]" for a b c d
    using assms(4) by (intro nth_equalityI) (auto simp: nth_list_update REC_EXIT_NR_GPRS_def)
  show ?thesis
    using assms(2) flags rsi_unknown_no_fpu [OF assms(1)]
    by (simp add: handle_realm_rsi_def rsi_dispatch_unknown [OF assms(1)] advance_pc_def four five keep Let_def)
qed

theorem rsi_unknown_returns_witness:
  "\<exists>st'. handle_realm_rsi demo_exit_env (demo_xstate 0xC4000188 0 0) = Some (True, st') \<and> ELR_EL2 (cpu st') = 0x8004 \<and>
     regs (the_rec st') ! 0 = SMC_UNKNOWN"
proof -
  let ?st = "demo_xstate 0xC4000188 0 0"
  have "\<not> rsi_known demo_exit_env (ucast (regs (the_rec ?st) ! 0) AND NOT SMC_SVE_HINT)"
    "UPDATE_REC_RETURN_TO_REALM demo_exit_env AND FLAG_UPDATE_REC demo_exit_env \<noteq> 0"
    "UPDATE_REC_RETURN_TO_REALM demo_exit_env AND (FLAG_STAGE_2_ABORT demo_exit_env OR FLAG_EXIT_TO_HOST demo_exit_env) = 0"
    "length (regs (the_rec ?st)) = REC_EXIT_NR_GPRS" "ELR_EL2 (cpu ?st) + 4 = 0x8004"
    by code_simp+
  then show ?thesis using rsi_unknown_returns [of demo_exit_env ?st] by (simp add: REC_EXIT_NR_GPRS_def)
qed

section \<open>Aborts of the monitor\<close>

text \<open>
  The monitor survives an abort of its own exactly for a granule protection fault on one of
  the two registered accesses to memory of the host, and continues at the registered address.
\<close>

theorem rmm_trap_recovers:
  "handle_rmm_trap T =
     (if esr_el2 T AND MASK_ESR_EL2_EC T = ESR_EL2_EC_DATA_ABORT_SEL T \<and>
         esr_el2 T AND MASK_ESR_EL2_ABORT_FSC T = ESR_EL2_ABORT_FSC_GPF T \<and>
         elr_el2 T \<in> {addr_ns_read T, addr_ns_write T}
      then Some (addr_ns_access_ret_0 T) else None)"
  by (auto simp: handle_rmm_trap_def is_el2_data_abort_gpf_def rmm_trap_list_def fatal_abort_def Let_def)

end
