(* ===== verification/Kvm_Rmi.thy ===== *)
theory Kvm_Rmi
  imports Prelude
begin

text \<open>
  The realm management interface as the host calls it: src/tetd_cca/linux/arch/arm64/include/asm,
  rmi_smc.h, rmi_cmds.h and kvm_rme.h. The host keeps a log of everything it does to the world outside:
  monitor calls with their results, pages allocated, freed and leaked, warnings.
  The monitor and the page allocator answer from the log. A kernel pointer is its
  virtual address, zero for null; a \<open>struct page *\<close> is the physical address of its page.
  A C \<open>int\<close> is an integer.
\<close>

section \<open>Data of kvm_rme.h and rmi_smc.h\<close>

datatype realm_state =
    REALM_STATE_NONE
  | REALM_STATE_NEW
  | REALM_STATE_ACTIVE
  | REALM_STATE_DYING
  | REALM_STATE_DEAD

record realm_params =
  p_flags :: u64
  s2sz :: u64
  sve_vl :: u64
  num_bps :: u64
  num_wps :: u64
  pmu_num_ctrs :: u64
  hash_algo :: u64
  rpv :: "u8 list"
  p_vmid :: u64
  rtt_base :: u64
  rtt_level_start :: int
  rtt_num_start :: u64

record realm =
  r_state :: realm_state
  r_rd :: u64
  r_params :: u64
  spare_page :: u64
  num_aux :: u64
  r_vmid :: u32
  ia_bits :: u32
  pmu_enabled :: bool

text \<open>The parameters of a REC and what the host keeps of one.\<close>

record rec_params =
  rp_flags :: u64
  rp_mpidr :: u64
  rp_pc :: u64
  rp_gprs :: "u64 list"
  num_rec_aux :: u64
  rp_aux :: "u64 list"

record realm_rec =
  rec_mpidr :: u64
  rec_page :: u64
  aux_pages :: "u64 list"
  rec_run :: u64

definition REC_CREATE_NR_GPRS :: nat where "REC_CREATE_NR_GPRS = 8"
definition REC_PARAMS_FLAG_RUNNABLE :: u64 where "REC_PARAMS_FLAG_RUNNABLE = 1"
definition REC_PARAMS_AUX_GRANULES :: nat where "REC_PARAMS_AUX_GRANULES = 16"

record rtt_entry =
  walk_level :: u64
  rtt_desc :: u64
  rtt_state :: int
  rtt_ripas :: int

definition RMI_ABI_MAJOR_VERSION :: u64 where "RMI_ABI_MAJOR_VERSION = 1"
definition RMI_ABI_MINOR_VERSION :: u64 where "RMI_ABI_MINOR_VERSION = 0"

definition RMI_ABI_VERSION_GET_MAJOR :: "u64 \<Rightarrow> u64" where
  "RMI_ABI_VERSION_GET_MAJOR version = drop_bit 16 version"

definition RMI_ABI_VERSION_GET_MINOR :: "u64 \<Rightarrow> u64" where
  "RMI_ABI_VERSION_GET_MINOR version = version AND 0xFFFF"

definition RMI_ABI_VERSION :: "u64 \<Rightarrow> u64 \<Rightarrow> u64" where
  "RMI_ABI_VERSION major minor = push_bit 16 major OR minor"

definition RMI_FEATURE_REGISTER_0_S2SZ :: u64 where "RMI_FEATURE_REGISTER_0_S2SZ = 0xFF"
definition RMI_FEATURE_REGISTER_0_SVE_EN :: u64 where "RMI_FEATURE_REGISTER_0_SVE_EN = push_bit 9 1"
definition RMI_FEATURE_REGISTER_0_SVE_VL :: u64 where "RMI_FEATURE_REGISTER_0_SVE_VL = push_bit 10 0xF"
definition RMI_FEATURE_REGISTER_0_NUM_BPS :: u64 where "RMI_FEATURE_REGISTER_0_NUM_BPS = push_bit 14 0xF"
definition RMI_FEATURE_REGISTER_0_NUM_WPS :: u64 where "RMI_FEATURE_REGISTER_0_NUM_WPS = push_bit 18 0xF"
definition RMI_FEATURE_REGISTER_0_PMU_EN :: u64 where "RMI_FEATURE_REGISTER_0_PMU_EN = push_bit 22 1"
definition RMI_FEATURE_REGISTER_0_PMU_NUM_CTRS :: u64 where
  "RMI_FEATURE_REGISTER_0_PMU_NUM_CTRS = push_bit 23 0x1F"
definition RMI_FEATURE_REGISTER_0_HASH_SHA_256 :: u64 where "RMI_FEATURE_REGISTER_0_HASH_SHA_256 = push_bit 28 1"
definition RMI_FEATURE_REGISTER_0_HASH_SHA_512 :: u64 where "RMI_FEATURE_REGISTER_0_HASH_SHA_512 = push_bit 29 1"
definition RMI_REALM_PARAM_FLAG_SVE :: u64 where "RMI_REALM_PARAM_FLAG_SVE = push_bit 1 1"
definition RMI_REALM_PARAM_FLAG_PMU :: u64 where "RMI_REALM_PARAM_FLAG_PMU = push_bit 2 1"

lemmas feature_defs = RMI_FEATURE_REGISTER_0_S2SZ_def RMI_FEATURE_REGISTER_0_SVE_EN_def
  RMI_FEATURE_REGISTER_0_SVE_VL_def RMI_FEATURE_REGISTER_0_NUM_BPS_def RMI_FEATURE_REGISTER_0_NUM_WPS_def
  RMI_FEATURE_REGISTER_0_PMU_EN_def RMI_FEATURE_REGISTER_0_PMU_NUM_CTRS_def
  RMI_FEATURE_REGISTER_0_HASH_SHA_256_def RMI_FEATURE_REGISTER_0_HASH_SHA_512_def

definition RMI_RETURN_STATUS :: "int \<Rightarrow> int" where
  "RMI_RETURN_STATUS ret = ret AND 0xFF"

definition RMI_RETURN_INDEX :: "int \<Rightarrow> int" where
  "RMI_RETURN_INDEX ret = drop_bit 8 ret AND 0xFF"

text \<open>The codes and constants that the monitor's headers define too carry the suffix \<open>_host\<close>.\<close>

definition RMI_SUCCESS_host :: int where "RMI_SUCCESS_host = 0"
definition RMI_ERROR_INPUT_host :: int where "RMI_ERROR_INPUT_host = 1"
definition RMI_ERROR_REALM_host :: int where "RMI_ERROR_REALM_host = 2"
definition RMI_ERROR_REC_host :: int where "RMI_ERROR_REC_host = 3"
definition RMI_ERROR_RTT_host :: int where "RMI_ERROR_RTT_host = 4"
definition RMI_UNASSIGNED_host :: int where "RMI_UNASSIGNED_host = 0"
definition RMI_ASSIGNED_host :: int where "RMI_ASSIGNED_host = 1"
definition RMI_TABLE_host :: int where "RMI_TABLE_host = 2"
definition RMI_EMPTY :: u64 where "RMI_EMPTY = 0"
definition RMI_MEASURE_CONTENT_host :: u64 where "RMI_MEASURE_CONTENT_host = 1"

lemmas rmi_code_defs = RMI_SUCCESS_host_def RMI_ERROR_INPUT_host_def RMI_ERROR_REALM_host_def RMI_ERROR_REC_host_def
  RMI_ERROR_RTT_host_def RMI_UNASSIGNED_host_def RMI_ASSIGNED_host_def RMI_TABLE_host_def

definition RME_RTT_BLOCK_LEVEL :: int where "RME_RTT_BLOCK_LEVEL = 2"
definition RME_RTT_MAX_LEVEL :: int where "RME_RTT_MAX_LEVEL = 3"
definition RME_PAGE_SHIFT :: int where "RME_PAGE_SHIFT = 12"
definition RME_PAGE_SIZE :: u64 where "RME_PAGE_SIZE = push_bit (nat RME_PAGE_SHIFT) 1"

definition RME_RTT_LEVEL_SHIFT :: "int \<Rightarrow> int" where
  "RME_RTT_LEVEL_SHIFT l = (RME_PAGE_SHIFT - 3) * (4 - l) + 3"

definition RME_L2_BLOCK_SIZE :: u64 where
  "RME_L2_BLOCK_SIZE = push_bit (nat (RME_RTT_LEVEL_SHIFT 2)) 1"

section \<open>The log and the environment\<close>

text \<open>The result registers of a call.\<close>

record smccc_res =
  res_a0 :: u64
  res_a1 :: u64
  res_a2 :: u64
  res_a3 :: u64
  res_a4 :: u64

datatype hevent =
    Smc u32 "u64 list" smccc_res
  | Page_alloc bool "u64 option"
  | Page_free u64
  | Page_get u64
  | Copy_page u64 u64
  | Release_pfn u64 bool
  | Free_stage2_pgd
  | Warn

type_synonym hlog = "hevent list"

text \<open>A memory slot of the virtual machine.\<close>

record memslot =
  base_gfn :: u64
  npages :: u64

text \<open>
  \<open>answer_page\<close> is the kernel's page allocator, from a memory cache if the flag says so; it gives the
  physical address of a page; \<open>answer_pfn\<close> is the page behind a guest frame, \<open>None\<close> for an error frame;
  the other fields are the macros and constants of the kernel's headers that the code uses.
\<close>

record host_env =
  answer_smc :: "hlog \<Rightarrow> u32 \<Rightarrow> u64 list \<Rightarrow> smccc_res"
  answer_page :: "hlog \<Rightarrow> bool \<Rightarrow> u64 option"
  virt_to_phys :: "u64 \<Rightarrow> u64"
  phys_to_virt :: "u64 \<Rightarrow> u64"
  ARM_SMCCC_CALL_VAL :: "u32 \<Rightarrow> u32 \<Rightarrow> u32 \<Rightarrow> u32 \<Rightarrow> u32"
  ARM_SMCCC_FAST_CALL :: u32
  ARM_SMCCC_SMC_64 :: u32
  ARM_SMCCC_OWNER_STANDARD :: u32
  PHYS_ADDR_MAX :: u64
  stage2_pgtable_levels :: "u32 \<Rightarrow> int"
  ALIGN :: "u64 \<Rightarrow> u64 \<Rightarrow> u64"
  ALIGN_DOWN :: "u64 \<Rightarrow> u64 \<Rightarrow> u64"
  IS_ALIGNED :: "u64 \<Rightarrow> u64 \<Rightarrow> bool"
  PAGE_SHIFT :: nat
  PAGE_SIZE :: u64
  PTE_S2_MEMATTR_NORMAL :: u64
  PTE_SHARED :: u64
  POPULATE_FLAGS_MEASURE :: u32
  answer_pfn :: "hlog \<Rightarrow> u64 \<Rightarrow> u64 option"
  gpa_to_gfn :: "u64 \<Rightarrow> u64"
  gfn_to_memslot :: "u64 \<Rightarrow> memslot option"
  gfn_to_hva_memslot :: "memslot \<Rightarrow> u64 \<Rightarrow> u64"
  vma_lookup :: "u64 \<Rightarrow> bool"
  uninitialised_level :: int
  uninitialised_r :: int
  kvm_granule_shift :: "u32 \<Rightarrow> u64"
  VTCR_EL2_IPA :: "u64 \<Rightarrow> u32"
  u64_get_bits :: "u64 \<Rightarrow> u64 \<Rightarrow> u64"
  kvm_get_vmid_bits :: nat
  bitmap_zalloc :: "nat \<Rightarrow> bool list option"
  bitmap_find_free_region :: "bool list \<Rightarrow> nat \<Rightarrow> int \<times> bool list"
  bitmap_release_region :: "bool list \<Rightarrow> u32 \<Rightarrow> bool list"
  SMCCC_RET_NOT_SUPPORTED :: u64
  KVM_CAP_ARM_RME_CONFIG_REALM :: u64
  KVM_CAP_ARM_RME_CREATE_RD :: u64
  KVM_CAP_ARM_RME_INIT_IPA_REALM :: u64
  KVM_CAP_ARM_RME_POPULATE_REALM :: u64
  KVM_CAP_ARM_RME_ACTIVATE_REALM :: u64
  KVM_CAP_ARM_RME_CFG_RPV :: u32
  KVM_CAP_ARM_RME_CFG_HASH_ALGO :: u32
  KVM_CAP_ARM_RME_CFG_SVE :: u32
  KVM_CAP_ARM_RME_CFG_DBG :: u32
  KVM_CAP_ARM_RME_CFG_PMU :: u32
  KVM_CAP_ARM_RME_MEASUREMENT_ALGO_SHA256 :: u32
  KVM_CAP_ARM_RME_MEASUREMENT_ALGO_SHA512 :: u32

text \<open>The realm of the virtual machine at hand, the pages of its parameters and of the parameters of a REC,
  the static variables of rme.c, and the log.\<close>

record host =
  realm_of :: realm
  params_page :: realm_params
  rec_params_page :: rec_params
  rmm_feat_reg0 :: u64
  rme_vmid_bitmap :: "bool list"
  kvm_rme_is_available :: bool
  vflag :: int
  hlog :: hlog

definition emit :: "hevent \<Rightarrow> host \<Rightarrow> host" where
  "emit e h = h\<lparr>hlog := e # hlog h\<rparr>"

definition arm_smccc_1_1_invoke :: "host_env \<Rightarrow> u32 \<Rightarrow> u64 list \<Rightarrow> host \<Rightarrow> smccc_res \<times> host" where
  "arm_smccc_1_1_invoke E fid args h =
     (let res = answer_smc E (hlog h) fid args in (res, emit (Smc fid args res) h))"

text \<open>\<open>WARN_ON\<close> reports a condition that holds and returns it.\<close>

definition WARN_ON :: "bool \<Rightarrow> host \<Rightarrow> host" where
  "WARN_ON c h = (if c then emit Warn h else h)"

text \<open>A register returned as an \<open>int\<close>.\<close>

definition c_int :: "u64 \<Rightarrow> int" where
  "c_int x = sint (ucast x :: u32)"

definition c_ulong :: "int \<Rightarrow> u64" where
  "c_ulong i = word_of_int i"

section \<open>Function identifiers\<close>

definition SMC_RxI_CALL :: "host_env \<Rightarrow> u32 \<Rightarrow> u32" where
  "SMC_RxI_CALL E func =
     ARM_SMCCC_CALL_VAL E (ARM_SMCCC_FAST_CALL E) (ARM_SMCCC_SMC_64 E) (ARM_SMCCC_OWNER_STANDARD E) func"

definition SMC_RMI_DATA_CREATE :: "host_env \<Rightarrow> u32" where
  "SMC_RMI_DATA_CREATE E = SMC_RxI_CALL E 0x153"

definition SMC_RMI_DATA_CREATE_UNKNOWN :: "host_env \<Rightarrow> u32" where
  "SMC_RMI_DATA_CREATE_UNKNOWN E = SMC_RxI_CALL E 0x154"

definition SMC_RMI_DATA_DESTROY :: "host_env \<Rightarrow> u32" where
  "SMC_RMI_DATA_DESTROY E = SMC_RxI_CALL E 0x155"

definition SMC_RMI_FEATURES :: "host_env \<Rightarrow> u32" where
  "SMC_RMI_FEATURES E = SMC_RxI_CALL E 0x165"

definition SMC_RMI_GRANULE_DELEGATE :: "host_env \<Rightarrow> u32" where
  "SMC_RMI_GRANULE_DELEGATE E = SMC_RxI_CALL E 0x151"

definition SMC_RMI_GRANULE_UNDELEGATE :: "host_env \<Rightarrow> u32" where
  "SMC_RMI_GRANULE_UNDELEGATE E = SMC_RxI_CALL E 0x152"

definition SMC_RMI_PSCI_COMPLETE :: "host_env \<Rightarrow> u32" where
  "SMC_RMI_PSCI_COMPLETE E = SMC_RxI_CALL E 0x164"

definition SMC_RMI_REALM_ACTIVATE :: "host_env \<Rightarrow> u32" where
  "SMC_RMI_REALM_ACTIVATE E = SMC_RxI_CALL E 0x157"

definition SMC_RMI_REALM_CREATE :: "host_env \<Rightarrow> u32" where
  "SMC_RMI_REALM_CREATE E = SMC_RxI_CALL E 0x158"

definition SMC_RMI_REALM_DESTROY :: "host_env \<Rightarrow> u32" where
  "SMC_RMI_REALM_DESTROY E = SMC_RxI_CALL E 0x159"

definition SMC_RMI_REC_AUX_COUNT :: "host_env \<Rightarrow> u32" where
  "SMC_RMI_REC_AUX_COUNT E = SMC_RxI_CALL E 0x167"

definition SMC_RMI_REC_CREATE :: "host_env \<Rightarrow> u32" where
  "SMC_RMI_REC_CREATE E = SMC_RxI_CALL E 0x15A"

definition SMC_RMI_REC_DESTROY :: "host_env \<Rightarrow> u32" where
  "SMC_RMI_REC_DESTROY E = SMC_RxI_CALL E 0x15B"

definition SMC_RMI_REC_ENTER :: "host_env \<Rightarrow> u32" where
  "SMC_RMI_REC_ENTER E = SMC_RxI_CALL E 0x15C"

definition SMC_RMI_RTT_CREATE :: "host_env \<Rightarrow> u32" where
  "SMC_RMI_RTT_CREATE E = SMC_RxI_CALL E 0x15D"

definition SMC_RMI_RTT_DESTROY :: "host_env \<Rightarrow> u32" where
  "SMC_RMI_RTT_DESTROY E = SMC_RxI_CALL E 0x15E"

definition SMC_RMI_RTT_FOLD :: "host_env \<Rightarrow> u32" where
  "SMC_RMI_RTT_FOLD E = SMC_RxI_CALL E 0x166"

definition SMC_RMI_RTT_INIT_RIPAS :: "host_env \<Rightarrow> u32" where
  "SMC_RMI_RTT_INIT_RIPAS E = SMC_RxI_CALL E 0x168"

definition SMC_RMI_RTT_MAP_UNPROTECTED :: "host_env \<Rightarrow> u32" where
  "SMC_RMI_RTT_MAP_UNPROTECTED E = SMC_RxI_CALL E 0x15F"

definition SMC_RMI_RTT_READ_ENTRY :: "host_env \<Rightarrow> u32" where
  "SMC_RMI_RTT_READ_ENTRY E = SMC_RxI_CALL E 0x161"

definition SMC_RMI_RTT_SET_RIPAS :: "host_env \<Rightarrow> u32" where
  "SMC_RMI_RTT_SET_RIPAS E = SMC_RxI_CALL E 0x169"

definition SMC_RMI_RTT_UNMAP_UNPROTECTED :: "host_env \<Rightarrow> u32" where
  "SMC_RMI_RTT_UNMAP_UNPROTECTED E = SMC_RxI_CALL E 0x162"

definition SMC_RMI_VERSION :: "host_env \<Rightarrow> u32" where
  "SMC_RMI_VERSION E = SMC_RxI_CALL E 0x150"

definition SMC_RMI_IPA_BLOCK :: "host_env \<Rightarrow> u32" where
  "SMC_RMI_IPA_BLOCK E = SMC_RxI_CALL E 0x16A"

definition SMC_RMI_IPA_UNBLOCK :: "host_env \<Rightarrow> u32" where
  "SMC_RMI_IPA_UNBLOCK E = SMC_RxI_CALL E 0x16B"

lemmas smc_rmi_defs = 
  SMC_RMI_DATA_CREATE_def
  SMC_RMI_DATA_CREATE_UNKNOWN_def
  SMC_RMI_DATA_DESTROY_def
  SMC_RMI_FEATURES_def
  SMC_RMI_GRANULE_DELEGATE_def
  SMC_RMI_GRANULE_UNDELEGATE_def
  SMC_RMI_PSCI_COMPLETE_def
  SMC_RMI_REALM_ACTIVATE_def
  SMC_RMI_REALM_CREATE_def
  SMC_RMI_REALM_DESTROY_def
  SMC_RMI_REC_AUX_COUNT_def
  SMC_RMI_REC_CREATE_def
  SMC_RMI_REC_DESTROY_def
  SMC_RMI_REC_ENTER_def
  SMC_RMI_RTT_CREATE_def
  SMC_RMI_RTT_DESTROY_def
  SMC_RMI_RTT_FOLD_def
  SMC_RMI_RTT_INIT_RIPAS_def
  SMC_RMI_RTT_MAP_UNPROTECTED_def
  SMC_RMI_RTT_READ_ENTRY_def
  SMC_RMI_RTT_SET_RIPAS_def
  SMC_RMI_RTT_UNMAP_UNPROTECTED_def
  SMC_RMI_VERSION_def
  SMC_RMI_IPA_BLOCK_def
  SMC_RMI_IPA_UNBLOCK_def

text \<open>The documented encoding of the SMC calling convention.\<close>

definition smccc_ok :: "host_env \<Rightarrow> bool" where
  "smccc_ok E \<longleftrightarrow> ARM_SMCCC_FAST_CALL E = 1 \<and> ARM_SMCCC_SMC_64 E = 1 \<and> ARM_SMCCC_OWNER_STANDARD E = 4 \<and>
     (\<forall>type conv owner func. ARM_SMCCC_CALL_VAL E type conv owner func =
        (((push_bit 31 type OR push_bit 30 conv) OR push_bit 24 (owner AND 0x3F)) OR (func AND 0xFFFF)))"

lemma SMC_RxI_CALL_value: "smccc_ok E \<Longrightarrow> SMC_RxI_CALL E func = (0xC4000000 OR (func AND 0xFFFF))"
  by (simp add: SMC_RxI_CALL_def smccc_ok_def)

text \<open>No other command has the identifier of the delegation.\<close>

lemma smc_rmi_values:
  assumes "smccc_ok E"
  shows
    "SMC_RMI_DATA_CREATE E = 0xC4000153"
    "SMC_RMI_DATA_CREATE_UNKNOWN E = 0xC4000154"
    "SMC_RMI_DATA_DESTROY E = 0xC4000155"
    "SMC_RMI_FEATURES E = 0xC4000165"
    "SMC_RMI_GRANULE_DELEGATE E = 0xC4000151"
    "SMC_RMI_GRANULE_UNDELEGATE E = 0xC4000152"
    "SMC_RMI_PSCI_COMPLETE E = 0xC4000164"
    "SMC_RMI_REALM_ACTIVATE E = 0xC4000157"
    "SMC_RMI_REALM_CREATE E = 0xC4000158"
    "SMC_RMI_REALM_DESTROY E = 0xC4000159"
    "SMC_RMI_REC_AUX_COUNT E = 0xC4000167"
    "SMC_RMI_REC_CREATE E = 0xC400015A"
    "SMC_RMI_REC_DESTROY E = 0xC400015B"
    "SMC_RMI_REC_ENTER E = 0xC400015C"
    "SMC_RMI_RTT_CREATE E = 0xC400015D"
    "SMC_RMI_RTT_DESTROY E = 0xC400015E"
    "SMC_RMI_RTT_FOLD E = 0xC4000166"
    "SMC_RMI_RTT_INIT_RIPAS E = 0xC4000168"
    "SMC_RMI_RTT_MAP_UNPROTECTED E = 0xC400015F"
    "SMC_RMI_RTT_READ_ENTRY E = 0xC4000161"
    "SMC_RMI_RTT_SET_RIPAS E = 0xC4000169"
    "SMC_RMI_RTT_UNMAP_UNPROTECTED E = 0xC4000162"
    "SMC_RMI_VERSION E = 0xC4000150"
    "SMC_RMI_IPA_BLOCK E = 0xC400016A"
    "SMC_RMI_IPA_UNBLOCK E = 0xC400016B"
  using assms by (simp_all add: smc_rmi_defs SMC_RxI_CALL_value)

section \<open>The commands\<close>

definition rmi_data_create :: "host_env \<Rightarrow> u64 \<Rightarrow> u64 \<Rightarrow> u64 \<Rightarrow> u64 \<Rightarrow> u64 \<Rightarrow> host \<Rightarrow> int \<times> host" where
  "rmi_data_create E rd data ipa src flags h =
     (let (res, h) = arm_smccc_1_1_invoke E (SMC_RMI_DATA_CREATE E) [rd, data, ipa, src, flags] h
      in (c_int (res_a0 res), h))"

definition rmi_data_create_unknown :: "host_env \<Rightarrow> u64 \<Rightarrow> u64 \<Rightarrow> u64 \<Rightarrow> host \<Rightarrow> int \<times> host" where
  "rmi_data_create_unknown E rd data ipa h =
     (let (res, h) = arm_smccc_1_1_invoke E (SMC_RMI_DATA_CREATE_UNKNOWN E) [rd, data, ipa] h
      in (c_int (res_a0 res), h))"

definition rmi_data_destroy :: "host_env \<Rightarrow> u64 \<Rightarrow> u64 \<Rightarrow> host \<Rightarrow> int \<times> u64 \<times> u64 \<times> host" where
  "rmi_data_destroy E rd ipa h =
     (let (res, h) = arm_smccc_1_1_invoke E (SMC_RMI_DATA_DESTROY E) [rd, ipa] h
      in (c_int (res_a0 res), res_a1 res, res_a2 res, h))"

definition rmi_features :: "host_env \<Rightarrow> u64 \<Rightarrow> host \<Rightarrow> int \<times> u64 \<times> host" where
  "rmi_features E index h =
     (let (res, h) = arm_smccc_1_1_invoke E (SMC_RMI_FEATURES E) [index] h
      in (c_int (res_a0 res), res_a1 res, h))"

definition rmi_granule_delegate :: "host_env \<Rightarrow> u64 \<Rightarrow> host \<Rightarrow> int \<times> host" where
  "rmi_granule_delegate E phys h =
     (let (res, h) = arm_smccc_1_1_invoke E (SMC_RMI_GRANULE_DELEGATE E) [phys] h
      in (c_int (res_a0 res), h))"

definition rmi_granule_undelegate :: "host_env \<Rightarrow> u64 \<Rightarrow> host \<Rightarrow> int \<times> host" where
  "rmi_granule_undelegate E phys h =
     (let (res, h) = arm_smccc_1_1_invoke E (SMC_RMI_GRANULE_UNDELEGATE E) [phys] h
      in (c_int (res_a0 res), h))"

definition rmi_psci_complete :: "host_env \<Rightarrow> u64 \<Rightarrow> u64 \<Rightarrow> u64 \<Rightarrow> host \<Rightarrow> int \<times> host" where
  "rmi_psci_complete E calling_rec target_rec status h =
     (let (res, h) = arm_smccc_1_1_invoke E (SMC_RMI_PSCI_COMPLETE E) [calling_rec, target_rec, status] h
      in (c_int (res_a0 res), h))"

definition rmi_realm_activate :: "host_env \<Rightarrow> u64 \<Rightarrow> host \<Rightarrow> int \<times> host" where
  "rmi_realm_activate E rd h =
     (let (res, h) = arm_smccc_1_1_invoke E (SMC_RMI_REALM_ACTIVATE E) [rd] h
      in (c_int (res_a0 res), h))"

definition rmi_realm_create :: "host_env \<Rightarrow> u64 \<Rightarrow> u64 \<Rightarrow> host \<Rightarrow> int \<times> host" where
  "rmi_realm_create E rd params_ptr h =
     (let (res, h) = arm_smccc_1_1_invoke E (SMC_RMI_REALM_CREATE E) [rd, params_ptr] h
      in (c_int (res_a0 res), h))"

definition rmi_realm_destroy :: "host_env \<Rightarrow> u64 \<Rightarrow> host \<Rightarrow> int \<times> host" where
  "rmi_realm_destroy E rd h =
     (let (res, h) = arm_smccc_1_1_invoke E (SMC_RMI_REALM_DESTROY E) [rd] h
      in (c_int (res_a0 res), h))"

definition rmi_rec_aux_count :: "host_env \<Rightarrow> u64 \<Rightarrow> host \<Rightarrow> int \<times> u64 \<times> host" where
  "rmi_rec_aux_count E rd h =
     (let (res, h) = arm_smccc_1_1_invoke E (SMC_RMI_REC_AUX_COUNT E) [rd] h
      in (c_int (res_a0 res), res_a1 res, h))"

definition rmi_rec_create :: "host_env \<Rightarrow> u64 \<Rightarrow> u64 \<Rightarrow> u64 \<Rightarrow> host \<Rightarrow> int \<times> host" where
  "rmi_rec_create E rd rec params_ptr h =
     (let (res, h) = arm_smccc_1_1_invoke E (SMC_RMI_REC_CREATE E) [rd, rec, params_ptr] h
      in (c_int (res_a0 res), h))"

definition rmi_rec_destroy :: "host_env \<Rightarrow> u64 \<Rightarrow> host \<Rightarrow> int \<times> host" where
  "rmi_rec_destroy E rec h =
     (let (res, h) = arm_smccc_1_1_invoke E (SMC_RMI_REC_DESTROY E) [rec] h
      in (c_int (res_a0 res), h))"

definition rmi_rec_enter :: "host_env \<Rightarrow> u64 \<Rightarrow> u64 \<Rightarrow> host \<Rightarrow> int \<times> host" where
  "rmi_rec_enter E rec run_ptr h =
     (let (res, h) = arm_smccc_1_1_invoke E (SMC_RMI_REC_ENTER E) [rec, run_ptr] h
      in (c_int (res_a0 res), h))"

definition rmi_rtt_create :: "host_env \<Rightarrow> u64 \<Rightarrow> u64 \<Rightarrow> u64 \<Rightarrow> u64 \<Rightarrow> host \<Rightarrow> int \<times> host" where
  "rmi_rtt_create E rd rtt ipa level h =
     (let (res, h) = arm_smccc_1_1_invoke E (SMC_RMI_RTT_CREATE E) [rd, rtt, ipa, level] h
      in (c_int (res_a0 res), h))"

definition rmi_rtt_destroy :: "host_env \<Rightarrow> u64 \<Rightarrow> u64 \<Rightarrow> u64 \<Rightarrow> host \<Rightarrow> int \<times> u64 \<times> u64 \<times> host" where
  "rmi_rtt_destroy E rd ipa level h =
     (let (res, h) = arm_smccc_1_1_invoke E (SMC_RMI_RTT_DESTROY E) [rd, ipa, level] h
      in (c_int (res_a0 res), res_a1 res, res_a2 res, h))"

definition rmi_rtt_fold :: "host_env \<Rightarrow> u64 \<Rightarrow> u64 \<Rightarrow> u64 \<Rightarrow> host \<Rightarrow> int \<times> u64 \<times> host" where
  "rmi_rtt_fold E rd ipa level h =
     (let (res, h) = arm_smccc_1_1_invoke E (SMC_RMI_RTT_FOLD E) [rd, ipa, level] h
      in (c_int (res_a0 res), res_a1 res, h))"

definition rmi_rtt_init_ripas :: "host_env \<Rightarrow> u64 \<Rightarrow> u64 \<Rightarrow> u64 \<Rightarrow> host \<Rightarrow> int \<times> u64 \<times> host" where
  "rmi_rtt_init_ripas E rd base top_addr h =
     (let (res, h) = arm_smccc_1_1_invoke E (SMC_RMI_RTT_INIT_RIPAS E) [rd, base, top_addr] h
      in (c_int (res_a0 res), res_a1 res, h))"

definition rmi_rtt_map_unprotected :: "host_env \<Rightarrow> u64 \<Rightarrow> u64 \<Rightarrow> u64 \<Rightarrow> u64 \<Rightarrow> host \<Rightarrow> int \<times> host" where
  "rmi_rtt_map_unprotected E rd ipa level desc h =
     (let (res, h) = arm_smccc_1_1_invoke E (SMC_RMI_RTT_MAP_UNPROTECTED E) [rd, ipa, level, desc] h
      in (c_int (res_a0 res), h))"

definition rmi_rtt_read_entry :: "host_env \<Rightarrow> u64 \<Rightarrow> u64 \<Rightarrow> u64 \<Rightarrow> host \<Rightarrow> int \<times> rtt_entry \<times> host" where
  "rmi_rtt_read_entry E rd ipa level h =
     (let (res, h) = arm_smccc_1_1_invoke E (SMC_RMI_RTT_READ_ENTRY E) [rd, ipa, level] h
      in (c_int (res_a0 res), \<lparr>walk_level = res_a1 res, rtt_desc = res_a3 res, rtt_state = c_int (res_a2 res AND 0xFF), rtt_ripas = c_int (res_a4 res)\<rparr>, h))"

definition rmi_rtt_set_ripas :: "host_env \<Rightarrow> u64 \<Rightarrow> u64 \<Rightarrow> u64 \<Rightarrow> u64 \<Rightarrow> host \<Rightarrow> int \<times> u64 \<times> host" where
  "rmi_rtt_set_ripas E rd rec base top_addr h =
     (let (res, h) = arm_smccc_1_1_invoke E (SMC_RMI_RTT_SET_RIPAS E) [rd, rec, base, top_addr] h
      in (c_int (res_a0 res), res_a1 res, h))"

definition rmi_rtt_unmap_unprotected :: "host_env \<Rightarrow> u64 \<Rightarrow> u64 \<Rightarrow> u64 \<Rightarrow> host \<Rightarrow> int \<times> u64 \<times> host" where
  "rmi_rtt_unmap_unprotected E rd ipa level h =
     (let (res, h) = arm_smccc_1_1_invoke E (SMC_RMI_RTT_UNMAP_UNPROTECTED E) [rd, ipa, level] h
      in (c_int (res_a0 res), res_a1 res, h))"

definition rmi_ipa_block :: "host_env \<Rightarrow> u64 \<Rightarrow> u64 \<Rightarrow> host \<Rightarrow> int \<times> host" where
  "rmi_ipa_block E rd ipa h =
     (let (res, h) = arm_smccc_1_1_invoke E (SMC_RMI_IPA_BLOCK E) [rd, ipa] h
      in (c_int (res_a0 res), h))"

definition rmi_ipa_unblock :: "host_env \<Rightarrow> u64 \<Rightarrow> u64 \<Rightarrow> host \<Rightarrow> int \<times> host" where
  "rmi_ipa_unblock E rd ipa h =
     (let (res, h) = arm_smccc_1_1_invoke E (SMC_RMI_IPA_UNBLOCK E) [rd, ipa] h
      in (c_int (res_a0 res), h))"

definition rmi_rtt_get_phys :: "rtt_entry \<Rightarrow> u64" where
  "rmi_rtt_get_phys rtt = rtt_desc rtt AND 0xFFFFFFFFF000"

lemmas rmi_cmd_defs = 
  rmi_data_create_def
  rmi_data_create_unknown_def
  rmi_data_destroy_def
  rmi_features_def
  rmi_granule_delegate_def
  rmi_granule_undelegate_def
  rmi_psci_complete_def
  rmi_realm_activate_def
  rmi_realm_create_def
  rmi_realm_destroy_def
  rmi_rec_aux_count_def
  rmi_rec_create_def
  rmi_rec_destroy_def
  rmi_rec_enter_def
  rmi_rtt_create_def
  rmi_rtt_destroy_def
  rmi_rtt_fold_def
  rmi_rtt_init_ripas_def
  rmi_rtt_map_unprotected_def
  rmi_rtt_read_entry_def
  rmi_rtt_set_ripas_def
  rmi_rtt_unmap_unprotected_def
  rmi_ipa_block_def
  rmi_ipa_unblock_def

section \<open>Addresses\<close>

text \<open>A shift by a negative number or by the width is undefined in C; the levels used are 0 to 4.\<close>

definition rme_rtt_level_mapsize :: "int \<Rightarrow> host \<Rightarrow> u64 \<times> host" where
  "rme_rtt_level_mapsize level h =
     (if level > RME_RTT_MAX_LEVEL then (RME_PAGE_SIZE, emit Warn h)
      else (push_bit (nat (RME_RTT_LEVEL_SHIFT level)) 1, h))"

definition realm_is_addr_protected :: "realm \<Rightarrow> u64 \<Rightarrow> bool" where
  "realm_is_addr_protected realm addr \<longleftrightarrow>
     addr AND NOT (push_bit (unat (ia_bits realm - 1)) 1 - 1) = 0"

definition rd_phys :: "host_env \<Rightarrow> host \<Rightarrow> u64" where
  "rd_phys E h = virt_to_phys E (r_rd (realm_of h))"

definition get_start_level :: "host_env \<Rightarrow> realm \<Rightarrow> int" where
  "get_start_level E realm = 4 - stage2_pgtable_levels E (ia_bits realm)"

text \<open>The documented behaviour of the alignment macros of the kernel, for powers of two.\<close>

definition align_ok :: "host_env \<Rightarrow> bool" where
  "align_ok E \<longleftrightarrow> (\<forall>x k. k < 64 \<longrightarrow>
     ALIGN_DOWN E x (push_bit k 1) = x AND NOT (push_bit k 1 - 1) \<and>
     ALIGN E x (push_bit k 1) = (x + (push_bit k 1 - 1)) AND NOT (push_bit k 1 - 1) \<and>
     (IS_ALIGNED E x (push_bit k 1) \<longleftrightarrow> x AND (push_bit k 1 - 1) = 0))"

end
