(* ===== verification/Errno.thy ===== *)
theory Errno
  imports Main
begin

text \<open>Error numbers of the kernel, which the functions of the host return negated.\<close>

definition ENOENT :: int where "ENOENT = 2"
definition EIO :: int where "EIO = 5"
definition ENXIO :: int where "ENXIO = 6"
definition E2BIG :: int where "E2BIG = 7"
definition EAGAIN :: int where "EAGAIN = 11"
definition ENOMEM :: int where "ENOMEM = 12"
definition EFAULT :: int where "EFAULT = 14"
definition EBUSY :: int where "EBUSY = 16"
definition EEXIST :: int where "EEXIST = 17"
definition EINVAL :: int where "EINVAL = 22"
definition EOPNOTSUPP :: int where "EOPNOTSUPP = 95"
definition ERESTARTSYS :: int where "ERESTARTSYS = 512"

lemmas errno_defs = ENOENT_def EIO_def ENXIO_def E2BIG_def EAGAIN_def ENOMEM_def EFAULT_def EBUSY_def EEXIST_def
  EINVAL_def EOPNOTSUPP_def ERESTARTSYS_def

end
