(* ===== verification/Kvm_Pages.thy ===== *)
theory Kvm_Pages
  imports Kvm_Rmi Errno
begin

text \<open>
  Delegated pages and single translation tables in
  src/tetd_cca/linux/arch/arm64/kvm/rme.c: allocation with the spare page, the creation, folding
  and destruction of one table, and of the tables missing on the way to an address.
\<close>

section \<open>Pages of the kernel\<close>

text \<open>\<open>__get_free_page\<close>, \<open>alloc_page\<close> and \<open>kvm_mmu_memory_cache_alloc\<close>; \<open>free_page\<close> ignores a null pointer.\<close>

definition get_free_page :: "host_env \<Rightarrow> bool \<Rightarrow> host \<Rightarrow> u64 option \<times> host" where
  "get_free_page E mc h = (let p = answer_page E (hlog h) mc in (p, emit (Page_alloc mc p) h))"

definition free_page :: "host_env \<Rightarrow> u64 \<Rightarrow> host \<Rightarrow> host" where
  "free_page E virt h = (if virt = 0 then h else emit (Page_free (virt_to_phys E virt)) h)"

definition set_realm :: "(realm \<Rightarrow> realm) \<Rightarrow> host \<Rightarrow> host" where
  "set_realm f h = h\<lparr>realm_of := f (realm_of h)\<rparr>"

section \<open>Delegated pages\<close>

text \<open>\<open>__alloc_delegated_page\<close>; \<open>mc\<close> says whether a memory cache is given.\<close>

definition alloc_delegated_page_gfp :: "host_env \<Rightarrow> bool \<Rightarrow> host \<Rightarrow> u64 \<times> host" where
  "alloc_delegated_page_gfp E mc h =
     (if spare_page (realm_of h) \<noteq> PHYS_ADDR_MAX E
      then (spare_page (realm_of h), set_realm (\<lambda>r. r\<lparr>spare_page := PHYS_ADDR_MAX E\<rparr>) h)
      else
        let (page, h) = get_free_page E mc h
        in case page of
             None \<Rightarrow> (PHYS_ADDR_MAX E, h)
           | Some p \<Rightarrow>
               let virt = phys_to_virt E p;
                   phys = virt_to_phys E virt;
                   (ret, h) = rmi_granule_delegate E phys h
               in if ret \<noteq> 0 then (PHYS_ADDR_MAX E, free_page E virt h) else (phys, h))"

definition alloc_delegated_page :: "host_env \<Rightarrow> bool \<Rightarrow> host \<Rightarrow> u64 \<times> host" where
  "alloc_delegated_page E mc h = alloc_delegated_page_gfp E mc h"

definition free_delegated_page :: "host_env \<Rightarrow> u64 \<Rightarrow> host \<Rightarrow> host" where
  "free_delegated_page E phys h =
     (if spare_page (realm_of h) = PHYS_ADDR_MAX E then set_realm (\<lambda>r. r\<lparr>spare_page := phys\<rparr>) h
      else
        let (ret, h) = rmi_granule_undelegate E phys h;
            h = WARN_ON (ret \<noteq> 0) h
        in if ret \<noteq> 0 then h else free_page E (phys_to_virt E phys) h)"

definition ensure_spare_page :: "host_env \<Rightarrow> host \<Rightarrow> host" where
  "ensure_spare_page E h =
     (let (tmp_rtt, h) = alloc_delegated_page_gfp E False h
      in if tmp_rtt \<noteq> PHYS_ADDR_MAX E then free_delegated_page E tmp_rtt h else h)"

text \<open>The pattern of the error paths: a page that cannot be undelegated gets a reference and is lost.\<close>

definition undelegate_or_leak :: "host_env \<Rightarrow> u64 \<Rightarrow> host \<Rightarrow> host" where
  "undelegate_or_leak E phys h =
     (let (ret, h) = rmi_granule_undelegate E phys h;
          h = WARN_ON (ret \<noteq> 0) h
      in if ret \<noteq> 0 then emit (Page_get phys) h else h)"

section \<open>Tables\<close>

definition realm_psci_complete :: "host_env \<Rightarrow> u64 \<Rightarrow> u64 \<Rightarrow> u64 \<Rightarrow> host \<Rightarrow> int \<times> host" where
  "realm_psci_complete E calling_rec_page target_rec_page status h =
     (let (ret, h) = rmi_psci_complete E (virt_to_phys E calling_rec_page) (virt_to_phys E target_rec_page) status h
      in if ret \<noteq> 0 then (- EINVAL, h) else (0, h))"

definition realm_rtt_create :: "host_env \<Rightarrow> u64 \<Rightarrow> int \<Rightarrow> u64 \<Rightarrow> host \<Rightarrow> int \<times> host" where
  "realm_rtt_create E addr level phys h =
     (let (map_size, h) = rme_rtt_level_mapsize (level - 1) h;
          addr = ALIGN_DOWN E addr map_size
      in rmi_rtt_create E (rd_phys E h) phys addr (c_ulong level) h)"

text \<open>The granule is written only on success.\<close>

definition realm_rtt_fold :: "host_env \<Rightarrow> u64 \<Rightarrow> int \<Rightarrow> host \<Rightarrow> int \<times> u64 option \<times> host" where
  "realm_rtt_fold E addr level h =
     (let (ret, out_rtt, h) = rmi_rtt_fold E (rd_phys E h) addr (c_ulong level) h
      in (ret, if RMI_RETURN_STATUS ret = RMI_SUCCESS_host then Some out_rtt else None, h))"

definition realm_rtt_destroy :: "host_env \<Rightarrow> u64 \<Rightarrow> int \<Rightarrow> host \<Rightarrow> int \<times> u64 \<times> u64 \<times> host" where
  "realm_rtt_destroy E addr level h = rmi_rtt_destroy E (rd_phys E h) addr (c_ulong level) h"

fun create_rtt_levels_loop :: "host_env \<Rightarrow> u64 \<Rightarrow> bool \<Rightarrow> int list \<Rightarrow> host \<Rightarrow> int \<times> host" where
  "create_rtt_levels_loop E ipa mc [] h = (0, h)"
| "create_rtt_levels_loop E ipa mc (level # levels) h =
     (let (rtt, h) = alloc_delegated_page E mc h
      in if rtt = PHYS_ADDR_MAX E then (- ENOMEM, h)
         else
           let (ret, h) = realm_rtt_create E ipa level rtt h
           in if ret \<noteq> 0 then (- ENXIO, free_delegated_page E rtt h)
              else create_rtt_levels_loop E ipa mc levels h)"

definition realm_create_rtt_levels :: "host_env \<Rightarrow> u64 \<Rightarrow> int \<Rightarrow> int \<Rightarrow> bool \<Rightarrow> host \<Rightarrow> int \<times> host" where
  "realm_create_rtt_levels E ipa level max_level mc h =
     (let h = WARN_ON (level = max_level) h
      in if level = max_level then (0, h) else create_rtt_levels_loop E ipa mc [level + 1..max_level] h)"

definition fold_rtt :: "host_env \<Rightarrow> u64 \<Rightarrow> int \<Rightarrow> host \<Rightarrow> int \<times> host" where
  "fold_rtt E addr level h =
     (let (ret, rtt_addr, h) = realm_rtt_fold E addr (level + 1) h
      in if ret \<noteq> 0 then (ret, h) else (0, free_delegated_page E (the rtt_addr) h))"

end
