(* ===== verification/Kvm_Ranges.thy ===== *)
theory Kvm_Ranges
  imports Kvm_Pages
begin

text \<open>
  Ranges of addresses in src/tetd_cca/linux/arch/arm64/kvm/rme.c: destroying data, unmapping,
  tearing down and folding tables, and RIPAS changes. The loops follow addresses that the monitor
  returns, so none of them ends for every monitor. Each has fuel, one unit for an iteration or
  a call, and a run without enough of it gives the state it has reached.
\<close>

datatype 'a outcome = Out_of_fuel host | Returned 'a host

fun state_of :: "'a outcome \<Rightarrow> host" where
  "state_of (Out_of_fuel h) = h"
| "state_of (Returned x h) = h"

text \<open>Going on with the result of a call.\<close>

definition then_run :: "'a outcome \<Rightarrow> ('a \<Rightarrow> host \<Rightarrow> 'b outcome) \<Rightarrow> 'b outcome" where
  "then_run r f = (case r of Out_of_fuel h \<Rightarrow> Out_of_fuel h | Returned x h \<Rightarrow> f x h)"

lemma then_run_simps [simp]:
  "then_run (Out_of_fuel h) f = Out_of_fuel h" "then_run (Returned x h) f = f x h"
  by (simp_all add: then_run_def)

section \<open>Destroying data\<close>

fun destroy_undelegate_loop :: "host_env \<Rightarrow> u64 \<Rightarrow> nat \<Rightarrow> u64 \<Rightarrow> host \<Rightarrow> unit outcome" where
  "destroy_undelegate_loop E end_addr 0 ipa h = Out_of_fuel h"
| "destroy_undelegate_loop E end_addr (Suc fuel) ipa h =
     (if \<not> ipa < end_addr then Returned () h
      else
        let (ret, addr, top_addr, h) = rmi_data_destroy E (rd_phys E h) ipa h
        in if RMI_RETURN_STATUS ret = RMI_ERROR_RTT_host then
             if top_addr > ipa then destroy_undelegate_loop E end_addr fuel top_addr h
             else
               let (rtt, h) = alloc_delegated_page E False h;
                   h = WARN_ON (rtt = PHYS_ADDR_MAX E) h
               in if rtt = PHYS_ADDR_MAX E then Returned () h
                  else
                    let (ret, h) = realm_rtt_create E ipa (RMI_RETURN_INDEX ret + 1) rtt h;
                        h = WARN_ON (ret \<noteq> 0) h
                    in if ret \<noteq> 0 then Returned () (free_delegated_page E rtt h)
                       else destroy_undelegate_loop E end_addr fuel ipa h
           else
             let h = WARN_ON (ret \<noteq> 0) h
             in if ret \<noteq> 0 then Returned () h
                else destroy_undelegate_loop E end_addr fuel top_addr (undelegate_or_leak E addr h))"

definition realm_destroy_undelegate_range :: "host_env \<Rightarrow> nat \<Rightarrow> u64 \<Rightarrow> u64 \<Rightarrow> host \<Rightarrow> unit outcome" where
  "realm_destroy_undelegate_range E fuel ipa size_arg h = destroy_undelegate_loop E (ipa + size_arg) fuel ipa h"

section \<open>Unmapping unprotected addresses\<close>

fun realm_unmap_unprotected :: "host_env \<Rightarrow> nat \<Rightarrow> int \<Rightarrow> u64 \<Rightarrow> u64 \<Rightarrow> host \<Rightarrow> unit outcome"
  and unmap_unprotected_loop :: "host_env \<Rightarrow> nat \<Rightarrow> int \<Rightarrow> u64 \<Rightarrow> u64 \<Rightarrow> u64 \<Rightarrow> host \<Rightarrow> unit outcome" where
  "realm_unmap_unprotected E 0 level start end_addr h = Out_of_fuel h"
| "realm_unmap_unprotected E (Suc fuel) level start end_addr h =
     (let (map_size, h) = rme_rtt_level_mapsize level h;
          h = WARN_ON (level > RME_RTT_MAX_LEVEL) h
      in if level > RME_RTT_MAX_LEVEL then Returned () h
         else unmap_unprotected_loop E fuel level map_size start end_addr h)"
| "unmap_unprotected_loop E 0 level map_size addr end_addr h = Out_of_fuel h"
| "unmap_unprotected_loop E (Suc fuel) level map_size addr end_addr h =
     (if \<not> addr < end_addr then Returned () h
      else
        let align_addr = ALIGN E addr map_size;
            next_addr = ALIGN E (addr + 1) map_size
        in if align_addr = addr \<and> next_addr \<le> end_addr then
             let (ret, next_addr, h) = rmi_rtt_unmap_unprotected E (rd_phys E h) addr (c_ulong level) h
             in if RMI_RETURN_STATUS ret = RMI_SUCCESS_host then
                  unmap_unprotected_loop E fuel level map_size next_addr end_addr h
                else if RMI_RETURN_STATUS ret = RMI_ERROR_RTT_host then
                  if next_addr = addr then
                    let next_addr = ALIGN E (addr + 1) map_size
                    in then_run (realm_unmap_unprotected E fuel (level + 1) addr next_addr h)
                         (\<lambda>_ h. unmap_unprotected_loop E fuel level map_size next_addr end_addr h)
                  else unmap_unprotected_loop E fuel level map_size next_addr end_addr h
                else unmap_unprotected_loop E fuel level map_size next_addr end_addr (emit Warn h)
           else
             then_run (realm_unmap_unprotected E fuel (level + 1) addr (min next_addr end_addr) h)
               (\<lambda>_ h. unmap_unprotected_loop E fuel level map_size next_addr end_addr h))"

section \<open>Tearing tables down\<close>

text \<open>Giving a table back that the monitor has released: the page is leaked if it cannot be undelegated.\<close>

definition release_rtt :: "host_env \<Rightarrow> u64 \<Rightarrow> host \<Rightarrow> host" where
  "release_rtt E rtt_granule h =
     (let (ret, h) = rmi_granule_undelegate E rtt_granule h;
          h = WARN_ON (ret \<noteq> 0) h
      in if ret = 0 then free_page E (phys_to_virt E rtt_granule) h else h)"

fun realm_tear_down_rtt_level :: "host_env \<Rightarrow> nat \<Rightarrow> int \<Rightarrow> u64 \<Rightarrow> u64 \<Rightarrow> host \<Rightarrow> int outcome"
  and tear_down_loop :: "host_env \<Rightarrow> nat \<Rightarrow> int \<Rightarrow> u64 \<Rightarrow> u64 \<Rightarrow> u64 \<Rightarrow> host \<Rightarrow> int outcome" where
  "realm_tear_down_rtt_level E 0 level start end_addr h = Out_of_fuel h"
| "realm_tear_down_rtt_level E (Suc fuel) level start end_addr h =
     (let h = WARN_ON (level > RME_RTT_MAX_LEVEL) h
      in if level > RME_RTT_MAX_LEVEL then Returned (- EINVAL) h
         else
           let (map_size, h) = rme_rtt_level_mapsize (level - 1) h
           in tear_down_loop E fuel level map_size start end_addr h)"
| "tear_down_loop E 0 level map_size addr end_addr h = Out_of_fuel h"
| "tear_down_loop E (Suc fuel) level map_size addr end_addr h =
     (if \<not> addr < end_addr then Returned 0 h
      else
        let align_addr = ALIGN E addr map_size;
            next_addr = ALIGN E (addr + 1) map_size
        in if next_addr \<le> end_addr \<and> align_addr = addr then
             let (ret, rtt_granule, next_addr, h) = realm_rtt_destroy E addr level h
             in if RMI_RETURN_STATUS ret = RMI_SUCCESS_host then
                  tear_down_loop E fuel level map_size next_addr end_addr (release_rtt E rtt_granule h)
                else if RMI_RETURN_STATUS ret = RMI_ERROR_RTT_host then
                  if next_addr > addr then tear_down_loop E fuel level map_size next_addr end_addr h
                  else
                    let h = WARN_ON (RMI_RETURN_INDEX ret \<noteq> level) h
                    in if RMI_RETURN_INDEX ret \<noteq> level then Returned (- EBUSY) h
                       else
                         let h = WARN_ON (level = RME_RTT_MAX_LEVEL) h
                         in if level = RME_RTT_MAX_LEVEL then Returned (- EBUSY) h
                            else
                              let next_addr = ALIGN E (addr + 1) map_size
                              in then_run (realm_tear_down_rtt_level E fuel (level + 1) addr next_addr h)
                                   (\<lambda>ret h. if ret \<noteq> 0 then Returned ret h
                                            else tear_down_loop E fuel level map_size addr end_addr h)
                else Returned (- ENXIO) (emit Warn h)
           else
             then_run (realm_tear_down_rtt_level E fuel (level + 1) addr (min next_addr end_addr) h)
               (\<lambda>ret h. if ret \<noteq> 0 then Returned ret h
                        else tear_down_loop E fuel level map_size next_addr end_addr h))"

definition realm_tear_down_rtt_range :: "host_env \<Rightarrow> nat \<Rightarrow> u64 \<Rightarrow> u64 \<Rightarrow> host \<Rightarrow> int outcome" where
  "realm_tear_down_rtt_range E fuel start end_addr h =
     realm_tear_down_rtt_level E fuel (get_start_level E (realm_of h) + 1) start end_addr h"

section \<open>Folding tables\<close>

fun realm_fold_rtt_level :: "host_env \<Rightarrow> nat \<Rightarrow> int \<Rightarrow> u64 \<Rightarrow> u64 \<Rightarrow> host \<Rightarrow> int outcome"
  and fold_level_loop :: "host_env \<Rightarrow> nat \<Rightarrow> int \<Rightarrow> u64 \<Rightarrow> int \<Rightarrow> u64 \<Rightarrow> u64 \<Rightarrow> host \<Rightarrow> int outcome" where
  "realm_fold_rtt_level E 0 level start end_addr h = Out_of_fuel h"
| "realm_fold_rtt_level E (Suc fuel) level start end_addr h =
     (let h = WARN_ON (level > RME_RTT_MAX_LEVEL) h
      in if level > RME_RTT_MAX_LEVEL then Returned (- EINVAL) h
         else
           let (map_size, h) = rme_rtt_level_mapsize (level - 1) h
           in fold_level_loop E fuel level map_size 0 start end_addr h)"
| "fold_level_loop E 0 level map_size not_folded addr end_addr h = Out_of_fuel h"
| "fold_level_loop E (Suc fuel) level map_size not_folded addr end_addr h =
     (if \<not> addr < end_addr then Returned not_folded h
      else
        let align_addr = ALIGN E addr map_size;
            next_addr = ALIGN E (addr + 1) map_size;
            (ret, rtt_granule, h) = realm_rtt_fold E align_addr level h
        in if RMI_RETURN_STATUS ret = RMI_SUCCESS_host then
             fold_level_loop E fuel level map_size not_folded next_addr end_addr (release_rtt E (the rtt_granule) h)
           else if RMI_RETURN_STATUS ret = RMI_ERROR_RTT_host then
             if level = RME_RTT_MAX_LEVEL \<or> RMI_RETURN_INDEX ret < level
             then fold_level_loop E fuel level map_size (not_folded + 1) next_addr end_addr h
             else
               then_run (realm_fold_rtt_level E fuel (level + 1) addr next_addr h)
                 (\<lambda>ret h. if ret < 0 then Returned ret h
                          else if ret = 0 then fold_level_loop E fuel level map_size not_folded addr end_addr h
                          else fold_level_loop E fuel level map_size not_folded next_addr end_addr h)
           else Returned (- ENXIO) h)"

definition realm_fold_rtt_range :: "host_env \<Rightarrow> nat \<Rightarrow> u64 \<Rightarrow> u64 \<Rightarrow> host \<Rightarrow> int outcome" where
  "realm_fold_rtt_range E fuel start end_addr h =
     realm_fold_rtt_level E fuel (get_start_level E (realm_of h) + 1) start end_addr h"

section \<open>The realm's address space\<close>

text \<open>The return value of the tear-down is checked by \<open>WARN_ON\<close> only; \<open>ia_bits\<close> is a parameter there.\<close>

definition kvm_realm_destroy_rtts :: "host_env \<Rightarrow> nat \<Rightarrow> u32 \<Rightarrow> host \<Rightarrow> unit outcome" where
  "kvm_realm_destroy_rtts E fuel ia_bits_arg h =
     then_run (realm_tear_down_rtt_range E fuel 0 (push_bit (unat ia_bits_arg) 1) (ensure_spare_page E h))
       (\<lambda>ret h. Returned () (WARN_ON (ret \<noteq> 0) h))"

text \<open>\<open>pgt_ia_bits\<close> is \<open>kvm->arch.mmu.pgt->ia_bits\<close>.\<close>

definition kvm_realm_unmap_range :: "host_env \<Rightarrow> nat \<Rightarrow> u32 \<Rightarrow> u64 \<Rightarrow> u64 \<Rightarrow> host \<Rightarrow> unit outcome" where
  "kvm_realm_unmap_range E fuel pgt_ia_bits ipa size_arg h =
     (let end_addr = ipa + size_arg;
          end_addr = (if end_addr > push_bit (unat pgt_ia_bits) 1 then push_bit (unat pgt_ia_bits) 1 else end_addr);
          half = push_bit (unat (pgt_ia_bits - 1)) 1;
          h = ensure_spare_page E h
      in then_run
           (if realm_is_addr_protected (realm_of h) ipa
            then let psize = (if end_addr > half then half - ipa else size_arg)
                 in realm_destroy_undelegate_range E fuel ipa psize h
            else Returned () h)
           (\<lambda>_ h. then_run
              (if \<not> realm_is_addr_protected (realm_of h) (end_addr - 1)
               then realm_unmap_unprotected E fuel (RME_RTT_MAX_LEVEL - 1) (max ipa half) end_addr h
               else Returned () h)
              (\<lambda>_ h. then_run (realm_fold_rtt_range E fuel ipa end_addr h) (\<lambda>_ h. Returned () h))))"

section \<open>RIPAS of ranges\<close>

function find_map_level_loop :: "host_env \<Rightarrow> int \<Rightarrow> u64 \<Rightarrow> u64 \<Rightarrow> int \<Rightarrow> host \<Rightarrow> int \<times> host" where
  "find_map_level_loop E start_level start end_addr level h =
     (if level > start_level then
        let (map_size, h) = rme_rtt_level_mapsize (level - 1) h
        in if \<not> IS_ALIGNED E start map_size \<or> start + map_size > end_addr then (level, h)
           else find_map_level_loop E start_level start end_addr (level - 1) h
      else (level, h))"
  by pat_completeness auto
termination
  by (relation "measure (\<lambda>(E, start_level, start, end_addr, level, h). nat (level - start_level))") auto

declare find_map_level_loop.simps [simp del]

definition find_map_level :: "host_env \<Rightarrow> u64 \<Rightarrow> u64 \<Rightarrow> host \<Rightarrow> int \<times> host" where
  "find_map_level E start end_addr h =
     find_map_level_loop E (get_start_level E (realm_of h)) start end_addr RME_RTT_MAX_LEVEL h"

fun set_ipa_state_loop :: "host_env \<Rightarrow> u64 \<Rightarrow> u64 \<Rightarrow> nat \<Rightarrow> int \<Rightarrow> u64 \<Rightarrow> host \<Rightarrow> (int \<times> u64) outcome" where
  "set_ipa_state_loop E rec_phys end_addr 0 ret ipa h = Out_of_fuel h"
| "set_ipa_state_loop E rec_phys end_addr (Suc fuel) ret ipa h =
     (if \<not> ipa < end_addr then Returned (ret, ipa) h
      else
        let (ret, next_addr, h) = rmi_rtt_set_ripas E (rd_phys E h) rec_phys ipa end_addr h
        in if RMI_RETURN_STATUS ret = RMI_ERROR_RTT_host then
             let walk_level = RMI_RETURN_INDEX ret;
                 (level, h) = find_map_level E ipa end_addr h
             in if walk_level < level then
                  let (ret, h) = realm_create_rtt_levels E ipa walk_level level True h
                  in if ret = 0 then set_ipa_state_loop E rec_phys end_addr fuel ret ipa h
                     else Returned (ret, ipa) h
                else Returned (- EINVAL, ipa) h
           else if RMI_RETURN_STATUS ret \<noteq> RMI_SUCCESS_host then Returned (- EINVAL, ipa) (emit Warn h)
           else set_ipa_state_loop E rec_phys end_addr fuel ret next_addr h)"

text \<open>\<open>rec_va\<close> is \<open>vcpu->arch.rec.rec_page\<close>.\<close>

definition realm_set_ipa_state ::
  "host_env \<Rightarrow> nat \<Rightarrow> u32 \<Rightarrow> u64 \<Rightarrow> u64 \<Rightarrow> u64 \<Rightarrow> u64 \<Rightarrow> host \<Rightarrow> int outcome" where
  "realm_set_ipa_state E fuel pgt_ia_bits rec_va start end_addr ripas h =
     then_run (set_ipa_state_loop E (virt_to_phys E rec_va) end_addr fuel 0 start h)
       (\<lambda>(ret, ipa) h.
          if ripas = RMI_EMPTY \<and> ipa \<noteq> start
          then then_run (kvm_realm_unmap_range E fuel pgt_ia_bits start (ipa - start) h) (\<lambda>_ h. Returned ret h)
          else Returned ret h)"

fun realm_init_ipa_state :: "host_env \<Rightarrow> u64 \<Rightarrow> nat \<Rightarrow> u64 \<Rightarrow> host \<Rightarrow> int outcome" where
  "realm_init_ipa_state E end_addr 0 ipa h = Out_of_fuel h"
| "realm_init_ipa_state E end_addr (Suc fuel) ipa h =
     (if \<not> ipa < end_addr then Returned 0 h
      else
        let (ret, next_addr, h) = rmi_rtt_init_ripas E (rd_phys E h) ipa end_addr h
        in if RMI_RETURN_STATUS ret = RMI_ERROR_RTT_host then
             let err_level = RMI_RETURN_INDEX ret;
                 (level, h) = find_map_level E ipa end_addr h;
                 h = WARN_ON (err_level \<ge> level) h
             in if err_level \<ge> level then Returned (- ENXIO) h
                else
                  let (ret, h) = realm_create_rtt_levels E ipa err_level level False h
                  in if ret \<noteq> 0 then Returned ret h else realm_init_ipa_state E end_addr fuel ipa h
           else
             let h = WARN_ON (ret \<noteq> 0) h
             in if ret \<noteq> 0 then Returned (- ENXIO) h else realm_init_ipa_state E end_addr fuel next_addr h)"

end
