(* ===== verification/Kvm_Map.thy ===== *)
theory Kvm_Map
  imports Kvm_Ranges
begin

text \<open>
  Mapping pages into a realm in src/tetd_cca/linux/arch/arm64/kvm/rme.c: one page of initial
  content, a page or block of unknown content with its rollback, an unprotected mapping, and the
  population of a region. A loop over the pages of a mapping runs over their number.
\<close>

section \<open>A page with content\<close>

text \<open>Data creation that creates the missing tables once and tries again.\<close>

definition data_create_retry ::
  "host_env \<Rightarrow> u64 \<Rightarrow> u64 \<Rightarrow> u64 \<Rightarrow> u64 \<Rightarrow> host \<Rightarrow> int \<times> host" where
  "data_create_retry E dst_phys ipa tmp_phys flags h =
     (let (ret, h) = rmi_data_create E (rd_phys E h) dst_phys ipa tmp_phys flags h
      in if RMI_RETURN_STATUS ret = RMI_ERROR_RTT_host then
           let level = RMI_RETURN_INDEX ret;
               (ret, h) = realm_create_rtt_levels E ipa level RME_RTT_MAX_LEVEL False h
           in if ret \<noteq> 0 then (ret, h)
              else rmi_data_create E (rd_phys E h) dst_phys ipa tmp_phys flags h
         else (ret, h))"

definition realm_create_protected_data_page ::
  "host_env \<Rightarrow> u64 \<Rightarrow> u64 \<Rightarrow> u64 \<Rightarrow> u64 \<Rightarrow> host \<Rightarrow> int \<times> host" where
  "realm_create_protected_data_page E ipa dst_page tmp_page flags h =
     (let h = emit (Copy_page tmp_page dst_page) h;
          (ret, h) = rmi_granule_delegate E dst_page h
      in if ret \<noteq> 0 then (- ENXIO, h)
         else
           let (ret, h) = data_create_retry E dst_page ipa tmp_page flags h
           in if ret \<noteq> 0 then (- ENXIO, undelegate_or_leak E dst_page h) else (0, h))"

section \<open>A page or block of unknown content\<close>

text \<open>How the loop over the pages of a mapping ends: the two error labels, an early return of 0, or all pages done.\<close>

datatype map_exit = Map_done | Map_raced | Map_err_undelegate | Map_err

text \<open>\<open>done\<close> pages are mapped: the local \<open>size\<close> is \<open>done * PAGE_SIZE\<close>.\<close>

fun map_protected_loop ::
  "host_env \<Rightarrow> bool \<Rightarrow> nat \<Rightarrow> nat \<Rightarrow> u64 \<Rightarrow> u64 \<Rightarrow> host \<Rightarrow> (map_exit \<times> nat \<times> u64 \<times> u64) \<times> host" where
  "map_protected_loop E mc 0 done phys ipa h = ((Map_done, done, phys, ipa), h)"
| "map_protected_loop E mc (Suc n) done phys ipa h =
     (let (d, h) = rmi_granule_delegate E phys h
      in if d \<noteq> 0 then
           let (r, rtt, h) = rmi_rtt_read_entry E (rd_phys E h) ipa (c_ulong RME_RTT_MAX_LEVEL) h
           in if r \<noteq> 0 then ((Map_err, done, phys, ipa), h)
              else
                let differs = (walk_level rtt \<noteq> c_ulong RME_RTT_MAX_LEVEL \<or> rtt_state rtt \<noteq> RMI_ASSIGNED_host \<or>
                               rtt_desc rtt \<noteq> phys);
                    h = WARN_ON differs h
                in if differs then ((Map_err, done, phys, ipa), h) else ((Map_raced, done, phys, ipa), h)
         else
           let (ret, h) = rmi_data_create_unknown E (rd_phys E h) phys ipa h;
               (ret, failed, h) =
                 (if RMI_RETURN_STATUS ret = RMI_ERROR_RTT_host then
                    let level = RMI_RETURN_INDEX ret;
                        (ret, h) = realm_create_rtt_levels E ipa level RME_RTT_MAX_LEVEL mc h;
                        h = WARN_ON (ret \<noteq> 0) h
                    in if ret \<noteq> 0 then (ret, True, h)
                       else
                         let (ret, h) = rmi_data_create_unknown E (rd_phys E h) phys ipa h
                         in (ret, False, h)
                  else (ret, False, h))
           in if failed then ((Map_err_undelegate, done, phys, ipa), h)
              else
                let h = WARN_ON (ret \<noteq> 0) h
                in if ret \<noteq> 0 then ((Map_err_undelegate, done, phys, ipa), h)
                   else map_protected_loop E mc n (Suc done) (phys + PAGE_SIZE E) (ipa + PAGE_SIZE E) h)"

text \<open>The loop after the label \<open>err\<close>.\<close>

fun map_rollback_loop :: "host_env \<Rightarrow> nat \<Rightarrow> u64 \<Rightarrow> u64 \<Rightarrow> host \<Rightarrow> host" where
  "map_rollback_loop E 0 phys ipa h = h"
| "map_rollback_loop E (Suc done) phys ipa h =
     (let phys = phys - PAGE_SIZE E;
          ipa = ipa - PAGE_SIZE E;
          (ret, data, top_addr, h) = rmi_data_destroy E (rd_phys E h) ipa h;
          h = WARN_ON (ret \<noteq> 0) h
      in map_rollback_loop E done phys ipa (undelegate_or_leak E phys h))"

definition map_level_of :: "host_env \<Rightarrow> u64 \<Rightarrow> int option" where
  "map_level_of E map_size =
     (if map_size = PAGE_SIZE E then Some 3 else if map_size = RME_L2_BLOCK_SIZE then Some 2 else None)"

text \<open>The iterations of \<open>for (size = 0; size < map_size; size += PAGE_SIZE)\<close>.\<close>

definition pages_of :: "host_env \<Rightarrow> u64 \<Rightarrow> nat" where
  "pages_of E map_size = (unat map_size + unat (PAGE_SIZE E) - 1) div unat (PAGE_SIZE E)"

definition realm_map_protected ::
  "host_env \<Rightarrow> u64 \<Rightarrow> u64 \<Rightarrow> u64 \<Rightarrow> bool \<Rightarrow> host \<Rightarrow> int \<times> host" where
  "realm_map_protected E base_ipa dst_page map_size mc h =
     (let h = WARN_ON (\<not> IS_ALIGNED E base_ipa map_size) h
      in if \<not> IS_ALIGNED E base_ipa map_size then (- EINVAL, h)
         else
           (case map_level_of E map_size of
              None \<Rightarrow> (- EINVAL, h)
            | Some map_level \<Rightarrow>
                let h = (if map_level < RME_RTT_MAX_LEVEL
                         then snd (realm_create_rtt_levels E base_ipa map_level RME_RTT_MAX_LEVEL mc h) else h);
                    ((exit_at, done, phys, ipa), h) = map_protected_loop E mc (pages_of E map_size) 0 dst_page base_ipa h
                in case exit_at of
                     Map_raced \<Rightarrow> (0, h)
                   | Map_err_undelegate \<Rightarrow>
                       (- ENXIO, map_rollback_loop E done phys ipa (undelegate_or_leak E phys h))
                   | Map_err \<Rightarrow> (- ENXIO, map_rollback_loop E done phys ipa h)
                   | Map_done \<Rightarrow>
                       let (ret, h) = (if map_size = RME_L2_BLOCK_SIZE then fold_rtt E base_ipa map_level h else (0, h));
                           h = WARN_ON (ret \<noteq> 0) h
                       in if ret \<noteq> 0 then (- ENXIO, map_rollback_loop E done phys ipa h) else (0, h)))"

section \<open>An unprotected mapping\<close>

definition realm_map_non_secure :: "host_env \<Rightarrow> u64 \<Rightarrow> u64 \<Rightarrow> u64 \<Rightarrow> bool \<Rightarrow> host \<Rightarrow> int \<times> host" where
  "realm_map_non_secure E ipa page map_size mc h =
     (let s2tte = page OR PTE_S2_MEMATTR_NORMAL E OR push_bit 6 3 OR PTE_SHARED E;
          h = WARN_ON (\<not> IS_ALIGNED E ipa map_size) h
      in if \<not> IS_ALIGNED E ipa map_size then (- EINVAL, h)
         else
           (case map_level_of E map_size of
              None \<Rightarrow> (- EINVAL, h)
            | Some map_level \<Rightarrow>
                let (ret, h) = rmi_rtt_map_unprotected E (rd_phys E h) ipa (c_ulong map_level) s2tte h
                in if RMI_RETURN_STATUS ret = RMI_ERROR_RTT_host then
                     let level = RMI_RETURN_INDEX ret;
                         (ret, h) = realm_create_rtt_levels E ipa level map_level mc h;
                         h = WARN_ON (ret \<noteq> 0) h
                     in if ret \<noteq> 0 then (- ENXIO, h)
                        else
                          let (ret, h) = rmi_rtt_map_unprotected E (rd_phys E h) ipa (c_ulong map_level) s2tte h;
                              h = WARN_ON (ret \<noteq> 0) h
                          in if ret \<noteq> 0 then (- ENXIO, h) else (0, h)
                   else
                     let h = WARN_ON (ret \<noteq> 0) h
                     in if ret \<noteq> 0 then (- ENXIO, h) else (0, h)))"

section \<open>Populating a region\<close>

fun populate_pages_loop ::
  "host_env \<Rightarrow> nat \<Rightarrow> u64 \<Rightarrow> u64 \<Rightarrow> u64 \<Rightarrow> u64 \<Rightarrow> int \<Rightarrow> host \<Rightarrow> int \<times> host" where
  "populate_pages_loop E 0 page_ipa page tmp_page flags ret h = (ret, h)"
| "populate_pages_loop E (Suc n) page_ipa page tmp_page flags ret h =
     (if ret \<noteq> 0 then (ret, h)
      else
        let (ret, h) = realm_create_protected_data_page E page_ipa page tmp_page flags h
        in populate_pages_loop E n (page_ipa + PAGE_SIZE E) (page + PAGE_SIZE E) tmp_page flags ret h)"

text \<open>
  One iteration of the loop over the region: the status, and the next address when it is 0.
  Only the smallest mapping size is used, since the test for huge pages is \<open>&& 0\<close>.
\<close>

definition populate_step ::
  "host_env \<Rightarrow> memslot \<Rightarrow> u64 \<Rightarrow> u64 \<Rightarrow> u64 \<Rightarrow> host \<Rightarrow> (int \<times> u64) \<times> host" where
  "populate_step E memslot tmp_page data_flags ipa h =
     (let hva = gfn_to_hva_memslot E memslot (gpa_to_gfn E ipa)
      in if \<not> vma_lookup E hva then ((- EFAULT, ipa), h)
         else
           let map_size = push_bit (PAGE_SHIFT E) 1;
               ipa = ALIGN_DOWN E ipa map_size;
               (level, ret, h) =
                 (if map_size = RME_L2_BLOCK_SIZE then (2, 0, h)
                  else if map_size = PAGE_SIZE E then (3, 0, h)
                  else (uninitialised_level E, - EFAULT, emit Warn h))
           in case answer_pfn E (hlog h) (gpa_to_gfn E ipa) of
                None \<Rightarrow> ((- EFAULT, ipa), h)
              | Some page \<Rightarrow>
                  let h = (if level < RME_RTT_MAX_LEVEL
                           then snd (realm_create_rtt_levels E ipa level RME_RTT_MAX_LEVEL False h) else h);
                      (ret, h) = populate_pages_loop E (pages_of E map_size) ipa page tmp_page data_flags ret h;
                      (ret, h) = (if ret = 0 \<and> level = 2 then fold_rtt E ipa level h else (ret, h))
                  in if ret \<noteq> 0 then ((ret, ipa), emit (Release_pfn page False) h)
                     else ((0, ipa + map_size), emit (Release_pfn page True) h))"

fun populate_loop ::
  "host_env \<Rightarrow> memslot \<Rightarrow> u64 \<Rightarrow> u64 \<Rightarrow> u64 \<Rightarrow> nat \<Rightarrow> u64 \<Rightarrow> host \<Rightarrow> int outcome" where
  "populate_loop E memslot tmp_page data_flags ipa_end 0 ipa h = Out_of_fuel h"
| "populate_loop E memslot tmp_page data_flags ipa_end (Suc fuel) ipa h =
     (if \<not> ipa < ipa_end then Returned 0 h
      else
        let ((ret, ipa), h) = populate_step E memslot tmp_page data_flags ipa h
        in if ret \<noteq> 0 then Returned ret h
           else populate_loop E memslot tmp_page data_flags ipa_end fuel ipa h)"

definition populate_par_region :: "host_env \<Rightarrow> nat \<Rightarrow> u64 \<Rightarrow> u64 \<Rightarrow> u32 \<Rightarrow> host \<Rightarrow> int outcome" where
  "populate_par_region E fuel ipa_base ipa_end flags h =
     (let base = gpa_to_gfn E ipa_base;
          end_gfn = gpa_to_gfn E ipa_end;
          data_flags = (if flags AND POPULATE_FLAGS_MEASURE E \<noteq> 0 then RMI_MEASURE_CONTENT_host else 0)
      in case gfn_to_memslot E base of
           None \<Rightarrow> Returned (- EFAULT) h
         | Some memslot \<Rightarrow>
             if base_gfn memslot + npages memslot < end_gfn then Returned (- EINVAL) h
             else
               let (page, h) = get_free_page E False h
               in case page of
                    None \<Rightarrow> Returned (- ENOMEM) h
                  | Some tmp_page \<Rightarrow>
                      then_run (populate_loop E memslot tmp_page data_flags ipa_end fuel ipa_base h)
                        (\<lambda>ret h. Returned ret (emit (Page_free tmp_page) h)))"

definition kvm_populate_realm :: "host_env \<Rightarrow> nat \<Rightarrow> u64 \<Rightarrow> u64 \<Rightarrow> u32 \<Rightarrow> host \<Rightarrow> int outcome" where
  "kvm_populate_realm E fuel ipa_base ipa_size flags h =
     (if r_state (realm_of h) \<noteq> REALM_STATE_NEW then Returned (- EINVAL) h
      else if \<not> IS_ALIGNED E ipa_base (PAGE_SIZE E) \<or> \<not> IS_ALIGNED E ipa_size (PAGE_SIZE E)
      then Returned (- EINVAL) h
      else if flags AND NOT (ucast RMI_MEASURE_CONTENT_host) \<noteq> 0 then Returned (- EINVAL) h
      else
        let ipa_end = ipa_base + ipa_size
        in if ipa_end < ipa_base then Returned (- EINVAL) h
           else populate_par_region E fuel ipa_base ipa_end flags h)"

end
