(* ===== verification/Kvm_Invariant.thy ===== *)
theory Kvm_Invariant
  imports Kvm_Map
begin

text \<open>
  What the operations on tables, ranges and mappings keep of the host's state, for every answer of the
  monitor and any fuel: the interface of an invariant of the host, and that every operation of
  Kvm_Pages, Kvm_Ranges and Kvm_Map preserves one.
\<close>

section \<open>The interface\<close>

text \<open>Events other than calls of the monitor and the allocation and freeing of pages.\<close>

fun quiet :: "hevent \<Rightarrow> bool" where
  "quiet (Smc fid args res) = False"
| "quiet (Page_alloc mc p) = False"
| "quiet (Page_free p) = False"
| "quiet _ = True"

text \<open>
  The calls that change tables and mappings in any state of the realm, and those that only a realm
  under construction allows.
\<close>

definition table_calls :: "host_env \<Rightarrow> u32 set" where
  "table_calls E = {SMC_RMI_GRANULE_UNDELEGATE E, SMC_RMI_RTT_CREATE E, SMC_RMI_RTT_DESTROY E, SMC_RMI_RTT_FOLD E,
     SMC_RMI_DATA_CREATE_UNKNOWN E, SMC_RMI_DATA_DESTROY E, SMC_RMI_RTT_MAP_UNPROTECTED E,
     SMC_RMI_RTT_UNMAP_UNPROTECTED E, SMC_RMI_RTT_READ_ENTRY E, SMC_RMI_RTT_SET_RIPAS E}"

definition populate_calls :: "host_env \<Rightarrow> u32 set" where
  "populate_calls E = {SMC_RMI_DATA_CREATE E, SMC_RMI_RTT_INIT_RIPAS E}"

text \<open>
  \<open>T\<close> are pages that are not delegated while the invariant holds; the delegations of single pages are
  assumed for the others only. The last law says that the pages of the guest are not among them.
\<close>

locale host_invariant =
  fixes E :: host_env
    and T :: "u64 set"
    and I :: "host \<Rightarrow> bool"
  assumes quiet: "I h \<Longrightarrow> quiet e \<Longrightarrow> I (emit e h)"
    and smc: "I h \<Longrightarrow> fid \<in> table_calls E \<Longrightarrow> I (emit (Smc fid args res) h)"
    and delegate: "I h \<Longrightarrow> p \<notin> T \<Longrightarrow> I (snd (rmi_granule_delegate E p h))"
    and alloc: "I h \<Longrightarrow> I (snd (alloc_delegated_page_gfp E mc h))"
    and free_delegated: "I h \<Longrightarrow> I (free_delegated_page E p h)"
    and release: "I h \<Longrightarrow> I (release_rtt E p h)"
begin

text \<open>
  A run is followed forward: the rules \<open>run\<close> take apart a function that gives an outcome,
  the rules \<open>val\<close> one that gives a value and a state.
\<close>

lemma run2: "I (snd m) \<Longrightarrow> (\<And>a h. I h \<Longrightarrow> I (state_of (f a h))) \<Longrightarrow> I (state_of (case m of (a, h) \<Rightarrow> f a h))"
  by (cases m) simp

lemma run3: "I (snd (snd m)) \<Longrightarrow> (\<And>a b h. I h \<Longrightarrow> I (state_of (f a b h))) \<Longrightarrow>
    I (state_of (case m of (a, b, h) \<Rightarrow> f a b h))"
  by (cases m) simp

lemma run4: "I (snd (snd (snd m))) \<Longrightarrow> (\<And>a b c h. I h \<Longrightarrow> I (state_of (f a b c h))) \<Longrightarrow>
    I (state_of (case m of (a, b, c, h) \<Rightarrow> f a b c h))"
  by (cases m) simp

lemma run_if: "I (state_of x) \<Longrightarrow> I (state_of y) \<Longrightarrow> I (state_of (if c then x else y))"
  by simp

lemma run_end: "I h \<Longrightarrow> I (state_of (Out_of_fuel h))" "I h \<Longrightarrow> I (state_of (Returned x h))"
  by simp_all

lemma after: "I (state_of r) \<Longrightarrow> (\<And>x h. I h \<Longrightarrow> I (state_of (f x h))) \<Longrightarrow> I (state_of (then_run r f))"
  by (cases r) simp_all

lemma val2: "I (snd m) \<Longrightarrow> (\<And>a h. I h \<Longrightarrow> I (snd (f a h))) \<Longrightarrow> I (snd (case m of (a, h) \<Rightarrow> f a h))"
  by (cases m) simp

lemma val3: "I (snd (snd m)) \<Longrightarrow> (\<And>a b h. I h \<Longrightarrow> I (snd (f a b h))) \<Longrightarrow> I (snd (case m of (a, b, h) \<Rightarrow> f a b h))"
  by (cases m) simp

lemma val_if: "I (snd x) \<Longrightarrow> I (snd y) \<Longrightarrow> I (snd (if c then x else y))"
  by simp

lemma val_end: "I h \<Longrightarrow> I (snd (x, h))"
  by simp

lemma tri2: "I (snd m) \<Longrightarrow> (\<And>a h. I h \<Longrightarrow> I (snd (snd (f a h)))) \<Longrightarrow> I (snd (snd (case m of (a, h) \<Rightarrow> f a h)))"
  by (cases m) simp

lemma tri_if: "I (snd (snd x)) \<Longrightarrow> I (snd (snd y)) \<Longrightarrow> I (snd (snd (if c then x else y)))"
  by simp

lemma tri_end: "I h \<Longrightarrow> I (snd (snd (x, y, h)))"
  by simp

lemmas tris = tri2 tri_if tri_end

lemma upd_if: "I x \<Longrightarrow> I y \<Longrightarrow> I (if c then x else y)"
  by simp

lemma run_nest: "(\<And>a b. I (state_of (f a b h))) \<Longrightarrow> I (state_of ((case x of (a, b) \<Rightarrow> f a b) h))"
  by (cases x) simp

lemma val_nest: "(\<And>a b. I (snd (f a b h))) \<Longrightarrow> I (snd ((case x of (a, b) \<Rightarrow> f a b) h))"
  by (cases x) simp

lemma warn: "I h \<Longrightarrow> I (emit Warn h)" and page_get: "I h \<Longrightarrow> I (emit (Page_get p) h)"
  by (simp_all add: quiet)

lemma warn_on: "I h \<Longrightarrow> I (WARN_ON c h)"
  by (simp add: WARN_ON_def warn)

lemma invoke: "I h \<Longrightarrow> fid \<in> table_calls E \<Longrightarrow> I (snd (arm_smccc_1_1_invoke E fid args h))"
  by (simp add: arm_smccc_1_1_invoke_def Let_def smc)

lemma invoked:
  "arm_smccc_1_1_invoke E fid args h = (res, h') \<Longrightarrow> I h \<Longrightarrow> fid \<in> table_calls E \<Longrightarrow> I h'"
  using invoke [of h fid args] by simp

lemma mapsize: "I h \<Longrightarrow> I (snd (rme_rtt_level_mapsize l h))"
  by (simp add: rme_rtt_level_mapsize_def warn)

lemma commands:
  "I h \<Longrightarrow> I (snd (rmi_rtt_create E a b c d h))" "I h \<Longrightarrow> I (snd (rmi_granule_undelegate E p h))"
  "I h \<Longrightarrow> I (snd (rmi_data_create_unknown E a b c h))" "I h \<Longrightarrow> I (snd (rmi_rtt_map_unprotected E a b c d h))"
  "I h \<Longrightarrow> I (snd (snd (rmi_rtt_fold E a b c h)))" "I h \<Longrightarrow> I (snd (snd (rmi_rtt_unmap_unprotected E a b c h)))"
  "I h \<Longrightarrow> I (snd (snd (rmi_rtt_set_ripas E a b c d h)))" "I h \<Longrightarrow> I (snd (snd (rmi_rtt_read_entry E a b c h)))"
  "I h \<Longrightarrow> I (snd (snd (snd (rmi_rtt_destroy E a b c h))))" "I h \<Longrightarrow> I (snd (snd (snd (rmi_data_destroy E a b h))))"
  by (simp_all add: rmi_cmd_defs Let_def split: prod.split) (auto dest!: invoked simp: table_calls_def)

lemma rtt_create: "I h \<Longrightarrow> I (snd (realm_rtt_create E addr level phys h))"
  unfolding realm_rtt_create_def Let_def by (intro val2 mapsize commands)

lemma rtt_fold: "I h \<Longrightarrow> I (snd (snd (realm_rtt_fold E addr level h)))"
  using commands(5) [of h] by (simp add: realm_rtt_fold_def Let_def split_beta)

lemma rtt_destroy: "I h \<Longrightarrow> I (snd (snd (snd (realm_rtt_destroy E addr level h))))"
  unfolding realm_rtt_destroy_def by (rule commands)

lemma alloc_page: "I h \<Longrightarrow> I (snd (alloc_delegated_page E mc h))"
  by (simp add: alloc_delegated_page_def alloc)

lemma leak: "I h \<Longrightarrow> I (undelegate_or_leak E p h)"
  using commands(2) [of h p] by (simp add: undelegate_or_leak_def Let_def split_beta warn_on page_get)

lemmas upds = warn warn_on leak free_delegated release page_get upd_if mapsize commands rtt_create rtt_fold rtt_destroy
  alloc_page alloc
lemmas vals = val2 val3 val_nest val_if val_end upds
lemmas runs = run2 run3 run4 run_nest run_if run_end upds

section \<open>Tables\<close>

lemma ensure_spare: "I h \<Longrightarrow> I (ensure_spare_page E h)"
  using alloc [of h False] by (simp add: ensure_spare_page_def Let_def split_beta free_delegated)

lemma create_levels_loop: "I h \<Longrightarrow> I (snd (create_rtt_levels_loop E ipa mc levels h))"
proof (induction levels arbitrary: h)
  case (Cons level levels)
  then show ?case unfolding create_rtt_levels_loop.simps Let_def by (intro vals Cons.IH)
qed simp

lemma create_levels: "I h \<Longrightarrow> I (snd (realm_create_rtt_levels E ipa level max_level mc h))"
  unfolding realm_create_rtt_levels_def Let_def by (intro vals create_levels_loop)

lemma fold_one: "I h \<Longrightarrow> I (snd (fold_rtt E addr level h))"
  unfolding fold_rtt_def Let_def by (intro vals)

section \<open>Ranges\<close>

lemma destroy_loop: "I h \<Longrightarrow> I (state_of (destroy_undelegate_loop E end_addr fuel ipa h))"
proof (induction fuel arbitrary: ipa h)
  case (Suc fuel)
  then show ?case unfolding destroy_undelegate_loop.simps Let_def by (intro runs Suc.IH)
qed simp

lemma destroy_range: "I h \<Longrightarrow> I (state_of (realm_destroy_undelegate_range E fuel ipa size_arg h))"
  by (simp add: realm_destroy_undelegate_range_def destroy_loop)

lemma unmap_unprotected:
  "I h \<Longrightarrow> I (state_of (realm_unmap_unprotected E fuel level start end_addr h))"
  "I h \<Longrightarrow> I (state_of (unmap_unprotected_loop E fuel level map_size addr end_addr h))"
proof (induction fuel arbitrary: level start end_addr h map_size addr)
  case (Suc fuel)
  { case 1 then show ?case unfolding realm_unmap_unprotected.simps Let_def by (intro runs Suc.IH(2)) }
  { case 2 then show ?case unfolding unmap_unprotected_loop.simps Let_def by (intro runs after Suc.IH) }
qed simp_all

lemma tear_down:
  "I h \<Longrightarrow> I (state_of (realm_tear_down_rtt_level E fuel level start end_addr h))"
  "I h \<Longrightarrow> I (state_of (tear_down_loop E fuel level map_size addr end_addr h))"
proof (induction fuel arbitrary: level start end_addr h map_size addr)
  case (Suc fuel)
  { case 1 then show ?case unfolding realm_tear_down_rtt_level.simps Let_def by (intro runs Suc.IH(2)) }
  { case 2 then show ?case unfolding tear_down_loop.simps Let_def by (intro runs after Suc.IH) }
qed simp_all

lemma fold_level:
  "I h \<Longrightarrow> I (state_of (realm_fold_rtt_level E fuel level start end_addr h))"
  "I h \<Longrightarrow> I (state_of (fold_level_loop E fuel level map_size not_folded addr end_addr h))"
proof (induction fuel arbitrary: level start end_addr h map_size not_folded addr)
  case (Suc fuel)
  { case 1 then show ?case unfolding realm_fold_rtt_level.simps Let_def by (intro runs Suc.IH(2)) }
  { case 2 then show ?case unfolding fold_level_loop.simps Let_def by (intro runs after Suc.IH) }
qed simp_all

lemma destroy_rtts: "I h \<Longrightarrow> I (state_of (kvm_realm_destroy_rtts E fuel bits h))"
  unfolding kvm_realm_destroy_rtts_def realm_tear_down_rtt_range_def by (intro after tear_down ensure_spare runs)

lemma unmap_range: "I h \<Longrightarrow> I (state_of (kvm_realm_unmap_range E fuel bits ipa size_arg h))"
  unfolding kvm_realm_unmap_range_def Let_def realm_fold_rtt_range_def
  by (intro after ensure_spare destroy_range unmap_unprotected fold_level runs)

section \<open>RIPAS\<close>

lemma find_level_loop: "I h \<Longrightarrow> I (snd (find_map_level_loop E l0 start end_addr level h))"
proof (induction "nat (level - l0)" arbitrary: level h rule: less_induct)
  case less
  show ?case
  proof (cases "level > l0")
    case True
    then have "I h' \<Longrightarrow> I (snd (find_map_level_loop E l0 start end_addr (level - 1) h'))" for h'
      by (intro less.hyps) auto
    then show ?thesis
      unfolding find_map_level_loop.simps [of E l0 start end_addr level h] Let_def by (intro vals less.prems)
  next
    case False
    then show ?thesis using less.prems by (simp add: find_map_level_loop.simps)
  qed
qed

lemma find_level: "I h \<Longrightarrow> I (snd (find_map_level E start end_addr h))"
  by (simp add: find_map_level_def find_level_loop)

lemma set_ipa_loop: "I h \<Longrightarrow> I (state_of (set_ipa_state_loop E rec_phys end_addr fuel ret ipa h))"
proof (induction fuel arbitrary: ret ipa h)
  case (Suc fuel)
  then show ?case unfolding set_ipa_state_loop.simps Let_def by (intro runs find_level create_levels Suc.IH)
qed simp

lemma set_ipa: "I h \<Longrightarrow> I (state_of (realm_set_ipa_state E fuel bits rec_va start end_addr ripas h))"
  unfolding realm_set_ipa_state_def
proof (rule after [OF set_ipa_loop], assumption)
  fix x and h :: host assume "I h"
  then show "I (state_of ((\<lambda>(ret, ipa) h. if ripas = RMI_EMPTY \<and> ipa \<noteq> start
      then then_run (kvm_realm_unmap_range E fuel bits start (ipa - start) h) (\<lambda>_ h. Returned ret h)
      else Returned ret h) x h))"
    by (cases x) (auto intro!: after unmap_range)
qed

section \<open>Mappings\<close>

lemma map_loop:
  assumes "\<And>k. k < n \<Longrightarrow> phys + of_nat k * PAGE_SIZE E \<notin> T" "I h"
  shows "I (snd (map_protected_loop E mc n done phys ipa h))"
  using assms
proof (induction n arbitrary: "done" phys ipa h)
  case (Suc n)
  have d: "I h' \<Longrightarrow> I (snd (rmi_granule_delegate E phys h'))" for h'
    using Suc.prems(1) [of 0] by (intro delegate) simp_all
  have next_ok: "I h' \<Longrightarrow> I (snd (map_protected_loop E mc n d' (phys + PAGE_SIZE E) i' h'))" for h' d' i'
  proof (rule Suc.IH)
    fix k assume "k < n"
    then show "phys + PAGE_SIZE E + of_nat k * PAGE_SIZE E \<notin> T"
      using Suc.prems(1) [of "Suc k"] by (simp add: algebra_simps)
  qed
  show ?case unfolding map_protected_loop.simps Let_def
    by (intro vals tris d next_ok create_levels Suc.prems(2))
qed simp

lemma rollback: "I h \<Longrightarrow> I (map_rollback_loop E done phys ipa h)"
proof (induction "done" arbitrary: phys ipa h)
  case (Suc n)
  have "I (snd (snd (snd (rmi_data_destroy E (rd_phys E h) (ipa - PAGE_SIZE E) h))))"
    by (rule commands) (rule Suc.prems)
  then show ?case by (simp add: Let_def split_beta) (intro Suc.IH leak warn_on)
qed simp

lemma map_protected:
  assumes "\<And>k. k < pages_of E map_size \<Longrightarrow> dst + of_nat k * PAGE_SIZE E \<notin> T" "I h"
  shows "I (snd (realm_map_protected E ipa dst map_size mc h))"
proof -
  have l: "I h' \<Longrightarrow> I (snd (map_protected_loop E mc (pages_of E map_size) 0 dst ipa h'))" for h'
    by (rule map_loop [OF assms(1)])
  show ?thesis unfolding realm_map_protected_def Let_def
    by (auto intro!: vals l create_levels fold_one rollback assms(2) split: option.split map_exit.split)
qed

lemma map_non_secure: "I h \<Longrightarrow> I (snd (realm_map_non_secure E ipa page map_size mc h))"
  unfolding realm_map_non_secure_def Let_def by (auto intro!: vals create_levels split: option.split)

end

section \<open>A realm under construction\<close>

text \<open>
  An invariant that the calls for a realm under construction preserve too; the last law says that
  the pages of the guest are not among \<open>T\<close>.
\<close>

locale new_realm_invariant = host_invariant +
  assumes new_smc: "I h \<Longrightarrow> fid \<in> populate_calls E \<Longrightarrow> I (emit (Smc fid args res) h)"
    and pfn: "I h \<Longrightarrow> answer_pfn E (hlog h) g = Some p \<Longrightarrow> k < pages_of E (push_bit (PAGE_SHIFT E) 1) \<Longrightarrow>
        p + of_nat k * PAGE_SIZE E \<notin> T"
begin

lemma new_commands:
  "I h \<Longrightarrow> I (snd (rmi_data_create E a b c d e h))" "I h \<Longrightarrow> I (snd (snd (rmi_rtt_init_ripas E a b c h)))"
  by (simp_all add: rmi_cmd_defs arm_smccc_1_1_invoke_def Let_def new_smc populate_calls_def)

lemma init_ipa: "I h \<Longrightarrow> I (state_of (realm_init_ipa_state E end_addr fuel ipa h))"
proof (induction fuel arbitrary: ipa h)
  case (Suc fuel)
  then show ?case unfolding realm_init_ipa_state.simps Let_def by (intro runs new_commands find_level create_levels Suc.IH)
qed simp

lemma create_retry: "I h \<Longrightarrow> I (snd (data_create_retry E dst ipa tmp flags h))"
  unfolding data_create_retry_def Let_def by (intro vals new_commands create_levels)

lemma create_data:
  assumes "dst \<notin> T" "I h"
  shows "I (snd (realm_create_protected_data_page E ipa dst tmp flags h))"
proof -
  have d: "I h' \<Longrightarrow> I (snd (rmi_granule_delegate E dst h'))" for h' by (rule delegate [OF _ assms(1)])
  have c: "I (emit (Copy_page tmp dst) h)" by (rule quiet [OF assms(2)]) simp
  show ?thesis unfolding realm_create_protected_data_page_def Let_def by (intro vals create_retry d c)
qed

lemma populate_pages:
  assumes "\<And>k. k < n \<Longrightarrow> page + of_nat k * PAGE_SIZE E \<notin> T" "I h"
  shows "I (snd (populate_pages_loop E n ipa page tmp flags ret h))"
  using assms
proof (induction n arbitrary: page ipa ret h)
  case (Suc n)
  have d: "I h' \<Longrightarrow> I (snd (realm_create_protected_data_page E ipa page tmp flags h'))" for h'
    using Suc.prems(1) [of 0] by (intro create_data) simp_all
  have next_ok: "I h' \<Longrightarrow> I (snd (populate_pages_loop E n i' (page + PAGE_SIZE E) tmp flags r' h'))" for h' i' r'
  proof (rule Suc.IH)
    fix k assume "k < n"
    then show "page + PAGE_SIZE E + of_nat k * PAGE_SIZE E \<notin> T"
      using Suc.prems(1) [of "Suc k"] by (simp add: algebra_simps)
  qed
  show ?case unfolding populate_pages_loop.simps Let_def by (intro vals d next_ok Suc.prems(2))
qed simp

lemma val_pfn:
  "I h \<Longrightarrow> I (snd x) \<Longrightarrow>
   (\<And>p. \<forall>k < pages_of E (push_bit (PAGE_SHIFT E) 1). p + of_nat k * PAGE_SIZE E \<notin> T \<Longrightarrow> I (snd (f p))) \<Longrightarrow>
   I (snd (case answer_pfn E (hlog h) g of None \<Rightarrow> x | Some p \<Rightarrow> f p))"
  using pfn [of h g] by (auto split: option.split)

lemma populate_one: "I h \<Longrightarrow> I (snd (populate_step E slot tmp flags ipa h))"
proof -
  assume I: "I h"
  have p: "\<forall>k < n. page + of_nat k * PAGE_SIZE E \<notin> T \<Longrightarrow> I h' \<Longrightarrow>
      I (snd (populate_pages_loop E n i' page tmp flags r h'))" for n page i' r h'
    by (rule populate_pages) auto
  have q: "I h' \<Longrightarrow> I (emit (Release_pfn p d) h')" for h' p d by (rule quiet) simp_all
  show "I (snd (populate_step E slot tmp flags ipa h))"
    unfolding populate_step_def Let_def
    by (intro val_pfn vals val3 tris p q create_levels fold_one I)
qed

lemma populate_range: "I h \<Longrightarrow> I (state_of (populate_loop E slot tmp flags ipa_end fuel ipa h))"
proof (induction fuel arbitrary: ipa h)
  case (Suc fuel)
  then show ?case unfolding populate_loop.simps Let_def by (intro runs populate_one Suc.IH)
qed simp

end

end
