(* ===== verification/Kvm_Config.thy ===== *)
theory Kvm_Config
  imports Kvm_Pages
begin

text \<open>
  The configuration of a realm in src/tetd_cca/linux/arch/arm64/kvm/rme.c: the version and the feature
  register of the monitor, the bitmap of VMIDs and the parameters that user space sets before the
  realm descriptor is created.
\<close>

section \<open>The monitor's features\<close>

definition rme_supports :: "host_env \<Rightarrow> host \<Rightarrow> u64 \<Rightarrow> bool" where
  "rme_supports E h feature \<longleftrightarrow> u64_get_bits E (rmm_feat_reg0 h) feature \<noteq> 0"

definition kvm_rme_supports_sve :: "host_env \<Rightarrow> host \<Rightarrow> bool" where
  "kvm_rme_supports_sve E h = rme_supports E h RMI_FEATURE_REGISTER_0_SVE_EN"

definition kvm_realm_ipa_limit :: "host_env \<Rightarrow> host \<Rightarrow> u32" where
  "kvm_realm_ipa_limit E h = ucast (u64_get_bits E (rmm_feat_reg0 h) RMI_FEATURE_REGISTER_0_S2SZ)"

definition kvm_realm_get_num_brps :: "host_env \<Rightarrow> host \<Rightarrow> u32" where
  "kvm_realm_get_num_brps E h = ucast (u64_get_bits E (rmm_feat_reg0 h) RMI_FEATURE_REGISTER_0_NUM_BPS)"

definition kvm_realm_get_num_wrps :: "host_env \<Rightarrow> host \<Rightarrow> u32" where
  "kvm_realm_get_num_wrps E h = ucast (u64_get_bits E (rmm_feat_reg0 h) RMI_FEATURE_REGISTER_0_NUM_WPS)"

definition rmi_check_version :: "host_env \<Rightarrow> host \<Rightarrow> int \<times> host" where
  "rmi_check_version E h =
     (let our_version = RMI_ABI_VERSION RMI_ABI_MAJOR_VERSION RMI_ABI_MINOR_VERSION;
          (res, h) = arm_smccc_1_1_invoke E (SMC_RMI_VERSION E) [our_version] h
      in if res_a0 res = SMCCC_RET_NOT_SUPPORTED E then (- ENXIO, h)
         else if res_a1 res \<noteq> our_version then (- ENXIO, h) else (0, h))"

section \<open>VMIDs\<close>

definition rme_vmid_init :: "host_env \<Rightarrow> host \<Rightarrow> int \<times> host" where
  "rme_vmid_init E h =
     (case bitmap_zalloc E (2 ^ kvm_get_vmid_bits E) of
        None \<Rightarrow> (- ENOMEM, h)
      | Some bm \<Rightarrow> (0, h\<lparr>rme_vmid_bitmap := bm\<rparr>))"

definition rme_vmid_reserve :: "host_env \<Rightarrow> host \<Rightarrow> int \<times> host" where
  "rme_vmid_reserve E h =
     (let (ret, bm) = bitmap_find_free_region E (rme_vmid_bitmap h) (2 ^ kvm_get_vmid_bits E)
      in (ret, h\<lparr>rme_vmid_bitmap := bm\<rparr>))"

definition rme_vmid_release :: "host_env \<Rightarrow> u32 \<Rightarrow> host \<Rightarrow> host" where
  "rme_vmid_release E vmid h = h\<lparr>rme_vmid_bitmap := bitmap_release_region E (rme_vmid_bitmap h) vmid\<rparr>"

text \<open>The documented behaviour of the bitmap functions for regions of one bit.\<close>

definition bitmap_ok :: "host_env \<Rightarrow> bool" where
  "bitmap_ok E \<longleftrightarrow>
     (\<forall>bm n. let (ret, bm') = bitmap_find_free_region E bm n
        in (0 \<le> ret \<longrightarrow> ret < 2 ^ 31 \<and> nat ret < length bm \<and> \<not> bm ! nat ret \<and> bm' = bm[nat ret := True]) \<and>
           (ret < 0 \<longrightarrow> bm' = bm)) \<and>
     (\<forall>bm vmid. bitmap_release_region E bm vmid = bm[unat vmid := False])"

lemma reserve_then_release:
  assumes "bitmap_ok E" "rme_vmid_reserve E h = (ret, h')" "0 \<le> ret"
  shows "nat ret < length (rme_vmid_bitmap h)" "\<not> rme_vmid_bitmap h ! nat ret"
    "h' = h\<lparr>rme_vmid_bitmap := (rme_vmid_bitmap h)[nat ret := True]\<rparr>" "unat (word_of_int ret :: u32) = nat ret"
    "bitmap_release_region E (rme_vmid_bitmap h') (word_of_int ret) = rme_vmid_bitmap h"
proof -
  obtain bm where r: "bitmap_find_free_region E (rme_vmid_bitmap h) (2 ^ kvm_get_vmid_bits E) = (ret, bm)"
      and h': "h' = h\<lparr>rme_vmid_bitmap := bm\<rparr>"
    using assms(2) by (auto simp: rme_vmid_reserve_def split: prod.splits)
  have b: "\<forall>bm n. let (ret, bm') = bitmap_find_free_region E bm n
        in (0 \<le> ret \<longrightarrow> ret < 2 ^ 31 \<and> nat ret < length bm \<and> \<not> bm ! nat ret \<and> bm' = bm[nat ret := True]) \<and>
           (ret < 0 \<longrightarrow> bm' = bm)"
    and rel: "bitmap_release_region E bm vmid = bm[unat vmid := False]" for bm vmid
    using assms(1) unfolding bitmap_ok_def by blast+
  have *: "ret < 2 ^ 31" "nat ret < length (rme_vmid_bitmap h)" "\<not> rme_vmid_bitmap h ! nat ret"
      "bm = (rme_vmid_bitmap h)[nat ret := True]"
    using b [rule_format, of "rme_vmid_bitmap h" "2 ^ kvm_get_vmid_bits E"] assms(3) by (auto simp: r)
  show "nat ret < length (rme_vmid_bitmap h)" "\<not> rme_vmid_bitmap h ! nat ret"
    "h' = h\<lparr>rme_vmid_bitmap := (rme_vmid_bitmap h)[nat ret := True]\<rparr>"
    using * h' by simp_all
  show u: "unat (word_of_int ret :: u32) = nat ret"
    using *(1) assms(3) by (simp add: unat_eq_nat_uint uint_word_of_int)
  then show "bitmap_release_region E (rme_vmid_bitmap h') (word_of_int ret) = rme_vmid_bitmap h"
    using * h' by (simp add: rel list_update_same_conv)
qed

lemma reserve_failed:
  assumes "bitmap_ok E" "rme_vmid_reserve E h = (ret, h')" "ret < 0"
  shows "rme_vmid_bitmap h' = rme_vmid_bitmap h"
proof -
  have "\<forall>bm n. let (ret, bm') = bitmap_find_free_region E bm n
        in (0 \<le> ret \<longrightarrow> ret < 2 ^ 31 \<and> nat ret < length bm \<and> \<not> bm ! nat ret \<and> bm' = bm[nat ret := True]) \<and>
           (ret < 0 \<longrightarrow> bm' = bm)"
    using assms(1) unfolding bitmap_ok_def by blast
  from this [rule_format, of "rme_vmid_bitmap h" "2 ^ kvm_get_vmid_bits E"] show ?thesis
    using assms(2,3) by (auto simp: rme_vmid_reserve_def split: prod.splits)
qed

section \<open>Parameters of a realm\<close>

text \<open>A configuration item of user space; \<open>cfg\<close> says which of the members of its union is meant.\<close>

record config_item =
  cfg :: u32
  cfg_rpv :: "u8 list"
  cfg_hash_algo :: u32
  cfg_sve_vq :: u32
  cfg_num_brps :: u32
  cfg_num_wrps :: u32
  cfg_num_pmu_cntrs :: u32

definition set_params :: "(realm_params \<Rightarrow> realm_params) \<Rightarrow> host \<Rightarrow> host" where
  "set_params f h = h\<lparr>params_page := f (params_page h)\<rparr>"

definition config_realm_hash_algo :: "host_env \<Rightarrow> config_item \<Rightarrow> host \<Rightarrow> int \<times> host" where
  "config_realm_hash_algo E c h =
     (let set_algo = (0, set_params (\<lambda>p. p\<lparr>hash_algo := ucast (cfg_hash_algo c)\<rparr>) h)
      in if cfg_hash_algo c = KVM_CAP_ARM_RME_MEASUREMENT_ALGO_SHA256 E then
           if \<not> rme_supports E h RMI_FEATURE_REGISTER_0_HASH_SHA_256 then (- EINVAL, h) else set_algo
         else if cfg_hash_algo c = KVM_CAP_ARM_RME_MEASUREMENT_ALGO_SHA512 E then
           if \<not> rme_supports E h RMI_FEATURE_REGISTER_0_HASH_SHA_512 then (- EINVAL, h) else set_algo
         else (- EINVAL, h))"

definition config_realm_sve :: "host_env \<Rightarrow> config_item \<Rightarrow> host \<Rightarrow> int \<times> host" where
  "config_realm_sve E c h =
     (let max_sve_vq = ucast (u64_get_bits E (rmm_feat_reg0 h) RMI_FEATURE_REGISTER_0_SVE_VL) :: u32
      in if \<not> kvm_rme_supports_sve E h then (- EINVAL, h)
         else if cfg_sve_vq c > max_sve_vq then (- EINVAL, h)
         else (0, set_params (\<lambda>p. p\<lparr>sve_vl := ucast (cfg_sve_vq c),
                                      p_flags := p_flags p OR RMI_REALM_PARAM_FLAG_SVE\<rparr>) h))"

definition config_realm_debug :: "host_env \<Rightarrow> config_item \<Rightarrow> host \<Rightarrow> int \<times> host" where
  "config_realm_debug E c h =
     (if cfg_num_brps c > kvm_realm_get_num_brps E h then (- EINVAL, h)
      else if cfg_num_wrps c > kvm_realm_get_num_wrps E h then (- EINVAL, h)
      else (0, set_params (\<lambda>p. p\<lparr>num_bps := ucast (cfg_num_brps c), num_wps := ucast (cfg_num_wrps c)\<rparr>) h))"

definition config_realm_pmu :: "host_env \<Rightarrow> config_item \<Rightarrow> host \<Rightarrow> int \<times> host" where
  "config_realm_pmu E c h =
     (let pmu_max_ctrs = ucast (u64_get_bits E (rmm_feat_reg0 h) RMI_FEATURE_REGISTER_0_PMU_NUM_CTRS) :: u32
      in if \<not> rme_supports E h RMI_FEATURE_REGISTER_0_PMU_EN then (- EINVAL, h)
         else if cfg_num_pmu_cntrs c > pmu_max_ctrs then (- EINVAL, h)
         else (0, set_realm (\<lambda>r. r\<lparr>pmu_enabled := True\<rparr>)
                    (set_params (\<lambda>p. p\<lparr>pmu_num_ctrs := ucast (cfg_num_pmu_cntrs c),
                                        p_flags := p_flags p OR RMI_REALM_PARAM_FLAG_PMU\<rparr>) h)))"

text \<open>\<open>user\<close> is what \<open>copy_from_user\<close> delivers, \<open>None\<close> for a fault.\<close>

definition kvm_rme_config_realm :: "host_env \<Rightarrow> config_item option \<Rightarrow> host \<Rightarrow> int \<times> host" where
  "kvm_rme_config_realm E user h =
     (if r_state (realm_of h) \<noteq> REALM_STATE_NONE then (- EINVAL, h)
      else
        case user of
          None \<Rightarrow> (- EFAULT, h)
        | Some c \<Rightarrow>
            if cfg c = KVM_CAP_ARM_RME_CFG_RPV E then (0, set_params (\<lambda>p. p\<lparr>rpv := cfg_rpv c\<rparr>) h)
            else if cfg c = KVM_CAP_ARM_RME_CFG_HASH_ALGO E then config_realm_hash_algo E c h
            else if cfg c = KVM_CAP_ARM_RME_CFG_SVE E then config_realm_sve E c h
            else if cfg c = KVM_CAP_ARM_RME_CFG_DBG E then config_realm_debug E c h
            else if cfg c = KVM_CAP_ARM_RME_CFG_PMU E then config_realm_pmu E c h
            else (- EINVAL, h))"

lemmas config_defs = config_realm_hash_algo_def config_realm_sve_def config_realm_debug_def config_realm_pmu_def

section \<open>Initialisation\<close>

text \<open>The kernel's boot: without 4K pages or a monitor of the right version it goes on without realms.\<close>

definition kvm_init_rme :: "host_env \<Rightarrow> host \<Rightarrow> int \<times> host" where
  "kvm_init_rme E h =
     (if PAGE_SIZE E \<noteq> 4096 then (0, h)
      else
        let (bad, h) = rmi_check_version E h
        in if bad \<noteq> 0 then (0, h)
           else
             let (ret, h) = rme_vmid_init E h
             in if ret \<noteq> 0 then (ret, h)
                else
                  let (ret, reg, h) = rmi_features E 0 h;
                      h = WARN_ON (ret \<noteq> 0) (h\<lparr>rmm_feat_reg0 := reg\<rparr>)
                  in (0, h\<lparr>kvm_rme_is_available := True\<rparr>))"

end
