(* ===== verification/Kvm_Realm.thy ===== *)
theory Kvm_Realm
  imports Kvm_Map Kvm_Config
begin

text \<open>
  The life of a realm in src/tetd_cca/linux/arch/arm64/kvm/rme.c: the realm descriptor and the
  root tables, creation, activation and destruction, and the capability through which user space
  asks for them.
\<close>

text \<open>What the functions read of \<open>struct kvm\<close>; \<open>pgd_phys\<close> and \<open>vtcr\<close> are members of its \<open>arch.mmu\<close>.\<close>

record kvm_vm =
  kvm_is_realm :: bool
  pgt_ia_bits :: u32
  pgt_start_level :: u32
  pgd_phys :: u64
  vtcr :: u64

section \<open>Root tables and the descriptor\<close>

definition kvm_pgd_page_idx :: "host_env \<Rightarrow> u32 \<Rightarrow> u32 \<Rightarrow> u64 \<Rightarrow> u32" where
  "kvm_pgd_page_idx E bits start_level addr =
     (let shift = kvm_granule_shift E (start_level - 1);
          mask = push_bit (unat bits) 1 - 1
      in ucast (drop_bit (unat shift) (addr AND mask)))"

definition kvm_pgd_pages :: "host_env \<Rightarrow> u32 \<Rightarrow> u32 \<Rightarrow> u32" where
  "kvm_pgd_pages E bits start_level = kvm_pgd_page_idx E bits start_level (- 1) + 1"

text \<open>The loop that delegates the root tables, from the table \<open>i\<close> on: whether it failed, and where it stopped.\<close>

fun delegate_pgds :: "host_env \<Rightarrow> u64 \<Rightarrow> nat \<Rightarrow> nat \<Rightarrow> host \<Rightarrow> bool \<times> nat \<times> host" where
  "delegate_pgds E base 0 i h = (False, i, h)"
| "delegate_pgds E base (Suc n) i h =
     (let (ret, h) = rmi_granule_delegate E (base + of_nat i * PAGE_SIZE E) h
      in if ret \<noteq> 0 then (True, i, h) else delegate_pgds E base n (Suc i) h)"

fun undelegate_pgds :: "host_env \<Rightarrow> u64 \<Rightarrow> nat \<Rightarrow> host \<Rightarrow> host" where
  "undelegate_pgds E base 0 h = h"
| "undelegate_pgds E base (Suc i) h =
     (let (ret, h) = rmi_granule_undelegate E (base + of_nat i * PAGE_SIZE E) h
      in undelegate_pgds E base i (WARN_ON (ret \<noteq> 0) h))"

text \<open>The label \<open>out_undelegate_tables\<close>: the descriptor is freed whether or not it was undelegated.\<close>

definition out_undelegate_tables :: "host_env \<Rightarrow> kvm_vm \<Rightarrow> u64 \<Rightarrow> u64 \<Rightarrow> nat \<Rightarrow> host \<Rightarrow> host" where
  "out_undelegate_tables E vm rd rd_pa i h =
     (let h = undelegate_pgds E (pgd_phys vm) i h;
          (ret, h) = rmi_granule_undelegate E rd_pa h
      in free_page E rd (WARN_ON (ret \<noteq> 0) h))"

text \<open>
  The part of \<open>realm_create_rd\<close> after the delegations: parameters and the command.
  \<open>uninitialised_r\<close> is the value of the local \<open>r\<close>, which the last error path returns without setting it.
\<close>

definition create_rd_command :: "host_env \<Rightarrow> kvm_vm \<Rightarrow> u64 \<Rightarrow> u64 \<Rightarrow> u32 \<Rightarrow> nat \<Rightarrow> host \<Rightarrow> int \<times> host" where
  "create_rd_command E vm rd rd_pa pgd_sz i h =
     (let h = set_realm (\<lambda>r. r\<lparr>ia_bits := VTCR_EL2_IPA E (vtcr vm)\<rparr>) h;
          h = set_params (\<lambda>p. p\<lparr>rtt_level_start := get_start_level E (realm_of h),
                                rtt_num_start := ucast pgd_sz,
                                rtt_base := pgd_phys vm,
                                p_vmid := ucast (r_vmid (realm_of h))\<rparr>) h;
          (ret, h) = rmi_realm_create E rd_pa (virt_to_phys E (r_params (realm_of h))) h
      in if ret \<noteq> 0 then (- ENXIO, out_undelegate_tables E vm rd rd_pa i h)
         else
           let h = set_realm (\<lambda>r. r\<lparr>r_rd := rd, spare_page := PHYS_ADDR_MAX E\<rparr>) h;
               (ret, aux, h) = rmi_rec_aux_count E rd_pa h;
               h = WARN_ON (ret \<noteq> 0) (set_realm (\<lambda>r. r\<lparr>num_aux := aux\<rparr>) h)
           in if ret \<noteq> 0 then
                let (ret, h) = rmi_realm_destroy E rd_pa h;
                    h = WARN_ON (ret \<noteq> 0) h
                in (uninitialised_r E, out_undelegate_tables E vm rd rd_pa i h)
              else (0, h))"

definition create_rd_tables :: "host_env \<Rightarrow> kvm_vm \<Rightarrow> u64 \<Rightarrow> u64 \<Rightarrow> host \<Rightarrow> int \<times> host" where
  "create_rd_tables E vm rd rd_pa h =
     (let pgd_sz = kvm_pgd_pages E (pgt_ia_bits vm) (pgt_start_level vm);
          (failed, i, h) = delegate_pgds E (pgd_phys vm) (unat pgd_sz) 0 h
      in if failed then (- ENXIO, out_undelegate_tables E vm rd rd_pa i h)
         else create_rd_command E vm rd rd_pa pgd_sz i h)"

definition realm_create_rd :: "host_env \<Rightarrow> kvm_vm \<Rightarrow> host \<Rightarrow> int \<times> host" where
  "realm_create_rd E vm h =
     (let h = WARN_ON (r_rd (realm_of h) \<noteq> 0) h
      in if r_rd (realm_of h) \<noteq> 0 then (- EEXIST, h)
         else
           let h = WARN_ON (r_params (realm_of h) = 0) h
           in if r_params (realm_of h) = 0 then (- EEXIST, h)
              else
                let (page, h) = get_free_page E False h
                in case page of
                     None \<Rightarrow> (- ENOMEM, h)
                   | Some p \<Rightarrow>
                       let rd = phys_to_virt E p;
                           rd_pa = virt_to_phys E rd;
                           (ret, h) = rmi_granule_delegate E rd_pa h
                       in if ret \<noteq> 0 then (- ENXIO, free_page E rd h)
                          else create_rd_tables E vm rd rd_pa h)"

section \<open>Creation, activation, initial RIPAS\<close>

definition kvm_init_realm_vm :: "host_env \<Rightarrow> kvm_vm \<Rightarrow> host \<Rightarrow> int \<times> host" where
  "kvm_init_realm_vm E vm h =
     (let (page, h) = get_free_page E False h
      in case page of
           None \<Rightarrow> (- ENOMEM, h)
         | Some p \<Rightarrow>
             let zeroed = \<lparr>p_flags = 0, s2sz = 0, sve_vl = 0, num_bps = 0, num_wps = 0, pmu_num_ctrs = 0,
                            hash_algo = 0, rpv = replicate 64 0, p_vmid = 0, rtt_base = 0,
                            rtt_level_start = 0, rtt_num_start = 0\<rparr>;
                 h = h\<lparr>params_page := zeroed\<lparr>s2sz := ucast (VTCR_EL2_IPA E (vtcr vm))\<rparr>\<rparr>
             in (0, set_realm (\<lambda>r. r\<lparr>r_params := phys_to_virt E p\<rparr>) h))"

definition kvm_create_realm :: "host_env \<Rightarrow> kvm_vm \<Rightarrow> host \<Rightarrow> int \<times> host" where
  "kvm_create_realm E vm h =
     (if \<not> kvm_is_realm vm \<or> r_state (realm_of h) \<noteq> REALM_STATE_NONE then (- EEXIST, h)
      else let (ret, h) = rme_vmid_reserve E h
      in if ret < 0 then (ret, h)
         else let h = set_realm (\<lambda>r. r\<lparr>r_vmid := word_of_int ret\<rparr>) h;
                  (ret, h) = realm_create_rd E vm h
      in if ret \<noteq> 0 then (ret, rme_vmid_release E (r_vmid (realm_of h)) h)
         else let h = set_realm (\<lambda>r. r\<lparr>r_state := REALM_STATE_NEW\<rparr>) h;
                  h = free_page E (r_params (realm_of h)) h
      in (0, set_realm (\<lambda>r. r\<lparr>r_params := 0\<rparr>) h))"

definition kvm_activate_realm :: "host_env \<Rightarrow> host \<Rightarrow> int \<times> host" where
  "kvm_activate_realm E h =
     (if r_state (realm_of h) \<noteq> REALM_STATE_NEW then (- EINVAL, h)
      else let (ret, h) = rmi_realm_activate E (rd_phys E h) h
      in if ret \<noteq> 0 then (- ENXIO, h) else (0, set_realm (\<lambda>r. r\<lparr>r_state := REALM_STATE_ACTIVE\<rparr>) h))"

definition kvm_init_ipa_range_realm :: "host_env \<Rightarrow> nat \<Rightarrow> u64 \<Rightarrow> u64 \<Rightarrow> host \<Rightarrow> int outcome" where
  "kvm_init_ipa_range_realm E fuel init_ipa_base init_ipa_size h =
     (let addr = init_ipa_base; end_addr = addr + init_ipa_size
      in if end_addr < addr then Returned (- EINVAL) h
         else if r_state (realm_of h) \<noteq> REALM_STATE_NEW then Returned (- EINVAL) h
         else realm_init_ipa_state E end_addr fuel addr h)"

section \<open>The capability\<close>

text \<open>The command in \<open>args[0]\<close> and, for each structure, what \<open>copy_from_user\<close> delivers from \<open>args[1]\<close>.\<close>

record enable_cap =
  cap_cmd :: u64
  user_config :: "config_item option"
  user_init_ipa :: "(u64 \<times> u64) option"
  user_populate :: "(u64 \<times> u64 \<times> u32) option"

fun returned :: "int \<times> host \<Rightarrow> int outcome" where
  "returned (r, h) = Returned r h"

definition kvm_realm_enable_cap :: "host_env \<Rightarrow> nat \<Rightarrow> kvm_vm \<Rightarrow> enable_cap \<Rightarrow> host \<Rightarrow> int outcome" where
  "kvm_realm_enable_cap E fuel vm cap h =
     (if \<not> kvm_is_realm vm then Returned (- EINVAL) h
      else if cap_cmd cap = KVM_CAP_ARM_RME_CONFIG_REALM E
           then returned (kvm_rme_config_realm E (user_config cap) h)
      else if cap_cmd cap = KVM_CAP_ARM_RME_CREATE_RD E then returned (kvm_create_realm E vm h)
      else if cap_cmd cap = KVM_CAP_ARM_RME_INIT_IPA_REALM E then
        (case user_init_ipa cap of
           None \<Rightarrow> Returned (- EFAULT) h
         | Some (base, sz) \<Rightarrow> kvm_init_ipa_range_realm E fuel base sz h)
      else if cap_cmd cap = KVM_CAP_ARM_RME_POPULATE_REALM E then
        (case user_populate cap of
           None \<Rightarrow> Returned (- EFAULT) h
         | Some (base, sz, flags) \<Rightarrow> kvm_populate_realm E fuel base sz flags h)
      else if cap_cmd cap = KVM_CAP_ARM_RME_ACTIVATE_REALM E then returned (kvm_activate_realm E h)
      else Returned (- EINVAL) h)"

section \<open>Destruction\<close>

text \<open>The loop over the root tables, from the table \<open>i\<close> on, returns at the first that cannot be undelegated.\<close>

fun destroy_pgds :: "host_env \<Rightarrow> u64 \<Rightarrow> nat \<Rightarrow> nat \<Rightarrow> host \<Rightarrow> bool \<times> host" where
  "destroy_pgds E base 0 i h = (True, h)"
| "destroy_pgds E base (Suc n) i h =
     (let (ret, h) = rmi_granule_undelegate E (base + of_nat i * PAGE_SIZE E) h;
          h = WARN_ON (ret \<noteq> 0) h
      in if ret \<noteq> 0 then (False, h) else destroy_pgds E base n (Suc i) h)"

text \<open>The descriptor: whether the function goes on.\<close>

definition destroy_rd :: "host_env \<Rightarrow> host \<Rightarrow> bool \<times> host" where
  "destroy_rd E h =
     (if r_rd (realm_of h) = 0 then (True, h)
      else let (ret, h) = rmi_realm_destroy E (rd_phys E h) h;
               h = WARN_ON (ret \<noteq> 0) h
      in if ret \<noteq> 0 then (False, h)
         else let (ret, h) = rmi_granule_undelegate E (rd_phys E h) h;
                  h = WARN_ON (ret \<noteq> 0) h
      in if ret \<noteq> 0 then (False, h)
         else (True, set_realm (\<lambda>r. r\<lparr>r_rd := 0\<rparr>) (free_page E (r_rd (realm_of h)) h)))"

definition destroy_spare :: "host_env \<Rightarrow> host \<Rightarrow> host" where
  "destroy_spare E h =
     (if spare_page (realm_of h) = PHYS_ADDR_MAX E then h
      else set_realm (\<lambda>r. r\<lparr>spare_page := PHYS_ADDR_MAX E\<rparr>) (release_rtt E (spare_page (realm_of h)) h))"

definition kvm_destroy_realm :: "host_env \<Rightarrow> kvm_vm \<Rightarrow> host \<Rightarrow> host" where
  "kvm_destroy_realm E vm h =
     (let h = (if r_params (realm_of h) \<noteq> 0
               then set_realm (\<lambda>r. r\<lparr>r_params := 0\<rparr>) (free_page E (r_params (realm_of h)) h) else h)
      in if r_state (realm_of h) = REALM_STATE_NONE then h
         else let h = set_realm (\<lambda>r. r\<lparr>r_state := REALM_STATE_DYING\<rparr>) h;
                  (go_on, h) = destroy_rd E h
      in if \<not> go_on then h
         else let h = destroy_spare E (rme_vmid_release E (r_vmid (realm_of h)) h);
                  (all_done, h) = destroy_pgds E (pgd_phys vm)
                    (unat (kvm_pgd_pages E (pgt_ia_bits vm) (pgt_start_level vm))) 0 h
      in if \<not> all_done then h
         else emit Free_stage2_pgd (set_realm (\<lambda>r. r\<lparr>r_state := REALM_STATE_DEAD\<rparr>) h))"

end
