(* ===== verification/Kvm_Rec.thy ===== *)
theory Kvm_Rec
  imports Kvm_Realm
begin

text \<open>
  The realm execution contexts of the host, the virtual processors of a realm, in
  src/tetd_cca/linux/arch/arm64/kvm/rme.c: creation with the auxiliary pages that the monitor asks
  for, entry and destruction. An access outside the 16 entries of \<open>aux_pages\<close> is \<open>None\<close>.
\<close>

text \<open>What the functions read of \<open>struct kvm_vcpu\<close>.\<close>

record vcpu =
  vcpu_regs :: "u64 list"
  vcpu_pc :: u64
  vcpu_mpidr :: u64
  vcpu_id :: int
  has_psci_0_2 :: bool
  has_pmu :: bool
  vcpu_is_rec :: bool

section \<open>Auxiliary pages\<close>

text \<open>The pages \<open>i\<close> to \<open>i + n - 1\<close>; a page that cannot be undelegated is leaked.\<close>

fun free_rec_aux_loop :: "host_env \<Rightarrow> u64 list \<Rightarrow> nat \<Rightarrow> nat \<Rightarrow> host \<Rightarrow> host option" where
  "free_rec_aux_loop E pages 0 i h = Some h"
| "free_rec_aux_loop E pages (Suc n) i h =
     (if i \<ge> length pages then None
      else
        let (ret, h) = rmi_granule_undelegate E (pages ! i) h;
            h = WARN_ON (ret \<noteq> 0) h
        in free_rec_aux_loop E pages n (Suc i) (if ret \<noteq> 0 then h else emit (Page_free (pages ! i)) h))"

definition free_rec_aux :: "host_env \<Rightarrow> u64 list \<Rightarrow> u32 \<Rightarrow> host \<Rightarrow> host option" where
  "free_rec_aux E pages num h = free_rec_aux_loop E pages (unat num) 0 h"

text \<open>
  The status, the arrays and the index reached; both arrays are written at the index, which
  is not compared with their length.
\<close>

fun alloc_rec_aux_loop ::
  "host_env \<Rightarrow> nat \<Rightarrow> nat \<Rightarrow> u64 list \<Rightarrow> u64 list \<Rightarrow> host \<Rightarrow> ((int \<times> u64 list \<times> u64 list \<times> nat) \<times> host) option" where
  "alloc_rec_aux_loop E 0 i pages phys h = Some ((0, pages, phys, i), h)"
| "alloc_rec_aux_loop E (Suc n) i pages phys h =
     (let (page, h) = get_free_page E False h
      in case page of
           None \<Rightarrow> Some ((- ENOMEM, pages, phys, i), h)
         | Some p \<Rightarrow>
             let (ret, h) = rmi_granule_delegate E p h
             in if ret \<noteq> 0 then Some ((- ENXIO, pages, phys, i), emit (Page_free p) h)
                else if i \<ge> length pages \<or> i \<ge> length phys then None
                else alloc_rec_aux_loop E n (Suc i) (pages[i := p]) (phys[i := p]) h)"

definition alloc_rec_aux ::
  "host_env \<Rightarrow> u64 list \<Rightarrow> u64 list \<Rightarrow> u32 \<Rightarrow> host \<Rightarrow> ((int \<times> u64 list \<times> u64 list) \<times> host) option" where
  "alloc_rec_aux E pages phys num h =
     Option.bind (alloc_rec_aux_loop E (unat num) 0 pages phys h)
       (\<lambda>((ret, pages, phys, i), h).
          if ret = 0 then Some ((0, pages, phys), h)
          else map_option (\<lambda>h. ((ret, pages, phys), h)) (free_rec_aux_loop E pages i 0 h))"

section \<open>Creation\<close>

text \<open>The label \<open>out_free_pages\<close>.\<close>

definition out_free_pages :: "host_env \<Rightarrow> u64 \<Rightarrow> realm_rec \<Rightarrow> host \<Rightarrow> host" where
  "out_free_pages E params rec h = free_page E params (free_page E (rec_page rec) (free_page E (rec_run rec) h))"

text \<open>The label \<open>out_undelegate_rmm_rec\<close>: a REC page that cannot be undelegated is forgotten, so it is not freed.\<close>

definition out_undelegate_rmm_rec ::
  "host_env \<Rightarrow> u64 \<Rightarrow> u64 \<Rightarrow> realm_rec \<Rightarrow> host \<Rightarrow> realm_rec \<times> host" where
  "out_undelegate_rmm_rec E params rec_page_phys rec h =
     (let (ret, h) = rmi_granule_undelegate E rec_page_phys h;
          h = WARN_ON (ret \<noteq> 0) h;
          rec = (if ret \<noteq> 0 then rec\<lparr>rec_page := 0\<rparr> else rec)
      in (rec, out_free_pages E params rec h))"

definition page_virt :: "host_env \<Rightarrow> u64 option \<Rightarrow> u64" where
  "page_virt E page = (case page of None \<Rightarrow> 0 | Some p \<Rightarrow> phys_to_virt E p)"

definition zeroed_rec_params :: rec_params where
  "zeroed_rec_params = \<lparr>rp_flags = 0, rp_mpidr = 0, rp_pc = 0, rp_gprs = replicate REC_CREATE_NR_GPRS 0,
     num_rec_aux = 0, rp_aux = replicate REC_PARAMS_AUX_GRANULES 0\<rparr>"

text \<open>The parameters that are known before the auxiliary pages.\<close>

definition initial_rec_params :: "vcpu \<Rightarrow> rec_params" where
  "initial_rec_params vcpu =
     (let p = zeroed_rec_params\<lparr>rp_gprs := take REC_CREATE_NR_GPRS (vcpu_regs vcpu), rp_pc := vcpu_pc vcpu\<rparr>
      in if vcpu_id vcpu = 0 then p\<lparr>rp_flags := rp_flags p OR REC_PARAMS_FLAG_RUNNABLE\<rparr> else p)"

text \<open>The command, when the auxiliary pages are in \<open>p\<close> and \<open>rec\<close>.\<close>

definition create_rec_command ::
  "host_env \<Rightarrow> vcpu \<Rightarrow> u64 \<Rightarrow> u64 \<Rightarrow> realm_rec \<Rightarrow> rec_params \<Rightarrow> host \<Rightarrow> ((int \<times> realm_rec) \<times> host) option" where
  "create_rec_command E vcpu params rec_page_phys rec p h =
     (let p = p\<lparr>num_rec_aux := num_aux (realm_of h), rp_mpidr := vcpu_mpidr vcpu\<rparr>;
          h = h\<lparr>rec_params_page := p\<rparr>;
          (ret, h) = rmi_rec_create E (rd_phys E h) rec_page_phys (virt_to_phys E params) h
      in if ret \<noteq> 0 then
           map_option (\<lambda>h. let (rec, h) = out_undelegate_rmm_rec E params rec_page_phys rec h in ((- ENXIO, rec), h))
             (free_rec_aux E (aux_pages rec) (ucast (num_aux (realm_of h))) h)
         else Some ((0, rec\<lparr>rec_mpidr := vcpu_mpidr vcpu\<rparr>), free_page E params h))"

text \<open>The body of \<open>kvm_create_rec\<close> after the three pages are there.\<close>

definition create_rec_with_pages ::
  "host_env \<Rightarrow> vcpu \<Rightarrow> u64 \<Rightarrow> realm_rec \<Rightarrow> host \<Rightarrow> ((int \<times> realm_rec) \<times> host) option" where
  "create_rec_with_pages E vcpu params rec h =
     (let p = initial_rec_params vcpu;
          rec_page_phys = virt_to_phys E (rec_page rec);
          (ret, h) = rmi_granule_delegate E rec_page_phys h
      in if ret \<noteq> 0 then Some ((- ENXIO, rec), out_free_pages E params rec h)
         else
           Option.bind (alloc_rec_aux E (aux_pages rec) (rp_aux p) (ucast (num_aux (realm_of h))) h)
             (\<lambda>((r, pages, phys), h).
                let rec = rec\<lparr>aux_pages := pages\<rparr>
                in if r \<noteq> 0 then
                     let (rec, h) = out_undelegate_rmm_rec E params rec_page_phys rec h
                     in Some ((r, rec), h)
                   else create_rec_command E vcpu params rec_page_phys rec (p\<lparr>rp_aux := phys\<rparr>) h))"

text \<open>The counter that limits the message of the first calls is kept; the message is not modelled.\<close>

definition kvm_create_rec ::
  "host_env \<Rightarrow> vcpu \<Rightarrow> realm_rec \<Rightarrow> host \<Rightarrow> ((int \<times> realm_rec) \<times> host) option" where
  "kvm_create_rec E vcpu rec h =
     (let h = (if vflag h > 0 then h\<lparr>vflag := vflag h - 1\<rparr> else h)
      in if r_state (realm_of h) \<noteq> REALM_STATE_NEW then Some ((- ENOENT, rec), h)
         else if \<not> has_psci_0_2 vcpu then Some ((- EINVAL, rec), h)
         else if has_pmu vcpu \<noteq> pmu_enabled (realm_of h) then Some ((- EINVAL, rec), h)
         else
           let (a, h) = get_free_page E False h;
               (b, h) = get_free_page E False h;
               (c, h) = get_free_page E False h;
               params = page_virt E a;
               rec = rec\<lparr>rec_page := page_virt E b, rec_run := page_virt E c\<rparr>
           in if params = 0 \<or> rec_page rec = 0 \<or> rec_run rec = 0
              then Some ((- ENOMEM, rec), out_free_pages E params rec h)
              else create_rec_with_pages E vcpu params rec h)"

section \<open>Entry and destruction\<close>

definition kvm_rec_enter :: "host_env \<Rightarrow> realm_rec \<Rightarrow> host \<Rightarrow> int \<times> host" where
  "kvm_rec_enter E rec h =
     (if r_state (realm_of h) \<noteq> REALM_STATE_ACTIVE then (- EINVAL, h)
      else rmi_rec_enter E (virt_to_phys E (rec_page rec)) (virt_to_phys E (rec_run rec)) h)"

definition kvm_destroy_rec :: "host_env \<Rightarrow> vcpu \<Rightarrow> realm_rec \<Rightarrow> host \<Rightarrow> host option" where
  "kvm_destroy_rec E vcpu rec h =
     (if \<not> vcpu_is_rec vcpu then Some h
      else let rec_page_phys = virt_to_phys E (rec_page rec);
               (ret, h) = rmi_rec_destroy E rec_page_phys h;
               h = WARN_ON (ret \<noteq> 0) h
      in if ret \<noteq> 0 then Some h
         else Option.bind (free_rec_aux E (aux_pages rec) (ucast (num_aux (realm_of h))) h)
           (\<lambda>h. let (ret, h) = rmi_granule_undelegate E rec_page_phys h;
                    h = WARN_ON (ret \<noteq> 0) h
                in if ret \<noteq> 0 then Some h
                   else Some (free_page E (rec_run rec) (free_page E (rec_page rec) h))))"

end
