(* ===== verification/Kvm_Owner.thy ===== *)
theory Kvm_Owner
  imports Kvm_Invariant Kvm_Rec
begin

text \<open>
  Who owns a page: a monitor of the host's log keeps the pages that the kernel has allocated and
  those that are delegated to the realm world; giving a delegated page back to the allocator is
  a violation. It gives an invariant that every operation on tables, ranges and mappings preserves.
\<close>

section \<open>The monitor\<close>

type_synonym page_state = "u64 set \<times> u64 set"

fun page_step :: "host_env \<Rightarrow> hevent \<Rightarrow> page_state \<Rightarrow> page_state option" where
  "page_step E (Smc fid args res) (alloc, deleg) =
     (if c_int (res_a0 res) \<noteq> 0 then Some (alloc, deleg)
      else if fid = SMC_RMI_GRANULE_DELEGATE E then Some (alloc, insert (hd args) deleg)
      else if fid = SMC_RMI_GRANULE_UNDELEGATE E then Some (alloc, deleg - {hd args})
      else Some (alloc, deleg))"
| "page_step E (Page_alloc mc (Some p)) (alloc, deleg) = Some (insert p alloc, deleg)"
| "page_step E (Page_free p) (alloc, deleg) = (if p \<in> deleg then None else Some (alloc - {p}, deleg))"
| "page_step E _ st = Some st"

abbreviation page_run :: "host_env \<Rightarrow> hlog \<Rightarrow> page_state option" where
  "page_run E \<equiv> run_monitor (page_step E) ({}, {})"

text \<open>
  What the code relies on: a page handed out by the allocator is neither allocated already nor
  delegated, a page of the guest is not one of the kernel's own, the monitor delegates only
  what is not delegated and undelegates only what is, and the kernel's linear mapping.
\<close>

definition phys_page :: "u64 \<Rightarrow> bool" where
  "phys_page p \<longleftrightarrow> p < 2 ^ 52"

definition pages_ok :: "host_env \<Rightarrow> bool" where
  "pages_ok E \<longleftrightarrow> smccc_ok E \<and>
     (\<forall>p. phys_page p \<longrightarrow> virt_to_phys E (phys_to_virt E p) = p \<and> phys_to_virt E p \<noteq> 0) \<and>
     (\<forall>log alloc deleg. page_run E log = Some (alloc, deleg) \<longrightarrow>
        (\<forall>mc p. answer_page E log mc = Some p \<longrightarrow> phys_page p \<and> p \<notin> alloc \<and> p \<notin> deleg) \<and>
        (\<forall>g p k. answer_pfn E log g = Some p \<longrightarrow> k < pages_of E (push_bit (PAGE_SHIFT E) 1) \<longrightarrow>
           p + of_nat k * PAGE_SIZE E \<notin> alloc) \<and>
        (\<forall>p. c_int (res_a0 (answer_smc E log (SMC_RMI_GRANULE_DELEGATE E) [p])) = 0 \<longrightarrow> p \<notin> deleg) \<and>
        (\<forall>p. c_int (res_a0 (answer_smc E log (SMC_RMI_GRANULE_UNDELEGATE E) [p])) = 0 \<longrightarrow>
           phys_page p \<and> p \<in> deleg))"

definition handed_out :: "host_env \<Rightarrow> u64 \<Rightarrow> bool" where
  "handed_out E p \<longleftrightarrow> phys_page p \<and> (\<exists>log mc. answer_page E log mc = Some p)"

text \<open>
  The pages \<open>T\<close> are held by the kernel: allocated and not delegated. All allocated pages are pages
  that the allocator can hand out.
\<close>

definition holds :: "host_env \<Rightarrow> u64 set \<Rightarrow> host \<Rightarrow> bool" where
  "holds E T h \<longleftrightarrow> pages_ok E \<and>
     (\<exists>alloc deleg. page_run E (hlog h) = Some (alloc, deleg) \<and> T \<subseteq> alloc \<and> T \<inter> deleg = {} \<and>
        (\<forall>p \<in> alloc. handed_out E p))"

lemma hlog_emit [simp]: "hlog (emit e h) = e # hlog h"
  by (simp add: emit_def)

lemma hlog_set_realm [simp]: "hlog (set_realm f h) = hlog h"
  by (simp add: set_realm_def)

lemma holds_log: "hlog h = hlog h' \<Longrightarrow> holds E T h = holds E T h'"
  by (simp add: holds_def)

lemma holds_mono: "holds E T h \<Longrightarrow> T' \<subseteq> T \<Longrightarrow> holds E T' h"
  unfolding holds_def by blast

lemma holds_ok: "holds E T h \<Longrightarrow> pages_ok E" "holds E T h \<Longrightarrow> smccc_ok E"
  by (simp_all add: holds_def pages_ok_def)

lemma linear_map:
  "holds E T h \<Longrightarrow> phys_page p \<Longrightarrow> virt_to_phys E (phys_to_virt E p) = p"
  "holds E T h \<Longrightarrow> phys_page p \<Longrightarrow> phys_to_virt E p \<noteq> 0"
  by (simp_all add: holds_def pages_ok_def)

lemma holds_quiet: "holds E T h \<Longrightarrow> quiet e \<Longrightarrow> holds E T (emit e h)"
  unfolding holds_def by (cases e) auto

lemma holds_smc:
  "holds E T h \<Longrightarrow> fid \<noteq> SMC_RMI_GRANULE_DELEGATE E \<Longrightarrow> holds E T (emit (Smc fid args res) h)"
  unfolding holds_def by (auto split: if_splits)

section \<open>Delegation\<close>

lemma holds_delegate:
  assumes "holds E T h" "p \<notin> T"
  shows "holds E T (snd (rmi_granule_delegate E p h))"
  using assms unfolding holds_def
  by (auto simp: rmi_granule_delegate_def arm_smccc_1_1_invoke_def Let_def)

lemma holds_delegate_failed:
  assumes "holds E T h" "rmi_granule_delegate E p h = (ret, h')" "ret \<noteq> 0"
  shows "holds E T h'"
  using assms unfolding holds_def
  by (auto simp: rmi_granule_delegate_def arm_smccc_1_1_invoke_def Let_def)

lemma holds_undelegate:
  assumes "holds E T h" "rmi_granule_undelegate E p h = (ret, h')"
  shows "holds E T h'"
proof -
  have "SMC_RMI_GRANULE_UNDELEGATE E \<noteq> SMC_RMI_GRANULE_DELEGATE E"
    using holds_ok(2) [OF assms(1)] by (simp add: smc_rmi_values)
  then show ?thesis
    using holds_smc [OF assms(1)] assms(2)
    by (auto simp: rmi_granule_undelegate_def arm_smccc_1_1_invoke_def Let_def)
qed

text \<open>A page that the monitor has given back is not held, and can be freed.\<close>

lemma holds_undelegated:
  assumes h: "holds E T h" and u: "rmi_granule_undelegate E p h = (0, h')"
  shows "holds E T (emit (Page_free p) h')" "phys_page p"
proof -
  obtain alloc deleg where r: "page_run E (hlog h) = Some (alloc, deleg)" "T \<subseteq> alloc" "T \<inter> deleg = {}"
      "\<forall>p \<in> alloc. handed_out E p"
    using h by (auto simp: holds_def)
  have ids: "SMC_RMI_GRANULE_UNDELEGATE E \<noteq> SMC_RMI_GRANULE_DELEGATE E"
    using holds_ok(2) [OF h] by (simp add: smc_rmi_values)
  have a: "c_int (res_a0 (answer_smc E (hlog h) (SMC_RMI_GRANULE_UNDELEGATE E) [p])) = 0"
      and h': "hlog h' = Smc (SMC_RMI_GRANULE_UNDELEGATE E) [p]
                           (answer_smc E (hlog h) (SMC_RMI_GRANULE_UNDELEGATE E) [p]) # hlog h"
    using u by (auto simp: rmi_granule_undelegate_def arm_smccc_1_1_invoke_def Let_def)
  have "phys_page p \<and> p \<in> deleg" using holds_ok(1) [OF h] r(1) a unfolding pages_ok_def by blast
  then show "holds E T (emit (Page_free p) h')" "phys_page p" using h r a ids by (auto simp: holds_def h')
qed

section \<open>Allocation\<close>

lemma holds_get_page:
  assumes h: "holds E T h" and g: "get_free_page E mc h = (page, h')"
  shows "holds E T h'" "page = Some p \<Longrightarrow> p \<notin> T" "page = Some p \<Longrightarrow> holds E (insert p T) h'"
    "page = Some p \<Longrightarrow> phys_page p"
proof -
  obtain alloc deleg where r: "page_run E (hlog h) = Some (alloc, deleg)" "T \<subseteq> alloc" "T \<inter> deleg = {}"
      "\<forall>p \<in> alloc. handed_out E p"
    using h by (auto simp: holds_def)
  have page: "page = answer_page E (hlog h) mc" and h': "hlog h' = Page_alloc mc page # hlog h"
    using g by (auto simp: get_free_page_def Let_def)
  have n: "phys_page p \<and> p \<notin> alloc \<and> p \<notin> deleg" if "page = Some p" for p
    using holds_ok(1) [OF h] r(1) that unfolding pages_ok_def page by blast
  have o: "page = Some p \<Longrightarrow> handed_out E p" for p using n page unfolding handed_out_def by metis
  show "holds E T h'" using h r n o by (cases page) (auto simp: holds_def h')
  show "page = Some p \<Longrightarrow> p \<notin> T" "page = Some p \<Longrightarrow> phys_page p" using n r by auto
  show "page = Some p \<Longrightarrow> holds E (insert p T) h'" using h r n o by (auto simp: holds_def h')
qed

lemma holds_free_held:
  assumes "holds E T h" "p \<in> T"
  shows "holds E (T - {p}) (emit (Page_free p) h)"
  using assms by (auto simp: holds_def)

lemma holds_free_page:
  assumes "holds E T h" "virt \<noteq> 0 \<Longrightarrow> virt_to_phys E virt \<in> T"
  shows "holds E (T - {virt_to_phys E virt}) (free_page E virt h)"
  using holds_free_held [OF assms(1)] assms(2) holds_mono [OF assms(1)] by (auto simp: free_page_def)

lemma holds_warn: "holds E T h \<Longrightarrow> holds E T (WARN_ON c h)"
  by (simp add: WARN_ON_def holds_quiet)

lemma holds_alloc:
  assumes h: "holds E T h"
  shows "holds E T (snd (alloc_delegated_page_gfp E mc h))"
proof (cases "spare_page (realm_of h) = PHYS_ADDR_MAX E")
  case False
  then show ?thesis using h by (simp add: alloc_delegated_page_gfp_def holds_log [of "set_realm _ _" h])
next
  case True
  obtain page h1 where g: "get_free_page E mc h = (page, h1)" by fastforce
  show ?thesis
  proof (cases page)
    case None
    then show ?thesis using True g holds_get_page(1) [OF h g] by (simp add: alloc_delegated_page_gfp_def)
  next
    case (Some p)
    obtain ret h2 where d: "rmi_granule_delegate E p h1 = (ret, h2)" by fastforce
    have held: "p \<notin> T" "holds E (insert p T) h1" using holds_get_page(2,3) [OF h g] Some by auto
    have "ret = 0 \<Longrightarrow> holds E T h2"
      using holds_delegate [OF holds_get_page(1) [OF h g] held(1)] d by simp
    moreover have "ret \<noteq> 0 \<Longrightarrow> holds E T (emit (Page_free p) h2)"
      using holds_free_held [OF holds_delegate_failed [OF held(2) d], of p] held(1) by simp
    ultimately show ?thesis
      using True Some g d linear_map [OF h holds_get_page(4) [OF h g Some]]
      by (auto simp: alloc_delegated_page_gfp_def Let_def free_page_def)
  qed
qed

lemma holds_release:
  assumes h: "holds E T h"
  shows "holds E T (release_rtt E p h)"
proof -
  obtain ret h1 where u: "rmi_granule_undelegate E p h = (ret, h1)" by fastforce
  show ?thesis
    using holds_undelegate [OF h u] holds_undelegated [OF h, of p h1] u linear_map [OF h, of p]
    by (auto simp: release_rtt_def Let_def WARN_ON_def holds_quiet free_page_def)
qed

lemma holds_free_delegated:
  assumes h: "holds E T h"
  shows "holds E T (free_delegated_page E p h)"
proof -
  obtain ret h1 where u: "rmi_granule_undelegate E p h = (ret, h1)" by fastforce
  show ?thesis
    using holds_undelegate [OF h u] holds_undelegated [OF h, of p h1] u linear_map [OF h, of p] h
    by (auto simp: free_delegated_page_def Let_def WARN_ON_def holds_quiet free_page_def
        holds_log [of "set_realm _ _" h])
qed

lemma other_calls:
  assumes "smccc_ok E" "fid \<in> table_calls E \<union> populate_calls E"
  shows "fid \<noteq> SMC_RMI_GRANULE_DELEGATE E"
  using assms by (auto simp: table_calls_def populate_calls_def smc_rmi_values)

interpretation pages: new_realm_invariant E T "holds E T" for E T
proof
  fix h fid args res p mc g k e
  assume h: "holds E T h"
  note call = holds_smc [OF h other_calls [OF holds_ok(2) [OF h]]]
  show "quiet e \<Longrightarrow> holds E T (emit e h)" by (rule holds_quiet [OF h])
  show "fid \<in> table_calls E \<Longrightarrow> holds E T (emit (Smc fid args res) h)" by (rule call) simp
  show "fid \<in> populate_calls E \<Longrightarrow> holds E T (emit (Smc fid args res) h)" by (rule call) simp
  show "p \<notin> T \<Longrightarrow> holds E T (snd (rmi_granule_delegate E p h))" by (rule holds_delegate [OF h])
  show "holds E T (snd (alloc_delegated_page_gfp E mc h))" by (rule holds_alloc [OF h])
  show "holds E T (free_delegated_page E p h)" by (rule holds_free_delegated [OF h])
  show "holds E T (release_rtt E p h)" by (rule holds_release [OF h])
  show "answer_pfn E (hlog h) g = Some p \<Longrightarrow> k < pages_of E (push_bit (PAGE_SHIFT E) 1) \<Longrightarrow>
      p + of_nat k * PAGE_SIZE E \<notin> T"
    using h unfolding holds_def pages_ok_def by blast
qed

end
