(* ===== verification/Kvm_Effects.thy ===== *)
theory Kvm_Effects
  imports Kvm_Owner
begin

text \<open>
  The exact effect of single steps and of the short loops of Kvm_Realm and Kvm_Rec on the pages
  that are allocated and delegated, on the warnings and on the rest of the state. The error
  paths are analysed with them: what they give back, and when.
\<close>

section \<open>Single steps\<close>

definition pages_at :: "host_env \<Rightarrow> host \<Rightarrow> page_state option" where
  "pages_at E h = page_run E (hlog h)"

definition warnings :: "host \<Rightarrow> nat" where
  "warnings h = length (filter (\<lambda>e. e = Warn) (hlog h))"

text \<open>A step that only does something to the world outside.\<close>

definition outside :: "host \<Rightarrow> host \<Rightarrow> bool" where
  "outside h h' \<longleftrightarrow> h' = h\<lparr>hlog := hlog h'\<rparr>"

lemma outside_refl [simp]: "outside h h"
  by (simp add: outside_def)

lemma outside_trans: "outside h h1 \<Longrightarrow> outside h1 h2 \<Longrightarrow> outside h h2"
  unfolding outside_def by (cases h; cases h1; cases h2) simp

lemma outside_emit [simp]: "outside h (emit e h)"
  by (simp add: outside_def emit_def)

lemma outside_fields:
  assumes "outside h h'"
  shows "realm_of h' = realm_of h" "params_page h' = params_page h" "rec_params_page h' = rec_params_page h"
    "rmm_feat_reg0 h' = rmm_feat_reg0 h" "rme_vmid_bitmap h' = rme_vmid_bitmap h"
  using assms unfolding outside_def by (cases h; cases h'; simp)+

lemma warnings_emit [simp]: "warnings (emit e h) = (if e = Warn then Suc (warnings h) else warnings h)"
  by (simp add: warnings_def)

lemma warnings_on [simp]: "warnings (WARN_ON c h) = (if c then Suc (warnings h) else warnings h)"
  by (simp add: WARN_ON_def)

lemma pages_at_on [simp]: "pages_at E (WARN_ON c h) = pages_at E h"
  by (cases "page_run E (hlog h)") (auto simp: WARN_ON_def pages_at_def)

lemma realm_of_emit [simp]: "realm_of (emit e h) = realm_of h"
  by (simp add: emit_def)

lemma realm_of_on [simp]: "realm_of (WARN_ON c h) = realm_of h"
  by (simp add: WARN_ON_def)

lemma outside_on [simp]: "outside h (WARN_ON c h)"
  by (simp add: WARN_ON_def)

lemma set_realm_effects [simp]:
  "pages_at E (set_realm f h) = pages_at E h" "warnings (set_realm f h) = warnings h"
  "pages_at E (set_params g h) = pages_at E h" "warnings (set_params g h) = warnings h"
  "realm_of (set_params g h) = realm_of h" "realm_of (set_realm f h) = f (realm_of h)"
  "rme_vmid_bitmap (set_realm f h) = rme_vmid_bitmap h" "rme_vmid_bitmap (set_params g h) = rme_vmid_bitmap h"
  by (simp_all add: pages_at_def warnings_def set_realm_def set_params_def)

lemma holds_pages_at: "holds E T h \<longleftrightarrow> pages_ok E \<and> 
    (\<exists>A D. pages_at E h = Some (A, D) \<and> T \<subseteq> A \<and> T \<inter> D = {} \<and> (\<forall>p \<in> A. handed_out E p))"
  by (simp add: holds_def pages_at_def)

lemma call_effect:
  assumes "arm_smccc_1_1_invoke E fid args h = (res, h')"
  shows "outside h h'" "warnings h' = warnings h"
    "pages_at E h = Some (A, D) \<Longrightarrow> fid \<noteq> SMC_RMI_GRANULE_DELEGATE E \<Longrightarrow> fid \<noteq> SMC_RMI_GRANULE_UNDELEGATE E \<Longrightarrow>
       pages_at E h' = Some (A, D)"
  using assms by (auto simp: arm_smccc_1_1_invoke_def Let_def pages_at_def)

lemma delegate_effect:
  assumes "rmi_granule_delegate E p h = (ret, h')"
  shows "outside h h'" "warnings h' = warnings h"
    "pages_ok E \<Longrightarrow> pages_at E h = Some (A, D) \<Longrightarrow> ret = 0 \<Longrightarrow> p \<notin> D \<and> pages_at E h' = Some (A, insert p D)"
    "pages_at E h = Some (A, D) \<Longrightarrow> ret \<noteq> 0 \<Longrightarrow> pages_at E h' = Some (A, D)"
  using assms by (auto simp: rmi_granule_delegate_def arm_smccc_1_1_invoke_def Let_def pages_at_def pages_ok_def)

lemma undelegate_effect:
  assumes "rmi_granule_undelegate E p h = (ret, h')"
  shows "outside h h'" "warnings h' = warnings h"
    "pages_ok E \<Longrightarrow> pages_at E h = Some (A, D) \<Longrightarrow> ret = 0 \<Longrightarrow> p \<in> D \<and> pages_at E h' = Some (A, D - {p})"
    "pages_ok E \<Longrightarrow> pages_at E h = Some (A, D) \<Longrightarrow> ret \<noteq> 0 \<Longrightarrow> pages_at E h' = Some (A, D)"
  using assms
  by (auto simp: rmi_granule_undelegate_def arm_smccc_1_1_invoke_def Let_def pages_at_def pages_ok_def smc_rmi_values)

lemma get_page_effect:
  assumes "get_free_page E mc h = (page, h')"
  shows "outside h h'" "warnings h' = warnings h"
    "pages_ok E \<Longrightarrow> pages_at E h = Some (A, D) \<Longrightarrow> page = Some p \<Longrightarrow>
       handed_out E p \<and> p \<notin> A \<and> p \<notin> D \<and> pages_at E h' = Some (insert p A, D)"
    "pages_at E h = Some (A, D) \<Longrightarrow> page = None \<Longrightarrow> pages_at E h' = Some (A, D)"
  using assms by (auto simp: get_free_page_def Let_def pages_at_def pages_ok_def handed_out_def)

lemma free_effect:
  "outside h (free_page E v h)" "warnings (free_page E v h) = warnings h"
  "pages_at E h = Some (A, D) \<Longrightarrow> v \<noteq> 0 \<Longrightarrow> virt_to_phys E v \<notin> D \<Longrightarrow>
     pages_at E (free_page E v h) = Some (A - {virt_to_phys E v}, D)"
  "pages_at E (free_page E 0 h) = pages_at E h"
  by (simp_all add: free_page_def pages_at_def)

text \<open>The calls of the realm's life change no page.\<close>

lemma life_call_effect:
  assumes "pages_ok E" "pages_at E h = Some (A, D)"
  shows
    "rmi_realm_create E a b h = (r, h') \<Longrightarrow> outside h h' \<and> warnings h' = warnings h \<and> pages_at E h' = Some (A, D)"
    "rmi_realm_activate E a h = (r, h') \<Longrightarrow> outside h h' \<and> warnings h' = warnings h \<and> pages_at E h' = Some (A, D)"
    "rmi_realm_destroy E a h = (r, h') \<Longrightarrow> outside h h' \<and> warnings h' = warnings h \<and> pages_at E h' = Some (A, D)"
    "rmi_rec_aux_count E a h = (r, x, h') \<Longrightarrow> outside h h' \<and> warnings h' = warnings h \<and> pages_at E h' = Some (A, D)"
    "rmi_rec_create E a b c h = (r, h') \<Longrightarrow> outside h h' \<and> warnings h' = warnings h \<and> pages_at E h' = Some (A, D)"
    "rmi_rec_destroy E a h = (r, h') \<Longrightarrow> outside h h' \<and> warnings h' = warnings h \<and> pages_at E h' = Some (A, D)"
    "rmi_rec_enter E a b h = (r, h') \<Longrightarrow> outside h h' \<and> warnings h' = warnings h \<and> pages_at E h' = Some (A, D)"
    "rmi_psci_complete E a b c h = (r, h') \<Longrightarrow> outside h h' \<and> warnings h' = warnings h \<and> pages_at E h' = Some (A, D)"
proof -
  have ok: "smccc_ok E" using assms(1) by (simp add: pages_ok_def)
  have call: "arm_smccc_1_1_invoke E fid args h = (res, h') \<Longrightarrow> fid \<noteq> SMC_RMI_GRANULE_DELEGATE E \<Longrightarrow>
      fid \<noteq> SMC_RMI_GRANULE_UNDELEGATE E \<Longrightarrow>
      outside h h' \<and> warnings h' = warnings h \<and> pages_at E h' = Some (A, D)" for fid args res h'
    using call_effect [of E fid args h res h'] assms(2) by blast
  note defs = rmi_cmd_defs
  show "rmi_realm_create E a b h = (r, h') \<Longrightarrow> outside h h' \<and> warnings h' = warnings h \<and> pages_at E h' = Some (A, D)"
    "rmi_realm_activate E a h = (r, h') \<Longrightarrow> outside h h' \<and> warnings h' = warnings h \<and> pages_at E h' = Some (A, D)"
    "rmi_realm_destroy E a h = (r, h') \<Longrightarrow> outside h h' \<and> warnings h' = warnings h \<and> pages_at E h' = Some (A, D)"
    "rmi_rec_aux_count E a h = (r, x, h') \<Longrightarrow> outside h h' \<and> warnings h' = warnings h \<and> pages_at E h' = Some (A, D)"
    "rmi_rec_create E a b c h = (r, h') \<Longrightarrow> outside h h' \<and> warnings h' = warnings h \<and> pages_at E h' = Some (A, D)"
    "rmi_rec_destroy E a h = (r, h') \<Longrightarrow> outside h h' \<and> warnings h' = warnings h \<and> pages_at E h' = Some (A, D)"
    "rmi_rec_enter E a b h = (r, h') \<Longrightarrow> outside h h' \<and> warnings h' = warnings h \<and> pages_at E h' = Some (A, D)"
    "rmi_psci_complete E a b c h = (r, h') \<Longrightarrow> outside h h' \<and> warnings h' = warnings h \<and> pages_at E h' = Some (A, D)"
    by (auto simp: defs smc_rmi_values [OF ok] split: prod.splits dest!: call)
qed

section \<open>Root tables\<close>

definition tables :: "host_env \<Rightarrow> u64 \<Rightarrow> nat \<Rightarrow> u64 set" where
  "tables E base n = (\<lambda>k. base + of_nat k * PAGE_SIZE E) ` {..<n}"

lemma tables_Suc: "tables E base (Suc n) = insert (base + of_nat n * PAGE_SIZE E) (tables E base n)"
  by (simp add: tables_def lessThan_Suc)

lemma tables_0 [simp]: "tables E base 0 = {}"
  by (simp add: tables_def)

text \<open>The first \<open>n\<close> tables are pairwise different and none is in \<open>D\<close>.\<close>

definition fresh_tables :: "host_env \<Rightarrow> u64 \<Rightarrow> nat \<Rightarrow> u64 set \<Rightarrow> bool" where
  "fresh_tables E base n D \<longleftrightarrow> (\<forall>k < n. base + of_nat k * PAGE_SIZE E \<notin> D \<union> tables E base k)"

lemma delegate_pgds_effect:
  assumes "delegate_pgds E base n i h = (failed, j, h')"
    and "pages_ok E" "pages_at E h = Some (A, D \<union> tables E base i)" "fresh_tables E base i D"
  shows "outside h h' \<and> warnings h' = warnings h \<and> pages_at E h' = Some (A, D \<union> tables E base j) \<and>
    fresh_tables E base j D \<and> j \<le> i + n \<and> (\<not> failed \<longrightarrow> j = i + n)"
  using assms
proof (induction n arbitrary: i h)
  case (Suc n)
  let ?p = "base + of_nat i * PAGE_SIZE E"
  obtain ret h1 where d: "rmi_granule_delegate E ?p h = (ret, h1)" by fastforce
  note e = delegate_effect [OF d]
  show ?case
  proof (cases "ret = 0")
    case True
    have "?p \<notin> D \<union> tables E base i" and at: "pages_at E h1 = Some (A, D \<union> tables E base (Suc i))"
      using e(3) [OF Suc.prems(2,3) True] by (auto simp: tables_Suc)
    then have "fresh_tables E base (Suc i) D"
      using Suc.prems(4) by (auto simp: fresh_tables_def less_Suc_eq)
    then have "outside h1 h' \<and> warnings h' = warnings h1 \<and> pages_at E h' = Some (A, D \<union> tables E base j) \<and>
        fresh_tables E base j D \<and> j \<le> Suc i + n \<and> (\<not> failed \<longrightarrow> j = Suc i + n)"
      using Suc.IH [of "Suc i" h1] Suc.prems(1,2) at d True by simp
    then show ?thesis using e(1,2) outside_trans [of h h1 h'] by auto
  next
    case False
    then show ?thesis using Suc.prems d e(1,2) e(4) [OF Suc.prems(3)] by auto
  qed
qed simp

lemma delegate_pgds_warnings: "delegate_pgds E base n i h = (failed, j, h') \<Longrightarrow> warnings h' = warnings h"
proof (induction n arbitrary: i h)
  case (Suc n)
  obtain ret h1 where d: "rmi_granule_delegate E (base + of_nat i * PAGE_SIZE E) h = (ret, h1)" by fastforce
  show ?case using Suc.IH [of "Suc i" h1] Suc.prems delegate_effect(2) [OF d] d by (auto split: if_splits)
qed simp

lemma undelegate_pgds_warnings: "warnings h \<le> warnings (undelegate_pgds E base i h)"
proof (induction i arbitrary: h)
  case (Suc i)
  obtain ret h1 where d: "rmi_granule_undelegate E (base + of_nat i * PAGE_SIZE E) h = (ret, h1)" by fastforce
  show ?case using Suc [of "WARN_ON (ret \<noteq> 0) h1"] undelegate_effect(2) [OF d] d by (auto split: if_splits)
qed simp

lemma undelegate_pgds_effect:
  assumes "pages_ok E" "pages_at E h = Some (A, D \<union> tables E base i)" "fresh_tables E base i D"
    and "warnings (undelegate_pgds E base i h) = warnings h"
  shows "outside h (undelegate_pgds E base i h) \<and> pages_at E (undelegate_pgds E base i h) = Some (A, D)"
  using assms
proof (induction i arbitrary: h)
  case (Suc i)
  let ?p = "base + of_nat i * PAGE_SIZE E"
  obtain ret h1 where d: "rmi_granule_undelegate E ?p h = (ret, h1)" by fastforce
  note e = undelegate_effect [OF d]
  have z: "ret = 0"
    using Suc.prems(4) d e(2) undelegate_pgds_warnings [of "WARN_ON (ret \<noteq> 0) h1" E base i]
    by (auto split: if_splits)
  have f: "?p \<notin> D \<union> tables E base i" "fresh_tables E base i D"
    using Suc.prems(3) by (auto simp: fresh_tables_def)
  have "pages_at E h1 = Some (A, D \<union> tables E base i)"
    using e(3) [OF Suc.prems(1,2) z] f(1) by (simp add: tables_Suc insert_Diff_if)
  then show ?case
    using Suc.IH [of h1] Suc.prems(1,4) f(2) d z e(1,2) outside_trans [of h h1] by (simp add: WARN_ON_def)
qed simp

section \<open>The realm descriptor\<close>

lemma out_undelegate_warnings: "warnings h \<le> warnings (out_undelegate_tables E vm rd rd_pa i h)"
proof -
  obtain ret h1 where d: "rmi_granule_undelegate E rd_pa (undelegate_pgds E (pgd_phys vm) i h) = (ret, h1)" by fastforce
  show ?thesis
    using undelegate_pgds_warnings [of h E "pgd_phys vm" i] undelegate_effect(2) [OF d] d
    by (auto simp: out_undelegate_tables_def Let_def free_effect(2))
qed

text \<open>The error path of the descriptor gives everything back if it does not warn.\<close>

lemma out_undelegate_effect:
  assumes ok: "pages_ok E"
    and at: "pages_at E h = Some (insert p A, insert p D \<union> tables E (pgd_phys vm) i)"
    and p: "p \<notin> A" "p \<notin> D" "handed_out E p"
    and f: "fresh_tables E (pgd_phys vm) i (insert p D)"
    and w: "warnings (out_undelegate_tables E vm (phys_to_virt E p) p i h) = warnings h"
  shows "outside h (out_undelegate_tables E vm (phys_to_virt E p) p i h) \<and>
    pages_at E (out_undelegate_tables E vm (phys_to_virt E p) p i h) = Some (A, D)"
proof -
  have v: "virt_to_phys E (phys_to_virt E p) = p" "phys_to_virt E p \<noteq> 0" using ok p(3) by (simp_all add: pages_ok_def handed_out_def)
  let ?h0 = "undelegate_pgds E (pgd_phys vm) i h"
  obtain ret h1 where d: "rmi_granule_undelegate E p ?h0 = (ret, h1)" by fastforce
  note e = undelegate_effect [OF d]
  have out: "out_undelegate_tables E vm (phys_to_virt E p) p i h = free_page E (phys_to_virt E p) (WARN_ON (ret \<noteq> 0) h1)"
    using d by (simp add: out_undelegate_tables_def)
  have z: "ret = 0" and w0: "warnings ?h0 = warnings h"
    using w undelegate_pgds_warnings [of h E "pgd_phys vm" i] e(2) by (auto simp: out free_effect(2) split: if_splits)
  have h0: "outside h ?h0" "pages_at E ?h0 = Some (insert p A, insert p D)"
    using undelegate_pgds_effect [OF ok at f w0] by simp_all
  have h1: "pages_at E h1 = Some (insert p A, D)"
    using e(3) [OF ok h0(2) z] p by simp
  have "pages_at E (free_page E (phys_to_virt E p) h1) = Some (insert p A - {p}, D)"
    using free_effect(3) [OF h1 v(2)] p v(1) by simp
  then show ?thesis
    using out z p h0(1) e(1) outside_trans [OF outside_trans [OF h0(1) e(1)] free_effect(1)] by (simp add: WARN_ON_def)
qed

definition root_tables :: "host_env \<Rightarrow> kvm_vm \<Rightarrow> nat" where
  "root_tables E vm = unat (kvm_pgd_pages E (pgt_ia_bits vm) (pgt_start_level vm))"

text \<open>
  A run without a warning: either it fails and all pages are as before the descriptor was
  allocated, or the descriptor and the root tables are delegated.
\<close>

definition rd_created :: "host_env \<Rightarrow> kvm_vm \<Rightarrow> u64 set \<Rightarrow> u64 set \<Rightarrow> u64 \<Rightarrow> host \<Rightarrow> host \<Rightarrow> bool" where
  "rd_created E vm A D p h h' \<longleftrightarrow>
     pages_at E h' = Some (insert p A, insert p D \<union> tables E (pgd_phys vm) (root_tables E vm)) \<and>
     fresh_tables E (pgd_phys vm) (root_tables E vm) (insert p D) \<and>
     (\<exists>aux. realm_of h' = (realm_of h)\<lparr>ia_bits := VTCR_EL2_IPA E (vtcr vm), r_rd := phys_to_virt E p,
        spare_page := PHYS_ADDR_MAX E, num_aux := aux\<rparr>)"

definition rd_not_created :: "host_env \<Rightarrow> u64 set \<Rightarrow> u64 set \<Rightarrow> host \<Rightarrow> host \<Rightarrow> bool" where
  "rd_not_created E A D h h' \<longleftrightarrow> pages_at E h' = Some (A, D) \<and> (\<exists>b. realm_of h' = (realm_of h)\<lparr>ia_bits := b\<rparr>)"

lemma rd_not_created_outside: "outside h h' \<Longrightarrow> pages_at E h' = Some (A, D) \<Longrightarrow> rd_not_created E A D h h'"
  using outside_fields(1) [of h h'] by (auto simp: rd_not_created_def intro: exI [of _ "ia_bits (realm_of h)"])

text \<open>The three ways through the command: refused, created, and created without a count of auxiliary pages.\<close>

definition rd_params_set :: "host_env \<Rightarrow> kvm_vm \<Rightarrow> u32 \<Rightarrow> host \<Rightarrow> host" where
  "rd_params_set E vm pgd_sz h = set_params (\<lambda>q. q\<lparr>rtt_level_start := get_start_level E ((realm_of h)\<lparr>ia_bits := VTCR_EL2_IPA E (vtcr vm)\<rparr>),
      rtt_num_start := ucast pgd_sz, rtt_base := pgd_phys vm, p_vmid := ucast (r_vmid (realm_of h))\<rparr>)
        (set_realm (\<lambda>r. r\<lparr>ia_bits := VTCR_EL2_IPA E (vtcr vm)\<rparr>) h)"

lemma rd_params_set_effects [simp]:
  "pages_at E (rd_params_set E vm sz h) = pages_at E h" "warnings (rd_params_set E vm sz h) = warnings h"
  "rme_vmid_bitmap (rd_params_set E vm sz h) = rme_vmid_bitmap h" "hlog (rd_params_set E vm sz h) = hlog h"
  "realm_of (rd_params_set E vm sz h) = (realm_of h)\<lparr>ia_bits := VTCR_EL2_IPA E (vtcr vm)\<rparr>"
  by (simp_all add: rd_params_set_def) (simp add: set_params_def)

lemma create_rd_command_cases:
  assumes run: "create_rd_command E vm rd rd_pa pgd_sz i h = (r, h')"
  obtains
    (refused) c h2 where "rmi_realm_create E rd_pa (virt_to_phys E (r_params (realm_of h))) (rd_params_set E vm pgd_sz h) = (c, h2)"
      "c \<noteq> 0" "r = - ENXIO" "h' = out_undelegate_tables E vm rd rd_pa i h2"
  | (created) h2 aux h4 where "rmi_realm_create E rd_pa (virt_to_phys E (r_params (realm_of h))) (rd_params_set E vm pgd_sz h) = (0, h2)"
      "rmi_rec_aux_count E rd_pa (set_realm (\<lambda>r. r\<lparr>r_rd := rd, spare_page := PHYS_ADDR_MAX E\<rparr>) h2) = (0, aux, h4)"
      "r = 0" "h' = set_realm (\<lambda>r. r\<lparr>num_aux := aux\<rparr>) h4"
  | (no_count) h2 ra aux h4 rr h6 where "rmi_realm_create E rd_pa (virt_to_phys E (r_params (realm_of h))) (rd_params_set E vm pgd_sz h) = (0, h2)"
      "rmi_rec_aux_count E rd_pa (set_realm (\<lambda>r. r\<lparr>r_rd := rd, spare_page := PHYS_ADDR_MAX E\<rparr>) h2) = (ra, aux, h4)" "ra \<noteq> 0"
      "rmi_realm_destroy E rd_pa (emit Warn (set_realm (\<lambda>r. r\<lparr>num_aux := aux\<rparr>) h4)) = (rr, h6)"
      "r = uninitialised_r E" "h' = out_undelegate_tables E vm rd rd_pa i (WARN_ON (rr \<noteq> 0) h6)"
proof -
  obtain c h2 where c: "rmi_realm_create E rd_pa (virt_to_phys E (r_params (realm_of h))) (rd_params_set E vm pgd_sz h) = (c, h2)"
    by fastforce
  obtain ra aux h4 where a: "rmi_rec_aux_count E rd_pa (set_realm (\<lambda>r. r\<lparr>r_rd := rd, spare_page := PHYS_ADDR_MAX E\<rparr>) h2) = (ra, aux, h4)"
    using prod_cases3 by blast
  obtain rr h6 where d: "rmi_realm_destroy E rd_pa (emit Warn (set_realm (\<lambda>r. r\<lparr>num_aux := aux\<rparr>) h4)) = (rr, h6)" by fastforce
  show ?thesis
  proof (cases "c = 0")
    case False
    then show ?thesis
      using refused [OF c] run c by (auto simp: create_rd_command_def rd_params_set_def Let_def)
  next
    case c0: True
    show ?thesis
    proof (cases "ra = 0")
      case True
      then show ?thesis
        using created [of h2 aux h4] run c a c0 by (auto simp: create_rd_command_def rd_params_set_def Let_def WARN_ON_def)
    next
      case False
      then show ?thesis
        using no_count [of h2 ra aux h4 rr h6] run c a d c0
        by (auto simp: create_rd_command_def rd_params_set_def Let_def WARN_ON_def [of True])
    qed
  qed
qed

lemma no_count_warns:
  assumes "rmi_realm_create E a b (rd_params_set E vm sz h) = (0, h2)"
    and "rmi_rec_aux_count E p (set_realm f h2) = (ra, aux, h4)"
    and "rmi_realm_destroy E p (emit Warn (set_realm g h4)) = (rr, h6)"
  shows "warnings h < warnings (out_undelegate_tables E vm rd p i (WARN_ON (rr \<noteq> 0) h6))"
proof -
  have "warnings h6 = Suc (warnings h)"
    using assms by (auto simp: rmi_cmd_defs arm_smccc_1_1_invoke_def Let_def)
  then show ?thesis using out_undelegate_warnings [of "WARN_ON (rr \<noteq> 0) h6" E vm rd p i] by (auto split: if_splits)
qed

lemma create_rd_command_effect:
  assumes run: "create_rd_command E vm (phys_to_virt E p) p pgd_sz (root_tables E vm) h = (r, h')"
    and ok: "pages_ok E" and p: "p \<notin> A" "p \<notin> D" "handed_out E p"
    and at: "pages_at E h = Some (insert p A, insert p D \<union> tables E (pgd_phys vm) (root_tables E vm))"
    and f: "fresh_tables E (pgd_phys vm) (root_tables E vm) (insert p D)" and w: "warnings h' = warnings h"
  shows "rme_vmid_bitmap h' = rme_vmid_bitmap h \<and>
    (if r = 0 then rd_created E vm A D p h h' else rd_not_created E A D h h')"
  using run
proof (cases rule: create_rd_command_cases)
  case (refused c h2)
  have e: "outside (rd_params_set E vm pgd_sz h) h2" "warnings h2 = warnings h" "pages_at E h2 = pages_at E h"
    using life_call_effect(1) [OF ok _ refused(1)] at by auto
  have "outside h2 h'" "pages_at E h' = Some (A, D)"
    using out_undelegate_effect [OF ok _ p f, of h2] w e at refused(4) by simp_all
  then show ?thesis
    using refused(3) outside_fields [OF outside_trans [OF e(1)], of h'] by (auto simp: ENXIO_def rd_not_created_def)
next
  case (created h2 aux h4)
  have e: "outside (rd_params_set E vm pgd_sz h) h2" "pages_at E h2 = pages_at E h"
    using life_call_effect(1) [OF ok _ created(1)] at by auto
  have ea: "pages_at E h4 = pages_at E h"
      "outside (set_realm (\<lambda>r. r\<lparr>r_rd := phys_to_virt E p, spare_page := PHYS_ADDR_MAX E\<rparr>) h2) h4"
    using life_call_effect(4) [OF ok _ created(2)] e(2) at by auto
  show ?thesis
    using created(3,4) at f ea(1) outside_fields [OF ea(2)] outside_fields [OF e(1)] by (auto simp: rd_created_def)
next
  case (no_count h2 ra aux h4 rr h6)
  have False using no_count_warns [OF no_count(1,2,4), of "phys_to_virt E p" "root_tables E vm"] no_count(6) w by simp
  then show ?thesis ..
qed

lemma create_rd_tables_effect:
  assumes run: "create_rd_tables E vm (phys_to_virt E p) p h = (r, h')"
    and ok: "pages_ok E" and p: "p \<notin> A" "p \<notin> D" "handed_out E p"
    and at: "pages_at E h = Some (insert p A, insert p D)"
    and w: "warnings h' = warnings h"
  shows "rme_vmid_bitmap h' = rme_vmid_bitmap h \<and>
    (if r = 0 then rd_created E vm A D p h h' else rd_not_created E A D h h')"
proof -
  obtain failed i h1 where t: "delegate_pgds E (pgd_phys vm) (root_tables E vm) 0 h = (failed, i, h1)"
    using prod_cases3 by blast
  have e: "outside h h1" "warnings h1 = warnings h" "fresh_tables E (pgd_phys vm) i (insert p D)"
      "pages_at E h1 = Some (insert p A, insert p D \<union> tables E (pgd_phys vm) i)" "\<not> failed \<longrightarrow> i = root_tables E vm"
    using delegate_pgds_effect [OF t ok, of "insert p A" "insert p D"] at by (auto simp: fresh_tables_def)
  show ?thesis
  proof (cases failed)
    case True
    then have h': "h' = out_undelegate_tables E vm (phys_to_virt E p) p i h1" "r = - ENXIO"
      using run t by (simp_all add: create_rd_tables_def Let_def root_tables_def)
    then have "outside h1 h' \<and> pages_at E h' = Some (A, D)"
      using out_undelegate_effect [OF ok e(4) p e(3)] w e(2) by simp
    then show ?thesis
      using h'(2) rd_not_created_outside [OF outside_trans [OF e(1)], of h'] outside_fields(5) [OF outside_trans [OF e(1)], of h']
      by (simp add: ENXIO_def)
  next
    case False
    then have "create_rd_command E vm (phys_to_virt E p) p (kvm_pgd_pages E (pgt_ia_bits vm) (pgt_start_level vm))
        (root_tables E vm) h1 = (r, h')"
      using run t e(5) by (simp add: create_rd_tables_def Let_def root_tables_def)
    from create_rd_command_effect [OF this ok p] show ?thesis
      using e w False outside_fields [OF e(1)] by (auto simp: rd_created_def rd_not_created_def split: if_splits)
  qed
qed

lemma create_rd_effect:
  assumes run: "realm_create_rd E vm h = (r, h')"
    and ok: "pages_ok E" and at: "pages_at E h = Some (A, D)" and w: "warnings h' = warnings h"
  shows "r_rd (realm_of h) = 0" "r_params (realm_of h) \<noteq> 0" "rme_vmid_bitmap h' = rme_vmid_bitmap h"
    "r \<noteq> 0 \<Longrightarrow> rd_not_created E A D h h'"
    "r = 0 \<Longrightarrow> \<exists>p. handed_out E p \<and> p \<notin> A \<and> p \<notin> D \<and> rd_created E vm A D p h h'"
proof -
  show rd: "r_rd (realm_of h) = 0"
    using run w by (cases "r_rd (realm_of h) = 0") (auto simp: realm_create_rd_def Let_def)
  show pa: "r_params (realm_of h) \<noteq> 0"
    using run w rd by (cases "r_params (realm_of h) = 0") (auto simp: realm_create_rd_def Let_def WARN_ON_def)
  obtain page h1 where g: "get_free_page E False h = (page, h1)" by fastforce
  note eg = get_page_effect [OF g]
  have main: "rme_vmid_bitmap h' = rme_vmid_bitmap h \<and>
      (if r = 0 then \<exists>p. handed_out E p \<and> p \<notin> A \<and> p \<notin> D \<and> rd_created E vm A D p h h' else rd_not_created E A D h h')"
  proof (cases page)
    case None
    then have "h' = h1" "r = - ENOMEM" using run rd pa g by (simp_all add: realm_create_rd_def WARN_ON_def)
    then show ?thesis
      using eg(4) [OF at None] rd_not_created_outside [OF eg(1)] outside_fields(5) [OF eg(1)] by (simp add: ENOMEM_def)
  next
    case (Some p)
    have p: "p \<notin> A" "p \<notin> D" "handed_out E p" and at1: "pages_at E h1 = Some (insert p A, D)"
      using eg(3) [OF ok at Some] by simp_all
    have v: "virt_to_phys E (phys_to_virt E p) = p" "phys_to_virt E p \<noteq> 0" using ok p(3) by (simp_all add: pages_ok_def handed_out_def)
    obtain ret h2 where d: "rmi_granule_delegate E p h1 = (ret, h2)" by fastforce
    note ed = delegate_effect [OF d]
    note o2 = outside_trans [OF eg(1) ed(1)]
    show ?thesis
    proof (cases "ret = 0")
      case False
      have "pages_at E (free_page E (phys_to_virt E p) h2) = Some (A, D)"
        using free_effect(3) [OF ed(4) [OF at1 False] v(2)] p v by simp
      moreover have "h' = free_page E (phys_to_virt E p) h2" "r = - ENXIO"
        using run rd pa g Some d v False by (simp_all add: realm_create_rd_def WARN_ON_def Let_def)
      ultimately show ?thesis
        using rd_not_created_outside [OF outside_trans [OF o2 free_effect(1)]] outside_fields(5) [OF outside_trans [OF o2 free_effect(1)]]
        by (simp add: ENXIO_def)
    next
      case True
      then have "create_rd_tables E vm (phys_to_virt E p) p h2 = (r, h')"
        using run rd pa g Some d v by (simp add: realm_create_rd_def WARN_ON_def Let_def)
      from create_rd_tables_effect [OF this ok p] show ?thesis
        using ed(2) ed(3) [OF ok at1 True] eg(2) w p outside_fields [OF o2]
        by (auto simp: rd_created_def rd_not_created_def intro: exI [of _ p])
    qed
  qed
  show "rme_vmid_bitmap h' = rme_vmid_bitmap h" using main by simp
  show "r \<noteq> 0 \<Longrightarrow> rd_not_created E A D h h'" using main by simp
  show "r = 0 \<Longrightarrow> \<exists>p. handed_out E p \<and> p \<notin> A \<and> p \<notin> D \<and> rd_created E vm A D p h h'" using main by simp
qed

end
