(* ===== verification/Kvm_Rec_Effects.thy ===== *)
theory Kvm_Rec_Effects
  imports Kvm_Effects
begin

text \<open>
  The effect of creating a REC on the pages: the auxiliary pages, the three pages of the REC, and
  what the error paths give back.
\<close>

section \<open>Auxiliary pages\<close>

text \<open>The first \<open>i\<close> pages of the array are allocated and delegated on top of \<open>A\<close> and \<open>D\<close>.\<close>

definition aux_state :: "host_env \<Rightarrow> u64 set \<Rightarrow> u64 set \<Rightarrow> u64 list \<Rightarrow> nat \<Rightarrow> host \<Rightarrow> bool" where
  "aux_state E A D pages i h \<longleftrightarrow> i \<le> length pages \<and> distinct (take i pages) \<and> set (take i pages) \<inter> (A \<union> D) = {} \<and>
     pages_at E h = Some (A \<union> set (take i pages), D \<union> set (take i pages))"

lemma aux_state_Suc:
  assumes "aux_state E A D pages i h" "i < length pages" "p \<notin> A \<union> set (take i pages)" "p \<notin> D \<union> set (take i pages)"
    and "pages_at E h' = Some (insert p (A \<union> set (take i pages)), insert p (D \<union> set (take i pages)))"
  shows "aux_state E A D (pages[i := p]) (Suc i) h'"
proof -
  have "take (Suc i) (pages[i := p]) = take i pages @ [p]"
    using assms(2) by (simp add: take_Suc_conv_app_nth)
  then show ?thesis using assms by (auto simp: aux_state_def)
qed

lemma alloc_aux_effect:
  assumes "alloc_rec_aux_loop E n i pages phys h = Some ((ret, pages', phys', j), h')"
    and "pages_ok E" "aux_state E A D pages i h" "length phys = length pages"
  shows "outside h h' \<and> warnings h' = warnings h \<and> aux_state E A D pages' j h' \<and> length pages' = length pages \<and>
    (ret = 0 \<longrightarrow> j = i + n)"
  using assms
proof (induction n arbitrary: i pages phys h)
  case (Suc n)
  obtain page h1 where g: "get_free_page E False h = (page, h1)" by fastforce
  note eg = get_page_effect [OF g]
  have at: "pages_at E h = Some (A \<union> set (take i pages), D \<union> set (take i pages))"
    using Suc.prems(3) by (simp add: aux_state_def)
  show ?case
  proof (cases page)
    case None
    then show ?thesis using Suc.prems g eg eg(4) [OF at None] by (auto simp: aux_state_def ENOMEM_def)
  next
    case (Some p)
    have p: "p \<notin> A \<union> set (take i pages)" "p \<notin> D \<union> set (take i pages)"
      and at1: "pages_at E h1 = Some (insert p (A \<union> set (take i pages)), D \<union> set (take i pages))"
      using eg(3) [OF Suc.prems(2) at Some] by simp_all
    obtain d h2 where d: "rmi_granule_delegate E p h1 = (d, h2)" by fastforce
    note ed = delegate_effect [OF d]
    note o2 = outside_trans [OF eg(1) ed(1)]
    show ?thesis
    proof (cases "d = 0")
      case False
      have "pages_at E (emit (Page_free p) h2) = pages_at E h"
        using ed(4) [OF at1 False] p at by (simp add: pages_at_def)
      then show ?thesis
        using Suc.prems g Some d False eg(2) ed(2) outside_trans [OF o2 outside_emit]
        by (auto simp: aux_state_def ENXIO_def)
    next
      case True
      have i: "i < length pages" using Suc.prems(1,4) g Some d True by (auto split: if_splits)
      have "aux_state E A D (pages[i := p]) (Suc i) h2"
        using ed(3) [OF Suc.prems(2) at1 True] by (intro aux_state_Suc [OF Suc.prems(3) i p]) simp
      then show ?thesis
        using Suc.IH [of "Suc i" "pages[i := p]" "phys[i := p]" h2] Suc.prems(1,2,4) g Some d True eg(2) ed(2)
          outside_trans [OF o2, of h'] i by (auto split: if_splits)
    qed
  qed
qed simp

lemma free_aux_warnings: "free_rec_aux_loop E pages n i h = Some h' \<Longrightarrow> warnings h \<le> warnings h'"
proof (induction n arbitrary: i h)
  case (Suc n)
  obtain ret h1 where d: "rmi_granule_undelegate E (pages ! i) h = (ret, h1)" by fastforce
  show ?case
    using Suc.IH [of "Suc i" "if ret \<noteq> 0 then WARN_ON (ret \<noteq> 0) h1 else emit (Page_free (pages ! i)) (WARN_ON (ret \<noteq> 0) h1)"]
      Suc.prems undelegate_effect(2) [OF d] d by (auto simp: Let_def split: if_splits)
qed simp

text \<open>Without a warning, the pages from \<open>i\<close> on are given back.\<close>

lemma free_aux_effect:
  assumes "free_rec_aux_loop E pages n i h = Some h'" "pages_ok E" "warnings h' = warnings h"
    and "i + n \<le> length pages" "distinct (take n (drop i pages))" "set (take n (drop i pages)) \<inter> (A \<union> D) = {}"
    and "pages_at E h = Some (A \<union> set (take n (drop i pages)), D \<union> set (take n (drop i pages)))"
  shows "outside h h' \<and> pages_at E h' = Some (A, D)"
  using assms
proof (induction n arbitrary: i h)
  case (Suc n)
  let ?p = "pages ! i" and ?S = "set (take n (drop (Suc i) pages))"
  have i: "i < length pages" using Suc.prems(4) by simp
  have tk: "take (Suc n) (drop i pages) = ?p # take n (drop (Suc i) pages)"
    using i by (simp flip: Cons_nth_drop_Suc)
  obtain ret h1 where d: "rmi_granule_undelegate E ?p h = (ret, h1)" by fastforce
  note e = undelegate_effect [OF d]
  have run: "free_rec_aux_loop E pages n (Suc i)
      (if ret \<noteq> 0 then WARN_ON (ret \<noteq> 0) h1 else emit (Page_free ?p) (WARN_ON (ret \<noteq> 0) h1)) = Some h'"
    using Suc.prems(1) d i by (auto simp: Let_def split: if_splits)
  have z: "ret = 0"
    using free_aux_warnings [OF run] Suc.prems(3) e(2) by (auto split: if_splits)
  define h2 where "h2 = emit (Page_free ?p) h1"
  have "pages_at E h1 = Some (insert ?p (A \<union> ?S), (D \<union> ?S) - {?p})"
    using e(3) [OF Suc.prems(2,7) z] by (simp add: tk insert_Diff_if)
  moreover have p: "?p \<notin> A \<union> D \<union> ?S" using Suc.prems(5,6) by (auto simp: tk)
  ultimately have "pages_at E h2 = Some (A \<union> ?S, D \<union> ?S)"
    by (simp add: h2_def pages_at_def insert_Diff_if)
  moreover have "free_rec_aux_loop E pages n (Suc i) h2 = Some h'" using run z by (simp add: h2_def WARN_ON_def)
  ultimately have "outside h2 h' \<and> pages_at E h' = Some (A, D)"
    using Suc.IH [of "Suc i" h2] Suc.prems e(2) by (auto simp: tk h2_def)
  then show ?case using outside_trans [OF outside_trans [OF e(1) outside_emit]] by (auto simp: h2_def)
qed simp

lemma aux_state_freed:
  assumes "free_rec_aux_loop E pages i 0 h = Some h'" "pages_ok E" "warnings h' = warnings h" "aux_state E A D pages i h"
  shows "outside h h' \<and> pages_at E h' = Some (A, D)"
  using free_aux_effect [OF assms(1,2,3), of A D] assms(4) by (simp add: aux_state_def)

lemma alloc_rec_aux_effect:
  assumes run: "alloc_rec_aux E pages phys num h = Some ((ret, pages', phys'), h')"
    and ok: "pages_ok E" and at: "pages_at E h = Some (A, D)" and len: "length phys = length pages"
  shows "warnings h \<le> warnings h'"
    "warnings h' = warnings h \<Longrightarrow> ret \<noteq> 0 \<Longrightarrow> outside h h' \<and> pages_at E h' = Some (A, D)"
    "ret = 0 \<Longrightarrow> outside h h' \<and> warnings h' = warnings h \<and> aux_state E A D pages' (unat num) h'"
proof -
  obtain r p q j h1 where l: "alloc_rec_aux_loop E (unat num) 0 pages phys h = Some ((r, p, q, j), h1)"
    using run by (cases "alloc_rec_aux_loop E (unat num) 0 pages phys h") (auto simp: alloc_rec_aux_def)
  have e: "outside h h1" "warnings h1 = warnings h" "aux_state E A D p j h1" "r = 0 \<Longrightarrow> j = unat num"
    using alloc_aux_effect [OF l ok, of A D] at len by (auto simp: aux_state_def)
  have "ret = r" "pages' = p" using run l by (auto simp: alloc_rec_aux_def split: if_splits)
  moreover have "ret = 0 \<Longrightarrow> h' = h1" and f: "ret \<noteq> 0 \<Longrightarrow> free_rec_aux_loop E p j 0 h1 = Some h'"
    using run l by (auto simp: alloc_rec_aux_def split: if_splits)
  ultimately show "ret = 0 \<Longrightarrow> outside h h' \<and> warnings h' = warnings h \<and> aux_state E A D pages' (unat num) h'"
      and "warnings h \<le> warnings h'"
    using e free_aux_warnings [OF f] by (auto, cases "ret = 0", auto)
  show "warnings h' = warnings h \<Longrightarrow> ret \<noteq> 0 \<Longrightarrow> outside h h' \<and> pages_at E h' = Some (A, D)"
    using aux_state_freed [OF f ok _ e(3)] e(1,2) outside_trans [OF e(1)] by auto
qed

section \<open>The pages of a REC\<close>

definition phys_of :: "host_env \<Rightarrow> u64 \<Rightarrow> u64 set" where
  "phys_of E v = (if v = 0 then {} else {virt_to_phys E v})"

lemma free_phys_effect:
  assumes "pages_at E h = Some (B, D)" "phys_of E v \<inter> D = {}"
  shows "pages_at E (free_page E v h) = Some (B - phys_of E v, D)"
  using assms free_effect(3) [of E h B D v] free_effect(4) [of E h] by (auto simp: phys_of_def split: if_splits)

lemma get_phys_effect:
  assumes "get_free_page E mc h = (page, h')" "pages_ok E" "pages_at E h = Some (B, D)"
  shows "pages_at E h' = Some (B \<union> phys_of E (page_virt E page), D)" "phys_of E (page_virt E page) \<inter> (B \<union> D) = {}"
  using get_page_effect(3) [OF assms] get_page_effect(4) [OF assms(1,3)] assms(2)
  by (cases page; auto simp: phys_of_def page_virt_def pages_ok_def handed_out_def)+

lemma out_free_pages_effect:
  assumes "pages_at E h = Some (B, D)" "(phys_of E params \<union> phys_of E (rec_page rec) \<union> phys_of E (rec_run rec)) \<inter> D = {}"
  shows "outside h (out_free_pages E params rec h)" "warnings (out_free_pages E params rec h) = warnings h"
    "pages_at E (out_free_pages E params rec h) =
       Some (B - (phys_of E params \<union> phys_of E (rec_page rec) \<union> phys_of E (rec_run rec)), D)"
proof -
  let ?h1 = "free_page E (rec_run rec) h" and ?h2 = "free_page E (rec_page rec) (free_page E (rec_run rec) h)"
  have 1: "pages_at E ?h1 = Some (B - phys_of E (rec_run rec), D)"
    using assms by (intro free_phys_effect) auto
  have 2: "pages_at E ?h2 = Some (B - phys_of E (rec_run rec) - phys_of E (rec_page rec), D)"
    using assms by (intro free_phys_effect [OF 1]) auto
  have "pages_at E (free_page E params ?h2) = Some (B - phys_of E (rec_run rec) - phys_of E (rec_page rec) - phys_of E params, D)"
    using assms by (intro free_phys_effect [OF 2]) auto
  then show "pages_at E (out_free_pages E params rec h) =
       Some (B - (phys_of E params \<union> phys_of E (rec_page rec) \<union> phys_of E (rec_run rec)), D)"
    by (simp add: out_free_pages_def Diff_eq Un_ac Int_ac)
  show "outside h (out_free_pages E params rec h)" "warnings (out_free_pages E params rec h) = warnings h"
    using outside_trans [OF outside_trans [OF free_effect(1) free_effect(1)] free_effect(1)]
    by (simp_all add: out_free_pages_def free_effect(2))
qed

lemma out_undelegate_rec_effect:
  assumes run: "out_undelegate_rmm_rec E params b rec h = (rec', h')"
    and ok: "pages_ok E" and at: "pages_at E h = Some (A \<union> X, insert b D)" and b: "b \<notin> D"
    and X: "X = phys_of E params \<union> phys_of E (rec_page rec) \<union> phys_of E (rec_run rec)" "X \<inter> (A \<union> D) = {}"
  shows "warnings h \<le> warnings h'" "warnings h' = warnings h \<Longrightarrow> outside h h' \<and> pages_at E h' = Some (A, D)"
proof -
  obtain ret h1 where d: "rmi_granule_undelegate E b h = (ret, h1)" by fastforce
  note e = undelegate_effect [OF d]
  show "warnings h \<le> warnings h'"
    using run d e(2) by (auto simp: out_undelegate_rmm_rec_def out_free_pages_def free_effect(2) Let_def)
  show "outside h h' \<and> pages_at E h' = Some (A, D)" if "warnings h' = warnings h"
  proof -
    have z: "ret = 0" and h': "h' = out_free_pages E params rec h1"
      using run d e(2) that
      by (auto simp: out_undelegate_rmm_rec_def out_free_pages_def free_effect(2) Let_def WARN_ON_def split: if_splits)
    have at1: "pages_at E h1 = Some (A \<union> X, D)" using e(3) [OF ok at z] b by simp
    have "A \<union> X - X = A" using X(2) by auto
    then show ?thesis
      using out_free_pages_effect [OF at1, of params rec] X e(1) outside_trans [OF e(1)] by (auto simp: h')
  qed
qed

lemma out_undelegate_rec_warnings:
  "out_undelegate_rmm_rec E params b rec h = (rec', h') \<Longrightarrow> warnings h \<le> warnings h'"
  using undelegate_effect(2) [of E b h]
  by (auto simp: out_undelegate_rmm_rec_def out_free_pages_def free_effect(2) Let_def split: prod.splits)

lemma rec_params_effects [simp]:
  "pages_at E (h\<lparr>rec_params_page := p\<rparr>) = pages_at E h" "warnings (h\<lparr>rec_params_page := p\<rparr>) = warnings h"
  by (simp_all add: pages_at_def warnings_def)

text \<open>A failing creation without a warning gives back the pages \<open>X\<close> of the REC and the auxiliary pages.\<close>

lemma create_rec_command_effect:
  assumes run: "create_rec_command E vcpu params b rec p h = Some ((r, rec'), h')"
    and ok: "pages_ok E" and aux: "aux_state E (A \<union> X) (insert b D) (aux_pages rec) (unat (ucast (num_aux (realm_of h)) :: u32)) h"
    and X: "X = phys_of E params \<union> phys_of E (rec_page rec) \<union> phys_of E (rec_run rec)" "X \<inter> (A \<union> D) = {}" "b \<notin> D"
    and w: "warnings h' = warnings h" and r: "r \<noteq> 0"
  shows "realm_of h' = realm_of h \<and> pages_at E h' = Some (A, D)"
proof -
  define q where "q = p\<lparr>num_rec_aux := num_aux (realm_of h), rp_mpidr := vcpu_mpidr vcpu\<rparr>"
  obtain c h1 where c: "rmi_rec_create E (rd_phys E (h\<lparr>rec_params_page := q\<rparr>)) b (virt_to_phys E params) (h\<lparr>rec_params_page := q\<rparr>) = (c, h1)"
    by fastforce
  let ?n = "unat (ucast (num_aux (realm_of h)) :: u32)"
  have ec: "outside (h\<lparr>rec_params_page := q\<rparr>) h1" "warnings h1 = warnings h" "pages_at E h1 = pages_at E h"
    using life_call_effect(5) [OF ok _ c] aux by (auto simp: aux_state_def)
  have r1: "realm_of h1 = realm_of h" using outside_fields(1) [OF ec(1)] by simp
  have aux1: "aux_state E (A \<union> X) (insert b D) (aux_pages rec) ?n h1" using aux ec(3) by (simp add: aux_state_def)
  have "c \<noteq> 0" using run c r by (auto simp: create_rec_command_def q_def Let_def)
  then have m: "map_option (\<lambda>h. let (rec, h) = out_undelegate_rmm_rec E params b rec h in ((- ENXIO, rec), h))
      (free_rec_aux_loop E (aux_pages rec) ?n 0 h1) = Some ((r, rec'), h')"
    using run c r1 by (simp add: create_rec_command_def Let_def free_rec_aux_def flip: q_def)
  then obtain h2 where f: "free_rec_aux_loop E (aux_pages rec) ?n 0 h1 = Some h2" by auto
  have u: "out_undelegate_rmm_rec E params b rec h2 = (rec', h')"
    using m f by (simp split: prod.splits)
  have w2: "warnings h2 = warnings h1"
    using free_aux_warnings [OF f] out_undelegate_rec_warnings [OF u] w ec(2) by simp
  have e2: "outside h1 h2" "pages_at E h2 = Some (A \<union> X, insert b D)"
    using aux_state_freed [OF f ok w2 aux1] by simp_all
  have "outside h2 h' \<and> pages_at E h' = Some (A, D)"
    using out_undelegate_rec_effect(2) [OF u ok e2(2) X(3) X(1,2)] w w2 ec(2) by simp
  then show ?thesis using outside_fields(1) [OF outside_trans [OF e2(1)], of h'] r1 by simp
qed

lemma create_rec_with_pages_effect:
  assumes run: "create_rec_with_pages E vcpu params rec h = Some ((r, rec'), h')"
    and ok: "pages_ok E" and at: "pages_at E h = Some (A \<union> X, D)"
    and X: "X = phys_of E params \<union> phys_of E (rec_page rec) \<union> phys_of E (rec_run rec)" "X \<inter> (A \<union> D) = {}"
    and len: "length (aux_pages rec) = REC_PARAMS_AUX_GRANULES" and w: "warnings h' = warnings h" and r: "r \<noteq> 0"
  shows "realm_of h' = realm_of h \<and> pages_at E h' = Some (A, D)"
proof -
  let ?b = "virt_to_phys E (rec_page rec)"
  obtain d h1 where d: "rmi_granule_delegate E ?b h = (d, h1)" by fastforce
  note ed = delegate_effect [OF d]
  show ?thesis
  proof (cases "d = 0")
    case False
    note of = out_free_pages_effect [OF ed(4) [OF at False], of params rec]
    have "A \<union> X - X = A" using X(2) by auto
    moreover have "h' = out_free_pages E params rec h1"
      using run d False by (auto simp: create_rec_with_pages_def Let_def)
    ultimately show ?thesis
      using of X outside_fields(1) [OF outside_trans [OF ed(1), of h']] by auto
  next
    case True
    have b: "?b \<notin> D" and at1: "pages_at E h1 = Some (A \<union> X, insert ?b D)" using ed(3) [OF ok at True] by auto
    let ?num = "ucast (num_aux (realm_of h1)) :: u32" and ?q = "initial_rec_params vcpu"
    have lq: "length (rp_aux ?q) = length (aux_pages rec)"
      using len by (simp add: initial_rec_params_def Let_def zeroed_rec_params_def)
    obtain s pages phys h2 where al: "alloc_rec_aux E (aux_pages rec) (rp_aux ?q) ?num h1 = Some ((s, pages, phys), h2)"
      using run d True by (cases "alloc_rec_aux E (aux_pages rec) (rp_aux ?q) ?num h1")
        (auto simp: create_rec_with_pages_def Let_def)
    note ea = alloc_rec_aux_effect [OF al ok at1 lq]
    let ?rec = "rec\<lparr>aux_pages := pages\<rparr>"
    have X1: "X = phys_of E params \<union> phys_of E (rec_page ?rec) \<union> phys_of E (rec_run ?rec)" using X(1) by simp
    show ?thesis
    proof (cases "s = 0")
      case False
      obtain rec2 h3 where u: "out_undelegate_rmm_rec E params ?b ?rec h2 = (rec2, h3)" by fastforce
      have h': "h' = h3" using run d True al False u by (simp add: create_rec_with_pages_def Let_def)
      have w2: "warnings h2 = warnings h1" using ea(1) out_undelegate_rec_warnings [OF u] w h' ed(2) by simp
      have e2: "outside h1 h2" "pages_at E h2 = Some (A \<union> X, insert ?b D)" using ea(2) [OF w2 False] by simp_all
      have "outside h2 h' \<and> pages_at E h' = Some (A, D)"
        using out_undelegate_rec_effect(2) [OF u ok e2(2) b X1 X(2)] w w2 h' ed(2) by simp
      then show ?thesis using outside_fields(1) [OF outside_trans [OF outside_trans [OF ed(1) e2(1)]], of h'] by simp
    next
      case True
      have e2: "outside h1 h2" "warnings h2 = warnings h1" "aux_state E (A \<union> X) (insert ?b D) pages (unat ?num) h2"
        using ea(3) [OF True] by simp_all
      have r2: "realm_of h2 = realm_of h" using outside_fields(1) [OF outside_trans [OF ed(1) e2(1)]] .
      have "create_rec_command E vcpu params ?b ?rec (?q\<lparr>rp_aux := phys\<rparr>) h2 = Some ((r, rec'), h')"
        using run d \<open>d = 0\<close> al True by (simp add: create_rec_with_pages_def Let_def)
      from create_rec_command_effect [OF this ok _ X1 X(2) b _ r] show ?thesis
        using e2 w ed(2) r2 outside_fields(1) [OF ed(1)] by simp
    qed
  qed
qed

text \<open>A creation that fails without a warning leaves the pages and the realm as they were.\<close>

lemma create_rec_effect:
  assumes run: "kvm_create_rec E vcpu rec h = Some ((r, rec'), h')"
    and ok: "pages_ok E" and at: "pages_at E h = Some (A, D)"
    and len: "length (aux_pages rec) = REC_PARAMS_AUX_GRANULES" and w: "warnings h' = warnings h" and r: "r \<noteq> 0"
  shows "realm_of h' = realm_of h \<and> pages_at E h' = Some (A, D)"
proof -
  define h0 where "h0 = (if vflag h > 0 then h\<lparr>vflag := vflag h - 1\<rparr> else h)"
  have h0: "pages_at E h0 = Some (A, D)" "warnings h0 = warnings h" "realm_of h0 = realm_of h"
    using at by (simp_all add: h0_def pages_at_def warnings_def)
  obtain a h1 where g1: "get_free_page E False h0 = (a, h1)" by fastforce
  obtain b h2 where g2: "get_free_page E False h1 = (b, h2)" by fastforce
  obtain c h3 where g3: "get_free_page E False h2 = (c, h3)" by fastforce
  note o = outside_trans [OF outside_trans [OF get_page_effect(1) [OF g1] get_page_effect(1) [OF g2]] get_page_effect(1) [OF g3]]
  have w3: "warnings h3 = warnings h"
    using get_page_effect(2) [OF g1] get_page_effect(2) [OF g2] get_page_effect(2) [OF g3] h0(2) by simp
  let ?va = "page_virt E a" and ?rec = "rec\<lparr>rec_page := page_virt E b, rec_run := page_virt E c\<rparr>"
  let ?X = "phys_of E ?va \<union> phys_of E (rec_page ?rec) \<union> phys_of E (rec_run ?rec)"
  note p1 = get_phys_effect [OF g1 ok h0(1)]
  note p2 = get_phys_effect [OF g2 ok p1(1)]
  note p3 = get_phys_effect [OF g3 ok p2(1)]
  have at3: "pages_at E h3 = Some (A \<union> ?X, D)" and X: "?X \<inter> (A \<union> D) = {}" using p1 p2 p3 by (auto simp: Un_ac)
  have step: "kvm_create_rec E vcpu rec h =
     (if r_state (realm_of h0) \<noteq> REALM_STATE_NEW then Some ((- ENOENT, rec), h0)
      else if \<not> has_psci_0_2 vcpu then Some ((- EINVAL, rec), h0)
      else if has_pmu vcpu \<noteq> pmu_enabled (realm_of h0) then Some ((- EINVAL, rec), h0)
      else if ?va = 0 \<or> rec_page ?rec = 0 \<or> rec_run ?rec = 0 then Some ((- ENOMEM, ?rec), out_free_pages E ?va ?rec h3)
      else create_rec_with_pages E vcpu ?va ?rec h3)"
    using g1 g2 g3 by (simp add: kvm_create_rec_def Let_def flip: h0_def)
  have "A \<union> ?X - ?X = A" using X by auto
  moreover note of = out_free_pages_effect [OF at3, of ?va ?rec]
  moreover note cr = create_rec_with_pages_effect [OF _ ok at3 refl X _ _ r, of vcpu rec' h']
  ultimately show ?thesis
    using run r step h0 w w3 len X outside_fields(1) [OF o] outside_fields(1) [of h3 "out_free_pages E ?va ?rec h3"]
    by (auto split: if_splits)
qed

end
