(* ===== verification/Kvm_Life.thy ===== *)
theory Kvm_Life
  imports Kvm_Rec_Effects
begin

text \<open>
  The life of a realm and its pages: what the kernel holds before and after the realm is
  configured, created, populated, activated and destroyed.
\<close>

section \<open>Realm operations\<close>

lemma holds_of_pages:
  "pages_ok E \<Longrightarrow> pages_at E h = Some (A, D) \<Longrightarrow> T \<subseteq> A \<Longrightarrow> T \<inter> D = {} \<Longrightarrow> (\<And>p. p \<in> A \<Longrightarrow> handed_out E p) \<Longrightarrow> holds E T h"
  by (auto simp: holds_pages_at)

lemma holds_pagesE:
  assumes "holds E T h"
  obtains A D where "pages_ok E" "pages_at E h = Some (A, D)" "T \<subseteq> A" "T \<inter> D = {}" "\<forall>p \<in> A. handed_out E p"
  using assms by (auto simp: holds_pages_at)

lemma holds_set_realm [simp]: "holds E T (set_realm f h) = holds E T h" "holds E T (set_params g h) = holds E T h"
  by (simp_all add: holds_pages_at)

lemma holds_life_call:
  assumes "holds E T h"
  shows
    "rmi_realm_activate E a h = (r, h') \<Longrightarrow> holds E T h'" "rmi_realm_destroy E a h = (r, h') \<Longrightarrow> holds E T h'"
    "rmi_rec_create E a b c h = (r, h') \<Longrightarrow> holds E T h'" "rmi_rec_destroy E a h = (r, h') \<Longrightarrow> holds E T h'"
    "rmi_rec_enter E a b h = (r, h') \<Longrightarrow> holds E T h'" "rmi_psci_complete E a b c h = (r, h') \<Longrightarrow> holds E T h'"
proof -
  obtain A D where p: "pages_ok E" "pages_at E h = Some (A, D)" "T \<subseteq> A" "T \<inter> D = {}"
      "\<forall>p \<in> A. handed_out E p"
    using assms by (rule holds_pagesE)
  note e = life_call_effect [OF p(1,2)] and i = holds_of_pages [OF p(1) _ p(3,4) p(5) [rule_format]]
  show "rmi_realm_activate E a h = (r, h') \<Longrightarrow> holds E T h'" "rmi_realm_destroy E a h = (r, h') \<Longrightarrow> holds E T h'"
    "rmi_rec_create E a b c h = (r, h') \<Longrightarrow> holds E T h'" "rmi_rec_destroy E a h = (r, h') \<Longrightarrow> holds E T h'"
    "rmi_rec_enter E a b h = (r, h') \<Longrightarrow> holds E T h'" "rmi_psci_complete E a b c h = (r, h') \<Longrightarrow> holds E T h'"
    by (auto intro!: i dest: e)
qed

lemma holds_free:
  assumes "holds E T h" "phys_of E v \<subseteq> T"
  shows "holds E (T - phys_of E v) (free_page E v h)"
  using assms(1)
proof (rule holds_pagesE)
  fix A D assume ok: "pages_ok E" "pages_at E h = Some (A, D)" "T \<subseteq> A" "T \<inter> D = {}" "\<forall>p \<in> A. handed_out E p"
  have "pages_at E (free_page E v h) = Some (A - phys_of E v, D)"
    using ok assms(2) by (intro free_phys_effect) auto
  then show ?thesis using ok by (intro holds_of_pages) auto
qed

lemma holds_config: "holds E T h \<Longrightarrow> holds E T (snd (kvm_rme_config_realm E user h))"
  by (auto simp: kvm_rme_config_realm_def config_defs Let_def split: option.split)

lemma holds_activate: "holds E T h \<Longrightarrow> holds E T (snd (kvm_activate_realm E h))"
  using holds_life_call(1) [of E T h] by (auto simp: kvm_activate_realm_def split: prod.split)

lemma holds_init_ipa: "holds E T h \<Longrightarrow> holds E T (state_of (kvm_init_ipa_range_realm E fuel b s h))"
  by (simp add: kvm_init_ipa_range_realm_def Let_def pages.init_ipa)

lemma holds_region:
  assumes h: "holds E T h"
  shows "holds E T (state_of (populate_par_region E fuel b e flags h))"
proof -
  obtain page h1 where g: "get_free_page E False h = (page, h1)" by fastforce
  note gp = holds_get_page [OF h g]
  have "holds E T (state_of (then_run (populate_loop E slot t fl e fuel b h1) (\<lambda>ret h. Returned ret (emit (Page_free t) h))))"
    if "page = Some t" for slot t fl
  proof -
    have "holds E (insert t T) (state_of (populate_loop E slot t fl e fuel b h1))"
      by (rule pages.populate_range) (rule gp(3) [OF that])
    then show ?thesis
      using gp(2) [OF that] holds_free_held [of E "insert t T" _ t] holds_mono [of E "insert t T" _ T]
      by (cases "populate_loop E slot t fl e fuel b h1") auto
  qed
  then show ?thesis
    using h g gp(1) by (auto simp: populate_par_region_def Let_def split: option.split)
qed

lemma holds_populate: "holds E T h \<Longrightarrow> holds E T (state_of (kvm_populate_realm E fuel b s flags h))"
  by (simp add: kvm_populate_realm_def Let_def holds_region)

lemma holds_init_vm:
  assumes h: "holds E T h" and run: "kvm_init_realm_vm E vm h = (r, h')"
  shows "if r = 0 then holds E (T \<union> phys_of E (r_params (realm_of h'))) h' \<and> phys_of E (r_params (realm_of h')) \<inter> T = {}
     else holds E T h' \<and> realm_of h' = realm_of h"
proof -
  obtain page h1 where g: "get_free_page E False h = (page, h1)" by fastforce
  note gp = holds_get_page [OF h g]
  have p: "\<And>x. holds E T' (h1\<lparr>params_page := x\<rparr>) = holds E T' h1" for T' by (rule holds_log) simp
  show ?thesis
  proof (cases page)
    case None
    then show ?thesis
      using run g gp(1) outside_fields(1) [OF get_page_effect(1) [OF g]] by (auto simp: kvm_init_realm_vm_def ENOMEM_def)
  next
    case (Some q)
    then show ?thesis
      using run g gp(2,3) linear_map [OF h gp(4) [OF Some]] by (auto simp: kvm_init_realm_vm_def Let_def p phys_of_def)
  qed
qed

text \<open>The root tables of the virtual machine are pages, but not among those that the realm code allocates.\<close>

definition root_tables_ok :: "host_env \<Rightarrow> kvm_vm \<Rightarrow> bool" where
  "root_tables_ok E vm \<longleftrightarrow> (\<forall>p. handed_out E p \<longrightarrow> p \<notin> tables E (pgd_phys vm) (root_tables E vm)) \<and>
     (\<forall>p \<in> tables E (pgd_phys vm) (root_tables E vm). phys_page p)"

lemma bitmap_effects [simp]:
  "pages_at E (h\<lparr>rme_vmid_bitmap := b\<rparr>) = pages_at E h" "warnings (h\<lparr>rme_vmid_bitmap := b\<rparr>) = warnings h"
  by (simp_all add: pages_at_def warnings_def)

lemma release_effects [simp]:
  "pages_at E (rme_vmid_release E v h) = pages_at E h" "warnings (rme_vmid_release E v h) = warnings h"
  "realm_of (rme_vmid_release E v h) = realm_of h"
  by (simp_all add: rme_vmid_release_def)

text \<open>Creation without a warning: what it does to the pages, the realm and the bitmap.\<close>

lemma create_realm_effect:
  assumes run: "kvm_create_realm E vm h = (r, h')"
    and ok: "pages_ok E" and at: "pages_at E h = Some (A, D)" and w: "warnings h' = warnings h"
    and pa: "phys_of E (r_params (realm_of h)) \<inter> (D \<union> tables E (pgd_phys vm) (root_tables E vm)) = {}"
      "phys_of E (r_params (realm_of h)) \<subseteq> A"
  shows "r \<noteq> 0 \<Longrightarrow> pages_at E h' = Some (A, D) \<and> (\<exists>b v. realm_of h' = (realm_of h)\<lparr>ia_bits := b, r_vmid := v\<rparr>)"
    "r = 0 \<Longrightarrow> r_state (realm_of h) = REALM_STATE_NONE \<and> r_state (realm_of h') = REALM_STATE_NEW \<and>
       r_params (realm_of h') = 0 \<and> spare_page (realm_of h') = PHYS_ADDR_MAX E \<and>
       (\<exists>p. fresh_tables E (pgd_phys vm) (root_tables E vm) (insert p D) \<and> handed_out E p \<and> p \<notin> A \<and> p \<notin> D \<and> r_rd (realm_of h') = phys_to_virt E p \<and>
        pages_at E h' = Some (insert p (A - phys_of E (r_params (realm_of h))),
          insert p D \<union> tables E (pgd_phys vm) (root_tables E vm)))"
proof -
  obtain v h1 where v: "rme_vmid_reserve E h = (v, h1)" by fastforce
  have h1: "pages_at E h1 = Some (A, D)" "warnings h1 = warnings h" "realm_of h1 = realm_of h"
    using v at by (auto simp: rme_vmid_reserve_def split: prod.splits)
  define h2 where "h2 = set_realm (\<lambda>r. r\<lparr>r_vmid := word_of_int v\<rparr>) h1"
  obtain r3 h3 where c: "realm_create_rd E vm h2 = (r3, h3)" by fastforce
  have step: "(r, h') = (if \<not> kvm_is_realm vm \<or> r_state (realm_of h) \<noteq> REALM_STATE_NONE then (- EEXIST, h)
      else if v < 0 then (v, h1)
      else if r3 \<noteq> 0 then (r3, rme_vmid_release E (r_vmid (realm_of h3)) h3)
      else (0, set_realm (\<lambda>r. r\<lparr>r_params := 0\<rparr>)
        (free_page E (r_params (realm_of h3)) (set_realm (\<lambda>r. r\<lparr>r_state := REALM_STATE_NEW\<rparr>) h3))))"
    using run v c by (auto simp: kvm_create_realm_def Let_def h2_def split: if_splits)
  have h2: "pages_at E h2 = Some (A, D)" "warnings h2 = warnings h" "realm_of h2 = (realm_of h)\<lparr>r_vmid := word_of_int v\<rparr>"
    using h1 by (simp_all add: h2_def)
  have e: "warnings h3 = warnings h2 \<Longrightarrow> r3 \<noteq> 0 \<Longrightarrow> rd_not_created E A D h2 h3"
      "warnings h3 = warnings h2 \<Longrightarrow> r3 = 0 \<Longrightarrow> \<exists>p. handed_out E p \<and> p \<notin> A \<and> p \<notin> D \<and> rd_created E vm A D p h2 h3"
    using create_rd_effect [OF c ok h2(1)] by simp_all
  show "pages_at E h' = Some (A, D) \<and> (\<exists>b v. realm_of h' = (realm_of h)\<lparr>ia_bits := b, r_vmid := v\<rparr>)" if "r \<noteq> 0"
  proof -
    have keep: "\<exists>b v. realm_of h = (realm_of h)\<lparr>ia_bits := b, r_vmid := v\<rparr>"
      by (intro exI [of _ "ia_bits (realm_of h)"] exI [of _ "r_vmid (realm_of h)"]) simp
    have new: "\<exists>b v. realm_of h3 = (realm_of h)\<lparr>ia_bits := b, r_vmid := v\<rparr>" if "rd_not_created E A D h2 h3"
    proof -
      obtain b where "realm_of h3 = (realm_of h2)\<lparr>ia_bits := b\<rparr>" using \<open>rd_not_created E A D h2 h3\<close> by (auto simp: rd_not_created_def)
      then have "realm_of h3 = (realm_of h)\<lparr>ia_bits := b, r_vmid := word_of_int v\<rparr>" by (simp add: h2(3))
      then show ?thesis by blast
    qed
    show ?thesis
    proof (cases "\<not> kvm_is_realm vm \<or> r_state (realm_of h) \<noteq> REALM_STATE_NONE \<or> v < 0")
      case True
      then show ?thesis using step at h1 keep by (auto split: if_splits)
    next
      case False
      then have "r3 \<noteq> 0" "h' = rme_vmid_release E (r_vmid (realm_of h3)) h3" using step that by (auto split: if_splits)
      then show ?thesis using e(1) new w h2(2) by (auto simp: rd_not_created_def)
    qed
  qed
  show "r_state (realm_of h) = REALM_STATE_NONE \<and> r_state (realm_of h') = REALM_STATE_NEW \<and>
       r_params (realm_of h') = 0 \<and> spare_page (realm_of h') = PHYS_ADDR_MAX E \<and>
       (\<exists>p. fresh_tables E (pgd_phys vm) (root_tables E vm) (insert p D) \<and> handed_out E p \<and> p \<notin> A \<and> p \<notin> D \<and> r_rd (realm_of h') = phys_to_virt E p \<and>
        pages_at E h' = Some (insert p (A - phys_of E (r_params (realm_of h))),
          insert p D \<union> tables E (pgd_phys vm) (root_tables E vm)))" if "r = 0"
  proof -
    have z: "r3 = 0" "r_state (realm_of h) = REALM_STATE_NONE"
      and h': "h' = set_realm (\<lambda>r. r\<lparr>r_params := 0\<rparr>)
        (free_page E (r_params (realm_of h3)) (set_realm (\<lambda>r. r\<lparr>r_state := REALM_STATE_NEW\<rparr>) h3))"
      using that step by (auto simp: EEXIST_def split: if_splits)
    obtain p where p: "p \<notin> A" "p \<notin> D" "rd_created E vm A D p h2 h3" "handed_out E p"
      using e(2) [OF _ z(1)] w h2(2) by (auto simp: h' free_effect(2))
    have rp: "r_params (realm_of h3) = r_params (realm_of h)" "r_rd (realm_of h3) = phys_to_virt E p"
        "spare_page (realm_of h3) = PHYS_ADDR_MAX E" "fresh_tables E (pgd_phys vm) (root_tables E vm) (insert p D)"
      using p(3) h2(3) by (auto simp: rd_created_def)
    have "phys_of E (r_params (realm_of h)) \<inter> (insert p D \<union> tables E (pgd_phys vm) (root_tables E vm)) = {}"
      using pa p(1) by auto
    then have "pages_at E (free_page E (r_params (realm_of h3)) (set_realm (\<lambda>r. r\<lparr>r_state := REALM_STATE_NEW\<rparr>) h3)) =
        Some (insert p A - phys_of E (r_params (realm_of h)), insert p D \<union> tables E (pgd_phys vm) (root_tables E vm))"
      using p(3) rp by (subst free_phys_effect) (auto simp: rd_created_def)
    moreover have "insert p A - phys_of E (r_params (realm_of h)) = insert p (A - phys_of E (r_params (realm_of h)))"
      using p(1) pa(2) by auto
    ultimately show ?thesis
      using p(1,2,4) z(2) rp outside_fields(1) [OF free_effect(1)] by (auto simp: h' intro!: exI [of _ p])
  qed
qed

text \<open>Its VMID: a success takes a free one, a failure gives it back.\<close>

lemma create_realm_vmid:
  assumes run: "kvm_create_realm E vm h = (r, h')" and bm: "bitmap_ok E"
    and ok: "pages_ok E" and at: "pages_at E h = Some (A, D)" and w: "warnings h' = warnings h"
  shows "r \<noteq> 0 \<Longrightarrow> rme_vmid_bitmap h' = rme_vmid_bitmap h"
    "r = 0 \<Longrightarrow> unat (r_vmid (realm_of h')) < length (rme_vmid_bitmap h) \<and>
       \<not> rme_vmid_bitmap h ! unat (r_vmid (realm_of h')) \<and>
       rme_vmid_bitmap h' = (rme_vmid_bitmap h)[unat (r_vmid (realm_of h')) := True]"
proof -
  obtain v h1 where v: "rme_vmid_reserve E h = (v, h1)" by fastforce
  define h2 where "h2 = set_realm (\<lambda>r. r\<lparr>r_vmid := word_of_int v\<rparr>) h1"
  have h2: "pages_at E h2 = Some (A, D)" "warnings h2 = warnings h" "rme_vmid_bitmap h2 = rme_vmid_bitmap h1"
      "r_vmid (realm_of h2) = word_of_int v"
    using v at by (auto simp: h2_def rme_vmid_reserve_def split: prod.splits)
  obtain r3 h3 where c: "realm_create_rd E vm h2 = (r3, h3)" by fastforce
  have step: "(r, h') = (if \<not> kvm_is_realm vm \<or> r_state (realm_of h) \<noteq> REALM_STATE_NONE then (- EEXIST, h)
      else if v < 0 then (v, h1)
      else if r3 \<noteq> 0 then (r3, rme_vmid_release E (r_vmid (realm_of h3)) h3)
      else (0, set_realm (\<lambda>r. r\<lparr>r_params := 0\<rparr>)
        (free_page E (r_params (realm_of h3)) (set_realm (\<lambda>r. r\<lparr>r_state := REALM_STATE_NEW\<rparr>) h3))))"
    using run v c by (auto simp: kvm_create_realm_def Let_def h2_def split: if_splits)
  have neg: "v < 0 \<Longrightarrow> rme_vmid_bitmap h1 = rme_vmid_bitmap h" using reserve_failed [OF bm v] by simp
  have pos: "nat v < length (rme_vmid_bitmap h)" "\<not> rme_vmid_bitmap h ! nat v"
      "rme_vmid_bitmap h1 = (rme_vmid_bitmap h)[nat v := True]" "unat (word_of_int v :: u32) = nat v"
      "bitmap_release_region E (rme_vmid_bitmap h1) (word_of_int v) = rme_vmid_bitmap h" if "0 \<le> v"
    using reserve_then_release [OF bm v that] by simp_all
  have e: "warnings h3 = warnings h2 \<Longrightarrow> rme_vmid_bitmap h3 = rme_vmid_bitmap h1 \<and> r_vmid (realm_of h3) = word_of_int v"
    using create_rd_effect(3-5) [OF c ok h2(1)] h2(3,4) by (cases "r3 = 0") (auto simp: rd_created_def rd_not_created_def)
  have w3: "0 \<le> v \<Longrightarrow> kvm_is_realm vm \<Longrightarrow> r_state (realm_of h) = REALM_STATE_NONE \<Longrightarrow> warnings h3 = warnings h2"
    using step w h2(2) by (auto simp: free_effect(2) split: if_splits)
  have f: "rme_vmid_bitmap (free_page E p k) = rme_vmid_bitmap k" "r_vmid (realm_of (free_page E p k)) = r_vmid (realm_of k)" for p k
    using outside_fields(1,5) [OF free_effect(1)] by metis+
  show "r \<noteq> 0 \<Longrightarrow> rme_vmid_bitmap h' = rme_vmid_bitmap h"
    using step neg e w3 pos(5) by (auto simp: rme_vmid_release_def split: if_splits)
  show "r = 0 \<Longrightarrow> unat (r_vmid (realm_of h')) < length (rme_vmid_bitmap h) \<and>
       \<not> rme_vmid_bitmap h ! unat (r_vmid (realm_of h')) \<and>
       rme_vmid_bitmap h' = (rme_vmid_bitmap h)[unat (r_vmid (realm_of h')) := True]"
    using step e w3 pos(1-4) by (auto simp: f EEXIST_def not_less split: if_splits)
qed

lemma holds_create:
  assumes h: "holds E T h" and run: "kvm_create_realm E vm h = (r, h')" and w: "warnings h' = warnings h"
    and ok: "root_tables_ok E vm" and pa: "phys_of E (r_params (realm_of h)) \<subseteq> T"
  shows "if r = 0 then holds E (T - phys_of E (r_params (realm_of h))) h' \<and> r_params (realm_of h') = 0
     else holds E T h' \<and> r_params (realm_of h') = r_params (realm_of h)"
  using h
proof (rule holds_pagesE)
  fix A D assume p: "pages_ok E" "pages_at E h = Some (A, D)" "T \<subseteq> A" "T \<inter> D = {}" "\<forall>p \<in> A. handed_out E p"
  have t: "tables E (pgd_phys vm) (root_tables E vm) \<inter> A = {}"
    using ok p(5) by (auto simp: root_tables_ok_def)
  note e = create_realm_effect [OF run p(1,2) w]
  have "phys_of E (r_params (realm_of h)) \<inter> (D \<union> tables E (pgd_phys vm) (root_tables E vm)) = {}"
      "phys_of E (r_params (realm_of h)) \<subseteq> A"
    using pa p t by blast+
  note e = e [OF this]
  show ?thesis
  proof (cases "r = 0")
    case True
    then obtain q where q: "q \<notin> A" "handed_out E q" "r_params (realm_of h') = 0"
        "pages_at E h' = Some (insert q (A - phys_of E (r_params (realm_of h))),
          insert q D \<union> tables E (pgd_phys vm) (root_tables E vm))" using e(2) by auto
    have "holds E (T - phys_of E (r_params (realm_of h))) h'"
      using p(3,4,5) t q(1,2) by (intro holds_of_pages [OF p(1) q(4)]) blast+
    then show ?thesis using True q(3) by simp
  next
    case False
    then have "pages_at E h' = Some (A, D)" "r_params (realm_of h') = r_params (realm_of h)" using e(1) by auto
    then show ?thesis using False p by (auto intro: holds_of_pages)
  qed
qed

section \<open>Destruction\<close>

lemma holds_destroy_pgds: "holds E T h \<Longrightarrow> holds E T (snd (destroy_pgds E base n i h))"
proof (induction n arbitrary: i h)
  case (Suc n)
  then show ?case
    using holds_undelegate [OF Suc.prems] by (auto simp: Let_def holds_warn split: prod.split)
qed simp

lemma holds_undelegate_free:
  assumes "holds E T h" "rmi_granule_undelegate E (virt_to_phys E v) h = (0, h')"
  shows "holds E T (free_page E v h')"
  using assms holds_undelegated holds_undelegate by (auto simp: free_page_def)

lemma holds_destroy_rd:
  assumes h: "holds E T h"
  shows "holds E T (snd (destroy_rd E h))" "r_params (realm_of (snd (destroy_rd E h))) = r_params (realm_of h)"
proof -
  obtain r1 h1 where d: "rmi_realm_destroy E (rd_phys E h) h = (r1, h1)" by fastforce
  have h1: "holds E T h1" by (rule holds_life_call(2) [OF h d])
  have o1: "realm_of h1 = realm_of h"
    using d by (auto simp: rmi_realm_destroy_def dest!: call_effect(1) outside_fields(1) split: prod.splits)
  obtain r2 h2 where u: "rmi_granule_undelegate E (rd_phys E h1) h1 = (r2, h2)" by fastforce
  have o2: "realm_of h2 = realm_of h" using outside_fields(1) [OF undelegate_effect(1) [OF u]] o1 by simp
  have f: "r2 = 0 \<Longrightarrow> holds E T (free_page E (r_rd (realm_of h)) h2)"
    using holds_undelegate_free [OF h1, of "r_rd (realm_of h)" h2] u o1 by (simp add: rd_phys_def)
  have step: "destroy_rd E h = (if r_rd (realm_of h) = 0 then (True, h)
      else if r1 \<noteq> 0 then (False, emit Warn h1)
      else if r2 \<noteq> 0 then (False, emit Warn h2)
      else (True, set_realm (\<lambda>r. r\<lparr>r_rd := 0\<rparr>) (free_page E (r_rd (realm_of h)) h2)))"
    using d u o2 by (simp add: destroy_rd_def WARN_ON_def Let_def)
  show "holds E T (snd (destroy_rd E h))"
    using h f holds_quiet [OF h1] holds_quiet [OF holds_undelegate [OF h1 u]] by (simp add: step)
  show "r_params (realm_of (snd (destroy_rd E h))) = r_params (realm_of h)"
    using o1 o2 outside_fields(1) [OF free_effect(1), of E _ h2] by (simp add: step)
qed

lemma destroy_pgds_realm: "realm_of (snd (destroy_pgds E base n i h)) = realm_of h"
proof (induction n arbitrary: i h)
  case (Suc n)
  then show ?case
    using outside_fields(1) [OF undelegate_effect(1)] by (auto simp: Let_def split: prod.split)
qed simp

lemma release_rtt_realm: "realm_of (release_rtt E p h) = realm_of h"
  using outside_fields(1) [OF undelegate_effect(1)] outside_fields(1) [OF free_effect(1)]
  by (auto simp: release_rtt_def Let_def split: prod.split)

lemma holds_destroy:
  assumes h: "holds E T h" and pa: "phys_of E (r_params (realm_of h)) \<subseteq> T"
  shows "holds E (T - phys_of E (r_params (realm_of h))) (kvm_destroy_realm E vm h)"
    "r_params (realm_of (kvm_destroy_realm E vm h)) = 0"
proof -
  let ?T = "T - phys_of E (r_params (realm_of h))"
  define h1 where "h1 = (if r_params (realm_of h) \<noteq> 0
      then set_realm (\<lambda>r. r\<lparr>r_params := 0\<rparr>) (free_page E (r_params (realm_of h)) h) else h)"
  have h1: "holds E ?T h1" "r_params (realm_of h1) = 0"
    using h holds_free [OF h pa] by (auto simp: h1_def phys_of_def)
  define h2 where "h2 = set_realm (\<lambda>r. r\<lparr>r_state := REALM_STATE_DYING\<rparr>) h1"
  obtain go h3 where d: "destroy_rd E h2 = (go, h3)" by fastforce
  have h3: "holds E ?T h3" "r_params (realm_of h3) = 0"
    using holds_destroy_rd [of E ?T h2] h1 d by (simp_all add: h2_def)
  define h4 where "h4 = destroy_spare E (rme_vmid_release E (r_vmid (realm_of h3)) h3)"
  have "holds E ?T (rme_vmid_release E (r_vmid (realm_of h3)) h3)" using h3(1) by (simp add: holds_pages_at)
  then have h4: "holds E ?T h4" "r_params (realm_of h4) = 0"
    using h3(2) by (simp_all add: h4_def destroy_spare_def holds_release release_rtt_realm)
  obtain ok h5 where p: "destroy_pgds E (pgd_phys vm) (unat (kvm_pgd_pages E (pgt_ia_bits vm) (pgt_start_level vm))) 0 h4 = (ok, h5)"
    by fastforce
  have h5: "holds E ?T h5" "r_params (realm_of h5) = 0"
    using holds_destroy_pgds [OF h4(1)] p destroy_pgds_realm h4(2) by (metis snd_conv)+
  have step: "kvm_destroy_realm E vm h = (if r_state (realm_of h1) = REALM_STATE_NONE then h1
      else if \<not> go then h3 else if \<not> ok then h5
      else emit Free_stage2_pgd (set_realm (\<lambda>r. r\<lparr>r_state := REALM_STATE_DEAD\<rparr>) h5))"
    using d p by (simp add: kvm_destroy_realm_def Let_def flip: h1_def h2_def h4_def)
  show "holds E ?T (kvm_destroy_realm E vm h)" "r_params (realm_of (kvm_destroy_realm E vm h)) = 0"
    using h1 h3 h5 holds_quiet by (simp_all add: step)
qed

end
