(* ===== verification/Kvm_Rec_Owner.thy ===== *)
theory Kvm_Rec_Owner
  imports Kvm_Life
begin

text \<open>
  The creation and the destruction of a REC never give a delegated page back to the allocator,
  whatever the monitor answers: what the kernel holds before and after.
\<close>

section \<open>RECs\<close>

lemma holds_get_phys:
  assumes "holds E T h" "get_free_page E mc h = (page, h')"
  shows "holds E (T \<union> phys_of E (page_virt E page)) h'" "phys_of E (page_virt E page) \<inter> T = {}"
  using holds_get_page [OF assms] linear_map [OF assms(1)]
  by (cases page; auto simp: phys_of_def page_virt_def)+

lemma holds_free_aux: "holds E T h \<Longrightarrow> free_rec_aux_loop E pages n i h = Some h' \<Longrightarrow> holds E T h'"
proof (induction n arbitrary: i h)
  case (Suc n)
  obtain ret h1 where d: "rmi_granule_undelegate E (pages ! i) h = (ret, h1)" by fastforce
  have "holds E T (if ret \<noteq> 0 then WARN_ON (ret \<noteq> 0) h1 else emit (Page_free (pages ! i)) (WARN_ON (ret \<noteq> 0) h1))"
    using holds_undelegate [OF Suc.prems(1) d] holds_undelegated [OF Suc.prems(1), of "pages ! i" h1] d
    by (simp add: holds_warn WARN_ON_def holds_quiet)
  then show ?case using Suc.IH Suc.prems(2) d by (auto simp: Let_def split: if_splits)
qed simp

lemma holds_alloc_aux_loop:
  "holds E T h \<Longrightarrow> alloc_rec_aux_loop E n i pages phys h = Some (x, h') \<Longrightarrow> holds E T h'"
proof (induction n arbitrary: i pages phys h)
  case (Suc n)
  obtain page h1 where g: "get_free_page E False h = (page, h1)" by fastforce
  note gp = holds_get_page [OF Suc.prems(1) g]
  show ?case
  proof (cases page)
    case (Some p)
    obtain d h2 where d: "rmi_granule_delegate E p h1 = (d, h2)" by fastforce
    have "d = 0 \<Longrightarrow> holds E T h2" using holds_delegate [OF gp(1) gp(2) [OF Some]] d by simp
    moreover have "d \<noteq> 0 \<Longrightarrow> holds E T (emit (Page_free p) h2)"
      using holds_free_held [OF holds_delegate_failed [OF gp(3) [OF Some] d], of p] gp(2) [OF Some] by simp
    ultimately show ?thesis using Suc.IH Suc.prems(2) g Some d by (auto split: if_splits)
  qed (use Suc.prems(2) g gp(1) in auto)
qed simp

lemma holds_alloc_aux: "holds E T h \<Longrightarrow> alloc_rec_aux E pages phys num h = Some (x, h') \<Longrightarrow> holds E T h'"
  by (auto simp: alloc_rec_aux_def bind_eq_Some_conv map_option_case split: if_splits option.splits
      dest: holds_alloc_aux_loop holds_free_aux)

lemma holds_out_free:
  assumes "holds E (T \<union> phys_of E params \<union> phys_of E (rec_page rec) \<union> phys_of E (rec_run rec)) h"
    and "T \<inter> (phys_of E params \<union> phys_of E (rec_page rec) \<union> phys_of E (rec_run rec)) = {}"
  shows "holds E T (out_free_pages E params rec h)"
  using assms(1)
proof (rule holds_pagesE)
  let ?X = "phys_of E params \<union> phys_of E (rec_page rec) \<union> phys_of E (rec_run rec)"
  fix A D assume p: "pages_ok E" "pages_at E h = Some (A, D)"
    "T \<union> phys_of E params \<union> phys_of E (rec_page rec) \<union> phys_of E (rec_run rec) \<subseteq> A"
    "(T \<union> phys_of E params \<union> phys_of E (rec_page rec) \<union> phys_of E (rec_run rec)) \<inter> D = {}" "\<forall>p \<in> A. handed_out E p"
  have "?X \<inter> D = {}" using p(4) by blast
  note e = out_free_pages_effect(3) [OF p(2) this]
  show ?thesis using assms(2) p by (intro holds_of_pages [OF p(1) e]) blast+
qed

text \<open>The REC page is delegated here, so it is freed only when the monitor gives it back.\<close>

lemma holds_out_undelegate:
  assumes h: "holds E (T \<union> phys_of E params \<union> phys_of E (rec_run rec)) h"
    and x: "T \<inter> (phys_of E params \<union> phys_of E (rec_run rec)) = {}"
    and run: "out_undelegate_rmm_rec E params (virt_to_phys E (rec_page rec)) rec h = (rec', h')"
  shows "holds E T h'"
  using h
proof (rule holds_pagesE)
  let ?b = "virt_to_phys E (rec_page rec)"
  fix A D assume p: "pages_ok E" "pages_at E h = Some (A, D)"
    "T \<union> phys_of E params \<union> phys_of E (rec_run rec) \<subseteq> A" "(T \<union> phys_of E params \<union> phys_of E (rec_run rec)) \<inter> D = {}"
    "\<forall>p \<in> A. handed_out E p"
  obtain ret h1 where u: "rmi_granule_undelegate E ?b h = (ret, h1)" by fastforce
  note e = undelegate_effect [OF u]
  show ?thesis
  proof (cases "ret = 0")
    case True
    have b: "?b \<in> D" and at: "pages_at E h1 = Some (A, D - {?b})" using e(3) [OF p(1,2) True] by simp_all
    have "phys_of E (rec_page rec) \<inter> (D - {?b}) = {}" "phys_of E (rec_page rec) \<subseteq> {?b}" by (auto simp: phys_of_def)
    moreover from this(1) have "(phys_of E params \<union> phys_of E (rec_page rec) \<union> phys_of E (rec_run rec)) \<inter> (D - {?b}) = {}"
      using p(4) by blast
    note of = out_free_pages_effect(3) [OF at this]
    moreover have "h' = out_free_pages E params rec h1"
      using run u True by (auto simp: out_undelegate_rmm_rec_def WARN_ON_def)
    ultimately show ?thesis using p(3,4,5) x b by (auto intro!: holds_of_pages [OF p(1) of])
  next
    case False
    let ?rec = "rec\<lparr>rec_page := 0\<rparr>"
    have at: "pages_at E (emit Warn h1) = Some (A, D)" using e(4) [OF p(1,2) False] by (simp add: pages_at_def)
    have "(phys_of E params \<union> phys_of E (rec_page ?rec) \<union> phys_of E (rec_run ?rec)) \<inter> D = {}"
      using p(4) by (auto simp: phys_of_def)
    note of = out_free_pages_effect(3) [OF at this]
    moreover have "h' = out_free_pages E params ?rec (emit Warn h1)"
      using run u False by (auto simp: out_undelegate_rmm_rec_def WARN_ON_def Let_def)
    ultimately show ?thesis using p(3,4,5) x by (auto simp: phys_of_def intro!: holds_of_pages [OF p(1) of])
  qed
qed

lemma holds_rec_params [simp]: "holds E T (h\<lparr>rec_params_page := p\<rparr>) = holds E T h"
  by (simp add: holds_pages_at)

lemma holds_rec_command:
  assumes h: "holds E (T \<union> phys_of E params \<union> phys_of E (rec_run rec)) h"
    and x: "T \<inter> (phys_of E params \<union> phys_of E (rec_run rec)) = {}" "phys_of E params \<inter> phys_of E (rec_run rec) = {}"
    and run: "create_rec_command E vcpu params (virt_to_phys E (rec_page rec)) rec p h = Some ((r, rec'), h')"
  shows "if r = 0 then holds E (T \<union> phys_of E (rec_run rec')) h' \<and> rec_run rec' = rec_run rec else holds E T h'"
proof -
  let ?b = "virt_to_phys E (rec_page rec)"
  define h0 where "h0 = h\<lparr>rec_params_page := p\<lparr>num_rec_aux := num_aux (realm_of h), rp_mpidr := vcpu_mpidr vcpu\<rparr>\<rparr>"
  obtain c h1 where c: "rmi_rec_create E (rd_phys E h0) ?b (virt_to_phys E params) h0 = (c, h1)" by fastforce
  have h1: "holds E (T \<union> phys_of E params \<union> phys_of E (rec_run rec)) h1"
    using holds_life_call(3) [OF _ c] h by (simp add: h0_def)
  show ?thesis
  proof (cases "c = 0")
    case True
    have "holds E (T \<union> phys_of E params \<union> phys_of E (rec_run rec) - phys_of E params) (free_page E params h1)"
      by (rule holds_free [OF h1]) auto
    then have "holds E (T \<union> phys_of E (rec_run rec)) (free_page E params h1)"
      by (rule holds_mono) (use x in auto)
    then show ?thesis using run c True by (auto simp: create_rec_command_def Let_def simp flip: h0_def)
  next
    case False
    then obtain h2 where f: "free_rec_aux E (aux_pages rec) (ucast (num_aux (realm_of h1))) h1 = Some h2"
        and u: "out_undelegate_rmm_rec E params ?b rec h2 = (rec', h')" and r: "r = - ENXIO"
      using run c by (cases "free_rec_aux E (aux_pages rec) (ucast (num_aux (realm_of h1))) h1")
        (auto simp: create_rec_command_def Let_def simp flip: h0_def split: prod.splits)
    then show ?thesis
      using holds_out_undelegate [OF holds_free_aux [OF h1] x(1) u] by (simp add: free_rec_aux_def ENXIO_def)
  qed
qed

lemma holds_rec_with_pages:
  assumes h: "holds E (T \<union> phys_of E params \<union> phys_of E (rec_page rec) \<union> phys_of E (rec_run rec)) h"
    and x: "T \<inter> (phys_of E params \<union> phys_of E (rec_page rec) \<union> phys_of E (rec_run rec)) = {}"
      "phys_of E params \<inter> phys_of E (rec_run rec) = {}"
      "virt_to_phys E (rec_page rec) \<notin> phys_of E params \<union> phys_of E (rec_run rec) \<union> T"
    and run: "create_rec_with_pages E vcpu params rec h = Some ((r, rec'), h')"
  shows "if r = 0 then holds E (T \<union> phys_of E (rec_run rec')) h' \<and> rec_run rec' = rec_run rec else holds E T h'"
proof -
  let ?b = "virt_to_phys E (rec_page rec)" and ?q = "initial_rec_params vcpu"
  obtain d h1 where d: "rmi_granule_delegate E ?b h = (d, h1)" by fastforce
  show ?thesis
  proof (cases "d = 0")
    case False
    have "holds E T (out_free_pages E params rec h1)"
      by (rule holds_out_free [OF holds_delegate_failed [OF h d False] x(1)])
    then show ?thesis using run d False by (auto simp: create_rec_with_pages_def Let_def ENXIO_def)
  next
    case True
    have "holds E (T \<union> phys_of E params \<union> phys_of E (rec_run rec)) h" by (rule holds_mono [OF h]) auto
    then have h1: "holds E (T \<union> phys_of E params \<union> phys_of E (rec_run rec)) h1"
      using holds_delegate [of E _ h ?b] d x(3) by auto
    obtain s pages phys h2 where al: "alloc_rec_aux E (aux_pages rec) (rp_aux ?q) (ucast (num_aux (realm_of h1))) h1 = Some ((s, pages, phys), h2)"
      using run d True by (cases "alloc_rec_aux E (aux_pages rec) (rp_aux ?q) (ucast (num_aux (realm_of h1))) h1")
        (auto simp: create_rec_with_pages_def Let_def)
    let ?rec = "rec\<lparr>aux_pages := pages\<rparr>"
    have h2: "holds E (T \<union> phys_of E params \<union> phys_of E (rec_run ?rec)) h2" using holds_alloc_aux [OF h1 al] by simp
    have x1: "T \<inter> (phys_of E params \<union> phys_of E (rec_run ?rec)) = {}" "phys_of E params \<inter> phys_of E (rec_run ?rec) = {}"
      using x by auto
    show ?thesis
    proof (cases "s = 0")
      case False
      obtain rec2 h3 where u: "out_undelegate_rmm_rec E params ?b ?rec h2 = (rec2, h3)" by fastforce
      have "holds E T h3" using holds_out_undelegate [OF h2 x1(1), of rec2 h3] u by simp
      then show ?thesis using run d True al False u by (auto simp: create_rec_with_pages_def Let_def)
    next
      case True
      then have "create_rec_command E vcpu params (virt_to_phys E (rec_page ?rec)) ?rec (?q\<lparr>rp_aux := phys\<rparr>) h2 = Some ((r, rec'), h')"
        using run d \<open>d = 0\<close> al by (simp add: create_rec_with_pages_def Let_def)
      from holds_rec_command [OF h2 x1 this] show ?thesis by (auto split: if_splits)
    qed
  qed
qed

lemma holds_create_rec:
  assumes h: "holds E T h" and run: "kvm_create_rec E vcpu rec h = Some ((r, rec'), h')"
  shows "if r = 0 then holds E (T \<union> phys_of E (rec_run rec')) h' \<and> phys_of E (rec_run rec') \<inter> T = {} \<and> rec_run rec' \<noteq> 0
     else holds E T h'"
proof -
  define h0 where "h0 = (if vflag h > 0 then h\<lparr>vflag := vflag h - 1\<rparr> else h)"
  have h0: "holds E T h0" using h holds_log [of "h\<lparr>vflag := vflag h - 1\<rparr>" h] by (simp add: h0_def)
  obtain a h1 where g1: "get_free_page E False h0 = (a, h1)" by fastforce
  obtain b h2 where g2: "get_free_page E False h1 = (b, h2)" by fastforce
  obtain c h3 where g3: "get_free_page E False h2 = (c, h3)" by fastforce
  let ?va = "page_virt E a" and ?rec = "rec\<lparr>rec_page := page_virt E b, rec_run := page_virt E c\<rparr>"
  note p1 = holds_get_phys [OF h0 g1]
  note p2 = holds_get_phys [OF p1(1) g2]
  note p3 = holds_get_phys [OF p2(1) g3]
  have h3: "holds E (T \<union> phys_of E ?va \<union> phys_of E (rec_page ?rec) \<union> phys_of E (rec_run ?rec)) h3"
    using p3(1) by simp
  have x: "T \<inter> (phys_of E ?va \<union> phys_of E (rec_page ?rec) \<union> phys_of E (rec_run ?rec)) = {}"
      "phys_of E ?va \<inter> phys_of E (rec_run ?rec) = {}"
    using p1(2) p2(2) p3(2) by auto
  have b: "virt_to_phys E (rec_page ?rec) \<notin> phys_of E ?va \<union> phys_of E (rec_run ?rec) \<union> T" if "rec_page ?rec \<noteq> 0"
    using p2(2) p3(2) that by (auto simp: phys_of_def)
  have step: "kvm_create_rec E vcpu rec h =
     (if r_state (realm_of h0) \<noteq> REALM_STATE_NEW then Some ((- ENOENT, rec), h0)
      else if \<not> has_psci_0_2 vcpu then Some ((- EINVAL, rec), h0)
      else if has_pmu vcpu \<noteq> pmu_enabled (realm_of h0) then Some ((- EINVAL, rec), h0)
      else if ?va = 0 \<or> rec_page ?rec = 0 \<or> rec_run ?rec = 0 then Some ((- ENOMEM, ?rec), out_free_pages E ?va ?rec h3)
      else create_rec_with_pages E vcpu ?va ?rec h3)"
    using g1 g2 g3 by (simp add: kvm_create_rec_def Let_def flip: h0_def)
  show ?thesis
  proof (cases "r_state (realm_of h0) \<noteq> REALM_STATE_NEW \<or> \<not> has_psci_0_2 vcpu \<or> has_pmu vcpu \<noteq> pmu_enabled (realm_of h0)")
    case True
    then show ?thesis using run step h0 by (auto simp: errno_defs split: if_splits)
  next
    case g: False
    show ?thesis
    proof (cases "?va = 0 \<or> rec_page ?rec = 0 \<or> rec_run ?rec = 0")
      case True
      then show ?thesis using run step g holds_out_free [OF h3 x(1)] by (auto simp: errno_defs)
    next
      case False
      then have "create_rec_with_pages E vcpu ?va ?rec h3 = Some ((r, rec'), h')" using run step g by auto
      from holds_rec_with_pages [OF h3 x _ this] b False x(1) show ?thesis by (auto split: if_splits)
    qed
  qed
qed

lemma holds_destroy_rec:
  assumes h: "holds E T h" and run: "kvm_destroy_rec E vcpu rec h = Some h'" and p: "phys_of E (rec_run rec) \<subseteq> T"
  shows "holds E (T - phys_of E (rec_run rec)) h'"
proof -
  let ?b = "virt_to_phys E (rec_page rec)" and ?T = "T - phys_of E (rec_run rec)"
  obtain d h1 where d: "rmi_rec_destroy E ?b h = (d, h1)" by fastforce
  have h1: "holds E T h1" by (rule holds_life_call(4) [OF h d])
  have lose: "holds E T k \<Longrightarrow> holds E ?T k" for k by (rule holds_mono) auto
  show ?thesis
  proof (cases "\<not> vcpu_is_rec vcpu \<or> d \<noteq> 0")
    case True
    then show ?thesis using run d lose [OF h] lose [OF holds_warn [OF h1]] by (auto simp: kvm_destroy_rec_def Let_def split: if_splits)
  next
    case False
    then obtain h2 where f: "free_rec_aux E (aux_pages rec) (ucast (num_aux (realm_of h1))) h1 = Some h2"
      using run d by (cases "free_rec_aux E (aux_pages rec) (ucast (num_aux (realm_of h1))) h1")
        (auto simp: kvm_destroy_rec_def Let_def WARN_ON_def)
    have h2: "holds E T h2" using holds_free_aux [OF h1] f by (simp add: free_rec_aux_def)
    obtain u h3 where u: "rmi_granule_undelegate E ?b h2 = (u, h3)" by fastforce
    show ?thesis
    proof (cases "u = 0")
      case True
      have "holds E T (free_page E (rec_page rec) h3)" using holds_undelegate_free [OF h2] u True by simp
      then show ?thesis
        using holds_free [OF _ p] run d False f u True by (auto simp: kvm_destroy_rec_def Let_def WARN_ON_def)
    next
      case u0: False
      then show ?thesis
        using lose [OF holds_quiet [OF holds_undelegate [OF h2 u]]] run d False f u
        by (auto simp: kvm_destroy_rec_def Let_def WARN_ON_def)
    qed
  qed
qed

end
