(* ===== verification/Kvm_Phase.thy ===== *)
theory Kvm_Phase
  imports Kvm_Rec_Effects
begin

text \<open>
  The life of a realm as the monitor sees it: a monitor of the host's log follows the commands that
  create, activate and destroy a realm, and a command that its phase does not allow is a violation.
  The operations on tables and mappings stay in a phase and keep the realm's record.
\<close>

section \<open>Invariants of the log\<close>

fun is_call :: "hevent \<Rightarrow> bool" where
  "is_call (Smc fid args res) = True"
| "is_call _ = False"

text \<open>The calls that every phase of a realm allows, and those that a realm under construction allows.\<close>

definition any_phase_calls :: "host_env \<Rightarrow> u32 set" where
  "any_phase_calls E = table_calls E \<union> {SMC_RMI_GRANULE_DELEGATE E, SMC_RMI_REC_AUX_COUNT E, SMC_RMI_REC_DESTROY E,
     SMC_RMI_PSCI_COMPLETE E}"

definition construction_calls :: "host_env \<Rightarrow> u32 set" where
  "construction_calls E = insert (SMC_RMI_REC_CREATE E) (populate_calls E)"

text \<open>
  An invariant that looks at the monitor calls in the log and at the realm's record up to its
  spare page: a stronger contract, of which that of tables and mappings follows.
\<close>

locale log_invariant =
  fixes E :: host_env
    and I :: "host \<Rightarrow> bool"
  assumes call: "I h \<Longrightarrow> fid \<in> any_phase_calls E \<Longrightarrow> I (emit (Smc fid args res) h)"
    and other: "I h \<Longrightarrow> \<not> is_call e \<Longrightarrow> I (emit e h)"
    and spare: "I h \<Longrightarrow> I (set_realm (\<lambda>r. r\<lparr>spare_page := p\<rparr>) h)"
begin

lemma granule_delegated: "I h \<Longrightarrow> I (snd (rmi_granule_delegate E p h))"
  by (simp add: rmi_granule_delegate_def arm_smccc_1_1_invoke_def Let_def call any_phase_calls_def)

lemma undelegate: "I h \<Longrightarrow> I (snd (rmi_granule_undelegate E p h))"
  by (simp add: rmi_granule_undelegate_def arm_smccc_1_1_invoke_def Let_def call any_phase_calls_def table_calls_def)

lemma get_page: "I h \<Longrightarrow> I (snd (get_free_page E mc h))"
  by (simp add: get_free_page_def Let_def other)

lemma free: "I h \<Longrightarrow> I (free_page E v h)"
  by (simp add: free_page_def other)

lemma warned: "I h \<Longrightarrow> I (WARN_ON c h)"
  by (simp add: WARN_ON_def other)

lemma alloc_delegated: "I h \<Longrightarrow> I (snd (alloc_delegated_page_gfp E mc h))"
  using get_page [of h mc] granule_delegated free
  by (auto simp: alloc_delegated_page_gfp_def Let_def spare split: prod.split option.split) (metis snd_conv)+

lemma delegated_freed: "I h \<Longrightarrow> I (free_delegated_page E p h)"
  using undelegate [of h p] by (auto simp: free_delegated_page_def Let_def spare warned free split: prod.split)

lemma released: "I h \<Longrightarrow> I (release_rtt E p h)"
  using undelegate [of h p] by (auto simp: release_rtt_def Let_def warned free split: prod.split)

end

sublocale log_invariant < host_invariant E "{}" I
proof unfold_locales
  fix h p e fid args res mc
  assume h: "I h"
  show "quiet e \<Longrightarrow> I (emit e h)" by (rule other [OF h]) (cases e; simp)
  show "fid \<in> table_calls E \<Longrightarrow> I (emit (Smc fid args res) h)" by (rule call [OF h]) (simp add: any_phase_calls_def)
  show "p \<notin> {} \<Longrightarrow> I (snd (rmi_granule_delegate E p h))" by (rule granule_delegated [OF h])
  show "I (snd (alloc_delegated_page_gfp E mc h))" by (rule alloc_delegated [OF h])
  show "I (free_delegated_page E p h)" by (rule delegated_freed [OF h])
  show "I (release_rtt E p h)" by (rule released [OF h])
qed

context log_invariant
begin

lemma upd2: "I (snd m) \<Longrightarrow> (\<And>a h. I h \<Longrightarrow> I (f a h)) \<Longrightarrow> I (case m of (a, h) \<Rightarrow> f a h)"
  by (cases m) simp

lemma freed: "I h \<Longrightarrow> I (emit (Page_free p) h)"
  by (simp add: other)

lemmas steps = vals tris upd2 granule_delegated undelegate get_page free freed warned

lemma pgds_delegated: "I h \<Longrightarrow> I (snd (snd (delegate_pgds E base n i h)))"
proof (induction n arbitrary: i h)
  case (Suc n)
  then show ?case unfolding delegate_pgds.simps Let_def by (intro steps Suc.IH)
qed simp

lemma pgds_undelegated: "I h \<Longrightarrow> I (undelegate_pgds E base i h)"
proof (induction i arbitrary: h)
  case (Suc i)
  then show ?case unfolding undelegate_pgds.simps Let_def by (intro steps Suc.IH)
qed simp

lemma tables_out: "I h \<Longrightarrow> I (out_undelegate_tables E vm rd rd_pa i h)"
  unfolding out_undelegate_tables_def Let_def by (intro steps pgds_undelegated)

lemma pgds_destroyed: "I h \<Longrightarrow> I (snd (destroy_pgds E base n i h))"
proof (induction n arbitrary: i h)
  case (Suc n)
  then show ?case unfolding destroy_pgds.simps Let_def by (intro steps Suc.IH)
qed simp

lemma aux_allocated: "I h \<Longrightarrow> alloc_rec_aux_loop E n i pages phys h = Some (x, h') \<Longrightarrow> I h'"
proof (induction n arbitrary: i pages phys h)
  case (Suc n)
  obtain page h1 where g: "get_free_page E False h = (page, h1)" by fastforce
  then have h1: "I h1" using get_page [OF Suc.prems(1), of False] by simp
  show ?case
  proof (cases page)
    case (Some p)
    obtain d h2 where d: "rmi_granule_delegate E p h1 = (d, h2)" by fastforce
    then have "I h2" using granule_delegated [OF h1, of p] by simp
    then show ?thesis using Suc.IH Suc.prems(2) g Some d freed by (auto split: if_splits)
  qed (use h1 g Suc.prems(2) in simp)
qed simp

lemma aux_freed: "I h \<Longrightarrow> free_rec_aux_loop E pages n i h = Some h' \<Longrightarrow> I h'"
proof (induction n arbitrary: i h)
  case (Suc n)
  obtain d h1 where d: "rmi_granule_undelegate E (pages ! i) h = (d, h1)" by fastforce
  then have "I h1" using undelegate [OF Suc.prems(1), of "pages ! i"] by simp
  then have "I (if d \<noteq> 0 then WARN_ON (d \<noteq> 0) h1 else emit (Page_free (pages ! i)) (WARN_ON (d \<noteq> 0) h1))"
    by (simp add: warned freed)
  then show ?case using Suc.IH Suc.prems(2) d by (auto simp: Let_def split: if_splits)
qed simp

lemma aux_tried: "I h \<Longrightarrow> alloc_rec_aux E pages phys num h = Some (x, h') \<Longrightarrow> I h'"
  by (auto simp: alloc_rec_aux_def bind_eq_Some_conv map_option_case split: if_splits option.splits
      dest: aux_allocated aux_freed)

lemma rec_pages_freed: "I h \<Longrightarrow> I (out_free_pages E params rec h)"
  by (simp add: out_free_pages_def free)

lemma rec_calls:
  "I h \<Longrightarrow> I (snd (rmi_rec_destroy E a h))" "I h \<Longrightarrow> I (snd (rmi_psci_complete E a b c h))"
  "I h \<Longrightarrow> I (snd (snd (rmi_rec_aux_count E a h)))"
  by (simp_all add: rmi_cmd_defs arm_smccc_1_1_invoke_def Let_def call any_phase_calls_def)

lemma psci: "I h \<Longrightarrow> I (snd (realm_psci_complete E a b c h))"
  unfolding realm_psci_complete_def Let_def by (intro steps rec_calls)

lemma rec_destroyed:
  assumes h: "I h" and run: "kvm_destroy_rec E vcpu rec h = Some h'"
  shows "I h'"
proof -
  let ?b = "virt_to_phys E (rec_page rec)"
  obtain d h1 where d: "rmi_rec_destroy E ?b h = (d, h1)" by fastforce
  have h1: "I h1" using rec_calls(1) [OF h, of ?b] d by simp
  show ?thesis
  proof (cases "\<not> vcpu_is_rec vcpu \<or> d \<noteq> 0")
    case True
    then show ?thesis using run d h warned [OF h1] by (auto simp: kvm_destroy_rec_def Let_def split: if_splits)
  next
    case False
    then obtain h2 where f: "free_rec_aux E (aux_pages rec) (ucast (num_aux (realm_of h1))) h1 = Some h2"
      using run d by (cases "free_rec_aux E (aux_pages rec) (ucast (num_aux (realm_of h1))) h1")
        (auto simp: kvm_destroy_rec_def Let_def WARN_ON_def)
    have h2: "I h2" using aux_freed [OF h1] f by (simp add: free_rec_aux_def)
    obtain u h3 where u: "rmi_granule_undelegate E ?b h2 = (u, h3)" by fastforce
    have "I h3" using undelegate [OF h2, of ?b] u by simp
    then show ?thesis
      using run d False f u free other by (auto simp: kvm_destroy_rec_def Let_def WARN_ON_def split: if_splits)
  qed
qed

lemma rec_undelegated: "I h \<Longrightarrow> I (snd (out_undelegate_rmm_rec E params p rec h))"
  unfolding out_undelegate_rmm_rec_def Let_def by (intro steps rec_pages_freed)

end

locale new_log_invariant = log_invariant +
  assumes new_call: "I h \<Longrightarrow> fid \<in> construction_calls E \<Longrightarrow> I (emit (Smc fid args res) h)"
    and memory: "I h \<Longrightarrow> I (h\<lparr>rec_params_page := p\<rparr>)" "I h \<Longrightarrow> I (h\<lparr>vflag := v\<rparr>)"

sublocale new_log_invariant < new_realm_invariant E "{}" I
  by unfold_locales (simp_all add: new_call construction_calls_def)

context new_log_invariant
begin

lemma region: "I h \<Longrightarrow> I (state_of (populate_par_region E fuel b e flags h))"
proof -
  assume h: "I h"
  obtain page h1 where g: "get_free_page E False h = (page, h1)" by fastforce
  have h1: "I h1" using get_page [OF h, of False] g by simp
  have "I (state_of (then_run (populate_loop E slot t fl e fuel b h1) (\<lambda>ret h. Returned ret (emit (Page_free t) h))))"
    for slot t fl
    by (rule after [OF populate_range [OF h1]]) (simp add: other)
  then show ?thesis using h h1 g by (auto simp: populate_par_region_def Let_def split: option.split)
qed

lemma populate: "I h \<Longrightarrow> I (state_of (kvm_populate_realm E fuel b s flags h))"
  by (simp add: kvm_populate_realm_def Let_def region)

lemma init_ipa_range: "I h \<Longrightarrow> I (state_of (kvm_init_ipa_range_realm E fuel b s h))"
  by (simp add: kvm_init_ipa_range_realm_def Let_def init_ipa)

lemma rec_create: "I h \<Longrightarrow> I (snd (rmi_rec_create E a b c h))"
  by (simp add: rmi_cmd_defs arm_smccc_1_1_invoke_def Let_def new_call construction_calls_def)

lemma rec_command:
  assumes h: "I h" and run: "create_rec_command E vcpu params b rec p h = Some (x, h')"
  shows "I h'"
proof -
  define h0 where "h0 = h\<lparr>rec_params_page := p\<lparr>num_rec_aux := num_aux (realm_of h), rp_mpidr := vcpu_mpidr vcpu\<rparr>\<rparr>"
  obtain c h1 where c: "rmi_rec_create E (rd_phys E h0) b (virt_to_phys E params) h0 = (c, h1)" by fastforce
  have h1: "I h1" using rec_create [of h0 "rd_phys E h0" b "virt_to_phys E params"] c memory(1) [OF h] by (simp add: h0_def)
  show ?thesis
  proof (cases "c = 0")
    case True
    then show ?thesis using run c free [OF h1] by (auto simp: create_rec_command_def Let_def simp flip: h0_def)
  next
    case False
    then obtain h2 where f: "free_rec_aux E (aux_pages rec) (ucast (num_aux (realm_of h1))) h1 = Some h2"
        and u: "h' = snd (out_undelegate_rmm_rec E params b rec h2)"
      using run c by (cases "free_rec_aux E (aux_pages rec) (ucast (num_aux (realm_of h1))) h1")
        (auto simp: create_rec_command_def Let_def simp flip: h0_def split: prod.splits)
    then show ?thesis using rec_undelegated aux_freed [OF h1] by (auto simp: free_rec_aux_def)
  qed
qed

lemma rec_with_pages:
  assumes h: "I h" and run: "create_rec_with_pages E vcpu params rec h = Some (x, h')"
  shows "I h'"
proof -
  let ?b = "virt_to_phys E (rec_page rec)" and ?q = "initial_rec_params vcpu"
  obtain d h1 where d: "rmi_granule_delegate E ?b h = (d, h1)" by fastforce
  have h1: "I h1" using granule_delegated [OF h, of ?b] d by simp
  show ?thesis
  proof (cases "d = 0")
    case False
    then show ?thesis using run d rec_pages_freed [OF h1] by (auto simp: create_rec_with_pages_def Let_def)
  next
    case True
    obtain s pages phys h2 where al: "alloc_rec_aux E (aux_pages rec) (rp_aux ?q) (ucast (num_aux (realm_of h1))) h1 = Some ((s, pages, phys), h2)"
      using run d True by (cases "alloc_rec_aux E (aux_pages rec) (rp_aux ?q) (ucast (num_aux (realm_of h1))) h1")
        (auto simp: create_rec_with_pages_def Let_def)
    have h2: "I h2" by (rule aux_tried [OF h1 al])
    show ?thesis
      using run d True al rec_command [OF h2] rec_undelegated [OF h2, of params ?b "rec\<lparr>aux_pages := pages\<rparr>"]
      by (auto simp: create_rec_with_pages_def Let_def split: if_splits prod.splits)
  qed
qed

lemma rec_created:
  assumes h: "I h" and run: "kvm_create_rec E vcpu rec h = Some (x, h')"
  shows "I h'"
proof -
  define h0 where "h0 = (if vflag h > 0 then h\<lparr>vflag := vflag h - 1\<rparr> else h)"
  have h0: "I h0" using h memory(2) by (simp add: h0_def)
  obtain a h1 where g1: "get_free_page E False h0 = (a, h1)" by fastforce
  obtain b h2 where g2: "get_free_page E False h1 = (b, h2)" by fastforce
  obtain c h3 where g3: "get_free_page E False h2 = (c, h3)" by fastforce
  have h3: "I h3" using get_page [OF h0, of False] get_page [of h1 False] get_page [of h2 False] g1 g2 g3 by simp
  show ?thesis
    using run g1 g2 g3 h0 rec_pages_freed [OF h3] rec_with_pages [OF h3]
    by (auto simp: kvm_create_rec_def Let_def simp flip: h0_def split: if_splits)
qed

end

section \<open>The realm's record\<close>

definition same_realm :: "realm \<Rightarrow> realm \<Rightarrow> bool" where
  "same_realm r r' \<longleftrightarrow> r\<lparr>spare_page := 0\<rparr> = r'\<lparr>spare_page := 0\<rparr>"

lemma same_realm_refl [simp]: "same_realm r r"
  by (simp add: same_realm_def)

lemma same_realm_fields:
  assumes "same_realm r r'"
  shows "r_state r = r_state r'" "r_params r = r_params r'" "r_rd r = r_rd r'" "r_vmid r = r_vmid r'"
  using assms unfolding same_realm_def by (cases r; cases r'; simp)+

interpretation frame: new_log_invariant E "\<lambda>h. same_realm (realm_of h) r" for E r
  by unfold_locales (simp_all add: same_realm_def)

section \<open>Phases\<close>

datatype phase = Not_created | Under_construction | Running | Gone

text \<open>
  A realm is created once, and activated once while it is under construction; only then pages with
  content, initial RIPAS and RECs are allowed, and RECs are entered only in a running realm. No call
  besides these and those of every phase is allowed.
\<close>

fun phase_step :: "host_env \<Rightarrow> hevent \<Rightarrow> phase \<Rightarrow> phase option" where
  "phase_step E (Smc fid args res) ph =
     (let ok = (c_int (res_a0 res) = 0)
      in if fid = SMC_RMI_REALM_CREATE E then
           if ph = Not_created then Some (if ok then Under_construction else ph) else None
         else if fid = SMC_RMI_REALM_ACTIVATE E then
           if ph = Under_construction then Some (if ok then Running else ph) else None
         else if fid = SMC_RMI_REALM_DESTROY E then Some (if ok then Gone else ph)
         else if fid = SMC_RMI_DATA_CREATE E \<or> fid = SMC_RMI_RTT_INIT_RIPAS E \<or> fid = SMC_RMI_REC_CREATE E then
           if ph = Under_construction then Some ph else None
         else if fid = SMC_RMI_REC_ENTER E then if ph = Running then Some ph else None
         else if fid \<in> any_phase_calls E then Some ph else None)"
| "phase_step E _ ph = Some ph"

abbreviation phase_of :: "host_env \<Rightarrow> host \<Rightarrow> phase option" where
  "phase_of E h \<equiv> run_monitor (phase_step E) Not_created (hlog h)"

interpretation phases: log_monitor "phase_step E" is_call for E
proof
  fix e st assume "\<not> is_call e"
  then show "phase_step E e st = Some st" by (cases e) simp_all
qed

text \<open>A phase together with the encoding of the identifiers, which tells the commands apart.\<close>

definition in_phase :: "host_env \<Rightarrow> phase \<Rightarrow> host \<Rightarrow> bool" where
  "in_phase E ph h \<longleftrightarrow> smccc_ok E \<and> phase_of E h = Some ph"

lemma in_phase_call:
  "in_phase E ph h \<Longrightarrow> phase_step E (Smc fid args res) ph = Some ph' \<Longrightarrow> in_phase E ph' (emit (Smc fid args res) h)"
  by (simp add: in_phase_def)

lemma in_phase_other: "in_phase E ph h \<Longrightarrow> \<not> is_call e \<Longrightarrow> in_phase E ph (emit e h)"
  using phases.run_ignored by (simp add: in_phase_def del: run_monitor.simps)

lemma in_phase_log: "hlog h = hlog h' \<Longrightarrow> in_phase E ph h = in_phase E ph h'"
  by (simp add: in_phase_def)

lemma in_phase_sets [simp]:
  "in_phase E ph (set_realm f h) = in_phase E ph h" "in_phase E ph (set_params g h) = in_phase E ph h"
  "in_phase E ph (h\<lparr>rme_vmid_bitmap := b\<rparr>) = in_phase E ph h" "in_phase E ph (h\<lparr>params_page := pp\<rparr>) = in_phase E ph h"
  "in_phase E ph (h\<lparr>rec_params_page := rp\<rparr>) = in_phase E ph h" "in_phase E ph (h\<lparr>vflag := v\<rparr>) = in_phase E ph h"
  by (simp_all add: in_phase_def set_realm_def set_params_def)

interpretation phase_kept: log_invariant E "in_phase E ph" for E ph
proof
  fix h fid args res e p assume h: "in_phase E ph h"
  then have "smccc_ok E" by (simp add: in_phase_def)
  then show "fid \<in> any_phase_calls E \<Longrightarrow> in_phase E ph (emit (Smc fid args res) h)"
    by (intro in_phase_call [OF h]) (auto simp: any_phase_calls_def table_calls_def smc_rmi_values)
  show "\<not> is_call e \<Longrightarrow> in_phase E ph (emit e h)" by (rule in_phase_other [OF h])
  show "in_phase E ph (set_realm (\<lambda>r. r\<lparr>spare_page := p\<rparr>) h)" using h by simp
qed

interpretation construction: new_log_invariant E "in_phase E Under_construction" for E
proof
  fix h fid args res p v assume h: "in_phase E Under_construction h"
  then have "smccc_ok E" by (simp add: in_phase_def)
  then show "fid \<in> construction_calls E \<Longrightarrow> in_phase E Under_construction (emit (Smc fid args res) h)"
    by (intro in_phase_call [OF h]) (auto simp: construction_calls_def populate_calls_def smc_rmi_values)
  show "in_phase E Under_construction (h\<lparr>rec_params_page := p\<rparr>)" "in_phase E Under_construction (h\<lparr>vflag := v\<rparr>)"
    using h by simp_all
qed

text \<open>Calls of the realm's life.\<close>

lemma phase_calls:
  assumes h: "in_phase E ph h"
  shows
    "rmi_realm_create E a b h = (r, h') \<Longrightarrow> ph = Not_created \<Longrightarrow> in_phase E (if r = 0 then Under_construction else ph) h'"
    "rmi_realm_activate E a h = (r, h') \<Longrightarrow> ph = Under_construction \<Longrightarrow> in_phase E (if r = 0 then Running else ph) h'"
    "rmi_realm_destroy E a h = (r, h') \<Longrightarrow> in_phase E (if r = 0 then Gone else ph) h'"
    "rmi_rec_create E a b c h = (r, h') \<Longrightarrow> ph = Under_construction \<Longrightarrow> in_phase E ph h'"
    "rmi_rec_enter E a b h = (r, h') \<Longrightarrow> ph = Running \<Longrightarrow> in_phase E ph h'"
    "rmi_rec_destroy E a h = (r, h') \<Longrightarrow> in_phase E ph h'"
    "rmi_rec_aux_count E a h = (r, x, h') \<Longrightarrow> in_phase E ph h'"
    "rmi_psci_complete E a b c h = (r, h') \<Longrightarrow> in_phase E ph h'"
proof -
  have ok: "smccc_ok E" using h by (simp add: in_phase_def)
  note d = rmi_cmd_defs arm_smccc_1_1_invoke_def Let_def
  show
    "rmi_realm_create E a b h = (r, h') \<Longrightarrow> ph = Not_created \<Longrightarrow> in_phase E (if r = 0 then Under_construction else ph) h'"
    "rmi_realm_activate E a h = (r, h') \<Longrightarrow> ph = Under_construction \<Longrightarrow> in_phase E (if r = 0 then Running else ph) h'"
    "rmi_realm_destroy E a h = (r, h') \<Longrightarrow> in_phase E (if r = 0 then Gone else ph) h'"
    "rmi_rec_create E a b c h = (r, h') \<Longrightarrow> ph = Under_construction \<Longrightarrow> in_phase E ph h'"
    "rmi_rec_enter E a b h = (r, h') \<Longrightarrow> ph = Running \<Longrightarrow> in_phase E ph h'"
    "rmi_rec_destroy E a h = (r, h') \<Longrightarrow> in_phase E ph h'"
    "rmi_rec_aux_count E a h = (r, x, h') \<Longrightarrow> in_phase E ph h'"
    "rmi_psci_complete E a b c h = (r, h') \<Longrightarrow> in_phase E ph h'"
    by (auto simp: d smc_rmi_values [OF ok] any_phase_calls_def table_calls_def intro!: in_phase_call [OF h])
qed

end
