(* ===== verification/Kvm_Rules.thy ===== *)
theory Kvm_Rules
  imports Kvm_Life
begin

text \<open>
  Two rules of the monitor's interface on which the creation of a realm descriptor relies: a granule that has been
  delegated and not used since can be taken back, and a realm that has just been created has a number of auxiliary pages. The
  error path of the creation is right only for a monitor that keeps them.
\<close>

section \<open>The rules\<close>

text \<open>
  The granule \<open>p\<close> is delegated, and since then granules have only been delegated and taken back, or commands were refused.
\<close>

fun unused :: "host_env \<Rightarrow> u64 \<Rightarrow> hlog \<Rightarrow> bool" where
  "unused E p [] = False"
| "unused E p (Smc fid args res # log) =
     (if c_int (res_a0 res) \<noteq> 0 then unused E p log
      else if fid = SMC_RMI_GRANULE_DELEGATE E then hd args = p \<or> unused E p log
      else if fid = SMC_RMI_GRANULE_UNDELEGATE E then hd args \<noteq> p \<and> unused E p log
      else False)"
| "unused E p (_ # log) = unused E p log"

definition rmm_rules :: "host_env \<Rightarrow> bool" where
  "rmm_rules E \<longleftrightarrow>
     (\<forall>log p. page_run E log \<noteq> None \<longrightarrow> phys_page p \<longrightarrow> unused E p log \<longrightarrow>
        c_int (res_a0 (answer_smc E log (SMC_RMI_GRANULE_UNDELEGATE E) [p])) = 0) \<and>
     (\<forall>log rd params res. c_int (res_a0 res) = 0 \<longrightarrow>
        c_int (res_a0 (answer_smc E (Smc (SMC_RMI_REALM_CREATE E) [rd, params] res # log) (SMC_RMI_REC_AUX_COUNT E) [rd])) = 0)"

text \<open>The pages \<open>U\<close> can be taken back.\<close>

definition spare_pages :: "host_env \<Rightarrow> u64 set \<Rightarrow> host \<Rightarrow> bool" where
  "spare_pages E U h \<longleftrightarrow> pages_at E h \<noteq> None \<and> (\<forall>p \<in> U. phys_page p \<and> unused E p (hlog h))"

lemma spare_pages_sets [simp]:
  "spare_pages E U (set_realm f h) = spare_pages E U h" "spare_pages E U (set_params g h) = spare_pages E U h"
  by (simp_all add: spare_pages_def set_params_def) (simp add: pages_at_def)

lemma spare_pages_on [simp]: "spare_pages E U (WARN_ON c h) = spare_pages E U h"
proof (cases c)
  case True
  have "pages_at E (emit Warn h) = pages_at E h" using pages_at_on [of E True h] by (simp add: WARN_ON_def)
  then show ?thesis using True by (simp add: spare_pages_def WARN_ON_def)
qed (simp add: WARN_ON_def)

lemma spare_delegate:
  assumes "rmi_granule_delegate E p h = (ret, h')" "spare_pages E U h" "pages_ok E" "phys_page p"
  shows "spare_pages E (if ret = 0 then insert p U else U) h'"
proof -
  obtain A D where at: "pages_at E h = Some (A, D)" using assms(2) by (cases "pages_at E h") (auto simp: spare_pages_def)
  have "pages_at E h' \<noteq> None" using delegate_effect(3,4) [OF assms(1)] assms(3) at by (cases "ret = 0") auto
  then show ?thesis using assms by (auto simp: spare_pages_def rmi_granule_delegate_def arm_smccc_1_1_invoke_def Let_def)
qed

lemma spare_undelegate:
  assumes "rmi_granule_undelegate E p h = (ret, h')" "spare_pages E U h" "pages_ok E" "rmm_rules E" "p \<in> U"
  shows "ret = 0 \<and> spare_pages E (U - {p}) h'"
proof -
  obtain A D where at: "pages_at E h = Some (A, D)" using assms(2) by (cases "pages_at E h") (auto simp: spare_pages_def)
  then have run: "page_run E (hlog h) \<noteq> None" by (simp add: pages_at_def)
  have "phys_page p" "unused E p (hlog h)" using assms(2,5) by (simp_all add: spare_pages_def)
  then have z: "ret = 0"
    using assms(1,4) run by (auto simp: rmm_rules_def rmi_granule_undelegate_def arm_smccc_1_1_invoke_def Let_def)
  have ids: "SMC_RMI_GRANULE_UNDELEGATE E \<noteq> SMC_RMI_GRANULE_DELEGATE E"
    using assms(3) by (simp add: pages_ok_def smc_rmi_values)
  have "pages_at E h' \<noteq> None" using undelegate_effect(3) [OF assms(1,3) at z] by simp
  then show ?thesis
    using assms(1,2) z ids by (auto simp: spare_pages_def rmi_granule_undelegate_def arm_smccc_1_1_invoke_def Let_def)
qed

section \<open>The creation does not warn\<close>

lemma spare_pgds:
  assumes "delegate_pgds E base n i h = (failed, j, h')" "spare_pages E (U \<union> tables E base i) h" "pages_ok E"
    and "\<And>k. k < i + n \<Longrightarrow> phys_page (base + of_nat k * PAGE_SIZE E)"
  shows "spare_pages E (U \<union> tables E base j) h'"
  using assms
proof (induction n arbitrary: i h)
  case (Suc n)
  let ?p = "base + of_nat i * PAGE_SIZE E"
  obtain ret h1 where d: "rmi_granule_delegate E ?p h = (ret, h1)" by fastforce
  note s = spare_delegate [OF d Suc.prems(2,3)]
  show ?case
  proof (cases "ret = 0")
    case True
    have "spare_pages E (U \<union> tables E base (Suc i)) h1" using s True Suc.prems(4) [of i] by (simp add: tables_Suc)
    moreover have "delegate_pgds E base n (Suc i) h1 = (failed, j, h')" using Suc.prems(1) d True by simp
    ultimately show ?thesis using Suc.IH Suc.prems(3,4) by simp
  next
    case False
    then show ?thesis using s Suc.prems(1,4) d by auto
  qed
qed simp

lemma quiet_undelegate_pgds:
  assumes "spare_pages E (insert p (tables E base i)) h" "pages_ok E" "rmm_rules E" "fresh_tables E base i {p}"
  shows "warnings (undelegate_pgds E base i h) = warnings h \<and> spare_pages E {p} (undelegate_pgds E base i h)"
  using assms
proof (induction i arbitrary: h)
  case (Suc i)
  let ?q = "base + of_nat i * PAGE_SIZE E"
  obtain ret h1 where d: "rmi_granule_undelegate E ?q h = (ret, h1)" by fastforce
  have u: "ret = 0" "spare_pages E (insert p (tables E base (Suc i)) - {?q}) h1"
    using spare_undelegate [OF d Suc.prems(1,2,3)] by (simp_all add: tables_Suc)
  have q: "?q \<notin> insert p (tables E base i)" using Suc.prems(4) by (auto simp: fresh_tables_def)
  then have "insert p (tables E base (Suc i)) - {?q} = insert p (tables E base i)" by (auto simp: tables_Suc)
  then have "spare_pages E (insert p (tables E base i)) h1" using u by simp
  moreover have "fresh_tables E base i {p}" using Suc.prems(4) by (simp add: fresh_tables_def)
  ultimately show ?case using Suc.IH [of h1] Suc.prems(2,3) u(1) d undelegate_effect(2) [OF d] by (simp add: WARN_ON_def)
qed simp

lemma quiet_out_undelegate:
  assumes "spare_pages E (insert p (tables E (pgd_phys vm) i)) h" "pages_ok E" "rmm_rules E" "fresh_tables E (pgd_phys vm) i {p}"
  shows "warnings (out_undelegate_tables E vm rd p i h) = warnings h"
proof -
  let ?h = "undelegate_pgds E (pgd_phys vm) i h"
  have q: "warnings ?h = warnings h" "spare_pages E {p} ?h" using quiet_undelegate_pgds [OF assms] by simp_all
  obtain ret h1 where d: "rmi_granule_undelegate E p ?h = (ret, h1)" by fastforce
  show ?thesis
    using spare_undelegate [OF d q(2) assms(2,3)] q(1) undelegate_effect(2) [OF d] d
    by (simp add: out_undelegate_tables_def free_effect(2))
qed

lemma quiet_command:
  assumes run: "create_rd_command E vm rd p sz i h = (r, h')"
    and sp: "spare_pages E (insert p (tables E (pgd_phys vm) i)) h" and ok: "pages_ok E" "rmm_rules E" and f: "fresh_tables E (pgd_phys vm) i {p}"
  shows "warnings h' = warnings h"
  using run
proof (cases rule: create_rd_command_cases)
  case (refused c h2)
  have "spare_pages E (insert p (tables E (pgd_phys vm) i)) (rd_params_set E vm sz h)"
    using sp by (simp add: spare_pages_def)
  moreover obtain A D where at: "pages_at E (rd_params_set E vm sz h) = Some (A, D)" using sp by (cases "pages_at E h") (auto simp: spare_pages_def)
  ultimately have "spare_pages E (insert p (tables E (pgd_phys vm) i)) h2"
    using life_call_effect(1) [OF ok(1) at refused(1)] refused(1,2)
    by (auto simp: spare_pages_def rmi_realm_create_def arm_smccc_1_1_invoke_def Let_def)
  then show ?thesis
    using quiet_out_undelegate [OF _ ok f] life_call_effect(1) [OF ok(1) at refused(1)] refused(4) by simp
next
  case (created h2 aux h4)
  then show ?thesis by (auto simp: rmi_cmd_defs arm_smccc_1_1_invoke_def Let_def)
next
  case (no_count h2 ra aux h4 rr h6)
  have "ra = 0"
    using no_count(1,2) ok(2) by (auto simp: rmm_rules_def rmi_cmd_defs arm_smccc_1_1_invoke_def Let_def)
  then show ?thesis using no_count(3) by simp
qed

lemma quiet_create_rd:
  assumes run: "realm_create_rd E vm h = (r, h')" and ok: "pages_ok E" "rmm_rules E" and at: "pages_at E h = Some (A, D)"
    and rt: "root_tables_ok E vm"
  shows "warnings h' = warnings h \<or> r \<noteq> 0 \<and> h' = emit Warn h"
proof (cases "r_rd (realm_of h) = 0 \<and> r_params (realm_of h) \<noteq> 0")
  case False
  then show ?thesis using run by (auto simp: realm_create_rd_def WARN_ON_def EEXIST_def split: if_splits)
next
  case True
  obtain page h1 where g: "get_free_page E False h = (page, h1)" by fastforce
  note eg = get_page_effect [OF g]
  show ?thesis
  proof (cases page)
    case None
    then show ?thesis using run True g eg(2) by (simp add: realm_create_rd_def WARN_ON_def)
  next
    case (Some p)
    have p: "handed_out E p" "p \<notin> D" and at1: "pages_at E h1 = Some (insert p A, D)" using eg(3) [OF ok(1) at Some] by simp_all
    have v: "virt_to_phys E (phys_to_virt E p) = p" "phys_page p" using ok(1) p by (simp_all add: pages_ok_def handed_out_def)
    obtain ret h2 where d: "rmi_granule_delegate E p h1 = (ret, h2)" by fastforce
    have w2: "warnings h2 = warnings h" using eg(2) delegate_effect(2) [OF d] by simp
    have step: "(r, h') = (if ret \<noteq> 0 then (- ENXIO, free_page E (phys_to_virt E p) h2) else create_rd_tables E vm (phys_to_virt E p) p h2)"
      using run True g Some d v by (auto simp: realm_create_rd_def WARN_ON_def Let_def)
    show ?thesis
    proof (cases "ret = 0")
      case False
      then show ?thesis using step w2 by (simp add: free_effect(2))
    next
      case True
      have at2: "pages_at E h2 = Some (insert p A, insert p D)" using delegate_effect(3) [OF d ok(1) at1 True] by simp
      have "spare_pages E {} h1" using at1 by (simp add: spare_pages_def)
      then have s2: "spare_pages E ({p} \<union> tables E (pgd_phys vm) 0) h2" using spare_delegate [OF d _ ok(1) v(2)] True by simp
      obtain failed i h3 where t: "delegate_pgds E (pgd_phys vm) (root_tables E vm) 0 h2 = (failed, i, h3)" using prod_cases3 by blast
      have s3: "spare_pages E (insert p (tables E (pgd_phys vm) i)) h3"
        using spare_pgds [OF t s2 ok(1)] rt by (auto simp: root_tables_ok_def tables_def)
      have "fresh_tables E (pgd_phys vm) i (insert p D)"
        using delegate_pgds_effect [OF t ok(1), of "insert p A" "insert p D"] at2 by (simp add: fresh_tables_def)
      then have f: "fresh_tables E (pgd_phys vm) i {p}" by (auto simp: fresh_tables_def)
      have w3: "warnings h3 = warnings h" using delegate_pgds_warnings [OF t] w2 by simp
      have "(r, h') = (if failed then (- ENXIO, out_undelegate_tables E vm (phys_to_virt E p) p i h3)
          else create_rd_command E vm (phys_to_virt E p) p (kvm_pgd_pages E (pgt_ia_bits vm) (pgt_start_level vm)) i h3)"
        using step True t by (auto simp: create_rd_tables_def root_tables_def Let_def)
      then show ?thesis
        using quiet_out_undelegate [OF s3 ok f] quiet_command [OF sym s3 ok f] w3 by (auto split: if_splits)
    qed
  qed
qed

text \<open>A creation warns only when the realm has no parameters or a descriptor already; then it changes nothing but the VMID.\<close>

lemma quiet_create:
  assumes run: "kvm_create_realm E vm h = (r, h')" and ok: "pages_ok E" "rmm_rules E" and at: "pages_at E h = Some (A, D)"
    and rt: "root_tables_ok E vm"
  shows "warnings h' = warnings h \<or>
    r \<noteq> 0 \<and> hlog h' = Warn # hlog h \<and> (\<exists>v. realm_of h' = (realm_of h)\<lparr>r_vmid := v\<rparr>)"
proof -
  obtain v h1 where v: "rme_vmid_reserve E h = (v, h1)" by fastforce
  have h1: "hlog h1 = hlog h" "realm_of h1 = realm_of h" "warnings h1 = warnings h"
    using v by (auto simp: rme_vmid_reserve_def split: prod.splits)
  define h2 where "h2 = set_realm (\<lambda>r. r\<lparr>r_vmid := word_of_int v\<rparr>) h1"
  obtain r3 h3 where c: "realm_create_rd E vm h2 = (r3, h3)" by fastforce
  have at2: "pages_at E h2 = Some (A, D)" using at h1(1) by (simp add: h2_def) (simp add: pages_at_def)
  have "(r, h') = (if \<not> kvm_is_realm vm \<or> r_state (realm_of h) \<noteq> REALM_STATE_NONE then (- EEXIST, h)
      else if v < 0 then (v, h1)
      else if r3 \<noteq> 0 then (r3, rme_vmid_release E (r_vmid (realm_of h3)) h3)
      else (0, set_realm (\<lambda>r. r\<lparr>r_params := 0\<rparr>)
        (free_page E (r_params (realm_of h3)) (set_realm (\<lambda>r. r\<lparr>r_state := REALM_STATE_NEW\<rparr>) h3))))"
    using run v c by (auto simp: kvm_create_realm_def Let_def h2_def split: if_splits)
  then show ?thesis
    using quiet_create_rd [OF c ok at2 rt] h1 by (auto simp: h2_def rme_vmid_release_def free_effect(2) split: if_splits)
qed

end
