(* ===== verification/Kvm_Machine.thy ===== *)
theory Kvm_Machine
  imports Kvm_Rec_Owner Kvm_Phase Kvm_Rules
begin

text \<open>
  The host as a machine: a step is one operation that the kernel or user space asks for, on the
  realm or on one of its RECs. In every reachable state no delegated page has been given back to
  the allocator and every command was allowed in its phase of the realm's life.
\<close>

section \<open>Creation and the phases\<close>

lemma create_rd_command_phase:
  assumes run: "create_rd_command E vm rd rd_pa sz i h = (r, h')"
    and ph: "in_phase E Not_created h" and w: "warnings h' = warnings h"
  shows "in_phase E (if r = 0 then Under_construction else Not_created) h'"
  using run
proof (cases rule: create_rd_command_cases)
  case (refused c h2)
  have "in_phase E Not_created (rd_params_set E vm sz h)" using ph by (simp add: in_phase_def)
  then have "in_phase E Not_created h2" using phase_calls(1) [OF _ refused(1)] refused(2) by simp
  then show ?thesis using refused(3,4) phase_kept.tables_out by (simp add: ENXIO_def)
next
  case (created h2 aux h4)
  have "in_phase E Not_created (rd_params_set E vm sz h)" using ph by (simp add: in_phase_def)
  then have "in_phase E Under_construction h2" using phase_calls(1) [OF _ created(1)] by simp
  then show ?thesis using phase_calls(7) [OF _ created(2), of Under_construction] created(3,4) by simp
next
  case (no_count h2 ra aux h4 rr h6)
  have False using no_count_warns [OF no_count(1,2,4), of rd i] no_count(6) w by simp
  then show ?thesis ..
qed

lemma create_rd_phase:
  assumes run: "realm_create_rd E vm h = (r, h')"
    and ph: "in_phase E Not_created h" and w: "warnings h' = warnings h"
  shows "in_phase E (if r = 0 then Under_construction else Not_created) h'"
proof -
  have g: "r_rd (realm_of h) = 0" "r_params (realm_of h) \<noteq> 0"
    using run w by (cases "r_rd (realm_of h) = 0"; cases "r_params (realm_of h) = 0"; auto simp: realm_create_rd_def Let_def)+
  obtain page h1 where gp: "get_free_page E False h = (page, h1)" by fastforce
  have h1: "in_phase E Not_created h1" "warnings h1 = warnings h"
    using phase_kept.get_page [OF ph, of False] gp get_page_effect(2) [OF gp] by simp_all
  show ?thesis
  proof (cases page)
    case None
    then show ?thesis using run g gp h1 by (auto simp: realm_create_rd_def WARN_ON_def ENOMEM_def)
  next
    case (Some p)
    let ?rd = "phys_to_virt E p"
    obtain d h2 where d: "rmi_granule_delegate E (virt_to_phys E ?rd) h1 = (d, h2)" by fastforce
    have h2: "in_phase E Not_created h2" "warnings h2 = warnings h"
      using phase_kept.granule_delegated [OF h1(1), of "virt_to_phys E ?rd"] d delegate_effect(2) [OF d] h1(2) by simp_all
    obtain failed i h3 where t: "delegate_pgds E (pgd_phys vm) (root_tables E vm) 0 h2 = (failed, i, h3)"
      using prod_cases3 by blast
    have h3: "in_phase E Not_created h3"
      using phase_kept.pgds_delegated [OF h2(1), of "pgd_phys vm" "root_tables E vm" 0] t by simp
    have w3: "warnings h3 = warnings h2" by (rule delegate_pgds_warnings [OF t])
    have step: "(r, h') = (if d \<noteq> 0 then (- ENXIO, free_page E ?rd h2)
        else if failed then (- ENXIO, out_undelegate_tables E vm ?rd (virt_to_phys E ?rd) i h3)
        else create_rd_command E vm ?rd (virt_to_phys E ?rd) (kvm_pgd_pages E (pgt_ia_bits vm) (pgt_start_level vm)) i h3)"
      using run g gp Some d t
      by (auto simp: realm_create_rd_def create_rd_tables_def root_tables_def WARN_ON_def Let_def split: if_splits)
    show ?thesis
      using step create_rd_command_phase [of E vm ?rd "virt_to_phys E ?rd" _ i h3 r h'] h3 w w3 h2(2)
        phase_kept.free [OF h2(1), of ?rd] phase_kept.tables_out [OF h3, of vm ?rd "virt_to_phys E ?rd" i]
      by (auto simp: ENXIO_def split: if_splits)
  qed
qed

text \<open>The phase that a state of the realm stands for; a dying realm may or may not be destroyed.\<close>

fun agrees :: "realm_state \<Rightarrow> phase \<Rightarrow> bool" where
  "agrees REALM_STATE_NONE ph = (ph = Not_created)"
| "agrees REALM_STATE_NEW ph = (ph = Under_construction)"
| "agrees REALM_STATE_ACTIVE ph = (ph = Running)"
| "agrees REALM_STATE_DYING ph = True"
| "agrees REALM_STATE_DEAD ph = True"

definition follows :: "host_env \<Rightarrow> host \<Rightarrow> bool" where
  "follows E h \<longleftrightarrow> (\<exists>ph. in_phase E ph h \<and> agrees (r_state (realm_of h)) ph)"

lemma create_realm_follows:
  assumes run: "kvm_create_realm E vm h = (r, h')" and f: "follows E h" and w: "warnings h' = warnings h"
    and ok: "holds E T h" and pa: "phys_of E (r_params (realm_of h)) \<subseteq> T" and rt: "root_tables_ok E vm"
  shows "follows E h'"
proof (cases "\<not> kvm_is_realm vm \<or> r_state (realm_of h) \<noteq> REALM_STATE_NONE")
  case True
  then show ?thesis using run f by (auto simp: kvm_create_realm_def)
next
  case False
  then have ph: "in_phase E Not_created h" and st: "r_state (realm_of h) = REALM_STATE_NONE" using f by (auto simp: follows_def)
  obtain A D where p: "pages_ok E" "pages_at E h = Some (A, D)" "T \<subseteq> A" "T \<inter> D = {}"
      "\<forall>p \<in> A. handed_out E p" using ok by (rule holds_pagesE)
  have t: "tables E (pgd_phys vm) (root_tables E vm) \<inter> A = {}" using rt p(5) by (auto simp: root_tables_ok_def)
  have "phys_of E (r_params (realm_of h)) \<inter> (D \<union> tables E (pgd_phys vm) (root_tables E vm)) = {}"
      "phys_of E (r_params (realm_of h)) \<subseteq> A" using pa p t by blast+
  note e = create_realm_effect [OF run p(1,2) w this]
  obtain v h1 where v: "rme_vmid_reserve E h = (v, h1)" by fastforce
  define h2 where "h2 = set_realm (\<lambda>r. r\<lparr>r_vmid := word_of_int v\<rparr>) h1"
  have h2: "in_phase E Not_created h2" "in_phase E Not_created h1" "warnings h2 = warnings h"
    using v ph by (auto simp: h2_def rme_vmid_reserve_def split: prod.splits)
  obtain r3 h3 where c: "realm_create_rd E vm h2 = (r3, h3)" by fastforce
  have step: "(r, h') = (if v < 0 then (v, h1)
      else if r3 \<noteq> 0 then (r3, rme_vmid_release E (r_vmid (realm_of h3)) h3)
      else (0, set_realm (\<lambda>r. r\<lparr>r_params := 0\<rparr>)
        (free_page E (r_params (realm_of h3)) (set_realm (\<lambda>r. r\<lparr>r_state := REALM_STATE_NEW\<rparr>) h3))))"
    using run v c False by (auto simp: kvm_create_realm_def Let_def h2_def split: if_splits)
  have "in_phase E (if r = 0 then Under_construction else Not_created) h'"
    using step create_rd_phase [OF c h2(1)] h2(2,3) w
      phase_kept.free [of E _ "set_realm (\<lambda>r. r\<lparr>r_state := REALM_STATE_NEW\<rparr>) h3"]
    by (auto simp: rme_vmid_release_def free_effect(2) split: if_splits)
  moreover have "r_state (realm_of h') = (if r = 0 then REALM_STATE_NEW else REALM_STATE_NONE)"
    using e st by auto
  ultimately show ?thesis by (auto simp: follows_def split: if_splits)
qed

lemma activate_follows:
  assumes f: "follows E h"
  shows "follows E (snd (kvm_activate_realm E h))"
proof (cases "r_state (realm_of h) = REALM_STATE_NEW")
  case True
  then have ph: "in_phase E Under_construction h" using f by (auto simp: follows_def)
  obtain r h1 where a: "rmi_realm_activate E (rd_phys E h) h = (r, h1)" by fastforce
  have "realm_of h1 = realm_of h"
    using a by (auto simp: rmi_realm_activate_def arm_smccc_1_1_invoke_def Let_def)
  then show ?thesis
    using phase_calls(2) [OF ph a] True a
    by (auto simp: kvm_activate_realm_def follows_def split: if_splits)
qed (use f in \<open>simp add: kvm_activate_realm_def\<close>)

lemma destroy_rd_phase: "in_phase E ph h \<Longrightarrow> \<exists>ph'. in_phase E ph' (snd (destroy_rd E h))"
proof -
  assume h: "in_phase E ph h"
  obtain r1 h1 where d: "rmi_realm_destroy E (rd_phys E h) h = (r1, h1)" by fastforce
  obtain ph1 where h1: "in_phase E ph1 h1" using phase_calls(3) [OF h d] by blast
  obtain r2 h2 where u: "rmi_granule_undelegate E (rd_phys E h1) h1 = (r2, h2)" by fastforce
  have h2: "in_phase E ph1 h2" using phase_kept.undelegate [OF h1, of "rd_phys E h1"] u by simp
  have "in_phase E ph1 (emit Warn h1)" "in_phase E ph1 (emit Warn h2)" "in_phase E ph1 (free_page E v h2)" for v
    using in_phase_other [OF h1] in_phase_other [OF h2] phase_kept.free [OF h2] by simp_all
  then show ?thesis
    using h d u by (auto simp: destroy_rd_def Let_def WARN_ON_def split: prod.splits)
qed

lemma destroy_rd_state: "r_state (realm_of (snd (destroy_rd E h))) = r_state (realm_of h)"
proof -
  obtain r1 h1 where d: "rmi_realm_destroy E (rd_phys E h) h = (r1, h1)" by fastforce
  have o1: "realm_of h1 = realm_of h"
    using d by (auto simp: rmi_realm_destroy_def arm_smccc_1_1_invoke_def Let_def)
  obtain r2 h2 where u: "rmi_granule_undelegate E (rd_phys E h1) h1 = (r2, h2)" by fastforce
  have o2: "realm_of h2 = realm_of h" using outside_fields(1) [OF undelegate_effect(1) [OF u]] o1 by simp
  show ?thesis
    using d u o1 o2 outside_fields(1) [OF free_effect(1), of E _ h2] by (simp add: destroy_rd_def WARN_ON_def Let_def)
qed

lemma destroy_follows:
  assumes f: "follows E h"
  shows "follows E (kvm_destroy_realm E vm h)"
proof -
  obtain ph where ph: "in_phase E ph h" "agrees (r_state (realm_of h)) ph" using f by (auto simp: follows_def)
  define h1 where "h1 = (if r_params (realm_of h) \<noteq> 0
      then set_realm (\<lambda>r. r\<lparr>r_params := 0\<rparr>) (free_page E (r_params (realm_of h)) h) else h)"
  have h1: "in_phase E ph h1" "r_state (realm_of h1) = r_state (realm_of h)"
    using ph phase_kept.free outside_fields(1) [OF free_effect(1)] by (auto simp: h1_def)
  define h2 where "h2 = set_realm (\<lambda>r. r\<lparr>r_state := REALM_STATE_DYING\<rparr>) h1"
  obtain go h3 where d: "destroy_rd E h2 = (go, h3)" by fastforce
  obtain ph3 where h3: "in_phase E ph3 h3" using destroy_rd_phase [of E ph h2] h1(1) d by (auto simp: h2_def)
  have s3: "r_state (realm_of h3) = REALM_STATE_DYING"
    using destroy_rd_state [of E h2] d by (simp add: h2_def)
  define h4 where "h4 = destroy_spare E (rme_vmid_release E (r_vmid (realm_of h3)) h3)"
  have h4: "in_phase E ph3 h4" "r_state (realm_of h4) = REALM_STATE_DYING"
    using phase_kept.released h3 s3
    by (simp_all add: h4_def destroy_spare_def release_rtt_realm rme_vmid_release_def)
  obtain ok h5 where p: "destroy_pgds E (pgd_phys vm) (unat (kvm_pgd_pages E (pgt_ia_bits vm) (pgt_start_level vm))) 0 h4 = (ok, h5)"
    by fastforce
  have h5: "in_phase E ph3 h5" "r_state (realm_of h5) = REALM_STATE_DYING"
    using phase_kept.pgds_destroyed [OF h4(1)] p destroy_pgds_realm h4(2) by (metis snd_conv)+
  have step: "kvm_destroy_realm E vm h = (if r_state (realm_of h1) = REALM_STATE_NONE then h1
      else if \<not> go then h3 else if \<not> ok then h5
      else emit Free_stage2_pgd (set_realm (\<lambda>r. r\<lparr>r_state := REALM_STATE_DEAD\<rparr>) h5))"
    using d p by (simp add: kvm_destroy_realm_def Let_def flip: h1_def h2_def h4_def)
  have "in_phase E ph3 (emit Free_stage2_pgd (set_realm (\<lambda>r. r\<lparr>r_state := REALM_STATE_DEAD\<rparr>) h5))"
    by (rule in_phase_other) (simp_all add: h5(1))
  then show ?thesis using h1 ph h3 s3 h5 by (auto simp: step follows_def)
qed

section \<open>Steps\<close>

type_synonym machine = "realm_rec list \<times> host"

definition guest_pages :: "host_env \<Rightarrow> host \<Rightarrow> u64 \<Rightarrow> u64 \<Rightarrow> bool" where
  "guest_pages E h page map_size \<longleftrightarrow> (\<forall>A D. pages_at E h = Some (A, D) \<longrightarrow>
     (\<forall>k < pages_of E map_size. page + of_nat k * PAGE_SIZE E \<notin> A))"

text \<open>
  An operation with any fuel is a step; without enough fuel it is the part of the operation that the fuel
  allows. A protected mapping gets pages that are not the kernel's own, and a failed creation of a REC leaves no REC.
\<close>

inductive host_step :: "host_env \<Rightarrow> kvm_vm \<Rightarrow> machine \<Rightarrow> machine \<Rightarrow> bool" for E vm where
  init_vm: "r_params (realm_of h) = 0 \<Longrightarrow> kvm_init_realm_vm E vm h = (r, h') \<Longrightarrow> host_step E vm (recs, h) (recs, h')"
| enable_cap: "host_step E vm (recs, h) (recs, state_of (kvm_realm_enable_cap E fuel vm cap h))"
| destroy_rtts: "host_step E vm (recs, h) (recs, state_of (kvm_realm_destroy_rtts E fuel bits h))"
| destroy_data: "host_step E vm (recs, h) (recs, state_of (realm_destroy_undelegate_range E fuel ipa sz h))"
| unmap_range: "host_step E vm (recs, h) (recs, state_of (kvm_realm_unmap_range E fuel bits ipa sz h))"
| set_ipa: "host_step E vm (recs, h) (recs, state_of (realm_set_ipa_state E fuel bits rec_va start e ripas h))"
| map_protected: "guest_pages E h page sz \<Longrightarrow>
    host_step E vm (recs, h) (recs, snd (realm_map_protected E ipa page sz mc h))"
| map_non_secure: "host_step E vm (recs, h) (recs, snd (realm_map_non_secure E ipa page sz mc h))"
| psci: "host_step E vm (recs, h) (recs, snd (realm_psci_complete E calling target status h))"
| create_rec: "kvm_create_rec E vcpu rec h = Some ((r, rec'), h') \<Longrightarrow>
    host_step E vm (recs, h) (if r = 0 then rec' # recs else recs, h')"
| enter: "rec \<in> set recs \<Longrightarrow> host_step E vm (recs, h) (recs, snd (kvm_rec_enter E rec h))"
| destroy_rec: "kvm_destroy_rec E vcpu rec h = Some h' \<Longrightarrow>
    host_step E vm (recs1 @ rec # recs2, h) (recs1 @ recs2, h')"
| destroy: "host_step E vm (recs, h) (recs, kvm_destroy_realm E vm h)"

inductive host_reachable :: "host_env \<Rightarrow> kvm_vm \<Rightarrow> machine \<Rightarrow> bool" for E vm where
  start: "hlog h = [] \<Longrightarrow> r_state (realm_of h) = REALM_STATE_NONE \<Longrightarrow> r_params (realm_of h) = 0 \<Longrightarrow>
    host_reachable E vm ([], h)"
| step: "host_reachable E vm m \<Longrightarrow> host_step E vm m m' \<Longrightarrow> host_reachable E vm m'"

section \<open>The invariant\<close>

definition runs :: "host_env \<Rightarrow> realm_rec list \<Rightarrow> u64 set" where
  "runs E recs = (\<Union>r \<in> set recs. phys_of E (rec_run r))"

fun separate :: "host_env \<Rightarrow> realm_rec list \<Rightarrow> bool" where
  "separate E [] = True"
| "separate E (r # rs) \<longleftrightarrow> phys_of E (rec_run r) \<inter> runs E rs = {} \<and> separate E rs"

lemma runs_simps [simp]: "runs E [] = {}" "runs E (r # rs) = phys_of E (rec_run r) \<union> runs E rs"
  "runs E (xs @ ys) = runs E xs \<union> runs E ys"
  by (auto simp: runs_def)

lemma separate_remove: "separate E (xs @ r # ys) \<Longrightarrow> separate E (xs @ ys) \<and> phys_of E (rec_run r) \<inter> runs E (xs @ ys) = {}"
  by (induction xs) auto

definition params_of :: "host_env \<Rightarrow> host \<Rightarrow> u64 set" where
  "params_of E h = phys_of E (r_params (realm_of h))"

fun machine_ok :: "host_env \<Rightarrow> machine \<Rightarrow> bool" where
  "machine_ok E (recs, h) \<longleftrightarrow> holds E (params_of E h \<union> runs E recs) h \<and> params_of E h \<inter> runs E recs = {} \<and>
     separate E recs \<and> follows E h"

text \<open>An operation that keeps the record of the realm and every phase.\<close>

lemma kept:
  assumes m: "machine_ok E (recs, h)" and pg: "holds E (params_of E h \<union> runs E recs) h'"
    and fr: "same_realm (realm_of h') (realm_of h)" and ph: "\<And>ph. in_phase E ph h \<Longrightarrow> agrees (r_state (realm_of h)) ph \<Longrightarrow> in_phase E ph h'"
  shows "machine_ok E (recs, h')"
proof -
  have "r_state (realm_of h') = r_state (realm_of h)" "params_of E h' = params_of E h"
    using same_realm_fields [OF fr] by (simp_all add: params_of_def)
  then show ?thesis using m pg ph by (auto simp: follows_def)
qed

lemma construction_kept:
  assumes m: "machine_ok E (recs, h)" and new: "r_state (realm_of h) = REALM_STATE_NEW"
    and pg: "holds E (params_of E h \<union> runs E recs) h'" and fr: "same_realm (realm_of h') (realm_of h)"
    and ph: "in_phase E Under_construction h \<Longrightarrow> in_phase E Under_construction h'"
  shows "machine_ok E (recs, h')"
  by (rule kept [OF m pg fr]) (use new ph in auto)

lemma machine_ok_realm:
  assumes "machine_ok E (recs, h)" "holds E (params_of E h' \<union> runs E recs) h'" "params_of E h' \<subseteq> params_of E h" "follows E h'"
  shows "machine_ok E (recs, h')"
  using assms by auto

lemma config_step:
  assumes m: "machine_ok E (recs, h)"
  shows "machine_ok E (recs, snd (kvm_rme_config_realm E user h))"
proof (rule machine_ok_realm [OF m])
  let ?h = "snd (kvm_rme_config_realm E user h)"
  have r: "r_state (realm_of ?h) = r_state (realm_of h)" "r_params (realm_of ?h) = r_params (realm_of h)"
      "\<And>ph. in_phase E ph ?h = in_phase E ph h"
    by (auto simp: kvm_rme_config_realm_def config_defs Let_def split: option.split)
  then show "params_of E ?h \<subseteq> params_of E h" "follows E ?h" using m by (auto simp: params_of_def follows_def)
  show "holds E (params_of E ?h \<union> runs E recs) ?h"
    using holds_config [of E _ h user] m r by (simp add: params_of_def)
qed

lemma activate_step:
  assumes m: "machine_ok E (recs, h)"
  shows "machine_ok E (recs, snd (kvm_activate_realm E h))"
proof (rule machine_ok_realm [OF m])
  let ?h = "snd (kvm_activate_realm E h)"
  have r: "r_params (realm_of ?h) = r_params (realm_of h)"
    by (auto simp: kvm_activate_realm_def rmi_realm_activate_def arm_smccc_1_1_invoke_def Let_def)
  then show "params_of E ?h \<subseteq> params_of E h" "follows E ?h"
    using m activate_follows by (auto simp: params_of_def)
  show "holds E (params_of E ?h \<union> runs E recs) ?h"
    using holds_activate [of E _ h] m r by (simp add: params_of_def)
qed

lemma create_quiet_step:
  assumes m: "machine_ok E (recs, h)" and rt: "root_tables_ok E vm" and run: "kvm_create_realm E vm h = (r, h')"
    and w: "warnings h' = warnings h"
  shows "machine_ok E (recs, h')"
proof -
  let ?T = "params_of E h \<union> runs E recs"
  have h: "holds E ?T h" "phys_of E (r_params (realm_of h)) \<subseteq> ?T" using m by (auto simp: params_of_def)
  have fo: "follows E h'" by (rule create_realm_follows [OF run _ w h rt]) (use m in simp)
  have "if r = 0 then holds E (?T - params_of E h) h' \<and> r_params (realm_of h') = 0
      else holds E ?T h' \<and> r_params (realm_of h') = r_params (realm_of h)"
    using holds_create [OF h(1) run w rt h(2)] by (auto simp: params_of_def split: if_splits)
  moreover have "?T - params_of E h = runs E recs" using m by auto
  ultimately show ?thesis
    using m fo by (intro machine_ok_realm [OF m]) (auto simp: params_of_def phys_of_def split: if_splits)
qed

lemma create_step:
  assumes m: "machine_ok E (recs, h)" and rt: "root_tables_ok E vm" and rules: "rmm_rules E"
  shows "machine_ok E (recs, snd (kvm_create_realm E vm h))"
proof -
  obtain r h' where run: "kvm_create_realm E vm h = (r, h')" by fastforce
  obtain A D where ok: "pages_ok E" and at: "pages_at E h = Some (A, D)" using m by (auto simp: holds_pages_at)
  from quiet_create [OF run ok rules at rt] show ?thesis
  proof
    assume "warnings h' = warnings h"
    from create_quiet_step [OF m rt run this] show ?thesis using run by simp
  next
    assume w: "r \<noteq> 0 \<and> hlog h' = Warn # hlog h \<and> (\<exists>v. realm_of h' = (realm_of h)\<lparr>r_vmid := v\<rparr>)"
    then have l: "hlog h' = hlog (emit Warn h)" by simp
    have "r_state (realm_of h') = r_state (realm_of h)" "params_of E h' = params_of E h" using w by (auto simp: params_of_def)
    moreover have "holds E T h \<Longrightarrow> holds E T h'" for T
      using holds_log [OF l, of E T] pages_at_on [of E True h] by (simp add: holds_pages_at WARN_ON_def)
    moreover have "in_phase E ph h \<Longrightarrow> in_phase E ph h'" for ph
      using in_phase_log [OF l, of E ph] in_phase_other [of E ph h Warn] by simp
    ultimately show ?thesis using m run by (auto simp: follows_def)
  qed
qed

lemma init_ipa_step:
  assumes m: "machine_ok E (recs, h)"
  shows "machine_ok E (recs, state_of (kvm_init_ipa_range_realm E fuel b s h))"
proof (cases "r_state (realm_of h) = REALM_STATE_NEW")
  case True
  show ?thesis
    using m by (intro construction_kept [OF m True] holds_init_ipa frame.init_ipa_range construction.init_ipa_range) simp_all
qed (use m in \<open>simp add: kvm_init_ipa_range_realm_def Let_def\<close>)

lemma populate_step_ok:
  assumes m: "machine_ok E (recs, h)"
  shows "machine_ok E (recs, state_of (kvm_populate_realm E fuel b s flags h))"
proof (cases "r_state (realm_of h) = REALM_STATE_NEW")
  case True
  show ?thesis
    using m by (intro construction_kept [OF m True] holds_populate frame.populate construction.populate) simp_all
qed (use m in \<open>simp add: kvm_populate_realm_def\<close>)

lemma state_of_returned [simp]: "state_of (returned x) = snd x"
  by (cases x) simp

lemma enable_cap_step:
  assumes m: "machine_ok E (recs, h)" and rt: "root_tables_ok E vm" and rules: "rmm_rules E"
  shows "machine_ok E (recs, state_of (kvm_realm_enable_cap E fuel vm cap h))"
  using m create_step [OF m rt rules] config_step [OF m] activate_step [OF m] init_ipa_step [OF m] populate_step_ok [OF m]
  by (auto simp: kvm_realm_enable_cap_def simp del: machine_ok.simps split: option.split)

lemma init_vm_step:
  assumes m: "machine_ok E (recs, h)" and z: "r_params (realm_of h) = 0" and run: "kvm_init_realm_vm E vm h = (r, h')"
  shows "machine_ok E (recs, h')"
proof -
  have p: "params_of E h = {}" using z by (simp add: params_of_def phys_of_def)
  have o: "r_state (realm_of h') = r_state (realm_of h)" "\<And>ph. in_phase E ph h \<Longrightarrow> in_phase E ph h'"
  proof -
    obtain page h1 where g: "get_free_page E False h = (page, h1)" by fastforce
    show "r_state (realm_of h') = r_state (realm_of h)" "\<And>ph. in_phase E ph h \<Longrightarrow> in_phase E ph h'"
      using run g outside_fields(1) [OF get_page_effect(1) [OF g]] phase_kept.get_page [of E _ h False]
      by (auto simp: kvm_init_realm_vm_def Let_def split: option.splits)
  qed
  have "holds E (runs E recs) h" using m p by simp
  from holds_init_vm [OF this run] m p o show ?thesis
    by (cases "r = 0") (auto simp: params_of_def Un_commute Int_commute follows_def)
qed

lemma enter_step:
  assumes m: "machine_ok E (recs, h)"
  shows "machine_ok E (recs, snd (kvm_rec_enter E rec h))"
proof (cases "r_state (realm_of h) = REALM_STATE_ACTIVE")
  case True
  obtain r h1 where e: "rmi_rec_enter E (virt_to_phys E (rec_page rec)) (virt_to_phys E (rec_run rec)) h = (r, h1)" by fastforce
  have "realm_of h1 = realm_of h" using e by (auto simp: rmi_rec_enter_def arm_smccc_1_1_invoke_def Let_def)
  then show ?thesis
    using True e holds_life_call(5) [OF _ e] phase_calls(5) [OF _ e] m
    by (intro kept [OF m]) (auto simp: kvm_rec_enter_def)
qed (use m in \<open>simp add: kvm_rec_enter_def\<close>)

lemma create_rec_step:
  assumes m: "machine_ok E (recs, h)" and run: "kvm_create_rec E vcpu rec h = Some ((r, rec'), h')"
  shows "machine_ok E (if r = 0 then rec' # recs else recs, h')"
proof -
  let ?T = "params_of E h \<union> runs E recs"
  have hd: "if r = 0 then holds E (?T \<union> phys_of E (rec_run rec')) h' \<and> phys_of E (rec_run rec') \<inter> ?T = {}
      else holds E ?T h'"
    using holds_create_rec [OF _ run, of ?T] m by (auto split: if_splits)
  have "holds E ?T h'" using hd by (auto split: if_splits intro: holds_mono)
  moreover have f: "same_realm (realm_of h') (realm_of h)" by (rule frame.rec_created [OF same_realm_refl run])
  moreover have "r_state (realm_of h) \<noteq> REALM_STATE_NEW \<Longrightarrow> hlog h' = hlog h"
    using run by (auto simp: kvm_create_rec_def Let_def split: if_splits)
  ultimately have k: "machine_ok E (recs, h')"
    using m construction.rec_created [OF _ run] in_phase_log [of h h' E]
    by (cases "r_state (realm_of h) = REALM_STATE_NEW") (auto intro!: kept [OF m] simp del: machine_ok.simps)
  have "params_of E h' = params_of E h" using same_realm_fields(2) [OF f] by (simp add: params_of_def)
  then show ?thesis using k hd by (auto simp: Un_ac)
qed

lemma destroy_rec_step:
  assumes m: "machine_ok E (recs1 @ rec # recs2, h)" and run: "kvm_destroy_rec E vcpu rec h = Some h'"
  shows "machine_ok E (recs1 @ recs2, h')"
proof -
  let ?T = "params_of E h \<union> runs E (recs1 @ rec # recs2)"
  have "holds E (?T - phys_of E (rec_run rec)) h'"
    by (rule holds_destroy_rec [OF _ run]) (use m in auto)
  moreover have "separate E (recs1 @ recs2)" "phys_of E (rec_run rec) \<inter> runs E (recs1 @ recs2) = {}"
    using separate_remove m by auto
  moreover have "same_realm (realm_of h') (realm_of h)" by (rule frame.rec_destroyed [OF same_realm_refl run])
  note f = same_realm_fields [OF this]
  have "params_of E h' = params_of E h" using f(2) by (simp add: params_of_def)
  moreover have "follows E h'" using m f(1) phase_kept.rec_destroyed [OF _ run] by (auto simp: follows_def)
  ultimately show ?thesis using m by (auto intro: holds_mono)
qed

lemma destroy_step:
  assumes m: "machine_ok E (recs, h)"
  shows "machine_ok E (recs, kvm_destroy_realm E vm h)"
proof -
  have h: "holds E (params_of E h \<union> runs E recs) h" "phys_of E (r_params (realm_of h)) \<subseteq> params_of E h \<union> runs E recs"
    using m by (auto simp: params_of_def)
  have "params_of E h \<union> runs E recs - params_of E h = runs E recs" using m by auto
  then have "holds E (runs E recs) (kvm_destroy_realm E vm h)"
    using holds_destroy(1) [OF h, of vm] by (simp add: params_of_def)
  then show ?thesis
    using m holds_destroy(2) [OF h, of vm] destroy_follows [of E h vm] by (simp add: params_of_def phys_of_def)
qed

lemma holds_psci: "holds E T h \<Longrightarrow> holds E T (snd (realm_psci_complete E a b c h))"
  using holds_life_call(6) by (auto simp: realm_psci_complete_def split: prod.split)

lemma machine_holds: "machine_ok E (recs, h) \<Longrightarrow> holds E (params_of E h \<union> runs E recs) h"
  by simp

lemma map_protected_step:
  assumes m: "machine_ok E (recs, h)" and g: "guest_pages E h page sz"
  shows "machine_ok E (recs, snd (realm_map_protected E ipa page sz mc h))"
proof (rule kept [OF m])
  have "page + of_nat k * PAGE_SIZE E \<notin> params_of E h \<union> runs E recs" if "k < pages_of E sz" for k
    using g that machine_holds [OF m] by (auto simp: guest_pages_def holds_pages_at)
  then show "holds E (params_of E h \<union> runs E recs) (snd (realm_map_protected E ipa page sz mc h))"
    by (rule pages.map_protected [OF _ machine_holds [OF m]])
  show "same_realm (realm_of (snd (realm_map_protected E ipa page sz mc h))) (realm_of h)"
    by (rule frame.map_protected [OF _ same_realm_refl]) simp
  show "in_phase E ph h \<Longrightarrow> in_phase E ph (snd (realm_map_protected E ipa page sz mc h))" for ph
    by (rule phase_kept.map_protected) simp_all
qed

lemma host_step_ok:
  assumes "host_step E vm m m'" "machine_ok E m" "root_tables_ok E vm" "rmm_rules E"
  shows "machine_ok E m'"
  using assms
proof (induction rule: host_step.induct)
  case (map_protected h page sz recs ipa mc)
  show ?case by (rule map_protected_step [OF map_protected(2,1)])
next
  case (init_vm h r h' recs)
  show ?case by (rule init_vm_step [OF init_vm(3,1,2)])
next
  case (enable_cap recs h fuel cap)
  show ?case by (rule enable_cap_step [OF enable_cap(1-3)])
next
  case (destroy_rtts recs h fuel bits)
  note m = destroy_rtts(1)
  show ?case by (rule kept [OF m pages.destroy_rtts [OF machine_holds [OF m]]
        frame.destroy_rtts [OF same_realm_refl] phase_kept.destroy_rtts])
next
  case (destroy_data recs h fuel ipa sz)
  note m = destroy_data(1)
  show ?case by (rule kept [OF m pages.destroy_range [OF machine_holds [OF m]]
        frame.destroy_range [OF same_realm_refl] phase_kept.destroy_range])
next
  case (unmap_range recs h fuel bits ipa sz)
  note m = unmap_range(1)
  show ?case by (rule kept [OF m pages.unmap_range [OF machine_holds [OF m]]
        frame.unmap_range [OF same_realm_refl] phase_kept.unmap_range])
next
  case (set_ipa recs h fuel bits rec_va start e ripas)
  note m = set_ipa(1)
  show ?case by (rule kept [OF m pages.set_ipa [OF machine_holds [OF m]]
        frame.set_ipa [OF same_realm_refl] phase_kept.set_ipa])
next
  case (map_non_secure recs h ipa page sz mc)
  note m = map_non_secure(1)
  show ?case by (rule kept [OF m pages.map_non_secure [OF machine_holds [OF m]]
        frame.map_non_secure [OF same_realm_refl] phase_kept.map_non_secure])
next
  case (psci recs h calling target status)
  note m = psci(1)
  show ?case by (rule kept [OF m holds_psci [OF machine_holds [OF m]] frame.psci [OF same_realm_refl] phase_kept.psci])
next
  case (create_rec vcpu rec h r rec' h' recs)
  show ?case by (rule create_rec_step [OF create_rec(2,1)])
next
  case (enter rec recs h)
  show ?case by (rule enter_step [OF enter(2)])
next
  case (destroy_rec vcpu rec h h' recs1 recs2)
  show ?case by (rule destroy_rec_step [OF destroy_rec(2,1)])
next
  case (destroy recs h)
  show ?case by (rule destroy_step [OF destroy(1)])
qed

lemma reachable_ok:
  assumes "host_reachable E vm m" "pages_ok E" "root_tables_ok E vm" "rmm_rules E"
  shows "machine_ok E m"
  using assms
proof (induction rule: host_reachable.induct)
  case (start h)
  then show ?case
    by (simp add: holds_pages_at pages_at_def follows_def in_phase_def params_of_def phys_of_def pages_ok_def)
next
  case (step m m')
  then show ?case using host_step_ok by blast
qed

end
