(* ===== verification/Kvm_Example.thy ===== *)
theory Kvm_Example
  imports Kvm_Machine
begin

text \<open>
  Concrete environments of the host: a monitor that keeps track of the delegated granules and
  answers the other calls from a script, and an allocator of nine pages. They show that the
  hypotheses on the environment can hold, and the witnesses of the properties run in them.
\<close>

definition result :: "u64 \<Rightarrow> u64 \<Rightarrow> u64 \<Rightarrow> smccc_res" where
  "result a b c = \<lparr>res_a0 = a, res_a1 = b, res_a2 = c, res_a3 = 0, res_a4 = 0\<rparr>"

fun demo_page_step :: "hevent \<Rightarrow> page_state \<Rightarrow> page_state option" where
  "demo_page_step (Smc fid args res) (alloc, deleg) =
     (if c_int (res_a0 res) \<noteq> 0 then Some (alloc, deleg)
      else if fid = 0xC4000151 then Some (alloc, insert (hd args) deleg)
      else if fid = 0xC4000152 then Some (alloc, deleg - {hd args})
      else Some (alloc, deleg))"
| "demo_page_step (Page_alloc mc (Some p)) (alloc, deleg) = Some (insert p alloc, deleg)"
| "demo_page_step (Page_free p) (alloc, deleg) = (if p \<in> deleg then None else Some (alloc - {p}, deleg))"
| "demo_page_step _ st = Some st"

abbreviation demo_pages :: "hlog \<Rightarrow> page_state option" where
  "demo_pages \<equiv> run_monitor demo_page_step ({}, {})"

definition demo_free_pages :: "u64 list" where
  "demo_free_pages = [0x1000, 0x2000, 0x3000, 0x4000, 0x5000, 0x6000, 0x7000, 0x8000, 0x9000]"

definition demo_smc :: "(u64 \<Rightarrow> bool) \<Rightarrow> (u32 \<Rightarrow> u64 list \<Rightarrow> smccc_res) \<Rightarrow> hlog \<Rightarrow> u32 \<Rightarrow> u64 list \<Rightarrow> smccc_res" where
  "demo_smc refuse script log fid args =
     (if fid = 0xC4000151 then
        (case demo_pages log of Some (alloc, deleg) \<Rightarrow> result (if hd args \<in> deleg then 1 else 0) 0 0 | None \<Rightarrow> result 1 0 0)
      else if fid = 0xC4000152 then
        (case demo_pages log of Some (alloc, deleg) \<Rightarrow>
             result (if hd args \<in> deleg \<and> hd args < 2 ^ 52 \<and> \<not> refuse (hd args) then 0 else 1) 0 0
         | None \<Rightarrow> result 1 0 0)
      else script fid args)"

definition demo_host_env :: "(u64 \<Rightarrow> bool) \<Rightarrow> (u32 \<Rightarrow> u64 list \<Rightarrow> smccc_res) \<Rightarrow> host_env" where
  "demo_host_env refuse script = \<lparr>
     answer_smc = demo_smc refuse script,
     answer_page = (\<lambda>log mc. case demo_pages log of
        Some (alloc, deleg) \<Rightarrow> find (\<lambda>p. p \<notin> alloc \<and> p \<notin> deleg) demo_free_pages | None \<Rightarrow> None),
     virt_to_phys = (\<lambda>v. v - 0xFFF0000000000000),
     phys_to_virt = (\<lambda>p. p + 0xFFF0000000000000),
     ARM_SMCCC_CALL_VAL = (\<lambda>type conv owner func.
        (((push_bit 31 type OR push_bit 30 conv) OR push_bit 24 (owner AND 0x3F)) OR (func AND 0xFFFF))),
     ARM_SMCCC_FAST_CALL = 1, ARM_SMCCC_SMC_64 = 1, ARM_SMCCC_OWNER_STANDARD = 4,
     PHYS_ADDR_MAX = - 1,
     stage2_pgtable_levels = (\<lambda>b. 4),
     ALIGN = (\<lambda>x a. (x + (a - 1)) AND NOT (a - 1)),
     ALIGN_DOWN = (\<lambda>x a. x AND NOT (a - 1)),
     IS_ALIGNED = (\<lambda>x a. x AND (a - 1) = 0),
     PAGE_SHIFT = 12, PAGE_SIZE = 0x1000,
     PTE_S2_MEMATTR_NORMAL = 0x3C, PTE_SHARED = 0x300, POPULATE_FLAGS_MEASURE = 1,
     answer_pfn = (\<lambda>log g. case demo_pages log of
        Some (alloc, deleg) \<Rightarrow> (if 0x100000 + g * 0x1000 \<in> alloc then None else Some (0x100000 + g * 0x1000)) | None \<Rightarrow> None),
     gpa_to_gfn = (\<lambda>a. drop_bit 12 a),
     gfn_to_memslot = (\<lambda>g. Some \<lparr>base_gfn = 0, npages = 0x100\<rparr>),
     gfn_to_hva_memslot = (\<lambda>s g. g * 0x1000),
     vma_lookup = (\<lambda>v. True),
     uninitialised_level = 0, uninitialised_r = 0,
     kvm_granule_shift = (\<lambda>l. 39),
     VTCR_EL2_IPA = (\<lambda>v. 40),
     u64_get_bits = (\<lambda>v f. if f = RMI_FEATURE_REGISTER_0_NUM_BPS then drop_bit 14 v AND 0xF
        else if f = RMI_FEATURE_REGISTER_0_NUM_WPS then drop_bit 18 v AND 0xF
        else if f = RMI_FEATURE_REGISTER_0_SVE_VL then drop_bit 10 v AND 0xF
        else if f = RMI_FEATURE_REGISTER_0_PMU_NUM_CTRS then drop_bit 23 v AND 0x1F
        else v AND f),
     kvm_get_vmid_bits = 2,
     bitmap_zalloc = (\<lambda>n. Some (replicate n False)),
     bitmap_find_free_region = (\<lambda>bm n. case find (\<lambda>i. \<not> bm ! i) [0..<min 0x100 (length bm)] of
        Some i \<Rightarrow> (int i, bm[i := True]) | None \<Rightarrow> (- 12, bm)),
     bitmap_release_region = (\<lambda>bm v. bm[unat v := False]),
     SMCCC_RET_NOT_SUPPORTED = - 1,
     KVM_CAP_ARM_RME_CONFIG_REALM = 0, KVM_CAP_ARM_RME_CREATE_RD = 1, KVM_CAP_ARM_RME_INIT_IPA_REALM = 2,
     KVM_CAP_ARM_RME_POPULATE_REALM = 3, KVM_CAP_ARM_RME_ACTIVATE_REALM = 4,
     KVM_CAP_ARM_RME_CFG_RPV = 0, KVM_CAP_ARM_RME_CFG_HASH_ALGO = 1, KVM_CAP_ARM_RME_CFG_SVE = 2,
     KVM_CAP_ARM_RME_CFG_DBG = 3, KVM_CAP_ARM_RME_CFG_PMU = 4,
     KVM_CAP_ARM_RME_MEASUREMENT_ALGO_SHA256 = 0, KVM_CAP_ARM_RME_MEASUREMENT_ALGO_SHA512 = 1\<rparr>"

lemma demo_smccc [simp]: "smccc_ok (demo_host_env refuse script)"
  by (simp add: smccc_ok_def demo_host_env_def)

lemma demo_step: "page_step (demo_host_env refuse script) e st = demo_page_step e st"
  using smc_rmi_values [OF demo_smccc, of refuse script] by (cases "(e, st)" rule: demo_page_step.cases) simp_all

lemma demo_page_run [simp]: "page_run (demo_host_env refuse script) log = demo_pages log"
proof -
  have "page_step (demo_host_env refuse script) = demo_page_step" by (intro ext demo_step)
  then show ?thesis by simp
qed

lemma c_int_0_1 [simp]: "c_int 0 = 0" "c_int 1 = 1"
  by (simp_all add: c_int_def)

lemma demo_fields:
  "answer_smc (demo_host_env refuse script) = demo_smc refuse script"
  "answer_page (demo_host_env refuse script) log mc = (case demo_pages log of
     Some (alloc, deleg) \<Rightarrow> find (\<lambda>p. p \<notin> alloc \<and> p \<notin> deleg) demo_free_pages | None \<Rightarrow> None)"
  "answer_pfn (demo_host_env refuse script) log g = (case demo_pages log of
     Some (alloc, deleg) \<Rightarrow> (if 0x100000 + g * 0x1000 \<in> alloc then None else Some (0x100000 + g * 0x1000)) | None \<Rightarrow> None)"
  "virt_to_phys (demo_host_env refuse script) v = v - 0xFFF0000000000000"
  "phys_to_virt (demo_host_env refuse script) p = p + 0xFFF0000000000000"
  "PAGE_SIZE (demo_host_env refuse script) = 0x1000" "PAGE_SHIFT (demo_host_env refuse script) = 12"
  by (simp_all add: demo_host_env_def)

lemma demo_linear_map: "phys_page p \<Longrightarrow> p + 0xFFF0000000000000 \<noteq> (0::u64)"
proof
  assume "phys_page p" "p + 0xFFF0000000000000 = 0"
  then have "p = - 0xFFF0000000000000" by (simp add: eq_neg_iff_add_eq_0)
  then show False using \<open>phys_page p\<close> by (simp add: phys_page_def)
qed

lemma demo_page_answer:
  assumes "demo_pages log = Some (alloc, deleg)" "answer_page (demo_host_env refuse script) log mc = Some p"
  shows "phys_page p \<and> p \<notin> alloc \<and> p \<notin> deleg"
proof -
  have "p \<in> set demo_free_pages \<and> p \<notin> alloc \<and> p \<notin> deleg"
    using assms by (auto simp: demo_fields find_Some_iff)
  then show ?thesis by (auto simp: demo_free_pages_def phys_page_def)
qed

lemma demo_pfn_answer:
  assumes "demo_pages log = Some (alloc, deleg)" "answer_pfn (demo_host_env refuse script) log g = Some p"
    and "k < pages_of (demo_host_env refuse script) (push_bit (PAGE_SHIFT (demo_host_env refuse script)) 1)"
  shows "p + of_nat k * PAGE_SIZE (demo_host_env refuse script) \<notin> alloc"
proof -
  have "k = 0" using assms(3) by (simp add: demo_fields pages_of_def)
  then show ?thesis using assms(1,2) by (simp add: demo_fields split: if_splits)
qed

lemma demo_pages_ok: "pages_ok (demo_host_env refuse script)"
  unfolding pages_ok_def demo_page_run
proof (intro conjI allI impI)
  fix p log alloc deleg mc g k
  show "smccc_ok (demo_host_env refuse script)" by simp
  { assume "phys_page p"
    then show "virt_to_phys (demo_host_env refuse script) (phys_to_virt (demo_host_env refuse script) p) = p"
      "phys_to_virt (demo_host_env refuse script) p \<noteq> 0" using demo_linear_map by (simp_all add: demo_fields) }
  assume r: "demo_pages log = Some (alloc, deleg)"
  { assume "answer_page (demo_host_env refuse script) log mc = Some p"
    from demo_page_answer [OF r this] show "phys_page p" "p \<notin> alloc" "p \<notin> deleg" by simp_all }
  { assume "answer_pfn (demo_host_env refuse script) log g = Some p"
      "k < pages_of (demo_host_env refuse script) (push_bit (PAGE_SHIFT (demo_host_env refuse script)) 1)"
    from demo_pfn_answer [OF r this] show "p + of_nat k * PAGE_SIZE (demo_host_env refuse script) \<notin> alloc" . }
  note ids = smc_rmi_values [OF demo_smccc, of refuse script]
  { assume "c_int (res_a0 (answer_smc (demo_host_env refuse script) log (SMC_RMI_GRANULE_DELEGATE (demo_host_env refuse script)) [p])) = 0"
    then show "p \<notin> deleg" using r by (auto simp: ids demo_fields demo_smc_def result_def) }
  { assume "c_int (res_a0 (answer_smc (demo_host_env refuse script) log (SMC_RMI_GRANULE_UNDELEGATE (demo_host_env refuse script)) [p])) = 0"
    then show "phys_page p" "p \<in> deleg"
      using r by (auto simp: ids demo_fields demo_smc_def result_def phys_page_def split: if_splits) }
qed

lemma demo_unused: "unused (demo_host_env refuse script) p log \<Longrightarrow> demo_pages log = Some (A, D) \<Longrightarrow> p \<in> D"
proof (induction log arbitrary: A D)
  case (Cons e log)
  obtain A1 D1 where "demo_pages log = Some (A1, D1)" "demo_page_step e (A1, D1) = Some (A, D)"
    using Cons.prems(2) by (cases "demo_pages log") auto
  then show ?case
    using Cons.IH Cons.prems(1) smc_rmi_values [OF demo_smccc, of refuse script]
    by (cases "(e, A1, D1)" rule: demo_page_step.cases) (auto split: if_splits)
qed simp

lemma demo_rules:
  assumes "\<And>args. c_int (res_a0 (script 0xC4000167 args)) = 0"
  shows "rmm_rules (demo_host_env (\<lambda>p. False) script)"
proof -
  note ids = smc_rmi_values [OF demo_smccc, of "\<lambda>p. False" script]
  have "c_int (res_a0 (demo_smc (\<lambda>p. False) script log 0xC4000152 [p])) = 0"
    if "demo_pages log \<noteq> None" "phys_page p" "unused (demo_host_env (\<lambda>p. False) script) p log" for log p
    using that demo_unused [OF that(3)] by (auto simp: demo_smc_def result_def phys_page_def)
  then show ?thesis
    using assms unfolding rmm_rules_def demo_page_run demo_fields ids by (simp add: demo_smc_def)
qed

lemma demo_bitmap_ok: "bitmap_ok (demo_host_env refuse script)"
  by (auto simp: bitmap_ok_def demo_host_env_def find_Some_iff split: option.splits)

text \<open>Two root tables, outside the allocator's pages.\<close>

definition demo_vm :: kvm_vm where
  "demo_vm = \<lparr>kvm_is_realm = True, pgt_ia_bits = 40, pgt_start_level = 0, pgd_phys = 0x800000, vtcr = 0\<rparr>"

lemma demo_root_tables: "root_tables (demo_host_env refuse script) demo_vm = 2"
  by (simp add: root_tables_def kvm_pgd_pages_def kvm_pgd_page_idx_def demo_vm_def demo_host_env_def)

lemma demo_root_tables_ok: "root_tables_ok (demo_host_env refuse script) demo_vm"
proof -
  have "p \<in> set demo_free_pages" if "handed_out (demo_host_env refuse script) p" for p
    using that by (auto simp: handed_out_def demo_fields find_Some_iff split: option.splits)
  moreover have "tables (demo_host_env refuse script) (pgd_phys demo_vm) (root_tables (demo_host_env refuse script) demo_vm) =
      {0x800000, 0x801000}"
    unfolding demo_root_tables by (simp add: numeral_2_eq_2 tables_Suc demo_fields demo_vm_def insert_commute)
  ultimately show ?thesis by (fastforce simp: root_tables_ok_def demo_free_pages_def phys_page_def)
qed

definition demo_realm :: realm where
  "demo_realm = \<lparr>r_state = REALM_STATE_NONE, r_rd = 0, r_params = 0, spare_page = - 1, num_aux = 0, r_vmid = 0,
     ia_bits = 0, pmu_enabled = False\<rparr>"

definition demo_params :: realm_params where
  "demo_params = \<lparr>p_flags = 0, s2sz = 0, sve_vl = 0, num_bps = 0, num_wps = 0, pmu_num_ctrs = 0, hash_algo = 0,
     rpv = [], p_vmid = 0, rtt_base = 0, rtt_level_start = 0, rtt_num_start = 0\<rparr>"

definition demo_host :: host where
  "demo_host = \<lparr>realm_of = demo_realm, params_page = demo_params, rec_params_page = zeroed_rec_params,
     rmm_feat_reg0 = 0x10084010, rme_vmid_bitmap = [True, False, False, False], kvm_rme_is_available = True,
     vflag = 4, hlog = []\<rparr>"

end
