(* ===== verification/Kvm_Destroy.thy ===== *)
theory Kvm_Destroy
  imports Kvm_Life
begin

text \<open>
  The exact effect of \<open>kvm_destroy_realm\<close> in Kvm_Realm when no warning is raised: which pages it
  gives back, and the final state. With the effect of the creation in Kvm_Life it gives the round trip.
\<close>

lemma outside_set_realm: "outside h h' \<Longrightarrow> outside (set_realm f h) (set_realm f h')"
  unfolding outside_def set_realm_def by (cases h; cases h') simp

section \<open>Root tables\<close>

lemma destroy_pgds_warnings: "warnings h \<le> warnings (snd (destroy_pgds E base n i h))"
proof (induction n arbitrary: i h)
  case (Suc n)
  obtain ret h1 where u: "rmi_granule_undelegate E (base + of_nat i * PAGE_SIZE E) h = (ret, h1)" by fastforce
  have "warnings h1 \<le> warnings (WARN_ON (ret \<noteq> 0) h1)" by simp
  then show ?case
    using u undelegate_effect(2) [OF u] Suc.IH [of "WARN_ON (ret \<noteq> 0) h1" "Suc i"] by (auto simp: Let_def)
qed simp

definition tables_from :: "host_env \<Rightarrow> u64 \<Rightarrow> nat \<Rightarrow> nat \<Rightarrow> u64 set" where
  "tables_from E base i n = (\<lambda>k. base + of_nat k * PAGE_SIZE E) ` {i..<i + n}"

lemma tables_from_Suc: "tables_from E base i (Suc n) = insert (base + of_nat i * PAGE_SIZE E) (tables_from E base (Suc i) n)"
proof -
  have "{i..<i + Suc n} = insert i {Suc i..<Suc i + n}" by auto
  then show ?thesis by (simp add: tables_from_def)
qed

lemma tables_from_0: "tables_from E base i 0 = {}" "tables_from E base 0 n = tables E base n"
  by (simp_all add: tables_from_def tables_def lessThan_atLeast0)

lemma destroy_pgds_effect:
  assumes "pages_ok E" "pages_at E h = Some (A, D)" "warnings (snd (destroy_pgds E base n i h)) = warnings h"
  shows "\<exists>h'. destroy_pgds E base n i h = (True, h') \<and> outside h h' \<and> pages_at E h' = Some (A, D - tables_from E base i n)"
  using assms
proof (induction n arbitrary: i h D)
  case 0
  then show ?case by (simp add: tables_from_0)
next
  case (Suc n)
  let ?p = "base + of_nat i * PAGE_SIZE E"
  obtain ret h1 where u: "rmi_granule_undelegate E ?p h = (ret, h1)" by fastforce
  note e = undelegate_effect [OF u]
  have z: "ret = 0"
    using Suc.prems(3) u e(2) destroy_pgds_warnings [of "WARN_ON (ret \<noteq> 0) h1" E base n "Suc i"]
    by (auto simp: Let_def split: if_splits)
  have "pages_at E h1 = Some (A, D - {?p})" using e(3) [OF Suc.prems(1,2) z] by simp
  moreover have "warnings (snd (destroy_pgds E base n (Suc i) h1)) = warnings h1"
    using Suc.prems(3) u e(2) z by (simp add: WARN_ON_def)
  ultimately obtain h' where h': "destroy_pgds E base n (Suc i) h1 = (True, h')" "outside h1 h'"
      "pages_at E h' = Some (A, D - {?p} - tables_from E base (Suc i) n)"
    using Suc.IH [OF Suc.prems(1)] by blast
  have "outside h h'" by (rule outside_trans [OF e(1) h'(2)])
  moreover have "D - tables_from E base i (Suc n) = D - {?p} - tables_from E base (Suc i) n"
    by (auto simp: tables_from_Suc)
  ultimately show ?case using u z h'(1,3) by (simp add: WARN_ON_def)
qed

section \<open>The descriptor and the spare page\<close>

lemma undelegated_page:
  assumes "pages_ok E" "rmi_granule_undelegate E p h = (0, h')"
    and "pages_at E h = Some (A, D)"
  shows "phys_page p" "virt_to_phys E (phys_to_virt E p) = p" "phys_to_virt E p \<noteq> 0"
proof -
  have "c_int (res_a0 (answer_smc E (hlog h) (SMC_RMI_GRANULE_UNDELEGATE E) [p])) = 0"
    using assms(2) by (auto simp: rmi_granule_undelegate_def arm_smccc_1_1_invoke_def Let_def)
  then show "phys_page p" using assms(1,3) by (auto simp: pages_ok_def pages_at_def)
  then show "virt_to_phys E (phys_to_virt E p) = p" "phys_to_virt E p \<noteq> 0" using assms(1) by (auto simp: pages_ok_def)
qed

lemma destroy_rd_warnings: "warnings h \<le> warnings (snd (destroy_rd E h))"
proof -
  have d: "rmi_realm_destroy E p k = (r, k') \<Longrightarrow> warnings k' = warnings k" for p k r k'
    by (auto simp: rmi_realm_destroy_def arm_smccc_1_1_invoke_def Let_def)
  obtain a h1 where 1: "rmi_realm_destroy E (rd_phys E h) h = (a, h1)" by fastforce
  obtain b h2 where 2: "rmi_granule_undelegate E (rd_phys E h1) h1 = (b, h2)" by fastforce
  show ?thesis using 1 2 d [OF 1] undelegate_effect(2) [OF 2] by (simp add: destroy_rd_def WARN_ON_def free_effect(2))
qed

lemma destroy_rd_effect:
  assumes "pages_ok E" "pages_at E h = Some (A, D)" "warnings (snd (destroy_rd E h)) = warnings h"
  shows "\<exists>h'. destroy_rd E h = (True, h') \<and> outside (set_realm (\<lambda>r. r\<lparr>r_rd := 0\<rparr>) h) h' \<and>
    pages_at E h' = Some (A - phys_of E (r_rd (realm_of h)), D - phys_of E (r_rd (realm_of h)))"
proof (cases "r_rd (realm_of h) = 0")
  case True
  then have "set_realm (\<lambda>r. r\<lparr>r_rd := 0\<rparr>) h = h" by (simp add: set_realm_def)
  then show ?thesis using True assms(2) by (simp add: destroy_rd_def phys_of_def)
next
  case False
  let ?v = "r_rd (realm_of h)"
  obtain a h1 where d: "rmi_realm_destroy E (rd_phys E h) h = (a, h1)" by fastforce
  have h1: "outside h h1" "warnings h1 = warnings h" "pages_at E h1 = Some (A, D)"
    using life_call_effect(3) [OF assms(1,2) d] by simp_all
  have rd1: "rd_phys E h1 = virt_to_phys E ?v" "r_rd (realm_of h1) = ?v"
    using outside_fields(1) [OF h1(1)] by (simp_all add: rd_phys_def)
  obtain b h2 where u: "rmi_granule_undelegate E (virt_to_phys E ?v) h1 = (b, h2)" by fastforce
  note e = undelegate_effect [OF u]
  have o2: "outside h h2" by (rule outside_trans [OF h1(1) e(1)])
  have "a = 0 \<and> b = 0"
    using assms(3) d u False h1(2) e(2) by (auto simp: destroy_rd_def WARN_ON_def rd1 Let_def split: if_splits)
  then have step: "destroy_rd E h = (True, set_realm (\<lambda>r. r\<lparr>r_rd := 0\<rparr>) (free_page E ?v h2))" and z: "b = 0"
    using d u False rd1 outside_fields(1) [OF o2] by (simp_all add: destroy_rd_def WARN_ON_def)
  have "pages_at E h2 = Some (A, D - {virt_to_phys E ?v})" using e(3) [OF assms(1) h1(3) z] by simp
  then have "pages_at E (free_page E ?v h2) = Some (A - {virt_to_phys E ?v}, D - {virt_to_phys E ?v})"
    using free_effect(3) False by simp
  moreover have "outside (set_realm (\<lambda>r. r\<lparr>r_rd := 0\<rparr>) h) (set_realm (\<lambda>r. r\<lparr>r_rd := 0\<rparr>) (free_page E ?v h2))"
    by (rule outside_set_realm [OF outside_trans [OF o2 free_effect(1)]])
  ultimately show ?thesis using step False by (simp add: phys_of_def)
qed

definition spare_of :: "host_env \<Rightarrow> host \<Rightarrow> u64 set" where
  "spare_of E h = (if spare_page (realm_of h) = PHYS_ADDR_MAX E then {} else {spare_page (realm_of h)})"

lemma destroy_spare_warnings: "warnings h \<le> warnings (destroy_spare E h)"
  using undelegate_effect(2) by (auto simp: destroy_spare_def release_rtt_def free_effect(2) Let_def split: prod.split)

lemma destroy_spare_effect:
  assumes "pages_ok E" "pages_at E h = Some (A, D)" "warnings (destroy_spare E h) = warnings h"
  shows "outside (set_realm (\<lambda>r. r\<lparr>spare_page := PHYS_ADDR_MAX E\<rparr>) h) (destroy_spare E h) \<and>
    pages_at E (destroy_spare E h) = Some (A - spare_of E h, D - spare_of E h)"
proof (cases "spare_page (realm_of h) = PHYS_ADDR_MAX E")
  case True
  then have "set_realm (\<lambda>r. r\<lparr>spare_page := PHYS_ADDR_MAX E\<rparr>) h = h" by (simp add: set_realm_def)
  then show ?thesis using True assms(2) by (simp add: destroy_spare_def spare_of_def)
next
  case False
  let ?p = "spare_page (realm_of h)"
  obtain b h1 where u: "rmi_granule_undelegate E ?p h = (b, h1)" by fastforce
  note e = undelegate_effect [OF u]
  have z: "b = 0"
    using assms(3) u False e(2) by (auto simp: destroy_spare_def release_rtt_def WARN_ON_def split: if_splits)
  note p = undelegated_page [OF assms(1) u [unfolded z] assms(2)]
  have step: "destroy_spare E h = set_realm (\<lambda>r. r\<lparr>spare_page := PHYS_ADDR_MAX E\<rparr>) (free_page E (phys_to_virt E ?p) h1)"
    using u False z by (simp add: destroy_spare_def release_rtt_def WARN_ON_def)
  have "pages_at E h1 = Some (A, D - {?p})" using e(3) [OF assms(1,2) z] by simp
  then have "pages_at E (free_page E (phys_to_virt E ?p) h1) = Some (A - {?p}, D - {?p})"
    using free_effect(3) p(2,3) by simp
  moreover have "outside (set_realm f h) (set_realm f (free_page E (phys_to_virt E ?p) h1))" for f
    by (rule outside_set_realm [OF outside_trans [OF e(1) free_effect(1)]])
  ultimately show ?thesis using step False by (simp add: spare_of_def)
qed

section \<open>The whole destruction\<close>

lemma destroy_realm_effect:
  assumes ok: "pages_ok E" and at: "pages_at E h = Some (A, D)" and pa: "phys_of E (r_params (realm_of h)) \<inter> D = {}"
    and s: "r_state (realm_of h) \<noteq> REALM_STATE_NONE" and w: "warnings (kvm_destroy_realm E vm h) = warnings h"
  shows "realm_of (kvm_destroy_realm E vm h) =
      (realm_of h)\<lparr>r_state := REALM_STATE_DEAD, r_params := 0, r_rd := 0, spare_page := PHYS_ADDR_MAX E\<rparr> \<and>
    rme_vmid_bitmap (kvm_destroy_realm E vm h) = bitmap_release_region E (rme_vmid_bitmap h) (r_vmid (realm_of h)) \<and>
    pages_at E (kvm_destroy_realm E vm h) =
      Some (A - phys_of E (r_params (realm_of h)) - phys_of E (r_rd (realm_of h)) - spare_of E h,
        D - phys_of E (r_rd (realm_of h)) - spare_of E h - tables E (pgd_phys vm) (root_tables E vm)) \<and>
    (\<exists>log. hlog (kvm_destroy_realm E vm h) = Free_stage2_pgd # log)"
proof -
  define h1 where "h1 = (if r_params (realm_of h) \<noteq> 0
      then set_realm (\<lambda>r. r\<lparr>r_params := 0\<rparr>) (free_page E (r_params (realm_of h)) h) else h)"
  have f: "realm_of (free_page E v k) = realm_of k" "rme_vmid_bitmap (free_page E v k) = rme_vmid_bitmap k" for v k
    using outside_fields(1,5) [OF free_effect(1)] by blast+
  have h1: "pages_at E h1 = Some (A - phys_of E (r_params (realm_of h)), D)" "warnings h1 = warnings h"
      "realm_of h1 = (realm_of h)\<lparr>r_params := 0\<rparr>" "rme_vmid_bitmap h1 = rme_vmid_bitmap h"
    using free_phys_effect [OF at pa] at by (auto simp: h1_def f free_effect(2) phys_of_def)
  define h2 where "h2 = set_realm (\<lambda>r. r\<lparr>r_state := REALM_STATE_DYING\<rparr>) h1"
  obtain go h3 where d: "destroy_rd E h2 = (go, h3)" by fastforce
  define h4 where "h4 = destroy_spare E (rme_vmid_release E (r_vmid (realm_of h3)) h3)"
  obtain ok' h5 where p: "destroy_pgds E (pgd_phys vm) (root_tables E vm) 0 h4 = (ok', h5)"
    by fastforce
  have step: "kvm_destroy_realm E vm h = (if \<not> go then h3 else if \<not> ok' then h5
      else emit Free_stage2_pgd (set_realm (\<lambda>r. r\<lparr>r_state := REALM_STATE_DEAD\<rparr>) h5))"
    using d p s h1(3) unfolding root_tables_def by (simp add: kvm_destroy_realm_def Let_def flip: h1_def h2_def h4_def)
  have h2: "pages_at E h2 = pages_at E h1" "warnings h2 = warnings h" using h1 by (simp_all add: h2_def)
  have rel: "pages_at E (rme_vmid_release E v k) = pages_at E k" "warnings (rme_vmid_release E v k) = warnings k"
      "realm_of (rme_vmid_release E v k) = realm_of k" for v k
    by (simp_all add: rme_vmid_release_def pages_at_def warnings_def)
  have mono: "warnings h \<le> warnings h3" "warnings h3 \<le> warnings h4" "warnings h4 \<le> warnings h5"
    using destroy_rd_warnings [of h2 E] d h2(2) destroy_spare_warnings [of "rme_vmid_release E (r_vmid (realm_of h3)) h3" E]
      destroy_pgds_warnings [of h4 E "pgd_phys vm" "root_tables E vm" 0] p by (simp_all add: h4_def rel)
  have "warnings h3 = warnings h" using mono w step by (auto split: if_splits)
  with destroy_rd_effect [OF ok, of h2] h2 h1(1,3) d
  have 3: "go" "outside (set_realm (\<lambda>r. r\<lparr>r_rd := 0\<rparr>) h2) h3"
      "pages_at E h3 = Some (A - phys_of E (r_params (realm_of h)) - phys_of E (r_rd (realm_of h)),
         D - phys_of E (r_rd (realm_of h)))"
    by (auto simp: h2_def)
  have "warnings h4 = warnings h" using mono w step 3(1) \<open>warnings h3 = warnings h\<close> by (auto split: if_splits)
  have r3: "realm_of h3 = (realm_of h)\<lparr>r_params := 0, r_state := REALM_STATE_DYING, r_rd := 0\<rparr>"
      "rme_vmid_bitmap h3 = rme_vmid_bitmap h"
    using outside_fields(1,5) [OF 3(2)] h1(3,4) by (simp_all add: h2_def)
  have sp: "spare_of E (rme_vmid_release E (r_vmid (realm_of h3)) h3) = spare_of E h"
    by (simp add: spare_of_def rel r3)
  have 4: "outside (set_realm (\<lambda>r. r\<lparr>spare_page := PHYS_ADDR_MAX E\<rparr>) (rme_vmid_release E (r_vmid (realm_of h3)) h3)) h4"
      "pages_at E h4 = Some (A - phys_of E (r_params (realm_of h)) - phys_of E (r_rd (realm_of h)) - spare_of E h,
         D - phys_of E (r_rd (realm_of h)) - spare_of E h)"
    using destroy_spare_effect [OF ok, of "rme_vmid_release E (r_vmid (realm_of h3)) h3"] 3(3)
      \<open>warnings h4 = warnings h\<close> \<open>warnings h3 = warnings h\<close> by (simp_all add: rel sp flip: h4_def)
  have r4: "realm_of h4 = (realm_of h)\<lparr>r_params := 0, r_state := REALM_STATE_DYING, r_rd := 0, spare_page := PHYS_ADDR_MAX E\<rparr>"
      "rme_vmid_bitmap h4 = bitmap_release_region E (rme_vmid_bitmap h) (r_vmid (realm_of h))"
    using outside_fields(1,5) [OF 4(1)] r3 by (simp_all add: rel) (simp_all add: rme_vmid_release_def)
  have "warnings (snd (destroy_pgds E (pgd_phys vm) (root_tables E vm) 0 h4)) = warnings h4"
    using mono w step 3(1) p \<open>warnings h4 = warnings h\<close> by (auto split: if_splits)
  from destroy_pgds_effect [OF ok 4(2) this] p
  have 5: "ok'" "outside h4 h5" "pages_at E h5 = Some (A - phys_of E (r_params (realm_of h)) - phys_of E (r_rd (realm_of h)) - spare_of E h,
         D - phys_of E (r_rd (realm_of h)) - spare_of E h - tables E (pgd_phys vm) (root_tables E vm))"
    by (auto simp: tables_from_0)
  have r5: "realm_of h5 = realm_of h4" "rme_vmid_bitmap h5 = rme_vmid_bitmap h4"
    using outside_fields(1,5) [OF 5(2)] by simp_all
  have out: "kvm_destroy_realm E vm h = emit Free_stage2_pgd (set_realm (\<lambda>r. r\<lparr>r_state := REALM_STATE_DEAD\<rparr>) h5)"
    using step 3(1) 5(1) by simp
  have "pages_at E (emit Free_stage2_pgd k) = pages_at E k" for k
    by (cases "page_run E (hlog k)") (auto simp: pages_at_def)
  moreover have "rme_vmid_bitmap (emit e k) = rme_vmid_bitmap k" for e k by (simp add: emit_def)
  ultimately show ?thesis unfolding out using 5(3) r5 r4 by simp
qed

end
