(* ===== verification/Kvm_Correctness.thy ===== *)
theory Kvm_Correctness
  imports Kvm_Example Kvm_Destroy
begin

text \<open>
  The properties of the host's life of a realm: who owns a page, the phases of a realm, and what its
  error paths give back.
\<close>

section \<open>Reachable states\<close>

text \<open>
  C3: With an allocator and a monitor that keep allocated, free and delegated pages apart, and a monitor that takes back
  granules that are not in use and counts the auxiliary pages of a new realm, whatever they answer otherwise: in every state that the host can reach, failed creations included, each page it has
  ever given back to the page allocator was at that moment not delegated to the realm world, and the parameters of the
  realm and the run pages of its RECs are allocated and not delegated.
\<close>

theorem host_never_frees_delegated:
  assumes "pages_ok E" "root_tables_ok E vm" "rmm_rules E" "host_reachable E vm (recs, h)"
  shows "(\<forall>later p earlier. hlog h = later @ Page_free p # earlier \<longrightarrow>
      (\<exists>alloc deleg. page_run E earlier = Some (alloc, deleg) \<and> p \<notin> deleg)) \<and>
    (\<exists>alloc deleg. page_run E (hlog h) = Some (alloc, deleg) \<and> params_of E h \<union> runs E recs \<subseteq> alloc - deleg)"
proof -
  have "holds E (params_of E h \<union> runs E recs) h" using reachable_ok [OF assms(4,1,2,3)] by simp
  then obtain A D where r: "page_run E (hlog h) = Some (A, D)" "params_of E h \<union> runs E recs \<subseteq> A - D"
    unfolding holds_def by blast
  have "\<exists>alloc deleg. page_run E earlier = Some (alloc, deleg) \<and> p \<notin> deleg"
    if "hlog h = later @ Page_free p # earlier" for later p earlier
    using run_monitor_split [OF r(1) [unfolded that]] by (auto split: if_splits)
  then show ?thesis using r by blast
qed

definition demo_script :: "u32 \<Rightarrow> u64 list \<Rightarrow> smccc_res" where
  "demo_script fid args = result 0 2 0"

abbreviation demo_kind :: host_env where
  "demo_kind \<equiv> demo_host_env (\<lambda>p. False) demo_script"

lemma demo_kind_rules: "rmm_rules demo_kind"
  by (rule demo_rules) (simp add: demo_script_def result_def)

theorem host_never_frees_delegated_witness:
  "hlog (kvm_destroy_realm demo_kind demo_vm (snd (kvm_init_realm_vm demo_kind demo_vm demo_host))) =
      [Page_free 0x1000, Page_alloc False (Some 0x1000)] \<and>
    (\<exists>alloc deleg. page_run demo_kind [Page_alloc False (Some 0x1000)] = Some (alloc, deleg) \<and> 0x1000 \<notin> deleg)"
proof -
  let ?h = "kvm_destroy_realm demo_kind demo_vm (snd (kvm_init_realm_vm demo_kind demo_vm demo_host))"
  have log: "hlog ?h = [Page_free 0x1000, Page_alloc False (Some 0x1000)]" by code_simp
  have "host_reachable demo_kind demo_vm ([], demo_host)"
    by (rule host_reachable.start) (simp_all add: demo_host_def demo_realm_def)
  then have "host_reachable demo_kind demo_vm ([], snd (kvm_init_realm_vm demo_kind demo_vm demo_host))"
    by (rule host_reachable.step [OF _ host_step.init_vm [OF _ prod.collapse [symmetric]]])
      (simp add: demo_host_def demo_realm_def)
  then have "host_reachable demo_kind demo_vm ([], ?h)"
    by (rule host_reachable.step [OF _ host_step.destroy])
  from conjunct1 [OF host_never_frees_delegated [OF demo_pages_ok demo_root_tables_ok demo_kind_rules this], rule_format,
      of "[]" "0x1000" "[Page_alloc False (Some 0x1000)]"] log show ?thesis by simp
qed

text \<open>
  C6: With an allocator and a monitor that keep allocated, free and delegated pages apart, and a monitor that takes back
  granules that are not in use and counts the auxiliary pages of a new realm: in every reachable state, also after failed creations, the phase that the monitor's commands have led to is the one that the
  host's state of the realm stands for, and every command was issued in the phase that allows
  it: a realm is created once, only a realm under construction is activated, populated, given
  initial RIPAS or RECs, and RECs are entered only while it runs.
\<close>

theorem host_follows_realm_life:
  assumes "pages_ok E" "root_tables_ok E vm" "rmm_rules E" "host_reachable E vm (recs, h)"
  shows "(\<exists>ph. phase_of E h = Some ph \<and> agrees (r_state (realm_of h)) ph) \<and>
    (\<forall>later fid args res earlier. hlog h = later @ Smc fid args res # earlier \<longrightarrow>
      (\<exists>ph. run_monitor (phase_step E) Not_created earlier = Some ph \<and>
        (fid = SMC_RMI_REALM_CREATE E \<longrightarrow> ph = Not_created) \<and>
        (fid \<in> {SMC_RMI_REALM_ACTIVATE E, SMC_RMI_DATA_CREATE E, SMC_RMI_RTT_INIT_RIPAS E, SMC_RMI_REC_CREATE E} \<longrightarrow>
           ph = Under_construction) \<and>
        (fid = SMC_RMI_REC_ENTER E \<longrightarrow> ph = Running)))"
proof -
  have "follows E h" using reachable_ok [OF assms(4,1,2,3)] by simp
  then obtain ph where p: "phase_of E h = Some ph" "agrees (r_state (realm_of h)) ph" and ok: "smccc_ok E"
    by (auto simp: follows_def in_phase_def)
  have "\<exists>ph. run_monitor (phase_step E) Not_created earlier = Some ph \<and>
        (fid = SMC_RMI_REALM_CREATE E \<longrightarrow> ph = Not_created) \<and>
        (fid \<in> {SMC_RMI_REALM_ACTIVATE E, SMC_RMI_DATA_CREATE E, SMC_RMI_RTT_INIT_RIPAS E, SMC_RMI_REC_CREATE E} \<longrightarrow>
           ph = Under_construction) \<and>
        (fid = SMC_RMI_REC_ENTER E \<longrightarrow> ph = Running)"
    if "hlog h = later @ Smc fid args res # earlier" for later fid args res earlier
    using run_monitor_split [OF p(1) [unfolded that]]
    by (auto simp: Let_def smc_rmi_values [OF ok] split: if_splits)
  then show ?thesis using p by blast
qed

theorem host_follows_realm_life_witness:
  "\<exists>ph. phase_of demo_kind (snd (kvm_init_realm_vm demo_kind demo_vm demo_host)) = Some ph \<and>
     agrees (r_state (realm_of (snd (kvm_init_realm_vm demo_kind demo_vm demo_host)))) ph"
proof -
  have "host_reachable demo_kind demo_vm ([], demo_host)"
    by (rule host_reachable.start) (simp_all add: demo_host_def demo_realm_def)
  then have "host_reachable demo_kind demo_vm ([], snd (kvm_init_realm_vm demo_kind demo_vm demo_host))"
    by (rule host_reachable.step [OF _ host_step.init_vm [OF _ prod.collapse [symmetric]]])
      (simp add: demo_host_def demo_realm_def)
  from host_follows_realm_life [OF demo_pages_ok demo_root_tables_ok demo_kind_rules this] show ?thesis by blast
qed

section \<open>The realm descriptor\<close>

text \<open>
  C36: When the monitor does not take the descriptor back, the error path of its creation gives the
  page to the allocator although it is delegated.
\<close>

theorem create_rd_frees_delegated:
  assumes "pages_ok E" "phys_page p"
    and "page_run E (hlog (undelegate_pgds E (pgd_phys vm) i h)) = Some (alloc, deleg)" "p \<in> deleg"
    and "rmi_granule_undelegate E p (undelegate_pgds E (pgd_phys vm) i h) = (ret, h')" "ret \<noteq> 0"
  shows "page_run E (hlog (out_undelegate_tables E vm (phys_to_virt E p) p i h)) = None"
  using assms undelegate_effect(4) [OF assms(5), of alloc deleg]
  by (auto simp: out_undelegate_tables_def WARN_ON_def free_page_def pages_at_def pages_ok_def)

abbreviation demo_stubborn :: host_env where
  "demo_stubborn \<equiv> demo_host_env (\<lambda>p. p = 0x1000) demo_script"

definition demo_delegated :: host where
  "demo_delegated = demo_host\<lparr>hlog := [Smc 0xC4000151 [0x1000] (result 0 0 0), Page_alloc False (Some 0x1000)]\<rparr>"

theorem create_rd_frees_delegated_witness:
  "page_run demo_stubborn (hlog (out_undelegate_tables demo_stubborn demo_vm (phys_to_virt demo_stubborn 0x1000) 0x1000 0 demo_delegated)) = None"
proof -
  obtain ret h' where u: "rmi_granule_undelegate demo_stubborn 0x1000 demo_delegated = (ret, h')" by fastforce
  then have "ret \<noteq> 0"
    by (auto simp: rmi_granule_undelegate_def arm_smccc_1_1_invoke_def Let_def demo_fields demo_smc_def demo_delegated_def
        smc_rmi_values [OF demo_smccc] result_def)
  with u show ?thesis
    by (intro create_rd_frees_delegated [OF demo_pages_ok, where alloc = "{0x1000}" and deleg = "{0x1000}" and ret = ret and h' = h'])
      (simp_all add: phys_page_def demo_delegated_def result_def smc_rmi_values [OF demo_smccc])
qed

text \<open>
  C37: When the monitor has created the realm but cannot tell the number of auxiliary pages, the descriptor's creation returns
  an uninitialised value, which may be 0 for success, although the page of the descriptor has just been freed and the realm
  still points to it.
\<close>

theorem create_rd_aux_count_error:
  assumes "rmi_realm_create E rd_pa (virt_to_phys E (r_params (realm_of h))) (rd_params_set E vm sz h) = (0, h1)"
    and "rmi_rec_aux_count E rd_pa (set_realm (\<lambda>r. r\<lparr>r_rd := rd, spare_page := PHYS_ADDR_MAX E\<rparr>) h1) = (c, aux, h2)" "c \<noteq> 0"
    and "rd \<noteq> 0"
  shows "\<exists>h'. create_rd_command E vm rd rd_pa sz i h = (uninitialised_r E, h') \<and> r_rd (realm_of h') = rd \<and>
    hd (hlog h') = Page_free (virt_to_phys E rd)"
proof -
  obtain r h' where run: "create_rd_command E vm rd rd_pa sz i h = (r, h')" by fastforce
  have keep: "r_rd (realm_of (out_undelegate_tables E vm rd rd_pa i k)) = r_rd (realm_of k)" for k
    using same_realm_fields(3) [OF frame.tables_out [OF same_realm_refl]] .
  have top: "hd (hlog (out_undelegate_tables E vm rd rd_pa i k)) = Page_free (virt_to_phys E rd)" for k
    using assms(4) by (simp add: out_undelegate_tables_def Let_def free_page_def split_beta)
  have calls: "rmi_rec_aux_count E a k = (c, x, k') \<Longrightarrow> realm_of k' = realm_of k"
    "rmi_realm_destroy E a k = (c, k') \<Longrightarrow> realm_of k' = realm_of k" for a c k k' x
    by (auto simp: rmi_cmd_defs arm_smccc_1_1_invoke_def Let_def)
  from run have "r = uninitialised_r E \<and> r_rd (realm_of h') = rd \<and> hd (hlog h') = Page_free (virt_to_phys E rd)"
  proof (cases rule: create_rd_command_cases)
    case (no_count h3 ra aux' h4 rr h6)
    then show ?thesis using keep top calls(1) [OF no_count(2)] calls(2) [OF no_count(4)] by simp
  qed (use assms(1-3) in auto)
  then show ?thesis using run by blast
qed

definition demo_no_count :: host_env where
  "demo_no_count = demo_host_env (\<lambda>p. False) (\<lambda>fid args. if fid = 0xC4000167 then result 1 0 0 else result 0 2 0)"

theorem create_rd_aux_count_error_witness:
  "\<exists>h'. create_rd_command demo_no_count demo_vm 0xFFF0000000001000 0x1000 2 0 demo_delegated = (0, h') \<and>
    r_rd (realm_of h') = 0xFFF0000000001000 \<and> hd (hlog h') = Page_free 0x1000"
proof -
  obtain h1 where c: "rmi_realm_create demo_no_count 0x1000 (virt_to_phys demo_no_count (r_params (realm_of demo_delegated)))
      (rd_params_set demo_no_count demo_vm 2 demo_delegated) = (0, h1)"
    by (simp add: rmi_cmd_defs arm_smccc_1_1_invoke_def Let_def demo_no_count_def demo_fields demo_smc_def
        smc_rmi_values [OF demo_smccc] result_def)
  obtain aux h2 where n: "rmi_rec_aux_count demo_no_count 0x1000
      (set_realm (\<lambda>r. r\<lparr>r_rd := 0xFFF0000000001000, spare_page := PHYS_ADDR_MAX demo_no_count\<rparr>) h1) = (1, aux, h2)"
    by (simp add: rmi_cmd_defs arm_smccc_1_1_invoke_def Let_def demo_no_count_def demo_fields demo_smc_def
        smc_rmi_values [OF demo_smccc] result_def)
  from create_rd_aux_count_error [OF c n, of 0] show ?thesis by (simp add: demo_no_count_def demo_host_env_def)
qed

text \<open>
  C21: Creating a realm without a warning either succeeds with a VMID that was free, the descriptor on a
  new page, and the descriptor and root tables delegated, or gives back the VMID and every page and leaves the
  state as it was.
\<close>

theorem create_realm_resources:
  assumes "pages_ok E" "bitmap_ok E" "page_run E (hlog h) = Some (alloc, deleg)"
    and "params_of E h \<subseteq> alloc" "params_of E h \<inter> (deleg \<union> tables E (pgd_phys vm) (root_tables E vm)) = {}"
    and "kvm_create_realm E vm h = (r, h')" "warnings h' = warnings h"
  shows "if r = 0 then r_state (realm_of h) = REALM_STATE_NONE \<and> r_state (realm_of h') = REALM_STATE_NEW \<and>
      (let v = unat (r_vmid (realm_of h')) in v < length (rme_vmid_bitmap h) \<and> \<not> rme_vmid_bitmap h ! v \<and>
         rme_vmid_bitmap h' = (rme_vmid_bitmap h)[v := True]) \<and>
      (\<exists>p. p \<notin> alloc \<and> p \<notin> deleg \<and> r_rd (realm_of h') = phys_to_virt E p \<and>
         page_run E (hlog h') = Some (insert p (alloc - params_of E h),
           insert p deleg \<union> tables E (pgd_phys vm) (root_tables E vm)))
    else r_state (realm_of h') = r_state (realm_of h) \<and> rme_vmid_bitmap h' = rme_vmid_bitmap h \<and>
      page_run E (hlog h') = Some (alloc, deleg)"
proof -
  have at: "pages_at E h = Some (alloc, deleg)" using assms(3) by (simp add: pages_at_def)
  note e = create_realm_effect [OF assms(6,1) at assms(7), unfolded params_of_def [symmetric], OF assms(5,4)]
  note v = create_realm_vmid [OF assms(6,2,1) at assms(7)]
  show ?thesis
  proof (cases "r = 0")
    case True
    then show ?thesis using e(2) v(2) unfolding pages_at_def Let_def by auto
  next
    case False
    then show ?thesis using e(1) v(1) by (auto simp: pages_at_def)
  qed
qed

definition demo_create :: host where
  "demo_create = demo_host\<lparr>realm_of := demo_realm\<lparr>r_params := 0xFFF0000000001000\<rparr>,
     hlog := [Page_alloc False (Some 0x1000)]\<rparr>"

lemma demo_roots: "tables demo_kind (pgd_phys demo_vm) (root_tables demo_kind demo_vm) = {0x800000, 0x801000}"
  unfolding demo_root_tables by (simp add: numeral_2_eq_2 tables_Suc demo_fields demo_vm_def insert_commute)

theorem create_realm_resources_witness:
  "let h' = snd (kvm_create_realm demo_kind demo_vm demo_create) in
     \<exists>p. p \<noteq> 0x1000 \<and> r_rd (realm_of h') = phys_to_virt demo_kind p \<and>
       page_run demo_kind (hlog h') = Some ({p}, {p, 0x800000, 0x801000})"
proof -
  let ?c = "kvm_create_realm demo_kind demo_vm demo_create"
  have run: "fst ?c = 0" "warnings (snd ?c) = warnings demo_create" by code_simp+
  have start: "page_run demo_kind (hlog demo_create) = Some ({0x1000}, {})" by (simp add: demo_create_def)
  have params: "params_of demo_kind demo_create = {0x1000}"
    by (simp add: params_of_def phys_of_def demo_create_def demo_fields)
  show ?thesis
    using create_realm_resources [where r = "fst ?c" and h' = "snd ?c", OF demo_pages_ok demo_bitmap_ok start _ _ prod.collapse [symmetric]]
      run params demo_roots by (auto simp: Let_def)
qed

text \<open>
  Destroying a realm without a warning releases its VMID and gives back its parameters, its descriptor and its spare
  page, takes the root tables out of the realm world, and ends with the state \<open>REALM_STATE_DEAD\<close>.
\<close>

theorem destroy_realm_resources:
  assumes "pages_ok E" "bitmap_ok E" "page_run E (hlog h) = Some (alloc, deleg)" "params_of E h \<inter> deleg = {}"
    and "r_state (realm_of h) \<noteq> REALM_STATE_NONE" "warnings (kvm_destroy_realm E vm h) = warnings h"
  shows "let h' = kvm_destroy_realm E vm h; rd = phys_of E (r_rd (realm_of h)) in
    realm_of h' = (realm_of h)\<lparr>r_state := REALM_STATE_DEAD, r_params := 0, r_rd := 0, spare_page := PHYS_ADDR_MAX E\<rparr> \<and>
    rme_vmid_bitmap h' = (rme_vmid_bitmap h)[unat (r_vmid (realm_of h)) := False] \<and>
    page_run E (hlog h') = Some (alloc - params_of E h - rd - spare_of E h,
      deleg - rd - spare_of E h - tables E (pgd_phys vm) (root_tables E vm))"
  using destroy_realm_effect [of E h alloc deleg vm] assms
  by (simp add: Let_def pages_at_def params_of_def bitmap_ok_def)

definition demo_created :: host where
  "demo_created = demo_host\<lparr>realm_of := demo_realm\<lparr>r_state := REALM_STATE_NEW, r_rd := 0xFFF0000000002000,
       r_vmid := 1, spare_page := 0x3000\<rparr>,
     rme_vmid_bitmap := [True, True, False, False],
     hlog := [Smc 0xC4000151 [0x801000] (result 0 0 0), Smc 0xC4000151 [0x800000] (result 0 0 0),
       Smc 0xC4000151 [0x3000] (result 0 0 0), Page_alloc False (Some 0x3000),
       Smc 0xC4000151 [0x2000] (result 0 0 0), Page_alloc False (Some 0x2000)]\<rparr>"

theorem destroy_realm_resources_witness:
  "let h' = kvm_destroy_realm demo_kind demo_vm demo_created in
     r_state (realm_of h') = REALM_STATE_DEAD \<and> rme_vmid_bitmap h' = [True, False, False, False] \<and>
     page_run demo_kind (hlog h') = Some ({}, {})"
proof -
  have start: "page_run demo_kind (hlog demo_created) = Some ({0x2000, 0x3000}, {0x2000, 0x3000, 0x800000, 0x801000})"
    by (simp add: demo_created_def result_def insert_commute smc_rmi_values [OF demo_smccc])
  have run: "warnings (kvm_destroy_realm demo_kind demo_vm demo_created) = warnings demo_created" by code_simp
  have sets: "params_of demo_kind demo_created = {}" "phys_of demo_kind (r_rd (realm_of demo_created)) = {0x2000}"
    "spare_of demo_kind demo_created = {0x3000}" "r_state (realm_of demo_created) \<noteq> REALM_STATE_NONE"
    by (simp_all add: params_of_def phys_of_def spare_of_def demo_created_def demo_fields) (simp add: demo_host_env_def demo_realm_def)+
  have "(rme_vmid_bitmap demo_created)[unat (r_vmid (realm_of demo_created)) := False] = [True, False, False, False]"
    by (simp add: demo_created_def)
  then show ?thesis
    using destroy_realm_resources [OF demo_pages_ok demo_bitmap_ok start _ _ run] sets by (simp add: Let_def demo_roots)
qed

text \<open>
  C11: Creating a realm and destroying it, both without a warning, gives back the VMID and every page: only the
  page of the parameters, which the creation consumes, is gone.
\<close>

theorem realm_create_destroy:
  assumes "pages_ok E" "bitmap_ok E" "page_run E (hlog h) = Some (alloc, deleg)"
    and "params_of E h \<subseteq> alloc" "params_of E h \<inter> (deleg \<union> tables E (pgd_phys vm) (root_tables E vm)) = {}"
    and "kvm_create_realm E vm h = (0, h1)" "warnings h1 = warnings h"
    and "warnings (kvm_destroy_realm E vm h1) = warnings h1"
  shows "page_run E (hlog (kvm_destroy_realm E vm h1)) = Some (alloc - params_of E h, deleg) \<and>
    rme_vmid_bitmap (kvm_destroy_realm E vm h1) = rme_vmid_bitmap h"
proof -
  let ?T = "tables E (pgd_phys vm) (root_tables E vm)"
  have at: "pages_at E h = Some (alloc, deleg)" using assms(3) by (simp add: pages_at_def)
  obtain p where n: "r_state (realm_of h1) = REALM_STATE_NEW" "r_params (realm_of h1) = 0" "spare_page (realm_of h1) = PHYS_ADDR_MAX E"
    and p: "fresh_tables E (pgd_phys vm) (root_tables E vm) (insert p deleg)" "handed_out E p" "p \<notin> alloc" "p \<notin> deleg"
      "r_rd (realm_of h1) = phys_to_virt E p"
    and at1: "pages_at E h1 = Some (insert p (alloc - params_of E h), insert p deleg \<union> ?T)"
    using create_realm_effect(2) [OF assms(6,1) at assms(7), unfolded params_of_def [symmetric], OF assms(5,4)] by auto
  have lin: "phys_to_virt E p \<noteq> 0" "virt_to_phys E (phys_to_virt E p) = p"
    using assms(1) p(2) by (auto simp: pages_ok_def handed_out_def)
  have rd: "phys_of E (r_rd (realm_of h1)) = {p}" using p(5) lin by (simp add: phys_of_def)
  have "?T \<inter> insert p deleg = {}" using p(1) by (auto simp: fresh_tables_def tables_def)
  then have "insert p deleg \<union> ?T - {p} - {} - ?T = deleg" using p(4) by auto
  moreover have "insert p (alloc - params_of E h) - {} - {p} - {} = alloc - params_of E h" using p(3) by auto
  ultimately have "pages_at E (kvm_destroy_realm E vm h1) = Some (alloc - params_of E h, deleg)"
    using destroy_realm_effect [OF assms(1) at1 _ _ assms(8)] n rd by (simp add: phys_of_def spare_of_def)
  moreover have "rme_vmid_bitmap (kvm_destroy_realm E vm h1) = rme_vmid_bitmap h"
    using create_realm_vmid(2) [OF assms(6,2,1) at assms(7)] destroy_realm_effect [OF assms(1) at1 _ _ assms(8)] n assms(2)
    by (simp add: phys_of_def bitmap_ok_def list_update_same_conv)
  ultimately show ?thesis by (simp add: pages_at_def)
qed

theorem realm_create_destroy_witness:
  "page_run demo_kind (hlog (kvm_destroy_realm demo_kind demo_vm (snd (kvm_create_realm demo_kind demo_vm demo_create)))) =
     Some ({}, {})"
proof -
  let ?c = "kvm_create_realm demo_kind demo_vm demo_create"
  have run: "fst ?c = 0" "warnings (snd ?c) = warnings demo_create"
    "warnings (kvm_destroy_realm demo_kind demo_vm (snd ?c)) = warnings (snd ?c)" by code_simp+
  have start: "page_run demo_kind (hlog demo_create) = Some ({0x1000}, {})" by (simp add: demo_create_def)
  have params: "params_of demo_kind demo_create = {0x1000}"
    by (simp add: params_of_def phys_of_def demo_create_def demo_fields)
  have "?c = (0, snd ?c)" using run(1) by (metis prod.collapse)
  from realm_create_destroy [OF demo_pages_ok demo_bitmap_ok start _ _ this run(2,3)] show ?thesis
    by (simp add: params demo_roots)
qed

section \<open>Realm execution contexts\<close>

text \<open>
  C22: When the creation of a REC fails without a warning, every page it has taken, delegated or
  not, is back where it was, and the realm is unchanged.
\<close>

theorem create_rec_failure_restores:
  assumes "pages_ok E" "page_run E (hlog h) = Some (alloc, deleg)" "length (aux_pages rec) = REC_PARAMS_AUX_GRANULES"
    and "kvm_create_rec E vcpu rec h = Some ((r, rec'), h')" "r \<noteq> 0" "warnings h' = warnings h"
  shows "realm_of h' = realm_of h \<and> page_run E (hlog h') = Some (alloc, deleg)"
  using create_rec_effect [OF assms(4,1) _ assms(3,6,5), of alloc deleg] assms(2) by (simp add: pages_at_def)

definition demo_refuses_rec :: host_env where
  "demo_refuses_rec = demo_host_env (\<lambda>p. False) (\<lambda>fid args. if fid = 0xC400015A then result 1 0 0 else result 0 2 0)"

definition demo_vcpu :: vcpu where
  "demo_vcpu = \<lparr>vcpu_regs = replicate 31 0, vcpu_pc = 0x80000, vcpu_mpidr = 0, vcpu_id = 0, has_psci_0_2 = True,
     has_pmu = False, vcpu_is_rec = True\<rparr>"

definition demo_new_rec :: realm_rec where
  "demo_new_rec = \<lparr>rec_mpidr = 0, rec_page = 0, aux_pages = replicate 16 0, rec_run = 0\<rparr>"

definition demo_construction :: host where
  "demo_construction = demo_host\<lparr>realm_of := demo_realm\<lparr>r_state := REALM_STATE_NEW, num_aux := 2\<rparr>\<rparr>"

theorem create_rec_failure_restores_witness:
  "map_option (\<lambda>((r, rec), h). (r, page_run demo_refuses_rec (hlog h))) (kvm_create_rec demo_refuses_rec demo_vcpu demo_new_rec demo_construction) =
     Some (- ENXIO, Some ({}, {}))"
proof -
  have len: "length (aux_pages demo_new_rec) = REC_PARAMS_AUX_GRANULES" by code_simp
  have start: "page_run demo_refuses_rec (hlog demo_construction) = Some ({}, {})"
    by (simp add: demo_refuses_rec_def demo_construction_def demo_host_def)
  have ok: "pages_ok demo_refuses_rec" by (simp add: demo_refuses_rec_def demo_pages_ok)
  have "map_option (\<lambda>((r, rec), h). (r, warnings h)) (kvm_create_rec demo_refuses_rec demo_vcpu demo_new_rec demo_construction) =
      Some (- ENXIO, warnings demo_construction)" by code_simp
  then obtain rec h' where run: "kvm_create_rec demo_refuses_rec demo_vcpu demo_new_rec demo_construction = Some ((- ENXIO, rec), h')"
      "warnings h' = warnings demo_construction" by auto
  then show ?thesis using create_rec_failure_restores [OF ok start len run(1) _ run(2)] by (simp add: ENXIO_def)
qed

lemma alloc_aux_overflow:
  assumes "alloc_rec_aux_loop E k i pages phys h = Some ((0, pages1, phys1, j), h1)"
    and "get_free_page E False h1 = (Some p, h2)" "rmi_granule_delegate E p h2 = (0, h3)" "length pages = i + k" "k < n"
  shows "alloc_rec_aux_loop E n i pages phys h = None"
  using assms
proof (induction k arbitrary: n i pages phys h)
  case 0
  then show ?case by (cases n) auto
next
  case (Suc k)
  then obtain m where n: "n = Suc m" "k < m" by (cases n) auto
  obtain q h4 where g: "get_free_page E False h = (Some q, h4)"
    using Suc.prems(1) by (cases "fst (get_free_page E False h)") (auto simp: ENOMEM_def split: prod.splits)
  obtain h5 where d: "rmi_granule_delegate E q h4 = (0, h5)" "i < length pages" "i < length phys"
    using Suc.prems(1) g by (auto simp: ENXIO_def split: prod.splits if_splits)
  have "alloc_rec_aux_loop E k (Suc i) (pages[i := q]) (phys[i := q]) h5 = Some ((0, pages1, phys1, j), h1)"
    using Suc.prems(1) g d by simp
  from Suc.IH [OF this Suc.prems(2,3) _ n(2)] show ?case using Suc.prems(4) g d n(1) by simp
qed

text \<open>
  C38: The number of auxiliary pages comes from the monitor and is not compared with the length of the arrays: when a
  page more than they hold can be allocated and delegated, the arrays are written out of bounds.
\<close>

theorem rec_aux_out_of_bounds:
  assumes "alloc_rec_aux_loop E (length pages) 0 pages phys h = Some ((0, pages1, phys1, j), h1)"
    and "get_free_page E False h1 = (Some p, h2)" "rmi_granule_delegate E p h2 = (0, h3)" "length pages < unat num"
  shows "alloc_rec_aux E pages phys num h = None"
  using alloc_aux_overflow [OF assms(1-3) _ assms(4)] by (simp add: alloc_rec_aux_def)

theorem rec_aux_out_of_bounds_witness: "alloc_rec_aux demo_kind [0, 0] [0, 0] 3 demo_host = None"
proof -
  have "map_option (\<lambda>((r, rec), h). (r, fst (get_free_page demo_kind False h),
      fst (rmi_granule_delegate demo_kind 0x3000 (snd (get_free_page demo_kind False h)))))
      (alloc_rec_aux_loop demo_kind (length [0::u64, 0]) 0 [0, 0] [0, 0] demo_host) = Some (0, Some 0x3000, 0)" by code_simp
  then obtain pages phys j h1 where a:
    "alloc_rec_aux_loop demo_kind (length [0::u64, 0]) 0 [0, 0] [0, 0] demo_host = Some ((0, pages, phys, j), h1)"
    and p: "fst (get_free_page demo_kind False h1) = Some 0x3000"
      "fst (rmi_granule_delegate demo_kind 0x3000 (snd (get_free_page demo_kind False h1))) = 0" by auto
  obtain h2 where g: "get_free_page demo_kind False h1 = (Some 0x3000, h2)" using p(1) by (metis prod.collapse)
  obtain h3 where d: "rmi_granule_delegate demo_kind 0x3000 h2 = (0, h3)" using p(2) g by (metis prod.collapse snd_conv)
  show ?thesis by (rule rec_aux_out_of_bounds [OF a g d]) simp
qed

section \<open>The configuration of a realm\<close>

text \<open>What the host passes to the monitor is supported according to the monitor's feature register.\<close>

text \<open>The measurement algorithms that the monitor has.\<close>

definition hash_offered :: "host_env \<Rightarrow> host \<Rightarrow> u64 \<Rightarrow> bool" where
  "hash_offered E h a \<longleftrightarrow>
     a = ucast (KVM_CAP_ARM_RME_MEASUREMENT_ALGO_SHA256 E) \<and> rme_supports E h RMI_FEATURE_REGISTER_0_HASH_SHA_256 \<or>
     a = ucast (KVM_CAP_ARM_RME_MEASUREMENT_ALGO_SHA512 E) \<and> rme_supports E h RMI_FEATURE_REGISTER_0_HASH_SHA_512"

definition params_supported :: "host_env \<Rightarrow> host \<Rightarrow> bool" where
  "params_supported E h \<longleftrightarrow> (let p = params_page h in
     num_bps p \<le> ucast (kvm_realm_get_num_brps E h) \<and> num_wps p \<le> ucast (kvm_realm_get_num_wrps E h) \<and>
     sve_vl p \<le> ucast (ucast (u64_get_bits E (rmm_feat_reg0 h) RMI_FEATURE_REGISTER_0_SVE_VL) :: u32) \<and>
     pmu_num_ctrs p \<le> ucast (ucast (u64_get_bits E (rmm_feat_reg0 h) RMI_FEATURE_REGISTER_0_PMU_NUM_CTRS) :: u32) \<and>
     (p_flags p AND RMI_REALM_PARAM_FLAG_SVE \<noteq> 0 \<longrightarrow> kvm_rme_supports_sve E h) \<and>
     (p_flags p AND RMI_REALM_PARAM_FLAG_PMU \<noteq> 0 \<longrightarrow> rme_supports E h RMI_FEATURE_REGISTER_0_PMU_EN) \<and>
     (pmu_enabled (realm_of h) \<longrightarrow> p_flags p AND RMI_REALM_PARAM_FLAG_PMU \<noteq> 0))"

lemma flag_or:
  "(x OR RMI_REALM_PARAM_FLAG_SVE) AND RMI_REALM_PARAM_FLAG_PMU = x AND RMI_REALM_PARAM_FLAG_PMU"
  "(x OR RMI_REALM_PARAM_FLAG_PMU) AND RMI_REALM_PARAM_FLAG_SVE = x AND RMI_REALM_PARAM_FLAG_SVE"
  "RMI_REALM_PARAM_FLAG_PMU \<noteq> 0"
proof -
  show "RMI_REALM_PARAM_FLAG_PMU \<noteq> 0" by (simp add: RMI_REALM_PARAM_FLAG_PMU_def)
  show "(x OR RMI_REALM_PARAM_FLAG_SVE) AND RMI_REALM_PARAM_FLAG_PMU = x AND RMI_REALM_PARAM_FLAG_PMU"
    "(x OR RMI_REALM_PARAM_FLAG_PMU) AND RMI_REALM_PARAM_FLAG_SVE = x AND RMI_REALM_PARAM_FLAG_SVE"
    by (simp_all add: RMI_REALM_PARAM_FLAG_SVE_def RMI_REALM_PARAM_FLAG_PMU_def bit.conj_disj_distrib2)
qed

lemma ucast_le_mono: "(a :: u32) \<le> b \<Longrightarrow> (ucast a :: u64) \<le> ucast b"
proof -
  assume "a \<le> b"
  then have "unat a \<le> unat b" by (simp add: word_le_nat_alt)
  moreover have "unat (ucast c :: u64) = unat c" for c :: u32
  proof -
    have "unat c < 2 ^ 64" using unsigned_less [of c, where ?'a = nat] by simp
    then have "take_bit 64 (unat c) = unat c" by (simp add: take_bit_eq_mod)
    then show ?thesis by (simp add: unsigned_ucast_eq)
  qed
  ultimately show ?thesis by (simp add: word_le_nat_alt)
qed

lemma config_item_supported:
  assumes "params_supported E h" "kvm_rme_config_realm E user h = (r, h')"
  shows "params_supported E h' \<and> rmm_feat_reg0 h' = rmm_feat_reg0 h \<and> (r \<noteq> 0 \<longrightarrow> h' = h)"
  using assms
  by (auto simp: kvm_rme_config_realm_def config_defs Let_def set_params_def set_realm_def params_supported_def flag_or
      kvm_realm_get_num_brps_def kvm_realm_get_num_wrps_def kvm_rme_supports_sve_def rme_supports_def ucast_le_mono not_less
      EINVAL_def EFAULT_def split: option.splits if_splits)

lemma config_item_hash:
  assumes "kvm_rme_config_realm E user h = (r, h')"
  shows "hash_algo (params_page h') = hash_algo (params_page h) \<or> hash_offered E h (hash_algo (params_page h'))"
  using assms
  by (auto simp: kvm_rme_config_realm_def config_defs Let_def set_params_def set_realm_def hash_offered_def
      split: option.splits if_splits)

text \<open>
  C32: Whatever user space configures, in any order and with any values, the numbers of break points, watch points and
  counters and the vector length stay within what the monitor's feature register offers, a feature is
  requested only if the monitor has it, the measurement algorithm is the one of before or one that the monitor has, and
  an item that is rejected changes nothing.
\<close>

theorem config_within_features:
  assumes "params_supported E h" "h' = foldl (\<lambda>h item. snd (kvm_rme_config_realm E item h)) h items"
  shows "params_supported E h' \<and>
    (hash_algo (params_page h') = hash_algo (params_page h) \<or> hash_offered E h (hash_algo (params_page h'))) \<and>
    (fst (kvm_rme_config_realm E item h) \<noteq> 0 \<longrightarrow> snd (kvm_rme_config_realm E item h) = h)"
proof (intro conjI)
  have "params_supported E h' \<and>
      (hash_algo (params_page h') = hash_algo (params_page h) \<or> hash_offered E h (hash_algo (params_page h')))"
    using assms
  proof (induction items arbitrary: h)
    case (Cons item items)
    let ?h1 = "snd (kvm_rme_config_realm E item h)"
    note s = config_item_supported [OF Cons.prems(1) prod.collapse [symmetric], of item]
    have "hash_offered E ?h1 = hash_offered E h" using s by (simp add: hash_offered_def rme_supports_def fun_eq_iff)
    then show ?case
      using Cons.IH [of ?h1] Cons.prems(2) s config_item_hash [OF prod.collapse [symmetric], of E item h] by auto
  qed simp
  then show "params_supported E h'"
    "hash_algo (params_page h') = hash_algo (params_page h) \<or> hash_offered E h (hash_algo (params_page h'))" by simp_all
  show "fst (kvm_rme_config_realm E item h) \<noteq> 0 \<longrightarrow> snd (kvm_rme_config_realm E item h) = h"
    using config_item_supported [OF assms(1) prod.collapse [symmetric]] by blast
qed

theorem config_within_features_witness:
  "params_supported demo_kind demo_host \<and>
   params_supported demo_kind (foldl (\<lambda>h item. snd (kvm_rme_config_realm demo_kind item h)) demo_host
     [Some \<lparr>cfg = 3, cfg_rpv = [], cfg_hash_algo = 0, cfg_sve_vq = 0, cfg_num_brps = 2, cfg_num_wrps = 99, cfg_num_pmu_cntrs = 0\<rparr>])"
proof -
  have "params_supported demo_kind demo_host"
    by (simp add: params_supported_def demo_host_def demo_params_def demo_realm_def)
  then show ?thesis using config_within_features [OF _ refl] by blast
qed

end
