(* ===== verification/Kvm_Ranges_Correctness.thy ===== *)
theory Kvm_Ranges_Correctness
  imports Kvm_Example
begin

text \<open>
  The properties of the host's operations on ranges of addresses: the level of a range, the initial RIPAS
  and the initial content of a realm under construction, and the return of what a failed mapping has taken.
\<close>

section \<open>What the log remembers\<close>

text \<open>The operations on a realm under construction forget no event and keep the descriptor.\<close>

abbreviation recorded :: "hevent \<Rightarrow> u64 \<Rightarrow> host \<Rightarrow> bool" where
  "recorded e rd h \<equiv> e \<in> set (hlog h) \<and> r_rd (realm_of h) = rd"

interpretation kept_event: new_log_invariant E "recorded e rd"
  by unfold_locales (auto simp: emit_def set_realm_def)

abbreviation descriptor :: "u64 \<Rightarrow> host \<Rightarrow> bool" where
  "descriptor rd h \<equiv> r_rd (realm_of h) = rd"

interpretation kept_rd: new_log_invariant E "descriptor rd"
  by unfold_locales (auto simp: emit_def set_realm_def)

section \<open>The level of a range\<close>

text \<open>A block of the level starts at the address and ends before the limit.\<close>

definition block_fits :: "host_env \<Rightarrow> u64 \<Rightarrow> u64 \<Rightarrow> int \<Rightarrow> host \<Rightarrow> bool" where
  "block_fits E start end_addr level h \<longleftrightarrow> (let map_size = fst (rme_rtt_level_mapsize level h)
     in IS_ALIGNED E start map_size \<and> start + map_size \<le> end_addr)"

lemma block_fits_any: "level \<le> RME_RTT_MAX_LEVEL \<Longrightarrow> block_fits E s e level h = block_fits E s e level h'"
  by (simp add: block_fits_def rme_rtt_level_mapsize_def)

lemma find_level_loop_correct:
  assumes "find_map_level_loop E l0 start end_addr level h = (l, h')" "l0 \<le> level" "level \<le> RME_RTT_MAX_LEVEL"
    and "\<forall>k. level \<le> k \<and> k < RME_RTT_MAX_LEVEL \<longrightarrow> block_fits E start end_addr k g"
  shows "h' = h \<and> l0 \<le> l \<and> l \<le> level \<and> (\<forall>k. l \<le> k \<and> k < RME_RTT_MAX_LEVEL \<longrightarrow> block_fits E start end_addr k g) \<and>
    (l0 < l \<longrightarrow> \<not> block_fits E start end_addr (l - 1) g)"
  using assms
proof (induction "nat (level - l0)" arbitrary: level h rule: less_induct)
  case less
  have m: "rme_rtt_level_mapsize (level - 1) h = (fst (rme_rtt_level_mapsize (level - 1) h), h)"
    using less.prems(3) by (simp add: rme_rtt_level_mapsize_def)
  have fits: "block_fits E start end_addr (level - 1) g \<longleftrightarrow>
      (let map_size = fst (rme_rtt_level_mapsize (level - 1) h) in IS_ALIGNED E start map_size \<and> start + map_size \<le> end_addr)"
    using less.prems(3) by (simp add: block_fits_def rme_rtt_level_mapsize_def)
  have step: "find_map_level_loop E l0 start end_addr level h =
      (if level > l0 \<and> block_fits E start end_addr (level - 1) g
       then find_map_level_loop E l0 start end_addr (level - 1) h else (level, h))"
    unfolding fits by (subst find_map_level_loop.simps, subst m) (auto simp: Let_def not_le)
  show ?case
  proof (cases "level > l0 \<and> block_fits E start end_addr (level - 1) g")
    case True
    have "\<forall>k. level - 1 \<le> k \<and> k < RME_RTT_MAX_LEVEL \<longrightarrow> block_fits E start end_addr k g"
    proof (intro allI impI)
      fix k assume "level - 1 \<le> k \<and> k < RME_RTT_MAX_LEVEL"
      then show "block_fits E start end_addr k g" using True less.prems(4) by (cases "k = level - 1") auto
    qed
    then show ?thesis using less.hyps [of "level - 1" h] less.prems True step by auto
  next
    case False
    then have r: "l = level" "h' = h" using less.prems(1) step by auto
    show ?thesis unfolding r using False less.prems(2,4) by auto
  qed
qed

text \<open>
  C31: The level found for a range is the smallest one, not above the root, of which a block starts at the
  range's start and ends inside the range, and blocks of every level below it fit too.
\<close>

theorem find_map_level_correct:
  assumes "get_start_level E (realm_of h) \<le> RME_RTT_MAX_LEVEL" "find_map_level E start end_addr h = (l, h')"
  shows "h' = h \<and> get_start_level E (realm_of h) \<le> l \<and> l \<le> RME_RTT_MAX_LEVEL \<and>
    (\<forall>k. l \<le> k \<and> k < RME_RTT_MAX_LEVEL \<longrightarrow> block_fits E start end_addr k h) \<and>
    (get_start_level E (realm_of h) < l \<longrightarrow> \<not> block_fits E start end_addr (l - 1) h)"
  by (rule find_level_loop_correct [OF assms(2) [unfolded find_map_level_def] assms(1) order_refl]) auto

abbreviation demo_kernel :: host_env where
  "demo_kernel \<equiv> demo_host_env (\<lambda>p. False) (\<lambda>fid args. if fid = 0xC4000154 then result 1 0 0
     else if fid = 0xC4000168 then result 0 (args ! 2) 0 else result 0 0 0)"

definition demo_new :: host where
  "demo_new = demo_host\<lparr>realm_of := demo_realm\<lparr>r_state := REALM_STATE_NEW, r_rd := 0xFFF0000000001000\<rparr>\<rparr>"

theorem find_map_level_correct_witness:
  "block_fits demo_kernel 0x200000 0x400000 2 demo_new \<and> \<not> block_fits demo_kernel 0x200000 0x400000 1 demo_new"
proof -
  have l: "get_start_level demo_kernel (realm_of demo_new) = 0" "RME_RTT_MAX_LEVEL = 3" by code_simp+
  have m: "rme_rtt_level_mapsize 2 demo_new = (0x200000, demo_new)" "rme_rtt_level_mapsize 1 demo_new = (0x40000000, demo_new)"
    by (simp_all add: rme_rtt_level_mapsize_def RME_RTT_LEVEL_SHIFT_def RME_PAGE_SHIFT_def l(2))
  have a: "IS_ALIGNED demo_kernel 0x200000 0x200000" "\<not> IS_ALIGNED demo_kernel 0x200000 0x40000000"
    by (simp_all add: demo_host_env_def)
  have f: "find_map_level demo_kernel 0x200000 0x400000 demo_new = (2, demo_new)"
    using m a by (simp add: find_map_level_def l find_map_level_loop.simps [of _ _ _ _ 3] find_map_level_loop.simps [of _ _ _ _ 2])
  show ?thesis using find_map_level_correct [OF _ f] l by simp
qed

section \<open>The initial RIPAS\<close>

text \<open>The address lies in a range that the monitor has reported as initialised for the realm.\<close>

definition ripas_initialised :: "host_env \<Rightarrow> u64 \<Rightarrow> u64 \<Rightarrow> u64 \<Rightarrow> host \<Rightarrow> bool" where
  "ripas_initialised E rd end_addr a h \<longleftrightarrow> (\<exists>b res. Smc (SMC_RMI_RTT_INIT_RIPAS E) [virt_to_phys E rd, b, end_addr] res \<in> set (hlog h) \<and>
     c_int (res_a0 res) = 0 \<and> b \<le> a \<and> a < res_a1 res)"

lemma init_ipa_covers:
  assumes "realm_init_ipa_state E end_addr fuel ipa h = Returned 0 h'" "descriptor rd h" "ipa \<le> a" "a < end_addr"
  shows "ripas_initialised E rd end_addr a h'"
  using assms
proof (induction fuel arbitrary: ipa h)
  case (Suc fuel)
  obtain ret nxt h1 where c: "rmi_rtt_init_ripas E (rd_phys E h) ipa end_addr h = (ret, nxt, h1)" using prod_cases3 by blast
  have lt: "ipa < end_addr" using Suc.prems(3,4) by simp
  have rd1: "descriptor rd h1" using kept_rd.new_commands(2) [OF Suc.prems(2), of E "rd_phys E h" ipa end_addr] c by simp
  show ?case
  proof (cases "RMI_RETURN_STATUS ret = RMI_ERROR_RTT_host")
    case True
    obtain l h2 where f: "find_map_level E ipa end_addr h1 = (l, h2)" by fastforce
    have rd2: "descriptor rd h2" using kept_rd.find_level [OF rd1, of E ipa end_addr] f by simp
    obtain r h3 where k: "realm_create_rtt_levels E ipa (RMI_RETURN_INDEX ret) l False h2 = (r, h3)" by fastforce
    have rd3: "descriptor rd h3"
      using kept_rd.create_levels [OF rd2, of E ipa "RMI_RETURN_INDEX ret" l False] k by simp
    have "realm_init_ipa_state E end_addr fuel ipa h3 = Returned 0 h'"
      using Suc.prems(1) lt c True f k by (auto simp: Let_def WARN_ON_def ENXIO_def split: if_splits)
    then show ?thesis using Suc.IH rd3 Suc.prems(3,4) by blast
  next
    case False
    then have z: "ret = 0" and next_run: "realm_init_ipa_state E end_addr fuel nxt h1 = Returned 0 h'"
      using Suc.prems(1) lt c by (auto simp: Let_def WARN_ON_def ENXIO_def split: if_splits)
    show ?thesis
    proof (cases "nxt \<le> a")
      case True
      then show ?thesis using Suc.IH [OF next_run rd1] Suc.prems(4) by blast
    next
      case below: False
      obtain res where res: "Smc (SMC_RMI_RTT_INIT_RIPAS E) [virt_to_phys E rd, ipa, end_addr] res \<in> set (hlog h1)"
          "c_int (res_a0 res) = 0" "res_a1 res = nxt"
        using c z Suc.prems(2) by (intro that) (auto simp: rmi_rtt_init_ripas_def arm_smccc_1_1_invoke_def Let_def rd_phys_def emit_def)
      have "recorded (Smc (SMC_RMI_RTT_INIT_RIPAS E) [virt_to_phys E rd, ipa, end_addr] res) rd h'"
        using kept_event.init_ipa [OF conjI [OF res(1) rd1], of E end_addr fuel nxt] next_run by simp
      then show ?thesis using res(2,3) below Suc.prems(3) by (auto simp: ripas_initialised_def not_le intro: exI [of _ ipa])
    qed
  qed
qed simp

text \<open>
  C26: When the initial RIPAS of a range is set with success, every address of the range lies in a range that the monitor
  has reported as initialised for this realm, whatever the lengths of the steps that the monitor takes.
\<close>

theorem init_ipa_range_covers:
  assumes "kvm_init_ipa_range_realm E fuel base sz h = Returned 0 h'" "a - base < sz"
  shows "ripas_initialised E (r_rd (realm_of h)) (base + sz) a h'"
proof -
  have no_wrap: "\<not> base + sz < base" and run: "realm_init_ipa_state E (base + sz) fuel base h = Returned 0 h'"
    using assms(1) by (auto simp: kvm_init_ipa_range_realm_def Let_def EINVAL_def split: if_splits)
  have "base \<le> a \<and> a < base + sz"
    using assms(2) no_wrap unsigned_less [of sz, where ?'a = nat] unsigned_less [of a, where ?'a = nat]
    by (simp add: not_less word_le_nat_alt word_less_nat_alt unat_sub_if' unat_plus_if' split: if_splits)
  then show ?thesis using init_ipa_covers [OF run] by simp
qed

theorem init_ipa_range_covers_witness:
  "\<exists>h'. kvm_init_ipa_range_realm demo_kernel 5 0x2000 0x1000 demo_new = Returned 0 h' \<and>
     ripas_initialised demo_kernel 0xFFF0000000001000 0x3000 0x2345 h'"
proof -
  have "(case kvm_init_ipa_range_realm demo_kernel 5 0x2000 0x1000 demo_new of Returned r h \<Rightarrow> r = 0 | Out_of_fuel h \<Rightarrow> False)"
    by code_simp
  then obtain h' where run: "kvm_init_ipa_range_realm demo_kernel 5 0x2000 0x1000 demo_new = Returned 0 h'"
    by (auto split: outcome.splits)
  then show ?thesis using init_ipa_range_covers [OF run, of "0x2345"] by (simp add: demo_new_def)
qed

section \<open>The initial content\<close>

text \<open>The kernel runs with 4K pages, which \<open>kvm_init_rme\<close> checks, and the documented alignment macros.\<close>

definition pages_4k :: "host_env \<Rightarrow> bool" where
  "pages_4k E \<longleftrightarrow> PAGE_SIZE E = 0x1000 \<and> PAGE_SHIFT E = 12 \<and> align_ok E"

lemma pages_4kD:
  assumes "pages_4k E"
  shows "push_bit (PAGE_SHIFT E) 1 = (0x1000 :: u64)" "PAGE_SIZE E = 0x1000" "pages_of E 0x1000 = 1"
    "x AND 0xFFF = 0 \<Longrightarrow> ALIGN_DOWN E x 0x1000 = x" "IS_ALIGNED E x 0x1000 \<longleftrightarrow> x AND 0xFFF = 0"
proof -
  have "(12 :: nat) < 64" by simp
  with assms have a: "ALIGN_DOWN E x (push_bit 12 1) = x AND NOT (push_bit 12 1 - 1)"
    "IS_ALIGNED E x (push_bit 12 1) \<longleftrightarrow> x AND (push_bit 12 1 - 1) = 0" for x
    unfolding pages_4k_def align_ok_def by blast+
  show "push_bit (PAGE_SHIFT E) 1 = (0x1000 :: u64)" "PAGE_SIZE E = 0x1000" "pages_of E 0x1000 = 1"
    using assms by (simp_all add: pages_4k_def pages_of_def)
  show "IS_ALIGNED E x 0x1000 \<longleftrightarrow> x AND 0xFFF = 0" using a(2) [of x] by simp
  show "ALIGN_DOWN E x 0x1000 = x" if "x AND 0xFFF = 0"
  proof -
    have "x = (x AND NOT 0xFFF) OR (x AND 0xFFF)" by (simp flip: bit.conj_disj_distrib)
    then show ?thesis using a(1) [of x] that by simp
  qed
qed

lemma page_aligned: "x AND 0xFFF = (0 :: u64) \<longleftrightarrow> unat x mod 0x1000 = 0"
proof -
  have "x AND 0xFFF = take_bit 12 x" by (simp add: take_bit_eq_mask mask_numeral)
  moreover have "unat (take_bit 12 x) = unat x mod 0x1000"
    by (simp add: unsigned_take_bit_eq) (simp add: take_bit_eq_mod)
  ultimately show ?thesis by (metis unat_0 unsigned_eq_0_iff)
qed

lemma next_page_aligned:
  assumes "x AND 0xFFF = (0 :: u64)"
  shows "(x + 0x1000) AND 0xFFF = 0"
proof -
  have "unat (x + 0x1000) mod 0x1000 = ((unat x + 0x1000) mod 2 ^ 64) mod 0x1000" by (simp add: unat_word_ariths)
  also have "\<dots> = (unat x + 0x1000) mod 0x1000" by (intro mod_mod_cancel) (simp add: dvd_def exI [of _ "2 ^ 52"])
  finally show ?thesis using assms by (simp add: page_aligned)
qed

text \<open>The monitor has created a page with content at the address.\<close>

definition data_created :: "host_env \<Rightarrow> u64 \<Rightarrow> u64 \<Rightarrow> host \<Rightarrow> bool" where
  "data_created E rd a h \<longleftrightarrow> (\<exists>dst src flags res. Smc (SMC_RMI_DATA_CREATE E) [virt_to_phys E rd, dst, a, src, flags] res \<in> set (hlog h) \<and>
     c_int (res_a0 res) = 0)"

lemma data_created_emit: "data_created E rd a h \<Longrightarrow> data_created E rd a (emit e h)"
  by (auto simp: data_created_def emit_def)

lemma data_create_success:
  assumes "rmi_data_create E (rd_phys E h) dst a src flags h = (0, h')" "descriptor rd h"
  shows "data_created E rd a h'"
  unfolding data_created_def using assms
  by (intro exI [of _ dst] exI [of _ src] exI [of _ flags]
      exI [of _ "answer_smc E (hlog h) (SMC_RMI_DATA_CREATE E) [virt_to_phys E rd, dst, a, src, flags]"])
    (auto simp: rmi_data_create_def arm_smccc_1_1_invoke_def Let_def rd_phys_def emit_def)

lemma create_page_success:
  assumes "realm_create_protected_data_page E a dst src flags h = (0, h')" "descriptor rd h"
  shows "data_created E rd a h'"
proof -
  let ?h0 = "emit (Copy_page src dst) h"
  obtain d h1 where d: "rmi_granule_delegate E dst ?h0 = (d, h1)" by fastforce
  have rd1: "descriptor rd h1" using kept_rd.granule_delegated [of ?h0 rd E dst] d assms(2) by simp
  obtain r h2 where c: "data_create_retry E dst a src flags h1 = (r, h2)" by fastforce
  have r: "r = 0" "h' = h2" using assms(1) d c by (auto simp: realm_create_protected_data_page_def ENXIO_def Let_def split: if_splits)
  obtain e h3 where e: "rmi_data_create E (rd_phys E h1) dst a src flags h1 = (e, h3)" by fastforce
  have rd3: "descriptor rd h3" using kept_rd.new_commands(1) [OF rd1, of E "rd_phys E h1" dst a src flags] e by simp
  obtain l h4 where l: "realm_create_rtt_levels E a (RMI_RETURN_INDEX e) RME_RTT_MAX_LEVEL False h3 = (l, h4)" by fastforce
  have rd4: "descriptor rd h4"
    using kept_rd.create_levels [OF rd3, of E a "RMI_RETURN_INDEX e" RME_RTT_MAX_LEVEL False] l by simp
  show ?thesis
    using c r e l data_create_success [OF _ rd1, of E dst a src flags] data_create_success [OF _ rd4, of E dst a src flags]
    by (auto simp: data_create_retry_def Let_def split: if_splits)
qed

lemma populate_step_success:
  assumes "populate_step E slot tmp flags ipa h = ((0, nxt), h')" "pages_4k E" "ipa AND 0xFFF = 0" "descriptor rd h"
  shows "nxt = ipa + 0x1000 \<and> data_created E rd ipa h'"
proof -
  note p = pages_4kD [OF assms(2)]
  have levels: "RME_L2_BLOCK_SIZE \<noteq> 0x1000" "\<not> 3 < RME_RTT_MAX_LEVEL" by code_simp+
  have "\<exists>dst h1. realm_create_protected_data_page E ipa dst tmp flags h = (0, h1) \<and> nxt = ipa + 0x1000 \<and>
      h' = emit (Release_pfn dst True) h1"
    using assms(1) p(4) [OF assms(3)] p(1-3) levels
    by (auto simp: populate_step_def Let_def EFAULT_def numeral_eq_Suc split: option.splits if_splits prod.splits)
  then show ?thesis using create_page_success [OF _ assms(4)] by (auto simp: data_created_def emit_def)
qed

lemma descriptor_step: "descriptor rd h \<Longrightarrow> descriptor rd (snd (populate_step E slot tmp flags ipa h))"
  by (rule kept_rd.populate_one)

text \<open>A failing step ends the loop, so one unit of fuel is needed for each page.\<close>

lemma populate_loop_returns:
  assumes "pages_4k E" "ipa AND 0xFFF = 0" "unat ipa + n * 0x1000 < 2 ^ 64" "n < fuel" "descriptor rd h"
    and "end_addr = ipa + of_nat n * 0x1000"
  shows "\<exists>r h'. populate_loop E slot tmp flags end_addr fuel ipa h = Returned r h' \<and>
    (r = 0 \<longrightarrow> (\<forall>k < n. data_created E rd (ipa + of_nat k * 0x1000) h'))"
  using assms(2-)
proof (induction n arbitrary: fuel ipa h)
  case 0
  then show ?case by (cases fuel) auto
next
  case (Suc n)
  then obtain m where m: "fuel = Suc m" "n < m" by (cases fuel) auto
  have u: "unat (of_nat (Suc n) * 0x1000 :: u64) = Suc n * 0x1000"
  proof -
    have "(of_nat (Suc n) * 0x1000 :: u64) = of_nat (Suc n * 0x1000)" by simp
    then show ?thesis using Suc.prems(2) by (simp only: unat_of_nat) simp
  qed
  have lt: "ipa < end_addr"
    using Suc.prems(2,5) u by (simp add: word_less_nat_alt unat_plus_if')
  obtain r nxt h1 where st: "populate_step E slot tmp flags ipa h = ((r, nxt), h1)" using prod.collapse by metis
  have rd1: "descriptor rd h1" using descriptor_step [OF Suc.prems(4)] st by (metis snd_conv)
  show ?case
  proof (cases "r = 0")
    case False
    then show ?thesis using m st lt by simp
  next
    case True
    have ok: "nxt = ipa + 0x1000" "data_created E rd ipa h1"
      using populate_step_success [OF st [unfolded True] assms(1) Suc.prems(1,4)] by auto
    have "unat (ipa + 0x1000) = unat ipa + 0x1000"
      using Suc.prems(2) by (simp add: unat_plus_if')
    then obtain r' h' where rest: "populate_loop E slot tmp flags end_addr m nxt h1 = Returned r' h'"
        "r' = 0 \<longrightarrow> (\<forall>k < n. data_created E rd (nxt + of_nat k * 0x1000) h')"
      using Suc.IH [OF next_page_aligned [OF Suc.prems(1)] _ m(2) rd1] Suc.prems(2,5) ok(1) by (auto simp: algebra_simps)
    have "data_created E rd ipa h'"
    proof -
      obtain dst src fl res where e: "Smc (SMC_RMI_DATA_CREATE E) [virt_to_phys E rd, dst, ipa, src, fl] res \<in> set (hlog h1)"
          "c_int (res_a0 res) = 0" using ok(2) by (auto simp: data_created_def)
      show ?thesis
        using kept_event.populate_range [OF conjI [OF e(1) rd1], of E slot tmp flags end_addr m nxt] rest(1) e(2)
        unfolding data_created_def by auto
    qed
    then have "r' = 0 \<longrightarrow> (\<forall>k < Suc n. data_created E rd (ipa + of_nat k * 0x1000) h')"
      using rest(2) ok(1) by (auto simp: less_Suc_eq_0_disj algebra_simps)
    then show ?thesis using m st lt True rest(1) by simp
  qed
qed

text \<open>
  C16: Populating a region always returns when the fuel exceeds its number of pages, whatever the monitor and the allocator answer,
  and a success means that the monitor has created a page with content at every page of the region.
\<close>

theorem populate_realm_returns:
  assumes "pages_4k E" "unat sz div 0x1000 < fuel"
  shows "\<exists>r h'. kvm_populate_realm E fuel base sz flags h = Returned r h' \<and>
    (r = 0 \<longrightarrow> (\<forall>k < unat sz div 0x1000. data_created E (r_rd (realm_of h)) (base + of_nat k * 0x1000) h'))"
proof (cases "r_state (realm_of h) \<noteq> REALM_STATE_NEW \<or> base AND 0xFFF \<noteq> 0 \<or> sz AND 0xFFF \<noteq> 0 \<or>
    flags AND NOT (ucast RMI_MEASURE_CONTENT_host) \<noteq> 0 \<or> base + sz < base")
  case True
  then show ?thesis using pages_4kD [OF assms(1)] by (auto simp: kvm_populate_realm_def Let_def EINVAL_def)
next
  case False
  let ?n = "unat sz div 0x1000"
  have start: "kvm_populate_realm E fuel base sz flags h = populate_par_region E fuel base (base + sz) flags h"
    using False pages_4kD [OF assms(1)] by (simp add: kvm_populate_realm_def Let_def)
  have n: "?n * 0x1000 = unat sz" using False page_aligned [of sz] by auto
  have sz: "sz = of_nat ?n * 0x1000"
  proof -
    have "of_nat ?n * 0x1000 = (of_nat (?n * 0x1000) :: u64)" by simp
    then show ?thesis unfolding n by simp
  qed
  have fits: "unat base + ?n * 0x1000 < 2 ^ 64"
    using False n unsigned_less [of sz, where ?'a = nat] unsigned_less [of base, where ?'a = nat]
    by (auto simp: not_less word_le_nat_alt unat_plus_if' split: if_splits)
  obtain page h1 where g: "get_free_page E False h = (page, h1)" by fastforce
  have rd1: "descriptor (r_rd (realm_of h)) h1" using kept_rd.get_page [of h "r_rd (realm_of h)" E False] g by simp
  have "\<exists>r h'. populate_loop E slot tmp fl (base + sz) fuel base h1 = Returned r h' \<and>
      (r = 0 \<longrightarrow> (\<forall>k < ?n. data_created E (r_rd (realm_of h)) (base + of_nat k * 0x1000) h'))" for slot tmp fl
    by (rule populate_loop_returns [OF assms(1) _ fits assms(2) rd1]) (use False sz in simp_all)
  then have loop: "\<exists>r h'. then_run (populate_loop E slot tmp fl (base + sz) fuel base h1) (\<lambda>ret h. Returned ret (emit (Page_free tmp) h)) =
      Returned r h' \<and> (r = 0 \<longrightarrow> (\<forall>k < ?n. data_created E (r_rd (realm_of h)) (base + of_nat k * 0x1000) h'))" for slot tmp fl
    by (metis data_created_emit then_run_simps(2))
  show ?thesis unfolding start populate_par_region_def Let_def g
    using loop by (auto simp: EFAULT_def EINVAL_def ENOMEM_def split: option.split)
qed

lemma demo_pages_4k: "pages_4k (demo_host_env refuse script)"
  by (simp add: pages_4k_def align_ok_def demo_host_env_def)

theorem populate_realm_returns_witness:
  "\<exists>h'. kvm_populate_realm demo_kernel 3 0x4000 0x2000 0 demo_new = Returned 0 h' \<and>
     data_created demo_kernel 0xFFF0000000001000 0x4000 h' \<and> data_created demo_kernel 0xFFF0000000001000 0x5000 h'"
proof -
  have "(case kvm_populate_realm demo_kernel 3 0x4000 0x2000 0 demo_new of Returned r h \<Rightarrow> r = 0 | Out_of_fuel h \<Rightarrow> False)"
    by code_simp
  then obtain h' where run: "kvm_populate_realm demo_kernel 3 0x4000 0x2000 0 demo_new = Returned 0 h'"
    by (auto split: outcome.splits)
  have "\<forall>k < (2::nat). data_created demo_kernel 0xFFF0000000001000 (0x4000 + of_nat k * 0x1000) h'"
  proof -
    have "\<exists>r h'. kvm_populate_realm demo_kernel 3 0x4000 0x2000 0 demo_new = Returned r h' \<and> (r = 0 \<longrightarrow>
        (\<forall>k < unat (0x2000 :: u64) div 0x1000. data_created demo_kernel (r_rd (realm_of demo_new)) (0x4000 + of_nat k * 0x1000) h'))"
      by (rule populate_realm_returns [OF demo_pages_4k]) simp
    then show ?thesis using run by (simp add: demo_new_def)
  qed
  from this [rule_format, of 0] this [rule_format, of 1] show ?thesis using run by simp
qed

section \<open>A failed mapping\<close>

text \<open>The pages that are delegated after a log.\<close>

fun delegated :: "host_env \<Rightarrow> hlog \<Rightarrow> u64 set" where
  "delegated E [] = {}"
| "delegated E (Smc fid args res # log) =
     (if c_int (res_a0 res) \<noteq> 0 then delegated E log
      else if fid = SMC_RMI_GRANULE_DELEGATE E then insert (hd args) (delegated E log)
      else if fid = SMC_RMI_GRANULE_UNDELEGATE E then delegated E log - {hd args}
      else delegated E log)"
| "delegated E (e # log) = delegated E log"

lemma delegated_other: "\<not> is_call e \<Longrightarrow> delegated E (e # log) = delegated E log"
  by (cases e) auto

text \<open>
  The pages \<open>G\<close> of a guest are none that the allocator hands out, and of them only those of
  \<open>X\<close> are delegated, apart from those that have been leaked on purpose.
\<close>

definition leaked :: "host \<Rightarrow> u64 set" where
  "leaked h = {p. Page_get p \<in> set (hlog h)}"

definition only_delegated :: "host_env \<Rightarrow> u64 set \<Rightarrow> u64 set \<Rightarrow> host \<Rightarrow> bool" where
  "only_delegated E G X h \<longleftrightarrow> smccc_ok E \<and> (\<forall>log mc p. answer_page E log mc = Some p \<longrightarrow> virt_to_phys E (phys_to_virt E p) \<notin> G) \<and>
     delegated E (hlog h) \<inter> G \<subseteq> X \<union> leaked h"

lemma only_delegated_emit:
  assumes "only_delegated E G X h" "delegated E (e # hlog h) \<subseteq> delegated E (hlog h)"
  shows "only_delegated E G X (emit e h)"
  using assms unfolding only_delegated_def leaked_def by auto

lemma only_delegated_other: "only_delegated E G X h \<Longrightarrow> \<not> is_call e \<Longrightarrow> only_delegated E G X (emit e h)"
  by (rule only_delegated_emit) (simp_all add: delegated_other)

lemma only_delegated_log: "hlog h = hlog h' \<Longrightarrow> only_delegated E G X h = only_delegated E G X h'"
  by (simp add: only_delegated_def leaked_def)

lemma only_delegated_mono: "only_delegated E G X h \<Longrightarrow> X \<subseteq> Y \<Longrightarrow> only_delegated E G Y h"
  by (auto simp: only_delegated_def)

lemma only_undelegated:
  assumes "only_delegated E G X h" "rmi_granule_undelegate E p h = (r, h')"
  shows "only_delegated E G X h'" "r = 0 \<Longrightarrow> only_delegated E G (X - {p}) h'"
  using assms unfolding only_delegated_def leaked_def
  by (auto simp: rmi_granule_undelegate_def arm_smccc_1_1_invoke_def Let_def smc_rmi_values split: if_splits)

lemma only_one_delegated:
  assumes "only_delegated E G X h" "rmi_granule_delegate E p h = (r, h')"
  shows "only_delegated E G (insert p X) h'" "p \<notin> G \<or> r \<noteq> 0 \<Longrightarrow> only_delegated E G X h'"
  using assms unfolding only_delegated_def leaked_def
  by (auto simp: rmi_granule_delegate_def arm_smccc_1_1_invoke_def Let_def smc_rmi_values split: if_splits)

lemma only_freed: "only_delegated E G X h \<Longrightarrow> only_delegated E G X (free_page E v h)"
  by (simp add: free_page_def only_delegated_other)

interpretation given_back: host_invariant E G "only_delegated E G X"
proof unfold_locales
  fix h p e fid args res mc
  assume h: "only_delegated E G X h"
  show "quiet e \<Longrightarrow> only_delegated E G X (emit e h)"
    by (rule only_delegated_other [OF h]) (cases e; simp)
  have ok: "smccc_ok E" using h by (simp add: only_delegated_def)
  show "fid \<in> table_calls E \<Longrightarrow> only_delegated E G X (emit (Smc fid args res) h)"
    by (rule only_delegated_emit [OF h]) (auto simp: table_calls_def smc_rmi_values [OF ok])
  show "p \<notin> G \<Longrightarrow> only_delegated E G X (snd (rmi_granule_delegate E p h))"
    using only_one_delegated(2) [OF h] by (metis prod.collapse)
  show "only_delegated E G X (free_delegated_page E p h)"
    using only_undelegated(1) [OF h]
    by (auto simp: free_delegated_page_def WARN_ON_def only_freed only_delegated_other Let_def
        only_delegated_log [of "set_realm _ h" h] h split: prod.split)
  show "only_delegated E G X (release_rtt E p h)"
    using only_undelegated(1) [OF h]
    by (auto simp: release_rtt_def WARN_ON_def only_freed only_delegated_other Let_def split: prod.split)
  show "only_delegated E G X (snd (alloc_delegated_page_gfp E mc h))"
  proof (cases "spare_page (realm_of h) = PHYS_ADDR_MAX E \<and> answer_page E (hlog h) mc \<noteq> None")
    case False
    then show ?thesis using h
      by (auto simp: alloc_delegated_page_gfp_def get_free_page_def only_delegated_other only_delegated_log [of "set_realm _ h" h])
  next
    case True
    then obtain q where q: "answer_page E (hlog h) mc = Some q" by blast
    obtain r h2 where d: "rmi_granule_delegate E (virt_to_phys E (phys_to_virt E q)) (emit (Page_alloc mc (Some q)) h) = (r, h2)"
      by fastforce
    have "virt_to_phys E (phys_to_virt E q) \<notin> G" using h q unfolding only_delegated_def by blast
    then have "only_delegated E G X h2"
      using only_one_delegated(2) [OF only_delegated_other [OF h] d] by simp
    then show ?thesis using True q d by (auto simp: alloc_delegated_page_gfp_def get_free_page_def Let_def only_freed)
  qed
qed

lemma only_leaked:
  assumes "only_delegated E G X h" "X \<subseteq> insert p Y"
  shows "only_delegated E G Y (undelegate_or_leak E p h)"
proof -
  obtain r h1 where u: "rmi_granule_undelegate E p h = (r, h1)" by fastforce
  have "only_delegated E G Y (emit (Page_get p) (emit Warn h1))"
    using only_undelegated(1) [OF assms(1) u] assms(2) unfolding only_delegated_def leaked_def by auto
  moreover have "r = 0 \<Longrightarrow> only_delegated E G Y h1"
    using only_delegated_mono [OF only_undelegated(2) [OF assms(1) u]] assms(2) by blast
  ultimately show ?thesis using u by (auto simp: undelegate_or_leak_def WARN_ON_def)
qed

lemma map_loop_pages:
  assumes "map_protected_loop E mc n done (dst + of_nat done * PAGE_SIZE E) ipa h = ((x, d, p, i), h')"
    and "only_delegated E G (X \<union> tables E dst done) h"
  shows "p = dst + of_nat d * PAGE_SIZE E \<and> (x \<noteq> Map_err_undelegate \<longrightarrow> only_delegated E G (X \<union> tables E dst d) h') \<and>
    (x = Map_err_undelegate \<longrightarrow> only_delegated E G (insert p (X \<union> tables E dst d)) h')"
  using assms
proof (induction n arbitrary: "done" ipa h)
  case (Suc n)
  let ?p = "dst + of_nat done * PAGE_SIZE E" and ?X = "X \<union> tables E dst done"
  obtain g h1 where g: "rmi_granule_delegate E ?p h = (g, h1)" by fastforce
  show ?case
  proof (cases "g = 0")
    case False
    have h1: "only_delegated E G ?X h1" using only_one_delegated(2) [OF Suc.prems(2) g] False by simp
    obtain r rtt h2 where e: "rmi_rtt_read_entry E (rd_phys E h1) ipa (c_ulong RME_RTT_MAX_LEVEL) h1 = (r, rtt, h2)"
      using prod_cases3 by blast
    have "only_delegated E G ?X h2"
      using given_back.commands(8) [OF h1, of "rd_phys E h1" ipa "c_ulong RME_RTT_MAX_LEVEL"] e by simp
    then show ?thesis using Suc.prems(1) g False e by (auto simp: Let_def WARN_ON_def only_delegated_other split: if_splits)
  next
    case True
    let ?Y = "insert ?p ?X"
    have h1: "only_delegated E G ?Y h1" using only_one_delegated(1) [OF Suc.prems(2) g] by simp
    have Y: "?Y = X \<union> tables E dst (Suc done)" by (simp add: tables_Suc)
    have next_p: "?p + PAGE_SIZE E = dst + of_nat (Suc done) * PAGE_SIZE E" by (simp add: algebra_simps)
    define unknown where "unknown = (\<lambda>h. rmi_data_create_unknown E (rd_phys E h) ?p ipa h)"
    have u: "unknown k = (c, k') \<Longrightarrow> only_delegated E G ?Y k \<Longrightarrow> only_delegated E G ?Y k'" for k c k'
      using given_back.commands(3) [of E G ?Y k "rd_phys E k" ?p ipa] by (simp add: unknown_def)
    obtain c h2 where c: "unknown h1 = (c, h2)" by fastforce
    obtain l h3 where l: "realm_create_rtt_levels E ipa (RMI_RETURN_INDEX c) RME_RTT_MAX_LEVEL mc h2 = (l, h3)" by fastforce
    have h3: "only_delegated E G ?Y h3"
      using given_back.create_levels [OF u [OF c h1], of ipa "RMI_RETURN_INDEX c" RME_RTT_MAX_LEVEL mc] l by simp
    obtain c' h4 where c': "unknown h3 = (c', h4)" by fastforce
    have "((x, d, p, i), h') =
        (if RMI_RETURN_STATUS c = RMI_ERROR_RTT_host then
           if l \<noteq> 0 then ((Map_err_undelegate, done, ?p, ipa), emit Warn h3)
           else if c' \<noteq> 0 then ((Map_err_undelegate, done, ?p, ipa), emit Warn h4)
           else map_protected_loop E mc n (Suc done) (dst + of_nat (Suc done) * PAGE_SIZE E) (ipa + PAGE_SIZE E) h4
         else if c \<noteq> 0 then ((Map_err_undelegate, done, ?p, ipa), emit Warn h2)
         else map_protected_loop E mc n (Suc done) (dst + of_nat (Suc done) * PAGE_SIZE E) (ipa + PAGE_SIZE E) h2)"
      using Suc.prems(1) g True c l c' unfolding map_protected_loop.simps next_p unknown_def
      by (cases "RMI_RETURN_STATUS c = RMI_ERROR_RTT_host"; cases "l = 0"; cases "c = 0"; cases "c' = 0";
          simp add: Let_def WARN_ON_def)
    then show ?thesis
      using Suc.IH [of "Suc done" "ipa + PAGE_SIZE E"] u [OF c h1] h3 u [OF c' h3] unfolding Y [symmetric]
      by (auto simp: only_delegated_other split: if_splits)
  qed
qed simp

lemma rollback_pages:
  assumes "only_delegated E G (X \<union> tables E dst done) h"
  shows "only_delegated E G X (map_rollback_loop E done (dst + of_nat done * PAGE_SIZE E) ipa h)"
  using assms
proof (induction "done" arbitrary: ipa h)
  case (Suc d)
  let ?p = "dst + of_nat d * PAGE_SIZE E"
  have p: "dst + of_nat (Suc d) * PAGE_SIZE E - PAGE_SIZE E = ?p" by (simp add: algebra_simps)
  obtain r data t h1 where c: "rmi_data_destroy E (rd_phys E h) (ipa - PAGE_SIZE E) h = (r, data, t, h1)" using prod_cases4 by blast
  have "only_delegated E G (X \<union> tables E dst (Suc d)) (WARN_ON (r \<noteq> 0) h1)"
    using given_back.commands(10) [OF Suc.prems, of "rd_phys E h" "ipa - PAGE_SIZE E"] c
    by (simp add: WARN_ON_def only_delegated_other)
  then have "only_delegated E G (X \<union> tables E dst d) (undelegate_or_leak E ?p (WARN_ON (r \<noteq> 0) h1))"
    by (rule only_leaked) (simp add: tables_Suc)
  from Suc.IH [OF this] show ?case unfolding map_rollback_loop.simps Let_def p c prod.case .
qed simp

text \<open>
  C14: When mapping a page or block into a realm fails, every page of the guest is again outside the realm world, unless it was delegated
  before or the monitor does not take it back; such a page gets a reference, so that it is never used again.
\<close>

theorem map_protected_rollback:
  assumes "smccc_ok E" "\<And>log mc p. answer_page E log mc = Some p \<Longrightarrow> virt_to_phys E (phys_to_virt E p) \<notin> tables E dst (pages_of E map_size)"
    and "realm_map_protected E ipa dst map_size mc h = (r, h')" "r \<noteq> 0"
  shows "delegated E (hlog h') \<inter> tables E dst (pages_of E map_size) \<subseteq> delegated E (hlog h) \<union> leaked h'"
proof -
  let ?n = "pages_of E map_size" and ?X = "delegated E (hlog h)"
  let ?G = "tables E dst ?n"
  have start: "only_delegated E ?G ?X h" using assms(1,2) by (auto simp: only_delegated_def)
  have "only_delegated E ?G ?X h'"
  proof (cases "IS_ALIGNED E ipa map_size \<and> map_level_of E map_size \<noteq> None")
    case False
    then show ?thesis using assms(3) start
      by (auto simp: realm_map_protected_def WARN_ON_def only_delegated_other Let_def split: if_splits)
  next
    case True
    then obtain lvl where lvl: "IS_ALIGNED E ipa map_size" "map_level_of E map_size = Some lvl" by blast
    define h1 where "h1 = (if lvl < RME_RTT_MAX_LEVEL then snd (realm_create_rtt_levels E ipa lvl RME_RTT_MAX_LEVEL mc h) else h)"
    have h1: "only_delegated E ?G ?X h1" using start by (simp add: h1_def given_back.create_levels)
    obtain x d p i h2 where l: "map_protected_loop E mc ?n 0 dst ipa h1 = ((x, d, p, i), h2)" by (metis prod.collapse)
    have m: "p = dst + of_nat d * PAGE_SIZE E" "x \<noteq> Map_err_undelegate \<Longrightarrow> only_delegated E ?G (?X \<union> tables E dst d) h2"
        "x = Map_err_undelegate \<Longrightarrow> only_delegated E ?G (insert p (?X \<union> tables E dst d)) h2"
      using map_loop_pages [of E mc ?n 0 dst ipa h1 x d p i h2 ?G ?X] l h1 unfolding tables_0 by auto
    obtain f h3 where f: "(if map_size = RME_L2_BLOCK_SIZE then fold_rtt E ipa lvl h2 else (0, h2)) = (f, h3)" by fastforce
    have "only_delegated E ?G Y h2 \<Longrightarrow> only_delegated E ?G Y h3" for Y
      using given_back.fold_one [of E ?G Y h2 ipa lvl] f by (auto split: if_splits)
    then have h3: "x = Map_done \<Longrightarrow> only_delegated E ?G (?X \<union> tables E dst d) (emit Warn h3)"
      using m(2) by (simp add: only_delegated_other)
    have "only_delegated E ?G (?X \<union> tables E dst d) (undelegate_or_leak E p h2)" if "x = Map_err_undelegate"
      by (rule only_leaked [OF m(3) [OF that]]) simp
    moreover have "(r, h') = (case x of Map_raced \<Rightarrow> (0, h2)
        | Map_err_undelegate \<Rightarrow> (- ENXIO, map_rollback_loop E d p i (undelegate_or_leak E p h2))
        | Map_err \<Rightarrow> (- ENXIO, map_rollback_loop E d p i h2)
        | Map_done \<Rightarrow> if f \<noteq> 0 then (- ENXIO, map_rollback_loop E d p i (emit Warn h3)) else (0, h3))"
      using assms(3) lvl l f unfolding realm_map_protected_def
      by (cases x; cases "map_size = RME_L2_BLOCK_SIZE"; auto simp: WARN_ON_def Let_def simp flip: h1_def)
    ultimately show ?thesis
      using assms(4) m h3 by (auto intro!: rollback_pages split: map_exit.splits if_splits)
  qed
  then show ?thesis by (auto simp: only_delegated_def)
qed

theorem map_protected_rollback_witness:
  "0x100000 \<notin> delegated demo_kernel (hlog (snd (realm_map_protected demo_kernel 0x4000 0x100000 0x1000 False demo_new)))"
proof -
  let ?c = "realm_map_protected demo_kernel 0x4000 0x100000 0x1000 False demo_new"
  have "pages_of demo_kernel 0x1000 = 1" by (simp add: pages_of_def demo_fields)
  then have G: "tables demo_kernel 0x100000 (pages_of demo_kernel 0x1000) = {0x100000}" by (simp add: tables_Suc)
  have avoid: "virt_to_phys demo_kernel (phys_to_virt demo_kernel p) \<notin> tables demo_kernel 0x100000 (pages_of demo_kernel 0x1000)"
    if "answer_page demo_kernel log mc = Some p" for log mc p
  proof -
    have "p \<in> set demo_free_pages" using that by (auto simp: demo_fields find_Some_iff split: option.splits)
    then show ?thesis unfolding G by (auto simp: demo_fields demo_free_pages_def)
  qed
  have run: "fst ?c \<noteq> 0" "Page_get 0x100000 \<notin> set (hlog (snd ?c))" by code_simp+
  have "delegated demo_kernel (hlog demo_new) = {}" by (simp add: demo_new_def demo_host_def)
  then show ?thesis
    using map_protected_rollback [OF demo_smccc avoid prod.collapse [symmetric] run(1)] run(2) unfolding G
    by (auto simp: leaked_def)
qed

end
