(* ===== verification/Kvm_Monitor.thy ===== *)
theory Kvm_Monitor
  imports Kvm_Machine Rmm_Calls
begin

text \<open>
  The host and the monitor together: the calls in the host's log are served by \<open>handle_ns_smc\<close>, one after
  the other. The firmware between the two worlds, which passes the registers on, is not in the
  repository; the identifier goes to the first register and the arguments to the next ones.
\<close>

section \<open>Serving the host's calls\<close>

definition argument :: "u64 list \<Rightarrow> nat \<Rightarrow> u64" where
  "argument args i = (if i < length args then args ! i else 0)"

definition serve :: "handler_env \<Rightarrow> smc_result \<Rightarrow> u32 \<Rightarrow> u64 list \<Rightarrow> mstate \<Rightarrow> (smc_result \<times> mstate) option" where
  "serve H regs fid args st = handle_ns_smc H fid (argument args 0) (argument args 1) (argument args 2) (argument args 3)
     (argument args 4) (argument args 5) regs st"

text \<open>The state of the monitor after the calls of a log; \<open>None\<close> when one of them does not return.\<close>

fun monitor_after :: "handler_env \<Rightarrow> smc_result \<Rightarrow> mstate \<Rightarrow> hlog \<Rightarrow> mstate option" where
  "monitor_after H regs z [] = Some z"
| "monitor_after H regs z (Smc fid args res # log) =
     Option.bind (monitor_after H regs z log) (\<lambda>st. map_option snd (serve H regs fid args st))"
| "monitor_after H regs z (e # log) = monitor_after H regs z log"

fun call_ids :: "hlog \<Rightarrow> u32 list" where
  "call_ids [] = []"
| "call_ids (Smc fid args res # log) = fid # call_ids log"
| "call_ids (e # log) = call_ids log"

lemma monitor_after_calls:
  assumes "monitor_after H regs z log = Some st" "length regs = SMC_RESULT_REGS"
  shows "ns_calls H (call_ids log) z st"
  using assms
proof (induction log arbitrary: st rule: call_ids.induct)
  case (2 fid args res log)
  then obtain st1 res' where "monitor_after H regs z log = Some st1" "serve H regs fid args st1 = Some (res', st)"
    by (auto simp: bind_eq_Some_conv)
  then show ?case using 2 by (auto simp: serve_def intro: ns_call)
qed simp_all

section \<open>Which calls the host makes\<close>

definition life_calls :: "host_env \<Rightarrow> u32 set" where
  "life_calls E = {SMC_RMI_REALM_CREATE E, SMC_RMI_REALM_ACTIVATE E, SMC_RMI_REALM_DESTROY E, SMC_RMI_REC_ENTER E}"

definition host_calls :: "host_env \<Rightarrow> u32 set" where
  "host_calls E = any_phase_calls E \<union> construction_calls E \<union> life_calls E"

text \<open>
  An invariant of the calls alone that also holds after the calls of the realm's life: every step of the host
  preserves it, whatever the monitor answers.
\<close>

locale call_invariant = new_log_invariant +
  assumes life_call: "I h \<Longrightarrow> fid \<in> life_calls E \<Longrightarrow> I (emit (Smc fid args res) h)"
    and log_only: "I h \<Longrightarrow> hlog h' = hlog h \<Longrightarrow> I h'"
begin

lemma sets: "I h \<Longrightarrow> I (set_realm f h)" "I h \<Longrightarrow> I (set_params g h)" "I h \<Longrightarrow> I (rme_vmid_release E v h)"
  "I h \<Longrightarrow> I (h\<lparr>params_page := p\<rparr>)"
  by (erule log_only; simp add: set_params_def rme_vmid_release_def)+

lemma life:
  "I h \<Longrightarrow> I (snd (rmi_realm_create E a b h))" "I h \<Longrightarrow> I (snd (rmi_realm_activate E a h))"
  "I h \<Longrightarrow> I (snd (rmi_realm_destroy E a h))" "I h \<Longrightarrow> I (snd (rmi_rec_enter E a b h))"
  by (simp_all add: rmi_cmd_defs arm_smccc_1_1_invoke_def Let_def life_call life_calls_def)

lemma option_step: "I (snd x) \<Longrightarrow> (\<And>a. I (snd (f a))) \<Longrightarrow> I (snd (case m of None \<Rightarrow> x | Some a \<Rightarrow> f a))"
  by (cases m) simp_all

lemma reserve: "I h \<Longrightarrow> I (snd (rme_vmid_reserve E h))"
  by (erule log_only) (simp add: rme_vmid_reserve_def split: prod.split)

lemmas life_steps = steps option_step sets life reserve rec_calls pgds_delegated tables_out pgds_destroyed

lemma command: "I h \<Longrightarrow> I (snd (create_rd_command E vm rd p sz i h))"
  unfolding create_rd_command_def Let_def by (intro life_steps)

lemma created: "I h \<Longrightarrow> I (snd (kvm_create_realm E vm h))"
  unfolding kvm_create_realm_def realm_create_rd_def create_rd_tables_def Let_def by (intro life_steps command)

lemma activated: "I h \<Longrightarrow> I (snd (kvm_activate_realm E h))"
  unfolding kvm_activate_realm_def Let_def by (intro life_steps)

lemma initialised: "I h \<Longrightarrow> I (snd (kvm_init_realm_vm E vm h))"
  unfolding kvm_init_realm_vm_def Let_def by (intro life_steps)

lemma configured: "I h \<Longrightarrow> I (snd (kvm_rme_config_realm E user h))"
  by (erule log_only) (simp add: kvm_rme_config_realm_def config_defs Let_def set_params_def split: option.split)

lemma capability: "I h \<Longrightarrow> I (state_of (kvm_realm_enable_cap E fuel vm cap h))"
  by (simp add: kvm_realm_enable_cap_def configured created init_ipa_range populate activated split: option.split)

lemma rd_destroyed: "I h \<Longrightarrow> I (snd (destroy_rd E h))"
  unfolding destroy_rd_def Let_def by (intro life_steps)

lemma spare_destroyed: "I h \<Longrightarrow> I (destroy_spare E h)"
  unfolding destroy_spare_def by (intro life_steps)

lemma destroyed: "I h \<Longrightarrow> I (kvm_destroy_realm E vm h)"
  unfolding kvm_destroy_realm_def Let_def by (intro life_steps rd_destroyed spare_destroyed other) simp_all

lemma entered: "I h \<Longrightarrow> I (snd (kvm_rec_enter E rec h))"
  unfolding kvm_rec_enter_def by (intro life_steps)

lemma host_steps: "host_step E vm m m' \<Longrightarrow> I (snd m) \<Longrightarrow> I (snd m')"
proof (induction rule: host_step.induct)
  case (init_vm h r h' recs)
  then show ?case using initialised [of h vm] by simp
next
  case (create_rec vcpu rec h r rec' h' recs)
  then show ?case using rec_created by simp
next
  case (destroy_rec vcpu rec h h' recs1 recs2)
  then show ?case using rec_destroyed by simp
qed (simp_all add: capability destroy_rtts destroy_range unmap_range set_ipa map_protected map_non_secure psci entered destroyed)

lemma reachable: "host_reachable E vm m \<Longrightarrow> (\<And>h. hlog h = [] \<Longrightarrow> I h) \<Longrightarrow> I (snd m)"
  by (induction rule: host_reachable.induct) (simp_all add: host_steps)

end

interpretation issued: call_invariant E "\<lambda>h. set (call_ids (hlog h)) \<subseteq> host_calls E" for E
proof
  fix h :: host and e
  assume "set (call_ids (hlog h)) \<subseteq> host_calls E" "\<not> is_call e"
  then show "set (call_ids (hlog (emit e h))) \<subseteq> host_calls E" by (cases e) simp_all
qed (auto simp: host_calls_def life_calls_def)

text \<open>None of them is one of the two that block and unblock a page.\<close>

lemma host_calls_not_blocking:
  assumes "smccc_ok E" "fid \<in> host_calls E"
  shows "\<not> block_call fid"
proof -
  have h: "fid AND SMC_SVE_HINT = 0 \<and> fid \<noteq> 0xC400016A \<and> fid \<noteq> 0xC400016B"
    using assms(2) by (auto simp: host_calls_def life_calls_def any_phase_calls_def table_calls_def construction_calls_def
        populate_calls_def smc_rmi_values [OF assms(1)] SMC_SVE_HINT_def)
  have "SMC_RMM_IPA_BLOCK = 0xC400016A" "SMC_RMM_IPA_UNBLOCK = 0xC400016B"
    by (simp_all add: rmi_fid_defs SMC64_RMI_FID_value)
  then show ?thesis using h by (simp add: block_call_def strip_hint_def)
qed

section \<open>The handlers of the host's calls\<close>

text \<open>A step of the host that makes one call, which has a handler for its number of arguments.\<close>

definition handled_call :: "handler_env \<Rightarrow> string \<Rightarrow> host \<Rightarrow> host \<Rightarrow> bool" where
  "handled_call H name h h' \<longleftrightarrow> (\<exists>fid args res entry. hlog h' = Smc fid args res # hlog h \<and> IS_SMC64_RMI_FID fid \<and>
     map_of (smc_handler_list H) (unat (RMI_HANDLER_ID fid)) = Some entry \<and> fn_name entry = name \<and>
     rmi_type entry AND 0xFF = of_nat (length args))"

end
