(* ===== verification/Kvm_Monitor_Correctness.thy ===== *)
theory Kvm_Monitor_Correctness
  imports Kvm_Monitor Kvm_Example Rmm_Example
begin

text \<open>The properties of the host and the monitor together.\<close>

text \<open>
  C10: However KVM runs a realm, with every result of every call, the monitor that serves the calls of KVM's realm code
  has released every lock and every buffer slot whenever a call has returned.
\<close>

theorem host_leaves_monitor_quiescent:
  assumes "host_reachable E vm (recs, h)" "smccc_ok E"
    and "monitor_after H res st (hlog h) = Some st'" "quiescent st"
    and "externals_ok H" "sizes_ok (rmm H)" "length res = SMC_RESULT_REGS"
  shows "quiescent st'"
proof -
  have "set (call_ids (hlog h)) \<subseteq> host_calls E" using issued.reachable [OF assms(1)] by simp
  then have "\<forall>fid \<in> set (call_ids (hlog h)). \<not> block_call fid" using host_calls_not_blocking [OF assms(2)] by blast
  then show ?thesis using ns_calls_invariant [OF monitor_after_calls [OF assms(3,7)] assms(4-6)] by simp
qed

abbreviation demo_quiet_kernel :: host_env where
  "demo_quiet_kernel \<equiv> demo_host_env (\<lambda>p. False) (\<lambda>fid args. result 0 0 0)"

theorem host_leaves_monitor_quiescent_witness:
  "\<exists>st. monitor_after (demo_handlers 5) [0, 0, 0, 0, 0] demo_mstate
      (hlog (snd (realm_psci_complete demo_quiet_kernel 0xFFF0000000001000 0xFFF0000000002000 0 demo_host))) = Some st \<and> quiescent st"
proof -
  let ?h = "snd (realm_psci_complete demo_quiet_kernel 0xFFF0000000001000 0xFFF0000000002000 0 demo_host)"
  have "host_reachable demo_quiet_kernel demo_vm ([], demo_host)"
    by (rule host_reachable.start) (simp_all add: demo_host_def demo_realm_def)
  then have r: "host_reachable demo_quiet_kernel demo_vm ([], ?h)" by (rule host_reachable.step [OF _ host_step.psci])
  have id: "strip_hint 0xC4000164 = SMC64_RMI_FID 0x14" "\<not> rmi_handler_needs_fpu (demo_handlers 5) (SMC64_RMI_FID 0x14)"
    by (simp_all add: strip_hint_def SMC64_RMI_FID_value SMC_SVE_HINT_def rmi_handler_needs_fpu_def rmi_fid_defs)
  have lookup: "map_of (smc_handler_list (demo_handlers 5)) (unat (0x14 :: u32)) = Some \<lparr>fn_name = ''PSCI_COMPLETE'',
     fn = Some (f_30 (smc_psci_complete (demo_handlers 5))), rmi_type = RMI_TYPE 3 0, log_exec = True, log_error = True\<rparr>"
    by (simp add: smc_handler_list_def rmi_fid_defs)
  have flags: "check_cpu_slots_empty (demo_handlers 5) st" "\<not> simd_is_state_saved (demo_handlers 5) st"
    and psci: "smc_psci_complete (demo_handlers 5) a b c st = Some (0, st)" for st a b c
    by (simp_all add: demo_handlers_def)
  have k: "(0x14 :: u32) < 28" by simp
  have f: "fn \<lparr>fn_name = ''PSCI_COMPLETE'', fn = Some (f_30 (smc_psci_complete (demo_handlers 5))), rmi_type = RMI_TYPE 3 0,
      log_exec = True, log_error = True\<rparr> = Some (f_30 (smc_psci_complete (demo_handlers 5)))" by simp
  obtain st where c: "handle_ns_smc (demo_handlers 5) 0xC4000164 0x1000 0x2000 0 0 0 0 [0, 0, 0, 0, 0] demo_mstate =
      Some ([0, 0, 0, 0, 0], st)"
    using handle_ns_smc_returns [OF k id(1) lookup f flags id(2), of "0x1000" "0x2000" 0 0 0 "[0, 0, 0, 0, 0]" demo_mstate "[0, 0, 0, 0, 0]" _ 0]
    by (auto simp: psci call_value_def)
  have log: "hlog ?h = [Smc 0xC4000164 [0x1000, 0x2000, 0] (result 0 0 0)]"
    by (simp add: realm_psci_complete_def rmi_psci_complete_def arm_smccc_1_1_invoke_def Let_def split_beta demo_fields demo_smc_def
        smc_rmi_values [OF demo_smccc] emit_def demo_host_def)
  have m: "monitor_after (demo_handlers 5) [0, 0, 0, 0, 0] demo_mstate (hlog ?h) = Some st"
    using c by (simp add: log serve_def argument_def)
  then show ?thesis
    using host_leaves_monitor_quiescent [OF r demo_smccc m demo_quiescent demo_externals_ok] demo_sizes_ok
    by (auto simp: SMC_RESULT_REGS_def)
qed

lemma rmi_ids:
  assumes "k < 28" "fid = SMC64_RMI_FID k"
  shows "IS_SMC64_RMI_FID fid" "RMI_HANDLER_ID fid = k"
  using assms IS_SMC64_RMI_FID_iff RMI_HANDLER_ID_FID by auto

definition rmi_commands :: "(u32 \<times> string \<times> nat) list" where
  "rmi_commands = [(0, ''VERSION'', 1), (1, ''GRANULE_DELEGATE'', 1), (2, ''GRANULE_UNDELEGATE'', 1), (3, ''DATA_CREATE'', 5),
     (4, ''DATA_CREATE_UNKNOWN'', 3), (5, ''DATA_DESTROY'', 2), (7, ''REALM_ACTIVATE'', 1), (8, ''REALM_CREATE'', 2),
     (9, ''REALM_DESTROY'', 1), (0xA, ''REC_CREATE'', 3), (0xB, ''REC_DESTROY'', 1), (0xC, ''REC_ENTER'', 2),
     (0xD, ''RTT_CREATE'', 4), (0xE, ''RTT_DESTROY'', 3), (0xF, ''RTT_MAP_UNPROTECTED'', 4), (0x11, ''RTT_READ_ENTRY'', 3),
     (0x12, ''RTT_UNMAP_UNPROTECTED'', 3), (0x14, ''PSCI_COMPLETE'', 3), (0x15, ''FEATURES'', 1), (0x16, ''RTT_FOLD'', 3),
     (0x17, ''REC_AUX_COUNT'', 1), (0x18, ''RTT_INIT_RIPAS'', 3), (0x19, ''RTT_SET_RIPAS'', 4), (0x1A, ''IPA_BLOCK'', 2),
     (0x1B, ''IPA_UNBLOCK'', 2)]"

lemma rmi_commands_handled:
  assumes "(k, name, n) \<in> set rmi_commands"
  shows "k < 28 \<and> (\<exists>entry. map_of (smc_handler_list H) (unat k) = Some entry \<and> fn_name entry = name \<and>
    rmi_type entry AND 0xFF = of_nat n)"
proof -
  have "list_all (\<lambda>(k, name, n). k < 28 \<and> (\<exists>entry. map_of (smc_handler_list H) (unat k) = Some entry \<and> fn_name entry = name \<and>
    rmi_type entry AND 0xFF = of_nat n)) rmi_commands"
    by (simp add: rmi_commands_def smc_handler_list_def rmi_fid_defs RMI_TYPE_def)
  then show ?thesis using assms by (auto simp: list_all_iff)
qed

lemma handled_command:
  assumes "fid = SMC64_RMI_FID k" "(k, name, length args) \<in> set rmi_commands"
  shows "handled_call H name h (emit (Smc fid args res) h)"
  using rmi_commands_handled [OF assms(2)] rmi_ids [OF _ assms(1)] unfolding handled_call_def by fastforce

text \<open>
  C30: Every command that the host issues has a handler in the monitor under the same identifier and name, for
  exactly the number of arguments that the host passes.
\<close>

theorem host_commands_handled:
  assumes "smccc_ok E"
  shows "handled_call H ''DATA_CREATE'' h (snd (rmi_data_create E a b c d e h)) \<and>
    handled_call H ''DATA_CREATE_UNKNOWN'' h (snd (rmi_data_create_unknown E a b c h)) \<and>
    handled_call H ''DATA_DESTROY'' h (snd (snd (snd (rmi_data_destroy E a b h)))) \<and>
    handled_call H ''FEATURES'' h (snd (snd (rmi_features E a h))) \<and>
    handled_call H ''GRANULE_DELEGATE'' h (snd (rmi_granule_delegate E a h)) \<and>
    handled_call H ''GRANULE_UNDELEGATE'' h (snd (rmi_granule_undelegate E a h)) \<and>
    handled_call H ''PSCI_COMPLETE'' h (snd (rmi_psci_complete E a b c h)) \<and>
    handled_call H ''REALM_ACTIVATE'' h (snd (rmi_realm_activate E a h)) \<and>
    handled_call H ''REALM_CREATE'' h (snd (rmi_realm_create E a b h)) \<and>
    handled_call H ''REALM_DESTROY'' h (snd (rmi_realm_destroy E a h)) \<and>
    handled_call H ''REC_AUX_COUNT'' h (snd (snd (rmi_rec_aux_count E a h))) \<and>
    handled_call H ''REC_CREATE'' h (snd (rmi_rec_create E a b c h)) \<and>
    handled_call H ''REC_DESTROY'' h (snd (rmi_rec_destroy E a h)) \<and>
    handled_call H ''REC_ENTER'' h (snd (rmi_rec_enter E a b h)) \<and>
    handled_call H ''RTT_CREATE'' h (snd (rmi_rtt_create E a b c d h)) \<and>
    handled_call H ''RTT_DESTROY'' h (snd (snd (snd (rmi_rtt_destroy E a b c h)))) \<and>
    handled_call H ''RTT_FOLD'' h (snd (snd (rmi_rtt_fold E a b c h))) \<and>
    handled_call H ''RTT_INIT_RIPAS'' h (snd (snd (rmi_rtt_init_ripas E a b c h))) \<and>
    handled_call H ''RTT_MAP_UNPROTECTED'' h (snd (rmi_rtt_map_unprotected E a b c d h)) \<and>
    handled_call H ''RTT_READ_ENTRY'' h (snd (snd (rmi_rtt_read_entry E a b c h))) \<and>
    handled_call H ''RTT_SET_RIPAS'' h (snd (snd (rmi_rtt_set_ripas E a b c d h))) \<and>
    handled_call H ''RTT_UNMAP_UNPROTECTED'' h (snd (snd (rmi_rtt_unmap_unprotected E a b c h))) \<and>
    handled_call H ''VERSION'' h (snd (rmi_check_version E h)) \<and>
    handled_call H ''IPA_BLOCK'' h (snd (rmi_ipa_block E a b h)) \<and>
    handled_call H ''IPA_UNBLOCK'' h (snd (rmi_ipa_unblock E a b h))"
proof -
  have v: "snd (rmi_check_version E h) = emit (Smc (SMC_RMI_VERSION E) [n] (answer_smc E (hlog h) (SMC_RMI_VERSION E) [n])) h"
    if "n = RMI_ABI_VERSION RMI_ABI_MAJOR_VERSION RMI_ABI_MINOR_VERSION" for n
    using that by (simp add: rmi_check_version_def arm_smccc_1_1_invoke_def Let_def)
  show ?thesis
    unfolding v [OF refl] rmi_cmd_defs arm_smccc_1_1_invoke_def Let_def smc_rmi_values [OF assms] prod.case fst_conv snd_conv
    by (intro conjI handled_command; simp add: rmi_commands_def SMC64_RMI_FID_value)
qed

theorem host_commands_handled_witness:
  "handled_call (demo_handlers 5) ''DATA_DESTROY'' demo_host
     (snd (snd (snd (rmi_data_destroy (demo_host_env (\<lambda>p. False) (\<lambda>fid args. result 0 0 0)) 0x2000 0x1000 demo_host))))"
  using host_commands_handled [OF demo_smccc, of "demo_handlers 5" demo_host "\<lambda>p. False" "\<lambda>fid args. result 0 0 0" "0x2000" "0x1000"]
  by blast

end
