(* ===== verification/Tdx_Env.thy ===== *)
theory Tdx_Env
  imports Prelude Errno
begin

text \<open>
  The TDX host of KVM in src/tetd_x86/tetd_h_g/host/kvm/tdx.c: its data, the calls of the TDX module, and what
  its operations use of the rest of the kernel. The wrappers \<open>tdh_*\<close>, the status codes and the layouts of
  tdx_arch.h are outside the repository: a call is an element of \<open>tdh_call\<close>, its answer a function of
  the log so far, and the constants are fields of the environment. The log has its newest event first.
\<close>

section \<open>CPUID configuration and the parameters of a TD\<close>

record kvm_cpuid_entry2 =
  ent_function :: u32
  ent_index :: u32
  ent_eax :: u32
  ent_ebx :: u32
  ent_ecx :: u32
  ent_edx :: u32

record kvm_tdx_cpuid_config =
  c_leaf :: u32
  c_sub_leaf :: u32
  c_eax :: u32
  c_ebx :: u32
  c_ecx :: u32
  c_edx :: u32

record tdx_cpuid_value =
  val_eax :: u32
  val_ebx :: u32
  val_ecx :: u32
  val_edx :: u32

record tdx_info =
  features0 :: u64
  attributes_fixed0 :: u64
  attributes_fixed1 :: u64
  xfam_fixed0 :: u64
  xfam_fixed1 :: u64
  nr_tdcs_pages :: u8
  nr_tdvpx_pages :: u8
  cpuid_configs :: "kvm_tdx_cpuid_config list"

record td_params =
  tp_attributes :: u64
  tp_xfam :: u64
  tp_max_vcpus :: u64
  tp_eptp_controls :: u64
  tp_exec_controls :: u64
  tp_tsc_frequency :: u64
  tp_mrconfigid :: "u64 list"
  tp_mrowner :: "u64 list"
  tp_mrownerconfig :: "u64 list"
  tp_cpuid_values :: "tdx_cpuid_value list"

section \<open>Calls of the module and events\<close>

text \<open>
  The arguments of a call are physical addresses unless they say otherwise; the calls that the code
  makes on a certain processor carry its number first.
\<close>

datatype tdh_call =
    Tdh_phymem_page_reclaim u64
  | Tdh_phymem_page_wbinvd u64
  | Tdh_phymem_cache_wb nat bool
  | Tdh_vp_flush nat u64
  | Tdh_vp_create u64 u64
  | Tdh_vp_addcx u64 u64
  | Tdh_vp_init u64 u64
  | Tdh_mng_create u64 int
  | Tdh_mng_key_config nat u64
  | Tdh_mng_addcx u64 u64
  | Tdh_mng_init u64 td_params
  | Tdh_mng_vpflushdone u64
  | Tdh_mng_key_freeid u64
  | Tdh_mem_page_aug u64 u64 int u64
  | Tdh_mem_page_add u64 u64 u64 u64
  | Tdh_mem_page_remove u64 u64 int
  | Tdh_mem_page_demote u64 u64 int u64
  | Tdh_mem_page_promote u64 u64 int
  | Tdh_mem_sept_add u64 u64 int u64
  | Tdh_mem_range_block u64 u64 int
  | Tdh_mem_range_unblock u64 u64 int
  | Tdh_mem_track u64
  | Tdh_mr_extend u64 u64
  | Tdh_mr_finalize u64

text \<open>The members of \<open>struct tdx_module_args\<close> that the code reads after a call.\<close>

record tdx_module_args =
  out_rcx :: u64
  out_rdx :: u64
  out_r8 :: u64

datatype td_event =
    Tdh tdh_call u64
  | Got_page u64
  | Freed_page u64
  | Cleared u64 u64
  | Pinned u64
  | Unpinned u64
  | Ida_alloc int
  | Ida_free int
  | Kmalloc bool
  | Kfree
  | Tlb_request
  | Set_msr nat u32 u64
  | Set_apic_base nat u64
  | Vmcs_write nat u32 u64
  | Vmcs_setbit nat u32 u64
  | Td_warning

type_synonym td_log = "td_event list"

section \<open>Environment\<close>

text \<open>
  \<open>answer_free_page\<close> gives a virtual address, 0 when there is no page; \<open>answer_ida\<close> is \<open>ida_alloc_range\<close> on
  the pool of key ids; \<open>answer_signal\<close> is \<open>signal_pending\<close>; \<open>find_cpuid_entry\<close> is \<open>kvm_find_cpuid_entry2\<close>.
  A page level is the number that \<open>enum pg_level\<close> gives it.
\<close>

record tdx_status =
  TDX_OPERAND_BUSY :: u64
  TDX_OPERAND_INVALID :: u64
  TDX_OPERAND_ID_RCX :: u64
  TDX_OPERAND_ID_TDR :: u64
  TDX_OPERAND_ID_SEPT :: u64
  TDX_SEAMCALL_STATUS_MASK :: u64
  TDX_ERROR_SEPT_BUSY :: u64
  TDX_VCPU_NOT_ASSOCIATED :: u64
  TDX_INTERRUPTED_RESUMABLE :: u64
  TDX_INTERRUPTED_RESTARTABLE :: u64
  TDX_NO_HKID_READY_TO_WBCACHE :: u64
  TDX_FLUSHVP_NOT_DONE :: u64
  TDX_KEY_GENERATION_FAILED :: u64
  TDX_RND_NO_ENTROPY :: u64
  TDX_TLB_TRACKING_NOT_DONE :: u64
  TDX_EPT_ENTRY_STATE_INCORRECT :: u64
  TDX_EPT_INVALID_PROMOTE_CONDITIONS :: u64

record tdx_memory_consts = tdx_status +
  TDX_TD_ATTR_SEPT_VE_DISABLE :: u64
  TDX_SEPT_PENDING :: u64
  pg_level_to_tdx_sept_level :: "nat \<Rightarrow> int"
  KVM_PAGES_PER_HPAGE :: "nat \<Rightarrow> nat"
  KVM_HPAGE_SIZE :: "nat \<Rightarrow> u64"
  KVM_HPAGE_MASK :: "nat \<Rightarrow> u64"
  PG_LEVEL_4K :: nat
  PG_LEVEL_2M :: nat
  page_bytes :: u64
  page_bits :: nat
  TDX_EXTENDMR_CHUNKSIZE :: u64
  KVM_MAX_VCPUS :: u64
  TDX_MAX_VCPUS :: u64
  KVM_CAP_MAX_VCPUS :: u32
  KVM_MAX_CPUID_ENTRIES :: u32
  KVM_TDX_CPUID_NO_SUBLEAF :: u32
  VMX_EPTP_MT_WB :: u64
  VMX_EPTP_PWL_4 :: u64
  VMX_EPTP_PWL_5 :: u64
  TDX_EXEC_CONTROL_MAX_GPAW :: u64
  cpu_has_vmx_ept_5levels :: bool
  TDX_TD_ATTRIBUTE_PERFMON :: u64
  TDX_TSC_KHZ_TO_25MHZ :: "u64 \<Rightarrow> u64"
  default_tsc_khz :: u64
  supported_xcr0 :: u64
  supported_xss :: u64
  XFEATURE_MASK_PT :: u64
  XFEATURE_MASK_LBR :: u64

record tdx_consts = tdx_memory_consts +
  TDX_TD_XFAM_CET :: u64
  hle_rtm_mask :: u64
  gpa_to_gfn_td :: "u64 \<Rightarrow> u64"
  gfn_to_gpa_td :: "u64 \<Rightarrow> u64"
  pfn_to_hpa :: "u64 \<Rightarrow> u64"
  kvm_is_private_gpa :: "u64 \<Rightarrow> u64 \<Rightarrow> bool"
  sept_pferr :: u64
  shadow_phys_bits :: nat
  TDX_CAP_GPAW_48 :: u64
  TDX_CAP_GPAW_52 :: u64
  is_reset_bsp :: "nat \<Rightarrow> bool"
  APIC_DEFAULT_PHYS_BASE :: u64
  LAPIC_MODE_X2APIC :: u64
  MSR_IA32_APICBASE_BSP :: u64
  KVM_NR_VAR_MTRR :: nat
  MSR_MTRRdefType :: u32
  MTRR_TYPE_WRBACK :: u64
  POSTED_INTR_NV :: u32
  POSTED_INTR_VECTOR :: u64
  POSTED_INTR_DESC_ADDR :: u32
  pi_desc_pa :: "nat \<Rightarrow> u64"
  PIN_BASED_VM_EXEC_CONTROL :: u32
  PIN_BASED_POSTED_INTR :: u64
  KVM_TDX_CAPABILITIES :: u32
  KVM_TDX_INIT_VM :: u32
  KVM_TDX_EXTEND_MEMORY :: u32
  KVM_TDX_FINALIZE_VM :: u32
  KVM_TDX_INIT_VCPU :: u32

record td_env = tdx_consts +
  answer_tdh :: "td_log \<Rightarrow> tdh_call \<Rightarrow> u64 \<times> tdx_module_args"
  answer_free_page :: "td_log \<Rightarrow> u64"
  answer_ida :: "td_log \<Rightarrow> int \<Rightarrow> int \<Rightarrow> int"
  answer_kmalloc :: "td_log \<Rightarrow> bool"
  answer_signal :: "td_log \<Rightarrow> bool"
  pa_of :: "u64 \<Rightarrow> u64"
  va_of :: "u64 \<Rightarrow> u64"
  tdx_guest_keyid_start :: int
  tdx_nr_guest_keyids :: int
  tdx_global_keyid :: u16
  x86_phys_bits :: nat
  present_cpus :: "nat list"
  online_cpus :: "nat list"
  package_id :: "nat \<Rightarrow> nat"
  tdx_info_of :: tdx_info
  find_cpuid_entry :: "kvm_cpuid_entry2 list \<Rightarrow> u32 \<Rightarrow> u32 \<Rightarrow> kvm_cpuid_entry2 option"
  sept_entry :: "u64 \<Rightarrow> bool \<times> u64 \<times> bool"
  sept_level_state :: "u64 \<Rightarrow> int \<times> u64"
  td_tsc_offset_answer :: "td_log \<Rightarrow> u64"
  answer_user_page :: "td_log \<Rightarrow> u64 \<Rightarrow> int \<times> u64"
  answer_set_msr :: "td_log \<Rightarrow> nat \<Rightarrow> u32 \<Rightarrow> u64 \<Rightarrow> bool"
  answer_set_apic_base :: "td_log \<Rightarrow> nat \<Rightarrow> u64 \<Rightarrow> bool"

section \<open>State\<close>

text \<open>
  \<open>struct kvm_tdx\<close>, \<open>struct vcpu_tdx\<close> and the members of \<open>struct kvm\<close> and \<open>struct kvm_vcpu\<close> that the code
  changes. A null array is \<open>None\<close>; \<open>td_cpuid\<close> holds the \<open>cpuid_nent\<close> entries that are valid. A page is its
  frame number. \<open>associated\<close> are the lists \<open>associated_tdvcpus\<close> of the processors.
\<close>

record kvm_tdx =
  tdr_pa :: u64
  tdcs_pa :: "u64 list option"
  hkid :: int
  finalized :: bool
  td_attributes :: u64
  td_xfam :: u64
  td_tsc_offset :: u64
  tsx_supported :: bool
  td_cpuid :: "kvm_cpuid_entry2 list option"
  source_page :: "u64 option"
  tdh_mem_track :: int

record vcpu_tdx =
  tdvpr_pa :: u64
  tdvpx_pa :: "u64 list option"
  td_vcpu_created :: bool
  vcpu_initialized :: bool
  vcpu_cpu :: int
  apicv_active :: bool
  mp_runnable :: bool

record td_host =
  td :: kvm_tdx
  vcpus :: "vcpu_tdx list"
  associated :: "nat \<Rightarrow> nat list"
  nr_configured_hkid :: int
  vm_bugged :: bool
  kvm_max_vcpus :: u64
  created_vcpus :: nat
  gfn_shared_mask :: u64
  apicv_inhibited :: bool
  mmio_spte_value :: u64
  td_log :: td_log

definition td_emit :: "td_event \<Rightarrow> td_host \<Rightarrow> td_host" where
  "td_emit e s = s\<lparr>td_log := e # td_log s\<rparr>"

definition set_td :: "(kvm_tdx \<Rightarrow> kvm_tdx) \<Rightarrow> td_host \<Rightarrow> td_host" where
  "set_td f s = s\<lparr>td := f (td s)\<rparr>"

definition set_vcpu :: "nat \<Rightarrow> (vcpu_tdx \<Rightarrow> vcpu_tdx) \<Rightarrow> td_host \<Rightarrow> td_host" where
  "set_vcpu v f s = s\<lparr>vcpus := (vcpus s)[v := f (vcpus s ! v)]\<rparr>"

section \<open>Services of the kernel and of the module\<close>

text \<open>\<open>WARN_ON_ONCE\<close>, and \<open>KVM_BUG_ON\<close>, which also marks the virtual machine.\<close>

definition warn_on_once :: "bool \<Rightarrow> td_host \<Rightarrow> td_host" where
  "warn_on_once c s = (if c then td_emit Td_warning s else s)"

definition kvm_bug_on :: "bool \<Rightarrow> td_host \<Rightarrow> td_host" where
  "kvm_bug_on c s = (if c then (td_emit Td_warning s)\<lparr>vm_bugged := True\<rparr> else s)"

definition tdh :: "td_env \<Rightarrow> tdh_call \<Rightarrow> td_host \<Rightarrow> u64 \<times> tdx_module_args \<times> td_host" where
  "tdh E c s = (let (err, out) = answer_tdh E (td_log s) c in (err, out, td_emit (Tdh c err) s))"

text \<open>A call that is repeated as long as the answer is among \<open>again\<close>; it may not end.\<close>

partial_function (option) tdh_retry ::
    "td_env \<Rightarrow> (u64 \<Rightarrow> bool) \<Rightarrow> tdh_call \<Rightarrow> td_host \<Rightarrow> (u64 \<times> tdx_module_args \<times> td_host) option" where
  "tdh_retry E again c s =
     (case tdh E c s of (err, out, s) \<Rightarrow> if again err then tdh_retry E again c s else Some (err, out, s))"

declare tdh_retry.simps [code]

definition get_free_page_td :: "td_env \<Rightarrow> td_host \<Rightarrow> u64 \<times> td_host" where
  "get_free_page_td E s = (let va = answer_free_page E (td_log s) in (va, td_emit (Got_page va) s))"

definition free_page_td :: "u64 \<Rightarrow> td_host \<Rightarrow> td_host" where
  "free_page_td va s = (if va = 0 then s else td_emit (Freed_page va) s)"

definition kmalloc :: "td_env \<Rightarrow> td_host \<Rightarrow> bool \<times> td_host" where
  "kmalloc E s = (let ok = answer_kmalloc E (td_log s) in (ok, td_emit (Kmalloc ok) s))"

text \<open>\<open>kfree\<close> accepts a null pointer.\<close>

definition kfree :: "bool \<Rightarrow> td_host \<Rightarrow> td_host" where
  "kfree nonnull s = (if nonnull then td_emit Kfree s else s)"

lemma tdh_simps [simp]: "tdh E c s = (err, out, s') \<longleftrightarrow>
    answer_tdh E (td_log s) c = (err, out) \<and> s' = td_emit (Tdh c err) s"
  by (auto simp: tdh_def Let_def split: prod.splits)

section \<open>The pool of key ids\<close>

definition tdx_guest_keyid_alloc :: "td_env \<Rightarrow> td_host \<Rightarrow> int \<times> td_host" where
  "tdx_guest_keyid_alloc E s =
     (if tdx_guest_keyid_start E = 0 \<or> tdx_nr_guest_keyids E = 0 then (- EINVAL, warn_on_once True s)
      else let k = answer_ida E (td_log s) (tdx_guest_keyid_start E)
                     (tdx_guest_keyid_start E + tdx_nr_guest_keyids E - 1)
           in (k, td_emit (Ida_alloc k) s))"

definition tdx_guest_keyid_free :: "td_env \<Rightarrow> int \<Rightarrow> td_host \<Rightarrow> td_host" where
  "tdx_guest_keyid_free E keyid s =
     (if keyid < tdx_guest_keyid_start E \<or> keyid > tdx_guest_keyid_start E + tdx_nr_guest_keyids E - 1
      then warn_on_once True s
      else td_emit (Ida_free keyid) s)"

definition set_hkid_to_hpa :: "td_env \<Rightarrow> u64 \<Rightarrow> u16 \<Rightarrow> u64" where
  "set_hkid_to_hpa E pa k = pa OR push_bit (x86_phys_bits E) (ucast k)"

definition is_td_vcpu_created :: "vcpu_tdx \<Rightarrow> bool" where
  "is_td_vcpu_created tdx = td_vcpu_created tdx"

definition is_td_created :: "kvm_tdx \<Rightarrow> bool" where
  "is_td_created kvm_tdx = (tdr_pa kvm_tdx \<noteq> 0)"

definition tdx_hkid_free :: "td_env \<Rightarrow> td_host \<Rightarrow> td_host" where
  "tdx_hkid_free E s =
     (let s = tdx_guest_keyid_free E (hkid (td s)) s; s = set_td (hkid_update (\<lambda>_. - 1)) s
      in s\<lparr>nr_configured_hkid := nr_configured_hkid s - 1\<rparr>)"

definition is_hkid_assigned :: "kvm_tdx \<Rightarrow> bool" where
  "is_hkid_assigned kvm_tdx = (hkid kvm_tdx > 0)"

definition is_td_finalized :: "kvm_tdx \<Rightarrow> bool" where
  "is_td_finalized kvm_tdx = finalized kvm_tdx"

section \<open>Pages given back by the module\<close>

definition tdx_clear_page :: "td_env \<Rightarrow> u64 \<Rightarrow> u64 \<Rightarrow> td_host \<Rightarrow> td_host" where
  "tdx_clear_page E page_pa sz s =
     td_emit (Cleared page_pa sz) (warn_on_once (sz mod page_bytes E \<noteq> 0) s)"

definition tdx_reclaim_page_raw :: "td_env \<Rightarrow> u64 \<Rightarrow> nat \<Rightarrow> td_host \<Rightarrow> (int \<times> td_host) option" where
  "tdx_reclaim_page_raw E pa level s = do {
     (err, out, s) \<leftarrow> tdh_retry E
       (\<lambda>err. err = (TDX_OPERAND_BUSY E OR TDX_OPERAND_ID_RCX E) \<or> err = (TDX_OPERAND_BUSY E OR TDX_OPERAND_ID_TDR E))
       (Tdh_phymem_page_reclaim pa) s;
     if err \<noteq> 0 then Some (- EIO, warn_on_once True s)
     else Some (0, warn_on_once (out_r8 out \<noteq> word_of_int (pg_level_to_tdx_sept_level E level)) s)
   }"

definition tdx_reclaim_page :: "td_env \<Rightarrow> u64 \<Rightarrow> nat \<Rightarrow> td_host \<Rightarrow> (int \<times> td_host) option" where
  "tdx_reclaim_page E pa level s = do {
     (r, s) \<leftarrow> tdx_reclaim_page_raw E pa level s;
     Some (r, if r = 0 then tdx_clear_page E pa (KVM_HPAGE_SIZE E level) s else s)
   }"

definition tdx_reclaim_control_page :: "td_env \<Rightarrow> u64 \<Rightarrow> td_host \<Rightarrow> td_host option" where
  "tdx_reclaim_control_page E td_page_pa s = do {
     (r, s) \<leftarrow> tdx_reclaim_page E td_page_pa (PG_LEVEL_4K E) (warn_on_once (td_page_pa = 0) s);
     Some (if r \<noteq> 0 then s else free_page_td (va_of E td_page_pa) s)
   }"

end
