(* ===== verification/Tdx_Params.thy ===== *)
theory Tdx_Params
  imports Tdx_Env
begin

text \<open>
  The configuration of a TD in src/tetd_x86/tetd_h_g/host/kvm/tdx.c: the limit of virtual processors, the
  parameters that the module is given, and the later check of the CPUID values against them.
\<close>

record kvm_enable_cap =
  cap_id :: u32
  cap_flags :: u32
  cap_arg0 :: u64

definition tdx_vm_enable_cap :: "td_env \<Rightarrow> kvm_enable_cap \<Rightarrow> td_host \<Rightarrow> int \<times> td_host" where
  "tdx_vm_enable_cap E cap s =
     (if cap_id cap = KVM_CAP_MAX_VCPUS E then
        if cap_flags cap \<noteq> 0 \<or> cap_arg0 cap = 0 then (- EINVAL, s)
        else if cap_arg0 cap > KVM_MAX_VCPUS E \<or> cap_arg0 cap > TDX_MAX_VCPUS E then (- E2BIG, s)
        else if created_vcpus s \<noteq> 0 then (- EBUSY, s)
        else (0, s\<lparr>kvm_max_vcpus := cap_arg0 cap\<rparr>)
      else (- EINVAL, s))"

text \<open>The software part of the creation of a virtual machine.\<close>

definition tdx_vm_init :: "td_env \<Rightarrow> td_host \<Rightarrow> int \<times> td_host" where
  "tdx_vm_init E s =
     (let s = s\<lparr>mmio_spte_value := 0\<rparr>
      in (0, s\<lparr>kvm_max_vcpus := min (kvm_max_vcpus s) (TDX_MAX_VCPUS E)\<rparr>))"

section \<open>The parameters of a TD\<close>

record kvm_tdx_init_vm =
  iv_attributes :: u64
  iv_mrconfigid :: "u64 list"
  iv_mrowner :: "u64 list"
  iv_mrownerconfig :: "u64 list"
  iv_reserved :: "u64 list"
  iv_nent :: u32
  iv_padding :: u32
  iv_entries :: "kvm_cpuid_entry2 list"

definition setup_tdparams_eptp_controls :: "td_env \<Rightarrow> kvm_cpuid_entry2 list \<Rightarrow> td_params \<Rightarrow> int \<times> td_params" where
  "setup_tdparams_eptp_controls E cpuid tp =
     (let max_pa = (case find_cpuid_entry E cpuid 0x80000008 0 of
            Some entry \<Rightarrow> unat (ent_eax entry AND 0xff) | None \<Rightarrow> 36);
          tp = tp\<lparr>tp_eptp_controls := VMX_EPTP_MT_WB E\<rparr>
      in if \<not> cpu_has_vmx_ept_5levels E \<and> max_pa > 48 then (- EINVAL, tp)
         else if cpu_has_vmx_ept_5levels E \<and> max_pa > 48 then
           (0, tp\<lparr>tp_eptp_controls := tp_eptp_controls tp OR VMX_EPTP_PWL_5 E,
                  tp_exec_controls := tp_exec_controls tp OR TDX_EXEC_CONTROL_MAX_GPAW E\<rparr>)
         else (0, tp\<lparr>tp_eptp_controls := tp_eptp_controls tp OR VMX_EPTP_PWL_4 E\<rparr>))"

definition config_index :: "td_env \<Rightarrow> kvm_tdx_cpuid_config \<Rightarrow> u32" where
  "config_index E c = (if c_sub_leaf c = KVM_TDX_CPUID_NO_SUBLEAF E then 0 else c_sub_leaf c)"

definition config_entry :: "td_env \<Rightarrow> kvm_cpuid_entry2 list \<Rightarrow> kvm_tdx_cpuid_config \<Rightarrow> kvm_cpuid_entry2 option" where
  "config_entry E cpuid c = find_cpuid_entry E cpuid (c_leaf c) (config_index E c)"

definition masked_value :: "kvm_cpuid_entry2 \<Rightarrow> kvm_tdx_cpuid_config \<Rightarrow> tdx_cpuid_value" where
  "masked_value entry c = \<lparr>val_eax = ent_eax entry AND c_eax c, val_ebx = ent_ebx entry AND c_ebx c,
     val_ecx = ent_ecx entry AND c_ecx c, val_edx = ent_edx entry AND c_edx c\<rparr>"

text \<open>
  The loop over the configurable leaves: \<open>values\<close> are the members of \<open>td_params\<close> from the current index on,
  \<open>kept\<close> the entries remembered so far.
\<close>

fun setup_tdparams_cpuids_loop :: "td_env \<Rightarrow> kvm_cpuid_entry2 list \<Rightarrow> kvm_tdx_cpuid_config list \<Rightarrow>
    tdx_cpuid_value list \<Rightarrow> kvm_cpuid_entry2 list \<Rightarrow> tdx_cpuid_value list \<times> kvm_cpuid_entry2 list" where
  "setup_tdparams_cpuids_loop E cpuid (c # cs) (v # vs) kept =
     (case config_entry E cpuid c of
        None \<Rightarrow> (case setup_tdparams_cpuids_loop E cpuid cs vs kept of (vs, kept) \<Rightarrow> (v # vs, kept))
      | Some entry \<Rightarrow>
          (case setup_tdparams_cpuids_loop E cpuid cs vs (kept @ [entry]) of
             (vs, kept) \<Rightarrow> (masked_value entry c # vs, kept)))"
| "setup_tdparams_cpuids_loop E cpuid cs vs kept = (vs, kept)"

definition setup_tdparams_cpuids :: "td_env \<Rightarrow> kvm_cpuid_entry2 list \<Rightarrow> td_params \<Rightarrow> td_host \<Rightarrow> td_params \<times> td_host" where
  "setup_tdparams_cpuids E cpuid tp s =
     (case setup_tdparams_cpuids_loop E cpuid (cpuid_configs (tdx_info_of E)) (tp_cpuid_values tp) [] of
        (vs, kept) \<Rightarrow> (tp\<lparr>tp_cpuid_values := vs\<rparr>, set_td (td_cpuid_update (\<lambda>_. Some kept)) s))"

definition setup_tdparams_xfam :: "td_env \<Rightarrow> kvm_cpuid_entry2 list \<Rightarrow> td_params \<Rightarrow> int \<times> td_params" where
  "setup_tdparams_xfam E cpuid tp =
     (let xcr0 = (case find_cpuid_entry E cpuid 0xd 0 of
            Some entry \<Rightarrow> ucast (ent_eax entry) OR push_bit 32 (ucast (ent_edx entry)) | None \<Rightarrow> 0);
          xcr0 = xcr0 AND supported_xcr0 E;
          xss = (case find_cpuid_entry E cpuid 0xd 1 of
            Some entry \<Rightarrow> ucast (ent_ecx entry) OR push_bit 32 (ucast (ent_edx entry)) | None \<Rightarrow> 0);
          xss = xss AND (supported_xss E OR XFEATURE_MASK_PT E OR TDX_TD_XFAM_CET E);
          tp = tp\<lparr>tp_xfam := xcr0 OR xss\<rparr>
      in if tp_xfam tp AND XFEATURE_MASK_LBR E \<noteq> 0 then (- EOPNOTSUPP, tp) else (0, tp))"

definition tdparams_tsx_supported :: "td_env \<Rightarrow> kvm_cpuid_entry2 list \<Rightarrow> bool" where
  "tdparams_tsx_supported E cpuid =
     (let ebx = (case find_cpuid_entry E cpuid 0x7 0 of Some entry \<Rightarrow> ent_ebx entry | None \<Rightarrow> 0)
      in (ucast ebx :: u64) AND hle_rtm_mask E \<noteq> 0)"

definition setup_tdparams :: "td_env \<Rightarrow> td_params \<Rightarrow> kvm_tdx_init_vm \<Rightarrow> td_host \<Rightarrow> int \<times> td_params \<times> td_host" where
  "setup_tdparams E tp init_vm s =
     (let cpuid = iv_entries init_vm
      in if created_vcpus s \<noteq> 0 then (- EBUSY, tp, s)
         else if iv_attributes init_vm AND TDX_TD_ATTRIBUTE_PERFMON E \<noteq> 0 then (- EOPNOTSUPP, tp, s)
         else
           let tp = tp\<lparr>tp_max_vcpus := kvm_max_vcpus s, tp_attributes := iv_attributes init_vm,
                 tp_tsc_frequency := TDX_TSC_KHZ_TO_25MHZ E (default_tsc_khz E)\<rparr>;
               (ret, tp) = setup_tdparams_eptp_controls E cpuid tp
           in if ret \<noteq> 0 then (ret, tp, s)
              else
                let (tp, s) = setup_tdparams_cpuids E cpuid tp s;
                    (ret, tp) = setup_tdparams_xfam E cpuid tp
                in if ret \<noteq> 0 then (ret, tp, s)
                   else (0, tp\<lparr>tp_mrconfigid := iv_mrconfigid init_vm, tp_mrowner := iv_mrowner init_vm,
                               tp_mrownerconfig := iv_mrownerconfig init_vm\<rparr>,
                         set_td (tsx_supported_update (\<lambda>_. tdparams_tsx_supported E cpuid)) s))"

text \<open>\<open>kzalloc\<close> of the parameters; there is a CPUID value for every configurable leaf.\<close>

definition zero_params :: "td_env \<Rightarrow> td_params" where
  "zero_params E = \<lparr>tp_attributes = 0, tp_xfam = 0, tp_max_vcpus = 0, tp_eptp_controls = 0, tp_exec_controls = 0,
     tp_tsc_frequency = 0, tp_mrconfigid = [], tp_mrowner = [], tp_mrownerconfig = [],
     tp_cpuid_values = replicate (length (cpuid_configs (tdx_info_of E)))
       \<lparr>val_eax = 0, val_ebx = 0, val_ecx = 0, val_edx = 0\<rparr>\<rparr>"

section \<open>The check of CPUID values\<close>

definition config_differs :: "kvm_tdx_cpuid_config \<Rightarrow> kvm_cpuid_entry2 \<Rightarrow> kvm_cpuid_entry2 \<Rightarrow> bool" where
  "config_differs c old new \<longleftrightarrow>
     (ent_eax old XOR ent_eax new) AND c_eax c \<noteq> 0 \<or> (ent_ebx old XOR ent_ebx new) AND c_ebx c \<noteq> 0 \<or>
     (ent_ecx old XOR ent_ecx new) AND c_ecx c \<noteq> 0 \<or> (ent_edx old XOR ent_edx new) AND c_edx c \<noteq> 0"

fun check_cpuid_loop :: "td_env \<Rightarrow> kvm_cpuid_entry2 list \<Rightarrow> kvm_cpuid_entry2 list \<Rightarrow> kvm_tdx_cpuid_config list \<Rightarrow> int" where
  "check_cpuid_loop E olds news [] = 0"
| "check_cpuid_loop E olds news (c # cs) =
     (case (config_entry E olds c, config_entry E news c) of
        (Some old, None) \<Rightarrow> - EINVAL
      | (None, Some new) \<Rightarrow> - EINVAL
      | (None, None) \<Rightarrow> check_cpuid_loop E olds news cs
      | (Some old, Some new) \<Rightarrow> if config_differs c old new then - EINVAL else check_cpuid_loop E olds news cs)"

text \<open>A TD that was not initialised has no entries.\<close>

definition cpuid_entries_of :: "kvm_tdx \<Rightarrow> kvm_cpuid_entry2 list" where
  "cpuid_entries_of k = (case td_cpuid k of Some es \<Rightarrow> es | None \<Rightarrow> [])"

definition tdx_vcpu_check_cpuid :: "td_env \<Rightarrow> kvm_cpuid_entry2 list \<Rightarrow> td_host \<Rightarrow> int" where
  "tdx_vcpu_check_cpuid E e2 s =
     check_cpuid_loop E (cpuid_entries_of (td s)) e2 (cpuid_configs (tdx_info_of E))"

end
