(* ===== verification/Tdx_Life.thy ===== *)
theory Tdx_Life
  imports Tdx_Params
begin

text \<open>
  The life of a TD and of its virtual processors in src/tetd_x86/tetd_h_g/host/kvm/tdx.c: which processor a virtual
  one is associated with, the release of the key id, the teardown, the creation, and the commands of
  the user that reach them. A function whose loops may not end gives \<open>None\<close> when they do not.
\<close>

section \<open>Association of virtual processors\<close>

definition tdx_disassociate_vp :: "nat \<Rightarrow> td_host \<Rightarrow> td_host" where
  "tdx_disassociate_vp v s =
     (let s = s\<lparr>associated := (\<lambda>c. removeAll v (associated s c))\<rparr> in set_vcpu v (vcpu_cpu_update (\<lambda>_. - 1)) s)"

text \<open>\<open>smp_call_function_single\<close> runs a function on a processor that is online.\<close>

definition smp_call_function_single :: "td_env \<Rightarrow> int \<Rightarrow> (nat \<Rightarrow> td_host \<Rightarrow> 'a \<times> td_host) \<Rightarrow> 'a \<Rightarrow> td_host \<Rightarrow> 'a \<times> td_host" where
  "smp_call_function_single E cpu f none s = (if cpu \<ge> 0 \<and> nat cpu \<in> set (online_cpus E) then f (nat cpu) s else (none, s))"

definition tdx_disassociate_vp_on_cpu :: "td_env \<Rightarrow> nat \<Rightarrow> td_host \<Rightarrow> td_host" where
  "tdx_disassociate_vp_on_cpu E v s =
     (let cpu = vcpu_cpu (vcpus s ! v)
      in if cpu = - 1 then s
         else snd (smp_call_function_single E cpu (\<lambda>_ s. ((), tdx_disassociate_vp v s)) () s))"

definition tdx_flush_vp :: "td_env \<Rightarrow> nat \<Rightarrow> nat \<Rightarrow> td_host \<Rightarrow> u64 \<times> td_host" where
  "tdx_flush_vp E v this_cpu s =
     (if vcpu_cpu (vcpus s ! v) \<noteq> int this_cpu then (0, s)
      else if is_td_vcpu_created (vcpus s ! v) then
        (case tdh E (Tdh_vp_flush this_cpu (tdvpr_pa (vcpus s ! v))) s of (err, out, s) \<Rightarrow>
           (if err \<noteq> 0 \<and> err \<noteq> TDX_VCPU_NOT_ASSOCIATED E then err else 0, tdx_disassociate_vp v s))
      else (0, tdx_disassociate_vp v s))"

definition tdx_flush_vp_on_cpu :: "td_env \<Rightarrow> nat \<Rightarrow> td_host \<Rightarrow> td_host" where
  "tdx_flush_vp_on_cpu E v s =
     (let cpu = vcpu_cpu (vcpus s ! v)
      in if cpu = - 1 then s
         else let (err, s) = smp_call_function_single E cpu (tdx_flush_vp E v) 0 s in warn_on_once (err \<noteq> 0) s)"

definition tdx_hardware_disable :: "td_env \<Rightarrow> nat \<Rightarrow> td_host \<Rightarrow> td_host" where
  "tdx_hardware_disable E this_cpu s = fold (\<lambda>v s. snd (tdx_flush_vp E v this_cpu s)) (associated s this_cpu) s"

text \<open>
  The posted interrupts that the first call serves are another part of KVM. The caller in x86.c sets
  \<open>vcpu->cpu\<close> afterwards.
\<close>

definition tdx_vcpu_load :: "td_env \<Rightarrow> nat \<Rightarrow> nat \<Rightarrow> td_host \<Rightarrow> td_host" where
  "tdx_vcpu_load E v cpu s =
     (if vcpu_cpu (vcpus s ! v) = int cpu then s
      else let s = tdx_flush_vp_on_cpu E v s in s\<lparr>associated := (associated s)(cpu := v # associated s cpu)\<rparr>)"

section \<open>Release of the key id\<close>

partial_function (option) cache_wb_loop :: "td_env \<Rightarrow> nat \<Rightarrow> u64 \<Rightarrow> td_host \<Rightarrow> (u64 \<times> td_host) option" where
  "cache_wb_loop E cpu err s =
     (case tdh E (Tdh_phymem_cache_wb cpu (err \<noteq> 0)) s of (err, out, s) \<Rightarrow>
        if err = TDX_INTERRUPTED_RESUMABLE E then cache_wb_loop E cpu err s else Some (err, s))"

declare cache_wb_loop.simps [code]

definition tdx_do_tdh_phymem_cache_wb :: "td_env \<Rightarrow> nat \<Rightarrow> td_host \<Rightarrow> td_host option" where
  "tdx_do_tdh_phymem_cache_wb E cpu s = do {
     (err, s) \<leftarrow> cache_wb_loop E cpu 0 s;
     Some (warn_on_once (err \<noteq> 0 \<and> err \<noteq> TDX_NO_HKID_READY_TO_WBCACHE E) s)
   }"

text \<open>The processors on which the caches are written back; \<open>seen\<close> are the packages of the mask.\<close>

fun wb_targets :: "td_env \<Rightarrow> bool \<Rightarrow> nat list \<Rightarrow> nat list \<Rightarrow> nat list" where
  "wb_targets E packages_allocated seen [] = []"
| "wb_targets E packages_allocated seen (i # cpus) =
     (if packages_allocated \<and> package_id E i \<in> set seen then wb_targets E packages_allocated seen cpus
      else i # wb_targets E packages_allocated (package_id E i # seen) cpus)"

fun cache_wb_on_cpus :: "td_env \<Rightarrow> nat list \<Rightarrow> td_host \<Rightarrow> td_host option" where
  "cache_wb_on_cpus E [] s = Some s"
| "cache_wb_on_cpus E (i # cpus) s = do { s \<leftarrow> tdx_do_tdh_phymem_cache_wb E i s; cache_wb_on_cpus E cpus s }"

definition flush_vcpus :: "td_env \<Rightarrow> td_host \<Rightarrow> td_host" where
  "flush_vcpus E s = fold (tdx_flush_vp_on_cpu E) [0..<length (vcpus s)] s"

text \<open>\<open>__tdx_mmu_release_hkid\<close>, from the call that checks that all virtual processors are flushed to the label \<open>out\<close>.\<close>

definition release_hkid_locked :: "td_env \<Rightarrow> bool \<Rightarrow> bool \<Rightarrow> td_host \<Rightarrow> (int \<times> td_host) option" where
  "release_hkid_locked E packages_allocated targets_allocated s =
     (case tdh E (Tdh_mng_vpflushdone (tdr_pa (td s))) s of (err, _, s) \<Rightarrow>
        if err = TDX_FLUSHVP_NOT_DONE E then Some (- EBUSY, s)
        else if err \<noteq> 0 then Some (- EIO, warn_on_once True s)
        else do {
          s \<leftarrow> cache_wb_on_cpus E
            (if targets_allocated then wb_targets E packages_allocated [] (online_cpus E) else online_cpus E) s;
          (case tdh E (Tdh_mng_key_freeid (tdr_pa (td s))) s of (err, _, s) \<Rightarrow>
             Some (if err \<noteq> 0 then (- EIO, warn_on_once True s) else (0, tdx_hkid_free E s)))
        })"

definition tdx_mmu_release_hkid_once :: "td_env \<Rightarrow> td_host \<Rightarrow> (int \<times> td_host) option" where
  "tdx_mmu_release_hkid_once E s =
     (if \<not> is_hkid_assigned (td s) then Some (0, s)
      else if \<not> is_td_created (td s) then Some (0, tdx_hkid_free E s)
      else
        let (packages_allocated, s) = kmalloc E s; (targets_allocated, s) = kmalloc E s
        in do {
          (r, s) \<leftarrow> release_hkid_locked E packages_allocated targets_allocated (flush_vcpus E s);
          Some (r, kfree packages_allocated (kfree targets_allocated s))
        })"

partial_function (option) tdx_mmu_release_hkid :: "td_env \<Rightarrow> td_host \<Rightarrow> td_host option" where
  "tdx_mmu_release_hkid E s = do {
     (r, s) \<leftarrow> tdx_mmu_release_hkid_once E s;
     if r = - EBUSY then tdx_mmu_release_hkid E s else Some s
   }"

declare tdx_mmu_release_hkid.simps [code]

section \<open>Teardown\<close>

fun reclaim_control_pages :: "td_env \<Rightarrow> u64 list \<Rightarrow> td_host \<Rightarrow> td_host option" where
  "reclaim_control_pages E [] s = Some s"
| "reclaim_control_pages E (p # ps) s = do {
     s \<leftarrow> (if p \<noteq> 0 then tdx_reclaim_control_page E p s else Some s);
     reclaim_control_pages E ps s
   }"

definition free_tdcs_pages :: "td_env \<Rightarrow> td_host \<Rightarrow> td_host option" where
  "free_tdcs_pages E s =
     (case tdcs_pa (td s) of
        None \<Rightarrow> Some s
      | Some ps \<Rightarrow> do {
          s \<leftarrow> reclaim_control_pages E ps s;
          Some (set_td (tdcs_pa_update (\<lambda>_. None)) (kfree True s))
        })"

definition tdx_vm_free :: "td_env \<Rightarrow> td_host \<Rightarrow> td_host option" where
  "tdx_vm_free E s =
     (if is_hkid_assigned (td s) then Some s
      else do {
        s \<leftarrow> free_tdcs_pages E s;
        let tdr = tdr_pa (td s);
        if tdr = 0 then Some s
        else do {
          (r, s) \<leftarrow> tdx_reclaim_page_raw E tdr (PG_LEVEL_4K E) s;
          if r \<noteq> 0 then Some s
          else
            (case tdh E (Tdh_phymem_page_wbinvd (set_hkid_to_hpa E tdr (tdx_global_keyid E))) s of (err, _, s) \<Rightarrow>
               if err \<noteq> 0 then Some (warn_on_once True s)
               else
                 let s = tdx_clear_page E tdr (page_bytes E) s;
                     s = free_page_td (va_of E tdr) s;
                     s = set_td (tdr_pa_update (\<lambda>_. 0)) s
                 in Some (set_td (td_cpuid_update (\<lambda>_. None)) (kfree (td_cpuid (td s) \<noteq> None) s)))
        }
      })"

text \<open>\<open>tdx_vcpu_free\<close>: with the key id still assigned, the pages are leaked.\<close>

definition free_tdvpx_pages :: "td_env \<Rightarrow> nat \<Rightarrow> td_host \<Rightarrow> td_host option" where
  "free_tdvpx_pages E v s =
     (case tdvpx_pa (vcpus s ! v) of
        None \<Rightarrow> Some s
      | Some ps \<Rightarrow> do {
          s \<leftarrow> reclaim_control_pages E ps s;
          Some (set_vcpu v (tdvpx_pa_update (\<lambda>_. None)) (kfree True s))
        })"

definition tdx_vcpu_free :: "td_env \<Rightarrow> nat \<Rightarrow> td_host \<Rightarrow> td_host option" where
  "tdx_vcpu_free E v s =
     (let s = tdx_disassociate_vp_on_cpu E v s;
          s = warn_on_once (vcpu_cpu (vcpus s ! v) \<noteq> - 1) s
      in if is_hkid_assigned (td s) then
           Some (warn_on_once (tdvpr_pa (vcpus s ! v) \<noteq> 0) (warn_on_once (tdvpx_pa (vcpus s ! v) \<noteq> None) s))
         else do {
           s \<leftarrow> free_tdvpx_pages E v s;
           if tdvpr_pa (vcpus s ! v) \<noteq> 0 then do {
             s \<leftarrow> tdx_reclaim_control_page E (tdvpr_pa (vcpus s ! v)) s;
             Some (set_vcpu v (tdvpr_pa_update (\<lambda>_. 0)) s)
           } else Some s
         })"

section \<open>Creation of a TD\<close>

text \<open>
  The loop that allocates the pages of an array; \<open>pages\<close> has a zero for every page that is missing yet, and
  \<open>k\<close> is the index of the next one.
\<close>

fun alloc_control_pages :: "td_env \<Rightarrow> nat \<Rightarrow> nat \<Rightarrow> u64 list \<Rightarrow> td_host \<Rightarrow> bool \<times> u64 list \<times> td_host" where
  "alloc_control_pages E 0 k pages s = (True, pages, s)"
| "alloc_control_pages E (Suc n) k pages s =
     (let (va, s) = get_free_page_td E s
      in if va = 0 then (False, pages, s)
         else alloc_control_pages E n (Suc k) (pages[k := pa_of E va]) s)"

definition free_control_pages :: "td_env \<Rightarrow> u64 list \<Rightarrow> td_host \<Rightarrow> td_host" where
  "free_control_pages E pages s = fold (\<lambda>p s. if p \<noteq> 0 then free_page_td (va_of E p) s else s) pages s"

text \<open>The programming of the key in every package, on one processor of each; it stops at the first error.\<close>

definition tdx_do_tdh_mng_key_config :: "td_env \<Rightarrow> nat \<Rightarrow> td_host \<Rightarrow> (int \<times> td_host) option" where
  "tdx_do_tdh_mng_key_config E cpu s = do {
     (err, out, s) \<leftarrow> tdh_retry E (\<lambda>err. err = TDX_KEY_GENERATION_FAILED E) (Tdh_mng_key_config cpu (tdr_pa (td s))) s;
     Some (if err \<noteq> 0 then (- EIO, warn_on_once True s) else (0, s))
   }"

fun key_config_loop :: "td_env \<Rightarrow> nat list \<Rightarrow> nat list \<Rightarrow> int \<Rightarrow> td_host \<Rightarrow> (int \<times> td_host) option" where
  "key_config_loop E packages [] ret s = Some (ret, s)"
| "key_config_loop E packages (i # cpus) ret s =
     (if package_id E i \<in> set packages then key_config_loop E packages cpus ret s
      else do {
        (ret, s) \<leftarrow> tdx_do_tdh_mng_key_config E i s;
        if ret \<noteq> 0 then Some (ret, s) else key_config_loop E (package_id E i # packages) cpus ret s
      })"

text \<open>The pages of the TD's control structure; the result has the index at which the loop has stopped.\<close>

fun addcx_loop :: "td_env \<Rightarrow> u64 list \<Rightarrow> nat \<Rightarrow> td_host \<Rightarrow> int \<times> nat \<times> td_host" where
  "addcx_loop E [] i s = (0, i, s)"
| "addcx_loop E (p # ps) i s =
     (case tdh E (Tdh_mng_addcx (tdr_pa (td s)) p) s of (err, _, s) \<Rightarrow>
        if err = TDX_RND_NO_ENTROPY E then (- EBUSY, i, s)
        else if err \<noteq> 0 then (- EIO, i, warn_on_once True s)
        else addcx_loop E ps (Suc i) s)"

text \<open>
  The label \<open>teardown\<close>: pages from \<open>i\<close> on are freed and their entries zeroed, in the array that the TD
  has as its own if \<open>assigned\<close>.
\<close>

definition td_init_teardown :: "td_env \<Rightarrow> int \<Rightarrow> nat \<Rightarrow> u64 list \<Rightarrow> bool \<Rightarrow> td_host \<Rightarrow> (int \<times> td_host) option" where
  "td_init_teardown E ret i pages assigned s =
     (let s = free_control_pages E (drop i pages) s;
          pages = take i pages @ replicate (length pages - i) 0;
          s = (if assigned then set_td (tdcs_pa_update (\<lambda>_. Some pages)) s else s);
          s = kfree (tdcs_pa (td s) = None) s
      in do {
        s \<leftarrow> tdx_mmu_release_hkid E s;
        s \<leftarrow> tdx_vm_free E s;
        Some (ret, s)
      })"

definition td_init_free_hkid :: "td_env \<Rightarrow> int \<Rightarrow> td_host \<Rightarrow> int \<times> td_host" where
  "td_init_free_hkid E ret s = (ret, if is_hkid_assigned (td s) then tdx_hkid_free E s else s)"

definition td_init_free_tdr :: "td_env \<Rightarrow> int \<Rightarrow> u64 \<Rightarrow> td_host \<Rightarrow> int \<times> td_host" where
  "td_init_free_tdr E ret tdr s =
     (let s = (if tdr \<noteq> 0 then free_page_td (va_of E tdr) s else s)
      in td_init_free_hkid E ret (set_td (tdr_pa_update (\<lambda>_. 0)) s))"

definition td_init_free_tdcs :: "td_env \<Rightarrow> int \<Rightarrow> u64 list \<Rightarrow> u64 \<Rightarrow> td_host \<Rightarrow> int \<times> td_host" where
  "td_init_free_tdcs E ret pages tdr s =
     (let s = kfree True (free_control_pages E pages s)
      in td_init_free_tdr E ret tdr (set_td (tdcs_pa_update (\<lambda>_. None)) s))"

text \<open>The steps after the creation of the TD by the module.\<close>

definition td_init_configure :: "td_env \<Rightarrow> td_params \<Rightarrow> int \<Rightarrow> u64 list \<Rightarrow> td_host \<Rightarrow> (int \<times> u64 \<times> td_host) option" where
  "td_init_configure E tp ret pages s = do {
     (ret, s) \<leftarrow> key_config_loop E [] (online_cpus E) ret s;
     let s = kfree True s;
     if ret \<noteq> 0 then do { (ret, s) \<leftarrow> td_init_teardown E ret 0 pages False s; Some (ret, 0, s) }
     else
       let s = set_td (tdcs_pa_update (\<lambda>_. Some pages)) s;
           (ret, i, s) = addcx_loop E pages 0 s
       in if ret \<noteq> 0 then do { (ret, s) \<leftarrow> td_init_teardown E ret i pages True s; Some (ret, 0, s) }
          else
            (case tdh E (Tdh_mng_init (tdr_pa (td s)) tp) s of (err, _, s) \<Rightarrow>
               if err AND TDX_SEAMCALL_STATUS_MASK E = TDX_OPERAND_INVALID E then do {
                 (ret, s) \<leftarrow> td_init_teardown E (- EINVAL) i pages True s; Some (ret, err, s) }
               else if err \<noteq> 0 then do {
                 (ret, s) \<leftarrow> td_init_teardown E (- EIO) i pages True (warn_on_once True s); Some (ret, 0, s) }
               else Some (0, 0, s\<lparr>apicv_inhibited := True\<rparr>))
   }"

text \<open>The part of \<open>__tdx_td_init\<close> that follows the allocation of the pages.\<close>

definition with_status :: "u64 \<Rightarrow> int \<times> td_host \<Rightarrow> int \<times> u64 \<times> td_host" where
  "with_status err rs = (fst rs, err, snd rs)"

definition td_init_create :: "td_env \<Rightarrow> td_params \<Rightarrow> int \<Rightarrow> u64 \<Rightarrow> u64 list \<Rightarrow> td_host \<Rightarrow> (int \<times> u64 \<times> td_host) option" where
  "td_init_create E tp ret tdr pages s =
     (let (mask, s) = kmalloc E s
      in if \<not> mask then Some (with_status 0 (td_init_free_tdcs E (- ENOMEM) pages tdr s))
         else if \<not> package_id E ` set (present_cpus E) \<subseteq> package_id E ` set (online_cpus E) then
           Some (with_status 0 (td_init_free_tdcs E (- EIO) pages tdr (kfree True s)))
         else
           (case tdh E (Tdh_mng_create tdr (hkid (td s))) s of (err, _, s) \<Rightarrow>
              if err = TDX_RND_NO_ENTROPY E then
                Some (with_status 0 (td_init_free_tdcs E (- EAGAIN) pages tdr (kfree True s)))
              else if err \<noteq> 0 then
                Some (with_status 0 (td_init_free_tdcs E (- EIO) pages tdr (kfree True (warn_on_once True s))))
              else td_init_configure E tp ret pages (set_td (tdr_pa_update (\<lambda>_. tdr)) s)))"

text \<open>\<open>__tdx_td_init\<close>: the result, and the status of the module that the user is told.\<close>

definition tdx_td_init_inner :: "td_env \<Rightarrow> td_params \<Rightarrow> td_host \<Rightarrow> (int \<times> u64 \<times> td_host) option" where
  "tdx_td_init_inner E tp s =
     (let (ret, s) = tdx_guest_keyid_alloc E s
      in if ret < 0 then Some (ret, 0, s)
         else
           let s = (set_td (hkid_update (\<lambda>_. ret)) s)\<lparr>nr_configured_hkid := nr_configured_hkid s + 1\<rparr>;
               (va, s) = get_free_page_td E s
           in if va = 0 then Some (with_status 0 (td_init_free_hkid E ret s))
              else
                let tdr = pa_of E va;
                    (array, s) = kmalloc E s;
                    n = unat (nr_tdcs_pages (tdx_info_of E))
                in if \<not> array then Some (with_status 0 (td_init_free_tdr E ret tdr s))
                   else
                     let (ok, pages, s) = alloc_control_pages E n 0 (replicate n 0) s
                     in if \<not> ok then Some (with_status 0 (td_init_free_tdcs E ret pages tdr s))
                        else td_init_create E tp ret tdr pages s)"

section \<open>The command that creates a TD\<close>

text \<open>
  What the user's memory holds when the command reads it; \<open>None\<close> is a failing copy. \<open>user_entries\<close> are the
  CPUID entries behind the fixed part.
\<close>

record td_user =
  user_init_vm :: "u64 \<Rightarrow> kvm_tdx_init_vm option"
  user_entries :: "u64 \<Rightarrow> u32 \<Rightarrow> kvm_cpuid_entry2 list option"

record kvm_tdx_cmd =
  cmd_id :: u32
  cmd_flags :: u32
  cmd_data :: u64
  cmd_error :: u64

definition read_init_vm :: "td_env \<Rightarrow> td_user \<Rightarrow> u64 \<Rightarrow> int \<times> kvm_tdx_init_vm option" where
  "read_init_vm E U data =
     (case user_init_vm U data of
        None \<Rightarrow> (- EFAULT, None)
      | Some iv \<Rightarrow>
          if iv_nent iv > KVM_MAX_CPUID_ENTRIES E then (- E2BIG, None)
          else (case user_entries U data (iv_nent iv) of
             None \<Rightarrow> (- EFAULT, None)
           | Some es \<Rightarrow>
               if \<exists>x \<in> set (iv_reserved iv). x \<noteq> 0 then (- EINVAL, None)
               else if iv_padding iv \<noteq> 0 then (- EINVAL, None)
               else (0, Some (iv\<lparr>iv_entries := es\<rparr>))))"

text \<open>The label \<open>out\<close>.\<close>

definition td_init_out :: "bool \<Rightarrow> bool \<Rightarrow> int \<Rightarrow> u64 \<Rightarrow> td_host \<Rightarrow> int \<times> u64 \<times> td_host" where
  "td_init_out got_init_vm got_params ret err s =
     (let s = (if ret \<noteq> 0 then set_td (td_cpuid_update (\<lambda>_. None)) (kfree (td_cpuid (td s) \<noteq> None) s) else s)
      in (ret, err, kfree got_params (kfree got_init_vm s)))"

definition tdx_td_init :: "td_env \<Rightarrow> td_user \<Rightarrow> kvm_tdx_cmd \<Rightarrow> td_host \<Rightarrow> (int \<times> u64 \<times> td_host) option" where
  "tdx_td_init E U cmd s =
     (if is_hkid_assigned (td s) then Some (- EINVAL, cmd_error cmd, s)
      else if cmd_flags cmd \<noteq> 0 then Some (- EINVAL, cmd_error cmd, s)
      else
        let (ok, s) = kmalloc E (warn_on_once (td_cpuid (td s) \<noteq> None) s)
        in if \<not> ok then Some (- ENOMEM, cmd_error cmd, set_td (td_cpuid_update (\<lambda>_. None)) s)
           else
             let s = set_td (td_cpuid_update (\<lambda>_. Some [])) s;
                 (ok, s) = kmalloc E s
             in if \<not> ok then Some (td_init_out False False (- ENOMEM) (cmd_error cmd) s)
                else
                  (case read_init_vm E U (cmd_data cmd) of
                     (ret, None) \<Rightarrow> Some (td_init_out True False ret (cmd_error cmd) s)
                   | (_, Some init_vm) \<Rightarrow>
                       let (ok, s) = kmalloc E s
                       in if \<not> ok then Some (td_init_out True False (- ENOMEM) (cmd_error cmd) s)
                          else
                            let (ret, tp, s) = setup_tdparams E (zero_params E) init_vm s
                            in if ret \<noteq> 0 then Some (td_init_out True True ret (cmd_error cmd) s)
                               else do {
                                 (ret, err, s) \<leftarrow> tdx_td_init_inner E tp s;
                                 if ret \<noteq> 0 then Some (td_init_out True True ret err s)
                                 else
                                   let s = set_td (\<lambda>k. k\<lparr>td_tsc_offset := td_tsc_offset_answer E (td_log s),
                                         td_attributes := tp_attributes tp, td_xfam := tp_xfam tp\<rparr>) s;
                                       s = s\<lparr>gfn_shared_mask :=
                                         (if tp_exec_controls tp AND TDX_EXEC_CONTROL_MAX_GPAW E \<noteq> 0
                                          then gpa_to_gfn_td E (push_bit 51 1) else gpa_to_gfn_td E (push_bit 47 1))\<rparr>
                                   in Some (td_init_out True True 0 err s)
                               }))"

end
