(* ===== verification/Tdx_Sept.thy ===== *)
theory Tdx_Sept
  imports Tdx_Life
begin

text \<open>
  The private memory of a TD in src/tetd_x86/tetd_h_g/host/kvm/tdx.c: the callbacks of KVM's MMU on secure EPT
  entries and tables, TLB tracking, and the extension of the measurement.
\<close>

section \<open>Private pages\<close>

definition pin_pages :: "td_env \<Rightarrow> u64 \<Rightarrow> nat \<Rightarrow> td_host \<Rightarrow> td_host" where
  "pin_pages E pfn level s = fold (\<lambda>i. td_emit (Pinned (pfn + of_nat i))) [0..<KVM_PAGES_PER_HPAGE E level] s"

definition tdx_unpin :: "td_env \<Rightarrow> u64 \<Rightarrow> nat \<Rightarrow> td_host \<Rightarrow> td_host" where
  "tdx_unpin E pfn level s = fold (\<lambda>i. td_emit (Unpinned (pfn + of_nat i))) [0..<KVM_PAGES_PER_HPAGE E level] s"

definition tdx_mem_page_aug :: "td_env \<Rightarrow> u64 \<Rightarrow> nat \<Rightarrow> u64 \<Rightarrow> td_host \<Rightarrow> int \<times> td_host" where
  "tdx_mem_page_aug E gfn level pfn s =
     (let tdx_level = pg_level_to_tdx_sept_level E level;
          (err, out, s) = tdh E (Tdh_mem_page_aug (tdr_pa (td s)) (gfn_to_gpa_td E gfn) tdx_level (pfn_to_hpa E pfn)) s;
          (leaf, entry_pfn, sve) = sept_entry E (out_rcx out);
          (state_level, state) = sept_level_state E (out_rdx out)
      in if err = TDX_ERROR_SEPT_BUSY E then (- EAGAIN, tdx_unpin E pfn level s)
         else if err = (TDX_EPT_ENTRY_STATE_INCORRECT E OR TDX_OPERAND_ID_RCX E) \<and>
             state_level = tdx_level \<and> state = TDX_SEPT_PENDING E \<and> leaf \<and> entry_pfn = pfn \<and> sve then
           (- EAGAIN, warn_on_once (td_attributes (td s) AND TDX_TD_ATTR_SEPT_VE_DISABLE E = 0) (tdx_unpin E pfn level s))
         else if err \<noteq> 0 then (- EIO, tdx_unpin E pfn level (kvm_bug_on True s))
         else (0, s))"

definition tdx_mem_page_add :: "td_env \<Rightarrow> u64 \<Rightarrow> nat \<Rightarrow> u64 \<Rightarrow> td_host \<Rightarrow> (int \<times> td_host) option" where
  "tdx_mem_page_add E gfn level pfn s =
     (if level \<noteq> PG_LEVEL_4K E then Some (- EINVAL, kvm_bug_on True s)
      else case source_page (td s) of
        None \<Rightarrow> Some (- EINVAL, tdx_unpin E pfn level (kvm_bug_on True s))
      | Some source \<Rightarrow> do {
          (err, out, s) \<leftarrow> tdh_retry E (\<lambda>err. err = TDX_ERROR_SEPT_BUSY E)
            (Tdh_mem_page_add (tdr_pa (td s)) (gfn_to_gpa_td E gfn) (pfn_to_hpa E pfn) (pfn_to_hpa E source)) s;
          Some (if err \<noteq> 0 then (- EIO, tdx_unpin E pfn level s) else (0, s))
        })"

definition tdx_sept_set_private_spte :: "td_env \<Rightarrow> u64 \<Rightarrow> nat \<Rightarrow> u64 \<Rightarrow> td_host \<Rightarrow> (int \<times> td_host) option" where
  "tdx_sept_set_private_spte E gfn level pfn s =
     (let s = pin_pages E pfn level s
      in if is_td_finalized (td s) then Some (tdx_mem_page_aug E gfn level pfn s)
         else tdx_mem_page_add E gfn level pfn s)"

text \<open>The write back and clearing of \<open>n\<close> pages from frame \<open>pfn\<close> at address \<open>hpa\<close> on; \<open>r\<close> is the result so far.\<close>

fun drop_pages_loop :: "td_env \<Rightarrow> nat \<Rightarrow> u64 \<Rightarrow> u64 \<Rightarrow> int \<Rightarrow> td_host \<Rightarrow> (int \<times> td_host) option" where
  "drop_pages_loop E 0 pfn hpa r s = Some (r, s)"
| "drop_pages_loop E (Suc n) pfn hpa r s = do {
     (err, out, s) \<leftarrow> tdh_retry E (\<lambda>err. err = (TDX_OPERAND_BUSY E OR TDX_OPERAND_ID_RCX E))
       (Tdh_phymem_page_wbinvd (set_hkid_to_hpa E hpa (word_of_int (hkid (td s))))) s;
     if err \<noteq> 0 then drop_pages_loop E n (pfn + 1) (hpa + page_bytes E) (- EIO) (kvm_bug_on True s)
     else drop_pages_loop E n (pfn + 1) (hpa + page_bytes E) r
            (tdx_unpin E pfn (PG_LEVEL_4K E) (tdx_clear_page E hpa (page_bytes E) s))
   }"

definition tdx_sept_drop_private_spte :: "td_env \<Rightarrow> u64 \<Rightarrow> nat \<Rightarrow> u64 \<Rightarrow> td_host \<Rightarrow> (int \<times> td_host) option" where
  "tdx_sept_drop_private_spte E gfn level pfn s =
     (let hpa = pfn_to_hpa E pfn
      in if \<not> is_hkid_assigned (td s) then do {
           (r, s) \<leftarrow> tdx_reclaim_page E hpa level s;
           Some (if r \<noteq> 0 then (- EIO, kvm_bug_on True s) else (0, tdx_unpin E pfn level s))
         }
         else do {
           (err, out, s) \<leftarrow> tdh_retry E (\<lambda>err. err = TDX_ERROR_SEPT_BUSY E)
             (Tdh_mem_page_remove (tdr_pa (td s)) (gfn_to_gpa_td E gfn) (pg_level_to_tdx_sept_level E level)) s;
           if err \<noteq> 0 then Some (- EIO, kvm_bug_on True s)
           else drop_pages_loop E (KVM_PAGES_PER_HPAGE E level) pfn hpa 0 s
         })"

section \<open>Secure EPT tables\<close>

text \<open>A table is given by its virtual address.\<close>

definition tdx_sept_link_private_spt :: "td_env \<Rightarrow> u64 \<Rightarrow> nat \<Rightarrow> u64 \<Rightarrow> td_host \<Rightarrow> int \<times> td_host" where
  "tdx_sept_link_private_spt E gfn level private_spt s =
     (case tdh E (Tdh_mem_sept_add (tdr_pa (td s)) (gfn_to_gpa_td E gfn) (pg_level_to_tdx_sept_level E level)
             (pa_of E private_spt)) s of (err, _, s) \<Rightarrow>
        if err = TDX_ERROR_SEPT_BUSY E then (- EAGAIN, s)
        else if err \<noteq> 0 then (- EIO, kvm_bug_on True s)
        else (0, s))"

definition tdx_sept_split_private_spt :: "td_env \<Rightarrow> u64 \<Rightarrow> nat \<Rightarrow> u64 \<Rightarrow> td_host \<Rightarrow> (int \<times> td_host) option" where
  "tdx_sept_split_private_spt E gfn level private_spt s = do {
     (err, out, s) \<leftarrow> tdh_retry E (\<lambda>err. err = TDX_INTERRUPTED_RESTARTABLE E)
       (Tdh_mem_page_demote (tdr_pa (td s)) (gfn_to_gpa_td E gfn AND KVM_HPAGE_MASK E level)
          (pg_level_to_tdx_sept_level E level) (pa_of E private_spt)) s;
     Some (if err = TDX_ERROR_SEPT_BUSY E then (- EAGAIN, s)
           else if err \<noteq> 0 then (- EIO, kvm_bug_on True s)
           else (0, s))
   }"

definition tdx_sept_merge_private_spt :: "td_env \<Rightarrow> u64 \<Rightarrow> nat \<Rightarrow> u64 \<Rightarrow> td_host \<Rightarrow> (int \<times> td_host) option" where
  "tdx_sept_merge_private_spt E gfn level private_spt s = do {
     (err, out, s) \<leftarrow> tdh_retry E (\<lambda>err. err = TDX_INTERRUPTED_RESTARTABLE E)
       (Tdh_mem_page_promote (tdr_pa (td s)) (gfn_to_gpa_td E gfn AND KVM_HPAGE_MASK E level)
          (pg_level_to_tdx_sept_level E level)) s;
     if err = TDX_ERROR_SEPT_BUSY E then Some (- EAGAIN, s)
     else if err = (TDX_EPT_INVALID_PROMOTE_CONDITIONS E OR TDX_OPERAND_ID_RCX E) then Some (- EAGAIN, s)
     else if err \<noteq> 0 then Some (- EIO, kvm_bug_on True s)
     else do {
       let s = warn_on_once (out_rcx out \<noteq> pa_of E private_spt) s;
       (err, out, s) \<leftarrow> tdh_retry E (\<lambda>err. err = (TDX_OPERAND_BUSY E OR TDX_OPERAND_ID_RCX E))
         (Tdh_phymem_page_wbinvd (set_hkid_to_hpa E (pa_of E private_spt) (word_of_int (hkid (td s))))) s;
       Some (if err \<noteq> 0 then (- EIO, warn_on_once True s)
             else (0, tdx_clear_page E (pa_of E private_spt) (page_bytes E) s))
     }
   }"

definition tdx_sept_zap_private_spte :: "td_env \<Rightarrow> u64 \<Rightarrow> nat \<Rightarrow> td_host \<Rightarrow> int \<times> td_host" where
  "tdx_sept_zap_private_spte E gfn level s =
     (if \<not> is_hkid_assigned (td s) then (0, s)
      else case tdh E (Tdh_mem_range_block (tdr_pa (td s)) (gfn_to_gpa_td E gfn AND KVM_HPAGE_MASK E level)
             (pg_level_to_tdx_sept_level E level)) s of (err, _, s) \<Rightarrow>
        if err = TDX_ERROR_SEPT_BUSY E then (- EAGAIN, s)
        else if err \<noteq> 0 then (- EIO, kvm_bug_on True s)
        else (0, s))"

definition tdx_sept_unzap_private_spte :: "td_env \<Rightarrow> u64 \<Rightarrow> nat \<Rightarrow> td_host \<Rightarrow> (int \<times> td_host) option" where
  "tdx_sept_unzap_private_spte E gfn level s = do {
     (err, out, s) \<leftarrow> tdh_retry E (\<lambda>err. err = (TDX_TLB_TRACKING_NOT_DONE E OR TDX_OPERAND_ID_SEPT E))
       (Tdh_mem_range_unblock (tdr_pa (td s)) (gfn_to_gpa_td E gfn AND KVM_HPAGE_MASK E level)
          (pg_level_to_tdx_sept_level E level)) s;
     Some (if err = TDX_ERROR_SEPT_BUSY E then (- EAGAIN, s)
           else if err \<noteq> 0 then (- EIO, kvm_bug_on True s)
           else (0, s))
   }"

definition tdx_sept_free_private_spt :: "td_env \<Rightarrow> u64 \<Rightarrow> nat \<Rightarrow> u64 \<Rightarrow> td_host \<Rightarrow> (int \<times> td_host) option" where
  "tdx_sept_free_private_spt E gfn level private_spt s =
     (if \<not> is_hkid_assigned (td s) then tdx_reclaim_page E (pa_of E private_spt) (PG_LEVEL_4K E) s
      else Some (- EINVAL, kvm_bug_on True s))"

section \<open>TLB tracking\<close>

definition tdx_track :: "td_env \<Rightarrow> td_host \<Rightarrow> td_host option" where
  "tdx_track E s =
     (let s = kvm_bug_on (\<not> is_hkid_assigned (td s)) s
      in if \<not> is_td_finalized (td s) then Some s
         else do {
           let s = td_emit Tlb_request (set_td (\<lambda>k. k\<lparr>tdh_mem_track := tdh_mem_track k + 1\<rparr>) s);
           (err, out, s) \<leftarrow> tdh_retry E (\<lambda>err. err AND TDX_SEAMCALL_STATUS_MASK E = TDX_OPERAND_BUSY E)
             (Tdh_mem_track (tdr_pa (td s))) s;
           Some (kvm_bug_on (err \<noteq> 0) (set_td (\<lambda>k. k\<lparr>tdh_mem_track := tdh_mem_track k - 1\<rparr>) s))
         })"

definition tdx_sept_flush_remote_tlbs :: "td_env \<Rightarrow> bool \<Rightarrow> td_host \<Rightarrow> (int \<times> td_host) option" where
  "tdx_sept_flush_remote_tlbs E is_td s =
     (if \<not> is_td then Some (- EOPNOTSUPP, s)
      else do { s \<leftarrow> (if is_hkid_assigned (td s) then tdx_track E s else Some s); Some (0, s) })"

definition tdx_flush_tlb_current :: "td_env \<Rightarrow> td_host \<Rightarrow> td_host option" where
  "tdx_flush_tlb_current E s = tdx_track E s"

definition tdx_sept_remove_private_spte :: "td_env \<Rightarrow> u64 \<Rightarrow> nat \<Rightarrow> u64 \<Rightarrow> td_host \<Rightarrow> (int \<times> td_host) option" where
  "tdx_sept_remove_private_spte E gfn level pfn s = do {
     s \<leftarrow> (if is_hkid_assigned (td s) then tdx_track E s else Some s);
     tdx_sept_drop_private_spte E gfn level pfn s
   }"

end
