(* ===== verification/Tdx_Ioctl.thy ===== *)
theory Tdx_Ioctl
  imports Tdx_Sept
begin

text \<open>
  The commands of the user on a TD and on its virtual processors in src/tetd_x86/tetd_h_g/host/kvm/tdx.c: its
  capabilities, the initial memory and its measurement, finalisation, the virtual processors, and
  the processors that may go offline.
\<close>

section \<open>Capabilities\<close>

record kvm_tdx_capabilities =
  attrs_fixed0 :: u64
  attrs_fixed1 :: u64
  caps_xfam_fixed0 :: u64
  caps_xfam_fixed1 :: u64
  supported_gpaw :: u64
  nr_cpuid_configs :: u64

text \<open>
  The memory of the user beyond what \<open>td_user\<close> has: \<open>user_nr_configs\<close> is the size of its table of leaves, and
  the last two say whether a write to an address succeeds.
\<close>

record kvm_memory_mapping =
  map_base_gfn :: u64
  map_nr_pages :: u64
  map_source :: u64

record td_user_memory = td_user +
  user_nr_configs :: "u64 \<Rightarrow> u64 option"
  user_mapping :: "u64 \<Rightarrow> kvm_memory_mapping option"
  user_cmd :: "u64 \<Rightarrow> kvm_tdx_cmd option"
  user_writable :: "u64 \<Rightarrow> bool"
  user_configs_writable :: "u64 \<Rightarrow> bool"

text \<open>The result and what has been written to the user.\<close>

definition tdx_get_capabilities :: "td_env \<Rightarrow> 'a td_user_memory_scheme \<Rightarrow> kvm_tdx_cmd \<Rightarrow> td_host \<Rightarrow>
    int \<times> (kvm_tdx_capabilities \<times> kvm_tdx_cpuid_config list) option \<times> td_host" where
  "tdx_get_capabilities E U cmd s =
     (if cmd_flags cmd \<noteq> 0 then (- EINVAL, None, s)
      else
        let (ok, s) = kmalloc E s; info = tdx_info_of E; n = of_nat (length (cpuid_configs info))
        in if \<not> ok then (- ENOMEM, None, s)
           else case user_nr_configs U (cmd_data cmd) of
             None \<Rightarrow> (- EFAULT, None, kfree True s)
           | Some nr \<Rightarrow>
               if nr < n then (- E2BIG, None, kfree True s)
               else
                 let caps = \<lparr>attrs_fixed0 = attributes_fixed0 info, attrs_fixed1 = attributes_fixed1 info,
                       caps_xfam_fixed0 = xfam_fixed0 info, caps_xfam_fixed1 = xfam_fixed1 info,
                       supported_gpaw = TDX_CAP_GPAW_48 E OR
                         (if shadow_phys_bits E \<ge> 52 \<and> cpu_has_vmx_ept_5levels E then TDX_CAP_GPAW_52 E else 0),
                       nr_cpuid_configs = n\<rparr>
                 in if \<not> user_writable U (cmd_data cmd) then (- EFAULT, None, kfree True s)
                    else if \<not> user_configs_writable U (cmd_data cmd) then (- EFAULT, Some (caps, []), kfree True s)
                    else (0, Some (caps, cpuid_configs info), kfree True s))"

section \<open>Initial memory\<close>

text \<open>\<open>source\<close> is the address of the page to be copied; the page is locked in memory until \<open>tdx_post_memory_mapping\<close>.\<close>

definition tdx_pre_memory_mapping :: "td_env \<Rightarrow> kvm_memory_mapping \<Rightarrow> td_host \<Rightarrow> int \<times> (u64 \<times> nat) option \<times> td_host" where
  "tdx_pre_memory_mapping E mapping s =
     (if map_source mapping = 0 then (- EINVAL, None, s)
      else if is_td_finalized (td s) then (- EINVAL, None, s)
      else
        let (r, page) = answer_user_page E (td_log s) (map_source mapping)
        in if r < 0 then (r, Some (sept_pferr E, PG_LEVEL_4K E), s)
           else if r \<noteq> 1 then (- ENOMEM, Some (sept_pferr E, PG_LEVEL_4K E), s)
           else (0, Some (sept_pferr E, PG_LEVEL_4K E), set_td (source_page_update (\<lambda>_. Some page)) (td_emit (Pinned page) s)))"

definition tdx_post_memory_mapping :: "td_host \<Rightarrow> td_host" where
  "tdx_post_memory_mapping s =
     (let s = (case source_page (td s) of Some page \<Rightarrow> td_emit (Unpinned page) s | None \<Rightarrow> s)
      in set_td (source_page_update (\<lambda>_. None)) s)"

definition tdx_gmem_max_level :: "td_env \<Rightarrow> bool \<Rightarrow> nat \<Rightarrow> nat" where
  "tdx_gmem_max_level E is_private max_level = (if \<not> is_private then max_level else min max_level (PG_LEVEL_2M E))"

section \<open>Measurement\<close>

text \<open>The chunks of a page; an error ends the loop.\<close>

fun extend_chunks :: "td_env \<Rightarrow> u64 \<Rightarrow> u64 list \<Rightarrow> td_host \<Rightarrow> bool \<times> td_host" where
  "extend_chunks E gpa [] s = (True, s)"
| "extend_chunks E gpa (i # is) s =
     (case tdh E (Tdh_mr_extend (tdr_pa (td s)) (gpa + i)) s of (err, _, s) \<Rightarrow>
        if err \<noteq> 0 then (False, s) else extend_chunks E gpa is s)"

definition chunk_offsets :: "td_env \<Rightarrow> u64 list" where
  "chunk_offsets E = map (\<lambda>k. of_nat k * TDX_EXTENDMR_CHUNKSIZE E)
     [0..<(unat (page_bytes E) + unat (TDX_EXTENDMR_CHUNKSIZE E) - 1) div unat (TDX_EXTENDMR_CHUNKSIZE E)]"

text \<open>The loop over \<open>n\<close> pages; the result has the number of pages left, the next frame and whether a page was done.\<close>

fun extend_memory_loop :: "td_env \<Rightarrow> nat \<Rightarrow> u64 \<Rightarrow> bool \<Rightarrow> int \<Rightarrow> td_host \<Rightarrow> int \<times> nat \<times> u64 \<times> bool \<times> td_host" where
  "extend_memory_loop E 0 gfn extended ret s = (ret, 0, gfn, extended, s)"
| "extend_memory_loop E (Suc n) gfn extended ret s =
     (if answer_signal E (td_log s) then (- ERESTARTSYS, Suc n, gfn, extended, s)
      else
        let (ok, s) = extend_chunks E (gfn_to_gpa_td E gfn) (chunk_offsets E) s
        in extend_memory_loop E n (gfn + 1) True (if ok then ret else - EIO) s)"

definition extend_mapping_invalid :: "td_env \<Rightarrow> u64 \<Rightarrow> kvm_memory_mapping \<Rightarrow> bool" where
  "extend_mapping_invalid E shared m \<longleftrightarrow>
     map_source m \<noteq> 0 \<or> map_nr_pages m = 0 \<or>
     map_nr_pages m AND push_bit (63 - page_bits E) (Bit_Operations.mask (page_bits E + 1)) \<noteq> 0 \<or>
     map_base_gfn m + push_bit (page_bits E) (map_nr_pages m) \<le> map_base_gfn m \<or>
     \<not> kvm_is_private_gpa E shared (map_base_gfn m) \<or>
     \<not> kvm_is_private_gpa E shared (map_base_gfn m + push_bit (page_bits E) (map_nr_pages m))"

definition tdx_extend_memory :: "td_env \<Rightarrow> 'a td_user_memory_scheme \<Rightarrow> kvm_tdx_cmd \<Rightarrow> td_host \<Rightarrow>
    int \<times> kvm_memory_mapping option \<times> td_host" where
  "tdx_extend_memory E U cmd s =
     (if is_td_finalized (td s) then (- EINVAL, None, s)
      else if cmd_flags cmd \<noteq> 0 then (- EINVAL, None, s)
      else case user_mapping U (cmd_data cmd) of
        None \<Rightarrow> (- EFAULT, None, s)
      | Some m \<Rightarrow>
          if extend_mapping_invalid E (gfn_shared_mask s) m then (- EINVAL, None, s)
          else
            let (ret, n, gfn, extended, s) = extend_memory_loop E (unat (map_nr_pages m)) (map_base_gfn m) False 0 s;
                ret = (if extended \<and> n > 0 then - EAGAIN else ret)
            in if \<not> user_writable U (cmd_data cmd) then (- EFAULT, None, s)
               else (ret, Some (m\<lparr>map_base_gfn := gfn, map_nr_pages := of_nat n\<rparr>), s))"

definition tdx_td_finalizemr :: "td_env \<Rightarrow> td_host \<Rightarrow> int \<times> td_host" where
  "tdx_td_finalizemr E s =
     (if \<not> is_hkid_assigned (td s) \<or> is_td_finalized (td s) then (- EINVAL, s)
      else case tdh E (Tdh_mr_finalize (tdr_pa (td s))) s of (err, _, s) \<Rightarrow>
        if err \<noteq> 0 then (- EIO, warn_on_once True s)
        else (0, set_td (finalized_update (\<lambda>_. True)) s))"

section \<open>The commands on a TD\<close>

definition tdx_vm_ioctl :: "td_env \<Rightarrow> 'a td_user_memory_scheme \<Rightarrow> u64 \<Rightarrow> td_host \<Rightarrow> (int \<times> td_host) option" where
  "tdx_vm_ioctl E U argp s =
     (case user_cmd U argp of
        None \<Rightarrow> Some (- EFAULT, s)
      | Some cmd \<Rightarrow>
          if cmd_error cmd \<noteq> 0 then Some (- EINVAL, s)
          else
            let done = (\<lambda>(r, s). (if \<not> user_writable U argp then - EFAULT else r, s))
            in if cmd_id cmd = KVM_TDX_CAPABILITIES E then
                 Some (done (case tdx_get_capabilities E U cmd s of (r, _, s) \<Rightarrow> (r, s)))
               else if cmd_id cmd = KVM_TDX_INIT_VM E then do {
                 (r, _, s) \<leftarrow> tdx_td_init E (td_user.truncate U) cmd s;
                 Some (done (r, s))
               }
               else if cmd_id cmd = KVM_TDX_EXTEND_MEMORY E then
                 Some (done (case tdx_extend_memory E U cmd s of (r, _, s) \<Rightarrow> (r, s)))
               else if cmd_id cmd = KVM_TDX_FINALIZE_VM E then Some (done (tdx_td_finalizemr E s))
               else Some (- EINVAL, s))"

section \<open>Virtual processors\<close>

text \<open>The pages from the failing one on are freed, and their entries zeroed in the array the processor has.\<close>

fun vp_addcx_loop :: "td_env \<Rightarrow> nat \<Rightarrow> u64 list \<Rightarrow> nat \<Rightarrow> td_host \<Rightarrow> int \<times> td_host" where
  "vp_addcx_loop E v [] i s = (0, s)"
| "vp_addcx_loop E v (p # ps) i s =
     (case tdh E (Tdh_vp_addcx (tdvpr_pa (vcpus s ! v)) p) s of (err, _, s) \<Rightarrow>
        if err \<noteq> 0 then
          let s = fold (\<lambda>q. free_page_td (va_of E q)) (p # ps) (kvm_bug_on True s)
          in (- EIO, set_vcpu v (\<lambda>x. x\<lparr>tdvpx_pa := map_option (\<lambda>a. take i a @ replicate (length a - i) 0) (tdvpx_pa x)\<rparr>) s)
        else vp_addcx_loop E v ps (Suc i) s)"

definition td_vcpu_init_free_tdvpr :: "td_env \<Rightarrow> nat \<Rightarrow> int \<Rightarrow> u64 \<Rightarrow> td_host \<Rightarrow> int \<times> td_host" where
  "td_vcpu_init_free_tdvpr E v ret tdvpr s =
     (ret, set_vcpu v (tdvpr_pa_update (\<lambda>_. 0)) (if tdvpr \<noteq> 0 then free_page_td (va_of E tdvpr) s else s))"

definition td_vcpu_init_free_tdvpx :: "td_env \<Rightarrow> nat \<Rightarrow> int \<Rightarrow> u64 list \<Rightarrow> u64 \<Rightarrow> td_host \<Rightarrow> int \<times> td_host" where
  "td_vcpu_init_free_tdvpx E v ret pages tdvpr s =
     (let s = kfree True (free_control_pages E pages s)
      in td_vcpu_init_free_tdvpr E v ret tdvpr (set_vcpu v (tdvpx_pa_update (\<lambda>_. None)) s))"

definition tdx_td_vcpu_init :: "td_env \<Rightarrow> nat \<Rightarrow> u64 \<Rightarrow> td_host \<Rightarrow> int \<times> td_host" where
  "tdx_td_vcpu_init E v vcpu_rcx s =
     (if is_td_vcpu_created (vcpus s ! v) then (- EINVAL, s)
      else
        let (va, s) = get_free_page_td E s
        in if va = 0 then (- ENOMEM, s)
           else
             let tdvpr = pa_of E va;
                 (array, s) = kmalloc E s;
                 n = unat (nr_tdvpx_pages (tdx_info_of E))
             in if \<not> array then td_vcpu_init_free_tdvpr E v (- ENOMEM) tdvpr s
                else
                  let (ok, pages, s) = alloc_control_pages E n 0 (replicate n 0) s
                  in if \<not> ok then td_vcpu_init_free_tdvpx E v (- ENOMEM) pages tdvpr s
                     else case tdh E (Tdh_vp_create (tdr_pa (td s)) tdvpr) s of (err, _, s) \<Rightarrow>
                       if err \<noteq> 0 then td_vcpu_init_free_tdvpx E v (- EIO) pages tdvpr (kvm_bug_on True s)
                       else
                         let s = set_vcpu v (\<lambda>x. x\<lparr>tdvpr_pa := tdvpr, tdvpx_pa := Some pages\<rparr>) s;
                             (ret, s) = vp_addcx_loop E v pages 0 s
                         in if ret \<noteq> 0 then (ret, s)
                            else case tdh E (Tdh_vp_init (tdvpr_pa (vcpus s ! v)) vcpu_rcx) s of (err, _, s) \<Rightarrow>
                              if err \<noteq> 0 then (- EIO, kvm_bug_on True s)
                              else (0, set_vcpu v (\<lambda>x. x\<lparr>apicv_active := False, mp_runnable := True, td_vcpu_created := True\<rparr>)
                                         (warn_on_once (\<not> apicv_inhibited s) s)))"

definition set_msr_common :: "td_env \<Rightarrow> nat \<Rightarrow> u32 \<Rightarrow> u64 \<Rightarrow> td_host \<Rightarrow> bool \<times> td_host" where
  "set_msr_common E v index data s = (answer_set_msr E (td_log s) v index data, td_emit (Set_msr v index data) s)"

fun init_mtrr_loop :: "td_env \<Rightarrow> nat \<Rightarrow> nat list \<Rightarrow> td_host \<Rightarrow> bool \<times> td_host" where
  "init_mtrr_loop E v [] s = (False, s)"
| "init_mtrr_loop E v (i # is) s =
     (let (failed, s) = set_msr_common E v (0x200 + 2 * of_nat i + 1) 0 s
      in if failed then (True, s) else init_mtrr_loop E v is s)"

definition tdx_vcpu_init_mtrr :: "td_env \<Rightarrow> nat \<Rightarrow> td_host \<Rightarrow> int \<times> td_host" where
  "tdx_vcpu_init_mtrr E v s =
     (let (failed, s) = init_mtrr_loop E v [0..<KVM_NR_VAR_MTRR E] s
      in if failed then (- EINVAL, s)
         else
           let (failed, s) = set_msr_common E v (MSR_MTRRdefType E) (push_bit 11 1 OR MTRR_TYPE_WRBACK E) s
           in (if failed then - EINVAL else 0, s))"

definition tdx_vcpu_ioctl :: "td_env \<Rightarrow> 'a td_user_memory_scheme \<Rightarrow> nat \<Rightarrow> u64 \<Rightarrow> td_host \<Rightarrow> int \<times> td_host" where
  "tdx_vcpu_ioctl E U v argp s =
     (if vcpu_initialized (vcpus s ! v) then (- EINVAL, s)
      else if \<not> is_hkid_assigned (td s) \<or> is_td_finalized (td s) then (- EINVAL, s)
      else case user_cmd U argp of
        None \<Rightarrow> (- EFAULT, s)
      | Some cmd \<Rightarrow>
          if cmd_error cmd \<noteq> 0 then (- EINVAL, s)
          else if cmd_flags cmd \<noteq> 0 \<or> cmd_id cmd \<noteq> KVM_TDX_INIT_VCPU E then (- EINVAL, s)
          else
            let base = APIC_DEFAULT_PHYS_BASE E OR LAPIC_MODE_X2APIC E OR (if is_reset_bsp E v then MSR_IA32_APICBASE_BSP E else 0);
                failed = answer_set_apic_base E (td_log s) v base;
                s = td_emit (Set_apic_base v base) s
            in if failed then (- EINVAL, s)
               else
                 let (ret, s) = tdx_vcpu_init_mtrr E v s
                 in if ret \<noteq> 0 then (ret, s)
                    else
                      let (ret, s) = tdx_td_vcpu_init E v (cmd_data cmd) s
                      in if ret \<noteq> 0 then (ret, s)
                         else
                           let s = td_emit (Vmcs_write v (POSTED_INTR_NV E) (POSTED_INTR_VECTOR E)) s;
                               s = td_emit (Vmcs_write v (POSTED_INTR_DESC_ADDR E) (pi_desc_pa E v)) s;
                               s = td_emit (Vmcs_setbit v (PIN_BASED_VM_EXEC_CONTROL E) (PIN_BASED_POSTED_INTR E)) s
                           in (0, set_vcpu v (vcpu_initialized_update (\<lambda>_. True)) s))"

section \<open>Processors that go offline\<close>

text \<open>\<open>mask_allocated\<close> is the success of \<open>zalloc_cpumask_var\<close>.\<close>

definition tdx_offline_cpu :: "td_env \<Rightarrow> bool \<Rightarrow> nat \<Rightarrow> td_host \<Rightarrow> int" where
  "tdx_offline_cpu E mask_allocated curr_cpu s =
     (if nr_configured_hkid s = 0 then 0
      else if \<not> mask_allocated then - ENOMEM
      else if package_id E curr_cpu \<notin> package_id E ` (set (online_cpus E) - {curr_cpu}) then - EBUSY
      else 0)"

end
