(* ===== verification/Tdx_Invariant.thy ===== *)
theory Tdx_Invariant
  imports Tdx_Ioctl
begin

text \<open>
  What most operations of the TDX host keep, whatever the module answers: the interface of an invariant that
  depends on the control pages, the key id, the finalisation and the log, and that every operation outside the
  creation and teardown of TDs and virtual processors preserves one.
\<close>

section \<open>A repeated call\<close>

lemma tdh_retry_log:
  assumes "tdh_retry E again c s = Some (err, out, s')"
  shows "\<exists>errs. s' = fold (\<lambda>e. td_emit (Tdh c e)) (errs @ [err]) s \<and> (\<forall>e \<in> set errs. again e) \<and> \<not> again err"
proof -
  have "\<exists>errs. snd (snd r) = fold (\<lambda>e. td_emit (Tdh c e)) (errs @ [fst r]) s \<and> (\<forall>e \<in> set errs. again e) \<and> \<not> again (fst r)"
    if "tdh_retry E again c s = Some r" for r
  proof (rule tdh_retry.raw_induct [OF _ that, where P = "\<lambda>E again c s r. \<exists>errs. snd (snd r) =
      fold (\<lambda>e. td_emit (Tdh c e)) (errs @ [fst r]) s \<and> (\<forall>e \<in> set errs. again e) \<and> \<not> again (fst r)"])
    fix rec E again c s r
    assume IH: "\<And>again c s b y. rec again c s b = Some y \<Longrightarrow> \<exists>errs. snd (snd y) =
        fold (\<lambda>e. td_emit (Tdh s e)) (errs @ [fst y]) b \<and> (\<forall>e \<in> set errs. c e) \<and> \<not> c (fst y)"
      and step: "(case tdh E c s of (err, out, s) \<Rightarrow> if again err then rec E again c s else Some (err, out, s)) = Some r"
    obtain e out1 s1 where t: "tdh E c s = (e, out1, s1)" by (rule prod_cases3)
    then have s1: "s1 = td_emit (Tdh c e) s" by simp
    show "\<exists>errs. snd (snd r) = fold (\<lambda>e. td_emit (Tdh c e)) (errs @ [fst r]) s \<and> (\<forall>e \<in> set errs. again e) \<and> \<not> again (fst r)"
    proof (cases "again e")
      case True
      then have "rec E again c s1 = Some r" using step t by simp
      from IH [OF this] obtain errs where "snd (snd r) = fold (\<lambda>e. td_emit (Tdh c e)) (errs @ [fst r]) s1"
        "\<forall>e \<in> set errs. again e" "\<not> again (fst r)" by blast
      then show ?thesis using True by (intro exI [of _ "e # errs"]) (simp add: s1)
    next
      case False
      then show ?thesis using step t by (intro exI [of _ "[]"]) (auto simp: s1)
    qed
  qed
  then show ?thesis using assms by fastforce
qed

section \<open>The interface\<close>

fun plain :: "td_event \<Rightarrow> bool" where
  "plain (Tdh c err) = False"
| "plain (Got_page va) = False"
| "plain (Freed_page va) = False"
| "plain (Ida_alloc k) = False"
| "plain (Ida_free k) = False"
| "plain _ = True"

text \<open>Calls that neither take a page nor move the life of the TD, with the phase in which the code makes them.\<close>

fun harmless :: "tdh_call \<Rightarrow> td_host \<Rightarrow> bool" where
  "harmless (Tdh_vp_create _ _) s = False"
| "harmless (Tdh_vp_addcx _ _) s = False"
| "harmless (Tdh_vp_init _ _) s = (\<not> is_td_finalized (td s))"
| "harmless (Tdh_mng_create _ _) s = False"
| "harmless (Tdh_mng_addcx _ _) s = False"
| "harmless (Tdh_mng_key_freeid _) s = False"
| "harmless (Tdh_mr_finalize _) s = False"
| "harmless (Tdh_mem_page_aug _ _ _ _) s = is_td_finalized (td s)"
| "harmless (Tdh_mem_track _) s = is_td_finalized (td s)"
| "harmless (Tdh_mem_page_add _ _ _ _) s = (\<not> is_td_finalized (td s))"
| "harmless (Tdh_mr_extend _ _) s = (\<not> is_td_finalized (td s))"
| "harmless (Tdh_mem_page_remove _ _ _) s = is_hkid_assigned (td s)"
| "harmless (Tdh_mem_range_block _ _ _) s = is_hkid_assigned (td s)"
| "harmless _ s = True"

text \<open>The part of the state that the invariants depend on.\<close>

definition vp_pages :: "vcpu_tdx \<Rightarrow> u64 \<times> u64 list option" where
  "vp_pages x = (tdvpr_pa x, tdvpx_pa x)"

definition core :: "td_host \<Rightarrow> u64 \<times> u64 list option \<times> int \<times> bool \<times> (u64 \<times> u64 list option) list \<times> int" where
  "core s = (tdr_pa (td s), tdcs_pa (td s), hkid (td s), finalized (td s), map vp_pages (vcpus s), nr_configured_hkid s)"

lemma td_emit_sel [simp]:
  "td (td_emit e s) = td s" "vcpus (td_emit e s) = vcpus s" "associated (td_emit e s) = associated s"
  "nr_configured_hkid (td_emit e s) = nr_configured_hkid s" "created_vcpus (td_emit e s) = created_vcpus s"
  "td_log (td_emit e s) = e # td_log s" "core (td_emit e s) = core s" "harmless c (td_emit e s) = harmless c s"
  "vm_bugged (td_emit e s) = vm_bugged s" "gfn_shared_mask (td_emit e s) = gfn_shared_mask s"
  by (simp_all add: td_emit_def core_def) (cases c, simp_all add: td_emit_def)

lemma set_td_sel [simp]:
  "td (set_td f s) = f (td s)" "vcpus (set_td f s) = vcpus s" "associated (set_td f s) = associated s"
  "nr_configured_hkid (set_td f s) = nr_configured_hkid s" "td_log (set_td f s) = td_log s"
  by (simp_all add: set_td_def)

lemma set_vcpu_sel [simp]:
  "td (set_vcpu v f s) = td s" "length (vcpus (set_vcpu v f s)) = length (vcpus s)"
  "associated (set_vcpu v f s) = associated s" "td_log (set_vcpu v f s) = td_log s"
  "nr_configured_hkid (set_vcpu v f s) = nr_configured_hkid s"
  "vcpus (set_vcpu v f s) ! w = (if w = v \<and> v < length (vcpus s) then f (vcpus s ! v) else vcpus s ! w)"
  by (auto simp: set_vcpu_def nth_list_update not_less list_update_beyond)

lemma warn_sel [simp]:
  "td (warn_on_once c s) = td s" "vcpus (warn_on_once c s) = vcpus s" "core (warn_on_once c s) = core s"
  "td (kvm_bug_on c s) = td s" "vcpus (kvm_bug_on c s) = vcpus s" "core (kvm_bug_on c s) = core s"
  "td (kfree b s) = td s" "vcpus (kfree b s) = vcpus s" "core (kfree b s) = core s"
  "td (free_page_td va s) = td s" "vcpus (free_page_td va s) = vcpus s" "core (free_page_td va s) = core s"
  "td (tdx_clear_page E p z s) = td s" "vcpus (tdx_clear_page E p z s) = vcpus s"
  "core (tdx_clear_page E p z s) = core s"
  by (simp_all add: warn_on_once_def kvm_bug_on_def kfree_def free_page_td_def tdx_clear_page_def core_def)

lemma core_set_vcpu: "(\<And>x. vp_pages (f x) = vp_pages x) \<Longrightarrow> core (set_vcpu v f s) = core s"
  unfolding core_def set_vcpu_def
  by (cases "v < length (vcpus s)")
    (simp_all add: map_update list_update_beyond list_update_same_conv)

lemma core_associated [simp]: "core (s\<lparr>associated := a\<rparr>) = core s"
  by (simp add: core_def)

locale td_invariant =
  fixes E :: td_env
    and I :: "td_host \<Rightarrow> bool"
  assumes event: "I s \<Longrightarrow> plain e \<Longrightarrow> I (td_emit e s)"
    and call: "I s \<Longrightarrow> harmless c s \<Longrightarrow> I (td_emit (Tdh c err) s)"
    and frame: "I s \<Longrightarrow> core s' = core s \<Longrightarrow> td_log s' = td_log s \<Longrightarrow> I s'"
begin

subsection \<open>Services\<close>

lemma services:
  "I s \<Longrightarrow> I (warn_on_once b s)" "I s \<Longrightarrow> I (kfree b s)" "I s \<Longrightarrow> I (snd (kmalloc E s))"
  "I s \<Longrightarrow> I (tdx_clear_page E p z s)"
  by (simp_all add: warn_on_once_def kfree_def kmalloc_def Let_def tdx_clear_page_def event)

lemma bug: "I s \<Longrightarrow> I (kvm_bug_on b s)"
  using frame [OF event [of s Td_warning]] by (simp add: kvm_bug_on_def core_def td_emit_def)

lemma fold_inv: "(\<And>x s. I s \<Longrightarrow> I (f x s)) \<Longrightarrow> I s \<Longrightarrow> I (fold f xs s)"
  by (induction xs arbitrary: s) auto

lemma pins: "I s \<Longrightarrow> I (pin_pages E pfn level s)" "I s \<Longrightarrow> I (tdx_unpin E pfn level s)"
  by (simp_all add: pin_pages_def tdx_unpin_def fold_inv event)

text \<open>A call that is repeated.\<close>

lemma retry:
  assumes "tdh_retry E again c s = Some (err, out, s')" "I s" "harmless c s"
  shows "I s' \<and> core s' = core s"
proof -
  obtain errs where s': "s' = fold (\<lambda>e. td_emit (Tdh c e)) (errs @ [err]) s" using tdh_retry_log [OF assms(1)] by blast
  have "I (fold (\<lambda>e. td_emit (Tdh c e)) es s) \<and> core (fold (\<lambda>e. td_emit (Tdh c e)) es s) = core s \<and>
      harmless c (fold (\<lambda>e. td_emit (Tdh c e)) es s)" for es
    using assms(2,3) by (induction es arbitrary: s) (simp_all add: call)
  then show ?thesis unfolding s' by blast
qed

lemma retryD:
  assumes "tdh_retry E again c s = Some r" "I s" "harmless c s"
  shows "I (snd (snd r)) \<and> core (snd (snd r)) = core s"
  using retry [of again c s "fst r" "fst (snd r)" "snd (snd r)"] assms by simp

subsection \<open>Virtual processors\<close>

lemma disassociate: "I s \<Longrightarrow> I (tdx_disassociate_vp v s)"
  by (rule frame [of s]) (simp_all add: tdx_disassociate_vp_def core_set_vcpu vp_pages_def)

lemma flush_vp: "I s \<Longrightarrow> I (snd (tdx_flush_vp E v cpu s))"
  by (auto simp: tdx_flush_vp_def tdh_def Let_def call disassociate split: prod.splits)

lemma on_cpu: "(\<And>c. I (snd (f c s))) \<Longrightarrow> I s \<Longrightarrow> I (snd (smp_call_function_single E cpu f none s))"
  by (simp add: smp_call_function_single_def)

lemma disassociate_on_cpu: "I s \<Longrightarrow> I (tdx_disassociate_vp_on_cpu E v s)"
  by (simp add: tdx_disassociate_vp_on_cpu_def Let_def on_cpu disassociate)

lemma flush_on_cpu: "I s \<Longrightarrow> I (tdx_flush_vp_on_cpu E v s)"
  using on_cpu [of "tdx_flush_vp E v" s "vcpu_cpu (vcpus s ! v)" 0]
  by (auto simp: tdx_flush_vp_on_cpu_def Let_def flush_vp services split: prod.splits)

lemma hardware_disable: "I s \<Longrightarrow> I (tdx_hardware_disable E cpu s)"
  unfolding tdx_hardware_disable_def by (rule fold_inv) (simp_all add: flush_vp)

lemma flush_vcpus: "I s \<Longrightarrow> I (flush_vcpus E s)"
  unfolding flush_vcpus_def by (rule fold_inv) (simp_all add: flush_on_cpu)

lemma vcpu_load: "I s \<Longrightarrow> I (tdx_vcpu_load E v cpu s)"
  using frame [OF flush_on_cpu [of s v] core_associated] by (simp add: tdx_vcpu_load_def Let_def)

lemma set_cpu: "I s \<Longrightarrow> I (set_vcpu v (vcpu_cpu_update f) s)"
  by (rule frame [of s]) (simp_all add: core_set_vcpu vp_pages_def)

subsection \<open>Write back and reclaim\<close>

lemma cache_wb_log:
  assumes "cache_wb_loop E cpu err s = Some r" "I s"
  shows "I (snd r) \<and> core (snd r) = core s"
proof -
  have "I s \<longrightarrow> I (snd r) \<and> core (snd r) = core s"
  proof (rule cache_wb_loop.raw_induct [OF _ assms(1), where P = "\<lambda>E cpu err s r. I s \<longrightarrow> I (snd r) \<and> core (snd r) = core s"],
      rule impI)
    fix rec E cpu err s r
    assume IH: "\<And>E cpu err s r. rec E cpu err s = Some r \<Longrightarrow> I s \<longrightarrow> I (snd r) \<and> core (snd r) = core s"
      and step: "(case tdh E (Tdh_phymem_cache_wb cpu (err \<noteq> 0)) s of (err, out, s) \<Rightarrow>
        if err = TDX_INTERRUPTED_RESUMABLE E then rec E cpu err s else Some (err, s)) = Some r"
      and I: "I s"
    obtain e out1 s1 where t: "tdh E (Tdh_phymem_cache_wb cpu (err \<noteq> 0)) s = (e, out1, s1)" by (rule prod_cases3)
    then have s1: "s1 = td_emit (Tdh (Tdh_phymem_cache_wb cpu (err \<noteq> 0)) e) s" by simp
    have I1: "I s1" using call [OF I, of "Tdh_phymem_cache_wb cpu (err \<noteq> 0)" e] by (simp add: s1)
    show "I (snd r) \<and> core (snd r) = core s"
    proof (cases "e = TDX_INTERRUPTED_RESUMABLE E")
      case True
      then have "rec E cpu e s1 = Some r" using step t by simp
      from IH [OF this] I1 show ?thesis by (simp add: s1)
    next
      case False
      then show ?thesis using step t I1 by (auto simp: s1)
    qed
  qed
  then show ?thesis using assms(2) by blast
qed

lemma cache_wb:
  assumes "tdx_do_tdh_phymem_cache_wb E cpu s = Some s'" "I s" shows "I s' \<and> core s' = core s"
  using assms cache_wb_log [of cpu 0 s]
  by (auto simp: tdx_do_tdh_phymem_cache_wb_def services bind_eq_Some_conv split: prod.splits)

lemma cache_wb_cpus:
  assumes "cache_wb_on_cpus E cpus s = Some s'" "I s" shows "I s' \<and> core s' = core s"
  using assms
proof (induction cpus arbitrary: s)
  case (Cons i cpus)
  then obtain s1 where "tdx_do_tdh_phymem_cache_wb E i s = Some s1" "cache_wb_on_cpus E cpus s1 = Some s'"
    by (auto simp: bind_eq_Some_conv)
  with cache_wb [of i s s1] Cons show ?case by auto
qed simp

lemma reclaim_raw:
  assumes "tdx_reclaim_page_raw E pa level s = Some (r, s')" "I s" shows "I s' \<and> core s' = core s"
  using assms retryD [of _ "Tdh_phymem_page_reclaim pa" s]
  by (auto simp: tdx_reclaim_page_raw_def bind_eq_Some_conv services split: if_splits)

lemma reclaim:
  assumes "tdx_reclaim_page E pa level s = Some (r, s')" "I s" shows "I s' \<and> core s' = core s"
  using assms reclaim_raw [of pa level s]
  by (auto simp: tdx_reclaim_page_def bind_eq_Some_conv services split: if_splits)

subsection \<open>Keys\<close>

lemma key_config:
  assumes "tdx_do_tdh_mng_key_config E cpu s = Some (r, s')" "I s" shows "I s' \<and> core s' = core s"
  using assms retryD [of _ "Tdh_mng_key_config a b" s for a b]
  by (auto simp: tdx_do_tdh_mng_key_config_def bind_eq_Some_conv services split: if_splits)

lemma key_config_loop:
  assumes "key_config_loop E seen cpus r s = Some (r', s')" "I s" shows "I s' \<and> core s' = core s"
  using assms
proof (induction cpus arbitrary: seen r s)
  case (Cons i cpus)
  show ?case
  proof (cases "package_id E i \<in> set seen")
    case True
    then show ?thesis using Cons by simp
  next
    case False
    then obtain r1 s1 where k: "tdx_do_tdh_mng_key_config E i s = Some (r1, s1)"
      using Cons.prems(1) by (auto simp: bind_eq_Some_conv)
    have "I s1 \<and> core s1 = core s" using key_config [OF k Cons.prems(2)] .
    then show ?thesis using Cons False k by (auto split: if_splits)
  qed
qed simp

subsection \<open>Private memory\<close>

lemma page_aug:
  assumes "I s" "is_td_finalized (td s)" shows "I (snd (tdx_mem_page_aug E gfn level pfn s))"
  using assms by (auto simp: tdx_mem_page_aug_def tdh_def Let_def call pins services bug split: prod.splits)

lemma page_add:
  assumes "tdx_mem_page_add E gfn level pfn s = Some (r, s')" "I s" "\<not> is_td_finalized (td s)"
  shows "I s'"
  using assms retryD [of _ "Tdh_mem_page_add a b c d" s for a b c d]
  by (auto simp: tdx_mem_page_add_def bind_eq_Some_conv pins bug split: if_splits option.splits)

lemma pin_td [simp]: "td (fold (\<lambda>i. td_emit (f i)) is s) = td s" "core (fold (\<lambda>i. td_emit (f i)) is s) = core s"
  by (induction "is" arbitrary: s) simp_all

lemma set_private:
  assumes "tdx_sept_set_private_spte E gfn level pfn s = Some (r, s')" "I s" shows "I s'"
proof -
  let ?s = "pin_pages E pfn level s"
  have I: "I ?s" using assms(2) by (rule pins)
  show ?thesis
  proof (cases "is_td_finalized (td ?s)")
    case True
    then show ?thesis using page_aug [OF I True, of gfn level pfn] assms(1)
      by (auto simp: tdx_sept_set_private_spte_def)
  next
    case False
    then show ?thesis using page_add [of gfn level pfn ?s r s'] I assms(1)
      by (simp add: tdx_sept_set_private_spte_def)
  qed
qed

lemma drop_loop:
  assumes "drop_pages_loop E n pfn hpa r s = Some (r', s')" "I s" shows "I s'"
  using assms
proof (induction n arbitrary: pfn hpa r s)
  case (Suc n)
  then obtain err out s1 where t: "tdh_retry E (\<lambda>err. err = (TDX_OPERAND_BUSY E OR TDX_OPERAND_ID_RCX E))
      (Tdh_phymem_page_wbinvd (set_hkid_to_hpa E hpa (word_of_int (hkid (td s))))) s = Some (err, out, s1)"
    by (auto simp: bind_eq_Some_conv)
  then have "I s1" using retry [OF t] Suc.prems(2) by simp
  then show ?case using Suc.prems(1) t Suc.IH by (auto simp: bug services pins split: if_splits)
qed simp

lemma drop:
  assumes "tdx_sept_drop_private_spte E gfn level pfn s = Some (r, s')" "I s" shows "I s'"
proof (cases "is_hkid_assigned (td s)")
  case True
  then obtain err out s1 where t: "tdh_retry E (\<lambda>err. err = TDX_ERROR_SEPT_BUSY E)
      (Tdh_mem_page_remove (tdr_pa (td s)) (gfn_to_gpa_td E gfn) (pg_level_to_tdx_sept_level E level)) s = Some (err, out, s1)"
    using assms(1) by (auto simp: tdx_sept_drop_private_spte_def bind_eq_Some_conv)
  then have "I s1" using retry [OF t] assms(2) True by simp
  then show ?thesis using assms(1) t True drop_loop
    by (auto simp: tdx_sept_drop_private_spte_def bug split: if_splits)
next
  case False
  then show ?thesis using assms reclaim
    by (auto simp: tdx_sept_drop_private_spte_def bind_eq_Some_conv bug pins split: if_splits)
qed

lemma link: "I s \<Longrightarrow> I (snd (tdx_sept_link_private_spt E gfn level spt s))"
  by (auto simp: tdx_sept_link_private_spt_def tdh_def Let_def call bug split: prod.splits)

lemma split:
  "tdx_sept_split_private_spt E gfn level spt s = Some (r, s') \<Longrightarrow> I s \<Longrightarrow> I s'"
  using retryD [of _ "Tdh_mem_page_demote a b c d" s for a b c d]
  by (auto simp: tdx_sept_split_private_spt_def bind_eq_Some_conv bug split: if_splits)

lemma merge:
  assumes "tdx_sept_merge_private_spt E gfn level spt s = Some (r, s')" "I s" shows "I s'"
proof -
  obtain err out s1 where t: "tdh_retry E (\<lambda>err. err = TDX_INTERRUPTED_RESTARTABLE E)
      (Tdh_mem_page_promote (tdr_pa (td s)) (gfn_to_gpa_td E gfn AND KVM_HPAGE_MASK E level)
        (pg_level_to_tdx_sept_level E level)) s = Some (err, out, s1)"
    using assms(1) by (auto simp: tdx_sept_merge_private_spt_def bind_eq_Some_conv)
  then have I: "I s1" using retry [OF t] assms(2) by simp
  show ?thesis
  proof (cases "err = TDX_ERROR_SEPT_BUSY E \<or> err = (TDX_EPT_INVALID_PROMOTE_CONDITIONS E OR TDX_OPERAND_ID_RCX E) \<or> err \<noteq> 0")
    case True
    then show ?thesis using assms(1) t I by (auto simp: tdx_sept_merge_private_spt_def bug split: if_splits)
  next
    case False
    let ?s = "warn_on_once (out_rcx out \<noteq> pa_of E spt) s1"
    obtain err2 out2 s2 where t2: "tdh_retry E (\<lambda>err. err = (TDX_OPERAND_BUSY E OR TDX_OPERAND_ID_RCX E))
        (Tdh_phymem_page_wbinvd (set_hkid_to_hpa E (pa_of E spt) (word_of_int (hkid (td ?s))))) ?s = Some (err2, out2, s2)"
      using assms(1) t False by (auto simp: tdx_sept_merge_private_spt_def bind_eq_Some_conv split: if_splits)
    then have "I s2" using retry [OF t2] services(1) [OF I] by simp
    then show ?thesis using assms(1) t t2 False
      by (auto simp: tdx_sept_merge_private_spt_def services split: if_splits)
  qed
qed

lemma zap: "I s \<Longrightarrow> I (snd (tdx_sept_zap_private_spte E gfn level s))"
  by (auto simp: tdx_sept_zap_private_spte_def tdh_def Let_def call bug split: prod.splits)

lemma unzap:
  "tdx_sept_unzap_private_spte E gfn level s = Some (r, s') \<Longrightarrow> I s \<Longrightarrow> I s'"
  using retryD [of _ "Tdh_mem_range_unblock a b c" s for a b c]
  by (auto simp: tdx_sept_unzap_private_spte_def bind_eq_Some_conv bug split: if_splits)

lemma free_spt:
  "tdx_sept_free_private_spt E gfn level spt s = Some (r, s') \<Longrightarrow> I s \<Longrightarrow> I s'"
  using reclaim by (auto simp: tdx_sept_free_private_spt_def bug split: if_splits)

lemma track:
  assumes "tdx_track E s = Some s'" "I s" shows "I s' \<and> finalized (td s') = finalized (td s) \<and> hkid (td s') = hkid (td s)"
proof -
  let ?s0 = "kvm_bug_on (\<not> is_hkid_assigned (td s)) s"
  have I0: "I ?s0" using assms(2) by (rule bug)
  show ?thesis
  proof (cases "is_td_finalized (td s)")
    case True
    let ?f = "set_td (\<lambda>k. k\<lparr>tdh_mem_track := tdh_mem_track k + 1\<rparr>) ?s0"
    have "core ?f = core ?s0" by (simp add: core_def)
    then have I1: "I (td_emit Tlb_request ?f)" using frame [OF I0, of ?f] by (simp add: event)
    obtain err out s1 where t: "tdh_retry E (\<lambda>err. err AND TDX_SEAMCALL_STATUS_MASK E = TDX_OPERAND_BUSY E)
        (Tdh_mem_track (tdr_pa (td s))) (td_emit Tlb_request ?f) = Some (err, out, s1)"
      using assms(1) True by (auto simp: tdx_track_def bind_eq_Some_conv)
    have s1: "I s1" "core s1 = core ?s0" using retry [OF t I1] True \<open>core ?f = core ?s0\<close> by (simp_all add: is_td_finalized_def)
    let ?g = "set_td (\<lambda>k. k\<lparr>tdh_mem_track := tdh_mem_track k - 1\<rparr>) s1"
    have "core ?g = core s1" by (simp add: core_def)
    moreover have "s' = kvm_bug_on (err \<noteq> 0) ?g" using assms(1) True t by (simp add: tdx_track_def)
    ultimately show ?thesis using bug [OF frame [OF s1(1), of ?g]] s1(2) by (simp add: core_def)
  next
    case False
    then show ?thesis using assms(1) I0 by (auto simp: tdx_track_def)
  qed
qed

lemma flush_remote_tlbs:
  "tdx_sept_flush_remote_tlbs E is_td s = Some (r, s') \<Longrightarrow> I s \<Longrightarrow> I s'"
  using track by (auto simp: tdx_sept_flush_remote_tlbs_def bind_eq_Some_conv split: if_splits)

lemma remove_private:
  assumes "tdx_sept_remove_private_spte E gfn level pfn s = Some (r, s')" "I s" shows "I s'"
proof -
  obtain s1 where "(if is_hkid_assigned (td s) then tdx_track E s else Some s) = Some s1"
    and d: "tdx_sept_drop_private_spte E gfn level pfn s1 = Some (r, s')"
    using assms(1) by (auto simp: tdx_sept_remove_private_spte_def bind_eq_Some_conv)
  then have "I s1" using track assms(2) by (auto split: if_splits)
  with d show ?thesis by (rule drop)
qed

subsection \<open>Commands\<close>

lemma capabilities: "I s \<Longrightarrow> I (snd (snd (tdx_get_capabilities E U cmd s)))"
  by (simp add: tdx_get_capabilities_def kmalloc_def Let_def services event split: option.splits)

lemma source_page_frame: "I s \<Longrightarrow> I (set_td (source_page_update f) s)"
  by (rule frame [of s]) (simp_all add: core_def)

lemma pre_mapping: "I s \<Longrightarrow> I (snd (snd (tdx_pre_memory_mapping E m s)))"
  by (auto simp: tdx_pre_memory_mapping_def Let_def source_page_frame event split: prod.splits)

lemma post_mapping: "I s \<Longrightarrow> I (tdx_post_memory_mapping s)"
  by (auto simp: tdx_post_memory_mapping_def Let_def source_page_frame event split: option.splits)

lemma extend_chunks:
  "I s \<Longrightarrow> \<not> is_td_finalized (td s) \<Longrightarrow>
   I (snd (extend_chunks E gpa is s)) \<and> td (snd (extend_chunks E gpa is s)) = td s"
  by (induction "is" arbitrary: s) (auto simp: tdh_def Let_def call split: prod.splits)

lemma extend_loop:
  "I s \<Longrightarrow> \<not> is_td_finalized (td s) \<Longrightarrow> I (snd (snd (snd (snd (extend_memory_loop E n gfn ext ret s)))))"
proof (induction n arbitrary: s gfn ext ret)
  case (Suc n)
  then show ?case
    using extend_chunks [of s "gfn_to_gpa_td E gfn" "chunk_offsets E"] by (auto simp: Let_def split: prod.splits)
qed simp

lemma extend_memory: "I s \<Longrightarrow> I (snd (snd (tdx_extend_memory E U cmd s)))"
  using extend_loop [of s] by (auto simp: tdx_extend_memory_def Let_def split: prod.splits option.splits) (metis snd_conv)+

lemma init_mtrr_loop: "I s \<Longrightarrow> I (snd (init_mtrr_loop E v is s))"
  by (induction "is" arbitrary: s) (auto simp: set_msr_common_def Let_def event)

lemma init_mtrr: "I s \<Longrightarrow> I (snd (tdx_vcpu_init_mtrr E v s))"
  using init_mtrr_loop [of s v "[0..<KVM_NR_VAR_MTRR E]"]
  by (auto simp: tdx_vcpu_init_mtrr_def set_msr_common_def Let_def event split: prod.splits)

end

text \<open>The core itself is such an invariant, so these operations do not change it.\<close>

interpretation cores: td_invariant E "\<lambda>s. core s = c" for E c
  by unfold_locales simp_all

end
