(* ===== verification/Tdx_Owner.thy ===== *)
theory Tdx_Owner
  imports Tdx_Invariant
begin

text \<open>
  Who owns the control pages, the key id and the contents of a TD: three monitors of the log, the invariant that
  ties their states to the data of KVM, and its preservation by the creation and teardown of TDs and
  virtual processors.
\<close>

section \<open>Control pages\<close>

text \<open>
  A page goes from the allocator to the host, from the host to the module by a successful call that takes it,
  back by a successful reclaim, and is the host's again only once its contents are cleared. The monitor rejects
  a page given to the module or to the allocator that the host does not own.
\<close>

datatype page_owner = Unallocated | Host_owned | Module_owned | Not_cleared

fun donated :: "tdh_call \<Rightarrow> u64 option" where
  "donated (Tdh_mng_create tdr k) = Some tdr"
| "donated (Tdh_mng_addcx tdr p) = Some p"
| "donated (Tdh_vp_create tdr p) = Some p"
| "donated (Tdh_vp_addcx tdvpr p) = Some p"
| "donated c = None"

fun reclaimed :: "tdh_call \<Rightarrow> u64 option" where
  "reclaimed (Tdh_phymem_page_reclaim p) = Some p"
| "reclaimed c = None"

fun own_step :: "td_env \<Rightarrow> td_event \<Rightarrow> (u64 \<Rightarrow> page_owner) \<Rightarrow> (u64 \<Rightarrow> page_owner) option" where
  "own_step E (Tdh c err) st =
     (if err \<noteq> 0 then Some st
      else case donated c of
        Some p \<Rightarrow> if st p = Host_owned then Some (st(p := Module_owned)) else None
      | None \<Rightarrow>
          (case reclaimed c of
             Some p \<Rightarrow> Some (if st p = Module_owned then st(p := Not_cleared) else st)
           | None \<Rightarrow> Some st))"
| "own_step E (Got_page va) st =
     (if va = 0 then Some st
      else if st (pa_of E va) = Unallocated then Some (st(pa_of E va := Host_owned)) else None)"
| "own_step E (Freed_page va) st =
     (if st (pa_of E va) = Host_owned then Some (st(pa_of E va := Unallocated)) else None)"
| "own_step E (Cleared p z) st = Some (if st p = Not_cleared then st(p := Host_owned) else st)"
| "own_step E e st = Some st"

abbreviation own_run :: "td_env \<Rightarrow> td_log \<Rightarrow> (u64 \<Rightarrow> page_owner) option" where
  "own_run E \<equiv> run_monitor (own_step E) (\<lambda>_. Unallocated)"

section \<open>The key id\<close>

text \<open>
  The key id that the TD holds, and the root page of the TD for which the module uses it. The monitor rejects a second
  key id, a TD created with another one, and a key id that is given back while the module uses it.
\<close>

fun key_step :: "td_event \<Rightarrow> int option \<times> u64 option \<Rightarrow> (int option \<times> u64 option) option" where
  "key_step (Ida_alloc k) (K, U) = (if k < 0 then Some (K, U) else if K = None then Some (Some k, U) else None)"
| "key_step (Ida_free k) (K, U) = (if K = Some k \<and> U = None then Some (None, None) else None)"
| "key_step (Tdh (Tdh_mng_create tdr k) err) (K, U) =
     (if err \<noteq> 0 then Some (K, U) else if K = Some k \<and> U = None then Some (K, Some tdr) else None)"
| "key_step (Tdh (Tdh_mng_key_freeid tdr) err) (K, U) = Some (K, if err = 0 \<and> U = Some tdr then None else U)"
| "key_step e st = Some st"

abbreviation key_run :: "td_log \<Rightarrow> (int option \<times> u64 option) option" where
  "key_run \<equiv> run_monitor key_step (None, None)"

section \<open>The contents of the TD\<close>

text \<open>
  Whether the measurement is finalised. The monitor rejects initial pages, measurements and virtual processors after that,
  and pages without contents and TLB tracking before.
\<close>

fun initial_call :: "tdh_call \<Rightarrow> bool" where
  "initial_call (Tdh_mem_page_add _ _ _ _) = True"
| "initial_call (Tdh_mr_extend _ _) = True"
| "initial_call (Tdh_vp_create _ _) = True"
| "initial_call (Tdh_vp_addcx _ _) = True"
| "initial_call (Tdh_vp_init _ _) = True"
| "initial_call c = False"

fun runtime_call :: "tdh_call \<Rightarrow> bool" where
  "runtime_call (Tdh_mem_page_aug _ _ _ _) = True"
| "runtime_call (Tdh_mem_track _) = True"
| "runtime_call c = False"

fun finalizes :: "tdh_call \<Rightarrow> bool" where
  "finalizes (Tdh_mr_finalize _) = True"
| "finalizes c = False"

fun fin_step :: "td_event \<Rightarrow> bool \<Rightarrow> bool option" where
  "fin_step (Tdh c err) F =
     (if initial_call c \<or> finalizes c then if F then None else Some (finalizes c \<and> err = 0)
      else if runtime_call c then if F then Some F else None
      else Some F)"
| "fin_step e F = Some F"

abbreviation fin_run :: "td_log \<Rightarrow> bool option" where
  "fin_run \<equiv> run_monitor fin_step False"

section \<open>The environment\<close>

text \<open>
  The allocator gives pages that are not in use, of the direct map; the pool gives key ids of its range; the
  status for missing entropy is an error.
\<close>

definition direct_map :: "td_env \<Rightarrow> u64 \<Rightarrow> bool" where
  "direct_map E p \<longleftrightarrow> p \<noteq> 0 \<and> pa_of E (va_of E p) = p \<and> va_of E p \<noteq> 0"

definition td_env_ok :: "td_env \<Rightarrow> bool" where
  "td_env_ok E \<longleftrightarrow>
     (\<forall>log st. own_run E log = Some st \<longrightarrow> answer_free_page E log \<noteq> 0 \<longrightarrow>
        direct_map E (pa_of E (answer_free_page E log)) \<and> st (pa_of E (answer_free_page E log)) = Unallocated) \<and>
     (\<forall>log lo hi. answer_ida E log lo hi < 0 \<or> lo \<le> answer_ida E log lo hi \<and> answer_ida E log lo hi \<le> hi) \<and>
     tdx_guest_keyid_start E \<ge> 0 \<and> tdx_nr_guest_keyids E \<ge> 0 \<and> TDX_RND_NO_ENTROPY E \<noteq> 0"

section \<open>What holds in the middle of an operation\<close>

text \<open>
  \<open>H\<close> are pages of the host, \<open>P\<close> pages that are not free, \<open>K\<close> and \<open>U\<close> the state of the key id.
\<close>

definition own_ok :: "td_env \<Rightarrow> u64 set \<Rightarrow> u64 set \<Rightarrow> (u64 \<Rightarrow> page_owner) \<Rightarrow> bool" where
  "own_ok E H P st \<longleftrightarrow> (\<forall>p \<in> H. st p = Host_owned) \<and> (\<forall>p \<in> P. st p \<noteq> Unallocated) \<and>
     (\<forall>p. st p \<noteq> Unallocated \<longrightarrow> direct_map E p)"

definition td_state :: "td_env \<Rightarrow> u64 set \<Rightarrow> u64 set \<Rightarrow> int option \<Rightarrow> u64 option \<Rightarrow> td_host \<Rightarrow> bool" where
  "td_state E H P K U s \<longleftrightarrow> (\<exists>st. own_run E (td_log s) = Some st \<and> own_ok E H P st) \<and>
     key_run (td_log s) = Some (K, U) \<and> fin_run (td_log s) = Some (finalized (td s))"

lemma td_state_emit:
  assumes "td_state E H P K U s"
    and "\<And>st. own_run E (td_log s) = Some st \<Longrightarrow> own_ok E H P st \<Longrightarrow> \<exists>st'. own_step E e st = Some st' \<and> own_ok E H' P' st'"
    and "key_step e (K, U) = Some (K', U')" "fin_step e (finalized (td s)) = Some (finalized (td s))"
  shows "td_state E H' P' K' U' (td_emit e s)"
  using assms unfolding td_state_def by auto

lemma td_state_weaken: "td_state E H P K U s \<Longrightarrow> H' \<subseteq> H \<Longrightarrow> P' \<subseteq> P \<union> H \<Longrightarrow> td_state E H' P' K U s"
  unfolding td_state_def own_ok_def by fastforce

lemma td_state_frame:
  "td_state E H P K U s \<Longrightarrow> td_log s' = td_log s \<Longrightarrow> finalized (td s') = finalized (td s) \<Longrightarrow> td_state E H P K U s'"
  by (simp add: td_state_def)

lemma harmless_steps:
  assumes "harmless c s"
  shows "donated c = None" "key_step (Tdh c err) (K, U) = Some (K, U)" "fin_step (Tdh c err) (finalized (td s)) = Some (finalized (td s))"
  using assms by (cases c; simp add: is_td_finalized_def)+

lemma plain_steps:
  assumes "plain e"
  shows "key_step e (K, U) = Some (K, U)" "fin_step e F = Some F"
  using assms by (cases e; simp)+

interpretation tds: td_invariant E "td_state E H P K U" for E H P K U
proof
  fix s e
  assume I: "td_state E H P K U s" and e: "plain e"
  have "\<exists>st'. own_step E e st = Some st' \<and> own_ok E H P st'" if "own_ok E H P st" for st
    using that e by (cases e) (auto simp: own_ok_def)
  then show "td_state E H P K U (td_emit e s)" using td_state_emit [OF I] plain_steps [OF e] by blast
next
  fix s c err
  assume I: "td_state E H P K U s" and h: "harmless c s"
  have "\<exists>st'. own_step E (Tdh c err) st = Some st' \<and> own_ok E H P st'" if "own_ok E H P st" for st
    using that harmless_steps(1) [OF h] by (auto simp: own_ok_def split: option.splits)
  then show "td_state E H P K U (td_emit (Tdh c err) s)" using td_state_emit [OF I] harmless_steps(2,3) [OF h] by blast
next
  fix s s'
  assume "td_state E H P K U s" "core s' = core s" "td_log s' = td_log s"
  then show "td_state E H P K U s'" by (auto simp: core_def intro: td_state_frame)
qed

section \<open>The steps on pages and key ids\<close>

lemma state_get_page:
  assumes "td_env_ok E" "td_state E H P K U s" "get_free_page_td E s = (va, s')"
  shows "core s' = core s \<and> td s' = td s \<and> vcpus s' = vcpus s \<and>
    (if va = 0 then td_state E H P K U s'
     else pa_of E va \<noteq> 0 \<and> pa_of E va \<notin> H \<union> P \<and> td_state E (insert (pa_of E va) H) P K U s')"
proof -
  obtain st where st: "own_run E (td_log s) = Some st" "own_ok E H P st" using assms(2) by (auto simp: td_state_def)
  have s': "s' = td_emit (Got_page va) s" and va: "va = answer_free_page E (td_log s)"
    using assms(3) by (auto simp: get_free_page_td_def Let_def)
  show ?thesis
  proof (cases "va = 0")
    case True
    then show ?thesis using td_state_emit [OF assms(2), of "Got_page 0" H P K U] by (simp add: s')
  next
    case False
    then have new: "direct_map E (pa_of E va)" "st (pa_of E va) = Unallocated"
      using assms(1) st(1) by (auto simp: td_env_ok_def va)
    then have "pa_of E va \<noteq> 0 \<and> pa_of E va \<notin> H \<union> P" using st(2) by (auto simp: own_ok_def direct_map_def)
    moreover have "td_state E (insert (pa_of E va) H) P K U s'"
      unfolding s' using assms(2) st new False
      by (intro td_state_emit [OF assms(2)]) (auto simp: own_ok_def)
    ultimately show ?thesis using False by (simp add: s')
  qed
qed

lemma state_free_page:
  assumes "td_state E H P K U s" "p \<in> H"
  shows "td_state E (H - {p}) (P - {p}) K U (free_page_td (va_of E p) s)"
proof -
  have "direct_map E p" using assms by (auto simp: td_state_def own_ok_def)
  then have d: "pa_of E (va_of E p) = p" "va_of E p \<noteq> 0" by (simp_all add: direct_map_def)
  show ?thesis unfolding free_page_td_def using d assms(2)
    by (auto simp: own_ok_def intro!: td_state_emit [OF assms(1)])
qed

lemma state_donate:
  assumes "td_state E H P K U s" "donated c = Some p" "p \<in> H" "initial_call c \<longrightarrow> \<not> finalized (td s)"
    and "key_step (Tdh c 0) (K, U) = Some (K, U')" "\<not> finalizes c"
  shows "td_state E (H - {p}) (insert p P) K U' (td_emit (Tdh c 0) s)"
proof (rule td_state_emit [OF assms(1)])
  have "\<not> runtime_call c" using assms(2) by (cases c) simp_all
  then show "fin_step (Tdh c 0) (finalized (td s)) = Some (finalized (td s))" using assms(4,6) by simp
qed (use assms in \<open>auto simp: own_ok_def\<close>)

text \<open>A refused call changes nothing, unless it ends the phase of the initial contents.\<close>

lemma state_refused:
  assumes "td_state E H P K U s" "err \<noteq> 0" "initial_call c \<or> finalizes c \<longrightarrow> \<not> finalized (td s)" "\<not> runtime_call c"
  shows "td_state E H P K U (td_emit (Tdh c err) s)"
proof (rule td_state_emit [OF assms(1)])
  show "key_step (Tdh c err) (K, U) = Some (K, U)" using assms(2) by (cases c) simp_all
qed (use assms in \<open>auto simp: own_ok_def\<close>)

text \<open>A page that the module has given back, cleared or not.\<close>

definition released :: "td_env \<Rightarrow> u64 \<Rightarrow> td_host \<Rightarrow> bool" where
  "released E p s \<longleftrightarrow> (\<exists>st. own_run E (td_log s) = Some st \<and> (st p = Host_owned \<or> st p = Not_cleared))"

lemma released_event: "released E p s \<Longrightarrow> plain e \<Longrightarrow> released E p (td_emit e s)"
  by (cases e) (auto simp: released_def)

lemma released_call: "released E p s \<Longrightarrow> harmless c s \<Longrightarrow> released E p (td_emit (Tdh c err) s)"
  using harmless_steps(1) [of c s] by (auto simp: released_def split: option.splits)

lemma released_warn: "released E p s \<Longrightarrow> released E p (warn_on_once b s)"
  by (simp add: warn_on_once_def released_event)

lemma state_clear:
  assumes "td_state E H P K U s" "released E p s"
  shows "td_state E (insert p H) P K U (tdx_clear_page E p z s)"
proof -
  let ?s = "warn_on_once (z mod page_bytes E \<noteq> 0) s"
  have "td_state E H P K U ?s" "released E p ?s"
    using tds.services(1) [OF assms(1)] released_warn [OF assms(2)] by simp_all
  then show ?thesis unfolding tdx_clear_page_def
    by (intro td_state_emit) (auto simp: own_ok_def released_def)
qed

lemma state_reclaim_raw:
  assumes "tdx_reclaim_page_raw E p level s = Some (r, s')" "td_state E H P K U s" "p \<in> H \<union> P"
  shows "td_state E H P K U s' \<and> core s' = core s \<and> (r = 0 \<longrightarrow> released E p s')"
proof -
  let ?again = "\<lambda>err. err = (TDX_OPERAND_BUSY E OR TDX_OPERAND_ID_RCX E) \<or> err = (TDX_OPERAND_BUSY E OR TDX_OPERAND_ID_TDR E)"
  obtain err out s1 where t: "tdh_retry E ?again (Tdh_phymem_page_reclaim p) s = Some (err, out, s1)"
    using assms(1) by (auto simp: tdx_reclaim_page_raw_def bind_eq_Some_conv)
  obtain errs where s1: "s1 = td_emit (Tdh (Tdh_phymem_page_reclaim p) err) (fold (\<lambda>e. td_emit (Tdh (Tdh_phymem_page_reclaim p) e)) errs s)"
    using tdh_retry_log [OF t] by auto
  have I: "td_state E H P K U (fold (\<lambda>e. td_emit (Tdh (Tdh_phymem_page_reclaim p) e)) errs s)"
    by (rule tds.fold_inv) (simp_all add: tds.call assms(2))
  have "released E p s1" if "err = 0"
    using I assms(3) that unfolding s1 by (cases rule: page_owner.exhaust) (auto simp: released_def td_state_def own_ok_def, (metis page_owner.exhaust)+)
  moreover have "r = 0 \<longrightarrow> err = 0 \<and> s' = warn_on_once (out_r8 out \<noteq> word_of_int (pg_level_to_tdx_sept_level E level)) s1"
    using assms(1) t by (auto simp: tdx_reclaim_page_raw_def EIO_def split: if_splits)
  ultimately show ?thesis using tds.reclaim_raw [OF assms(1,2)] released_warn by auto
qed

lemma state_reclaim:
  assumes "tdx_reclaim_page E p level s = Some (r, s')" "td_state E H P K U s" "p \<in> H \<union> P"
  shows "(if r = 0 then td_state E (insert p H) P K U s' else td_state E H P K U s') \<and> core s' = core s"
proof -
  obtain s1 where t: "tdx_reclaim_page_raw E p level s = Some (r, s1)"
    and s': "s' = (if r = 0 then tdx_clear_page E p (KVM_HPAGE_SIZE E level) s1 else s1)"
    using assms(1) by (auto simp: tdx_reclaim_page_def bind_eq_Some_conv)
  from state_reclaim_raw [OF t assms(2,3)] s' show ?thesis by (simp add: state_clear)
qed

text \<open>A control page is freed, or kept from the allocator for good.\<close>

lemma state_reclaim_control:
  assumes "tdx_reclaim_control_page E p s = Some s'" "td_state E H P K U s" "p \<in> P"
  shows "td_state E (H - {p}) (P - {p}) K U s' \<and> core s' = core s"
proof -
  obtain r s1 where t: "tdx_reclaim_page E p (PG_LEVEL_4K E) (warn_on_once (p = 0) s) = Some (r, s1)"
    and s': "s' = (if r \<noteq> 0 then s1 else free_page_td (va_of E p) s1)"
    using assms(1) by (auto simp: tdx_reclaim_control_page_def bind_eq_Some_conv)
  have st: "(if r = 0 then td_state E (insert p H) P K U s1 else td_state E H P K U s1) \<and> core s1 = core s"
    using state_reclaim [OF t tds.services(1) [OF assms(2)]] assms(3) by simp
  show ?thesis
  proof (cases "r = 0")
    case True
    then show ?thesis using state_free_page [of E "insert p H" P K U s1 p] st s'
      by (auto intro: td_state_weaken)
  next
    case False
    then show ?thesis using st s' by (auto intro: td_state_weaken)
  qed
qed

lemma state_reclaim_all:
  assumes "reclaim_control_pages E ps s = Some s'" "td_state E H P K U s" "distinct (filter (\<lambda>p. p \<noteq> 0) ps)"
    "set (filter (\<lambda>p. p \<noteq> 0) ps) \<subseteq> P"
  shows "td_state E (H - set ps) (P - set ps) K U s' \<and> core s' = core s"
  using assms
proof (induction ps arbitrary: s H P)
  case (Cons p ps)
  then obtain s1 where s1: "(if p \<noteq> 0 then tdx_reclaim_control_page E p s else Some s) = Some s1"
    and rest: "reclaim_control_pages E ps s1 = Some s'" by (auto simp: bind_eq_Some_conv)
  have "td_state E (H - {p}) (P - {p}) K U s1 \<and> core s1 = core s"
    using s1 Cons.prems(2,4) state_reclaim_control [of E p s s1 H P K U]
    by (auto split: if_splits intro: td_state_weaken)
  with Cons.IH [OF rest, of "H - {p}" "P - {p}"] Cons.prems(3,4)
  have "td_state E (H - {p} - set ps) (P - {p} - set ps) K U s' \<and> core s' = core s" by (auto split: if_splits)
  moreover have "H - {p} - set ps = H - set (p # ps)" "P - {p} - set ps = P - set (p # ps)" by auto
  ultimately show ?case by metis
qed simp

end
