(* ===== verification/Tdx_Inv.thy ===== *)
theory Tdx_Inv
  imports Tdx_Owner
begin

text \<open>
  The invariant of a TD between operations: the pages that its data structures name are its own, each once, the key id it
  holds is the one of the pool, and the module uses it only for the root page that the TD has.
\<close>

section \<open>The pages of a TD\<close>

datatype td_slot = Tdr | Tdcs nat | Tdvpr nat | Tdvpx nat nat

definition array_at :: "u64 list option \<Rightarrow> nat \<Rightarrow> u64" where
  "array_at a i = (case a of Some ps \<Rightarrow> if i < length ps then ps ! i else 0 | None \<Rightarrow> 0)"

fun page_at :: "td_host \<Rightarrow> td_slot \<Rightarrow> u64" where
  "page_at s Tdr = tdr_pa (td s)"
| "page_at s (Tdcs i) = array_at (tdcs_pa (td s)) i"
| "page_at s (Tdvpr v) = (if v < length (vcpus s) then tdvpr_pa (vcpus s ! v) else 0)"
| "page_at s (Tdvpx v i) = (if v < length (vcpus s) then array_at (tdvpx_pa (vcpus s ! v)) i else 0)"

definition slots_ok :: "td_host \<Rightarrow> bool" where
  "slots_ok s \<longleftrightarrow> (\<forall>a b. page_at s a \<noteq> 0 \<longrightarrow> page_at s a = page_at s b \<longrightarrow> a = b)"

definition td_pages :: "td_host \<Rightarrow> u64 set" where
  "td_pages s = {p. p \<noteq> 0 \<and> (\<exists>a. page_at s a = p)}"

definition held_key :: "td_host \<Rightarrow> int option" where
  "held_key s = (if is_hkid_assigned (td s) then Some (hkid (td s)) else None)"

definition key_ok :: "td_env \<Rightarrow> int \<Rightarrow> u64 option \<Rightarrow> td_host \<Rightarrow> bool" where
  "key_ok E n0 U s \<longleftrightarrow>
     (\<forall>t. U = Some t \<longrightarrow> is_hkid_assigned (td s) \<and> tdr_pa (td s) = t \<and> t \<noteq> 0) \<and>
     nr_configured_hkid s = n0 + (if is_hkid_assigned (td s) then 1 else 0) \<and>
     (is_hkid_assigned (td s) \<longrightarrow> tdx_guest_keyid_start E \<le> hkid (td s) \<and>
        hkid (td s) \<le> tdx_guest_keyid_start E + tdx_nr_guest_keyids E - 1)"

text \<open>\<open>n0\<close> is the number of key ids that other TDs hold.\<close>

definition td_inv :: "td_env \<Rightarrow> int \<Rightarrow> td_host \<Rightarrow> bool" where
  "td_inv E n0 s \<longleftrightarrow> slots_ok s \<and> (\<exists>U. td_state E {} (td_pages s) (held_key s) U s \<and> key_ok E n0 U s)"

lemma page_at_core:
  assumes "core s' = core s" shows "page_at s' = page_at s"
proof
  fix a
  have l: "map vp_pages (vcpus s') = map vp_pages (vcpus s)" and t: "tdr_pa (td s') = tdr_pa (td s)" "tdcs_pa (td s') = tdcs_pa (td s)"
    using assms by (simp_all add: core_def)
  have n: "length (vcpus s') = length (vcpus s)" using l by (rule map_eq_imp_length_eq)
  have "vp_pages (vcpus s' ! v) = vp_pages (vcpus s ! v)" if "v < length (vcpus s)" for v
    using arg_cong [OF l, of "\<lambda>xs. xs ! v"] that n by simp
  then show "page_at s' a = page_at s a" using n t by (cases a) (auto simp: vp_pages_def)
qed

lemma core_views:
  assumes "core s' = core s"
  shows "slots_ok s' = slots_ok s" "td_pages s' = td_pages s" "held_key s' = held_key s" "key_ok E n0 U s' = key_ok E n0 U s"
    "hkid (td s') = hkid (td s)" "tdr_pa (td s') = tdr_pa (td s)" "finalized (td s') = finalized (td s)"
    "is_hkid_assigned (td s') = is_hkid_assigned (td s)" "is_td_created (td s') = is_td_created (td s)"
  using assms page_at_core [OF assms]
  by (simp_all add: slots_ok_def td_pages_def held_key_def key_ok_def is_hkid_assigned_def is_td_created_def core_def)

lemma td_inv_state:
  "core s' = core s \<Longrightarrow> (\<And>U. td_state E {} (td_pages s) (held_key s) U s \<Longrightarrow> td_state E {} (td_pages s) (held_key s) U s') \<Longrightarrow>
    td_inv E n0 s \<Longrightarrow> td_inv E n0 s'"
  using core_views [of s' s] by (auto simp: td_inv_def)

interpretation inv: td_invariant E "td_inv E n0" for E n0
proof
  fix s e assume "td_inv E n0 s" "plain e"
  then show "td_inv E n0 (td_emit e s)" using td_inv_state [of "td_emit e s" s] tds.event by simp
next
  fix s c err assume "td_inv E n0 s" "harmless c s"
  then show "td_inv E n0 (td_emit (Tdh c err) s)" using td_inv_state [of "td_emit (Tdh c err) s" s] tds.call by simp
next
  fix s s' assume "td_inv E n0 s" "core s' = core s" "td_log s' = td_log s"
  then show "td_inv E n0 s'" using td_inv_state [of s' s] tds.frame by blast
qed

text \<open>An operation that clears slots and frees their pages.\<close>

lemma slots_fewer:
  assumes "slots_ok s" "\<And>a. page_at s' a = page_at s a \<or> page_at s' a = 0"
  shows "slots_ok s'" "td_pages s' \<subseteq> td_pages s" "(\<And>a. page_at s a = p \<Longrightarrow> page_at s' a = 0) \<Longrightarrow> p \<notin> td_pages s'"
proof -
  show "slots_ok s'" unfolding slots_ok_def
  proof (intro allI impI)
    fix a b
    assume "page_at s' a \<noteq> 0" "page_at s' a = page_at s' b"
    then have "page_at s a \<noteq> 0" "page_at s a = page_at s b" using assms(2) [of a] assms(2) [of b] by auto
    then show "a = b" using assms(1) by (simp add: slots_ok_def)
  qed
  show "td_pages s' \<subseteq> td_pages s" using assms(2) unfolding td_pages_def by auto metis
  show "(\<And>a. page_at s a = p \<Longrightarrow> page_at s' a = 0) \<Longrightarrow> p \<notin> td_pages s'"
    using assms(2) unfolding td_pages_def by auto metis
qed

section \<open>The key id\<close>

lemma state_key_free:
  assumes "td_state E H P (held_key s) None s" "is_hkid_assigned (td s)" "key_ok E n0 None s"
  shows "td_state E H P None None (tdx_hkid_free E s) \<and> page_at (tdx_hkid_free E s) = page_at s \<and>
    held_key (tdx_hkid_free E s) = None \<and> key_ok E n0 None (tdx_hkid_free E s) \<and>
    td (tdx_hkid_free E s) = (td s)\<lparr>hkid := - 1\<rparr> \<and> vcpus (tdx_hkid_free E s) = vcpus s"
proof -
  have s': "tdx_hkid_free E s = (set_td (hkid_update (\<lambda>_. - 1)) (td_emit (Ida_free (hkid (td s))) s))
      \<lparr>nr_configured_hkid := nr_configured_hkid s - 1\<rparr>"
    using assms(2,3) by (simp add: tdx_hkid_free_def tdx_guest_keyid_free_def key_ok_def set_td_def)
  have "td_state E H P None None (td_emit (Ida_free (hkid (td s))) s)"
    using assms(2) by (intro td_state_emit [OF assms(1)]) (auto simp: held_key_def)
  then have "td_state E H P None None (tdx_hkid_free E s)" unfolding s'
    by (rule td_state_frame) simp_all
  moreover have "page_at (tdx_hkid_free E s) a = page_at s a" for a by (cases a) (simp_all add: s')
  ultimately show ?thesis using assms(2,3) by (auto simp: s' held_key_def key_ok_def is_hkid_assigned_def)
qed

lemma td_pages_cong: "page_at s' = page_at s \<Longrightarrow> td_pages s' = td_pages s \<and> slots_ok s' = slots_ok s"
  by (simp add: td_pages_def slots_ok_def)

lemma inv_key_free:
  assumes "slots_ok s" "td_state E {} (td_pages s) (held_key s) None s" "is_hkid_assigned (td s)" "key_ok E n0 None s"
  shows "td_inv E n0 (tdx_hkid_free E s)"
  using state_key_free [OF assms(2,3,4)] assms(1) td_pages_cong [of "tdx_hkid_free E s" s] by (auto simp: td_inv_def)

lemma core_keep:
  assumes "core s' = core s"
  shows "page_at s' = page_at s \<and> finalized (td s') = finalized (td s) \<and> is_hkid_assigned (td s') = is_hkid_assigned (td s)"
  using page_at_core [OF assms] core_views [OF assms] by simp

lemma inv_freeid:
  fixes e s
  defines "s1 \<equiv> td_emit (Tdh (Tdh_mng_key_freeid (tdr_pa (td s))) e) s"
  assumes "td_inv E n0 s" "is_hkid_assigned (td s)"
  shows "if e = 0 then td_inv E n0 (tdx_hkid_free E s1) \<and> page_at (tdx_hkid_free E s1) = page_at s \<and>
      finalized (td (tdx_hkid_free E s1)) = finalized (td s) \<and> \<not> is_hkid_assigned (td (tdx_hkid_free E s1))
    else td_inv E n0 s1"
proof -
  obtain U where U: "slots_ok s" "td_state E {} (td_pages s) (held_key s) U s" "key_ok E n0 U s"
    using assms(2) by (auto simp: td_inv_def)
  define U' where "U' = (if e = 0 then None else U)"
  have "td_state E {} (td_pages s) (held_key s) U' s1" unfolding s1_def
  proof (rule td_state_emit [OF U(2)])
    show "key_step (Tdh (Tdh_mng_key_freeid (tdr_pa (td s))) e) (held_key s, U) = Some (held_key s, U')"
      using U(3) by (cases U) (simp_all add: U'_def key_ok_def)
  qed simp_all
  moreover have c: "core s1 = core s" by (simp add: s1_def)
  moreover have "key_ok E n0 U' s" using U(3) by (auto simp: U'_def key_ok_def)
  ultimately have st: "slots_ok s1" "td_state E {} (td_pages s1) (held_key s1) U' s1" "key_ok E n0 U' s1"
    using U(1) unfolding core_views [OF c] by blast+
  show ?thesis
  proof (cases "e = 0")
    case True
    then have none: "td_state E {} (td_pages s1) (held_key s1) None s1" "key_ok E n0 None s1" using st by (simp_all add: U'_def)
    have a: "is_hkid_assigned (td s1)" using assms(3) core_views(8) [OF c] by simp
    show ?thesis
      using True inv_key_free [OF st(1) none(1) a none(2)] state_key_free [OF none(1) a none(2)] core_keep [OF c]
      by (simp add: is_hkid_assigned_def)
  next
    case False
    then show ?thesis using st unfolding td_inv_def by auto
  qed
qed

lemma inv_release_locked:
  assumes "release_hkid_locked E pa ta s = Some (r, s')" "td_inv E n0 s" "is_hkid_assigned (td s)"
  shows "td_inv E n0 s' \<and> page_at s' = page_at s \<and> finalized (td s') = finalized (td s) \<and>
    (r = 0 \<longrightarrow> \<not> is_hkid_assigned (td s'))"
proof -
  obtain err s1 where t: "tdh E (Tdh_mng_vpflushdone (tdr_pa (td s))) s = (err, snd (answer_tdh E (td_log s) (Tdh_mng_vpflushdone (tdr_pa (td s)))), s1)"
    by (simp add: tdh_def split_beta)
  then have I1: "td_inv E n0 s1" "core s1 = core s" using inv.call [OF assms(2)] by simp_all
  show ?thesis
  proof (cases "err = 0 \<and> err \<noteq> TDX_FLUSHVP_NOT_DONE E")
    case False
    then have "r \<noteq> 0 \<and> (s' = s1 \<or> s' = warn_on_once True s1)"
      using assms(1) t by (auto simp: release_hkid_locked_def EBUSY_def EIO_def split: if_splits)
    moreover from this have "td_inv E n0 s'" "core s' = core s" using inv.services(1) [OF I1(1)] I1 by auto
    ultimately show ?thesis using core_keep [of s' s] by simp
  next
    case True
    let ?cpus = "if ta then wb_targets E pa [] (online_cpus E) else online_cpus E"
    obtain s2 where w: "cache_wb_on_cpus E ?cpus s1 = Some s2"
      using assms(1) True t by (cases "cache_wb_on_cpus E ?cpus s1") (auto simp: release_hkid_locked_def)
    have I2: "td_inv E n0 s2" "core s2 = core s" using inv.cache_wb_cpus [OF w, of n0] I1 by simp_all
    then have a: "is_hkid_assigned (td s2)" using assms(3) core_views(8) by blast
    define e where "e = fst (answer_tdh E (td_log s2) (Tdh_mng_key_freeid (tdr_pa (td s2))))"
    have e: "(r, s') = (let s3 = td_emit (Tdh (Tdh_mng_key_freeid (tdr_pa (td s2))) e) s2 in
        if e \<noteq> 0 then (- EIO, warn_on_once True s3) else (0, tdx_hkid_free E s3))"
      using assms(1) True t w by (auto simp: release_hkid_locked_def tdh_def Let_def split_beta e_def split: if_splits)
    show ?thesis
    proof (cases "e = 0")
      case True
      then show ?thesis using inv_freeid [OF I2(1) a, of e] e core_keep [OF I2(2)] by (simp add: Let_def)
    next
      case False
      then show ?thesis using inv_freeid [OF I2(1) a, of e] e core_keep [of s' s] I2(2) inv.services(1)
        by (simp add: Let_def EIO_def)
    qed
  qed
qed

lemma inv_release_once:
  assumes "tdx_mmu_release_hkid_once E s = Some (r, s')" "td_inv E n0 s"
  shows "td_inv E n0 s' \<and> page_at s' = page_at s \<and> finalized (td s') = finalized (td s) \<and>
    (r = 0 \<longrightarrow> \<not> is_hkid_assigned (td s'))"
proof -
  consider "\<not> is_hkid_assigned (td s)" | "is_hkid_assigned (td s)" "\<not> is_td_created (td s)"
    | "is_hkid_assigned (td s)" "is_td_created (td s)" by blast
  then show ?thesis
  proof cases
    case 1
    then show ?thesis using assms by (simp add: tdx_mmu_release_hkid_once_def)
  next
    case 2
    then obtain U where U: "slots_ok s" "td_state E {} (td_pages s) (held_key s) U s" "key_ok E n0 U s"
      using assms(2) by (auto simp: td_inv_def)
    then have "U = None" using 2 by (cases U) (auto simp: key_ok_def is_td_created_def)
    then have k: "td_state E {} (td_pages s) (held_key s) None s" "key_ok E n0 None s" using U by simp_all
    have s': "r = 0" "s' = tdx_hkid_free E s" using assms(1) 2 by (simp_all add: tdx_mmu_release_hkid_once_def)
    show ?thesis unfolding s'
      using inv_key_free [OF U(1) k(1) 2(1) k(2)] state_key_free [OF k(1) 2(1) k(2)] by (simp add: is_hkid_assigned_def)
  next
    case 3
    obtain a sa b sb where ab: "kmalloc E s = (a, sa)" "kmalloc E sa = (b, sb)" by (metis prod.collapse)
    define s1 where "s1 = flush_vcpus E sb"
    have I1: "td_inv E n0 s1" using inv.flush_vcpus [OF inv.services(3) [OF inv.services(3) [OF assms(2)]]] by (simp add: s1_def ab)
    have c1: "core s1 = core s" using cores.flush_vcpus [OF cores.services(3) [OF cores.services(3) [OF refl [of "core s"]]], of E E E]
      by (simp add: s1_def ab)
    obtain s2 where l: "release_hkid_locked E a b s1 = Some (r, s2)" and s': "s' = kfree a (kfree b s2)"
      using assms(1) 3 by (auto simp: tdx_mmu_release_hkid_once_def ab s1_def bind_eq_Some_conv)
    have "is_hkid_assigned (td s1)" using 3 core_views(8) [OF c1] by simp
    from inv_release_locked [OF l I1 this] core_keep [OF c1] show ?thesis
      unfolding s' using core_keep [of "kfree a (kfree b s2)" s2] by (simp add: inv.services)
  qed
qed

end
