(* ===== verification/Tdx_Teardown.thy ===== *)
theory Tdx_Teardown
  imports Tdx_Inv
begin

text \<open>
  The teardown of TDs and virtual processors keeps the invariant: what it frees is its own, cleared, and no longer named.
\<close>

section \<open>Release of the key id\<close>

lemma inv_release:
  assumes "tdx_mmu_release_hkid E s = Some s'" "td_inv E n0 s"
  shows "td_inv E n0 s' \<and> page_at s' = page_at s \<and> finalized (td s') = finalized (td s)"
proof -
  have "td_inv E n0 s \<longrightarrow> td_inv E n0 s' \<and> page_at s' = page_at s \<and> finalized (td s') = finalized (td s)"
  proof (rule tdx_mmu_release_hkid.raw_induct [OF _ assms(1), where P = "\<lambda>E s s'. td_inv E n0 s \<longrightarrow>
      td_inv E n0 s' \<and> page_at s' = page_at s \<and> finalized (td s') = finalized (td s)"], rule impI)
    fix rec E s s'
    assume IH: "\<And>E s s'. rec E s = Some s' \<Longrightarrow> td_inv E n0 s \<longrightarrow>
        td_inv E n0 s' \<and> page_at s' = page_at s \<and> finalized (td s') = finalized (td s)"
      and step: "(do { (r, s) \<leftarrow> tdx_mmu_release_hkid_once E s; if r = - EBUSY then rec E s else Some s }) = Some s'"
      and I: "td_inv E n0 s"
    obtain r s1 where o: "tdx_mmu_release_hkid_once E s = Some (r, s1)" using step by (auto simp: bind_eq_Some_conv)
    note once = inv_release_once [OF o I]
    show "td_inv E n0 s' \<and> page_at s' = page_at s \<and> finalized (td s') = finalized (td s)"
    proof (cases "r = - EBUSY")
      case True
      then show ?thesis using IH [of E s1 s'] step o once by simp
    next
      case False
      then show ?thesis using step o once by simp
    qed
  qed
  then show ?thesis using assms(2) by blast
qed

section \<open>Arrays of pages\<close>

lemma distinct_nonzero:
  "(\<And>i j. i < length ps \<Longrightarrow> j < length ps \<Longrightarrow> ps ! i \<noteq> 0 \<Longrightarrow> ps ! i = ps ! j \<Longrightarrow> i = j) \<Longrightarrow>
   distinct (filter (\<lambda>p. p \<noteq> (0 :: u64)) ps)"
proof (induction ps)
  case (Cons p ps)
  have "distinct (filter (\<lambda>p. p \<noteq> 0) ps)"
  proof (rule Cons.IH)
    fix i j assume "i < length ps" "j < length ps" "ps ! i \<noteq> 0" "ps ! i = ps ! j"
    then show "i = j" using Cons.prems [of "Suc i" "Suc j"] by simp
  qed
  moreover have "p \<notin> set ps" if "p \<noteq> 0"
  proof
    assume "p \<in> set ps"
    then obtain i where "i < length ps" "ps ! i = p" by (auto simp: in_set_conv_nth)
    then show False using Cons.prems [of 0 "Suc i"] that by simp
  qed
  ultimately show ?case by simp
qed simp

text \<open>An array whose entries are slots.\<close>

lemma array_slots:
  assumes "slots_ok s" "inj f" "\<And>i. page_at s (f i) = array_at (Some ps) i"
  shows "distinct (filter (\<lambda>p. p \<noteq> 0) ps)" "set (filter (\<lambda>p. p \<noteq> 0) ps) \<subseteq> td_pages s"
    "p \<in> set ps \<Longrightarrow> p \<noteq> 0 \<Longrightarrow> page_at s a = p \<Longrightarrow> \<exists>i. a = f i"
proof -
  show "distinct (filter (\<lambda>p. p \<noteq> 0) ps)"
  proof (rule distinct_nonzero)
    fix i j assume "i < length ps" "j < length ps" "ps ! i \<noteq> 0" "ps ! i = ps ! j"
    then have "page_at s (f i) \<noteq> 0" "page_at s (f i) = page_at s (f j)" by (simp_all add: assms(3) array_at_def)
    then show "i = j" using assms(1,2) by (auto simp: slots_ok_def inj_def)
  qed
  have at: "\<exists>i. page_at s (f i) = p" if p: "p \<in> set ps" for p
  proof -
    obtain i where "i < length ps" "ps ! i = p" using p by (auto simp: in_set_conv_nth)
    then show ?thesis by (intro exI [of _ i]) (simp add: assms(3) array_at_def)
  qed
  then show "set (filter (\<lambda>p. p \<noteq> 0) ps) \<subseteq> td_pages s" by (auto simp: td_pages_def)
  show "p \<in> set ps \<Longrightarrow> p \<noteq> 0 \<Longrightarrow> page_at s a = p \<Longrightarrow> \<exists>i. a = f i"
    using at [of p] assms(1) by (metis slots_ok_def)
qed

section \<open>Pages freed\<close>

text \<open>
  The slots of an array are emptied after its pages have been reclaimed.
\<close>

lemma inv_free_array:
  assumes "td_inv E n0 s" "\<not> is_hkid_assigned (td s)" "inj f" "\<And>i. page_at s (f i) = array_at (Some ps) i"
    and "reclaim_control_pages E ps s = Some s1"
    and "td_log s2 = td_log s1" "finalized (td s2) = finalized (td s)" "hkid (td s2) = hkid (td s)"
    and "nr_configured_hkid s2 = nr_configured_hkid s"
    and "\<And>a. page_at s2 a = (if \<exists>i. a = f i then 0 else page_at s a)"
  shows "td_inv E n0 s2"
proof -
  obtain U where U: "slots_ok s" "td_state E {} (td_pages s) (held_key s) U s" "key_ok E n0 U s"
    using assms(1) by (auto simp: td_inv_def)
  have none: "held_key s = None" "U = None" using assms(2) U(3) by (cases U; simp add: held_key_def key_ok_def)+
  note arr = array_slots [OF U(1) assms(3,4)]
  have "td_state E {} (td_pages s - set ps) None None s1 \<and> core s1 = core s"
    using state_reclaim_all [OF assms(5) U(2) arr(1,2)] none by simp
  then have st: "td_state E {} (td_pages s - set ps) None None s2" using td_state_frame assms(6,7) core_views(7) by metis
  note few = slots_fewer [OF U(1), of s2]
  have slots: "slots_ok s2" and sub: "td_pages s2 \<subseteq> td_pages s" using few(1,2) assms(10) by auto
  have "p \<notin> td_pages s2" if "p \<in> set ps" for p
  proof (cases "p = 0")
    case False
    have "page_at s2 a = 0" if "page_at s a = p" for a
      using arr(3) [OF \<open>p \<in> set ps\<close> False that] assms(10) by simp
    then show ?thesis using few(3) [of p] assms(10) by auto
  qed (simp add: td_pages_def)
  then have "td_state E {} (td_pages s2) None None s2" using sub st by (auto intro: td_state_weaken)
  moreover have "held_key s2 = None" "key_ok E n0 None s2" using U(3) assms(2,8,9)
    by (simp_all add: held_key_def key_ok_def is_hkid_assigned_def)
  ultimately show ?thesis using slots unfolding td_inv_def by metis
qed

text \<open>One slot is emptied after its page has been freed.\<close>

lemma inv_free_slot:
  assumes "td_inv E n0 s" "\<not> is_hkid_assigned (td s)" "page_at s f = p" "p \<noteq> 0"
    and "td_state E {} (td_pages s - {p}) None None s1"
    and "td_log s2 = td_log s1" "finalized (td s2) = finalized (td s1)" "hkid (td s2) = hkid (td s)"
    and "nr_configured_hkid s2 = nr_configured_hkid s"
    and "\<And>a. page_at s2 a = (if a = f then 0 else page_at s a)"
  shows "td_inv E n0 s2"
proof -
  obtain U where U: "slots_ok s" "key_ok E n0 U s"
    using assms(1) by (auto simp: td_inv_def)
  have none: "U = None" using assms(2) U(2) by (cases U; simp add: key_ok_def)
  note few = slots_fewer [OF U(1), of s2]
  have slots: "slots_ok s2" and sub: "td_pages s2 \<subseteq> td_pages s" using few(1,2) assms(10) by auto
  have "a = f" if "page_at s a = p" for a using U(1) that assms(3,4) by (metis slots_ok_def)
  then have "p \<notin> td_pages s2" using few(3) [of p] assms(10) by auto
  then have "td_state E {} (td_pages s2) None None s1" using sub assms(5) by (auto intro: td_state_weaken)
  then have "td_state E {} (td_pages s2) None None s2" using assms(6,7) by (rule td_state_frame)
  moreover have "held_key s2 = None" "key_ok E n0 None s2" using U(2) assms(2,8,9) none
    by (simp_all add: held_key_def key_ok_def is_hkid_assigned_def)
  ultimately show ?thesis using slots unfolding td_inv_def by metis
qed

lemma inv_held_none:
  assumes "td_inv E n0 s" "\<not> is_hkid_assigned (td s)"
  shows "slots_ok s" "td_state E {} (td_pages s) None None s" "key_ok E n0 None s"
proof -
  obtain U where U: "slots_ok s" "td_state E {} (td_pages s) (held_key s) U s" "key_ok E n0 U s"
    using assms(1) by (auto simp: td_inv_def)
  have "held_key s = None" "U = None" using assms(2) U(3) by (cases U; simp add: held_key_def key_ok_def)+
  with U show "slots_ok s" "td_state E {} (td_pages s) None None s" "key_ok E n0 None s" by simp_all
qed

section \<open>Teardown of a TD\<close>

lemma inv_free_tdcs:
  assumes "free_tdcs_pages E s = Some s'" "td_inv E n0 s" "\<not> is_hkid_assigned (td s)"
  shows "td_inv E n0 s' \<and> \<not> is_hkid_assigned (td s') \<and> finalized (td s') = finalized (td s) \<and> tdcs_pa (td s') = None \<and>
    tdr_pa (td s') = tdr_pa (td s)"
proof (cases "tdcs_pa (td s)")
  case None
  then show ?thesis using assms by (auto simp: free_tdcs_pages_def)
next
  case (Some ps)
  obtain s1 where r: "reclaim_control_pages E ps s = Some s1" and s': "s' = set_td (tdcs_pa_update (\<lambda>_. None)) (kfree True s1)"
    using assms(1) Some by (auto simp: free_tdcs_pages_def bind_eq_Some_conv)
  have c: "core s1 = core s"
    using state_reclaim_all [OF r inv_held_none(2) [OF assms(2,3)] array_slots(1,2) [OF inv_held_none(1) [OF assms(2,3)], of Tdcs]]
    by (simp add: Some inj_def)
  have views: "td s' = (td s1)\<lparr>tdcs_pa := None\<rparr>" "vcpus s' = vcpus s1" "nr_configured_hkid s' = nr_configured_hkid s1"
    "td_log s' = Kfree # td_log s1" by (simp_all add: s' kfree_def)
  have at: "page_at s' a = (if \<exists>i. a = Tdcs i then 0 else page_at s a)" for a
    using page_at_core [OF c, THEN fun_cong, of a] views by (cases a) (auto simp: array_at_def)
  have "td_inv E n0 (set_td (tdcs_pa_update (\<lambda>_. None)) s1)"
  proof (rule inv_free_array [OF assms(2,3), of Tdcs ps s1])
    show "page_at (set_td (tdcs_pa_update (\<lambda>_. None)) s1) a = (if \<exists>i. a = Tdcs i then 0 else page_at s a)" for a
      using at [of a] views by (cases a) auto
  qed (use c Some r in \<open>simp_all add: inj_def core_def\<close>)
  then have "td_inv E n0 (kfree True (set_td (tdcs_pa_update (\<lambda>_. None)) s1))" by (rule inv.services)
  moreover have "kfree True (set_td (tdcs_pa_update (\<lambda>_. None)) s1) = s'" by (simp add: s' kfree_def set_td_def td_emit_def)
  ultimately show ?thesis using views c assms(3) by (simp add: core_def is_hkid_assigned_def)
qed

lemma inv_vm_free:
  assumes "tdx_vm_free E s = Some s'" "td_inv E n0 s"
  shows "td_inv E n0 s' \<and> finalized (td s') = finalized (td s)"
proof (cases "is_hkid_assigned (td s)")
  case True
  then show ?thesis using assms by (simp add: tdx_vm_free_def)
next
  case False
  then obtain s1 where f: "free_tdcs_pages E s = Some s1" using assms(1) by (auto simp: tdx_vm_free_def bind_eq_Some_conv)
  note I1 = inv_free_tdcs [OF f assms(2) False]
  define tdr where "tdr = tdr_pa (td s1)"
  show ?thesis
  proof (cases "tdr = 0")
    case True
    then show ?thesis using assms(1) False f I1 by (simp add: tdx_vm_free_def tdr_def)
  next
    case tdr: False
    obtain r s2 where r: "tdx_reclaim_page_raw E tdr (PG_LEVEL_4K E) s1 = Some (r, s2)"
      using assms(1) False f tdr by (auto simp: tdx_vm_free_def tdr_def Let_def bind_eq_Some_conv split: if_splits)
    have c2: "td_inv E n0 s2" "core s2 = core s1" using inv.reclaim_raw [OF r, of n0] I1 by simp_all
    have mem: "tdr \<in> td_pages s1" unfolding td_pages_def tdr_def using tdr tdr_def page_at.simps(1) [of s1] by blast
    have st2: "td_state E {} (td_pages s1) None None s2 \<and> (r = 0 \<longrightarrow> released E tdr s2)"
      using state_reclaim_raw [OF r inv_held_none(2) [of E n0 s1]] I1 mem by simp
    define w where "w = set_hkid_to_hpa E tdr (tdx_global_keyid E)"
    define e where "e = fst (answer_tdh E (td_log s2) (Tdh_phymem_page_wbinvd w))"
    define s3 where "s3 = td_emit (Tdh (Tdh_phymem_page_wbinvd w) e) s2"
    have c3: "td_inv E n0 s3" "core s3 = core s1" using inv.call [OF c2(1)] c2(2) by (simp_all add: s3_def)
    show ?thesis
    proof (cases "r = 0 \<and> e = 0")
      case False
      then have "s' \<in> {s2, warn_on_once True s3}"
        using assms(1) \<open>\<not> is_hkid_assigned (td s)\<close> f tdr r
        by (auto simp: tdx_vm_free_def tdr_def tdh_def split_beta s3_def e_def w_def Let_def split: if_splits)
      then have "td_inv E n0 s'" "core s' = core s1" using c2 c3 inv.services(1) [OF c3(1)] by auto
      then show ?thesis using I1 core_views(7) by metis
    next
      case True
      define s4 where "s4 = tdx_clear_page E tdr (page_bytes E) s3"
      define s5 where "s5 = free_page_td (va_of E tdr) s4"
      have "td_state E {} (td_pages s1) None None s3" "released E tdr s3"
        using tds.call st2 True released_call by (simp_all add: s3_def)
      then have "td_state E {tdr} (td_pages s1) None None s4" unfolding s4_def by (rule state_clear)
      then have st5: "td_state E {} (td_pages s1 - {tdr}) None None s5" unfolding s5_def
        using state_free_page [of E "{tdr}" "td_pages s1" None None s4 tdr] by simp
      have c5: "core s5 = core s1" using c3 by (simp add: s5_def s4_def)
      have s': "s' = set_td (td_cpuid_update (\<lambda>_. None)) (kfree (td_cpuid (td s5) \<noteq> None) (set_td (tdr_pa_update (\<lambda>_. 0)) s5))"
        using assms(1) \<open>\<not> is_hkid_assigned (td s)\<close> f tdr r True
        by (auto simp: tdx_vm_free_def tdr_def tdh_def split_beta s5_def s4_def s3_def e_def w_def Let_def)
      have "td_inv E n0 (set_td (tdr_pa_update (\<lambda>_. 0)) s5)"
      proof (rule inv_free_slot [OF conjunct1 [OF I1], of Tdr tdr s5])
        show "page_at (set_td (tdr_pa_update (\<lambda>_. 0)) s5) a = (if a = Tdr then 0 else page_at s1 a)" for a
          using page_at_core [OF c5, THEN fun_cong, of a] by (cases a) auto
      qed (use I1 tdr st5 c5 in \<open>simp_all add: tdr_def core_def\<close>)
      then have "td_inv E n0 (kfree (td_cpuid (td s5) \<noteq> None) (set_td (tdr_pa_update (\<lambda>_. 0)) s5))" by (rule inv.services)
      then have "td_inv E n0 s'" unfolding s' by (rule inv.frame) (simp_all add: core_def)
      then show ?thesis using c5 I1 by (simp add: s' core_def)
    qed
  qed
qed

section \<open>Teardown of a virtual processor\<close>

lemma inv_free_tdvpx:
  assumes "free_tdvpx_pages E v s = Some s'" "td_inv E n0 s" "\<not> is_hkid_assigned (td s)" "v < length (vcpus s)"
  shows "td_inv E n0 s' \<and> finalized (td s') = finalized (td s) \<and> \<not> is_hkid_assigned (td s') \<and> length (vcpus s') = length (vcpus s)"
proof (cases "tdvpx_pa (vcpus s ! v)")
  case None
  then show ?thesis using assms by (auto simp: free_tdvpx_pages_def)
next
  case (Some ps)
  obtain s1 where r: "reclaim_control_pages E ps s = Some s1" and s': "s' = set_vcpu v (tdvpx_pa_update (\<lambda>_. None)) (kfree True s1)"
    using assms(1) Some by (auto simp: free_tdvpx_pages_def bind_eq_Some_conv)
  have slot: "page_at s (Tdvpx v i) = array_at (Some ps) i" for i using assms(4) Some by simp
  have c: "core s1 = core s"
    using state_reclaim_all [OF r inv_held_none(2) [OF assms(2,3)] array_slots(1,2) [OF inv_held_none(1) [OF assms(2,3)] _ slot]]
    by (simp add: inj_def)
  have len: "length (vcpus s1) = length (vcpus s)" using c by (auto simp: core_def dest: map_eq_imp_length_eq)
  let ?s2 = "set_vcpu v (tdvpx_pa_update (\<lambda>_. None)) s1"
  have "td_inv E n0 ?s2"
  proof (rule inv_free_array [OF assms(2,3) _ slot r])
    show "page_at ?s2 a = (if \<exists>i. a = Tdvpx v i then 0 else page_at s a)" for a
      using page_at_core [OF c, THEN fun_cong, of a] len assms(4) by (cases a) (auto simp: array_at_def)
  qed (use c in \<open>simp_all add: inj_def core_def\<close>)
  then have "td_inv E n0 (kfree True ?s2)" by (rule inv.services)
  moreover have "kfree True ?s2 = s'" by (simp add: s' kfree_def set_vcpu_def td_emit_def)
  ultimately show ?thesis using c len assms(3) by (simp add: s' core_def is_hkid_assigned_def)
qed

lemma inv_vcpu_free:
  assumes "tdx_vcpu_free E v s = Some s'" "td_inv E n0 s" "v < length (vcpus s)"
  shows "td_inv E n0 s' \<and> finalized (td s') = finalized (td s)"
proof -
  define s1 where "s1 = warn_on_once (vcpu_cpu (vcpus (tdx_disassociate_vp_on_cpu E v s) ! v) \<noteq> - 1) (tdx_disassociate_vp_on_cpu E v s)"
  have run: "tdx_vcpu_free E v s =
      (if is_hkid_assigned (td s1) then
         Some (warn_on_once (tdvpr_pa (vcpus s1 ! v) \<noteq> 0) (warn_on_once (tdvpx_pa (vcpus s1 ! v) \<noteq> None) s1))
       else do {
         s \<leftarrow> free_tdvpx_pages E v s1;
         if tdvpr_pa (vcpus s ! v) \<noteq> 0 then do {
           s \<leftarrow> tdx_reclaim_control_page E (tdvpr_pa (vcpus s ! v)) s;
           Some (set_vcpu v (tdvpr_pa_update (\<lambda>_. 0)) s)
         } else Some s
       })"
    unfolding tdx_vcpu_free_def Let_def s1_def by (rule refl)
  have I1: "td_inv E n0 s1" unfolding s1_def by (intro inv.services inv.disassociate_on_cpu assms(2))
  have c1: "core s1 = core s" unfolding s1_def by (intro cores.services cores.disassociate_on_cpu refl)
  have len: "v < length (vcpus s1)" using c1 assms(3) by (auto simp: core_def dest: map_eq_imp_length_eq)
  have fin: "finalized (td s1) = finalized (td s)" using c1 by (rule core_views)
  show ?thesis
  proof (cases "is_hkid_assigned (td s1)")
    case True
    then show ?thesis using assms(1) I1 fin unfolding run by (auto simp: inv.services)
  next
    case False
    then obtain s2 where f: "free_tdvpx_pages E v s1 = Some s2" and rest: "(if tdvpr_pa (vcpus s2 ! v) \<noteq> 0 then do {
             s \<leftarrow> tdx_reclaim_control_page E (tdvpr_pa (vcpus s2 ! v)) s2;
             Some (set_vcpu v (tdvpr_pa_update (\<lambda>_. 0)) s)
           } else Some s2) = Some s'"
      using assms(1) unfolding run by (auto simp: bind_eq_Some_conv)
    note I2 = inv_free_tdvpx [OF f I1 False len]
    show ?thesis
    proof (cases "tdvpr_pa (vcpus s2 ! v) = 0")
      case True
      then show ?thesis using rest I2 fin by simp
    next
      case nz: False
      define p where "p = tdvpr_pa (vcpus s2 ! v)"
      obtain s3 where r: "tdx_reclaim_control_page E p s2 = Some s3" and s': "s' = set_vcpu v (tdvpr_pa_update (\<lambda>_. 0)) s3"
        using rest nz by (auto simp: p_def bind_eq_Some_conv)
      have at: "page_at s2 (Tdvpr v) = p" using I2 len by (simp add: p_def)
      then have "p \<in> td_pages s2" unfolding td_pages_def using nz p_def by (auto intro!: exI [of _ "Tdvpr v"])
      then have st3: "td_state E {} (td_pages s2 - {p}) None None s3" and c3: "core s3 = core s2"
        using state_reclaim_control [OF r inv_held_none(2) [of E n0 s2]] I2 by simp_all
      have len3: "length (vcpus s3) = length (vcpus s2)" using c3 by (auto simp: core_def dest: map_eq_imp_length_eq)
      have "td_inv E n0 s'"
      proof (rule inv_free_slot [OF conjunct1 [OF I2] _ at _ st3])
        show "page_at s' a = (if a = Tdvpr v then 0 else page_at s2 a)" for a
          using page_at_core [OF c3, THEN fun_cong, of a] len3 I2 len by (cases a) (auto simp: s')
      qed (use I2 nz c3 in \<open>simp_all add: p_def s' core_def\<close>)
      then show ?thesis using c3 I2 fin by (simp add: s' core_def)
    qed
  qed
qed

end
