(* ===== verification/Tdx_Creation.thy ===== *)
theory Tdx_Creation
  imports Tdx_Teardown
begin

text \<open>
  The creation of TDs and virtual processors keeps the invariant, on every path: what is given to the module is named by
  the TD, and what is not is freed.
\<close>

lemma tdh_run:
  "tdh E c s = (fst (answer_tdh E (td_log s) c), snd (answer_tdh E (td_log s) c), td_emit (Tdh c (fst (answer_tdh E (td_log s) c))) s)"
  by simp

section \<open>Arrays of new pages\<close>

lemma alloc_control_pages:
  assumes "td_env_ok E" "td_state E (H \<union> set xs) P K U s" "distinct xs" "0 \<notin> set xs" "set xs \<inter> (H \<union> P) = {}"
    and "alloc_control_pages E n (length xs) (xs @ replicate n 0) s = (ok, pages', s')"
  shows "\<exists>ys m. pages' = ys @ replicate m 0 \<and> length ys + m = length xs + n \<and> td_state E (H \<union> set ys) P K U s' \<and>
    distinct ys \<and> 0 \<notin> set ys \<and> set ys \<inter> (H \<union> P) = {} \<and> core s' = core s \<and> (ok \<longrightarrow> m = 0)"
  using assms(2-)
proof (induction n arbitrary: xs s)
  case 0
  then show ?case by (intro exI [of _ xs] exI [of _ 0]) auto
next
  case (Suc n)
  obtain va s1 where g: "get_free_page_td E s = (va, s1)" by fastforce
  note get = state_get_page [OF assms(1) Suc.prems(1) g]
  show ?case
  proof (cases "va = 0")
    case True
    then have "pages' = xs @ replicate (Suc n) 0" "s' = s1" "\<not> ok" using Suc.prems(5) g by auto
    then show ?thesis using get True Suc.prems(2-4) by (intro exI [of _ xs] exI [of _ "Suc n"]) simp
  next
    case False
    let ?p = "pa_of E va"
    have "(xs @ replicate (Suc n) 0)[length xs := ?p] = (xs @ [?p]) @ replicate n 0" by simp
    then have run: "alloc_control_pages E n (length (xs @ [?p])) ((xs @ [?p]) @ replicate n 0) s1 = (ok, pages', s')"
      using Suc.prems(5) g False by simp
    have "td_state E (H \<union> set (xs @ [?p])) P K U s1" using get False by simp
    moreover have "distinct (xs @ [?p])" "0 \<notin> set (xs @ [?p])" "set (xs @ [?p]) \<inter> (H \<union> P) = {}"
      using Suc.prems(2-4) get False by auto
    ultimately show ?thesis using Suc.IH [OF _ _ _ _ run] get by auto
  qed
qed

lemma free_control_pages:
  assumes "td_state E H P K U s" "distinct (filter (\<lambda>p. p \<noteq> 0) ps)" "set (filter (\<lambda>p. p \<noteq> 0) ps) \<subseteq> H"
  shows "td_state E (H - set ps) (P - set ps) K U (free_control_pages E ps s) \<and> core (free_control_pages E ps s) = core s"
  using assms
proof (induction ps arbitrary: H P s)
  case Nil
  then show ?case by (simp add: free_control_pages_def)
next
  case (Cons p ps)
  define s1 where "s1 = (if p \<noteq> 0 then free_page_td (va_of E p) s else s)"
  have "td_state E (H - {p}) (P - {p}) K U s1 \<and> core s1 = core s"
    using Cons.prems state_free_page [OF Cons.prems(1), of p] td_state_weaken [OF Cons.prems(1), of "H - {p}" "P - {p}"]
    by (auto simp: s1_def)
  moreover have "free_control_pages E (p # ps) s = free_control_pages E ps s1" by (simp add: free_control_pages_def s1_def)
  moreover have "H - {p} - set ps = H - set (p # ps)" "P - {p} - set ps = P - set (p # ps)" by auto
  ultimately show ?case using Cons.IH [of "H - {p}" "P - {p}" s1] Cons.prems by (auto split: if_splits)
qed

section \<open>Before the module knows the TD\<close>

text \<open>The TD has its key id; \<open>H\<close> are the pages allocated for it.\<close>

definition fresh :: "td_env \<Rightarrow> int \<Rightarrow> u64 set \<Rightarrow> td_host \<Rightarrow> bool" where
  "fresh E n0 H s \<longleftrightarrow> slots_ok s \<and> td_state E H (td_pages s) (held_key s) None s \<and> key_ok E n0 None s \<and>
     is_hkid_assigned (td s) \<and> H \<inter> td_pages s = {}"

lemma fresh_core:
  "fresh E n0 H s \<Longrightarrow> core s' = core s \<Longrightarrow> (td_state E H (td_pages s) (held_key s) None s \<Longrightarrow> td_state E H' (td_pages s) (held_key s) None s') \<Longrightarrow>
    H' \<inter> td_pages s = {} \<Longrightarrow> fresh E n0 H' s'"
  using core_views [of s' s] by (simp add: fresh_def)

interpretation fresh: td_invariant E "fresh E n0 H" for E n0 H
proof
  fix s e assume "fresh E n0 H s" "plain e"
  then show "fresh E n0 H (td_emit e s)" using fresh_core [of E n0 H s "td_emit e s" H] tds.event by (simp add: fresh_def)
next
  fix s c err assume "fresh E n0 H s" "harmless c s"
  then show "fresh E n0 H (td_emit (Tdh c err) s)"
    using fresh_core [of E n0 H s "td_emit (Tdh c err) s" H] tds.call by (simp add: fresh_def)
next
  fix s s' assume "fresh E n0 H s" "core s' = core s" "td_log s' = td_log s"
  then show "fresh E n0 H s'" using fresh_core [of E n0 H s s' H] tds.frame [of E H "td_pages s" "held_key s" None s s'] by (simp add: fresh_def)
qed

lemma fresh_fewer:
  assumes "fresh E n0 H s" "\<And>a. page_at s' a = page_at s a \<or> page_at s' a = 0"
    and "td_log s' = td_log s" "finalized (td s') = finalized (td s)" "hkid (td s') = hkid (td s)"
    and "nr_configured_hkid s' = nr_configured_hkid s"
  shows "fresh E n0 H s'"
proof -
  note few = slots_fewer [of s s', OF _ assms(2)]
  have sub: "td_pages s' \<subseteq> td_pages s" and "slots_ok s'" using few assms(1) by (auto simp: fresh_def)
  moreover have "td_state E H (td_pages s') (held_key s) None s'"
    using td_state_frame [OF td_state_weaken [of E H "td_pages s" _ _ s H "td_pages s'"], of "held_key s" None s'] assms sub
    by (auto simp: fresh_def)
  moreover have "held_key s' = held_key s" "key_ok E n0 None s'" "is_hkid_assigned (td s')"
    using assms by (auto simp: fresh_def held_key_def key_ok_def is_hkid_assigned_def)
  ultimately show ?thesis using assms(1) by (auto simp: fresh_def)
qed

lemma fresh_free:
  assumes "fresh E n0 H s" "p \<in> H" shows "fresh E n0 (H - {p}) (free_page_td (va_of E p) s)"
proof (rule fresh_core [OF assms(1)])
  assume "td_state E H (td_pages s) (held_key s) None s"
  moreover have "td_pages s - {p} = td_pages s" using assms by (auto simp: fresh_def)
  ultimately show "td_state E (H - {p}) (td_pages s) (held_key s) None (free_page_td (va_of E p) s)"
    using state_free_page [of E H "td_pages s" _ None s p] assms(2) by metis
qed (use assms in \<open>auto simp: fresh_def\<close>)

lemma fresh_free_all:
  assumes "fresh E n0 H s" "distinct (filter (\<lambda>p. p \<noteq> 0) ps)" "set (filter (\<lambda>p. p \<noteq> 0) ps) \<subseteq> H"
  shows "fresh E n0 (H - set ps) (free_control_pages E ps s) \<and> core (free_control_pages E ps s) = core s"
proof -
  have st: "td_state E H (td_pages s) (held_key s) None s" and d: "H \<inter> td_pages s = {}" using assms(1) by (auto simp: fresh_def)
  note f = free_control_pages [OF st assms(2,3)]
  have "td_pages s - set ps = td_pages s" using assms(3) d by (auto simp: td_pages_def)
  with f have "td_state E (H - set ps) (td_pages s) (held_key s) None (free_control_pages E ps s)" by simp
  with f show ?thesis using fresh_core [OF assms(1), of "free_control_pages E ps s" "H - set ps"] d by auto
qed

lemma fresh_free_hkid:
  assumes "fresh E n0 H s" "td_init_free_hkid E r s = (r', s')"
  shows "td_inv E n0 s' \<and> r' = r \<and> finalized (td s') = finalized (td s)"
proof -
  have f: "slots_ok s" "td_state E {} (td_pages s) (held_key s) None s" "is_hkid_assigned (td s)" "key_ok E n0 None s"
    using assms(1) by (auto simp: fresh_def intro: td_state_weaken)
  then show ?thesis using assms(2) inv_key_free [OF f] state_key_free [OF f(2,3,4)] by (auto simp: td_init_free_hkid_def)
qed

lemma fresh_set_tdr: "fresh E n0 H s \<Longrightarrow> fresh E n0 H (set_td (tdr_pa_update (\<lambda>_. 0)) s)"
proof (erule fresh_fewer)
  show "page_at (set_td (tdr_pa_update (\<lambda>_. 0)) s) a = page_at s a \<or> page_at (set_td (tdr_pa_update (\<lambda>_. 0)) s) a = 0" for a
    by (cases a) simp_all
qed simp_all

lemma fresh_set_tdcs: "fresh E n0 H s \<Longrightarrow> fresh E n0 H (set_td (tdcs_pa_update (\<lambda>_. None)) s)"
proof (erule fresh_fewer)
  show "page_at (set_td (tdcs_pa_update (\<lambda>_. None)) s) a = page_at s a \<or> page_at (set_td (tdcs_pa_update (\<lambda>_. None)) s) a = 0" for a
    by (cases a) (simp_all add: array_at_def)
qed simp_all

lemma fresh_free_tdr:
  assumes "fresh E n0 H s" "tdr \<in> H" "tdr \<noteq> 0" "td_init_free_tdr E r tdr s = (r', s')"
  shows "td_inv E n0 s' \<and> r' = r \<and> finalized (td s') = finalized (td s)"
  using fresh_free_hkid [OF fresh_set_tdr [OF fresh_free [OF assms(1,2)]]] assms(3,4)
  by (simp add: td_init_free_tdr_def)

lemma fresh_free_tdcs:
  assumes "fresh E n0 H s" "tdr \<in> H" "tdr \<noteq> 0" "distinct ys" "0 \<notin> set ys" "set ys \<subseteq> H - {tdr}"
    and "td_init_free_tdcs E r (ys @ replicate m 0) tdr s = (r', s')"
  shows "td_inv E n0 s' \<and> r' = r \<and> finalized (td s') = finalized (td s)"
proof -
  let ?ps = "ys @ replicate m 0"
  have nz: "filter (\<lambda>p. p \<noteq> 0) ?ps = ys" using assms(5) by (auto simp: filter_id_conv)
  note f = fresh_free_all [OF assms(1), of ?ps]
  have f: "fresh E n0 (H - set ?ps) (free_control_pages E ?ps s) \<and> core (free_control_pages E ?ps s) = core s"
    using f assms(4,6) by (simp only: nz) blast
  let ?s = "set_td (tdcs_pa_update (\<lambda>_. None)) (kfree True (free_control_pages E ?ps s))"
  have "fresh E n0 (H - set ?ps) ?s" using f by (intro fresh_set_tdcs fresh.services) simp
  moreover have "tdr \<in> H - set ?ps" using assms(2,3,6) by auto
  moreover have "finalized (td ?s) = finalized (td s)" using f by (simp add: core_def)
  ultimately show ?thesis using fresh_free_tdr [of E n0 "H - set ?ps" ?s tdr r r' s'] assms(3,7) by (simp add: td_init_free_tdcs_def Let_def)
qed

section \<open>After the module has created the TD\<close>

text \<open>\<open>H\<close> are pages of the TD that the module does not have yet.\<close>

definition created :: "td_env \<Rightarrow> int \<Rightarrow> u64 set \<Rightarrow> td_host \<Rightarrow> bool" where
  "created E n0 H s \<longleftrightarrow> slots_ok s \<and> td_state E H (td_pages s) (held_key s) (Some (tdr_pa (td s))) s \<and>
     key_ok E n0 (Some (tdr_pa (td s))) s"

lemma created_inv: "created E n0 H s \<Longrightarrow> td_inv E n0 s"
  unfolding created_def td_inv_def by (blast intro: td_state_weaken [where H' = "{}"])

lemma created_core:
  "created E n0 H s \<Longrightarrow> core s' = core s \<Longrightarrow>
    (\<And>P K U. td_state E H P K U s \<Longrightarrow> td_state E H P K U s') \<Longrightarrow> created E n0 H s'"
  using core_views [of s' s] by (simp add: created_def)

interpretation created: td_invariant E "created E n0 H" for E n0 H
proof
  fix s e assume "created E n0 H s" "plain e"
  then show "created E n0 H (td_emit e s)" using created_core [of E n0 H s "td_emit e s"] tds.event by simp
next
  fix s c err assume "created E n0 H s" "harmless c s"
  then show "created E n0 H (td_emit (Tdh c err) s)" using created_core [of E n0 H s "td_emit (Tdh c err) s"] tds.call by simp
next
  fix s s' assume "created E n0 H s" "core s' = core s" "td_log s' = td_log s"
  then show "created E n0 H s'" using created_core [of E n0 H s s'] tds.frame by blast
qed

text \<open>The module takes the root page.\<close>

lemma create_td:
  assumes "fresh E n0 H s" "tdr \<in> H" "tdr \<noteq> 0"
    and "s1 = set_td (tdr_pa_update (\<lambda>_. tdr)) (td_emit (Tdh (Tdh_mng_create tdr (hkid (td s))) 0) s)"
  shows "created E n0 (H - {tdr}) s1 \<and> (H - {tdr}) \<inter> td_pages s1 = {} \<and> finalized (td s1) = finalized (td s)"
proof -
  have f: "slots_ok s" "td_state E H (td_pages s) (held_key s) None s" "key_ok E n0 None s" "is_hkid_assigned (td s)" "H \<inter> td_pages s = {}"
    using assms(1) by (simp_all add: fresh_def)
  have at: "page_at s1 a = (if a = Tdr then tdr else page_at s a)" for a by (cases a) (simp_all add: assms(4))
  have new: "page_at s a \<noteq> tdr" for a using f(5) assms(2,3) by (auto simp: td_pages_def)
  let ?s0 = "td_emit (Tdh (Tdh_mng_create tdr (hkid (td s))) 0) s"
  have slots: "slots_ok s1" unfolding slots_ok_def
  proof (intro allI impI)
    fix a b assume "page_at s1 a \<noteq> 0" "page_at s1 a = page_at s1 b"
    then show "a = b" using f(1) new [of a] new [of b] unfolding slots_ok_def at by (metis (full_types))
  qed
  have sub: "td_pages s1 \<subseteq> insert tdr (td_pages s)" by (auto simp: td_pages_def at simp del: page_at.simps split: if_splits)
  have "td_state E (H - {tdr}) (insert tdr (td_pages s)) (held_key s) (Some tdr) ?s0"
    using f(4) by (intro state_donate [OF f(2)]) (simp_all add: assms(2) held_key_def)
  then have "td_state E (H - {tdr}) (td_pages s1) (held_key s) (Some tdr) ?s0"
    by (rule td_state_weaken) (use sub in blast)+
  then have st: "td_state E (H - {tdr}) (td_pages s1) (held_key s) (Some tdr) s1"
    by (rule td_state_frame) (simp_all add: assms(4))
  have key: "held_key s1 = held_key s" "tdr_pa (td s1) = tdr" "key_ok E n0 (Some tdr) s1"
    using f(3,4) assms(3) by (simp_all add: assms(4) held_key_def key_ok_def is_hkid_assigned_def)
  have "created E n0 (H - {tdr}) s1" using slots st key by (simp add: created_def)
  moreover have "(H - {tdr}) \<inter> td_pages s1 = {}" using sub f(5) by blast
  moreover have "finalized (td s1) = finalized (td s)" by (simp add: assms(4))
  ultimately show ?thesis by blast
qed

text \<open>The TD gets its array of pages.\<close>

lemma assign_tdcs:
  assumes "created E n0 (set ps) s" "set ps \<inter> td_pages s = {}" "distinct ps" "0 \<notin> set ps"
    and "s1 = set_td (tdcs_pa_update (\<lambda>_. Some ps)) s"
  shows "created E n0 (set ps) s1"
proof -
  have c: "slots_ok s" "td_state E (set ps) (td_pages s) (held_key s) (Some (tdr_pa (td s))) s" "key_ok E n0 (Some (tdr_pa (td s))) s"
    using assms(1) by (simp_all add: created_def)
  have at: "page_at s1 a = (case a of Tdcs i \<Rightarrow> array_at (Some ps) i | _ \<Rightarrow> page_at s a)" for a by (cases a) (simp_all add: assms(5))
  have mem: "array_at (Some ps) i \<noteq> 0 \<Longrightarrow> array_at (Some ps) i \<in> set ps" for i by (auto simp: array_at_def split: if_splits)
  have old: "page_at s a \<notin> set ps" if "page_at s a \<noteq> 0" for a using that assms(2) by (auto simp: td_pages_def)
  have inj: "i = j" if "array_at (Some ps) i \<noteq> 0" "array_at (Some ps) i = array_at (Some ps) j" for i j
    using that assms(3) by (auto simp: array_at_def nth_eq_iff_index_eq split: if_splits)
  have "slots_ok s1" unfolding slots_ok_def
  proof (intro allI impI)
    fix a b assume "page_at s1 a \<noteq> 0" "page_at s1 a = page_at s1 b"
    note nz = this
    consider (both) i j where "a = Tdcs i" "b = Tdcs j" | (left) i where "a = Tdcs i" "\<nexists>j. b = Tdcs j"
      | (right) j where "b = Tdcs j" "\<nexists>i. a = Tdcs i" | (none) "\<nexists>i. a = Tdcs i" "\<nexists>j. b = Tdcs j" by blast
    then show "a = b"
    proof cases
      case both
      then show ?thesis using nz inj by (simp add: at del: page_at.simps)
    next
      case left
      then have "page_at s1 b = page_at s b" by (cases b) (simp_all add: at del: page_at.simps)
      then show ?thesis using left nz mem [of i] old [of b] by (simp add: at del: page_at.simps)
    next
      case right
      then have "page_at s1 a = page_at s a" by (cases a) (simp_all add: at del: page_at.simps)
      then show ?thesis using right nz mem [of j] old [of a] by (simp add: at del: page_at.simps)
    next
      case none
      then have "page_at s1 a = page_at s a" "page_at s1 b = page_at s b" by (cases a; cases b; simp add: at del: page_at.simps)+
      then show ?thesis using nz c(1) unfolding slots_ok_def by metis
    qed
  qed
  moreover have "td_pages s1 \<subseteq> td_pages s \<union> set ps"
  proof
    fix p assume "p \<in> td_pages s1"
    then obtain a where a: "page_at s1 a = p" "p \<noteq> 0" by (auto simp: td_pages_def)
    show "p \<in> td_pages s \<union> set ps"
    proof (cases "\<exists>i. a = Tdcs i")
      case True
      then show ?thesis using a mem by (auto simp: at simp del: page_at.simps)
    next
      case False
      then have "page_at s a = p" using a by (cases a) (simp_all add: at del: page_at.simps)
      then show ?thesis using a by (auto simp: td_pages_def)
    qed
  qed
  then have "td_state E (set ps) (td_pages s1) (held_key s) (Some (tdr_pa (td s))) s"
    using td_state_weaken [OF c(2), of "set ps" "td_pages s1"] by blast
  then have "td_state E (set ps) (td_pages s1) (held_key s) (Some (tdr_pa (td s))) s1"
    by (rule td_state_frame) (simp_all add: assms(5))
  moreover have "held_key s1 = held_key s" "tdr_pa (td s1) = tdr_pa (td s)" "key_ok E n0 (Some (tdr_pa (td s))) s1"
    using c(3) by (simp_all add: assms(5) held_key_def key_ok_def is_hkid_assigned_def)
  ultimately show ?thesis by (simp add: created_def)
qed

lemma addcx_loop:
  assumes "created E n0 (set ps) s" "distinct ps" "addcx_loop E ps i s = (r, j, s')" "TDX_RND_NO_ENTROPY E \<noteq> 0"
  shows "i \<le> j \<and> j \<le> i + length ps \<and> created E n0 (set (drop (j - i) ps)) s' \<and> core s' = core s \<and>
    (r = 0 \<longrightarrow> j = i + length ps)"
  using assms(1-3)
proof (induction ps arbitrary: i s)
  case (Cons p ps)
  define c where "c = Tdh_mng_addcx (tdr_pa (td s)) p"
  define e where "e = fst (answer_tdh E (td_log s) c)"
  have st: "slots_ok s" "td_state E (set (p # ps)) (td_pages s) (held_key s) (Some (tdr_pa (td s))) s" "key_ok E n0 (Some (tdr_pa (td s))) s"
    using Cons.prems(1) by (simp_all add: created_def)
  have run: "addcx_loop E (p # ps) i s = (if e = TDX_RND_NO_ENTROPY E then (- EBUSY, i, td_emit (Tdh c e) s)
      else if e \<noteq> 0 then (- EIO, i, warn_on_once True (td_emit (Tdh c e) s)) else addcx_loop E ps (Suc i) (td_emit (Tdh c e) s))"
    by (simp add: tdh_run c_def e_def)
  show ?case
  proof (cases "e = 0")
    case False
    have "created E n0 (set (p # ps)) (td_emit (Tdh c e) s)"
      by (rule created_core [OF Cons.prems(1)]) (simp_all add: state_refused False c_def)
    moreover from this have "created E n0 (set (p # ps)) (warn_on_once True (td_emit (Tdh c e) s))" by (rule created.services)
    moreover have "r \<noteq> 0 \<and> j = i \<and> s' \<in> {td_emit (Tdh c e) s, warn_on_once True (td_emit (Tdh c e) s)}"
      using run Cons.prems(3) False by (auto simp: EBUSY_def EIO_def split: if_splits)
    ultimately show ?thesis by auto
  next
    case True
    have "td_state E (set (p # ps) - {p}) (insert p (td_pages s)) (held_key s) (Some (tdr_pa (td s))) (td_emit (Tdh c 0) s)"
      by (rule state_donate [OF st(2)]) (simp_all add: c_def)
    moreover have "set (p # ps) - {p} = set ps" using Cons.prems(2) by auto
    ultimately have "td_state E (set ps) (td_pages s) (held_key s) (Some (tdr_pa (td s))) (td_emit (Tdh c 0) s)"
      by (auto intro: td_state_weaken)
    then have "created E n0 (set ps) (td_emit (Tdh c 0) s)"
      using st core_views [of "td_emit (Tdh c 0) s" s] by (simp add: created_def)
    from Cons.IH [OF this, of "Suc i"] Cons.prems(2,3) run True assms(4)
    have IH: "Suc i \<le> j \<and> j \<le> Suc i + length ps \<and> created E n0 (set (drop (j - Suc i) ps)) s' \<and> core s' = core s \<and>
        (r = 0 \<longrightarrow> j = Suc i + length ps)" by simp
    then obtain k where "j = Suc i + k" by (auto simp: le_iff_add)
    with IH show ?thesis by simp
  qed
qed simp

section \<open>Abandoning a TD that the module has created\<close>

lemma teardown_unassigned:
  assumes "created E n0 (set ps) s" "set ps \<inter> td_pages s = {}" "distinct ps" "0 \<notin> set ps" "td_init_teardown E r 0 ps False s = Some (r', s')"
  shows "td_inv E n0 s' \<and> r' = r \<and> finalized (td s') = finalized (td s)"
proof -
  let ?s = "free_control_pages E ps s"
  have nz: "filter (\<lambda>p. p \<noteq> 0) ps = ps" using assms(4) by (auto simp: filter_id_conv)
  have st: "td_state E (set ps) (td_pages s) (held_key s) (Some (tdr_pa (td s))) s" using assms(1) by (simp add: created_def)
  have "td_pages s - set ps = td_pages s" using assms(2) by blast
  with free_control_pages [OF st, of ps] assms(3)
  have f: "td_state E (set ps - set ps) (td_pages s) (held_key s) (Some (tdr_pa (td s))) ?s \<and> core ?s = core s"
    unfolding nz by simp
  then have "created E n0 {} ?s" using assms(1) core_views [of ?s s] by (simp add: created_def)
  then have I: "td_inv E n0 (kfree b ?s)" for b by (intro inv.services created_inv)
  have fin: "finalized (td ?s) = finalized (td s)" using f core_views(7) by blast
  obtain s1 s2 where s1: "tdx_mmu_release_hkid E (kfree (tdcs_pa (td ?s) = None) ?s) = Some s1" and s2: "tdx_vm_free E s1 = Some s2"
    and out: "r' = r" "s' = s2"
    using assms(5) by (auto simp: td_init_teardown_def Let_def bind_eq_Some_conv)
  then show ?thesis using inv_release [OF s1 I] inv_vm_free [OF s2, of n0] fin by simp
qed

lemma teardown_assigned:
  assumes "created E n0 (set (drop i ps)) s" "tdcs_pa (td s) = Some ps" "distinct ps" "0 \<notin> set ps"
    and "td_init_teardown E r i ps True s = Some (r', s')"
  shows "td_inv E n0 s' \<and> r' = r \<and> finalized (td s') = finalized (td s)"
proof -
  let ?d = "drop i ps" and ?s1 = "free_control_pages E (drop i ps) s"
  let ?ps = "take i ps @ replicate (length ps - i) 0"
  let ?s2 = "set_td (tdcs_pa_update (\<lambda>_. Some ?ps)) ?s1"
  have c: "slots_ok s" "td_state E (set ?d) (td_pages s) (held_key s) (Some (tdr_pa (td s))) s" "key_ok E n0 (Some (tdr_pa (td s))) s"
    using assms(1) by (simp_all add: created_def)
  have nz: "filter (\<lambda>p. p \<noteq> 0) ?d = ?d" using assms(4) by (auto simp: filter_id_conv dest: in_set_dropD)
  have f: "td_state E {} (td_pages s - set ?d) (held_key s) (Some (tdr_pa (td s))) ?s1 \<and> core ?s1 = core s"
    using free_control_pages [OF c(2), of ?d] assms(3) unfolding nz by simp
  have arr: "array_at (Some ?ps) k = (if k < i then array_at (Some ps) k else 0)" for k
    by (auto simp: array_at_def nth_append)
  have at: "page_at ?s2 a = (if \<exists>k\<ge>i. a = Tdcs k then 0 else page_at s a)" for a
    using page_at_core [OF conjunct2 [OF f], THEN fun_cong, of a] by (cases a) (auto simp: arr assms(2))
  note few = slots_fewer [OF c(1), of ?s2]
  have slots: "slots_ok ?s2" and sub: "td_pages ?s2 \<subseteq> td_pages s" using few(1,2) at by auto
  have "p \<notin> td_pages ?s2" if p: "p \<in> set ?d" for p
  proof -
    obtain j where "j < length ?d" "?d ! j = p" using p by (auto simp: in_set_conv_nth)
    then have k: "page_at s (Tdcs (i + j)) = p" by (auto simp: array_at_def assms(2))
    have "p \<noteq> 0" using p assms(4) by (auto dest: in_set_dropD)
    have "page_at ?s2 a = 0" if "page_at s a = p" for a
      using c(1) k \<open>p \<noteq> 0\<close> that at [of a] by (metis slots_ok_def le_add1)
    then show ?thesis using few(3) [of p] at by auto
  qed
  then have "td_state E {} (td_pages ?s2) (held_key s) (Some (tdr_pa (td s))) ?s1" using f sub by (auto intro: td_state_weaken)
  then have "td_state E {} (td_pages ?s2) (held_key s) (Some (tdr_pa (td s))) ?s2" by (rule td_state_frame) simp_all
  moreover have "held_key ?s2 = held_key s" "key_ok E n0 (Some (tdr_pa (td s))) ?s2"
    using c(3) f by (simp_all add: held_key_def key_ok_def is_hkid_assigned_def core_def)
  ultimately have "td_inv E n0 ?s2" using slots unfolding td_inv_def by metis
  then have I: "td_inv E n0 (kfree b ?s2)" for b by (rule inv.services)
  have fin: "finalized (td ?s1) = finalized (td s)" using f core_views(7) by blast
  obtain s3 s4 where s3: "tdx_mmu_release_hkid E (kfree False ?s2) = Some s3" and s4: "tdx_vm_free E s3 = Some s4"
    and out: "r' = r" "s' = s4"
    using assms(5) by (auto simp: td_init_teardown_def Let_def bind_eq_Some_conv)
  then show ?thesis using inv_release [OF s3 I] inv_vm_free [OF s4, of n0] fin by simp
qed

section \<open>The whole creation\<close>

lemma inv_configure:
  assumes "created E n0 (set ps) s" "set ps \<inter> td_pages s = {}" "distinct ps" "0 \<notin> set ps" "TDX_RND_NO_ENTROPY E \<noteq> 0"
    and "td_init_configure E tp r ps s = Some (r', err, s')"
  shows "td_inv E n0 s' \<and> finalized (td s') = finalized (td s)"
proof -
  obtain r1 s1 where k: "key_config_loop E [] (online_cpus E) r s = Some (r1, s1)"
    using assms(6) by (auto simp: td_init_configure_def bind_eq_Some_conv)
  define s2 where "s2 = kfree True s1"
  have c2: "created E n0 (set ps) s2" "core s2 = core s"
    using created.key_config_loop [OF k assms(1)] by (simp_all add: s2_def created.services)
  have d2: "set ps \<inter> td_pages s2 = {}" "finalized (td s2) = finalized (td s)" using assms(2) core_views [OF c2(2)] by simp_all
  show ?thesis
  proof (cases "r1 = 0")
    case False
    then show ?thesis using assms(6) k teardown_unassigned [OF c2(1) d2(1) assms(3,4)] d2(2)
      by (auto simp: td_init_configure_def s2_def Let_def bind_eq_Some_conv)
  next
    case True
    define s3 where "s3 = set_td (tdcs_pa_update (\<lambda>_. Some ps)) s2"
    have c3: "created E n0 (set ps) s3" using assign_tdcs [OF c2(1) d2(1) assms(3,4) s3_def] .
    obtain r4 i s4 where a: "addcx_loop E ps 0 s3 = (r4, i, s4)" by (rule prod_cases3)
    note add = addcx_loop [OF c3 assms(3) a assms(5)]
    have c4: "created E n0 (set (drop i ps)) s4" "tdcs_pa (td s4) = Some ps" "finalized (td s4) = finalized (td s)"
      using add d2(2) by (auto simp: core_def s3_def)
    show ?thesis
    proof (cases "r4 = 0")
      case False
      then show ?thesis using assms(6) k a True teardown_assigned [OF c4(1,2) assms(3,4)] c4(3)
        by (auto simp: td_init_configure_def s2_def [symmetric] s3_def [symmetric] Let_def bind_eq_Some_conv)
    next
      case r4: True
      define c where "c = Tdh_mng_init (tdr_pa (td s4)) tp"
      define e where "e = fst (answer_tdh E (td_log s4) c)"
      define s5 where "s5 = td_emit (Tdh c e) s4"
      have c5: "created E n0 (set (drop i ps)) s5" "tdcs_pa (td s5) = Some ps" "finalized (td s5) = finalized (td s)"
        using created.call [OF c4(1), of c e] c4(2,3) by (simp_all add: s5_def c_def)
      have c5w: "created E n0 (set (drop i ps)) (warn_on_once True s5)" using c5(1) by (rule created.services)
      have run: "td_init_configure E tp r ps s = (if e AND TDX_SEAMCALL_STATUS_MASK E = TDX_OPERAND_INVALID E then do {
                 (ret, s) \<leftarrow> td_init_teardown E (- EINVAL) i ps True s5; Some (ret, e, s) }
               else if e \<noteq> 0 then do {
                 (ret, s) \<leftarrow> td_init_teardown E (- EIO) i ps True (warn_on_once True s5); Some (ret, 0, s) }
               else Some (0, 0, s5\<lparr>apicv_inhibited := True\<rparr>))"
        using k a True r4 by (simp add: td_init_configure_def s2_def [symmetric] s3_def [symmetric] tdh_run
            c_def [symmetric] e_def [symmetric] s5_def)
      have "td_inv E n0 (s5\<lparr>apicv_inhibited := True\<rparr>)"
        by (rule inv.frame [OF created_inv [OF c5(1)]]) (simp_all add: core_def)
      then show ?thesis
        using assms(6) [unfolded run] teardown_assigned [OF c5(1,2) assms(3,4)] teardown_assigned [OF c5w _ assms(3,4)] c5(2,3)
        by (auto simp: bind_eq_Some_conv split: if_splits)
    qed
  qed
qed

lemma keyid_alloc:
  assumes "td_env_ok E" "td_inv E n0 s" "\<not> is_hkid_assigned (td s)" "tdx_guest_keyid_alloc E s = (k, s1)"
  shows "if k < 0 then td_inv E n0 s1 \<and> finalized (td s1) = finalized (td s)
    else fresh E n0 {} ((set_td (hkid_update (\<lambda>_. k)) s1)\<lparr>nr_configured_hkid := nr_configured_hkid s1 + 1\<rparr>) \<and>
      finalized (td s1) = finalized (td s)"
proof (cases "tdx_guest_keyid_start E = 0 \<or> tdx_nr_guest_keyids E = 0")
  case True
  then show ?thesis using assms(2,4) inv.services(1) by (auto simp: tdx_guest_keyid_alloc_def EINVAL_def)
next
  case False
  define hi where "hi = tdx_guest_keyid_start E + tdx_nr_guest_keyids E - 1"
  have s1: "s1 = td_emit (Ida_alloc k) s" and k: "k = answer_ida E (td_log s) (tdx_guest_keyid_start E) hi"
    using assms(4) False by (auto simp: tdx_guest_keyid_alloc_def Let_def hi_def)
  have range: "k < 0 \<or> tdx_guest_keyid_start E \<le> k \<and> k \<le> hi" "tdx_guest_keyid_start E \<ge> 0"
    using assms(1) unfolding td_env_ok_def k by simp_all
  note none = inv_held_none [OF assms(2,3)]
  have c: "core s1 = core s" by (simp add: s1)
  show ?thesis
  proof (cases "k < 0")
    case True
    have "td_state E {} (td_pages s) None None s1" unfolding s1
      by (rule td_state_emit [OF none(2)]) (simp_all add: True)
    moreover have "held_key s = None" using assms(3) by (simp add: held_key_def)
    ultimately have "td_inv E n0 s1" using none(1,3) unfolding td_inv_def core_views [OF c] by metis
    then show ?thesis using True core_views(7) [OF c] by simp
  next
    case pos: False
    let ?s = "(set_td (hkid_update (\<lambda>_. k)) s1)\<lparr>nr_configured_hkid := nr_configured_hkid s1 + 1\<rparr>"
    have kp: "k > 0" using pos range False by auto
    have "td_state E {} (td_pages s) (Some k) None s1" unfolding s1
      by (rule td_state_emit [OF none(2)]) (use pos in simp_all)
    then have st: "td_state E {} (td_pages s) (Some k) None ?s" by (rule td_state_frame) simp_all
    have "page_at ?s a = page_at s a" for a by (cases a) (simp_all add: s1)
    then have "page_at ?s = page_at s" by (rule ext)
    then have "td_pages ?s = td_pages s" "slots_ok ?s" using td_pages_cong [of ?s s] none(1) by simp_all
    moreover have "held_key ?s = Some k" "is_hkid_assigned (td ?s)" using kp by (simp_all add: held_key_def is_hkid_assigned_def)
    moreover have "key_ok E n0 None ?s" using none(3) kp pos range assms(3)
      by (simp add: key_ok_def is_hkid_assigned_def s1 hi_def)
    ultimately show ?thesis using pos st by (simp add: fresh_def s1)
  qed
qed

lemma fresh_get_page:
  assumes "td_env_ok E" "fresh E n0 H s" "get_free_page_td E s = (va, s1)"
  shows "finalized (td s1) = finalized (td s) \<and> core s1 = core s \<and>
    (if va = 0 then fresh E n0 H s1 else pa_of E va \<noteq> 0 \<and> pa_of E va \<notin> H \<and> fresh E n0 (insert (pa_of E va) H) s1)"
proof -
  have st: "td_state E H (td_pages s) (held_key s) None s" and d: "H \<inter> td_pages s = {}" using assms(2) by (simp_all add: fresh_def)
  note g = state_get_page [OF assms(1) st assms(3)]
  then show ?thesis using fresh_core [OF assms(2), of s1 H] fresh_core [OF assms(2), of s1 "insert (pa_of E va) H"] d
    by (auto split: if_splits)
qed

lemma inv_create:
  assumes "fresh E n0 H s" "H = insert tdr (set ys)" "tdr \<noteq> 0" "tdr \<notin> set ys" "distinct ys" "0 \<notin> set ys"
    and "TDX_RND_NO_ENTROPY E \<noteq> 0" "td_init_create E tp r tdr ys s = Some (r', err, s')"
  shows "td_inv E n0 s' \<and> finalized (td s') = finalized (td s)"
proof -
  have abort: "td_inv E n0 x' \<and> finalized (td x') = finalized (td x)"
    if "fresh E n0 H x" "Some (with_status 0 (td_init_free_tdcs E q ys tdr x)) = Some (r', err, x')" for x x' q
  proof -
    obtain q' y where run: "td_init_free_tdcs E q ys tdr x = (q', y)" by (rule prod.exhaust)
    have "tdr \<in> H" "set ys \<subseteq> H - {tdr}" using assms(2,4) by auto
    with run fresh_free_tdcs [OF that(1) _ assms(3,5,6), where m = 0 and r = q and r' = q' and s' = y] that(2) show ?thesis
      by (simp add: with_status_def)
  qed
  obtain mask s1 where m: "kmalloc E s = (mask, s1)" by fastforce
  have f1: "fresh E n0 H s1" "finalized (td s1) = finalized (td s)"
    using fresh.services(3) [OF assms(1)] cores.services(3) [OF refl] m core_views(7) by (metis snd_conv)+
  then have f1k: "fresh E n0 H (kfree True s1)" by (simp add: fresh.services)
  show ?thesis
  proof (cases "mask \<and> package_id E ` set (present_cpus E) \<subseteq> package_id E ` set (online_cpus E)")
    case False
    then show ?thesis using assms(8) m abort [OF f1(1)] abort [OF f1k] f1(2)
      by (auto simp: td_init_create_def split: if_splits)
  next
    case True
    define c where "c = Tdh_mng_create tdr (hkid (td s1))"
    define e where "e = fst (answer_tdh E (td_log s1) c)"
    define s2 where "s2 = td_emit (Tdh c e) s1"
    have run: "td_init_create E tp r tdr ys s =
        (if e = TDX_RND_NO_ENTROPY E then Some (with_status 0 (td_init_free_tdcs E (- EAGAIN) ys tdr (kfree True s2)))
         else if e \<noteq> 0 then Some (with_status 0 (td_init_free_tdcs E (- EIO) ys tdr (kfree True (warn_on_once True s2))))
         else td_init_configure E tp r ys (set_td (tdr_pa_update (\<lambda>_. tdr)) s2))"
      using True m by (simp add: td_init_create_def tdh_run c_def e_def s2_def)
    show ?thesis
    proof (cases "e = 0")
      case False
      have f2: "fresh E n0 H s2" unfolding s2_def
        by (rule fresh_core [OF f1(1)]) (use f1(1) False in \<open>auto simp: state_refused c_def fresh_def\<close>)
      then have "fresh E n0 H (kfree True s2)" "fresh E n0 H (kfree True (warn_on_once True s2))"
        by (simp_all add: fresh.services)
      from abort [OF this(1)] abort [OF this(2)] show ?thesis
        using assms(8) [unfolded run] False f1(2) by (auto simp: s2_def split: if_splits)
    next
      case True
      note create = create_td [OF f1(1) _ assms(3) refl, unfolded assms(2), simplified]
      have "insert tdr (set ys) - {tdr} = set ys" using assms(4) by auto
      with create assms(2) True have c2: "created E n0 (set ys) (set_td (tdr_pa_update (\<lambda>_. tdr)) s2)"
        "set ys \<inter> td_pages (set_td (tdr_pa_update (\<lambda>_. tdr)) s2) = {}"
        using assms(4) by (auto simp: s2_def c_def)
      show ?thesis using inv_configure [OF c2 assms(5,6,7), of tp r r' err s'] assms(8) [unfolded run] True assms(7) f1(2)
        by (simp add: s2_def)
    qed
  qed
qed

text \<open>The array of the root page's TD, with the errors of its allocation.\<close>

lemma inv_array:
  assumes "td_env_ok E" "fresh E n0 {tdr} s" "tdr \<noteq> 0" "alloc_control_pages E n 0 (replicate n 0) s = (ok, ps, s1)"
  shows "finalized (td s1) = finalized (td s) \<and>
    (\<exists>ys m. ps = ys @ replicate m 0 \<and> fresh E n0 (insert tdr (set ys)) s1 \<and> distinct ys \<and> 0 \<notin> set ys \<and> tdr \<notin> set ys \<and> (ok \<longrightarrow> m = 0))"
proof -
  have f: "td_state E {tdr} (td_pages s) (held_key s) None s" "tdr \<notin> td_pages s" using assms(2) by (simp_all add: fresh_def)
  obtain ys m where a: "ps = ys @ replicate m 0" "td_state E ({tdr} \<union> set ys) (td_pages s) (held_key s) None s1" "distinct ys"
    "0 \<notin> set ys" "set ys \<inter> ({tdr} \<union> td_pages s) = {}" "core s1 = core s" "ok \<longrightarrow> m = 0"
    using alloc_control_pages [OF assms(1), of "{tdr}" "[]" "td_pages s" "held_key s" None s n ok ps s1] f(1) assms(4) by auto
  have "fresh E n0 (insert tdr (set ys)) s1"
    by (rule fresh_core [OF assms(2) a(6)]) (use a(2,5) f(2) in auto)
  with a core_views(7) [OF a(6)] show ?thesis by auto
qed

lemma inv_inner:
  assumes "td_env_ok E" "td_inv E n0 s" "\<not> is_hkid_assigned (td s)" "tdx_td_init_inner E tp s = Some (r', err, s')"
  shows "td_inv E n0 s' \<and> finalized (td s') = finalized (td s)"
proof -
  obtain k s1 where k: "tdx_guest_keyid_alloc E s = (k, s1)" by fastforce
  note key = keyid_alloc [OF assms(1-3) k]
  define s2 where "s2 = (set_td (hkid_update (\<lambda>_. k)) s1)\<lparr>nr_configured_hkid := nr_configured_hkid s1 + 1\<rparr>"
  obtain va s3 where va: "get_free_page_td E s2 = (va, s3)" by fastforce
  obtain arr s4 where arr: "kmalloc E s3 = (arr, s4)" by fastforce
  define tdr where "tdr = pa_of E va"
  define n where "n = unat (nr_tdcs_pages (tdx_info_of E))"
  obtain ok ps s5 where al: "alloc_control_pages E n 0 (replicate n 0) s4 = (ok, ps, s5)" by (rule prod_cases3)
  have run: "tdx_td_init_inner E tp s = (if k < 0 then Some (k, 0, s1)
      else if va = 0 then Some (with_status 0 (td_init_free_hkid E k s3))
      else if \<not> arr then Some (with_status 0 (td_init_free_tdr E k tdr s4))
      else if \<not> ok then Some (with_status 0 (td_init_free_tdcs E k ps tdr s5))
      else td_init_create E tp k tdr ps s5)"
    using va [unfolded s2_def] arr al
    by (simp add: tdx_td_init_inner_def k Let_def n_def [symmetric] tdr_def [symmetric] cong: if_cong)
  note run = run [unfolded assms(4)]
  show ?thesis
  proof (cases "k < 0")
    case True
    then show ?thesis using key run by simp
  next
    case k0: False
    have f2: "fresh E n0 {} s2" "finalized (td s2) = finalized (td s)" using key k0 by (simp_all add: s2_def)
    note g = fresh_get_page [OF assms(1) f2(1) va]
    have fin3: "finalized (td s3) = finalized (td s)" using g f2(2) by simp
    show ?thesis
    proof (cases "va = 0")
      case True
      then have "fresh E n0 {} s3" using g by simp
      then show ?thesis using fresh_free_hkid [OF _ prod.collapse [symmetric]] fin3 run k0 True by (simp add: with_status_def)
    next
      case va0: False
      have f3: "fresh E n0 {tdr} s3" "tdr \<noteq> 0" using g va0 by (simp_all add: tdr_def)
      have f4: "fresh E n0 {tdr} s4" "core s4 = core s3"
        using fresh.services(3) [OF f3(1)] cores.services(3) [OF refl] arr by (metis snd_conv)+
      have fin4: "finalized (td s4) = finalized (td s)" using core_views(7) [OF f4(2)] fin3 by simp
      obtain ys m where a: "ps = ys @ replicate m 0" "fresh E n0 (insert tdr (set ys)) s5" "distinct ys" "0 \<notin> set ys"
        "tdr \<notin> set ys" "ok \<longrightarrow> m = 0" and fin5: "finalized (td s5) = finalized (td s)"
        using inv_array [OF assms(1) f4(1) f3(2) al] fin4 by auto
      have rnd: "TDX_RND_NO_ENTROPY E \<noteq> 0" using assms(1) by (simp add: td_env_ok_def)
      consider "\<not> arr" | "arr" "\<not> ok" | "arr" "ok" by blast
      then show ?thesis
      proof cases
        case 1
        then show ?thesis using fresh_free_tdr [OF f4(1) _ f3(2) prod.collapse [symmetric]] fin4 run k0 va0
          by (simp add: with_status_def)
      next
        case 2
        have "set ys \<subseteq> insert tdr (set ys) - {tdr}" using a(5) by auto
        then show ?thesis using fresh_free_tdcs [OF a(2) _ f3(2) a(3,4) _ prod.collapse [symmetric]] fin5 run k0 va0 2
          by (simp add: with_status_def a(1))
      next
        case 3
        then have "td_init_create E tp k tdr ys s5 = Some (r', err, s')" using run k0 va0 a(1,6) by simp
        then show ?thesis using inv_create [OF a(2) refl f3(2) a(5,3,4) rnd] fin5 by simp
      qed
    qed
  qed
qed

end
