(* ===== verification/Tdx_Vcpu.thy ===== *)
theory Tdx_Vcpu
  imports Tdx_Creation
begin

text \<open>
  The creation of virtual processors, the finalisation and the commands of the user keep the invariant of
  \<open>Tdx_Inv\<close>.
\<close>

section \<open>Pages that are not in a slot yet\<close>

definition spare :: "td_env \<Rightarrow> int \<Rightarrow> u64 set \<Rightarrow> td_host \<Rightarrow> bool" where
  "spare E n0 H s \<longleftrightarrow> slots_ok s \<and> (\<exists>U. td_state E H (td_pages s) (held_key s) U s \<and> key_ok E n0 U s)"

lemma spare_inv: "spare E n0 H s \<Longrightarrow> td_inv E n0 s" "td_inv E n0 s \<Longrightarrow> spare E n0 {} s"
  unfolding spare_def td_inv_def by (blast intro: td_state_weaken [where H' = "{}"])+

lemma spare_core:
  "spare E n0 H s \<Longrightarrow> core s' = core s \<Longrightarrow>
    (\<And>U. td_state E H (td_pages s) (held_key s) U s \<Longrightarrow> td_state E H' (td_pages s) (held_key s) U s') \<Longrightarrow> spare E n0 H' s'"
  using core_views [of s' s] by (auto simp: spare_def)

interpretation spare: td_invariant E "spare E n0 H" for E n0 H
proof
  fix s e assume "spare E n0 H s" "plain e"
  then show "spare E n0 H (td_emit e s)" using spare_core [of E n0 H s "td_emit e s" H] tds.event by simp
next
  fix s c err assume "spare E n0 H s" "harmless c s"
  then show "spare E n0 H (td_emit (Tdh c err) s)" using spare_core [of E n0 H s "td_emit (Tdh c err) s" H] tds.call by simp
next
  fix s s' assume "spare E n0 H s" "core s' = core s" "td_log s' = td_log s"
  then show "spare E n0 H s'" using spare_core [of E n0 H s s' H] tds.frame by blast
qed

lemma spare_get_page:
  assumes "td_env_ok E" "spare E n0 H s" "get_free_page_td E s = (va, s1)"
  shows "core s1 = core s \<and> (if va = 0 then spare E n0 H s1
    else pa_of E va \<noteq> 0 \<and> pa_of E va \<notin> H \<union> td_pages s \<and> spare E n0 (insert (pa_of E va) H) s1)"
proof -
  obtain U where st: "td_state E H (td_pages s) (held_key s) U s" using assms(2) by (auto simp: spare_def)
  note g = state_get_page [OF assms(1) st assms(3)]
  show ?thesis
  proof (cases "va = 0")
    case True
    have "spare E n0 H s1" by (rule spare_core [OF assms(2)]) (use g True state_get_page [OF assms(1) _ assms(3)] in auto)
    then show ?thesis using g True by simp
  next
    case False
    have "spare E n0 (insert (pa_of E va) H) s1"
      by (rule spare_core [OF assms(2)]) (use g False state_get_page [OF assms(1) _ assms(3)] in auto)
    then show ?thesis using g False by simp
  qed
qed

lemma spare_alloc:
  assumes "td_env_ok E" "spare E n0 H s" "alloc_control_pages E n 0 (replicate n 0) s = (ok, ps, s1)"
  shows "core s1 = core s \<and>
    (\<exists>ys m. ps = ys @ replicate m 0 \<and> spare E n0 (H \<union> set ys) s1 \<and> distinct ys \<and> 0 \<notin> set ys \<and>
       set ys \<inter> (H \<union> td_pages s) = {} \<and> (ok \<longrightarrow> m = 0))"
proof -
  have al: "\<exists>ys m. ps = ys @ replicate m 0 \<and> td_state E (H \<union> set ys) (td_pages s) (held_key s) U s1 \<and>
      distinct ys \<and> 0 \<notin> set ys \<and> set ys \<inter> (H \<union> td_pages s) = {} \<and> core s1 = core s \<and> (ok \<longrightarrow> m = 0)"
    if "td_state E H (td_pages s) (held_key s) U s" for U
    using alloc_control_pages [OF assms(1), of H "[]" "td_pages s" "held_key s" U s n ok ps s1] that assms(3) by auto
  obtain U where U: "td_state E H (td_pages s) (held_key s) U s" "key_ok E n0 U s" "slots_ok s" using assms(2) by (auto simp: spare_def)
  from al [OF U(1)] obtain ys m where a: "ps = ys @ replicate m 0" "td_state E (H \<union> set ys) (td_pages s) (held_key s) U s1"
    "distinct ys" "0 \<notin> set ys" "set ys \<inter> (H \<union> td_pages s) = {}" "core s1 = core s" "ok \<longrightarrow> m = 0" by blast
  have "spare E n0 (H \<union> set ys) s1" using a(2) U(2,3) core_views [OF a(6)] by (auto simp: spare_def)
  with a show ?thesis by blast
qed

lemma spare_free:
  assumes "spare E n0 H s" "H \<inter> td_pages s = {}" "distinct (filter (\<lambda>p. p \<noteq> 0) ps)" "set (filter (\<lambda>p. p \<noteq> 0) ps) \<subseteq> H"
  shows "spare E n0 (H - set ps) (free_control_pages E ps s) \<and> core (free_control_pages E ps s) = core s"
proof -
  have "td_pages s - set ps = td_pages s" using assms(2,4) by (auto simp: td_pages_def)
  then have f: "td_state E (H - set ps) (td_pages s) (held_key s) U (free_control_pages E ps s) \<and> core (free_control_pages E ps s) = core s"
    if "td_state E H (td_pages s) (held_key s) U s" for U
    using free_control_pages [OF that assms(3,4)] by simp
  moreover have "core (free_control_pages E ps s) = core s" using f assms(1) by (auto simp: spare_def)
  ultimately show ?thesis using spare_core [OF assms(1), of "free_control_pages E ps s" "H - set ps"] by blast
qed

lemma spare_free_page:
  assumes "spare E n0 H s" "H \<inter> td_pages s = {}" "p \<in> H"
  shows "spare E n0 (H - {p}) (free_page_td (va_of E p) s)"
proof (rule spare_core [OF assms(1)])
  fix U assume st: "td_state E H (td_pages s) (held_key s) U s"
  have "td_pages s - {p} = td_pages s" using assms(2,3) by auto
  with state_free_page [OF st assms(3)] show "td_state E (H - {p}) (td_pages s) (held_key s) U (free_page_td (va_of E p) s)" by simp
qed simp

text \<open>An operation that clears slots.\<close>

lemma spare_fewer:
  assumes "spare E n0 H s" "\<And>a. page_at s' a = page_at s a \<or> page_at s' a = 0"
    and "td_log s' = td_log s" "finalized (td s') = finalized (td s)" "td s' = td s" "nr_configured_hkid s' = nr_configured_hkid s"
  shows "spare E n0 H s' \<and> td_pages s' \<subseteq> td_pages s"
proof -
  obtain U where U: "slots_ok s" "td_state E H (td_pages s) (held_key s) U s" "key_ok E n0 U s" using assms(1) by (auto simp: spare_def)
  note few = slots_fewer [OF U(1) assms(2)]
  have "td_state E H (td_pages s') (held_key s) U s" using few(2) by (blast intro: td_state_weaken [OF U(2)])
  then have "td_state E H (td_pages s') (held_key s) U s'" by (rule td_state_frame [OF _ assms(3,4)])
  then show ?thesis using few(1,2) U(3) assms(5,6) by (auto simp: spare_def held_key_def key_ok_def)
qed

section \<open>New slots\<close>

text \<open>Slots get new pages, each of them one of its own.\<close>

lemma slots_assign:
  assumes "slots_ok s" "N \<inter> td_pages s = {}" "\<And>a. page_at s1 a = (case g a of Some p \<Rightarrow> p | None \<Rightarrow> page_at s a)"
    and "\<And>a p. g a = Some p \<Longrightarrow> p \<noteq> 0 \<Longrightarrow> p \<in> N" "\<And>a b p. g a = Some p \<Longrightarrow> g b = Some p \<Longrightarrow> p \<noteq> 0 \<Longrightarrow> a = b"
  shows "slots_ok s1" "td_pages s1 \<subseteq> td_pages s \<union> N"
proof -
  have old: "page_at s a \<notin> N" if "page_at s a \<noteq> 0" for a using that assms(2) by (auto simp: td_pages_def)
  show "slots_ok s1" unfolding slots_ok_def
  proof (intro allI impI)
    fix a b assume nz: "page_at s1 a \<noteq> 0" "page_at s1 a = page_at s1 b"
    show "a = b"
    proof (cases "g a"; cases "g b")
      assume "g a = None" "g b = None"
      then show ?thesis using nz assms(1) unfolding slots_ok_def assms(3) by (metis option.simps(4))
    next
      fix q assume "g a = None" "g b = Some q"
      then show ?thesis using nz old [of a] assms(4) [of b q] by (simp add: assms(3))
    next
      fix p assume "g a = Some p" "g b = None"
      then show ?thesis using nz old [of b] assms(4) [of a p] by (simp add: assms(3))
    next
      fix p q assume "g a = Some p" "g b = Some q"
      then show ?thesis using nz assms(5) by (simp add: assms(3))
    qed
  qed
  show "td_pages s1 \<subseteq> td_pages s \<union> N"
  proof
    fix p assume "p \<in> td_pages s1"
    then obtain a where "page_at s1 a = p" "p \<noteq> 0" by (auto simp: td_pages_def)
    then show "p \<in> td_pages s \<union> N" using assms(4) by (cases "g a") (auto simp: assms(3) td_pages_def)
  qed
qed

lemma array_at_Some:
  "array_at (Some ps) i \<noteq> 0 \<Longrightarrow> array_at (Some ps) i \<in> set ps"
  "distinct ps \<Longrightarrow> array_at (Some ps) i \<noteq> 0 \<Longrightarrow> array_at (Some ps) i = array_at (Some ps) j \<Longrightarrow> i = j"
  by (auto simp: array_at_def nth_eq_iff_index_eq split: if_splits)

section \<open>A virtual processor\<close>

lemma assign_vp:
  assumes "v < length (vcpus s)" "slots_ok s" "td_state E (set ps) (insert t (td_pages s)) (held_key s) U s" "key_ok E n0 U s"
    and "insert t (set ps) \<inter> td_pages s = {}" "distinct ps" "t \<notin> set ps"
    and "s1 = set_vcpu v (\<lambda>x. x\<lparr>tdvpr_pa := t, tdvpx_pa := Some ps\<rparr>) s"
  shows "spare E n0 (set ps) s1"
proof -
  define g where "g = (\<lambda>a. case a of Tdvpr w \<Rightarrow> if w = v then Some t else None
    | Tdvpx w i \<Rightarrow> if w = v then Some (array_at (Some ps) i) else None | _ \<Rightarrow> None)"
  have at: "page_at s1 a = (case g a of Some p \<Rightarrow> p | None \<Rightarrow> page_at s a)" for a
    using assms(1) by (cases a) (simp_all add: g_def assms(8))
  have "g a = Some p \<Longrightarrow> p \<noteq> 0 \<Longrightarrow> p \<in> insert t (set ps)" for a p
    using array_at_Some(1) by (cases a) (auto simp: g_def split: if_splits)
  moreover have "g a = Some p \<Longrightarrow> g b = Some p \<Longrightarrow> p \<noteq> 0 \<Longrightarrow> a = b" for a b p
    using array_at_Some(2) [OF assms(6)] array_at_Some(1) [of ps] assms(7)
    by (cases a; cases b) (auto simp: g_def split: if_splits)
  ultimately have slots: "slots_ok s1" and sub: "td_pages s1 \<subseteq> td_pages s \<union> insert t (set ps)"
    using slots_assign [OF assms(2,5) at] by blast+
  have "td_state E (set ps) (td_pages s1) (held_key s) U s" by (rule td_state_weaken [OF assms(3)]) (use sub in auto)
  then have "td_state E (set ps) (td_pages s1) (held_key s) U s1" by (rule td_state_frame) (simp_all add: assms(8))
  then show ?thesis using slots assms(4) by (auto simp: spare_def held_key_def key_ok_def assms(8))
qed

text \<open>The pages from index \<open>i\<close> on are freed and their slots emptied.\<close>

definition drop_tdvpx :: "td_env \<Rightarrow> nat \<Rightarrow> nat \<Rightarrow> u64 list \<Rightarrow> td_host \<Rightarrow> td_host" where
  "drop_tdvpx E v i ps s =
     set_vcpu v (\<lambda>x. x\<lparr>tdvpx_pa := map_option (\<lambda>a. take i a @ replicate (length a - i) 0) (tdvpx_pa x)\<rparr>)
       (fold (\<lambda>q. free_page_td (va_of E q)) ps s)"

lemma fold_free_control_pages:
  "0 \<notin> set ps \<Longrightarrow> fold (\<lambda>q. free_page_td (va_of E q)) ps s = free_control_pages E ps s"
  unfolding free_control_pages_def by (induction ps arbitrary: s) auto

lemma drop_tdvpx:
  assumes "spare E n0 (set (drop i a)) s" "v < length (vcpus s)" "tdvpx_pa (vcpus s ! v) = Some a" "distinct a" "0 \<notin> set a"
  shows "td_inv E n0 (drop_tdvpx E v i (drop i a) s) \<and> finalized (td (drop_tdvpx E v i (drop i a) s)) = finalized (td s)"
proof -
  let ?d = "drop i a"
  define s1 where "s1 = free_control_pages E ?d s"
  define s2 where "s2 = set_vcpu v (\<lambda>x. x\<lparr>tdvpx_pa := Some (take i a @ replicate (length a - i) 0)\<rparr>) s1"
  obtain U where U: "slots_ok s" "td_state E (set ?d) (td_pages s) (held_key s) U s" "key_ok E n0 U s"
    using assms(1) by (auto simp: spare_def)
  have nz: "filter (\<lambda>p. p \<noteq> 0) ?d = ?d" "0 \<notin> set ?d" using assms(5) by (auto simp: filter_id_conv dest: in_set_dropD)
  have f: "td_state E {} (td_pages s - set ?d) (held_key s) U s1" "core s1 = core s"
    using free_control_pages [OF U(2), of ?d] assms(4) unfolding nz(1) s1_def by simp_all
  have keep: "vcpus (fold (\<lambda>q. free_page_td (va_of E q)) ps x) = vcpus x" "td (fold (\<lambda>q. free_page_td (va_of E q)) ps x) = td x"
    for ps x by (induction ps arbitrary: x) simp_all
  have "vcpus s1 = vcpus s" "td s1 = td s" using keep [of ?d s] nz(2) by (simp_all add: s1_def fold_free_control_pages)
  then have run: "drop_tdvpx E v i ?d s = s2" using assms(3) nz(2)
    by (simp add: drop_tdvpx_def s2_def fold_free_control_pages s1_def [symmetric] set_vcpu_def)
  have at: "page_at s2 b = (if \<exists>k\<ge>i. b = Tdvpx v k then 0 else page_at s b)" for b
    using \<open>vcpus s1 = vcpus s\<close> \<open>td s1 = td s\<close> assms(2,3)
    by (cases b) (auto simp: s2_def array_at_def nth_append)
  note few = slots_fewer [OF U(1), of s2]
  have slots: "slots_ok s2" and sub: "td_pages s2 \<subseteq> td_pages s" using few(1,2) at by auto
  have "p \<notin> td_pages s2" if p: "p \<in> set ?d" for p
  proof -
    obtain j where "j < length ?d" "?d ! j = p" using p by (auto simp: in_set_conv_nth)
    then have k: "page_at s (Tdvpx v (i + j)) = p" using assms(2,3) by (auto simp: array_at_def)
    have "p \<noteq> 0" using p nz(2) by auto
    have "page_at s2 b = 0" if "page_at s b = p" for b
      using U(1) k \<open>p \<noteq> 0\<close> that at [of b] by (metis slots_ok_def le_add1)
    then show ?thesis using few(3) [of p] at by auto
  qed
  then have "td_state E {} (td_pages s2) (held_key s) U s1" using sub by (intro td_state_weaken [OF f(1)]) auto
  then have "td_state E {} (td_pages s2) (held_key s) U s2" by (rule td_state_frame) (simp_all add: s2_def)
  moreover have "held_key s2 = held_key s" "key_ok E n0 U s2" "finalized (td s2) = finalized (td s)"
    using U(3) f(2) \<open>td s1 = td s\<close> by (simp_all add: s2_def held_key_def key_ok_def core_def)
  ultimately show ?thesis using slots unfolding run td_inv_def by auto
qed

lemma vp_addcx_loop:
  assumes "spare E n0 (set ps) s" "v < length (vcpus s)" "tdvpx_pa (vcpus s ! v) = Some a" "ps = drop i a" "distinct a" "0 \<notin> set a"
    and "\<not> finalized (td s)" "vp_addcx_loop E v ps i s = (r, s')"
  shows "td_inv E n0 s' \<and> finalized (td s') = finalized (td s) \<and> (r = 0 \<longrightarrow> core s' = core s)"
  using assms
proof (induction ps arbitrary: i s)
  case Nil
  then show ?case using spare_inv(1) by auto
next
  case (Cons p ps)
  define c where "c = Tdh_vp_addcx (tdvpr_pa (vcpus s ! v)) p"
  define e where "e = fst (answer_tdh E (td_log s) c)"
  have d: "drop i a = p # ps" using Cons.prems(4) by simp
  have run: "vp_addcx_loop E v (p # ps) i s = (if e \<noteq> 0 then (- EIO, drop_tdvpx E v i (p # ps) (kvm_bug_on True (td_emit (Tdh c e) s)))
      else vp_addcx_loop E v ps (Suc i) (td_emit (Tdh c e) s))"
    by (simp add: tdh_run c_def e_def drop_tdvpx_def)
  show ?case
  proof (cases "e = 0")
    case False
    have "spare E n0 (set (p # ps)) (td_emit (Tdh c e) s)"
      by (rule spare_core [OF Cons.prems(1)]) (use Cons.prems(7) in \<open>simp_all add: state_refused False c_def\<close>)
    then have "spare E n0 (set (drop i a)) (kvm_bug_on True (td_emit (Tdh c e) s))" unfolding d by (rule spare.bug)
    from drop_tdvpx [OF this _ _ Cons.prems(5,6), of v] Cons.prems(2,3,8) run False d
    show ?thesis by (auto simp: EIO_def)
  next
    case True
    have dist: "distinct (p # ps)" using Cons.prems(5) d by (metis distinct_drop)
    have "spare E n0 (set ps) (td_emit (Tdh c 0) s)"
    proof (rule spare_core [OF Cons.prems(1)])
      fix U assume st: "td_state E (set (p # ps)) (td_pages s) (held_key s) U s"
      have "td_state E (set (p # ps) - {p}) (insert p (td_pages s)) (held_key s) U (td_emit (Tdh c 0) s)"
        by (rule state_donate [OF st]) (use Cons.prems(7) in \<open>simp_all add: c_def\<close>)
      moreover have "set (p # ps) - {p} = set ps" using dist by auto
      ultimately show "td_state E (set ps) (td_pages s) (held_key s) U (td_emit (Tdh c 0) s)" by (auto intro: td_state_weaken)
    qed simp
    moreover have "ps = drop (Suc i) a" using d by (metis drop_Suc tl_drop list.sel(3))
    ultimately show ?thesis using Cons.IH [of "td_emit (Tdh c 0) s" "Suc i"] Cons.prems(2,3,5-8) run True by simp
  qed
qed

text \<open>The labels \<open>free_tdvpx\<close> and \<open>free_tdvpr\<close>.\<close>

lemma vp_slot_cleared:
  "page_at (set_vcpu v (tdvpr_pa_update (\<lambda>_. 0)) s) a = page_at s a \<or> page_at (set_vcpu v (tdvpr_pa_update (\<lambda>_. 0)) s) a = 0"
  "page_at (set_vcpu v (tdvpx_pa_update (\<lambda>_. None)) s) a = page_at s a \<or> page_at (set_vcpu v (tdvpx_pa_update (\<lambda>_. None)) s) a = 0"
  by (cases a; auto simp: array_at_def)+

lemma vcpu_init_free_tdvpr:
  assumes "spare E n0 H s" "H \<inter> td_pages s = {}" "t \<in> H" "t \<noteq> 0"
  shows "fst (td_vcpu_init_free_tdvpr E v q t s) = q \<and> td_inv E n0 (snd (td_vcpu_init_free_tdvpr E v q t s)) \<and>
    finalized (td (snd (td_vcpu_init_free_tdvpr E v q t s))) = finalized (td s)"
proof -
  have "spare E n0 (H - {t}) (free_page_td (va_of E t) s)" using spare_free_page [OF assms(1-3)] .
  from spare_fewer [OF this vp_slot_cleared(1), of v] assms(4) show ?thesis
    by (auto simp: td_vcpu_init_free_tdvpr_def intro: spare_inv(1))
qed

lemma vcpu_init_free_tdvpx:
  assumes "spare E n0 (insert t (set ys)) s" "insert t (set ys) \<inter> td_pages s = {}" "t \<noteq> 0" "t \<notin> set ys" "distinct ys" "0 \<notin> set ys"
  shows "fst (td_vcpu_init_free_tdvpx E v q (ys @ replicate m 0) t s) = q \<and>
    td_inv E n0 (snd (td_vcpu_init_free_tdvpx E v q (ys @ replicate m 0) t s)) \<and>
    finalized (td (snd (td_vcpu_init_free_tdvpx E v q (ys @ replicate m 0) t s))) = finalized (td s)"
proof -
  let ?ps = "ys @ replicate m 0" and ?H = "insert t (set ys)"
  have nz: "filter (\<lambda>p. p \<noteq> 0) ?ps = ys" using assms(6) by (auto simp: filter_id_conv)
  have f: "spare E n0 (?H - set ?ps) (free_control_pages E ?ps s)" "core (free_control_pages E ?ps s) = core s"
    using spare_free [OF assms(1,2), of ?ps] assms(5) unfolding nz by auto
  define s1 where "s1 = kfree True (free_control_pages E ?ps s)"
  have s1: "spare E n0 (?H - set ?ps) s1" "td_pages s1 = td_pages s" "finalized (td s1) = finalized (td s)"
    using spare.services(2) [OF f(1)] core_views(2,7) [of s1 s] f(2) by (simp_all add: s1_def)
  define s2 where "s2 = set_vcpu v (tdvpx_pa_update (\<lambda>_. None)) s1"
  have s2: "spare E n0 (?H - set ?ps) s2 \<and> td_pages s2 \<subseteq> td_pages s1" unfolding s2_def
    by (rule spare_fewer [OF s1(1) vp_slot_cleared(2)]) simp_all
  have "t \<in> ?H - set ?ps" "(?H - set ?ps) \<inter> td_pages s2 = {}" using assms(2,3,4) s1(2) s2 by auto
  with vcpu_init_free_tdvpr [OF conjunct1 [OF s2] _ _ assms(3), of v q] s1(3) show ?thesis
    by (simp add: td_vcpu_init_free_tdvpx_def s1_def [symmetric] s2_def [symmetric]) (simp add: s2_def)
qed

text \<open>What follows the allocations.\<close>

definition vcpu_init_create :: "td_env \<Rightarrow> nat \<Rightarrow> u64 \<Rightarrow> u64 \<Rightarrow> u64 list \<Rightarrow> td_host \<Rightarrow> int \<times> td_host" where
  "vcpu_init_create E v rcx t ps s = (case tdh E (Tdh_vp_create (tdr_pa (td s)) t) s of (err, _, s) \<Rightarrow>
     if err \<noteq> 0 then td_vcpu_init_free_tdvpx E v (- EIO) ps t (kvm_bug_on True s)
     else
       let s = set_vcpu v (\<lambda>x. x\<lparr>tdvpr_pa := t, tdvpx_pa := Some ps\<rparr>) s;
           (ret, s) = vp_addcx_loop E v ps 0 s
       in if ret \<noteq> 0 then (ret, s)
          else case tdh E (Tdh_vp_init (tdvpr_pa (vcpus s ! v)) rcx) s of (err, _, s) \<Rightarrow>
            if err \<noteq> 0 then (- EIO, kvm_bug_on True s)
            else (0, set_vcpu v (\<lambda>x. x\<lparr>apicv_active := False, mp_runnable := True, td_vcpu_created := True\<rparr>)
                       (warn_on_once (\<not> apicv_inhibited s) s)))"

lemma inv_vcpu_create:
  assumes "spare E n0 (insert t (set ys)) s" "insert t (set ys) \<inter> td_pages s = {}" "t \<noteq> 0" "t \<notin> set ys" "distinct ys" "0 \<notin> set ys"
    and "v < length (vcpus s)" "\<not> finalized (td s)" "vcpu_init_create E v rcx t ys s = (r, s')"
  shows "td_inv E n0 s' \<and> \<not> finalized (td s')"
proof -
  define c where "c = Tdh_vp_create (tdr_pa (td s)) t"
  define e where "e = fst (answer_tdh E (td_log s) c)"
  define s1 where "s1 = td_emit (Tdh c e) s"
  define s2 where "s2 = set_vcpu v (\<lambda>x. x\<lparr>tdvpr_pa := t, tdvpx_pa := Some ys\<rparr>) s1"
  obtain r3 s3 where l: "vp_addcx_loop E v ys 0 s2 = (r3, s3)" by fastforce
  define c4 where "c4 = Tdh_vp_init (tdvpr_pa (vcpus s3 ! v)) rcx"
  define e4 where "e4 = fst (answer_tdh E (td_log s3) c4)"
  define s4 where "s4 = td_emit (Tdh c4 e4) s3"
  have run: "vcpu_init_create E v rcx t ys s = (if e \<noteq> 0 then td_vcpu_init_free_tdvpx E v (- EIO) ys t (kvm_bug_on True s1)
      else if r3 \<noteq> 0 then (r3, s3)
      else if e4 \<noteq> 0 then (- EIO, kvm_bug_on True s4)
      else (0, set_vcpu v (\<lambda>x. x\<lparr>apicv_active := False, mp_runnable := True, td_vcpu_created := True\<rparr>)
                 (warn_on_once (\<not> apicv_inhibited s4) s4)))"
    by (simp add: vcpu_init_create_def tdh_run c_def [symmetric] e_def [symmetric] s1_def [symmetric] s2_def [symmetric] l
      c4_def [symmetric] e4_def [symmetric] s4_def [symmetric] Let_def cong: if_cong)
  show ?thesis
  proof (cases "e = 0")
    case False
    have "spare E n0 (insert t (set ys)) s1" unfolding s1_def
      by (rule spare_core [OF assms(1)]) (use assms(8) in \<open>simp_all add: state_refused False c_def\<close>)
    then have b: "spare E n0 (insert t (set ys)) (kvm_bug_on True s1)" by (rule spare.bug)
    have "core (kvm_bug_on True s1) = core s" by (simp add: s1_def)
    from vcpu_init_free_tdvpx [OF b _ assms(3-6), of v "- EIO" 0] core_views(2,7) [OF this] assms(2,8,9) run False
    show ?thesis by simp
  next
    case True
    obtain U where U: "slots_ok s" "td_state E (insert t (set ys)) (td_pages s) (held_key s) U s" "key_ok E n0 U s"
      using assms(1) by (auto simp: spare_def)
    have st: "td_state E (insert t (set ys) - {t}) (insert t (td_pages s)) (held_key s) U s1" unfolding s1_def True
      by (rule state_donate [OF U(2)]) (use assms(8) in \<open>simp_all add: c_def\<close>)
    have H: "insert t (set ys) - {t} = set ys" using assms(4) by auto
    have cv: "core s1 = core s" "vcpus s1 = vcpus s" "td s1 = td s" by (simp_all add: s1_def)
    have sp: "spare E n0 (set ys) s2"
    proof (rule assign_vp [OF _ _ _ _ _ assms(5) assms(4) s2_def])
      show "td_state E (set ys) (insert t (td_pages s1)) (held_key s1) U s1" using st H core_views(2,3) [OF cv(1)] by simp
    qed (use assms(2,7) U(1,3) core_views [OF cv(1)] cv(2) in simp_all)
    have "v < length (vcpus s2)" "tdvpx_pa (vcpus s2 ! v) = Some ys" "\<not> finalized (td s2)"
      using assms(7,8) cv by (simp_all add: s2_def)
    from vp_addcx_loop [OF sp this(1,2) _ assms(5,6) this(3) l]
    have I3: "td_inv E n0 s3" "\<not> finalized (td s3)" using \<open>\<not> finalized (td s2)\<close> by simp_all
    have I4: "td_inv E n0 s4" "\<not> finalized (td s4)"
      using inv.call [OF I3(1), of c4 e4] I3(2) by (simp_all add: s4_def c4_def is_td_finalized_def)
    have I5: "td_inv E n0 (warn_on_once (\<not> apicv_inhibited s4) s4)" using I4(1) by (rule inv.services)
    have "td_inv E n0 (set_vcpu v (\<lambda>x. x\<lparr>apicv_active := False, mp_runnable := True, td_vcpu_created := True\<rparr>)
                 (warn_on_once (\<not> apicv_inhibited s4) s4))"
      by (rule inv.frame [OF I5]) (simp_all add: core_set_vcpu vp_pages_def)
    then show ?thesis using run assms(9) True I3 I4 inv.bug [OF I4(1)] by (auto split: if_splits)
  qed
qed

lemma inv_td_vcpu_init:
  assumes "td_env_ok E" "td_inv E n0 s" "v < length (vcpus s)" "\<not> finalized (td s)" "tdx_td_vcpu_init E v rcx s = (r, s')"
  shows "td_inv E n0 s' \<and> \<not> finalized (td s')"
proof -
  obtain va s1 where va: "get_free_page_td E s = (va, s1)" by fastforce
  obtain arr s2 where arr: "kmalloc E s1 = (arr, s2)" by fastforce
  define t where "t = pa_of E va"
  define n where "n = unat (nr_tdvpx_pages (tdx_info_of E))"
  obtain ok ps s3 where al: "alloc_control_pages E n 0 (replicate n 0) s2 = (ok, ps, s3)" by (rule prod_cases3)
  have run: "tdx_td_vcpu_init E v rcx s = (if is_td_vcpu_created (vcpus s ! v) then (- EINVAL, s)
      else if va = 0 then (- ENOMEM, s1) else if \<not> arr then td_vcpu_init_free_tdvpr E v (- ENOMEM) t s2
      else if \<not> ok then td_vcpu_init_free_tdvpx E v (- ENOMEM) ps t s3 else vcpu_init_create E v rcx t ps s3)"
    using va arr al by (simp add: tdx_td_vcpu_init_def vcpu_init_create_def Let_def n_def [symmetric] t_def [symmetric] cong: if_cong)
  have g: "core s1 = core s \<and> (if va = 0 then spare E n0 {} s1 else t \<noteq> 0 \<and> t \<notin> {} \<union> td_pages s \<and> spare E n0 {t} s1)"
    using spare_get_page [OF assms(1) spare_inv(2) [OF assms(2)] va] by (auto simp: t_def split: if_splits)
  consider "is_td_vcpu_created (vcpus s ! v)" | "\<not> is_td_vcpu_created (vcpus s ! v)" "va = 0"
    | "\<not> is_td_vcpu_created (vcpus s ! v)" "va \<noteq> 0" by blast
  then show ?thesis
  proof cases
    case 1
    then show ?thesis using run assms(2,4,5) by simp
  next
    case 2
    then show ?thesis using run assms(4,5) g spare_inv(1) [of E n0 "{}" s1] core_views(7) [of s1 s] by simp
  next
    case 3
    have s2: "spare E n0 {t} s2" "core s2 = core s"
      using spare.services(3) [of E n0 "{t}" s1] cores.services(3) [of s1 "core s"] arr g 3 by (metis snd_conv)+
    have t: "t \<noteq> 0" "t \<notin> td_pages s2" using g 3 core_views(2) [OF s2(2)] by auto
    note al3 = spare_alloc [OF assms(1) s2(1) al]
    then obtain ys m where a: "ps = ys @ replicate m 0" "spare E n0 (insert t (set ys)) s3" "distinct ys" "0 \<notin> set ys"
      "set ys \<inter> ({t} \<union> td_pages s2) = {}" "ok \<longrightarrow> m = 0" by auto
    have c3: "core s3 = core s" using al3 s2(2) by simp
    have p: "insert t (set ys) \<inter> td_pages s3 = {}" "t \<notin> set ys" using a(5) t(2) core_views(2) [OF c3] core_views(2) [OF s2(2)] by auto
    have fin: "\<not> finalized (td s2)" "\<not> finalized (td s3)" using assms(4) core_views(7) [OF c3] core_views(7) [OF s2(2)] by simp_all
    have "length (vcpus s3) = length (vcpus s)" using c3 by (auto simp: core_def dest: map_eq_imp_length_eq)
    then have v: "v < length (vcpus s3)" using assms(3) by simp
    have s': "s' = snd (tdx_td_vcpu_init E v rcx s)" using assms(5) by simp
    show ?thesis unfolding s'
      using run 3 vcpu_init_free_tdvpr [OF s2(1) _ _ t(1), of v "- ENOMEM"] t(2) fin
        vcpu_init_free_tdvpx [OF a(2) p(1) t(1) p(2) a(3,4), of v "- ENOMEM" m] a(1,6)
        inv_vcpu_create [OF a(2) p(1) t(1) p(2) a(3,4) v fin(2) prod.collapse [symmetric], of rcx]
      by (cases arr; cases ok) simp_all
  qed
qed

end
