(* ===== verification/Tdx_Steps.thy ===== *)
theory Tdx_Steps
  imports Tdx_Vcpu
begin

text \<open>
  The operations that KVM calls on a TD as the steps of a transition system, each with the guards of its caller,
  and the states that a TD reaches.
\<close>

section \<open>Finalisation and the command that creates the TD\<close>

lemma inv_finalizemr:
  assumes "td_inv E n0 s" "tdx_td_finalizemr E s = (r, s')"
  shows "td_inv E n0 s'"
proof (cases "\<not> is_hkid_assigned (td s) \<or> is_td_finalized (td s)")
  case True
  then show ?thesis using assms by (auto simp: tdx_td_finalizemr_def)
next
  case False
  then have fin: "\<not> finalized (td s)" by (simp add: is_td_finalized_def)
  define c where "c = Tdh_mr_finalize (tdr_pa (td s))"
  define e where "e = fst (answer_tdh E (td_log s) c)"
  have run: "tdx_td_finalizemr E s = (if e \<noteq> 0 then (- EIO, warn_on_once True (td_emit (Tdh c e) s))
      else (0, set_td (finalized_update (\<lambda>_. True)) (td_emit (Tdh c e) s)))"
    using False by (simp add: tdx_td_finalizemr_def tdh_run c_def e_def)
  obtain U where U: "slots_ok s" "td_state E {} (td_pages s) (held_key s) U s" "key_ok E n0 U s"
    using assms(1) by (auto simp: td_inv_def)
  show ?thesis
  proof (cases "e = 0")
    case False
    then have "td_state E {} (td_pages s) (held_key s) U (td_emit (Tdh c e) s)"
      using U(2) fin by (intro state_refused) (simp_all add: c_def)
    then have "td_inv E n0 (td_emit (Tdh c e) s)"
      using U(1,3) core_views [of "td_emit (Tdh c e) s" s] by (auto simp: td_inv_def)
    then show ?thesis using run False assms(2) inv.services(1) by simp
  next
    case True
    let ?s = "set_td (finalized_update (\<lambda>_. True)) (td_emit (Tdh c e) s)"
    obtain st where st: "own_run E (td_log s) = Some st" "own_ok E {} (td_pages s) st" "key_run (td_log s) = Some (held_key s, U)"
      "fin_run (td_log s) = Some False" using U(2) fin by (auto simp: td_state_def)
    have td: "td_state E {} (td_pages s) (held_key s) U ?s"
      using st True by (simp add: td_state_def c_def)
    have "page_at ?s a = page_at s a" for a by (cases a) simp_all
    then have "page_at ?s = page_at s" by (rule ext)
    then have "td_pages ?s = td_pages s" "slots_ok ?s" using td_pages_cong [of ?s s] U(1) by simp_all
    then have "td_inv E n0 ?s" using td U(3) by (auto simp: td_inv_def held_key_def key_ok_def is_hkid_assigned_def)
    then show ?thesis using run True assms(2) by simp
  qed
qed

text \<open>The parameters of a TD leave its pages, key id and phase alone.\<close>

lemma setup_tdparams_frame:
  assumes "setup_tdparams E tp iv s = (r, tp', s')"
  shows "core s' = core s \<and> td_log s' = td_log s \<and> hkid (td s') = hkid (td s)"
  using assms
  by (auto simp: setup_tdparams_def setup_tdparams_cpuids_def Let_def core_def split: if_splits prod.splits)

lemma td_init_out_inv:
  assumes "td_inv E n0 s" shows "td_inv E n0 (snd (snd (td_init_out a b r err s)))"
proof -
  let ?t = "\<lambda>s. set_td (td_cpuid_update (\<lambda>_. None)) s"
  have "td_inv E n0 (?t (kfree (td_cpuid (td s) \<noteq> None) s))"
    by (rule inv.frame [OF inv.services(2) [OF assms]]) (simp_all add: core_def)
  then show ?thesis using assms by (simp add: td_init_out_def Let_def inv.services)
qed

lemma inv_kmalloc:
  assumes "kmalloc E s = (ok, s1)" "td_inv E n0 s" shows "td_inv E n0 s1 \<and> hkid (td s1) = hkid (td s)"
  using inv.services(3) [OF assms(2)] assms(1) by (auto simp: kmalloc_def Let_def)

lemma inv_td_init:
  assumes "td_env_ok E" "td_inv E n0 s" "tdx_td_init E U cmd s = Some (r, err, s')"
  shows "td_inv E n0 s'"
proof (cases "is_hkid_assigned (td s) \<or> cmd_flags cmd \<noteq> 0")
  case True
  then show ?thesis using assms(2,3) by (cases "is_hkid_assigned (td s)") (simp_all add: tdx_td_init_def)
next
  case False
  have fr: "td_inv E n0 (set_td (td_cpuid_update f) x)" if "td_inv E n0 x" for f x
    by (rule inv.frame [OF that]) (simp_all add: core_def)
  have out: "td_inv E n0 s'" if "Some (td_init_out a b q err0 x) = Some (r, err, s')" "td_inv E n0 x" for a b q err0 x
    using td_init_out_inv [OF that(2), of a b q err0] that(1) by (metis option.inject snd_conv)
  obtain ok1 s1 where k1: "kmalloc E (warn_on_once (td_cpuid (td s) \<noteq> None) s) = (ok1, s1)" by fastforce
  have h1: "td_inv E n0 s1" "hkid (td s1) = hkid (td s)"
    using inv_kmalloc [OF k1 inv.services(1) [OF assms(2)]] by simp_all
  define s2 where "s2 = set_td (td_cpuid_update (\<lambda>_. Some [])) s1"
  obtain ok2 s3 where k2: "kmalloc E s2 = (ok2, s3)" by fastforce
  have h2: "td_inv E n0 s2" unfolding s2_def by (rule fr [OF h1(1)])
  then have h3: "td_inv E n0 s3" "hkid (td s3) = hkid (td s)"
    using inv_kmalloc [OF k2 h2] h1(2) by (simp_all add: s2_def)
  obtain q iv where rd: "read_init_vm E U (cmd_data cmd) = (q, iv)" by fastforce
  note run = assms(3) [unfolded tdx_td_init_def]
  show ?thesis
  proof (cases "ok1 \<and> ok2 \<and> iv \<noteq> None")
    case False': False
    then show ?thesis using run False k1 k2 rd fr [OF h1(1)] out [OF _ h3(1)]
      by (cases ok1; cases ok2; cases iv) (auto simp: s2_def)
  next
    case True
    then obtain init_vm where iv: "iv = Some init_vm" by blast
    obtain ok4 s4 where k4: "kmalloc E s3 = (ok4, s4)" by fastforce
    have h4: "td_inv E n0 s4" "hkid (td s4) = hkid (td s)"
      using inv_kmalloc [OF k4 h3(1)] h3(2) by simp_all
    obtain q5 tp s5 where sp: "setup_tdparams E (zero_params E) init_vm s4 = (q5, tp, s5)" by (rule prod_cases3)
    have h5: "td_inv E n0 s5" "\<not> is_hkid_assigned (td s5)"
      using setup_tdparams_frame [OF sp] inv.frame [OF h4(1)] h4(2) False by (auto simp: is_hkid_assigned_def)
    show ?thesis
    proof (cases "ok4 \<and> q5 = 0")
      case False': False
      then show ?thesis using run False k1 k2 k4 rd sp True iv out [OF _ h4(1)] out [OF _ h5(1)]
        by (cases ok4) (auto simp: s2_def)
    next
      case ok: True
      obtain q6 e6 s6 where inner: "tdx_td_init_inner E tp s5 = Some (q6, e6, s6)"
        using run False k1 k2 k4 rd sp True iv ok by (auto simp: s2_def bind_eq_Some_conv)
      have h6: "td_inv E n0 s6" using inv_inner [OF assms(1) h5 inner] by simp
      let ?s7 = "set_td (\<lambda>k. k\<lparr>td_tsc_offset := td_tsc_offset_answer E (td_log s6),
        td_attributes := tp_attributes tp, td_xfam := tp_xfam tp\<rparr>) s6"
      have "td_inv E n0 (?s7\<lparr>gfn_shared_mask := g\<rparr>)" for g by (rule inv.frame [OF h6]) (simp_all add: core_def)
      then show ?thesis using run False k1 k2 k4 rd sp True iv ok inner out [OF _ h6] out
        by (cases "q6 = 0") (auto simp: s2_def Let_def)
    qed
  qed
qed

section \<open>The commands of the user\<close>

lemma inv_vm_ioctl:
  assumes "td_env_ok E" "td_inv E n0 s" "tdx_vm_ioctl E U argp s = Some (r, s')"
  shows "td_inv E n0 s'"
proof (cases "user_cmd U argp")
  case None
  then show ?thesis using assms(2,3) by (simp add: tdx_vm_ioctl_def)
next
  case (Some cmd)
  let ?fin = "\<lambda>(r, s). (if \<not> user_writable U argp then - EFAULT else r, s)"
  have out: "s' = snd x" if "Some (?fin x) = Some (r, s')" for x using that by (cases x) (simp split: if_splits)
  have keep: "td_inv E n0 s'" if "Some (?fin x) = Some (r, s')" "td_inv E n0 (snd x)" for x using out [OF that(1)] that(2) by simp
  consider "cmd_error cmd \<noteq> 0" | "cmd_error cmd = 0" "cmd_id cmd = KVM_TDX_CAPABILITIES E"
    | "cmd_error cmd = 0" "cmd_id cmd \<noteq> KVM_TDX_CAPABILITIES E" "cmd_id cmd = KVM_TDX_INIT_VM E"
    | "cmd_error cmd = 0" "cmd_id cmd \<noteq> KVM_TDX_CAPABILITIES E" "cmd_id cmd \<noteq> KVM_TDX_INIT_VM E" by blast
  then show ?thesis
  proof cases
    case 1
    then show ?thesis using assms(2,3) Some by (simp add: tdx_vm_ioctl_def)
  next
    case 2
    have "td_inv E n0 (snd (case tdx_get_capabilities E U cmd s of (r, _, s) \<Rightarrow> (r, s)))"
      using inv.capabilities [OF assms(2), of U cmd] by (simp add: split_beta)
    then show ?thesis using keep [of "case tdx_get_capabilities E U cmd s of (r, _, s) \<Rightarrow> (r, s)"] assms(3) Some 2
      by (simp add: tdx_vm_ioctl_def Let_def)
  next
    case 3
    then obtain q e s1 where t: "tdx_td_init E (td_user.truncate U) cmd s = Some (q, e, s1)"
      using assms(3) Some by (auto simp: tdx_vm_ioctl_def Let_def bind_eq_Some_conv split: if_splits)
    then show ?thesis using keep [of "(q, s1)"] inv_td_init [OF assms(1,2) t] assms(3) Some 3
      by (simp add: tdx_vm_ioctl_def Let_def)
  next
    case 4
    have "td_inv E n0 (snd (case tdx_extend_memory E U cmd s of (r, _, s) \<Rightarrow> (r, s)))"
      using inv.extend_memory [OF assms(2), of U cmd] by (simp add: split_beta)
    moreover have "td_inv E n0 (snd (tdx_td_finalizemr E s))"
      using inv_finalizemr [OF assms(2) prod.collapse [symmetric]] .
    ultimately show ?thesis
      using keep [of "case tdx_extend_memory E U cmd s of (r, _, s) \<Rightarrow> (r, s)"] keep [of "tdx_td_finalizemr E s"] assms(2,3) Some 4
      by (cases "cmd_id cmd = KVM_TDX_EXTEND_MEMORY E"; cases "cmd_id cmd = KVM_TDX_FINALIZE_VM E")
        (simp_all add: tdx_vm_ioctl_def Let_def)
  qed
qed

lemma inv_vcpu_ioctl:
  assumes "td_env_ok E" "td_inv E n0 s" "v < length (vcpus s)" "tdx_vcpu_ioctl E U v argp s = (r, s')"
  shows "td_inv E n0 s'"
proof (cases "vcpu_initialized (vcpus s ! v) \<or> \<not> is_hkid_assigned (td s) \<or> is_td_finalized (td s) \<or>
    (case user_cmd U argp of None \<Rightarrow> True
     | Some cmd \<Rightarrow> cmd_error cmd \<noteq> 0 \<or> cmd_flags cmd \<noteq> 0 \<or> cmd_id cmd \<noteq> KVM_TDX_INIT_VCPU E)")
  case True
  then have "s' = s" using assms(4) by (cases "user_cmd U argp") (auto simp: tdx_vcpu_ioctl_def split: if_splits)
  then show ?thesis using assms(2) by simp
next
  case False
  then obtain cmd where cmd: "user_cmd U argp = Some cmd" by (cases "user_cmd U argp") auto
  define base where "base = APIC_DEFAULT_PHYS_BASE E OR LAPIC_MODE_X2APIC E OR (if is_reset_bsp E v then MSR_IA32_APICBASE_BSP E else 0)"
  define s1 where "s1 = td_emit (Set_apic_base v base) s"
  obtain r2 s2 where m: "tdx_vcpu_init_mtrr E v s1 = (r2, s2)" by fastforce
  obtain r3 s3 where i: "tdx_td_vcpu_init E v (cmd_data cmd) s2 = (r3, s3)" by fastforce
  have I1: "td_inv E n0 s1" using inv.event [OF assms(2)] by (simp add: s1_def)
  have I2: "td_inv E n0 s2" using inv.init_mtrr [OF I1, of v] m by simp
  have c2: "core s2 = core s" using cores.init_mtrr [OF refl, of E v s1] m by (simp add: s1_def)
  have v2: "v < length (vcpus s2)" using assms(3) c2 by (auto simp: core_def dest: map_eq_imp_length_eq)
  have f2: "\<not> finalized (td s2)" using False core_views(7) [OF c2] by (simp add: is_td_finalized_def)
  have I3: "td_inv E n0 s3" using inv_td_vcpu_init [OF assms(1) I2 v2 f2 i] by simp
  define s4 where "s4 = td_emit (Vmcs_setbit v (PIN_BASED_VM_EXEC_CONTROL E) (PIN_BASED_POSTED_INTR E))
    (td_emit (Vmcs_write v (POSTED_INTR_DESC_ADDR E) (pi_desc_pa E v)) (td_emit (Vmcs_write v (POSTED_INTR_NV E) (POSTED_INTR_VECTOR E)) s3))"
  have I4: "td_inv E n0 s4" using inv.event [OF inv.event [OF inv.event [OF I3]]] by (simp add: s4_def)
  have I5: "td_inv E n0 (set_vcpu v (vcpu_initialized_update (\<lambda>_. True)) s4)"
    by (rule inv.frame [OF I4]) (simp_all add: core_set_vcpu vp_pages_def)
  have "tdx_vcpu_ioctl E U v argp s = (if answer_set_apic_base E (td_log s) v base then (- EINVAL, s1)
      else if r2 \<noteq> 0 then (r2, s2) else if r3 \<noteq> 0 then (r3, s3) else (0, set_vcpu v (vcpu_initialized_update (\<lambda>_. True)) s4))"
    using False cmd m i by (simp add: tdx_vcpu_ioctl_def base_def [symmetric] s1_def [symmetric] s4_def Let_def cong: if_cong)
  then show ?thesis using assms(4) I1 I2 I3 I5 by (auto split: if_splits)
qed

section \<open>The transition system\<close>

text \<open>The structure of a virtual processor as it is allocated and \<open>tdx_vcpu_create\<close> leaves it.\<close>

definition zero_vcpu :: vcpu_tdx where
  "zero_vcpu = \<lparr>tdvpr_pa = 0, tdvpx_pa = None, td_vcpu_created = False, vcpu_initialized = False, vcpu_cpu = - 1,
     apicv_active = False, mp_runnable = False\<rparr>"

definition td_new_vcpu :: "td_host \<Rightarrow> td_host" where
  "td_new_vcpu s = s\<lparr>vcpus := vcpus s @ [zero_vcpu], created_vcpus := created_vcpus s + 1\<rparr>"

text \<open>
  One operation, with any arguments. \<open>load\<close> is \<open>kvm_arch_vcpu_load\<close>, which sets the processor of the virtual
  one after \<open>tdx_vcpu_load\<close>; \<open>new_vcpu\<close> is done by the part of KVM that is common to all architectures.
\<close>

inductive td_step :: "td_env \<Rightarrow> td_host \<Rightarrow> td_host \<Rightarrow> bool" for E where
  enable_cap: "tdx_vm_enable_cap E cap s = (r, s') \<Longrightarrow> td_step E s s'"
| vm_init: "tdx_vm_init E s = (r, s') \<Longrightarrow> td_step E s s'"
| new_vcpu: "td_step E s (td_new_vcpu s)"
| vm_ioctl: "tdx_vm_ioctl E (U :: td_user_memory) argp s = Some (r, s') \<Longrightarrow> td_step E s s'"
| vcpu_ioctl: "v < length (vcpus s) \<Longrightarrow> tdx_vcpu_ioctl E (U :: td_user_memory) v argp s = (r, s') \<Longrightarrow> td_step E s s'"
| load: "td_step E s (set_vcpu v (vcpu_cpu_update (\<lambda>_. int cpu)) (tdx_vcpu_load E v cpu s))"
| hardware_disable: "td_step E s (tdx_hardware_disable E cpu s)"
| pre_mapping: "tdx_pre_memory_mapping E m s = (r, out, s') \<Longrightarrow> td_step E s s'"
| post_mapping: "td_step E s (tdx_post_memory_mapping s)"
| set_private: "tdx_sept_set_private_spte E gfn level pfn s = Some (r, s') \<Longrightarrow> td_step E s s'"
| remove_private: "tdx_sept_remove_private_spte E gfn level pfn s = Some (r, s') \<Longrightarrow> td_step E s s'"
| link: "tdx_sept_link_private_spt E gfn level spt s = (r, s') \<Longrightarrow> td_step E s s'"
| split: "tdx_sept_split_private_spt E gfn level spt s = Some (r, s') \<Longrightarrow> td_step E s s'"
| merge: "tdx_sept_merge_private_spt E gfn level spt s = Some (r, s') \<Longrightarrow> td_step E s s'"
| zap: "tdx_sept_zap_private_spte E gfn level s = (r, s') \<Longrightarrow> td_step E s s'"
| unzap: "tdx_sept_unzap_private_spte E gfn level s = Some (r, s') \<Longrightarrow> td_step E s s'"
| free_spt: "tdx_sept_free_private_spt E gfn level spt s = Some (r, s') \<Longrightarrow> td_step E s s'"
| flush_remote_tlbs: "tdx_sept_flush_remote_tlbs E is_td s = Some (r, s') \<Longrightarrow> td_step E s s'"
| release_hkid: "tdx_mmu_release_hkid E s = Some s' \<Longrightarrow> td_step E s s'"
| vm_free: "tdx_vm_free E s = Some s' \<Longrightarrow> td_step E s s'"
| vcpu_free: "v < length (vcpus s) \<Longrightarrow> tdx_vcpu_free E v s = Some s' \<Longrightarrow> td_step E s s'"

text \<open>A new virtual machine; \<open>n0\<close> key ids are used by others.\<close>

definition td_initial :: "int \<Rightarrow> td_host \<Rightarrow> bool" where
  "td_initial n0 s \<longleftrightarrow> td_log s = [] \<and> tdr_pa (td s) = 0 \<and> tdcs_pa (td s) = None \<and> hkid (td s) \<le> 0 \<and> \<not> finalized (td s) \<and>
     vcpus s = [] \<and> (\<forall>c. associated s c = []) \<and> nr_configured_hkid s = n0"

inductive td_reachable :: "td_env \<Rightarrow> int \<Rightarrow> td_host \<Rightarrow> bool" for E n0 where
  start: "td_initial n0 s \<Longrightarrow> td_reachable E n0 s"
| step: "td_reachable E n0 s \<Longrightarrow> td_step E s s' \<Longrightarrow> td_reachable E n0 s'"

lemma inv_initial:
  assumes "td_initial n0 s" shows "td_inv E n0 s"
proof -
  have at: "page_at s a = 0" for a using assms by (cases a) (simp_all add: td_initial_def array_at_def)
  then have "td_pages s = {}" "slots_ok s" by (auto simp: td_pages_def slots_ok_def)
  then show ?thesis using assms
    by (auto simp: td_inv_def td_state_def own_ok_def td_initial_def held_key_def key_ok_def is_hkid_assigned_def)
qed

lemma inv_new_vcpu:
  assumes "td_inv E n0 s" shows "td_inv E n0 (td_new_vcpu s)"
proof -
  have "page_at (td_new_vcpu s) a = page_at s a" for a
    by (cases a) (auto simp: td_new_vcpu_def zero_vcpu_def array_at_def nth_append)
  then have "page_at (td_new_vcpu s) = page_at s" by (rule ext)
  from td_pages_cong [OF this] obtain U where "slots_ok (td_new_vcpu s)" "td_state E {} (td_pages (td_new_vcpu s)) (held_key s) U s" "key_ok E n0 U s"
    using assms by (auto simp: td_inv_def)
  moreover from this(2) have "td_state E {} (td_pages (td_new_vcpu s)) (held_key s) U (td_new_vcpu s)"
    by (rule td_state_frame) (simp_all add: td_new_vcpu_def)
  ultimately show ?thesis by (auto simp: td_inv_def held_key_def key_ok_def td_new_vcpu_def)
qed

lemma inv_cap:
  assumes "td_inv E n0 s"
  shows "tdx_vm_enable_cap E cap s = (r, s') \<Longrightarrow> td_inv E n0 s'" "tdx_vm_init E s = (r, s') \<Longrightarrow> td_inv E n0 s'"
  using inv.frame [OF assms, of s'] assms
  by (auto simp: tdx_vm_enable_cap_def tdx_vm_init_def core_def split: if_splits)

lemma inv_step:
  assumes "td_step E s s'" "td_env_ok E" "td_inv E n0 s"
  shows "td_inv E n0 s'"
  using assms(1)
proof cases
  case (vm_ioctl U argp r)
  then show ?thesis by (rule inv_vm_ioctl [OF assms(2,3)])
next
  case (vcpu_ioctl v U argp r)
  then show ?thesis by (rule inv_vcpu_ioctl [OF assms(2,3)])
next
  case (load v cpu)
  then show ?thesis using inv.set_cpu [OF inv.vcpu_load [OF assms(3)]] by simp
next
  case (pre_mapping m r out)
  then show ?thesis using inv.pre_mapping [OF assms(3), of m] by simp
next
  case (set_private gfn level pfn r)
  then show ?thesis by (rule inv.set_private [OF _ assms(3)])
next
  case (remove_private gfn level pfn r)
  then show ?thesis by (rule inv.remove_private [OF _ assms(3)])
next
  case (link gfn level spt r)
  then show ?thesis using inv.link [OF assms(3), of gfn level spt] by simp
next
  case (split gfn level spt r)
  then show ?thesis by (rule inv.split [OF _ assms(3)])
next
  case (merge gfn level spt r)
  then show ?thesis by (rule inv.merge [OF _ assms(3)])
next
  case (zap gfn level r)
  then show ?thesis using inv.zap [OF assms(3), of gfn level] by simp
next
  case (unzap gfn level r)
  then show ?thesis by (rule inv.unzap [OF _ assms(3)])
next
  case (free_spt gfn level spt r)
  then show ?thesis by (rule inv.free_spt [OF _ assms(3)])
next
  case (flush_remote_tlbs is_td r)
  then show ?thesis by (rule inv.flush_remote_tlbs [OF _ assms(3)])
next
  case release_hkid
  then show ?thesis using inv_release [OF release_hkid assms(3)] by simp
next
  case vm_free
  then show ?thesis using inv_vm_free [OF vm_free assms(3)] by simp
next
  case (vcpu_free v)
  then show ?thesis using inv_vcpu_free [OF vcpu_free(2) assms(3) vcpu_free(1)] by simp
next
  case (enable_cap cap r)
  then show ?thesis using inv_cap(1) [OF assms(3)] by simp
next
  case (vm_init r)
  then show ?thesis using inv_cap(2) [OF assms(3)] by simp
next
  case new_vcpu
  then show ?thesis using inv_new_vcpu [OF assms(3)] by simp
next
  case (hardware_disable cpu)
  then show ?thesis using inv.hardware_disable [OF assms(3), of cpu] by simp
next
  case post_mapping
  then show ?thesis using inv.post_mapping [OF assms(3)] by simp
qed

theorem reachable_inv:
  assumes "td_env_ok E" "td_reachable E n0 s" shows "td_inv E n0 s"
  using assms(2) by induction (use inv_initial inv_step assms(1) in blast)+

end
