(* ===== verification/Tdx_Trace.thy ===== *)
theory Tdx_Trace
  imports Tdx_Steps
begin

text \<open>
  What the invariant of a TD means for the log: the order of the calls of the module and of the allocator that KVM has
  made, in every reachable state. The log has its newest event first.
\<close>

section \<open>Runs of the monitors\<close>

lemma own_step_back:
  assumes "own_step E e st = Some st'" "st' p = Not_cleared \<or> st' p = Host_owned"
  shows "st p = st' p \<or> (st' p = Not_cleared \<and> e = Tdh (Tdh_phymem_page_reclaim p) 0) \<or>
    (st' p = Host_owned \<and> st p = Not_cleared \<and> (\<exists>z. e = Cleared p z)) \<or>
    (st' p = Host_owned \<and> st p = Unallocated)"
proof (cases e)
  case (Tdh c err)
  show ?thesis
  proof (cases "donated c"; cases "reclaimed c")
    fix q assume "donated c = None" "reclaimed c = Some q"
    moreover from this(2) have "c = Tdh_phymem_page_reclaim q" by (cases c) simp_all
    ultimately show ?thesis using assms Tdh by (auto split: if_splits)
  qed (use assms Tdh in \<open>auto split: if_splits\<close>)
qed (use assms in \<open>auto split: if_splits\<close>)

text \<open>A page that the module has taken is free again only after it is reclaimed and cleared.\<close>

lemma own_run_donated:
  assumes "own_run E (us @ Tdh c 0 # vs) = Some st" "donated c = Some p"
  shows "st p = Module_owned \<or> (st p = Not_cleared \<and> Tdh (Tdh_phymem_page_reclaim p) 0 \<in> set us) \<or>
    (\<exists>w1 z w2. us = w1 @ Cleared p z # w2 \<and> Tdh (Tdh_phymem_page_reclaim p) 0 \<in> set w2)"
  using assms(1)
proof (induction us arbitrary: st)
  case Nil
  then show ?case using assms(2) by (auto simp: bind_eq_Some_conv split: option.splits if_splits)
next
  case (Cons e us)
  then obtain st0 where st0: "own_run E (us @ Tdh c 0 # vs) = Some st0" "own_step E e st0 = Some st"
    by (auto simp: bind_eq_Some_conv)
  from Cons.IH [OF st0(1)] consider "st0 p = Module_owned" | "st0 p = Not_cleared" "Tdh (Tdh_phymem_page_reclaim p) 0 \<in> set us"
    | w1 z w2 where "us = w1 @ Cleared p z # w2" "Tdh (Tdh_phymem_page_reclaim p) 0 \<in> set w2" by blast
  then show ?case
  proof cases
    case 1
    then have "st p \<noteq> Unallocated" using st0(2) by (cases e) (auto split: if_splits option.splits)
    then show ?thesis using own_step_back [OF st0(2), of p] 1 by (cases "st p") auto
  next
    case 2
    then have "st p \<noteq> Unallocated" using st0(2) by (cases e) (auto split: if_splits option.splits)
    then show ?thesis using own_step_back [OF st0(2), of p] 2
      by (cases "st p") (auto intro: exI [of _ "[]"])
  next
    case 3
    then show ?thesis by (metis append_Cons)
  qed
qed

lemma key_run_created:
  assumes "key_run (us @ Tdh (Tdh_mng_create tdr k) 0 # vs) = Some (K, U)"
  shows "U = Some tdr \<or> Tdh (Tdh_mng_key_freeid tdr) 0 \<in> set us"
  using assms
proof (induction us arbitrary: K U)
  case Nil
  then obtain K0 U0 where "key_step (Tdh (Tdh_mng_create tdr k) 0) (K0, U0) = Some (K, U)" by (auto simp: bind_eq_Some_conv)
  then show ?case by (auto split: if_splits)
next
  case (Cons e us)
  then obtain K0 U0 where k0: "key_run (us @ Tdh (Tdh_mng_create tdr k) 0 # vs) = Some (K0, U0)" "key_step e (K0, U0) = Some (K, U)"
    by (auto simp: bind_eq_Some_conv)
  from Cons.IH [OF k0(1)] show ?case
  proof
    assume U0: "U0 = Some tdr"
    show ?thesis
    proof (cases e)
      case (Tdh c err)
      then show ?thesis using k0(2) U0 by (cases c) (auto split: if_splits)
    qed (use k0(2) U0 in \<open>auto split: if_splits\<close>)
  qed simp
qed

lemma fin_run_finalized:
  assumes "fin_run log = Some F"
  shows "F \<longleftrightarrow> (\<exists>tdr. Tdh (Tdh_mr_finalize tdr) 0 \<in> set log)"
  using assms
proof (induction log arbitrary: F)
  case (Cons e log)
  then obtain F0 where f0: "fin_run log = Some F0" "fin_step e F0 = Some F" by (auto simp: bind_eq_Some_conv)
  have IH: "F0 \<longleftrightarrow> (\<exists>tdr. Tdh (Tdh_mr_finalize tdr) 0 \<in> set log)" using Cons.IH [OF f0(1)] .
  show ?case
  proof (cases e)
    case (Tdh c err)
    then show ?thesis using f0(2) IH by (cases c) (auto split: if_splits)
  qed (use f0(2) IH in auto)
qed simp

lemma reachable_runs:
  assumes "td_env_ok E" "td_reachable E n0 s"
  obtains st U where "own_run E (td_log s) = Some st" "\<And>p. p \<in> td_pages s \<Longrightarrow> st p \<noteq> Unallocated"
    "key_run (td_log s) = Some (held_key s, U)" "key_ok E n0 U s" "fin_run (td_log s) = Some (finalized (td s))" "slots_ok s"
  using reachable_inv [OF assms] by (auto simp: td_inv_def td_state_def own_ok_def)

section \<open>The properties\<close>

text \<open>
  C2: In every reachable state, each control page that KVM has freed and that the module had taken at some
  time before was reclaimed from the module and cleared between: the call that gave it to the module is followed by
  a successful reclaim, that by the clearing, and that by the free.
\<close>

theorem freed_pages_cleared:
  assumes "td_env_ok E" "td_reachable E n0 s" "td_log s = xs @ Freed_page va # us @ Tdh c 0 # vs" "donated c = Some (pa_of E va)"
  shows "\<exists>w1 z w2. us = w1 @ Cleared (pa_of E va) z # w2 \<and> Tdh (Tdh_phymem_page_reclaim (pa_of E va)) 0 \<in> set w2"
proof -
  obtain st where "own_run E (xs @ Freed_page va # us @ Tdh c 0 # vs) = Some st"
    using reachable_runs [OF assms(1,2)] assms(3) by metis
  then obtain st0 where "own_run E (us @ Tdh c 0 # vs) = Some st0" "own_step E (Freed_page va) st0 \<noteq> None"
    using run_monitor_split by fastforce
  then show ?thesis using own_run_donated [of E us c vs st0, OF _ assms(4)] by (auto split: if_splits)
qed

text \<open>
  C5: In every reachable state, each page that a TD or a virtual processor names is allocated and named by one slot
  only; the counter of key ids in use is what others use, and one more exactly while the TD holds a key id,
  which is then in the range of the pool.
\<close>

theorem control_pages_and_key_accounted:
  assumes "td_env_ok E" "td_reachable E n0 s"
  shows "\<exists>st. own_run E (td_log s) = Some st \<and>
    (\<forall>a b. page_at s a = 0 \<or> st (page_at s a) \<noteq> Unallocated \<and> direct_map E (page_at s a) \<and> (page_at s a = page_at s b) = (a = b)) \<and>
    nr_configured_hkid s = n0 + (if is_hkid_assigned (td s) then 1 else 0) \<and>
    (\<not> is_hkid_assigned (td s) \<or> tdx_guest_keyid_start E \<le> hkid (td s) \<and>
       hkid (td s) < tdx_guest_keyid_start E + tdx_nr_guest_keyids E)"
proof -
  obtain U where U: "slots_ok s" "td_state E {} (td_pages s) (held_key s) U s" "key_ok E n0 U s"
    using reachable_inv [OF assms] by (auto simp: td_inv_def)
  then obtain st where st: "own_run E (td_log s) = Some st" "own_ok E {} (td_pages s) st" by (auto simp: td_state_def)
  have "page_at s a = 0 \<or> st (page_at s a) \<noteq> Unallocated \<and> direct_map E (page_at s a) \<and> (page_at s a = page_at s b) = (a = b)" for a b
    using st(2) U(1) by (auto simp: own_ok_def td_pages_def slots_ok_def)
  then show ?thesis using st(1) U(3) by (intro exI [of _ st]) (auto simp: key_ok_def)
qed

text \<open>
  C7: In every reachable state, when the key id of a TD has gone back to the pool, the module had been told to
  give it up after every TD that it had created with it.
\<close>

theorem key_given_back_unused:
  assumes "td_env_ok E" "td_reachable E n0 s" "td_log s = xs @ Ida_free k # us @ Tdh (Tdh_mng_create tdr h) 0 # vs"
  shows "Tdh (Tdh_mng_key_freeid tdr) 0 \<in> set us"
proof -
  obtain K U where "key_run (xs @ Ida_free k # us @ Tdh (Tdh_mng_create tdr h) 0 # vs) = Some (K, U)"
    using reachable_runs [OF assms(1,2)] assms(3) by metis
  then obtain K0 U0 where "key_run (us @ Tdh (Tdh_mng_create tdr h) 0 # vs) = Some (K0, U0)" "key_step (Ida_free k) (K0, U0) \<noteq> None"
    using run_monitor_split by fastforce
  then show ?thesis using key_run_created [of us tdr h vs K0 U0] by (auto split: if_splits)
qed

text \<open>
  C9: In every reachable state, the initial pages, their measurement and the virtual processors of a TD were given to
  the module before its measurement was finalised, and pages without contents and TLB tracking only after that.
\<close>

theorem phases_of_td:
  assumes "td_env_ok E" "td_reachable E n0 s" "td_log s = xs @ Tdh c err # ys"
  shows "(initial_call c \<longrightarrow> (\<forall>tdr. Tdh (Tdh_mr_finalize tdr) 0 \<notin> set ys)) \<and>
    (runtime_call c \<longrightarrow> (\<exists>tdr. Tdh (Tdh_mr_finalize tdr) 0 \<in> set ys))"
proof -
  obtain F where "fin_run (xs @ Tdh c err # ys) = Some F" using reachable_runs [OF assms(1,2)] assms(3) by metis
  then obtain F0 where "fin_run ys = Some F0" "fin_step (Tdh c err) F0 \<noteq> None"
    using run_monitor_split [of fin_step False xs "Tdh c err" ys F] by auto
  then show ?thesis using fin_run_finalized [of ys F0] by (cases c) (auto split: if_splits)
qed

end
