(* ===== verification/Tdx_Demo.thy ===== *)
theory Tdx_Demo
  imports Tdx_Trace
begin

text \<open>
  A concrete environment of the TDX host and the life of one TD in it, from its creation to its teardown: it
  shows that the hypotheses of the properties can hold. The answers of the module and the pages of the allocator are
  arguments, so that failures can be tried too.
\<close>

section \<open>The environment\<close>

definition demo_find_entry :: "kvm_cpuid_entry2 list \<Rightarrow> u32 \<Rightarrow> u32 \<Rightarrow> kvm_cpuid_entry2 option" where
  "demo_find_entry es f i = find (\<lambda>e. ent_function e = f \<and> ent_index e = i) es"

definition demo_configs :: "kvm_tdx_cpuid_config list" where
  "demo_configs =
     [\<lparr>c_leaf = 1, c_sub_leaf = 0xffffffff, c_eax = 0xff, c_ebx = 0, c_ecx = 0, c_edx = 0\<rparr>,
      \<lparr>c_leaf = 7, c_sub_leaf = 0, c_eax = 0, c_ebx = 0x10, c_ecx = 0, c_edx = 0\<rparr>]"

definition demo_info :: tdx_info where
  "demo_info = \<lparr>features0 = 0, attributes_fixed0 = 0, attributes_fixed1 = 0, xfam_fixed0 = 0, xfam_fixed1 = 0,
     nr_tdcs_pages = 2, nr_tdvpx_pages = 1, cpuid_configs = demo_configs\<rparr>"

definition demo_free_page :: "u64 list \<Rightarrow> td_log \<Rightarrow> u64" where
  "demo_free_page ps log = (case find (\<lambda>va. Got_page va \<notin> set log) ps of Some va \<Rightarrow> va | None \<Rightarrow> 0)"

definition tdx_env_with :: "(td_log \<Rightarrow> tdh_call \<Rightarrow> u64) \<Rightarrow> u64 list \<Rightarrow> td_env" where
  "tdx_env_with answer ps = \<lparr>
     TDX_OPERAND_BUSY = 0x8000020000000000, TDX_OPERAND_INVALID = 0xc000010000000000, TDX_OPERAND_ID_RCX = 1,
     TDX_OPERAND_ID_TDR = 128, TDX_OPERAND_ID_SEPT = 146, TDX_SEAMCALL_STATUS_MASK = 0xffffffff00000000,
     TDX_ERROR_SEPT_BUSY = 0x8000020000000092, TDX_VCPU_NOT_ASSOCIATED = 0x8000070200000000,
     TDX_INTERRUPTED_RESUMABLE = 0x8000000300000000, TDX_INTERRUPTED_RESTARTABLE = 0x8000000400000000,
     TDX_NO_HKID_READY_TO_WBCACHE = 0x0000082100000000, TDX_FLUSHVP_NOT_DONE = 0x8000082400000000,
     TDX_KEY_GENERATION_FAILED = 0x8000080000000000, TDX_RND_NO_ENTROPY = 0x8000020300000000,
     TDX_TLB_TRACKING_NOT_DONE = 0xc0000b0800000000, TDX_EPT_ENTRY_STATE_INCORRECT = 0xc0000b0d00000000,
     TDX_EPT_INVALID_PROMOTE_CONDITIONS = 0xc0000b0900000000,
     TDX_TD_ATTR_SEPT_VE_DISABLE = 0x10000000, TDX_SEPT_PENDING = 2, pg_level_to_tdx_sept_level = (\<lambda>l. int l - 1),
     KVM_PAGES_PER_HPAGE = (\<lambda>l. 512 ^ (l - 1)), KVM_HPAGE_SIZE = (\<lambda>l. 4096 * 512 ^ (l - 1)),
     KVM_HPAGE_MASK = (\<lambda>l. NOT (4096 * 512 ^ (l - 1) - 1)), PG_LEVEL_4K = 1, PG_LEVEL_2M = 2, page_bytes = 4096, page_bits = 12,
     TDX_EXTENDMR_CHUNKSIZE = 256, KVM_MAX_VCPUS = 1024, TDX_MAX_VCPUS = 0xffff, KVM_CAP_MAX_VCPUS = 66,
     KVM_MAX_CPUID_ENTRIES = 256, KVM_TDX_CPUID_NO_SUBLEAF = 0xffffffff, VMX_EPTP_MT_WB = 6, VMX_EPTP_PWL_4 = 0x18,
     VMX_EPTP_PWL_5 = 0x20, TDX_EXEC_CONTROL_MAX_GPAW = 1, cpu_has_vmx_ept_5levels = False,
     TDX_TD_ATTRIBUTE_PERFMON = 0x8000000000000000, TDX_TSC_KHZ_TO_25MHZ = (\<lambda>k. k div 25000), default_tsc_khz = 2500000,
     supported_xcr0 = 0xe7, supported_xss = 0, XFEATURE_MASK_PT = 0x100, XFEATURE_MASK_LBR = 0x8000,
     TDX_TD_XFAM_CET = 0x1800, hle_rtm_mask = 0x810, gpa_to_gfn_td = drop_bit 12, gfn_to_gpa_td = push_bit 12,
     pfn_to_hpa = push_bit 12, kvm_is_private_gpa = (\<lambda>shared gpa. gpa AND push_bit 12 shared = 0), sept_pferr = 0,
     shadow_phys_bits = 46, TDX_CAP_GPAW_48 = 1, TDX_CAP_GPAW_52 = 2, is_reset_bsp = (\<lambda>v. v = 0),
     APIC_DEFAULT_PHYS_BASE = 0xfee00000, LAPIC_MODE_X2APIC = 0xc00, MSR_IA32_APICBASE_BSP = 0x100, KVM_NR_VAR_MTRR = 1,
     MSR_MTRRdefType = 0x2ff, MTRR_TYPE_WRBACK = 6, POSTED_INTR_NV = 2, POSTED_INTR_VECTOR = 0xf2, POSTED_INTR_DESC_ADDR = 0x2016,
     pi_desc_pa = (\<lambda>v. 0x100000 + 64 * of_nat v), PIN_BASED_VM_EXEC_CONTROL = 0x4000, PIN_BASED_POSTED_INTR = 0x80,
     KVM_TDX_CAPABILITIES = 0, KVM_TDX_INIT_VM = 1, KVM_TDX_EXTEND_MEMORY = 3, KVM_TDX_FINALIZE_VM = 4, KVM_TDX_INIT_VCPU = 2,
     answer_tdh = (\<lambda>log c. (answer log c, \<lparr>out_rcx = 0, out_rdx = 0, out_r8 = 0\<rparr>)),
     answer_free_page = demo_free_page ps, answer_ida = (\<lambda>log lo hi. if lo \<le> hi then lo else - 28),
     answer_kmalloc = (\<lambda>_. True), answer_signal = (\<lambda>_. False), pa_of = (\<lambda>va. va), va_of = (\<lambda>pa. pa),
     tdx_guest_keyid_start = 33, tdx_nr_guest_keyids = 31, tdx_global_keyid = 32, x86_phys_bits = 46,
     present_cpus = [0, 1, 2], online_cpus = [0, 1, 2], package_id = (\<lambda>c. c div 2), tdx_info_of = demo_info,
     find_cpuid_entry = demo_find_entry, sept_entry = (\<lambda>x. (False, 0, False)), sept_level_state = (\<lambda>x. (0, 0)),
     td_tsc_offset_answer = (\<lambda>_. 7), answer_user_page = (\<lambda>_ a. (1, drop_bit 12 a)), answer_set_msr = (\<lambda>_ _ _ _. False),
     answer_set_apic_base = (\<lambda>_ _ _. False)\<rparr>"

definition demo_pages_list :: "u64 list" where
  "demo_pages_list = [0x1000, 0x2000, 0x3000, 0x4000, 0x5000, 0x6000]"

definition tdx_demo :: td_env where
  "tdx_demo = tdx_env_with (\<lambda>_ _. 0) demo_pages_list"

lemma demo_sel [simp]:
  "TDX_OPERAND_BUSY (tdx_env_with answer ps) = 0x8000020000000000"
  "TDX_OPERAND_INVALID (tdx_env_with answer ps) = 0xc000010000000000"
  "TDX_OPERAND_ID_RCX (tdx_env_with answer ps) = 1"
  "TDX_OPERAND_ID_TDR (tdx_env_with answer ps) = 128"
  "TDX_OPERAND_ID_SEPT (tdx_env_with answer ps) = 146"
  "TDX_SEAMCALL_STATUS_MASK (tdx_env_with answer ps) = 0xffffffff00000000"
  "TDX_ERROR_SEPT_BUSY (tdx_env_with answer ps) = 0x8000020000000092"
  "TDX_VCPU_NOT_ASSOCIATED (tdx_env_with answer ps) = 0x8000070200000000"
  "TDX_INTERRUPTED_RESUMABLE (tdx_env_with answer ps) = 0x8000000300000000"
  "TDX_INTERRUPTED_RESTARTABLE (tdx_env_with answer ps) = 0x8000000400000000"
  "TDX_NO_HKID_READY_TO_WBCACHE (tdx_env_with answer ps) = 0x0000082100000000"
  "TDX_FLUSHVP_NOT_DONE (tdx_env_with answer ps) = 0x8000082400000000"
  "TDX_KEY_GENERATION_FAILED (tdx_env_with answer ps) = 0x8000080000000000"
  "TDX_RND_NO_ENTROPY (tdx_env_with answer ps) = 0x8000020300000000"
  "TDX_TLB_TRACKING_NOT_DONE (tdx_env_with answer ps) = 0xc0000b0800000000"
  "TDX_EPT_ENTRY_STATE_INCORRECT (tdx_env_with answer ps) = 0xc0000b0d00000000"
  "TDX_EPT_INVALID_PROMOTE_CONDITIONS (tdx_env_with answer ps) = 0xc0000b0900000000"
  "TDX_TD_ATTR_SEPT_VE_DISABLE (tdx_env_with answer ps) = 0x10000000"
  "TDX_SEPT_PENDING (tdx_env_with answer ps) = 2"
  "pg_level_to_tdx_sept_level (tdx_env_with answer ps) = (\<lambda>l. int l - 1)"
  "KVM_PAGES_PER_HPAGE (tdx_env_with answer ps) = (\<lambda>l. 512 ^ (l - 1))"
  "KVM_HPAGE_SIZE (tdx_env_with answer ps) = (\<lambda>l. 4096 * 512 ^ (l - 1))"
  "KVM_HPAGE_MASK (tdx_env_with answer ps) = (\<lambda>l. NOT (4096 * 512 ^ (l - 1) - 1))"
  "PG_LEVEL_4K (tdx_env_with answer ps) = 1"
  "PG_LEVEL_2M (tdx_env_with answer ps) = 2"
  "page_bytes (tdx_env_with answer ps) = 4096"
  "page_bits (tdx_env_with answer ps) = 12"
  "TDX_EXTENDMR_CHUNKSIZE (tdx_env_with answer ps) = 256"
  "KVM_MAX_VCPUS (tdx_env_with answer ps) = 1024"
  "TDX_MAX_VCPUS (tdx_env_with answer ps) = 0xffff"
  "KVM_CAP_MAX_VCPUS (tdx_env_with answer ps) = 66"
  "KVM_MAX_CPUID_ENTRIES (tdx_env_with answer ps) = 256"
  "KVM_TDX_CPUID_NO_SUBLEAF (tdx_env_with answer ps) = 0xffffffff"
  "VMX_EPTP_MT_WB (tdx_env_with answer ps) = 6"
  "VMX_EPTP_PWL_4 (tdx_env_with answer ps) = 0x18"
  "VMX_EPTP_PWL_5 (tdx_env_with answer ps) = 0x20"
  "TDX_EXEC_CONTROL_MAX_GPAW (tdx_env_with answer ps) = 1"
  "cpu_has_vmx_ept_5levels (tdx_env_with answer ps) = False"
  "TDX_TD_ATTRIBUTE_PERFMON (tdx_env_with answer ps) = 0x8000000000000000"
  "TDX_TSC_KHZ_TO_25MHZ (tdx_env_with answer ps) = (\<lambda>k. k div 25000)"
  "default_tsc_khz (tdx_env_with answer ps) = 2500000"
  "supported_xcr0 (tdx_env_with answer ps) = 0xe7"
  "supported_xss (tdx_env_with answer ps) = 0"
  "XFEATURE_MASK_PT (tdx_env_with answer ps) = 0x100"
  "XFEATURE_MASK_LBR (tdx_env_with answer ps) = 0x8000"
  "TDX_TD_XFAM_CET (tdx_env_with answer ps) = 0x1800"
  "hle_rtm_mask (tdx_env_with answer ps) = 0x810"
  "gpa_to_gfn_td (tdx_env_with answer ps) = drop_bit 12"
  "gfn_to_gpa_td (tdx_env_with answer ps) = push_bit 12"
  "pfn_to_hpa (tdx_env_with answer ps) = push_bit 12"
  "kvm_is_private_gpa (tdx_env_with answer ps) = (\<lambda>shared gpa. gpa AND push_bit 12 shared = 0)"
  "sept_pferr (tdx_env_with answer ps) = 0"
  "shadow_phys_bits (tdx_env_with answer ps) = 46"
  "TDX_CAP_GPAW_48 (tdx_env_with answer ps) = 1"
  "TDX_CAP_GPAW_52 (tdx_env_with answer ps) = 2"
  "is_reset_bsp (tdx_env_with answer ps) = (\<lambda>v. v = 0)"
  "APIC_DEFAULT_PHYS_BASE (tdx_env_with answer ps) = 0xfee00000"
  "LAPIC_MODE_X2APIC (tdx_env_with answer ps) = 0xc00"
  "MSR_IA32_APICBASE_BSP (tdx_env_with answer ps) = 0x100"
  "KVM_NR_VAR_MTRR (tdx_env_with answer ps) = 1"
  "MSR_MTRRdefType (tdx_env_with answer ps) = 0x2ff"
  "MTRR_TYPE_WRBACK (tdx_env_with answer ps) = 6"
  "POSTED_INTR_NV (tdx_env_with answer ps) = 2"
  "POSTED_INTR_VECTOR (tdx_env_with answer ps) = 0xf2"
  "POSTED_INTR_DESC_ADDR (tdx_env_with answer ps) = 0x2016"
  "pi_desc_pa (tdx_env_with answer ps) = (\<lambda>v. 0x100000 + 64 * of_nat v)"
  "PIN_BASED_VM_EXEC_CONTROL (tdx_env_with answer ps) = 0x4000"
  "PIN_BASED_POSTED_INTR (tdx_env_with answer ps) = 0x80"
  "KVM_TDX_CAPABILITIES (tdx_env_with answer ps) = 0"
  "KVM_TDX_INIT_VM (tdx_env_with answer ps) = 1"
  "KVM_TDX_EXTEND_MEMORY (tdx_env_with answer ps) = 3"
  "KVM_TDX_FINALIZE_VM (tdx_env_with answer ps) = 4"
  "KVM_TDX_INIT_VCPU (tdx_env_with answer ps) = 2"
  "answer_tdh (tdx_env_with answer ps) = (\<lambda>log c. (answer log c, \<lparr>out_rcx = 0, out_rdx = 0, out_r8 = 0\<rparr>))"
  "answer_free_page (tdx_env_with answer ps) = demo_free_page ps"
  "answer_ida (tdx_env_with answer ps) = (\<lambda>log lo hi. if lo \<le> hi then lo else - 28)"
  "answer_kmalloc (tdx_env_with answer ps) = (\<lambda>_. True)"
  "answer_signal (tdx_env_with answer ps) = (\<lambda>_. False)"
  "pa_of (tdx_env_with answer ps) = (\<lambda>va. va)"
  "va_of (tdx_env_with answer ps) = (\<lambda>pa. pa)"
  "tdx_guest_keyid_start (tdx_env_with answer ps) = 33"
  "tdx_nr_guest_keyids (tdx_env_with answer ps) = 31"
  "tdx_global_keyid (tdx_env_with answer ps) = 32"
  "x86_phys_bits (tdx_env_with answer ps) = 46"
  "present_cpus (tdx_env_with answer ps) = [0, 1, 2]"
  "online_cpus (tdx_env_with answer ps) = [0, 1, 2]"
  "package_id (tdx_env_with answer ps) = (\<lambda>c. c div 2)"
  "tdx_info_of (tdx_env_with answer ps) = demo_info"
  "find_cpuid_entry (tdx_env_with answer ps) = demo_find_entry"
  "sept_entry (tdx_env_with answer ps) = (\<lambda>x. (False, 0, False))"
  "sept_level_state (tdx_env_with answer ps) = (\<lambda>x. (0, 0))"
  "td_tsc_offset_answer (tdx_env_with answer ps) = (\<lambda>_. 7)"
  "answer_user_page (tdx_env_with answer ps) = (\<lambda>_ a. (1, drop_bit 12 a))"
  "answer_set_msr (tdx_env_with answer ps) = (\<lambda>_ _ _ _. False)"
  "answer_set_apic_base (tdx_env_with answer ps) = (\<lambda>_ _ _. False)"
  by (simp_all add: tdx_env_with_def)

lemma got_if_used:
  "own_run E log = Some st \<Longrightarrow> st p \<noteq> Unallocated \<Longrightarrow> \<exists>va. Got_page va \<in> set log \<and> pa_of E va = p"
proof (induction log arbitrary: st)
  case (Cons e log)
  then obtain st0 where st0: "own_run E log = Some st0" "own_step E e st0 = Some st" by (auto simp: bind_eq_Some_conv)
  have "st0 p \<noteq> Unallocated \<or> (\<exists>va. e = Got_page va \<and> pa_of E va = p)"
    using st0(2) Cons.prems(2) by (cases e) (auto split: if_splits option.splits)
  then show ?case using Cons.IH [OF st0(1)] by auto
qed simp

lemma demo_env_ok:
  assumes "0 \<notin> set ps" shows "td_env_ok (tdx_env_with answer ps)"
proof -
  let ?E = "tdx_env_with answer ps"
  have va: "demo_free_page ps log \<noteq> 0 \<Longrightarrow> Got_page (demo_free_page ps log) \<notin> set log" for log
    unfolding demo_free_page_def
    by (cases "find (\<lambda>va. Got_page va \<notin> set log) ps") (simp, frule find_Some_iff [THEN iffD1], auto)
  have "st (demo_free_page ps log) = Unallocated" if "own_run ?E log = Some st" "demo_free_page ps log \<noteq> 0" for log st
    using got_if_used [OF that(1), of "demo_free_page ps log"] va [OF that(2)] by (auto simp: tdx_env_with_def)
  then show ?thesis unfolding td_env_ok_def by (auto simp: tdx_env_with_def direct_map_def)
qed

section \<open>The life of a TD\<close>

text \<open>Address 1 holds the command that creates the TD, 2 the one that finalises it and 3 the one of the virtual processor.\<close>

definition demo_init_vm :: kvm_tdx_init_vm where
  "demo_init_vm = \<lparr>iv_attributes = 0, iv_mrconfigid = [1], iv_mrowner = [2], iv_mrownerconfig = [3], iv_reserved = [], iv_nent = 2,
     iv_padding = 0, iv_entries = []\<rparr>"

definition demo_entries :: "kvm_cpuid_entry2 list" where
  "demo_entries =
     [\<lparr>ent_function = 1, ent_index = 0, ent_eax = 0x806f8, ent_ebx = 0, ent_ecx = 0, ent_edx = 0\<rparr>,
      \<lparr>ent_function = 7, ent_index = 0, ent_eax = 0, ent_ebx = 0x810, ent_ecx = 0, ent_edx = 0\<rparr>]"

definition demo_user :: td_user_memory where
  "demo_user = \<lparr>user_init_vm = (\<lambda>_. Some demo_init_vm), user_entries = (\<lambda>_ _. Some demo_entries),
     user_nr_configs = (\<lambda>_. Some 2), user_mapping = (\<lambda>a. Some \<lparr>map_base_gfn = a, map_nr_pages = 1, map_source = 0\<rparr>),
     user_cmd = (\<lambda>a. Some \<lparr>cmd_id = (if a = 1 then 1 else if a = 2 then 4 else 2), cmd_flags = 0, cmd_data = 5, cmd_error = 0\<rparr>),
     user_writable = (\<lambda>_. True), user_configs_writable = (\<lambda>_. True)\<rparr>"

definition demo_td_host :: td_host where
  "demo_td_host = \<lparr>td = \<lparr>tdr_pa = 0, tdcs_pa = None, hkid = 0, finalized = False, td_attributes = 0, td_xfam = 0, td_tsc_offset = 0,
       tsx_supported = False, td_cpuid = None, source_page = None, tdh_mem_track = 0\<rparr>,
     vcpus = [], associated = (\<lambda>_. []), nr_configured_hkid = 4, vm_bugged = False, kvm_max_vcpus = 16, created_vcpus = 0,
     gfn_shared_mask = 0, apicv_inhibited = False, mmio_spte_value = 0, td_log = []\<rparr>"

definition demo_start :: "td_env \<Rightarrow> td_host option" where
  "demo_start E = do {
     (_, s) \<leftarrow> tdx_vm_ioctl E demo_user 1 demo_td_host;
     Some (snd (tdx_vcpu_ioctl E demo_user 0 3 (td_new_vcpu s)))
   }"

definition demo_run :: "td_env \<Rightarrow> td_host option" where
  "demo_run E = do {
     s \<leftarrow> demo_start E;
     (_, s) \<leftarrow> tdx_vm_ioctl E demo_user 2 s;
     (_, s) \<leftarrow> tdx_sept_set_private_spte E 9 1 77 s;
     (_, s) \<leftarrow> tdx_sept_remove_private_spte E 9 1 77 s;
     tdx_mmu_release_hkid E s
   }"

definition demo_free :: "td_env \<Rightarrow> td_host option" where
  "demo_free E = do {
     s \<leftarrow> demo_run E;
     s \<leftarrow> (if vcpus s = [] then None else tdx_vcpu_free E 0 s);
     tdx_vm_free E s
   }"

text \<open>The log of the whole life, with the newest event first.\<close>

definition demo_log :: td_log where
  "demo_log =
    [Kfree, Freed_page 0x1000, Cleared 0x1000 0x1000, Tdh (Tdh_phymem_page_wbinvd 0x8000000001000) 0, Tdh
     (Tdh_phymem_page_reclaim 0x1000) 0, Kfree, Freed_page 0x3000, Cleared 0x3000 0x1000, Tdh (Tdh_phymem_page_reclaim
     0x3000) 0, Freed_page 0x2000, Cleared 0x2000 0x1000, Tdh (Tdh_phymem_page_reclaim 0x2000) 0, Freed_page 0x4000,
     Cleared 0x4000 0x1000, Tdh (Tdh_phymem_page_reclaim 0x4000) 0, Kfree, Freed_page 0x5000, Cleared 0x5000 0x1000, Tdh
     (Tdh_phymem_page_reclaim 0x5000) 0, Kfree, Kfree, Ida_free 33, Tdh (Tdh_mng_key_freeid 0x1000) 0, Tdh
     (Tdh_phymem_cache_wb 2 False) 0, Tdh (Tdh_phymem_cache_wb 0 False) 0, Tdh (Tdh_mng_vpflushdone 0x1000) 0, Kmalloc
     True, Kmalloc True, Unpinned 77, Cleared 0x4d000 0x1000, Tdh (Tdh_phymem_page_wbinvd 0x840000004d000) 0, Tdh
     (Tdh_mem_page_remove 0x1000 0x9000 0) 0, Tdh (Tdh_mem_track 0x1000) 0, Tlb_request, Tdh (Tdh_mem_page_aug 0x1000
     0x9000 0 0x4d000) 0, Pinned 77, Tdh (Tdh_mr_finalize 0x1000) 0, Vmcs_setbit 0 0x4000 128, Vmcs_write 0 0x2016
     0x100000, Vmcs_write 0 2 242, Tdh (Tdh_vp_init 0x4000 5) 0, Tdh (Tdh_vp_addcx 0x4000 0x5000) 0, Tdh (Tdh_vp_create
     0x1000 0x4000) 0, Got_page 0x5000, Kmalloc True, Got_page 0x4000, Set_msr 0 767 2054, Set_msr 0 513 0, Set_apic_base 0
     0xfee00d00, Kfree, Kfree, Tdh (Tdh_mng_init 0x1000 \<lparr>tp_attributes = 0, tp_xfam = 0, tp_max_vcpus = 16,
     tp_eptp_controls = 30, tp_exec_controls = 0, tp_tsc_frequency = 100, tp_mrconfigid = [1], tp_mrowner = [2],
     tp_mrownerconfig = [3], tp_cpuid_values = [\<lparr>val_eax = 248, val_ebx = 0, val_ecx = 0, val_edx = 0\<rparr>,
     \<lparr>val_eax = 0, val_ebx = 16, val_ecx = 0, val_edx = 0\<rparr>]\<rparr>) 0, Tdh (Tdh_mng_addcx 0x1000 0x3000) 0,
     Tdh (Tdh_mng_addcx 0x1000 0x2000) 0, Kfree, Tdh (Tdh_mng_key_config 2 0x1000) 0, Tdh (Tdh_mng_key_config 0 0x1000) 0,
     Tdh (Tdh_mng_create 0x1000 33) 0, Kmalloc True, Got_page 0x3000, Got_page 0x2000, Kmalloc True, Got_page 0x1000,
     Ida_alloc 33, Kmalloc True, Kmalloc True, Kmalloc True]"

section \<open>Evaluation\<close>

lemma alloc_two: "alloc_control_pages E 2 k ps s = (let (va, s) = get_free_page_td E s
      in if va = 0 then (False, ps, s)
         else alloc_control_pages E (Suc 0) (Suc k) (ps[k := pa_of E va]) s)"
  by (simp add: numeral_2_eq_2)

lemma replicate_two: "replicate 2 x = [x, x]" by (simp add: numeral_2_eq_2)

text \<open>The operations of the example, for evaluation by the simplifier.\<close>

lemmas demo_ops = tdx_guest_keyid_alloc_def td_emit_def set_td_def set_vcpu_def warn_on_once_def kvm_bug_on_def tdh_run get_free_page_td_def
  free_page_td_def kmalloc_def kfree_def tdh_retry.simps tdx_hkid_free_def tdx_guest_keyid_free_def is_td_created_def is_hkid_assigned_def
  is_td_finalized_def is_td_vcpu_created_def tdx_clear_page_def tdx_reclaim_page_raw_def tdx_reclaim_page_def tdx_reclaim_control_page_def
  demo_free_page_def demo_pages_list_def tdx_demo_def demo_td_host_def demo_user_def demo_init_vm_def demo_info_def demo_configs_def
  tdx_td_init_inner_def td_init_create_def td_init_configure_def tdx_do_tdh_mng_key_config_def alloc_two replicate_two Let_def
  zero_params_def setup_tdparams_def setup_tdparams_eptp_controls_def setup_tdparams_cpuids_def setup_tdparams_xfam_def demo_entries_def
  tdparams_tsx_supported_def config_entry_def config_index_def masked_value_def demo_find_entry_def
  tdx_vm_ioctl_def tdx_td_init_def read_init_vm_def td_init_out_def td_user.defs
  demo_start_def td_new_vcpu_def zero_vcpu_def tdx_vcpu_ioctl_def tdx_vcpu_init_mtrr_def set_msr_common_def tdx_td_vcpu_init_def

lemmas demo_ops2 = demo_run_def demo_free_def tdx_td_finalizemr_def tdx_sept_set_private_spte_def pin_pages_def tdx_mem_page_aug_def
  tdx_sept_remove_private_spte_def tdx_track_def tdx_sept_drop_private_spte_def drop_pages_loop.simps tdx_unpin_def
  tdx_mmu_release_hkid.simps tdx_mmu_release_hkid_once_def flush_vcpus_def tdx_flush_vp_on_cpu_def release_hkid_locked_def
  tdx_do_tdh_phymem_cache_wb_def cache_wb_loop.simps EBUSY_def
  tdx_vcpu_free_def tdx_vm_free_def free_tdvpx_pages_def free_tdcs_pages_def tdx_disassociate_vp_on_cpu_def
  set_hkid_to_hpa_def

lemma demo_life: "\<exists>s. demo_free tdx_demo = Some s \<and> td_log s = demo_log"
  by (simp add: demo_ops demo_ops2 demo_log_def)

lemma demo_reachable:
  assumes "demo_free E = Some s" shows "td_reachable E 4 s"
proof -
  have s0: "td_reachable E 4 demo_td_host"
    by (rule td_reachable.start) (simp add: td_initial_def demo_td_host_def)
  obtain r1 s1 where s1: "tdx_vm_ioctl E demo_user 1 demo_td_host = Some (r1, s1)"
    and st: "demo_start E = Some (snd (tdx_vcpu_ioctl E demo_user 0 3 (td_new_vcpu s1)))"
    using assms by (auto simp: demo_free_def demo_run_def demo_start_def bind_eq_Some_conv)
  define s3 where "s3 = snd (tdx_vcpu_ioctl E demo_user 0 3 (td_new_vcpu s1))"
  have len: "0 < length (vcpus (td_new_vcpu s1))" by (simp add: td_new_vcpu_def)
  have s3: "td_reachable E 4 s3" unfolding s3_def
    by (rule step [OF step [OF step [OF s0 td_step.vm_ioctl [OF s1]] td_step.new_vcpu] td_step.vcpu_ioctl [OF len prod.collapse [symmetric]]])
  obtain r4 s4 r5 s5 r6 s6 s7 s8 where
    s4: "tdx_vm_ioctl E demo_user 2 s3 = Some (r4, s4)" and s5: "tdx_sept_set_private_spte E 9 1 77 s4 = Some (r5, s5)"
    and s6: "tdx_sept_remove_private_spte E 9 1 77 s5 = Some (r6, s6)" and s7: "tdx_mmu_release_hkid E s6 = Some s7"
    and ne: "vcpus s7 \<noteq> []" and s8: "tdx_vcpu_free E 0 s7 = Some s8" and s9: "tdx_vm_free E s8 = Some s"
    using assms st by (auto simp: demo_free_def demo_run_def s3_def bind_eq_Some_conv split: if_splits)
  have s7r: "td_reachable E 4 s7"
    by (rule step [OF step [OF step [OF step [OF s3 td_step.vm_ioctl [OF s4]] td_step.set_private [OF s5]]
      td_step.remove_private [OF s6]] td_step.release_hkid [OF s7]])
  show ?thesis
    by (rule step [OF step [OF s7r td_step.vcpu_free [OF _ s8]] td_step.vm_free [OF s9]]) (use ne in simp)
qed

text \<open>The state after the whole life is reachable, and its log is the one above.\<close>

lemma demo_end: "\<exists>s. td_reachable tdx_demo 4 s \<and> td_log s = demo_log"
  using demo_life demo_reachable by blast

lemma tdx_demo_ok: "td_env_ok tdx_demo"
  unfolding tdx_demo_def by (rule demo_env_ok) (simp add: demo_pages_list_def)

section \<open>Witnesses\<close>

lemma demo_log_at:
  "demo_log = take 6 demo_log @ Freed_page 0x3000 # take 45 (drop 7 demo_log) @ Tdh (Tdh_mng_addcx 0x1000 0x3000) 0 # drop 53 demo_log"
  "demo_log = take 21 demo_log @ Ida_free 33 # take 35 (drop 22 demo_log) @ Tdh (Tdh_mng_create 0x1000 33) 0 # drop 58 demo_log"
  "demo_log = take 34 demo_log @ Tdh (Tdh_mem_page_aug 0x1000 0x9000 0 0x4d000) 0 # drop 35 demo_log"
  by (simp_all add: demo_log_def)

theorem freed_pages_cleared_witness:
  "\<exists>w1 z w2. take 45 (drop 7 demo_log) = w1 @ Cleared 0x3000 z # w2 \<and> Tdh (Tdh_phymem_page_reclaim 0x3000) 0 \<in> set w2"
proof -
  obtain s where s: "td_reachable tdx_demo 4 s" "td_log s = demo_log" using demo_end by blast
  have "pa_of tdx_demo 0x3000 = 0x3000" by (simp add: tdx_demo_def)
  with freed_pages_cleared [OF tdx_demo_ok s(1) trans [OF s(2) demo_log_at(1)]] show ?thesis by simp
qed

theorem control_pages_and_key_accounted_witness:
  "\<exists>s :: td_host. td_log s = demo_log \<and> nr_configured_hkid s = 4 + (if is_hkid_assigned (td s) then 1 else 0)"
proof -
  obtain s where s: "td_reachable tdx_demo 4 s" "td_log s = demo_log" using demo_end by blast
  have "nr_configured_hkid s = 4 + (if is_hkid_assigned (td s) then 1 else 0)"
    using control_pages_and_key_accounted [OF tdx_demo_ok s(1)] by (elim exE conjE)
  with s(2) show ?thesis by (intro exI [of _ s] conjI)
qed

theorem key_given_back_unused_witness: "Tdh (Tdh_mng_key_freeid 0x1000) 0 \<in> set (take 35 (drop 22 demo_log))"
proof -
  obtain s where s: "td_reachable tdx_demo 4 s" "td_log s = demo_log" using demo_end by blast
  show ?thesis by (rule key_given_back_unused [OF tdx_demo_ok s(1) trans [OF s(2) demo_log_at(2)]])
qed

theorem phases_of_td_witness: "\<exists>tdr. Tdh (Tdh_mr_finalize tdr) 0 \<in> set (drop 35 demo_log)"
proof -
  obtain s where s: "td_reachable tdx_demo 4 s" "td_log s = demo_log" using demo_end by blast
  from phases_of_td [OF tdx_demo_ok s(1) trans [OF s(2) demo_log_at(3)]] show ?thesis by simp
qed

end
