(* ===== verification/Tdx_Returns.thy ===== *)
theory Tdx_Returns
  imports Tdx_Demo
begin

text \<open>
  Termination of the loops of the TDX host. They repeat a call as long as the module is busy, so they end if the
  module, from some point of the log on, is not busy any more. The release of the key id also repeats as long as
  a virtual processor is not flushed: it ends because the code has flushed all of them.
\<close>

section \<open>A module that calms down\<close>

definition tdx_busy :: "td_env \<Rightarrow> u64 set" where
  "tdx_busy E = {TDX_OPERAND_BUSY E OR TDX_OPERAND_ID_RCX E, TDX_OPERAND_BUSY E OR TDX_OPERAND_ID_TDR E,
     TDX_KEY_GENERATION_FAILED E, TDX_ERROR_SEPT_BUSY E, TDX_INTERRUPTED_RESTARTABLE E, TDX_INTERRUPTED_RESUMABLE E,
     TDX_TLB_TRACKING_NOT_DONE E OR TDX_OPERAND_ID_SEPT E} \<union>
     {err. err AND TDX_SEAMCALL_STATUS_MASK E = TDX_OPERAND_BUSY E}"

definition calms_down :: "td_env \<Rightarrow> nat \<Rightarrow> bool" where
  "calms_down E N \<longleftrightarrow> (\<forall>log c. length log \<ge> N \<longrightarrow> fst (answer_tdh E log c) \<notin> tdx_busy E)"

text \<open>
  What the module says of the virtual processors of \<open>s\<close>. A flush succeeds or finds the virtual processor not associated. Once
  each virtual processor that KVM has associated with a processor is flushed, and the module has calmed
  down, it does not answer any more that some are not. The processors are online, as KVM flushes those of a processor that goes
  offline.
\<close>

definition flushed :: "td_env \<Rightarrow> td_log \<Rightarrow> u64 \<Rightarrow> bool" where
  "flushed E log p \<longleftrightarrow> (\<exists>cpu. \<exists>err \<in> {0, TDX_VCPU_NOT_ASSOCIATED E}. Tdh (Tdh_vp_flush cpu p) err \<in> set log)"

definition entered :: "td_host \<Rightarrow> u64 set" where
  "entered s = {tdvpr_pa x |x. x \<in> set (vcpus s) \<and> vcpu_cpu x \<noteq> - 1 \<and> is_td_vcpu_created x}"

definition cpu_online :: "td_env \<Rightarrow> vcpu_tdx \<Rightarrow> bool" where
  "cpu_online E x \<longleftrightarrow> vcpu_cpu x = - 1 \<or> 0 \<le> vcpu_cpu x \<and> nat (vcpu_cpu x) \<in> set (online_cpus E)"

definition flush_rules :: "td_env \<Rightarrow> nat \<Rightarrow> td_host \<Rightarrow> bool" where
  "flush_rules E N s \<longleftrightarrow>
     (\<forall>log cpu p. fst (answer_tdh E log (Tdh_vp_flush cpu p)) \<in> {0, TDX_VCPU_NOT_ASSOCIATED E}) \<and>
     (\<forall>x \<in> set (vcpus s). cpu_online E x) \<and>
     (\<forall>new tdr. N \<le> length (new @ td_log s) \<longrightarrow> (\<forall>p \<in> entered s. flushed E new p) \<longrightarrow>
        fst (answer_tdh E (new @ td_log s) (Tdh_mng_vpflushdone tdr)) \<noteq> TDX_FLUSHVP_NOT_DONE E)"

text \<open>The rules hold for a later state.\<close>

lemma flushed_append [simp]: "flushed E (xs @ ys) p \<longleftrightarrow> flushed E xs p \<or> flushed E ys p"
  by (auto simp: flushed_def)

lemma rules_later:
  assumes "flush_rules E N s" "td_log s' = m @ td_log s" "\<And>p. p \<in> entered s \<Longrightarrow> p \<in> entered s' \<or> flushed E m p"
    and "\<And>x. x \<in> set (vcpus s') \<Longrightarrow> cpu_online E x"
  shows "flush_rules E N s'"
  unfolding flush_rules_def
proof (intro conjI allI impI ballI)
  fix log cpu p show "fst (answer_tdh E log (Tdh_vp_flush cpu p)) \<in> {0, TDX_VCPU_NOT_ASSOCIATED E}"
    using assms(1) unfolding flush_rules_def by blast
next
  fix new tdr assume n: "N \<le> length (new @ td_log s')" "\<forall>p \<in> entered s'. flushed E new p"
  then have "N \<le> length ((new @ m) @ td_log s)" "\<forall>p \<in> entered s. flushed E (new @ m) p" using assms(2,3) by auto
  then have "fst (answer_tdh E ((new @ m) @ td_log s) (Tdh_mng_vpflushdone tdr)) \<noteq> TDX_FLUSHVP_NOT_DONE E"
    using assms(1) unfolding flush_rules_def by blast
  then show "fst (answer_tdh E (new @ td_log s') (Tdh_mng_vpflushdone tdr)) \<noteq> TDX_FLUSHVP_NOT_DONE E" using assms(2) by simp
qed (use assms(4) in simp)

text \<open>The log only grows.\<close>

interpretation longer: td_invariant E "\<lambda>s. m \<le> length (td_log s)" for E m
  by unfold_locales simp_all

lemma retry_returns:
  assumes "calms_down E N" "\<And>err. again err \<Longrightarrow> err \<in> tdx_busy E"
  shows "\<exists>err out s'. tdh_retry E again c s = Some (err, out, s')"
proof (induction "N - length (td_log s)" arbitrary: s rule: less_induct)
  case less
  define e where "e = fst (answer_tdh E (td_log s) c)"
  show ?case
  proof (cases "again e")
    case True
    then have "length (td_log s) < N" using assms unfolding calms_down_def e_def by (metis not_le)
    then have "\<exists>err out s'. tdh_retry E again c (td_emit (Tdh c e) s) = Some (err, out, s')" by (intro less) simp
    then show ?thesis using True by (subst tdh_retry.simps) (simp add: tdh_run e_def)
  next
    case False
    then show ?thesis by (subst tdh_retry.simps) (simp add: tdh_run e_def)
  qed
qed

lemma cache_wb_returns:
  assumes "calms_down E N" shows "\<exists>err s'. cache_wb_loop E cpu e0 s = Some (err, s')"
proof (induction "N - length (td_log s)" arbitrary: s e0 rule: less_induct)
  case less
  define c where "c = Tdh_phymem_cache_wb cpu (e0 \<noteq> 0)"
  define e where "e = fst (answer_tdh E (td_log s) c)"
  show ?case
  proof (cases "e = TDX_INTERRUPTED_RESUMABLE E")
    case True
    then have "length (td_log s) < N" using assms unfolding calms_down_def e_def tdx_busy_def by (metis UnI1 insertI1 insertI2 not_le)
    then have "\<exists>err s'. cache_wb_loop E cpu e (td_emit (Tdh c e) s) = Some (err, s')" by (intro less) simp
    then show ?thesis using True by (subst cache_wb_loop.simps) (simp add: tdh_run e_def c_def)
  next
    case False
    then show ?thesis by (subst cache_wb_loop.simps) (simp add: tdh_run e_def c_def)
  qed
qed

text \<open>The retries of the code, on one status and on a masked one.\<close>

lemma retry_is:
  assumes "calms_down E N" "b \<in> tdx_busy E" shows "\<exists>err out s'. tdh_retry E (\<lambda>err. err = b) c s = Some (err, out, s')"
  by (rule retry_returns [OF assms(1)]) (simp add: assms(2))

lemma retry_masked:
  assumes "calms_down E N"
  shows "\<exists>err out s'. tdh_retry E (\<lambda>err. err AND TDX_SEAMCALL_STATUS_MASK E = TDX_OPERAND_BUSY E) c s = Some (err, out, s')"
  by (rule retry_returns [OF assms]) (simp add: tdx_busy_def)

lemma busy_members [simp]:
  "(TDX_OPERAND_BUSY E OR TDX_OPERAND_ID_RCX E) \<in> tdx_busy E" "(TDX_OPERAND_BUSY E OR TDX_OPERAND_ID_TDR E) \<in> tdx_busy E"
  "TDX_KEY_GENERATION_FAILED E \<in> tdx_busy E" "TDX_ERROR_SEPT_BUSY E \<in> tdx_busy E" "TDX_INTERRUPTED_RESTARTABLE E \<in> tdx_busy E"
  "(TDX_TLB_TRACKING_NOT_DONE E OR TDX_OPERAND_ID_SEPT E) \<in> tdx_busy E"
  by (simp_all add: tdx_busy_def)

lemma bind_returns: "\<exists>x. m = Some x \<Longrightarrow> (\<And>x. \<exists>y. f x = Some y) \<Longrightarrow> \<exists>y. Option.bind m f = Some y"
  by auto

lemma reclaim_returns:
  assumes "calms_down E N"
  shows "\<exists>r s'. tdx_reclaim_page_raw E p level s = Some (r, s')" "\<exists>r s'. tdx_reclaim_page E p level s = Some (r, s')"
    "\<exists>s'. tdx_reclaim_control_page E p s = Some s'" "\<exists>s'. reclaim_control_pages E ps s = Some s'"
proof -
  let ?again = "\<lambda>err. err = (TDX_OPERAND_BUSY E OR TDX_OPERAND_ID_RCX E) \<or> err = (TDX_OPERAND_BUSY E OR TDX_OPERAND_ID_TDR E)"
  have raw: "\<exists>r s'. tdx_reclaim_page_raw E p level s = Some (r, s')" for p level s
  proof -
    have "\<exists>err out s'. tdh_retry E ?again (Tdh_phymem_page_reclaim p) s = Some (err, out, s')"
      by (rule retry_returns [OF assms]) auto
    then show ?thesis by (auto simp: tdx_reclaim_page_raw_def)
  qed
  then show "\<exists>r s'. tdx_reclaim_page_raw E p level s = Some (r, s')" .
  have page: "\<exists>r s'. tdx_reclaim_page E p level s = Some (r, s')" for p level s
    using raw [of p level s] by (auto simp: tdx_reclaim_page_def)
  then show "\<exists>r s'. tdx_reclaim_page E p level s = Some (r, s')" .
  have control: "\<exists>s'. tdx_reclaim_control_page E p s = Some s'" for p s
    using page [of p "PG_LEVEL_4K E" "warn_on_once (p = 0) s"] by (auto simp: tdx_reclaim_control_page_def)
  then show "\<exists>s'. tdx_reclaim_control_page E p s = Some s'" .
  show "\<exists>s'. reclaim_control_pages E ps s = Some s'"
  proof (induction ps arbitrary: s)
    case (Cons p ps)
    show ?case
    proof (cases "p = 0")
      case False
      then show ?thesis using control [of p s] Cons by auto
    qed (use Cons in simp)
  qed simp
qed

section \<open>Flushing the virtual processors\<close>

abbreviation disassociated :: "vcpu_tdx \<Rightarrow> vcpu_tdx" where
  "disassociated x \<equiv> x\<lparr>vcpu_cpu := - 1\<rparr>"

lemma flush_on_cpu_effect:
  assumes "flush_rules E N s0" "v < length (vcpus s)" "cpu_online E (vcpus s ! v)"
  shows "\<exists>m. td_log (tdx_flush_vp_on_cpu E v s) = m @ td_log s \<and>
    vcpus (tdx_flush_vp_on_cpu E v s) = (vcpus s)[v := disassociated (vcpus s ! v)] \<and>
    (vcpu_cpu (vcpus s ! v) \<noteq> - 1 \<longrightarrow> is_td_vcpu_created (vcpus s ! v) \<longrightarrow> flushed E m (tdvpr_pa (vcpus s ! v)))"
proof (cases "vcpu_cpu (vcpus s ! v) = - 1")
  case True
  then have "disassociated (vcpus s ! v) = vcpus s ! v" by simp
  then have "(vcpus s)[v := disassociated (vcpus s ! v)] = vcpus s" by (simp only: list_update_id)
  then show ?thesis using True by (simp add: tdx_flush_vp_on_cpu_def)
next
  case False
  then obtain cpu where c: "vcpu_cpu (vcpus s ! v) = int cpu" "cpu \<in> set (online_cpus E)"
    using assms(3) by (auto simp: cpu_online_def intro: that [of "nat (vcpu_cpu (vcpus s ! v))"])
  define call where "call = Tdh_vp_flush cpu (tdvpr_pa (vcpus s ! v))"
  define err where "err = fst (answer_tdh E (td_log s) call)"
  have ok: "err \<in> {0, TDX_VCPU_NOT_ASSOCIATED E}" using assms(1) unfolding flush_rules_def err_def call_def by blast
  have run: "tdx_flush_vp_on_cpu E v s =
      tdx_disassociate_vp v (if is_td_vcpu_created (vcpus s ! v) then td_emit (Tdh call err) s else s)"
    using c ok by (auto simp: tdx_flush_vp_on_cpu_def smp_call_function_single_def tdx_flush_vp_def tdh_def Let_def warn_on_once_def
        call_def err_def split: prod.split)
  have dis: "vcpus (tdx_disassociate_vp v t) = (vcpus t)[v := disassociated (vcpus t ! v)] \<and> td_log (tdx_disassociate_vp v t) = td_log t"
    for t by (simp add: tdx_disassociate_vp_def set_vcpu_def Let_def)
  show ?thesis
    using ok by (auto simp: run dis call_def flushed_def intro!: exI [of _ "if is_td_vcpu_created (vcpus s ! v) then [Tdh call err] else []"])
qed

lemma flush_some_effect:
  assumes "flush_rules E N s" "n \<le> length (vcpus s)"
  shows "\<exists>m. td_log (fold (tdx_flush_vp_on_cpu E) [0..<n] s) = m @ td_log s \<and>
    vcpus (fold (tdx_flush_vp_on_cpu E) [0..<n] s) = map disassociated (take n (vcpus s)) @ drop n (vcpus s) \<and>
    (\<forall>v < n. vcpu_cpu (vcpus s ! v) \<noteq> - 1 \<longrightarrow> is_td_vcpu_created (vcpus s ! v) \<longrightarrow> flushed E m (tdvpr_pa (vcpus s ! v)))"
  using assms(2)
proof (induction n)
  case (Suc n)
  let ?s = "fold (tdx_flush_vp_on_cpu E) [0..<n] s"
  obtain m where m: "td_log ?s = m @ td_log s" "vcpus ?s = map disassociated (take n (vcpus s)) @ drop n (vcpus s)"
    "\<forall>v < n. vcpu_cpu (vcpus s ! v) \<noteq> - 1 \<longrightarrow> is_td_vcpu_created (vcpus s ! v) \<longrightarrow> flushed E m (tdvpr_pa (vcpus s ! v))"
    using Suc by auto
  have n: "n < length (vcpus ?s)" "vcpus ?s ! n = vcpus s ! n" using Suc.prems by (simp_all add: m(2) nth_append)
  have "cpu_online E (vcpus ?s ! n)" using assms(1) Suc.prems n(2) by (simp add: flush_rules_def)
  from flush_on_cpu_effect [OF assms(1) n(1) this] obtain m' where
    m': "td_log (tdx_flush_vp_on_cpu E n ?s) = m' @ td_log ?s" "vcpus (tdx_flush_vp_on_cpu E n ?s) = (vcpus ?s)[n := disassociated (vcpus s ! n)]"
    "vcpu_cpu (vcpus s ! n) \<noteq> - 1 \<longrightarrow> is_td_vcpu_created (vcpus s ! n) \<longrightarrow> flushed E m' (tdvpr_pa (vcpus s ! n))"
    unfolding n(2) by blast
  have "vcpus (tdx_flush_vp_on_cpu E n ?s) = map disassociated (take (Suc n) (vcpus s)) @ drop (Suc n) (vcpus s)"
    using Suc.prems by (simp add: m' m(2) list_update_append take_Suc_conv_app_nth Cons_nth_drop_Suc [symmetric])
  then show ?case using m m' by (intro exI [of _ "m' @ m"]) (auto simp: less_Suc_eq)
qed simp

lemma flush_vcpus_effect:
  assumes "flush_rules E N s"
  shows "\<exists>m. td_log (flush_vcpus E s) = m @ td_log s \<and> vcpus (flush_vcpus E s) = map disassociated (vcpus s) \<and>
    (\<forall>p \<in> entered s. flushed E m p)"
proof -
  obtain m where m: "td_log (flush_vcpus E s) = m @ td_log s" "vcpus (flush_vcpus E s) = map disassociated (vcpus s)"
    "\<And>v. v < length (vcpus s) \<Longrightarrow> vcpu_cpu (vcpus s ! v) \<noteq> - 1 \<Longrightarrow> is_td_vcpu_created (vcpus s ! v) \<Longrightarrow> flushed E m (tdvpr_pa (vcpus s ! v))"
    using flush_some_effect [OF assms, of "length (vcpus s)"] by (auto simp: flush_vcpus_def)
  have "flushed E m p" if "p \<in> entered s" for p using that m(3) by (auto simp: entered_def in_set_conv_nth)
  then show ?thesis using m(1,2) by blast
qed

section \<open>Release of the key id and teardown\<close>

lemma wb_cpus_return:
  assumes "calms_down E N" shows "\<exists>s'. cache_wb_on_cpus E cpus s = Some s'"
proof (induction cpus arbitrary: s)
  case (Cons i cpus)
  obtain err s1 where "cache_wb_loop E i 0 s = Some (err, s1)" using cache_wb_returns [OF assms] by blast
  then show ?case using Cons by (simp add: tdx_do_tdh_phymem_cache_wb_def)
qed simp

lemma release_once_returns:
  assumes "calms_down E N" "flush_rules E N s"
  shows "\<exists>r s'. tdx_mmu_release_hkid_once E s = Some (r, s') \<and>
    (r = - EBUSY \<longrightarrow> length (td_log s) < N \<and> length (td_log s) < length (td_log s') \<and> flush_rules E N s')"
proof (cases "\<not> is_hkid_assigned (td s) \<or> \<not> is_td_created (td s)")
  case True
  then show ?thesis by (auto simp: tdx_mmu_release_hkid_once_def EBUSY_def)
next
  case False
  obtain a sa b sb where ab: "kmalloc E s = (a, sa)" "kmalloc E sa = (b, sb)" by (metis prod.collapse)
  then have sb: "td_log sb = [Kmalloc b, Kmalloc a] @ td_log s" "vcpus sb = vcpus s" by (auto simp: kmalloc_def Let_def)
  have "flush_rules E N sb" by (rule rules_later [OF assms(2) sb(1)]) (use assms(2) sb(2) in \<open>auto simp: flush_rules_def entered_def\<close>)
  define s1 where "s1 = flush_vcpus E sb"
  obtain m where m: "td_log s1 = m @ td_log sb" "vcpus s1 = map disassociated (vcpus s)" "\<forall>p \<in> entered s. flushed E m p"
    using flush_vcpus_effect [OF \<open>flush_rules E N sb\<close>] sb(2) by (auto simp: s1_def entered_def)
  define c where "c = Tdh_mng_vpflushdone (tdr_pa (td s1))"
  define e where "e = fst (answer_tdh E (td_log s1) c)"
  define s2 where "s2 = td_emit (Tdh c e) s1"
  let ?cpus = "if b then wb_targets E a [] (online_cpus E) else online_cpus E"
  obtain s3 where s3: "cache_wb_on_cpus E ?cpus s2 = Some s3" using wb_cpus_return [OF assms(1)] by blast
  have run: "release_hkid_locked E a b s1 = (if e = TDX_FLUSHVP_NOT_DONE E then Some (- EBUSY, s2)
      else if e \<noteq> 0 then Some (- EIO, warn_on_once True s2)
      else (case tdh E (Tdh_mng_key_freeid (tdr_pa (td s3))) s3 of (err, _, s) \<Rightarrow>
             Some (if err \<noteq> 0 then (- EIO, warn_on_once True s) else (0, tdx_hkid_free E s))))"
    using s3 by (simp add: release_hkid_locked_def tdh_run c_def [symmetric] e_def [symmetric] s2_def [symmetric] cong: if_cong)
  have once: "tdx_mmu_release_hkid_once E s = do { (r, s) \<leftarrow> release_hkid_locked E a b s1; Some (r, kfree a (kfree b s)) }"
    using False ab by (simp add: tdx_mmu_release_hkid_once_def s1_def)
  show ?thesis
  proof (cases "e = TDX_FLUSHVP_NOT_DONE E")
    case True
    have l1: "td_log s1 = (m @ [Kmalloc b, Kmalloc a]) @ td_log s" using m(1) sb(1) by simp
    have "\<forall>p \<in> entered s. flushed E (m @ [Kmalloc b, Kmalloc a]) p" using m(3) by simp
    then have "length (td_log s1) < N"
      using assms(2) True unfolding flush_rules_def e_def c_def l1 by (metis not_le)
    moreover define s' where "s' = kfree a (kfree b s2)"
    moreover define L where "L = (if a then [Kfree] else []) @ (if b then [Kfree] else []) @ Tdh c e # m @ [Kmalloc b, Kmalloc a]"
    moreover have s': "td_log s' = L @ td_log s" "vcpus s' = map disassociated (vcpus s)"
      using l1 m(2) by (simp_all add: s'_def s2_def kfree_def td_emit_def L_def)
    moreover have "flushed E L p" if "p \<in> entered s" for p
    proof -
      have "set m \<subseteq> set L" by (auto simp: L_def)
      then show ?thesis using m(3) that unfolding flushed_def by blast
    qed
    then have "flush_rules E N s'"
      by (intro rules_later [OF assms(2) s'(1)]) (use s'(2) in \<open>auto simp: cpu_online_def\<close>)
    ultimately show ?thesis using once run True l1 by (simp add: L_def)
  next
    case False
    then show ?thesis using once run by (auto simp: tdh_run EBUSY_def EIO_def)
  qed
qed

lemma release_returns:
  assumes "calms_down E N" "flush_rules E N s" shows "\<exists>s'. tdx_mmu_release_hkid E s = Some s'"
  using assms(2)
proof (induction "N - length (td_log s)" arbitrary: s rule: less_induct)
  case less
  obtain r s1 where once: "tdx_mmu_release_hkid_once E s = Some (r, s1)"
    "r = - EBUSY \<longrightarrow> length (td_log s) < N \<and> length (td_log s) < length (td_log s1) \<and> flush_rules E N s1"
    using release_once_returns [OF assms(1) less.prems] by blast
  show ?case
  proof (cases "r = - EBUSY")
    case True
    then have "\<exists>s'. tdx_mmu_release_hkid E s1 = Some s'" using once(2) by (intro less(1)) auto
    then show ?thesis using once(1) True by (subst tdx_mmu_release_hkid.simps) simp
  next
    case False
    then show ?thesis using once(1) by (subst tdx_mmu_release_hkid.simps) simp
  qed
qed

lemma teardown_returns:
  assumes "calms_down E N"
  shows "\<exists>s'. tdx_vm_free E s = Some s'" "\<exists>s'. tdx_vcpu_free E v s = Some s'"
proof -
  have tdcs: "\<exists>s'. free_tdcs_pages E s = Some s'" for s
  proof (cases "tdcs_pa (td s)")
    case (Some ps)
    then show ?thesis using reclaim_returns(4) [OF assms, of ps s] by (auto simp: free_tdcs_pages_def)
  qed (simp add: free_tdcs_pages_def)
  show "\<exists>s'. tdx_vm_free E s = Some s'"
  proof -
    obtain s1 where s1: "free_tdcs_pages E s = Some s1" using tdcs by blast
    obtain r s2 where "tdx_reclaim_page_raw E (tdr_pa (td s1)) (PG_LEVEL_4K E) s1 = Some (r, s2)"
      using reclaim_returns(1) [OF assms] by blast
    then show ?thesis using s1 by (auto simp: tdx_vm_free_def tdh_run Let_def)
  qed
  have tdvpx: "\<exists>s'. free_tdvpx_pages E v s = Some s'" for s
  proof (cases "tdvpx_pa (vcpus s ! v)")
    case (Some ps)
    then show ?thesis using reclaim_returns(4) [OF assms, of ps s] by (auto simp: free_tdvpx_pages_def)
  qed (simp add: free_tdvpx_pages_def)
  let ?s = "warn_on_once (vcpu_cpu (vcpus (tdx_disassociate_vp_on_cpu E v s) ! v) \<noteq> - 1) (tdx_disassociate_vp_on_cpu E v s)"
  obtain s1 where s1: "free_tdvpx_pages E v ?s = Some s1" using tdvpx by blast
  obtain s2 where "tdx_reclaim_control_page E (tdvpr_pa (vcpus s1 ! v)) s1 = Some s2"
    using reclaim_returns(3) [OF assms] by blast
  then show "\<exists>s'. tdx_vcpu_free E v s = Some s'" using s1 by (auto simp: tdx_vcpu_free_def Let_def)
qed

section \<open>Private memory\<close>

lemma drop_loop_returns:
  assumes "calms_down E N" shows "\<exists>r' s'. drop_pages_loop E n pfn hpa r s = Some (r', s')"
proof (induction n arbitrary: pfn hpa r s)
  case (Suc n)
  obtain err out s1 where "tdh_retry E (\<lambda>err. err = (TDX_OPERAND_BUSY E OR TDX_OPERAND_ID_RCX E))
      (Tdh_phymem_page_wbinvd (set_hkid_to_hpa E hpa (word_of_int (hkid (td s))))) s = Some (err, out, s1)"
    using retry_is [OF assms busy_members(1)] by blast
  then show ?case using Suc by simp
qed simp

lemma track_returns:
  assumes "calms_down E N" shows "\<exists>s'. tdx_track E s = Some s'"
proof -
  let ?s = "td_emit Tlb_request (set_td (\<lambda>k. k\<lparr>tdh_mem_track := tdh_mem_track k + 1\<rparr>) (kvm_bug_on (\<not> is_hkid_assigned (td s)) s))"
  obtain err out s1 where "tdh_retry E (\<lambda>err. err AND TDX_SEAMCALL_STATUS_MASK E = TDX_OPERAND_BUSY E)
      (Tdh_mem_track (tdr_pa (td ?s))) ?s = Some (err, out, s1)"
    using retry_masked [OF assms] by blast
  then show ?thesis by (auto simp: tdx_track_def Let_def)
qed

lemma sept_returns:
  assumes "calms_down E N"
  shows "\<exists>r s'. tdx_sept_set_private_spte E gfn level pfn s = Some (r, s')"
    "\<exists>r s'. tdx_sept_remove_private_spte E gfn level pfn s = Some (r, s')"
    "\<exists>r s'. tdx_sept_split_private_spt E gfn level spt s = Some (r, s')"
    "\<exists>r s'. tdx_sept_merge_private_spt E gfn level spt s = Some (r, s')"
    "\<exists>r s'. tdx_sept_unzap_private_spte E gfn level s = Some (r, s')"
    "\<exists>r s'. tdx_sept_free_private_spt E gfn level spt s = Some (r, s')"
    "\<exists>r s'. tdx_sept_flush_remote_tlbs E is_td s = Some (r, s')"
    "\<exists>s'. tdx_flush_tlb_current E s = Some s'"
proof -
  have add: "\<exists>r s'. tdx_mem_page_add E gfn level pfn s = Some (r, s')" for s
  proof (cases "source_page (td s)")
    case (Some p)
    then show ?thesis
      using retry_is [OF assms busy_members(4), where c = "Tdh_mem_page_add (tdr_pa (td s)) (gfn_to_gpa_td E gfn) (pfn_to_hpa E pfn) (pfn_to_hpa E p)" and s = s]
      by (auto simp: tdx_mem_page_add_def)
  qed (simp add: tdx_mem_page_add_def)
  show "\<exists>r s'. tdx_sept_set_private_spte E gfn level pfn s = Some (r, s')"
    using add by (simp add: tdx_sept_set_private_spte_def Let_def)
  have drop: "\<exists>r s'. tdx_sept_drop_private_spte E gfn level pfn s = Some (r, s')" for s
  proof (cases "is_hkid_assigned (td s)")
    case True
    obtain err out s1 where "tdh_retry E (\<lambda>err. err = TDX_ERROR_SEPT_BUSY E)
        (Tdh_mem_page_remove (tdr_pa (td s)) (gfn_to_gpa_td E gfn) (pg_level_to_tdx_sept_level E level)) s = Some (err, out, s1)"
      using retry_is [OF assms busy_members(4)] by blast
    then show ?thesis using True drop_loop_returns [OF assms, of "KVM_PAGES_PER_HPAGE E level" pfn "pfn_to_hpa E pfn" 0 s1]
      by (simp add: tdx_sept_drop_private_spte_def)
  next
    case False
    then show ?thesis using reclaim_returns(2) [OF assms, of "pfn_to_hpa E pfn" level s]
      by (auto simp: tdx_sept_drop_private_spte_def)
  qed
  show "\<exists>r s'. tdx_sept_remove_private_spte E gfn level pfn s = Some (r, s')"
  proof (cases "is_hkid_assigned (td s)")
    case True
    obtain s1 where "tdx_track E s = Some s1" using track_returns [OF assms] by blast
    then show ?thesis using True drop [of s1] by (simp add: tdx_sept_remove_private_spte_def)
  qed (use drop in \<open>simp add: tdx_sept_remove_private_spte_def\<close>)
  show "\<exists>r s'. tdx_sept_split_private_spt E gfn level spt s = Some (r, s')"
    using retry_is [OF assms busy_members(5), where c = "Tdh_mem_page_demote (tdr_pa (td s)) (gfn_to_gpa_td E gfn AND KVM_HPAGE_MASK E level)
          (pg_level_to_tdx_sept_level E level) (pa_of E spt)" and s = s]
    by (auto simp: tdx_sept_split_private_spt_def)
  show "\<exists>r s'. tdx_sept_merge_private_spt E gfn level spt s = Some (r, s')"
  proof -
    obtain err out s1 where "tdh_retry E (\<lambda>err. err = TDX_INTERRUPTED_RESTARTABLE E)
       (Tdh_mem_page_promote (tdr_pa (td s)) (gfn_to_gpa_td E gfn AND KVM_HPAGE_MASK E level)
          (pg_level_to_tdx_sept_level E level)) s = Some (err, out, s1)"
      using retry_is [OF assms busy_members(5)] by blast
    moreover define s2 where "s2 = warn_on_once (out_rcx out \<noteq> pa_of E spt) s1"
    moreover obtain err2 out2 s3 where "tdh_retry E (\<lambda>err. err = (TDX_OPERAND_BUSY E OR TDX_OPERAND_ID_RCX E))
         (Tdh_phymem_page_wbinvd (set_hkid_to_hpa E (pa_of E spt) (word_of_int (hkid (td s2))))) s2 = Some (err2, out2, s3)"
      using retry_is [OF assms busy_members(1)] by blast
    ultimately show ?thesis by (simp add: tdx_sept_merge_private_spt_def)
  qed
  show "\<exists>r s'. tdx_sept_unzap_private_spte E gfn level s = Some (r, s')"
    using retry_is [OF assms busy_members(6), where c = "Tdh_mem_range_unblock (tdr_pa (td s)) (gfn_to_gpa_td E gfn AND KVM_HPAGE_MASK E level)
          (pg_level_to_tdx_sept_level E level)" and s = s]
    by (auto simp: tdx_sept_unzap_private_spte_def)
  show "\<exists>r s'. tdx_sept_free_private_spt E gfn level spt s = Some (r, s')"
    using reclaim_returns(2) [OF assms] by (simp add: tdx_sept_free_private_spt_def)
  show "\<exists>r s'. tdx_sept_flush_remote_tlbs E is_td s = Some (r, s')"
    using track_returns [OF assms, of s] by (auto simp: tdx_sept_flush_remote_tlbs_def)
  show "\<exists>s'. tdx_flush_tlb_current E s = Some s'" using track_returns [OF assms] by (simp add: tdx_flush_tlb_current_def)
qed

section \<open>The creation\<close>

text \<open>Steps that leave the virtual processors alone; the log grows.\<close>

definition ahead :: "td_host \<Rightarrow> td_host \<Rightarrow> bool" where
  "ahead s s' \<longleftrightarrow> vcpus s' = vcpus s \<and> (\<exists>m. td_log s' = m @ td_log s)"

lemma ahead_rules: "flush_rules E N s \<Longrightarrow> ahead s s' \<Longrightarrow> flush_rules E N s'"
proof -
  assume f: "flush_rules E N s" and a: "ahead s s'"
  obtain m where m: "td_log s' = m @ td_log s" "vcpus s' = vcpus s" using a by (auto simp: ahead_def)
  show ?thesis
    by (rule rules_later [OF f m(1)]) (use f m(2) in \<open>auto simp: entered_def flush_rules_def\<close>)
qed

lemma ahead_trans: "ahead s s' \<Longrightarrow> ahead s' s'' \<Longrightarrow> ahead s s''"
  by (auto simp: ahead_def)

lemma ahead_steps [simp]:
  "ahead s s" "ahead s (td_emit e s)" "ahead s (set_td f s)" "ahead s (warn_on_once b s)" "ahead s (kfree b s)"
  "ahead s (snd (kmalloc E s))" "ahead s (snd (get_free_page_td E s))" "ahead s (free_page_td va s)"
  "ahead s (s\<lparr>nr_configured_hkid := n\<rparr>)" "ahead s (snd (snd (tdh E c s)))" "ahead s (snd (tdx_guest_keyid_alloc E s))"
  by (auto simp: ahead_def td_emit_def set_td_def warn_on_once_def kfree_def kmalloc_def get_free_page_td_def free_page_td_def
      tdh_def tdx_guest_keyid_alloc_def Let_def split: prod.split)

section \<open>The creation\<close>

lemma ahead_retry: "tdh_retry E again c s = Some (err, out, s') \<Longrightarrow> ahead s s'"
proof -
  assume "tdh_retry E again c s = Some (err, out, s')"
  then obtain errs where s': "s' = fold (\<lambda>e. td_emit (Tdh c e)) (errs @ [err]) s" using tdh_retry_log by blast
  have "ahead s (fold (\<lambda>e. td_emit (Tdh c e)) es s)" for es
    by (induction es arbitrary: s) (auto intro: ahead_trans ahead_steps(2))
  then show ?thesis unfolding s' .
qed

lemma ahead_free_pages: "ahead s (free_control_pages E ps s)"
  unfolding free_control_pages_def by (induction ps arbitrary: s) (auto intro: ahead_trans ahead_steps(8))

lemma ahead_alloc_pages: "ahead s (snd (snd (alloc_control_pages E n k ps s)))"
proof (induction n arbitrary: k ps s)
  case (Suc n)
  obtain va s1 where g: "get_free_page_td E s = (va, s1)" by fastforce
  then have "ahead s s1" using ahead_steps(7) [of s E] by simp
  then show ?case using g Suc ahead_trans by (auto simp: Let_def)
qed simp

lemma key_config_returns:
  assumes "calms_down E N" shows "\<exists>r' s'. key_config_loop E seen cpus r s = Some (r', s') \<and> ahead s s'"
proof (induction cpus arbitrary: seen r s)
  case (Cons i cpus)
  obtain err out s1 where t: "tdh_retry E (\<lambda>err. err = TDX_KEY_GENERATION_FAILED E) (Tdh_mng_key_config i (tdr_pa (td s))) s = Some (err, out, s1)"
    using retry_is [OF assms busy_members(3)] by blast
  note a = ahead_retry [OF t]
  have "ahead s (warn_on_once b s1)" for b using a by (rule ahead_trans) simp
  moreover obtain r' s' where "key_config_loop E (package_id E i # seen) cpus 0 s1 = Some (r', s')" "ahead s1 s'" using Cons by blast
  moreover from this have "ahead s s'" using a ahead_trans by blast
  ultimately show ?case using Cons [of seen r s] t by (auto simp: tdx_do_tdh_mng_key_config_def EIO_def)
qed simp

lemma ahead_addcx: "addcx_loop E ps i s = (r, j, s') \<Longrightarrow> ahead s s'"
proof (induction ps arbitrary: i s)
  case (Cons p ps)
  obtain err out s1 where t: "tdh E (Tdh_mng_addcx (tdr_pa (td s)) p) s = (err, out, s1)" by (rule prod_cases3)
  have a: "ahead s s1" using ahead_steps(10) [of s E "Tdh_mng_addcx (tdr_pa (td s)) p"] unfolding t by simp
  have w: "ahead s (warn_on_once True s1)" using a by (rule ahead_trans) simp
  show ?case using Cons.prems Cons.IH [of "Suc i" s1] a w ahead_trans [OF a] by (auto simp: t simp del: tdh_simps split: if_splits)
qed simp

lemma teardown_label_returns:
  assumes "calms_down E N" "flush_rules E N s" shows "\<exists>r' s'. td_init_teardown E r i ps assigned s = Some (r', s')"
proof -
  define s1 where "s1 = free_control_pages E (drop i ps) s"
  define s2 where "s2 = (if assigned then set_td (tdcs_pa_update (\<lambda>_. Some (take i ps @ replicate (length ps - i) 0))) s1 else s1)"
  define s3 where "s3 = kfree (tdcs_pa (td s2) = None) s2"
  have "ahead s s1" unfolding s1_def by (rule ahead_free_pages)
  moreover have "ahead s1 s2" "ahead s2 s3" by (simp_all add: s2_def s3_def)
  ultimately have "flush_rules E N s3" by (intro ahead_rules [OF assms(2)]) (blast intro: ahead_trans)
  then obtain s4 where s4: "tdx_mmu_release_hkid E s3 = Some s4" using release_returns [OF assms(1)] by blast
  obtain s5 where "tdx_vm_free E s4 = Some s5" using teardown_returns(1) [OF assms(1)] by blast
  then have "td_init_teardown E r i ps assigned s = Some (r, s5)"
    unfolding td_init_teardown_def Let_def s1_def [symmetric] s2_def [symmetric] s3_def [symmetric] using s4 by simp
  then show ?thesis by blast
qed

lemma configure_returns:
  assumes "calms_down E N" "flush_rules E N s" shows "\<exists>r' err s'. td_init_configure E tp r ps s = Some (r', err, s')"
proof -
  obtain r1 s1 where k: "key_config_loop E [] (online_cpus E) r s = Some (r1, s1)" "ahead s s1" using key_config_returns [OF assms(1)] by blast
  have t: "\<exists>r' err s'. do { (ret, s) \<leftarrow> td_init_teardown E q i ps assigned x; Some (ret, e, s) } = Some (r', err, s')"
    if "ahead s x" for q i assigned x and e :: u64
    using teardown_label_returns [OF assms(1) ahead_rules [OF assms(2) that], of q i ps assigned] by auto
  define s2 where "s2 = set_td (tdcs_pa_update (\<lambda>_. Some ps)) (kfree True s1)"
  obtain r2 i s3 where a: "addcx_loop E ps 0 s2 = (r2, i, s3)" by (rule prod_cases3)
  have "ahead s (kfree True s1)" using k(2) by (rule ahead_trans) simp
  moreover from this have "ahead s s2" unfolding s2_def by (rule ahead_trans) simp
  moreover from this have "ahead s s3" using ahead_addcx [OF a] by (rule ahead_trans)
  moreover from this have em: "ahead s (td_emit e s3)" for e by (rule ahead_trans) simp
  moreover have "ahead s (warn_on_once True (td_emit e s3))" for e
    by (rule ahead_trans [OF em [of e]]) simp
  ultimately show ?thesis using t k(1) a by (simp add: td_init_configure_def tdh_run Let_def s2_def [symmetric])
qed

lemma td_init_returns:
  assumes "calms_down E N" "flush_rules E N s" shows "\<exists>r err s'. tdx_td_init E U cmd s = Some (r, err, s')"
proof -
  have create: "\<exists>x. td_init_create E tp r tdr ps s' = Some x" if a: "ahead s s'" for tp r tdr ps s'
  proof -
    obtain mask s1 where m: "kmalloc E s' = (mask, s1)" by fastforce
    obtain err out s2 where t: "tdh E (Tdh_mng_create tdr (hkid (td s1))) s1 = (err, out, s2)" by (rule prod_cases3)
    have "ahead s' s1" using m ahead_steps(6) [of s' E] by simp
    moreover have "ahead s1 s2" using ahead_steps(10) [of s1 E "Tdh_mng_create tdr (hkid (td s1))"] unfolding t by simp
    moreover have "ahead s2 (set_td (tdr_pa_update (\<lambda>_. tdr)) s2)" by simp
    ultimately have "flush_rules E N (set_td (tdr_pa_update (\<lambda>_. tdr)) s2)"
      by (intro ahead_rules [OF assms(2)]) (blast intro: a ahead_trans)
    from configure_returns [OF assms(1) this] show ?thesis
      using m t by (auto simp: td_init_create_def with_status_def simp del: tdh_simps)
  qed
  have inner: "\<exists>x. tdx_td_init_inner E tp s' = Some x" if a: "ahead s s'" for tp s'
  proof -
    obtain k s1 where k: "tdx_guest_keyid_alloc E s' = (k, s1)" by fastforce
    define s2 where "s2 = (set_td (hkid_update (\<lambda>_. k)) s1)\<lparr>nr_configured_hkid := nr_configured_hkid s1 + 1\<rparr>"
    obtain va s3 where va: "get_free_page_td E s2 = (va, s3)" by fastforce
    obtain arr s4 where arr: "kmalloc E s3 = (arr, s4)" by fastforce
    define n where "n = unat (nr_tdcs_pages (tdx_info_of E))"
    obtain ok ps s5 where al: "alloc_control_pages E n 0 (replicate n 0) s4 = (ok, ps, s5)" by (rule prod_cases3)
    have "ahead s' s1" using k ahead_steps(11) [of s' E] by simp
    moreover have "ahead s1 s2" by (rule ahead_trans [of _ "set_td (hkid_update (\<lambda>_. k)) s1"]) (simp_all add: s2_def)
    moreover have "ahead s2 s3" using va ahead_steps(7) [of s2 E] by simp
    moreover have "ahead s3 s4" using arr ahead_steps(6) [of s3 E] by simp
    moreover have "ahead s4 s5" using al ahead_alloc_pages [of s4 E n 0 "replicate n 0"] by simp
    ultimately have "ahead s s5" using a by (blast intro: ahead_trans)
    from create [OF this, of tp k "pa_of E va" ps] show ?thesis
      using k va arr al by (simp add: tdx_td_init_inner_def with_status_def Let_def s2_def [symmetric] n_def [symmetric])
  qed
  have params: "ahead x (snd (snd (setup_tdparams E tp iv x)))" for tp iv x
    by (auto simp: setup_tdparams_def setup_tdparams_cpuids_def Let_def ahead_def split: prod.split)
  have "\<exists>x. tdx_td_init E U cmd s = Some x"
  proof -
    obtain ok1 s1 where k1: "kmalloc E (warn_on_once (td_cpuid (td s) \<noteq> None) s) = (ok1, s1)" by fastforce
    define s2 where "s2 = set_td (td_cpuid_update (\<lambda>_. Some [])) s1"
    obtain ok2 s3 where k2: "kmalloc E s2 = (ok2, s3)" by fastforce
    obtain ret iv where u: "read_init_vm E U (cmd_data cmd) = (ret, iv)" by fastforce
    obtain ok3 s4 where k3: "kmalloc E s3 = (ok3, s4)" by fastforce
    have "ahead s (warn_on_once (td_cpuid (td s) \<noteq> None) s)" by simp
    moreover have "ahead (warn_on_once (td_cpuid (td s) \<noteq> None) s) s1" using k1 ahead_steps(6) by (metis snd_conv)
    moreover have "ahead s1 s2" by (simp add: s2_def)
    moreover have "ahead s2 s3" "ahead s3 s4" using k2 k3 ahead_steps(6) by (metis snd_conv)+
    ultimately have a4: "ahead s s4" by (blast intro: ahead_trans)
    show ?thesis
    proof (cases iv)
      case None
      then show ?thesis using k1 k2 u by (simp add: tdx_td_init_def td_init_out_def Let_def s2_def [symmetric])
    next
      case (Some iv)
      obtain r tp s5 where p: "setup_tdparams E (zero_params E) iv s4 = (r, tp, s5)" by (rule prod_cases3)
      then have "ahead s s5" using ahead_trans [OF a4 params [of s4 "zero_params E" iv]] by simp
      then obtain x where "tdx_td_init_inner E tp s5 = Some x" using inner by blast
      then show ?thesis using k1 k2 u k3 Some p by (simp add: tdx_td_init_def td_init_out_def Let_def s2_def [symmetric] split_beta)
    qed
  qed
  then show ?thesis by auto
qed

text \<open>
  C13: Let the module, from some point of the log on, not be busy any more, and not answer that virtual processors are
  not flushed once those that KVM has associated with a processor are; let it flush a virtual processor, or find it not
  associated, when it is told to, and let the processors in question be online. Then every operation of KVM on a TD whose code has a loop
  of this kind returns: the creation and the other commands, the changes of private memory, TLB tracking, the release of the
  key id, which flushes the virtual processors itself, and the teardown.
\<close>

theorem td_operations_return:
  assumes "calms_down E N" "flush_rules E N s"
  shows "(\<exists>r s'. tdx_vm_ioctl E U argp s = Some (r, s')) \<and>
    (\<exists>r s'. tdx_sept_set_private_spte E gfn level pfn s = Some (r, s')) \<and>
    (\<exists>r s'. tdx_sept_remove_private_spte E gfn level pfn s = Some (r, s')) \<and>
    (\<exists>r s'. tdx_sept_split_private_spt E gfn level spt s = Some (r, s')) \<and>
    (\<exists>r s'. tdx_sept_merge_private_spt E gfn level spt s = Some (r, s')) \<and>
    (\<exists>r s'. tdx_sept_unzap_private_spte E gfn level s = Some (r, s')) \<and>
    (\<exists>r s'. tdx_sept_free_private_spt E gfn level spt s = Some (r, s')) \<and>
    (\<exists>r s'. tdx_sept_flush_remote_tlbs E is_td s = Some (r, s')) \<and> (\<exists>s'. tdx_flush_tlb_current E s = Some s') \<and>
    (\<exists>s'. tdx_mmu_release_hkid E s = Some s') \<and> (\<exists>s'. tdx_vcpu_free E v s = Some s') \<and> (\<exists>s'. tdx_vm_free E s = Some s')"
proof -
  have "\<exists>r s'. tdx_vm_ioctl E U argp s = Some (r, s')"
  proof (cases "user_cmd U argp")
    case (Some cmd)
    show ?thesis using Some td_init_returns [OF assms, of "td_user.truncate U" cmd]
      by (auto simp: tdx_vm_ioctl_def Let_def split_beta)
  qed (simp add: tdx_vm_ioctl_def)
  then show ?thesis by (intro conjI sept_returns [OF assms(1)] release_returns [OF assms] teardown_returns [OF assms(1)])
qed

text \<open>
  The module is busy for 20 events, and says that virtual processors are not flushed until that of the page \<open>0x3000\<close> is.
\<close>

fun vp_flushed :: "td_event \<Rightarrow> bool" where
  "vp_flushed (Tdh (Tdh_vp_flush _ p) _) = (p = 0x3000)"
| "vp_flushed _ = False"

definition busy_demo :: td_env where
  "busy_demo = tdx_env_with (\<lambda>log c. case c of
       Tdh_mng_vpflushdone _ \<Rightarrow>
         if length log < 20 \<or> \<not> (\<exists>e \<in> set log. vp_flushed e) then 0x8000082400000000 else 0
     | Tdh_phymem_cache_wb _ _ \<Rightarrow> if length log < 20 then 0x8000000300000000 else 0
     | _ \<Rightarrow> 0) demo_pages_list"

definition busy_host :: td_host where
  "busy_host = (set_td (\<lambda>k. k\<lparr>tdr_pa := 0x1000, hkid := 33\<rparr>) demo_td_host)
     \<lparr>vcpus := [\<lparr>tdvpr_pa = 0x3000, tdvpx_pa = None, td_vcpu_created = True, vcpu_initialized = True, vcpu_cpu = 0,
        apicv_active = False, mp_runnable = True\<rparr>]\<rparr>"

lemma vp_flushed_ev: "Tdh (Tdh_vp_flush c 0x3000) err \<in> set log \<Longrightarrow> \<exists>e \<in> set log. vp_flushed e"
  by force

theorem td_operations_return_witness: "\<exists>s'. tdx_mmu_release_hkid busy_demo busy_host = Some s'"
proof -
  have c: "calms_down busy_demo 20"
    by (auto simp: calms_down_def tdx_busy_def busy_demo_def split: tdh_call.split)
  have "flush_rules busy_demo 20 busy_host"
    by (auto simp: flush_rules_def entered_def flushed_def cpu_online_def busy_demo_def busy_host_def is_td_vcpu_created_def dest: vp_flushed_ev)
  from td_operations_return [OF c this, of demo_user 0 0 0 0 0 True 0] show ?thesis by (elim conjE)
qed

end
