(* ===== verification/Tdx_Private.thy ===== *)
theory Tdx_Private
  imports Tdx_Returns "HOL-Library.Sublist"
begin

text \<open>
  The private pages of a TD: the references that KVM keeps on them, and the order in which a page is blocked, removed,
  written back, cleared and let go.
\<close>

section \<open>References\<close>

text \<open>The references on a frame that the log has taken and not given back.\<close>

fun net_pins :: "td_log \<Rightarrow> u64 \<Rightarrow> int" where
  "net_pins [] q = 0"
| "net_pins (Pinned p # log) q = net_pins log q + (if p = q then 1 else 0)"
| "net_pins (Unpinned p # log) q = net_pins log q - (if p = q then 1 else 0)"
| "net_pins (e # log) q = net_pins log q"

definition frames :: "td_env \<Rightarrow> u64 \<Rightarrow> nat \<Rightarrow> u64 list" where
  "frames E pfn level = map (\<lambda>i. pfn + of_nat i) [0..<KVM_PAGES_PER_HPAGE E level]"

lemma net_pins_emit [simp]:
  "net_pins (td_log (kvm_bug_on b s)) q = net_pins (td_log s) q"
  "net_pins (td_log (warn_on_once b s)) q = net_pins (td_log s) q"
  "net_pins (td_log (tdx_clear_page E p z s)) q = net_pins (td_log s) q"
  by (simp_all add: kvm_bug_on_def warn_on_once_def tdx_clear_page_def td_emit_def)

lemma net_pins_retry:
  assumes "tdh_retry E again c s = Some (err, out, s')"
  shows "net_pins (td_log s') q = net_pins (td_log s) q"
proof -
  obtain errs where "s' = fold (\<lambda>e. td_emit (Tdh c e)) (errs @ [err]) s" using tdh_retry_log [OF assms] by blast
  moreover have "net_pins (td_log (fold (\<lambda>e. td_emit (Tdh c e)) es s)) q = net_pins (td_log s) q" for es
    by (induction es arbitrary: s) simp_all
  ultimately show ?thesis by blast
qed

lemma net_pins_pin:
  "net_pins (td_log (pin_pages E pfn level s)) q = net_pins (td_log s) q + int (count_list (frames E pfn level) q)"
  "net_pins (td_log (tdx_unpin E pfn level s)) q = net_pins (td_log s) q - int (count_list (frames E pfn level) q)"
proof -
  have "net_pins (td_log (fold (\<lambda>i. td_emit (Pinned (pfn + of_nat i))) is s)) q =
      net_pins (td_log s) q + int (count_list (map (\<lambda>i. pfn + of_nat i) is) q)" for "is"
    by (induction "is" arbitrary: s) auto
  then show "net_pins (td_log (pin_pages E pfn level s)) q = net_pins (td_log s) q + int (count_list (frames E pfn level) q)"
    by (simp add: pin_pages_def frames_def)
  have "net_pins (td_log (fold (\<lambda>i. td_emit (Unpinned (pfn + of_nat i))) is s)) q =
      net_pins (td_log s) q - int (count_list (map (\<lambda>i. pfn + of_nat i) is) q)" for "is"
    by (induction "is" arbitrary: s) auto
  then show "net_pins (td_log (tdx_unpin E pfn level s)) q = net_pins (td_log s) q - int (count_list (frames E pfn level) q)"
    by (simp add: tdx_unpin_def frames_def)
qed

lemma page_aug_pins:
  assumes "tdx_mem_page_aug E gfn level pfn s = (r, s')"
  shows "net_pins (td_log s') q = net_pins (td_log s) q - (if r = 0 then 0 else int (count_list (frames E pfn level) q))"
  using assms by (auto simp: tdx_mem_page_aug_def tdh_run Let_def net_pins_pin EAGAIN_def EIO_def split: if_splits prod.splits)

lemma page_add_pins:
  assumes "tdx_mem_page_add E gfn level pfn s = Some (r, s')"
  shows "net_pins (td_log s') q = net_pins (td_log s) q -
    (if r = 0 \<or> level \<noteq> PG_LEVEL_4K E then 0 else int (count_list (frames E pfn level) q))"
  using assms
  by (auto simp: tdx_mem_page_add_def net_pins_pin EINVAL_def EIO_def bind_eq_Some_conv net_pins_retry split: if_splits option.splits)

text \<open>
  C19: Adding a private page or a block of them keeps exactly one reference on each of its frames when it succeeds and
  none when it fails - but a block larger than a page that is refused before the measurement of the TD
  is finalised keeps all the references that the function has taken.
\<close>

theorem set_private_pins:
  assumes "tdx_sept_set_private_spte E gfn level pfn s = Some (r, s')"
  shows "net_pins (td_log s') q = net_pins (td_log s) q +
    (if r = 0 \<or> (\<not> is_td_finalized (td s) \<and> level \<noteq> PG_LEVEL_4K E) then int (count_list (frames E pfn level) q) else 0)"
proof -
  let ?s = "pin_pages E pfn level s"
  have t: "td ?s = td s" by (simp add: pin_pages_def)
  show ?thesis
  proof (cases "is_td_finalized (td s)")
    case True
    then have "tdx_mem_page_aug E gfn level pfn ?s = (r, s')" using assms t by (simp add: tdx_sept_set_private_spte_def)
    from page_aug_pins [OF this, of q] True show ?thesis by (simp add: net_pins_pin)
  next
    case False
    then have "tdx_mem_page_add E gfn level pfn ?s = Some (r, s')" using assms t by (simp add: tdx_sept_set_private_spte_def)
    from page_add_pins [OF this, of q] False show ?thesis by (simp add: net_pins_pin)
  qed
qed

lemma demo_frames: "count_list (frames tdx_demo 77 2) 77 = 1"
proof -
  have "frames tdx_demo 77 2 = map (\<lambda>i. 77 + of_nat i) [0..<512]" by (simp add: frames_def tdx_demo_def)
  also have "[0..<512] = 0 # [1..<512]" by (rule upt_conv_Cons [of 0 512, unfolded One_nat_def [symmetric]]) simp
  finally have "frames tdx_demo 77 2 = map (\<lambda>i. 77 + of_nat i) (0 # [1..<512])" .
  moreover have "of_nat i \<noteq> (0 :: u64)" if "1 \<le> i" "i < 512" for i
  proof
    assume "of_nat i = (0 :: u64)"
    then have "2 ^ 64 dvd i" by (simp add: word_of_nat_eq_0_iff)
    then show False using that nat_dvd_not_less [of i "2 ^ 64"] by simp
  qed
  then have "77 \<notin> (\<lambda>i. 77 + of_nat i :: u64) ` set [1..<512]" by auto
  ultimately show ?thesis by (simp add: count_notin)
qed

theorem set_private_pins_witness:
  "\<exists>s'. tdx_sept_set_private_spte tdx_demo 9 2 77 demo_td_host = Some (- EINVAL, s') \<and> net_pins (td_log s') 77 = 1"
proof -
  let ?s = "kvm_bug_on True (pin_pages tdx_demo 77 2 demo_td_host)"
  have run: "tdx_sept_set_private_spte tdx_demo 9 2 77 demo_td_host = Some (- EINVAL, ?s)"
    by (simp add: tdx_sept_set_private_spte_def tdx_mem_page_add_def pin_pages_def is_td_finalized_def demo_td_host_def tdx_demo_def)
  have "net_pins (td_log ?s) 77 = 1"
    using set_private_pins [OF run, of 77] demo_frames by (simp add: demo_td_host_def is_td_finalized_def tdx_demo_def EINVAL_def)
  then show ?thesis using run by blast
qed

section \<open>Removal\<close>

text \<open>The events of the removal of the pages from frame \<open>pfn\<close> at \<open>hpa\<close> on.\<close>

lemma drop_loop_pins:
  assumes "drop_pages_loop E n pfn hpa r s = Some (0, s')" "KVM_PAGES_PER_HPAGE E (PG_LEVEL_4K E) = 1"
  shows "r = 0 \<and> net_pins (td_log s') q = net_pins (td_log s) q - int (count_list (map (\<lambda>i. pfn + of_nat i) [0..<n]) q)"
  using assms(1)
proof (induction n arbitrary: pfn hpa r s)
  case (Suc n)
  obtain err out s1 where t: "tdh_retry E (\<lambda>err. err = (TDX_OPERAND_BUSY E OR TDX_OPERAND_ID_RCX E))
      (Tdh_phymem_page_wbinvd (set_hkid_to_hpa E hpa (word_of_int (hkid (td s))))) s = Some (err, out, s1)"
    using Suc.prems by (auto simp: bind_eq_Some_conv)
  show ?case
  proof (cases "err = 0")
    case False
    then have "drop_pages_loop E n (pfn + 1) (hpa + page_bytes E) (- EIO) (kvm_bug_on True s1) = Some (0, s')" using Suc.prems t by simp
    from Suc.IH [OF this] show ?thesis by (simp add: EIO_def)
  next
    case True
    let ?s2 = "tdx_unpin E pfn (PG_LEVEL_4K E) (tdx_clear_page E hpa (page_bytes E) s1)"
    have "drop_pages_loop E n (pfn + 1) (hpa + page_bytes E) r ?s2 = Some (0, s')" using Suc.prems t True by simp
    note IH = Suc.IH [OF this]
    have "map (\<lambda>i. pfn + of_nat i) [0..<Suc n] = pfn # map (\<lambda>i. pfn + 1 + of_nat i) [0..<n]"
      by (rule nth_equalityI) (auto simp: nth_Cons nth_append less_Suc_eq_0_disj simp del: upt_Suc split: nat.splits)
    moreover have "frames E pfn (PG_LEVEL_4K E) = [pfn]" using assms(2) by (simp add: frames_def)
    ultimately show ?thesis using IH net_pins_retry [OF t, of q] by (simp add: net_pins_pin)
  qed
qed simp

lemma reclaim_pins:
  assumes "tdx_reclaim_page E p level s = Some (r, s')" shows "net_pins (td_log s') q = net_pins (td_log s) q"
  using assms by (auto simp: tdx_reclaim_page_def tdx_reclaim_page_raw_def bind_eq_Some_conv net_pins_retry split: if_splits)

lemma track_pins:
  assumes "tdx_track E s = Some s'" shows "net_pins (td_log s') q = net_pins (td_log s) q"
  using assms by (auto simp: tdx_track_def Let_def bind_eq_Some_conv net_pins_retry split: if_splits)

lemma remove_private_pins:
  assumes "tdx_sept_remove_private_spte E gfn level pfn s = Some (0, s')" "KVM_PAGES_PER_HPAGE E (PG_LEVEL_4K E) = 1"
  shows "net_pins (td_log s') q = net_pins (td_log s) q - int (count_list (frames E pfn level) q)"
proof -
  obtain s1 where s1: "(if is_hkid_assigned (td s) then tdx_track E s else Some s) = Some s1"
    and d: "tdx_sept_drop_private_spte E gfn level pfn s1 = Some (0, s')"
    using assms(1) by (auto simp: tdx_sept_remove_private_spte_def bind_eq_Some_conv)
  have "net_pins (td_log s1) q = net_pins (td_log s) q" using s1 track_pins by (auto split: if_splits)
  moreover have "net_pins (td_log s') q = net_pins (td_log s1) q - int (count_list (frames E pfn level) q)"
  proof (cases "is_hkid_assigned (td s1)")
    case True
    then obtain err out s2 where t: "tdh_retry E (\<lambda>err. err = TDX_ERROR_SEPT_BUSY E)
        (Tdh_mem_page_remove (tdr_pa (td s1)) (gfn_to_gpa_td E gfn) (pg_level_to_tdx_sept_level E level)) s1 = Some (err, out, s2)"
      and l: "drop_pages_loop E (KVM_PAGES_PER_HPAGE E level) pfn (pfn_to_hpa E pfn) 0 s2 = Some (0, s')"
      using d by (auto simp: tdx_sept_drop_private_spte_def Let_def bind_eq_Some_conv EIO_def split: if_splits)
    then show ?thesis using drop_loop_pins [OF l assms(2), of q] net_pins_retry [OF t, of q] by (simp add: frames_def)
  next
    case False
    then obtain s2 where "tdx_reclaim_page E (pfn_to_hpa E pfn) level s1 = Some (0, s2)" "s' = tdx_unpin E pfn level s2"
      using d by (auto simp: tdx_sept_drop_private_spte_def Let_def bind_eq_Some_conv EIO_def split: if_splits)
    then show ?thesis using reclaim_pins by (simp add: net_pins_pin)
  qed
  ultimately show ?thesis by simp
qed

text \<open>
  A private page that is added and then removed, both with success, has the references it had before.
\<close>

theorem private_page_roundtrip:
  assumes "tdx_sept_set_private_spte E gfn level pfn s = Some (0, s1)" "tdx_sept_remove_private_spte E gfn level pfn s1 = Some (0, s2)"
    and "KVM_PAGES_PER_HPAGE E (PG_LEVEL_4K E) = 1"
  shows "net_pins (td_log s2) q = net_pins (td_log s) q"
  using set_private_pins [OF assms(1), of q] remove_private_pins [OF assms(2,3), of q] by simp

text \<open>A finalised TD in the environment of the example.\<close>

definition demo_final_host :: td_host where
  "demo_final_host = set_td (\<lambda>k. k\<lparr>tdr_pa := 0x1000, hkid := 33, finalized := True\<rparr>) demo_td_host"

theorem private_page_roundtrip_witness:
  "\<exists>s1 s2. tdx_sept_set_private_spte tdx_demo 9 1 77 demo_final_host = Some (0, s1) \<and>
    tdx_sept_remove_private_spte tdx_demo 9 1 77 s1 = Some (0, s2) \<and> net_pins (td_log s2) 77 = 0"
proof -
  obtain s1 s2 where run: "tdx_sept_set_private_spte tdx_demo 9 1 77 demo_final_host = Some (0, s1)"
    "tdx_sept_remove_private_spte tdx_demo 9 1 77 s1 = Some (0, s2)"
    by (simp add: demo_final_host_def demo_ops demo_ops2)
  have "net_pins (td_log s2) 77 = net_pins (td_log demo_final_host) 77"
    by (rule private_page_roundtrip [OF run]) (simp add: tdx_demo_def)
  then show ?thesis using run by (auto simp: demo_final_host_def demo_td_host_def)
qed

section \<open>The order of a removal\<close>

lemma retry_events:
  assumes "tdh_retry E again c s = Some (err, out, s')"
  shows "\<exists>errs. td_log s' = map (Tdh c) (err # errs) @ td_log s \<and> td s' = td s"
proof -
  obtain errs where "s' = fold (\<lambda>e. td_emit (Tdh c e)) (errs @ [err]) s" using tdh_retry_log [OF assms] by blast
  moreover have "td_log (fold (\<lambda>e. td_emit (Tdh c e)) es s) = map (Tdh c) (rev es) @ td_log s \<and> td (fold (\<lambda>e. td_emit (Tdh c e)) es s) = td s"
    for es by (induction es arbitrary: s) simp_all
  ultimately show ?thesis by (intro exI [of _ "rev errs"]) simp
qed

text \<open>\<open>P\<close> holds for each event \<open>Unpinned q\<close> of a log and the events before it.\<close>

definition at_unpins :: "td_log \<Rightarrow> (u64 \<Rightarrow> td_log \<Rightarrow> bool) \<Rightarrow> bool" where
  "at_unpins L P \<longleftrightarrow> (\<forall>xs q ys. L = xs @ Unpinned q # ys \<longrightarrow> P q ys)"

lemma at_unpins_simps:
  "at_unpins [] P" "at_unpins (Unpinned q # L) P \<longleftrightarrow> P q L \<and> at_unpins L P"
  "(\<forall>q. e \<noteq> Unpinned q) \<Longrightarrow> at_unpins (e # L) P \<longleftrightarrow> at_unpins L P"
  unfolding at_unpins_def by (auto simp: Cons_eq_append_conv)

lemma at_unpins_append:
  "at_unpins (L @ M) P \<longleftrightarrow> at_unpins L (\<lambda>q ys. P q (ys @ M)) \<and> at_unpins M P"
proof (induction L)
  case (Cons e L)
  then show ?case by (cases "\<exists>q. e = Unpinned q") (auto simp: at_unpins_simps)
qed (simp add: at_unpins_simps)

lemma at_unpins_calls: "at_unpins (map (Tdh c) es) P"
  by (induction es) (simp_all add: at_unpins_simps)

lemma at_unpins_mono: "at_unpins L P \<Longrightarrow> (\<And>q ys. P q ys \<Longrightarrow> Q q ys) \<Longrightarrow> at_unpins L Q"
  by (simp add: at_unpins_def)

lemma subseq_before: "subseq xs ys \<Longrightarrow> subseq xs (ys @ zs)"
  using list_emb_append_mono [of "(=)" xs ys "[]" zs] by simp

text \<open>The clearing and the write back of page \<open>i\<close>.\<close>

definition page_let_go :: "td_env \<Rightarrow> u16 \<Rightarrow> u64 \<Rightarrow> nat \<Rightarrow> td_log" where
  "page_let_go E k hpa i = [Cleared (hpa + of_nat i * page_bytes E) (page_bytes E),
     Tdh (Tdh_phymem_page_wbinvd (set_hkid_to_hpa E (hpa + of_nat i * page_bytes E) k)) 0]"

lemma drop_loop_order:
  assumes "drop_pages_loop E n pfn hpa r s = Some (r', s')" "KVM_PAGES_PER_HPAGE E (PG_LEVEL_4K E) = 1"
  shows "\<exists>L. td_log s' = L @ td_log s \<and> at_unpins L (\<lambda>q ys. \<exists>i < n. q = pfn + of_nat i \<and>
    subseq (page_let_go E (word_of_int (hkid (td s))) hpa i) ys)"
  using assms(1)
proof (induction n arbitrary: pfn hpa r s)
  case 0
  then show ?case by (auto simp: at_unpins_simps)
next
  case (Suc n)
  define c where "c = Tdh_phymem_page_wbinvd (set_hkid_to_hpa E hpa (word_of_int (hkid (td s))))"
  obtain err out s1 where t: "tdh_retry E (\<lambda>err. err = (TDX_OPERAND_BUSY E OR TDX_OPERAND_ID_RCX E)) c s = Some (err, out, s1)"
    using Suc.prems by (auto simp: bind_eq_Some_conv c_def)
  obtain errs where s1: "td_log s1 = map (Tdh c) (err # errs) @ td_log s" "td s1 = td s" using retry_events [OF t] by blast
  define s2 where "s2 = (if err \<noteq> 0 then kvm_bug_on True s1
    else td_emit (Unpinned pfn) (td_emit (Cleared hpa (page_bytes E)) s1))"
  have "tdx_unpin E pfn (PG_LEVEL_4K E) x = td_emit (Unpinned pfn) x" for x using assms(2) by (simp add: tdx_unpin_def)
  then have run: "drop_pages_loop E n (pfn + 1) (hpa + page_bytes E) (if err \<noteq> 0 then - EIO else r) s2 = Some (r', s')"
    using Suc.prems t by (auto simp: c_def s2_def tdx_clear_page_def warn_on_once_def split: if_splits)
  have td2: "td s2 = td s" using s1(2) by (simp add: s2_def)
  define M where "M = (if err \<noteq> 0 then [Td_warning] else [Unpinned pfn, Cleared hpa (page_bytes E)]) @ map (Tdh c) (err # errs)"
  have log2: "td_log s2 = M @ td_log s" using s1(1) by (simp add: s2_def M_def kvm_bug_on_def td_emit_def)
  let ?Q = "\<lambda>q ys. \<exists>i < Suc n. q = pfn + of_nat i \<and> subseq (page_let_go E (word_of_int (hkid (td s))) hpa i) ys"
  obtain L where L: "td_log s' = L @ td_log s2" "at_unpins L (\<lambda>q ys. \<exists>i < n. q = pfn + 1 + of_nat i \<and>
    subseq (page_let_go E (word_of_int (hkid (td s))) (hpa + page_bytes E) i) ys)"
    using Suc.IH [OF run] unfolding td2 by blast
  have step: "page_let_go E k (hpa + page_bytes E) i = page_let_go E k hpa (Suc i)" for k i
    by (simp add: page_let_go_def algebra_simps)
  have "at_unpins L (\<lambda>q ys. ?Q q (ys @ M))"
  proof (intro at_unpins_mono [OF L(2)])
    fix q ys
    assume "\<exists>i < n. q = pfn + 1 + of_nat i \<and> subseq (page_let_go E (word_of_int (hkid (td s))) (hpa + page_bytes E) i) ys"
    then obtain i where "i < n" "q = pfn + 1 + of_nat i" "subseq (page_let_go E (word_of_int (hkid (td s))) (hpa + page_bytes E) i) ys"
      by blast
    then show "?Q q (ys @ M)" using step by (intro exI [of _ "Suc i"]) (simp add: subseq_before)
  qed
  moreover have "at_unpins M ?Q"
    by (auto simp: M_def at_unpins_simps at_unpins_append at_unpins_calls page_let_go_def c_def
        intro!: exI [of _ 0])
  ultimately show ?case using L(1) log2 by (intro exI [of _ "L @ M"]) (simp add: at_unpins_append)
qed

text \<open>
  What the removal of a frame has done when it lets page \<open>i\<close> go, newest event first. A tracking that fails warns.
\<close>

definition track_events :: "kvm_tdx \<Rightarrow> u64 \<Rightarrow> td_log" where
  "track_events k e =
     (if is_td_finalized k then (if e \<noteq> 0 then [Td_warning] else []) @ [Tdh (Tdh_mem_track (tdr_pa k)) e, Tlb_request] else [])"

definition remove_call :: "td_env \<Rightarrow> u64 \<Rightarrow> nat \<Rightarrow> kvm_tdx \<Rightarrow> tdh_call" where
  "remove_call E gfn level k = Tdh_mem_page_remove (tdr_pa k) (gfn_to_gpa_td E gfn) (pg_level_to_tdx_sept_level E level)"

lemma track_order:
  assumes "tdx_track E s = Some s1" "is_hkid_assigned (td s)"
  shows "\<exists>T e. td_log s1 = T @ td_log s \<and> (\<forall>P. at_unpins T P) \<and> subseq (track_events (td s) e) T \<and>
    tdr_pa (td s1) = tdr_pa (td s) \<and> hkid (td s1) = hkid (td s)"
proof (cases "is_td_finalized (td s)")
  case False
  then have "s1 = s" using assms by (simp add: tdx_track_def kvm_bug_on_def)
  then show ?thesis using False by (intro exI [of _ "[]"]) (simp add: at_unpins_simps track_events_def)
next
  case True
  define track where "track = Tdh_mem_track (tdr_pa (td s))"
  define s0 where "s0 = td_emit Tlb_request (set_td (\<lambda>k. k\<lparr>tdh_mem_track := tdh_mem_track k + 1\<rparr>) s)"
  obtain e out s' where t: "tdh_retry E (\<lambda>err. err AND TDX_SEAMCALL_STATUS_MASK E = TDX_OPERAND_BUSY E) track s0 = Some (e, out, s')"
    and s1: "s1 = kvm_bug_on (e \<noteq> 0) (set_td (\<lambda>k. k\<lparr>tdh_mem_track := tdh_mem_track k - 1\<rparr>) s')"
    using assms True by (auto simp: tdx_track_def kvm_bug_on_def [of False] Let_def bind_eq_Some_conv s0_def track_def)
  obtain es where s': "td_log s' = map (Tdh track) (e # es) @ td_log s0" "td s' = td s0" using retry_events [OF t] by blast
  let ?T = "(if e \<noteq> 0 then [Td_warning] else []) @ map (Tdh track) (e # es) @ [Tlb_request]"
  have "td_log s1 = ?T @ td_log s" using s' by (simp add: s1 s0_def kvm_bug_on_def td_emit_def)
  moreover have "at_unpins ?T P" for P by (simp add: at_unpins_append at_unpins_calls at_unpins_simps)
  moreover have "subseq (track_events (td s) e) ?T" using True by (simp add: track_events_def track_def subseq_singleton_left)
  moreover have "tdr_pa (td s1) = tdr_pa (td s)" "hkid (td s1) = hkid (td s)" using s'(2) by (simp_all add: s1 s0_def)
  ultimately show ?thesis by blast
qed

lemma reclaim_order:
  assumes "tdx_reclaim_page E p level s = Some (r, s')"
  shows "\<exists>R. td_log s' = R @ td_log s \<and> (\<forall>P. at_unpins R P) \<and>
    (r = 0 \<longrightarrow> subseq [Cleared p (KVM_HPAGE_SIZE E level), Tdh (Tdh_phymem_page_reclaim p) 0] R)"
proof -
  obtain err out s1 where t: "tdh_retry E (\<lambda>err. err = (TDX_OPERAND_BUSY E OR TDX_OPERAND_ID_RCX E) \<or>
      err = (TDX_OPERAND_BUSY E OR TDX_OPERAND_ID_TDR E)) (Tdh_phymem_page_reclaim p) s = Some (err, out, s1)"
    and r: "r = (if err \<noteq> 0 then - EIO else 0)"
    and s': "s' = (if err \<noteq> 0 then warn_on_once True s1 else tdx_clear_page E p (KVM_HPAGE_SIZE E level)
      (warn_on_once (out_r8 out \<noteq> word_of_int (pg_level_to_tdx_sept_level E level)) s1))"
    using assms by (auto simp: tdx_reclaim_page_def tdx_reclaim_page_raw_def bind_eq_Some_conv EIO_def split: if_splits)
  obtain es where s1: "td_log s1 = map (Tdh (Tdh_phymem_page_reclaim p)) (err # es) @ td_log s" using retry_events [OF t] by blast
  obtain W where W: "td_log s' = W @ td_log s1" "set W \<subseteq> {Td_warning, Cleared p (KVM_HPAGE_SIZE E level)}"
    "err = 0 \<longrightarrow> subseq [Cleared p (KVM_HPAGE_SIZE E level)] W"
    by (rule that [of "take (length (td_log s') - length (td_log s1)) (td_log s')"])
      (simp_all add: s' tdx_clear_page_def warn_on_once_def td_emit_def)
  have "at_unpins W P" for P using W(2) by (induction W) (auto simp: at_unpins_simps)
  then have "at_unpins (W @ map (Tdh (Tdh_phymem_page_reclaim p)) (err # es)) P" for P by (simp add: at_unpins_append at_unpins_calls del: list.map)
  moreover have "err = 0 \<longrightarrow> subseq ([Cleared p (KVM_HPAGE_SIZE E level)] @ [Tdh (Tdh_phymem_page_reclaim p) 0])
      (W @ map (Tdh (Tdh_phymem_page_reclaim p)) (err # es))"
    using W(3) by (intro impI list_emb_append_mono) (simp_all add: subseq_singleton_left)
  ultimately show ?thesis using W(1) s1 r
    by (intro exI [of _ "W @ map (Tdh (Tdh_phymem_page_reclaim p)) (err # es)"]) (auto simp: EIO_def)
qed

lemma unpin_order:
  "\<exists>L. td_log (tdx_unpin E pfn level s) = L @ td_log s \<and> at_unpins L (\<lambda>q ys. q \<in> set (frames E pfn level))"
proof -
  have "\<exists>L. td_log (fold (\<lambda>i. td_emit (Unpinned (pfn + of_nat i))) is s) = L @ td_log s \<and>
      at_unpins L (\<lambda>q ys. q \<in> F)" if "(\<lambda>i. pfn + of_nat i) ` set is \<subseteq> F" for "is" F
    using that
  proof (induction "is" arbitrary: s)
    case (Cons i "is")
    then obtain L where "td_log (fold (\<lambda>i. td_emit (Unpinned (pfn + of_nat i))) is (td_emit (Unpinned (pfn + of_nat i)) s)) =
        L @ Unpinned (pfn + of_nat i) # td_log s" "at_unpins L (\<lambda>q ys. q \<in> F)"
      using Cons.IH [of "td_emit (Unpinned (pfn + of_nat i)) s"] Cons.prems by auto
    then show ?case using Cons.prems
      by (intro exI [of _ "L @ [Unpinned (pfn + of_nat i)]"]) (simp add: at_unpins_append at_unpins_simps)
  qed (simp add: at_unpins_simps)
  then show ?thesis by (simp add: tdx_unpin_def frames_def)
qed

text \<open>The order while the key id is assigned.\<close>

lemma remove_private_assigned:
  assumes "tdx_sept_remove_private_spte E gfn level pfn s = Some (r, s')" "is_hkid_assigned (td s)"
    and "KVM_PAGES_PER_HPAGE E (PG_LEVEL_4K E) = 1"
  shows "\<exists>L. td_log s' = L @ td_log s \<and> at_unpins L (\<lambda>q ys. \<exists>i < KVM_PAGES_PER_HPAGE E level. q = pfn + of_nat i \<and>
    (\<exists>e. subseq (page_let_go E (word_of_int (hkid (td s))) (pfn_to_hpa E pfn) i @
      [Tdh (remove_call E gfn level (td s)) 0] @ track_events (td s) e) ys))"
proof -
  let ?n = "KVM_PAGES_PER_HPAGE E level"
  obtain s2 where tr: "tdx_track E s = Some s2" and d: "tdx_sept_drop_private_spte E gfn level pfn s2 = Some (r, s')"
    using assms(1,2) by (auto simp: tdx_sept_remove_private_spte_def bind_eq_Some_conv)
  obtain T e where T: "td_log s2 = T @ td_log s" "\<And>P. at_unpins T P" "subseq (track_events (td s) e) T"
    "tdr_pa (td s2) = tdr_pa (td s)" "hkid (td s2) = hkid (td s)" using track_order [OF tr assms(2)] by blast
  define remove where "remove = remove_call E gfn level (td s)"
  have "is_hkid_assigned (td s2)" using assms(2) T(5) by (simp add: is_hkid_assigned_def)
  then obtain e3 out3 s3 where t3: "tdh_retry E (\<lambda>err. err = TDX_ERROR_SEPT_BUSY E) remove s2 = Some (e3, out3, s3)"
    and rest: "(if e3 \<noteq> 0 then Some (- EIO, kvm_bug_on True s3) else drop_pages_loop E ?n pfn (pfn_to_hpa E pfn) 0 s3) = Some (r, s')"
    using d T(4) by (auto simp: tdx_sept_drop_private_spte_def remove_def remove_call_def Let_def bind_eq_Some_conv)
  obtain es3 where s3: "td_log s3 = map (Tdh remove) (e3 # es3) @ td_log s2" "td s3 = td s2" using retry_events [OF t3] by blast
  define R where "R = map (Tdh remove) (e3 # es3) @ T"
  have R: "at_unpins R P" for P using T(2) by (simp add: R_def at_unpins_append at_unpins_calls at_unpins_simps)
  have l3: "td_log s3 = R @ td_log s" using s3(1) T(1) by (simp add: R_def)
  show ?thesis
  proof (cases "e3 = 0")
    case False
    then have "td_log s' = ([Td_warning] @ R) @ td_log s" using rest l3 by (auto simp: kvm_bug_on_def td_emit_def)
    moreover have "at_unpins ([Td_warning] @ R) P" for P using R by (simp add: at_unpins_simps)
    ultimately show ?thesis by blast
  next
    case True
    then obtain L where L: "td_log s' = L @ td_log s3" "at_unpins L (\<lambda>q ys. \<exists>i < ?n. q = pfn + of_nat i \<and>
        subseq (page_let_go E (word_of_int (hkid (td s3))) (pfn_to_hpa E pfn) i) ys)"
      using rest drop_loop_order [OF _ assms(3), of ?n pfn "pfn_to_hpa E pfn" 0 s3 r s'] by auto
    have "subseq ([Tdh remove 0] @ track_events (td s) e) R"
      unfolding R_def using True T(3) by (intro list_emb_append_mono) (simp_all add: subseq_singleton_left)
    then have "at_unpins L (\<lambda>q ys. \<exists>i < ?n. q = pfn + of_nat i \<and> (\<exists>e. subseq (page_let_go E (word_of_int (hkid (td s)))
        (pfn_to_hpa E pfn) i @ [Tdh remove 0] @ track_events (td s) e) (ys @ R)))"
      using s3(2) T(5) by (intro at_unpins_mono [OF L(2)]) (auto intro!: list_emb_append_mono)
    then show ?thesis using L(1) l3 R unfolding remove_def by (intro exI [of _ "L @ R"]) (simp add: at_unpins_append)
  qed
qed

text \<open>The order after the key id was given back.\<close>

lemma remove_private_unassigned:
  assumes "tdx_sept_remove_private_spte E gfn level pfn s = Some (r, s')" "\<not> is_hkid_assigned (td s)"
  shows "\<exists>L. td_log s' = L @ td_log s \<and> at_unpins L (\<lambda>q ys. q \<in> set (frames E pfn level) \<and>
    subseq [Cleared (pfn_to_hpa E pfn) (KVM_HPAGE_SIZE E level), Tdh (Tdh_phymem_page_reclaim (pfn_to_hpa E pfn)) 0] ys)"
proof -
  obtain c s1 where t: "tdx_reclaim_page E (pfn_to_hpa E pfn) level s = Some (c, s1)"
    and out: "(if c \<noteq> 0 then (- EIO, kvm_bug_on True s1) else (0, tdx_unpin E pfn level s1)) = (r, s')"
    using assms by (auto simp: tdx_sept_remove_private_spte_def tdx_sept_drop_private_spte_def bind_eq_Some_conv)
  have s': "s' = (if c \<noteq> 0 then kvm_bug_on True s1 else tdx_unpin E pfn level s1)" using out by (auto split: if_splits)
  obtain R where R: "td_log s1 = R @ td_log s" "\<And>P. at_unpins R P"
    "c = 0 \<longrightarrow> subseq [Cleared (pfn_to_hpa E pfn) (KVM_HPAGE_SIZE E level), Tdh (Tdh_phymem_page_reclaim (pfn_to_hpa E pfn)) 0] R"
    using reclaim_order [OF t] by blast
  show ?thesis
  proof (cases "c = 0")
    case False
    then have "td_log s' = (Td_warning # R) @ td_log s" using R(1) by (simp add: s' kvm_bug_on_def td_emit_def)
    moreover have "at_unpins (Td_warning # R) P" for P using R(2) by (simp add: at_unpins_simps)
    ultimately show ?thesis by blast
  next
    case True
    obtain L where L: "td_log s' = L @ td_log s1" "at_unpins L (\<lambda>q ys. q \<in> set (frames E pfn level))"
      using unpin_order True s' by metis
    have "at_unpins L (\<lambda>q ys. q \<in> set (frames E pfn level) \<and> subseq [Cleared (pfn_to_hpa E pfn) (KVM_HPAGE_SIZE E level),
        Tdh (Tdh_phymem_page_reclaim (pfn_to_hpa E pfn)) 0] (ys @ R))"
      using R(3) True by (intro at_unpins_mono [OF L(2)]) (auto intro: list_emb_append2)
    then show ?thesis using L(1) R(1,2) by (intro exI [of _ "L @ R"]) (simp add: at_unpins_append)
  qed
qed

text \<open>
  C15: While the key id is assigned, the removal of a private page or block lets a frame go only after, in this order, the
  tracking of the TLBs if the TD is finalised (a request to the virtual processors, then the module's tracking, which
  has succeeded or warned), the successful removal from the secure EPT, the successful write back of the frame under the
  TD's key and the clearing of its contents. Once the key id was given back, it lets a frame of the block go only
  after the module has reclaimed the block and its contents were cleared.
\<close>

theorem remove_private_order:
  assumes "tdx_sept_remove_private_spte E gfn level pfn s = Some (r, s')"
    and "KVM_PAGES_PER_HPAGE E (PG_LEVEL_4K E) = 1" "td_log s' = xs @ Unpinned q # ys @ td_log s"
  shows "if is_hkid_assigned (td s)
    then \<exists>i < KVM_PAGES_PER_HPAGE E level. q = pfn + of_nat i \<and>
      (\<exists>e. subseq (page_let_go E (word_of_int (hkid (td s))) (pfn_to_hpa E pfn) i @
         [Tdh (remove_call E gfn level (td s)) 0] @ track_events (td s) e) ys)
    else q \<in> set (frames E pfn level) \<and>
      subseq [Cleared (pfn_to_hpa E pfn) (KVM_HPAGE_SIZE E level), Tdh (Tdh_phymem_page_reclaim (pfn_to_hpa E pfn)) 0] ys"
proof -
  have at: "P q ys" if "td_log s' = L @ td_log s" "at_unpins L P" for L P
    using that assms(3) unfolding at_unpins_def by (metis append.assoc append_Cons append_same_eq)
  show ?thesis
  proof (cases "is_hkid_assigned (td s)")
    case True
    then show ?thesis using remove_private_assigned [OF assms(1) True assms(2)] at by auto
  next
    case False
    then show ?thesis using remove_private_unassigned [OF assms(1) False] at by auto
  qed
qed

theorem remove_private_order_witness:
  "\<exists>e. subseq [Cleared 0x4d000 0x1000, Tdh (Tdh_phymem_page_wbinvd 0x840000004d000) 0, Tdh (Tdh_mem_page_remove 0x1000 0x9000 0) 0,
    Tdh (Tdh_mem_track 0x1000) e, Tlb_request]
    [Cleared 0x4d000 0x1000, Tdh (Tdh_phymem_page_wbinvd 0x840000004d000) 0, Tdh (Tdh_mem_page_remove 0x1000 0x9000 0) 0,
      Tdh (Tdh_mem_track 0x1000) 0, Tlb_request]"
proof -
  obtain s' where run: "tdx_sept_remove_private_spte tdx_demo 9 1 77 demo_final_host = Some (0, s')"
    and log: "td_log s' = [] @ Unpinned 77 # [Cleared 0x4d000 0x1000, Tdh (Tdh_phymem_page_wbinvd 0x840000004d000) 0,
      Tdh (Tdh_mem_page_remove 0x1000 0x9000 0) 0, Tdh (Tdh_mem_track 0x1000) 0, Tlb_request] @ td_log demo_final_host"
    by (simp add: demo_final_host_def demo_ops demo_ops2)
  have "is_hkid_assigned (td demo_final_host)" "is_td_finalized (td demo_final_host)" "KVM_PAGES_PER_HPAGE tdx_demo (PG_LEVEL_4K tdx_demo) = 1"
    by (simp_all add: demo_final_host_def is_hkid_assigned_def is_td_finalized_def tdx_demo_def set_td_def)
  from remove_private_order [OF run this(3) log] this show ?thesis
    by (simp add: demo_final_host_def page_let_go_def remove_call_def track_events_def tdx_demo_def set_hkid_to_hpa_def set_td_def)
qed

end
