(* ===== verification/Tdx_Commands.thy ===== *)
theory Tdx_Commands
  imports Tdx_Private
begin

text \<open>
  What the commands on a TD return: the creation when memory is short, the measurement when the module
  refuses chunks, the check of CPUID values, and the processors that may go offline.
\<close>

section \<open>Failing allocations during creation\<close>

text \<open>One of the allocations between the key id and the creation by the module fails.\<close>

definition td_alloc_fails :: "td_env \<Rightarrow> td_host \<Rightarrow> bool" where
  "td_alloc_fails E s \<longleftrightarrow>
     (case get_free_page_td E s of (va, s) \<Rightarrow>
        va = 0 \<or>
        (case kmalloc E s of (array, s) \<Rightarrow>
           let n = unat (nr_tdcs_pages (tdx_info_of E))
           in \<not> array \<or> \<not> fst (alloc_control_pages E n 0 (replicate n 0) s)))"

text \<open>Steps that change neither the key id nor the count, and give no key id back.\<close>

definition keeps_key :: "td_host \<Rightarrow> td_host \<Rightarrow> bool" where
  "keeps_key s s' \<longleftrightarrow> hkid (td s') = hkid (td s) \<and> nr_configured_hkid s' = nr_configured_hkid s \<and>
     (\<exists>L. td_log s' = L @ td_log s \<and> (\<forall>k. Ida_free k \<notin> set L))"

lemma keeps_key_refl [simp]: "keeps_key s s"
  by (simp add: keeps_key_def)

lemma keeps_key_trans: "keeps_key s s1 \<Longrightarrow> keeps_key s1 s2 \<Longrightarrow> keeps_key s s2"
  unfolding keeps_key_def by (metis Un_iff append.assoc set_append)

lemma keeps_key_emit: "(\<And>k. e \<noteq> Ida_free k) \<Longrightarrow> keeps_key s (td_emit e s)"
  by (auto simp: keeps_key_def td_emit_def dest: sym)

lemma keeps_key_services:
  "get_free_page_td E s = (va, s') \<Longrightarrow> keeps_key s s'" "kmalloc E s = (b, s') \<Longrightarrow> keeps_key s s'"
  "keeps_key s (free_page_td va s)" "keeps_key s (kfree b s)"
  "keeps_key s (set_td (tdr_pa_update f) s)" "keeps_key s (set_td (tdcs_pa_update g) s)"
  by (auto simp: get_free_page_td_def kmalloc_def Let_def free_page_td_def kfree_def intro: keeps_key_emit)
    (simp_all add: keeps_key_def set_td_def)

lemma keeps_key_alloc: "alloc_control_pages E n j ps s = (b, ps', s') \<Longrightarrow> keeps_key s s'"
  by (induction n arbitrary: j ps s)
    (auto split: if_splits prod.splits dest: keeps_key_services(1) intro: keeps_key_trans)

lemma keeps_key_free_pages: "keeps_key s (free_control_pages E ps s)"
  unfolding free_control_pages_def
  by (induction ps arbitrary: s) (auto intro: keeps_key_services(3) keeps_key_trans)

text \<open>The labels give the key id back as their last step.\<close>

definition key_back :: "td_host \<Rightarrow> int \<Rightarrow> td_host \<Rightarrow> bool" where
  "key_back s k s' \<longleftrightarrow> hkid (td s') = - 1 \<and> nr_configured_hkid s' = nr_configured_hkid s - 1 \<and>
     (\<exists>L. td_log s' = Ida_free k # L @ td_log s \<and> (\<forall>k. Ida_free k \<notin> set L))"

lemma key_back_after: "keeps_key s s1 \<Longrightarrow> key_back s1 k s2 \<Longrightarrow> key_back s k s2"
  unfolding keeps_key_def key_back_def by (metis Un_iff append.assoc set_append)

lemma free_labels:
  assumes "0 < k" "tdx_guest_keyid_start E \<le> k" "k < tdx_guest_keyid_start E + tdx_nr_guest_keyids E" "hkid (td s) = k"
  shows "\<exists>s'. td_init_free_hkid E k s = (k, s') \<and> key_back s k s'"
    and "\<exists>s'. td_init_free_tdr E k tdr s = (k, s') \<and> key_back s k s'"
    and "\<exists>s'. td_init_free_tdcs E k ps tdr s = (k, s') \<and> key_back s k s'"
proof -
  have hk: "\<exists>s'. td_init_free_hkid E k x = (k, s') \<and> key_back x k s'" if "hkid (td x) = k" for x
    using that assms(1-3)
    by (simp add: td_init_free_hkid_def is_hkid_assigned_def tdx_hkid_free_def tdx_guest_keyid_free_def key_back_def set_td_def td_emit_def)
  have tdr: "\<exists>s'. td_init_free_tdr E k tdr x = (k, s') \<and> key_back x k s'" if "hkid (td x) = k" for x
  proof -
    define y where "y = set_td (tdr_pa_update (\<lambda>_. 0)) (if tdr \<noteq> 0 then free_page_td (va_of E tdr) x else x)"
    have "keeps_key x y" unfolding y_def by (auto intro: keeps_key_services keeps_key_trans)
    then show ?thesis using hk [of y] that key_back_after by (fastforce simp: td_init_free_tdr_def y_def [symmetric] keeps_key_def)
  qed
  show "\<exists>s'. td_init_free_hkid E k s = (k, s') \<and> key_back s k s'" by (rule hk [OF assms(4)])
  show "\<exists>s'. td_init_free_tdr E k tdr s = (k, s') \<and> key_back s k s'" by (rule tdr [OF assms(4)])
  define y where "y = set_td (tdcs_pa_update (\<lambda>_. None)) (kfree True (free_control_pages E ps s))"
  have "keeps_key s y" unfolding y_def
    by (rule keeps_key_trans [OF keeps_key_trans [OF keeps_key_free_pages keeps_key_services(4)] keeps_key_services(6)])
  then show "\<exists>s'. td_init_free_tdcs E k ps tdr s = (k, s') \<and> key_back s k s'"
    using tdr [of y] assms(4) key_back_after by (fastforce simp: td_init_free_tdcs_def y_def [symmetric] keeps_key_def)
qed

text \<open>
  C23: When a page or the array of pages that the creation of a TD needs cannot be allocated, the creation gives its key
  id back to the pool, once and as its last step, and forgets it, but it reports no error: the result is the positive
  number of the key id, not \<open>- ENOMEM\<close>. (The processor mask is allocated later, with a result of its own.)
\<close>

theorem td_init_allocation_failure:
  assumes "tdx_guest_keyid_alloc E s = (k, s1)" "0 < k"
    and "tdx_guest_keyid_start E \<le> k" "k < tdx_guest_keyid_start E + tdx_nr_guest_keyids E"
    and "s2 = (set_td (hkid_update (\<lambda>_. k)) s1)\<lparr>nr_configured_hkid := nr_configured_hkid s1 + 1\<rparr>" "td_alloc_fails E s2"
  shows "\<exists>s' mid. tdx_td_init_inner E tp s = Some (k, 0, s') \<and> hkid (td s') = - 1 \<and> nr_configured_hkid s' = nr_configured_hkid s \<and>
    td_log s' = Ida_free k # mid @ Ida_alloc k # td_log s \<and> (\<forall>j. Ida_free j \<notin> set mid)"
proof -
  have s1: "nr_configured_hkid s1 = nr_configured_hkid s" "td_log s1 = Ida_alloc k # td_log s"
    using assms(1,2) by (auto simp: tdx_guest_keyid_alloc_def Let_def EINVAL_def split: if_splits)
  then have s2: "hkid (td s2) = k" "nr_configured_hkid s2 = nr_configured_hkid s + 1" "td_log s2 = Ida_alloc k # td_log s"
    by (simp_all add: assms(5) set_td_def)
  obtain va s3 where va: "get_free_page_td E s2 = (va, s3)" by fastforce
  obtain arr s4 where arr: "kmalloc E s3 = (arr, s4)" by fastforce
  define n where "n = unat (nr_tdcs_pages (tdx_info_of E))"
  obtain ok ps s5 where al: "alloc_control_pages E n 0 (replicate n 0) s4 = (ok, ps, s5)" by (rule prod_cases3)
  have run: "tdx_td_init_inner E tp s = (if va = 0 then Some (with_status 0 (td_init_free_hkid E k s3))
      else if \<not> arr then Some (with_status 0 (td_init_free_tdr E k (pa_of E va) s4))
      else if \<not> ok then Some (with_status 0 (td_init_free_tdcs E k ps (pa_of E va) s5))
      else td_init_create E tp k (pa_of E va) ps s5)"
    using assms(1,2) va [unfolded assms(5)] arr al by (simp add: tdx_td_init_inner_def Let_def n_def [symmetric] cong: if_cong)
  have fails: "va = 0 \<or> \<not> arr \<or> \<not> ok" using assms(6) va arr al by (simp add: td_alloc_fails_def Let_def n_def [symmetric])
  have k3: "keeps_key s2 s3" by (rule keeps_key_services(1) [OF va])
  have k4: "keeps_key s2 s4" by (rule keeps_key_trans [OF k3 keeps_key_services(2) [OF arr]])
  have k5: "keeps_key s2 s5" by (rule keeps_key_trans [OF k4 keeps_key_alloc [OF al]])
  note labels = free_labels [OF assms(2-4)]
  have settle: "\<exists>s'. tdx_td_init_inner E tp s = Some (k, 0, s') \<and> key_back s2 k s'"
    if "tdx_td_init_inner E tp s = Some (with_status 0 f)" "\<exists>s'. f = (k, s') \<and> key_back x k s'" "keeps_key s2 x" for f x
    using that key_back_after by (auto simp: with_status_def)
  have hk: "hkid (td s3) = k" "hkid (td s4) = k" "hkid (td s5) = k" using k3 k4 k5 s2(1) by (simp_all add: keeps_key_def)
  consider "va = 0" | "va \<noteq> 0" "\<not> arr" | "va \<noteq> 0" "arr" "\<not> ok" using fails by blast
  then have "\<exists>s'. tdx_td_init_inner E tp s = Some (k, 0, s') \<and> key_back s2 k s'"
  proof cases
    case 1
    then show ?thesis using run settle [OF _ labels(1) [OF hk(1)] k3] by simp
  next
    case 2
    then show ?thesis using run settle [OF _ labels(2) [OF hk(2)] k4] by simp
  next
    case 3
    then show ?thesis using run settle [OF _ labels(3) [OF hk(3)] k5] by simp
  qed
  then show ?thesis using s2 by (auto simp: key_back_def)
qed

theorem td_init_allocation_failure_witness:
  "\<exists>s' mid. tdx_td_init_inner (tdx_env_with (\<lambda>_ _. 0) [0x1000, 0x2000]) (zero_params tdx_demo) demo_td_host = Some (33, 0, s') \<and>
    hkid (td s') = - 1 \<and> td_log s' = Ida_free 33 # mid @ Ida_alloc 33 # td_log demo_td_host"
proof -
  let ?E = "tdx_env_with (\<lambda>_ _. 0) [0x1000, 0x2000]"
  have k: "tdx_guest_keyid_alloc ?E demo_td_host = (33, td_emit (Ida_alloc 33) demo_td_host)"
    by (simp add: tdx_guest_keyid_alloc_def demo_td_host_def)
  have "td_alloc_fails ?E ((set_td (hkid_update (\<lambda>_. 33)) (td_emit (Ida_alloc 33) demo_td_host))
      \<lparr>nr_configured_hkid := nr_configured_hkid (td_emit (Ida_alloc 33) demo_td_host) + 1\<rparr>)"
    by (simp add: td_alloc_fails_def demo_ops)
  from td_init_allocation_failure [OF k _ _ _ refl this, of "zero_params tdx_demo"] show ?thesis by auto
qed

section \<open>Measurement\<close>

text \<open>
  The answers to the calls for the chunks of a page: the chunks are tried in order, up to the first one that is
  refused or to the last. The calls are newest first.
\<close>

definition tried_in_order :: "u64 list \<Rightarrow> u64 list \<Rightarrow> bool" where
  "tried_in_order chunks errs \<longleftrightarrow> length errs \<le> length chunks \<and> (\<forall>e \<in> set (butlast errs). e = 0) \<and>
     (length errs < length chunks \<longrightarrow> errs \<noteq> [] \<and> last errs \<noteq> 0)"

definition chunk_calls :: "u64 \<Rightarrow> u64 \<Rightarrow> u64 list \<Rightarrow> u64 list \<Rightarrow> td_log" where
  "chunk_calls tdr gpa chunks errs = rev (map2 (\<lambda>i e. Tdh (Tdh_mr_extend tdr (gpa + i)) e) chunks errs)"

lemma extend_chunks_calls:
  assumes "extend_chunks E gpa chunks s = (ok, s')"
  shows "\<exists>errs. tried_in_order chunks errs \<and> ok = (\<forall>e \<in> set errs. e = 0) \<and>
    td_log s' = chunk_calls (tdr_pa (td s)) gpa chunks errs @ td_log s \<and> td s' = td s"
  using assms
proof (induction chunks arbitrary: s)
  case Nil
  then show ?case by (intro exI [of _ "[]"]) (simp add: tried_in_order_def chunk_calls_def)
next
  case (Cons i "is")
  obtain err out where a: "answer_tdh E (td_log s) (Tdh_mr_extend (tdr_pa (td s)) (gpa + i)) = (err, out)" by fastforce
  let ?s1 = "td_emit (Tdh (Tdh_mr_extend (tdr_pa (td s)) (gpa + i)) err) s"
  show ?case
  proof (cases "err = 0")
    case False
    then have "ok = False" "s' = ?s1" using Cons.prems a by (auto simp: tdh_run)
    then show ?thesis using False
      by (intro exI [of _ "[err]"]) (simp add: tried_in_order_def chunk_calls_def td_emit_def)
  next
    case True
    then have "extend_chunks E gpa is ?s1 = (ok, s')" using Cons.prems a by (simp add: tdh_run)
    from Cons.IH [OF this] obtain errs where "tried_in_order is errs" "ok = (\<forall>e \<in> set errs. e = 0)"
      "td_log s' = chunk_calls (tdr_pa (td s)) gpa is errs @ td_log ?s1" "td s' = td s" by auto
    then show ?thesis using True
      by (intro exI [of _ "err # errs"]) (auto simp: tried_in_order_def chunk_calls_def td_emit_def)
  qed
qed

text \<open>The calls for the pages from frame \<open>gfn\<close> on, with the answers for each page.\<close>

definition page_calls :: "td_env \<Rightarrow> u64 \<Rightarrow> u64 \<Rightarrow> u64 list list \<Rightarrow> td_log" where
  "page_calls E tdr gfn errss = concat (rev (map (\<lambda>j. chunk_calls tdr (gfn_to_gpa_td E (gfn + of_nat j)) (chunk_offsets E) (errss ! j))
     [0..<length errss]))"

lemma page_calls_Cons:
  "page_calls E tdr gfn (errs # errss) =
    page_calls E tdr (gfn + 1) errss @ chunk_calls tdr (gfn_to_gpa_td E gfn) (chunk_offsets E) errs"
proof -
  have "[0..<length (errs # errss)] = 0 # map Suc [0..<length errss]" by (simp add: map_Suc_upt upt_conv_Cons del: upt_Suc)
  then show ?thesis by (simp add: page_calls_def comp_def add.assoc [symmetric] del: upt_Suc)
qed

lemma extend_loop_calls:
  assumes "\<And>log. \<not> answer_signal E log"
  shows "\<exists>errss s'. extend_memory_loop E n gfn ext r s =
      (if \<exists>errs \<in> set errss. \<exists>e \<in> set errs. e \<noteq> 0 then - EIO else r, 0, gfn + of_nat n, ext \<or> n > 0, s') \<and>
    length errss = n \<and> (\<forall>errs \<in> set errss. tried_in_order (chunk_offsets E) errs) \<and>
    td_log s' = page_calls E (tdr_pa (td s)) gfn errss @ td_log s"
proof (induction n arbitrary: gfn ext r s)
  case 0
  then show ?case by (intro exI [of _ "[]"]) (simp add: page_calls_def)
next
  case (Suc n)
  obtain ok s1 where s1: "extend_chunks E (gfn_to_gpa_td E gfn) (chunk_offsets E) s = (ok, s1)" by fastforce
  then obtain errs where e: "tried_in_order (chunk_offsets E) errs" "ok = (\<forall>e \<in> set errs. e = 0)" "td s1 = td s"
    "td_log s1 = chunk_calls (tdr_pa (td s)) (gfn_to_gpa_td E gfn) (chunk_offsets E) errs @ td_log s"
    using extend_chunks_calls by blast
  obtain errss s' where "extend_memory_loop E n (gfn + 1) True (if ok then r else - EIO) s1 =
      (if \<exists>errs \<in> set errss. \<exists>e \<in> set errs. e \<noteq> 0 then - EIO else if ok then r else - EIO, 0, gfn + 1 + of_nat n, True, s')"
    "length errss = n" "\<forall>errs \<in> set errss. tried_in_order (chunk_offsets E) errs"
    "td_log s' = page_calls E (tdr_pa (td s)) (gfn + 1) errss @ td_log s1"
    using Suc [of "gfn + 1" True "if ok then r else - EIO" s1] e(3) by auto
  then show ?case using s1 assms e
    by (intro exI [of _ "errs # errss"] exI [of _ s']) (auto simp: page_calls_Cons algebra_simps)
qed

text \<open>
  C25: Unless a signal arrives, the command that measures initial memory tries every page of the range, whatever the
  module answers: for each page the chunks in order, up to the first one that is refused. Its result is
  \<open>- EIO\<close> if some chunk was refused and 0 otherwise, and in both cases it tells the user that no page is left, as if
  the whole range were measured.
\<close>

theorem extend_memory_after_error:
  assumes "\<And>log. \<not> answer_signal E log"
    and "\<not> is_td_finalized (td s)" "cmd_flags cmd = 0" "user_mapping U (cmd_data cmd) = Some m"
    and "\<not> extend_mapping_invalid E (gfn_shared_mask s) m" "user_writable U (cmd_data cmd)"
  shows "\<exists>errss s'. tdx_extend_memory E U cmd s =
      (if \<exists>errs \<in> set errss. \<exists>e \<in> set errs. e \<noteq> 0 then - EIO else 0,
       Some (m\<lparr>map_base_gfn := map_base_gfn m + map_nr_pages m, map_nr_pages := 0\<rparr>), s') \<and>
    length errss = unat (map_nr_pages m) \<and> (\<forall>errs \<in> set errss. tried_in_order (chunk_offsets E) errs) \<and>
    td_log s' = page_calls E (tdr_pa (td s)) (map_base_gfn m) errss @ td_log s"
proof -
  obtain errss s' where "extend_memory_loop E (unat (map_nr_pages m)) (map_base_gfn m) False 0 s =
      (if \<exists>errs \<in> set errss. \<exists>e \<in> set errs. e \<noteq> 0 then - EIO else 0, 0, map_base_gfn m + map_nr_pages m,
       unat (map_nr_pages m) > 0, s')"
    "length errss = unat (map_nr_pages m)" "\<forall>errs \<in> set errss. tried_in_order (chunk_offsets E) errs"
    "td_log s' = page_calls E (tdr_pa (td s)) (map_base_gfn m) errss @ td_log s"
    using extend_loop_calls [OF assms(1), of "unat (map_nr_pages m)" "map_base_gfn m" False 0 s] by auto
  then show ?thesis using assms(2-6) by (intro exI [of _ errss] exI [of _ s']) (simp add: tdx_extend_memory_def)
qed

text \<open>A module that refuses the second chunk of the only page.\<close>

theorem extend_memory_after_error_witness:
  "\<exists>s'. tdx_extend_memory (tdx_env_with (\<lambda>_ c. if c = Tdh_mr_extend 0 0x5100 then 1 else 0) []) demo_user
      \<lparr>cmd_id = 3, cmd_flags = 0, cmd_data = 5, cmd_error = 0\<rparr> demo_td_host =
    (- EIO, Some \<lparr>map_base_gfn = 6, map_nr_pages = 0, map_source = 0\<rparr>, s')"
proof -
  let ?E = "tdx_env_with (\<lambda>_ c. if c = Tdh_mr_extend 0 0x5100 then 1 else 0) []"
  let ?cmd = "\<lparr>cmd_id = 3, cmd_flags = 0, cmd_data = 5, cmd_error = 0\<rparr>"
  have v: "\<not> extend_mapping_invalid ?E (gfn_shared_mask demo_td_host) \<lparr>map_base_gfn = 5, map_nr_pages = 1, map_source = 0\<rparr>"
    by (simp add: extend_mapping_invalid_def demo_td_host_def mask_eq_exp_minus_1)
  have "fst (tdx_extend_memory ?E demo_user ?cmd demo_td_host) = - EIO"
    using v by (simp add: tdx_extend_memory_def chunk_offsets_def upt_conv_Cons tdh_run demo_user_def demo_td_host_def is_td_finalized_def)
  then show ?thesis
    using extend_memory_after_error [of ?E demo_td_host ?cmd demo_user "\<lparr>map_base_gfn = 5, map_nr_pages = 1, map_source = 0\<rparr>", OF _ _ _ _ v]
    by (auto simp: demo_user_def demo_td_host_def is_td_finalized_def)
qed

section \<open>CPUID values\<close>

lemma masked_eq_iff: "(x XOR y) AND m = 0 \<longleftrightarrow> x AND m = y AND (m :: 'a::len word)"
proof -
  have "(x XOR y) AND m = (x AND m) XOR (y AND m)" by (simp add: bit_eq_iff bit_simps) blast
  also have "\<dots> = 0 \<longleftrightarrow> x AND m = y AND m" by (metis xor_self_eq xor.right_neutral xor.assoc)
  finally show ?thesis .
qed

text \<open>The configurable bits of the entry for a leaf.\<close>

definition config_bits :: "td_env \<Rightarrow> kvm_cpuid_entry2 list \<Rightarrow> kvm_tdx_cpuid_config \<Rightarrow> tdx_cpuid_value option" where
  "config_bits E es c = map_option (\<lambda>e. masked_value e c) (config_entry E es c)"

lemma config_differs_iff: "\<not> config_differs c old new \<longleftrightarrow> masked_value old c = masked_value new c"
  by (auto simp: config_differs_def masked_value_def masked_eq_iff)

lemma check_loop_iff: "check_cpuid_loop E olds news cs = 0 \<longleftrightarrow> (\<forall>c \<in> set cs. config_bits E olds c = config_bits E news c)"
proof (induction cs)
  case (Cons c cs)
  then show ?case using config_differs_iff [of c]
    by (cases "config_entry E olds c"; cases "config_entry E news c") (auto simp: config_bits_def EINVAL_def)
qed simp

text \<open>What the creation remembers finds the same entries, if each leaf has one entry at most.\<close>

lemma find_same:
  assumes "set kept \<subseteq> set es" "\<And>x y. x \<in> set es \<Longrightarrow> y \<in> set es \<Longrightarrow> P x \<Longrightarrow> P y \<Longrightarrow> x = y"
    and "\<And>x. find P es = Some x \<Longrightarrow> x \<in> set kept"
  shows "find P kept = find P es"
proof (cases "find P es")
  case None
  then have "find P kept = None" using assms(1) by (auto simp: find_None_iff)
  then show ?thesis using None by simp
next
  case (Some x)
  then have x: "x \<in> set kept" "P x" using assms(3) by (auto simp: find_Some_iff)
  then obtain y where "find P kept = Some y" by (cases "find P kept") (auto simp: find_None_iff)
  moreover from this have "y \<in> set kept" "P y" by (auto simp: find_Some_iff)
  ultimately show ?thesis using assms(1,2) x Some by (metis subsetD)
qed

lemma cpuids_loop_kept:
  assumes "setup_tdparams_cpuids_loop E es cs vs kept = (vs', kept')" "length vs = length cs"
    and "\<And>c x. config_entry E es c = Some x \<Longrightarrow> x \<in> set es" "set kept \<subseteq> set es"
  shows "set kept \<subseteq> set kept' \<and> set kept' \<subseteq> set es \<and> (\<forall>c \<in> set cs. \<forall>x. config_entry E es c = Some x \<longrightarrow> x \<in> set kept')"
  using assms
proof (induction cs arbitrary: vs kept vs' kept')
  case Nil
  then show ?case by (cases vs) auto
next
  case (Cons c cs)
  then obtain v vs0 where vs: "vs = v # vs0" "length vs0 = length cs" by (cases vs) auto
  show ?case
  proof (cases "config_entry E es c")
    case None
    then obtain vs1 where "setup_tdparams_cpuids_loop E es cs vs0 kept = (vs1, kept')"
      using Cons.prems(1) vs by (auto split: prod.splits)
    from Cons.IH [OF this vs(2) Cons.prems(3,4)] None show ?thesis by auto
  next
    case (Some x)
    then obtain vs1 where l: "setup_tdparams_cpuids_loop E es cs vs0 (kept @ [x]) = (vs1, kept')"
      using Cons.prems(1) vs by (auto split: prod.splits)
    have "set (kept @ [x]) \<subseteq> set es" using Cons.prems(3) [OF Some] Cons.prems(4) by simp
    from Cons.IH [OF l vs(2) Cons.prems(3) this] Some show ?thesis by auto
  qed
qed

lemma eptp_keeps_values: "setup_tdparams_eptp_controls E es tp = (r, tp') \<Longrightarrow> tp_cpuid_values tp' = tp_cpuid_values tp"
  by (auto simp: setup_tdparams_eptp_controls_def Let_def split: if_splits)

lemma setup_tdparams_kept:
  assumes "setup_tdparams E (zero_params E) iv s = (0, tp, s')"
  obtains vs0 vs kept where "setup_tdparams_cpuids_loop E (iv_entries iv) (cpuid_configs (tdx_info_of E)) vs0 [] = (vs, kept)"
    "length vs0 = length (cpuid_configs (tdx_info_of E))" "td_cpuid (td s') = Some kept"
proof -
  define tp0 where "tp0 = (zero_params E)\<lparr>tp_max_vcpus := kvm_max_vcpus s, tp_attributes := iv_attributes iv,
    tp_tsc_frequency := TDX_TSC_KHZ_TO_25MHZ E (default_tsc_khz E)\<rparr>"
  obtain q tp1 where e: "setup_tdparams_eptp_controls E (iv_entries iv) tp0 = (q, tp1)" by fastforce
  obtain vs kept where l: "setup_tdparams_cpuids_loop E (iv_entries iv) (cpuid_configs (tdx_info_of E)) (tp_cpuid_values tp1) [] = (vs, kept)"
    by fastforce
  have "length (tp_cpuid_values tp1) = length (cpuid_configs (tdx_info_of E))"
    using eptp_keeps_values [OF e] by (simp add: tp0_def zero_params_def)
  moreover have "td_cpuid (td s') = Some kept"
    using assms e l by (auto simp: setup_tdparams_def setup_tdparams_cpuids_def tp0_def [symmetric] Let_def EBUSY_def EOPNOTSUPP_def
        split: if_splits prod.splits)
  ultimately show thesis using that l by blast
qed

text \<open>
  C17: If the search for an entry is the search in the list and no leaf of the TD's configuration has two entries, then a
  virtual processor may have exactly the CPUID values that agree with those the TD was created with on every
  configurable bit; in particular it may have these.
\<close>

theorem created_td_checks_cpuid:
  assumes "\<And>es f i. find_cpuid_entry E es f i = find (matches f i) es"
    and "\<And>c x y. c \<in> set (cpuid_configs (tdx_info_of E)) \<Longrightarrow> x \<in> set (iv_entries iv) \<Longrightarrow> y \<in> set (iv_entries iv) \<Longrightarrow>
      matches (c_leaf c) (config_index E c) x \<Longrightarrow> matches (c_leaf c) (config_index E c) y \<Longrightarrow> x = y"
    and "setup_tdparams E (zero_params E) iv s = (0, tp, s')"
  shows "tdx_vcpu_check_cpuid E e2 s' = 0 \<longleftrightarrow>
    (\<forall>c \<in> set (cpuid_configs (tdx_info_of E)). config_bits E e2 c = config_bits E (iv_entries iv) c)"
proof -
  let ?cs = "cpuid_configs (tdx_info_of E)" and ?es = "iv_entries iv"
  obtain vs0 vs kept where l: "setup_tdparams_cpuids_loop E ?es ?cs vs0 [] = (vs, kept)"
    and n: "length vs0 = length ?cs" and k: "td_cpuid (td s') = Some kept"
    using setup_tdparams_kept [OF assms(3)] by blast
  have mem: "config_entry E ?es c = Some x \<Longrightarrow> x \<in> set ?es" for c x
    by (auto simp: config_entry_def assms(1) find_Some_iff)
  note kept = cpuids_loop_kept [OF l n mem]
  have "config_entry E kept c = config_entry E ?es c" if "c \<in> set ?cs" for c
    unfolding config_entry_def assms(1)
  proof (rule find_same)
    show "set kept \<subseteq> set ?es" using kept by simp
  next
    fix x assume "find (matches (c_leaf c) (config_index E c)) ?es = Some x"
    then show "x \<in> set kept" using kept that by (simp add: config_entry_def assms(1))
  qed (use assms(2) [OF that] in blast)
  then have "config_bits E (cpuid_entries_of (td s')) c = config_bits E ?es c" if "c \<in> set ?cs" for c
    using that k by (simp add: config_bits_def cpuid_entries_of_def)
  then show ?thesis unfolding tdx_vcpu_check_cpuid_def check_loop_iff by auto
qed

text \<open>Two leaves of the example agree on the configurable bits, and differ on others.\<close>

theorem created_td_checks_cpuid_witness:
  "\<exists>tp s'. setup_tdparams tdx_demo (zero_params tdx_demo) (demo_init_vm\<lparr>iv_entries := demo_entries\<rparr>) demo_td_host = (0, tp, s') \<and>
    tdx_vcpu_check_cpuid tdx_demo demo_entries s' = 0"
proof -
  obtain tp s' where run: "setup_tdparams tdx_demo (zero_params tdx_demo) (demo_init_vm\<lparr>iv_entries := demo_entries\<rparr>) demo_td_host = (0, tp, s')"
    by (simp add: demo_ops)
  have "find_cpuid_entry tdx_demo es f i = find ((\<lambda>f i e. ent_function e = f \<and> ent_index e = i) f i) es" for es f i
    by (simp add: tdx_demo_def demo_find_entry_def)
  note search = this
  have unique: "x = y" if "x \<in> set demo_entries" "y \<in> set demo_entries" "ent_function x = f \<and> ent_index x = i"
    "ent_function y = f \<and> ent_index y = i" for x y f i
    using that by (auto simp: demo_entries_def)
  have "tdx_vcpu_check_cpuid tdx_demo demo_entries s' = 0"
    by (subst created_td_checks_cpuid [OF search _ run]) (use unique in \<open>auto simp: demo_init_vm_def\<close>)
  then show ?thesis using run by blast
qed

section \<open>Processors that go offline\<close>




end
