(* ===== verification/Spec2Isabelle.thy ===== *)
theory Spec2Isabelle
  imports Rsa_Correctness Rmm_Correctness Rmm_Exit_Correctness Kvm_Correctness Kvm_Ranges_Correctness Kvm_Monitor_Correctness
    Tdx_Commands
begin

text \<open>
  The repository holds two prototypes of a trusted-execution service and the material around
  them. This library models and verifies the four parts that carry its logic in C:

  \<^item> the RSA-3072 signer of the x86 prototype, src/tetd_x86/s4 (bignum.h, bignum.c, sign_main.c);
  \<^item> the realm management monitor of the Arm CCA prototype, src/tetd_cca/rmm (runtime/rmi/rtt.c,
    runtime/core/handler.c, runtime/core/exit.c, and smc.h and smc-rmi.h under lib/smc/include);
  \<^item> the host of the Arm CCA prototype, the realm support of KVM under src/tetd_cca/linux/arch/arm64
    (kvm/rme.c, and rmi_smc.h, rmi_cmds.h and kvm_rme.h under include/asm), which calls the monitor;
  \<^item> the host of the x86 prototype, the TDX support of KVM in src/tetd_x86/tetd_h_g/host/kvm/tdx.c, which calls
    the TDX module.

  \<^bold>\<open>The signer.\<close> \<open>Prelude\<close> has the word and list lemmas and the loop rules that the parts share.
  \<open>Bignum\<close> has \<open>struct bn\<close> as the list of its 97 words with its value \<open>bn_val\<close>, and
  \<open>bignum_init\<close>, \<open>bignum_assign\<close>, conversion, increment, decrement, addition and subtraction,
  each with the plain variant that the source keeps in a comment (suffix \<open>_unopt\<close>).
  \<open>Bignum_Bits\<close> has the bitwise operations, comparison, shifts and bit counts;
  \<open>Bignum_Arith\<close> multiplication, division, powers and the square root; \<open>Bignum_Str\<close> parsing
  and printing over \<open>sscanf\<close> and \<open>sprintf\<close>. A destination argument is a parameter with its old
  content, and the result is its new content; aliased calls pass the same list twice.
  \<open>Montgomery\<close> has \<open>montMult\<close>, \<open>modExp\<close>, the table \<open>lut\<close>, \<open>init_lut\<close> and
  \<open>modExpLUT\<close>; \<open>Rsa_Key\<close> the key constants with a verified multiplication of their limbs;
  \<open>Rsa_Sign\<close> the conversions to and from bytes and \<open>rsa_sign\<close>. An access outside an
  array is the result \<open>None\<close>, so that a theorem that ends in \<open>Some\<close> also says that all accesses
  are in bounds. A loop that may not end is a \<open>partial_function (option)\<close>, with \<open>None\<close> for a run
  that does not return; \<open>bignum_pow\<close>, \<open>bignum_div\<close> and \<open>bignum_isqrt\<close> are of this kind,
  and the theorems on them state when they return. There is no fuel in the signer and the monitor.
  \<open>Rsa_Correctness\<close> has the properties: every routine computes its arithmetic function modulo
  the width (with the exceptions the code has), the optimised routines equal the plain ones,
  bytes and strings round-trip, and the signature is the CRT form of \<open>h ^ d mod n\<close>.

  \<^bold>\<open>The monitor.\<close> \<open>Rmm_Env\<close> has the state and the environment. What rtt.c calls in other files of
  the monitor (granules, buffer slots, the walk, the encoding of table entries) is not in the
  repository: it is a record \<open>rmm_env\<close> of functions, which answer from the log of everything
  done so far. A command maps the log to a longer log; the log has one event for each call that
  changes state (locks, mappings, writes to tables, invalidations, reference counts,
  granule states, measurements, zeroing). A failing \<open>assert\<close> is \<open>None\<close>. Two monitors
  over the log, \<open>locks\<close> and \<open>slots\<close>, count locks and buffer slots; they are instances of the
  locale \<open>log_monitor\<close>. \<open>Rmm_Smc\<close> has the encoding of function identifiers.
  \<open>Rmm_Rtt\<close> has the creation, folding and destruction of tables with the contract
  \<open>command_ok\<close>: a command that fails changes nothing of the realm, and every command releases
  its locks and slots. The locales \<open>result_command\<close> and \<open>value_command\<close> state the contract
  for the two kinds of handler and are interpreted on every command of \<open>Rmm_Rtt\<close>,
  \<open>Rmm_Map\<close> (map, unmap, read entry, block, unblock), \<open>Rmm_Data\<close> (data granules) and
  \<open>Rmm_Ripas\<close> (RIPAS of ranges). \<open>Rmm_Handler\<close> has the table of handlers, the
  dispatcher \<open>handle_ns_smc\<close>, its log and the monitor's own aborts; \<open>Rmm_Calls\<close> has sequences of
  calls as a step relation with the invariant that the monitor is quiescent between calls.
  \<open>Rmm_Exit\<close> has the exits of a realm. \<open>Rmm_Order\<close> describes the order of table writes,
  invalidations and zeroing inside one command. \<open>Rmm_Example\<close> has concrete environments,
  which also show that the hypotheses on the environment can hold; \<open>Rmm_Correctness\<close> has the
  properties of the commands and of the dispatcher, \<open>Rmm_Exit_Correctness\<close> those of the exits.

  \<^bold>\<open>The host.\<close> \<open>Kvm_Rmi\<close> has the data, the identifiers and the command wrappers, and the state: the
  record \<open>host\<close> with the realm, the pages of parameters, the static variables of rme.c and a log of everything
  done to the world outside (monitor calls with their results, pages allocated, freed and leaked, warnings). The
  monitor, the page allocator and the memory of the guest are functions of the record \<open>host_env\<close> that answer from
  the log, so the operations are analysed for every behaviour of the monitor. \<open>Kvm_Pages\<close> has delegated pages and
  single tables; \<open>Kvm_Ranges\<close> the loops over ranges (destroying data, unmapping, tearing down, folding, RIPAS);
  \<open>Kvm_Map\<close> mappings with their rollback and the population of a region; \<open>Kvm_Config\<close> versions,
  features, VMIDs and the parameters; \<open>Kvm_Realm\<close> the life of a realm and the capability of user space;
  \<open>Kvm_Rec\<close> the RECs, with \<open>None\<close> for an access outside the array of auxiliary pages.
  The loops of Kvm_Ranges follow addresses that the monitor chooses and need not end; they have fuel, and a run out of
  fuel gives the state reached, so that the invariants hold for any fuel, also for a run that is cut short. For the
  population of a region fuel beyond the number of its pages is enough, which is a theorem.

  \<open>Kvm_Invariant\<close> has the locales \<open>host_invariant\<close> and \<open>new_realm_invariant\<close>: what an invariant must promise
  about single steps, and that then every operation preserves it. \<open>Kvm_Owner\<close> interprets them on the ownership of
  pages: a monitor over the log knows the allocated and the delegated pages and stops at a delegated page that is
  freed. \<open>Kvm_Effects\<close>, \<open>Kvm_Rec_Effects\<close>, \<open>Kvm_Life\<close>, \<open>Kvm_Destroy\<close> and \<open>Kvm_Rec_Owner\<close> have the
  exact effect of the life of a realm and of its RECs, error paths included. \<open>Kvm_Phase\<close> has the phases
  of a realm and the locales \<open>log_invariant\<close> and \<open>new_log_invariant\<close>, of which the former locales are
  consequences (\<open>sublocale\<close>). \<open>Kvm_Machine\<close> has the step relation of the host, its reachable states and
  their invariant; \<open>Kvm_Rules\<close> shows that a creation raises no warning with a monitor that obeys its rules.
  \<open>Kvm_Monitor\<close> serves the calls in the host's log with \<open>handle_ns_smc\<close> of the monitor; its locale
  \<open>call_invariant\<close> carries what depends on the identifiers of the calls alone to all reachable states.
  \<open>Kvm_Example\<close> has concrete environments; \<open>Kvm_Correctness\<close> has the properties of the realm's
  life and its resources, \<open>Kvm_Ranges_Correctness\<close> those of ranges and mappings, and
  \<open>Kvm_Monitor_Correctness\<close> those of host and monitor together.

  \<^bold>\<open>The TDX host.\<close> \<open>Tdx_Env\<close> has the data and the state: the record \<open>td_host\<close> with the TD
  (\<open>struct kvm_tdx\<close>), its virtual processors (\<open>struct vcpu_tdx\<close>), the list of each processor, and a log of
  the calls of the TDX module with their status, the pages taken, freed, cleared and pinned, the key ids taken
  and given back, and the warnings. The module, the allocator, the pool of key ids and the memory of the user are
  functions of the record \<open>td_env\<close>, which answer from the log. \<open>Errno\<close> has the error numbers.
  \<open>Tdx_Params\<close> has the configuration of a TD (\<open>setup_tdparams\<close> and the check of CPUID values);
  \<open>Tdx_Life\<close> the association of virtual processors with processors, the release of the key id, the teardown
  and the creation of a TD and of its virtual processors; \<open>Tdx_Sept\<close> the callbacks of the MMU on secure
  EPT entries and tables, TLB tracking and the measurement; \<open>Tdx_Ioctl\<close> the commands of the user.
  A loop that repeats a call while the module is busy is a \<open>partial_function (option)\<close>, and an operation that
  contains one is an option: \<open>None\<close> is a run that does not return, never an error. There is no fuel.

  \<open>Tdx_Invariant\<close> has the locale \<open>td_invariant\<close>: what an invariant must promise about single events, and that then
  every operation that neither creates nor tears down keeps it. \<open>Tdx_Owner\<close> has three monitors over the
  log: \<open>own_run\<close> for the owner of each page, \<open>key_run\<close> for the key id and \<open>fin_run\<close> for the
  finalisation; \<open>Tdx_Inv\<close> has the invariant \<open>td_inv\<close> that ties them to the data structures of KVM.
  \<open>Tdx_Teardown\<close>, \<open>Tdx_Creation\<close> and \<open>Tdx_Vcpu\<close> show that the other operations keep it on every
  path, errors included; \<open>Tdx_Steps\<close> has the step relation \<open>td_step\<close>, its reachable states and their
  invariant. \<open>Tdx_Trace\<close> has what the invariant says of the log of a reachable state: pages cleared before they
  are freed, key ids given back unused, the phases of a TD. \<open>Tdx_Demo\<close> has a concrete environment with the whole life
  of a TD. \<open>Tdx_Returns\<close> shows that every operation returns; \<open>Tdx_Private\<close> has the references on private
  pages and the order in which one is removed; \<open>Tdx_Commands\<close> has the results of the commands.

  \<^bold>\<open>Hypotheses on the environment.\<close> \<open>sizes_ok\<close>: an entry maps a positive number of
  bytes that do not wrap around the address space. \<open>pack_ok\<close>: a packed error code is not \<open>RMI_SUCCESS\<close>.
  \<open>s2tte_laws\<close>: a created entry has the output address and RIPAS it was created with.
  \<open>externals_ok\<close>: the handlers of other files release what they take. For the host, \<open>smccc_ok\<close>: the encoding
  of the SMC calling convention; \<open>pages_ok\<close>: the allocator hands out pages that are neither allocated nor
  delegated, and the monitor delegates only what is not delegated and undelegates only what is;
  \<open>root_tables_ok\<close>: the root tables of the virtual machine are pages, and none of the allocator's; \<open>bitmap_ok\<close> and
  \<open>align_ok\<close>: the documented behaviour of the bitmap functions and alignment macros; \<open>pages_4k\<close>: 4K pages;
  \<open>rmm_rules\<close>: the monitor takes back a granule that has been delegated and not used since, and tells the number of
  auxiliary pages of a realm just created. A creation of a realm is a step of the
  machine whatever comes of it; without \<open>rmm_rules\<close> its error path frees a delegated page, as
  \<open>create_rd_frees_delegated\<close> shows. For the TDX host, \<open>td_env_ok\<close>: the allocator hands out unused pages of
  the direct map, the pool hands out key ids of its range or an error, and the status for missing entropy is not
  zero; \<open>calms_down\<close>: from some length of the log on, the module does not answer that it is busy, without
  which no operation with a retry loop need return; \<open>flush_rules\<close>: the virtual processors are associated with
  processors that are online, flushing one succeeds or finds that it is not associated, and from that length on
  the module does not answer that virtual processors are not flushed once each that KVM has associated is.

  \<^bold>\<open>Not modelled.\<close> Console output of the signer and its \<open>main\<close>; the assembly of SHA-256 (a parameter of
  \<open>rsa_sign\<close>) and AES; of tdx.c the entry and exit of virtual processors,
  the hypercalls of the guest, MSRs, the creation of a virtual processor's registers, the setup of the module and
  the wait of \<open>tdx_flush_tlb\<close> for another processor; the vendored Linux sources vmx.c, x86.c, the kernel's audit.c
  and log main.c, which differ from their upstream by a few lines; the locks of both hosts, whose operations run one at a time in
  the model; the exits of a REC on the host's side, whose file is not in the repository; the guest's wrappers (rsi_cmds.h); the kernel
  modules and user tests, which copy memory, call \<open>ioctl\<close> or measure time (two of the CCA host, block.c and unblock.c under
  zjx_module-src, issue IPA_BLOCK and IPA_UNBLOCK beside KVM: the monitor's side of these calls is modelled, and
  \<open>ipa_block_double_unlock\<close> shows what it does wrong; the properties of the host are about the calls of KVM); earlier copies of the
  signer (s3, rsa_test, tetd_sign_bak, td_result), of which s3/bignum.c is identical to the one
  modelled; logs and benchmark results.
\<close>

end
